(* ===== verification/Operator_Prelude.thy ===== *)
theory Operator_Prelude
  imports Main "HOL-Library.AList" "HOL-Library.Sublist"
begin

text \<open>
  What every other theory of the development shares: the collections that the component
  proofs feed to the simplifier, the Go string operations the operator uses, association
  lists as Go maps, and Go errors as values.

  A Go string is a list of bytes (\<^typ>\<open>string\<close>). The operations below treat bytes
  outside ASCII as ordinary non-space, non-letter bytes.
  A Go map is an association list whose order stands for the order in which the Go
  runtime happens to iterate over it: a theorem about every such list is a theorem
  about every iteration order.
\<close>

named_theorems go_simps "equations that evaluate Go library operations"
named_theorems err_simps "equations about Go errors"

section \<open>Strings\<close>

definition is_space :: "char \<Rightarrow> bool" where
  "is_space c \<longleftrightarrow> c \<in> {CHR 0x20, CHR 0x09, CHR 0x0A, CHR 0x0B, CHR 0x0C, CHR 0x0D}"

definition trim_left :: "string \<Rightarrow> string" where
  "trim_left s = dropWhile is_space s"

text \<open>\<^verbatim>\<open>strings.TrimSpace\<close>\<close>

definition trim_space :: "string \<Rightarrow> string" where
  "trim_space s = rev (trim_left (rev (trim_left s)))"

text \<open>\<^verbatim>\<open>strings.HasPrefix\<close> and \<^verbatim>\<open>strings.HasSuffix\<close>\<close>

definition has_prefix :: "string \<Rightarrow> string \<Rightarrow> bool" where
  "has_prefix s p \<longleftrightarrow> take (length p) s = p"

definition has_suffix :: "string \<Rightarrow> string \<Rightarrow> bool" where
  "has_suffix s p \<longleftrightarrow> has_prefix (rev s) (rev p)"

text \<open>\<^verbatim>\<open>strings.IndexByte\<close>: None is Go's -1.\<close>

fun index_byte :: "string \<Rightarrow> char \<Rightarrow> nat option" where
  "index_byte [] b = None"
| "index_byte (c # cs) b = (if c = b then Some 0 else map_option Suc (index_byte cs b))"

text \<open>\<^verbatim>\<open>strings.Split\<close> for a non-empty separator.\<close>

fun split_from :: "string \<Rightarrow> string \<Rightarrow> string \<Rightarrow> string list" where
  "split_from sep acc [] = [rev acc]"
| "split_from sep acc (c # cs) =
     (if has_prefix (c # cs) sep
      then rev acc # split_from sep [] (drop (length sep - 1) cs)
      else split_from sep (c # acc) cs)"

definition split_string :: "string \<Rightarrow> string \<Rightarrow> string list" where
  "split_string s sep = split_from sep [] s"

text \<open>\<^verbatim>\<open>strings.Join\<close>\<close>

fun join_string :: "string list \<Rightarrow> string \<Rightarrow> string" where
  "join_string [] sep = []"
| "join_string [x] sep = x"
| "join_string (x # y # zs) sep = x @ sep @ join_string (y # zs) sep"

text \<open>\<^verbatim>\<open>strings.ToLower\<close> and \<^verbatim>\<open>strings.Trim\<close> with one cut character.\<close>

definition lower_char :: "char \<Rightarrow> char" where
  "lower_char c = (if of_char c \<in> {65..90 :: nat} then char_of (of_char c + 32 :: nat) else c)"

definition to_lower :: "string \<Rightarrow> string" where
  "to_lower s = map lower_char s"

definition trim_char :: "char \<Rightarrow> string \<Rightarrow> string" where
  "trim_char b s = rev (dropWhile ((=) b) (rev (dropWhile ((=) b) s)))"

definition trim_right_char :: "char \<Rightarrow> string \<Rightarrow> string" where
  "trim_right_char b s = rev (dropWhile ((=) b) (rev s))"

lemma split_from_nonempty: "split_from sep acc s \<noteq> []"
  by (induction sep acc s rule: split_from.induct) auto

lemma split_string_nonempty [simp]: "split_string s sep \<noteq> []"
  by (simp add: split_string_def split_from_nonempty)

lemma trim_space_empty [simp]: "trim_space [] = []"
  by (simp add: trim_space_def trim_left_def)

section \<open>Numbers in text\<close>

definition is_digit :: "char \<Rightarrow> bool" where
  "is_digit c \<longleftrightarrow> of_char c \<in> {48..57 :: nat}"

definition digit_value :: "char \<Rightarrow> int" where
  "digit_value c = int (of_char c) - 48"

definition decimal_value :: "string \<Rightarrow> int" where
  "decimal_value s = foldl (\<lambda>n c. 10 * n + digit_value c) 0 s"

text \<open>
  \<^verbatim>\<open>strconv.Atoi\<close> on a 64-bit platform: an optional sign and decimal digits, an
  error (None) for anything else and for a value outside the range of int64.
\<close>

definition max_int64 :: int where "max_int64 = 2 ^ 63 - 1"
definition min_int64 :: int where "min_int64 = - (2 ^ 63)"

definition atoi :: "string \<Rightarrow> int option" where
  "atoi s =
     (let (neg, ds) =
        (case s of [] \<Rightarrow> (False, [])
         | c # cs \<Rightarrow> if c = CHR ''-'' then (True, cs)
                     else if c = CHR ''+'' then (False, cs) else (False, s))
      in if ds = [] \<or> \<not> list_all is_digit ds then None
         else let v = (if neg then - decimal_value ds else decimal_value ds)
              in if v < min_int64 \<or> max_int64 < v then None else Some v)"

text \<open>Decimal rendering: \<^verbatim>\<open>strconv.FormatInt(v, 10)\<close> and the verb \<^verbatim>\<open>%d\<close>.\<close>

definition digit_char :: "nat \<Rightarrow> char" where
  "digit_char d = char_of (48 + d)"

fun nat_digits :: "nat \<Rightarrow> string" where
  "nat_digits n = (if n < 10 then [digit_char n] else nat_digits (n div 10) @ [digit_char (n mod 10)])"

declare nat_digits.simps [simp del]

definition format_int :: "int \<Rightarrow> string" where
  "format_int i = (if i < 0 then ''-'' @ nat_digits (nat (- i)) else nat_digits (nat i))"

lemma of_char_digit_char: "d < 10 \<Longrightarrow> of_char (digit_char d) = (48 + d :: nat)"
  by (simp add: digit_char_def)

lemma digit_value_digit_char [simp]: "d < 10 \<Longrightarrow> digit_value (digit_char d) = int d"
  by (simp add: digit_value_def of_char_digit_char)

lemma is_digit_digit_char [simp]: "d < 10 \<Longrightarrow> is_digit (digit_char d)"
  by (simp add: is_digit_def of_char_digit_char)

lemma nat_digits_not_empty [simp]: "nat_digits n \<noteq> []"
  by (subst nat_digits.simps) simp

lemma nat_digits_all_digits: "list_all is_digit (nat_digits n)"
proof (induction n rule: nat_digits.induct)
  case (1 n)
  then show ?case by (cases "n < 10") (simp_all add: nat_digits.simps [of n])
qed

lemma decimal_value_nat_digits: "decimal_value (nat_digits n) = int n"
proof (induction n rule: nat_digits.induct)
  case (1 n)
  show ?case
  proof (cases "n < 10")
    case True
    then show ?thesis by (simp add: nat_digits.simps [of n] decimal_value_def)
  next
    case False
    with 1 have "decimal_value (nat_digits (n div 10)) = int (n div 10)" by simp
    with False show ?thesis
      by (simp add: nat_digits.simps [of n] decimal_value_def zdiv_int zmod_int)
  qed
qed

text \<open>Printing and reading back an int64 gives the same number.\<close>

lemma nat_digits_hd_digit: "is_digit (hd (nat_digits n))"
  using nat_digits_all_digits [of n] by (cases "nat_digits n") auto

lemma atoi_format_int:
  assumes "min_int64 \<le> v" and "v \<le> max_int64"
  shows "atoi (format_int v) = Some v"
proof (cases "v < 0")
  case True
  with assms show ?thesis
    by (simp add: format_int_def atoi_def nat_digits_all_digits decimal_value_nat_digits Let_def)
next
  case False
  obtain c cs where d: "nat_digits (nat v) = c # cs"
    by (cases "nat_digits (nat v)") auto
  then have "is_digit c" using nat_digits_hd_digit [of "nat v"] by simp
  then have "c \<noteq> CHR ''-''" and "c \<noteq> CHR ''+''" by (auto simp: is_digit_def)
  with False d show ?thesis
    using assms decimal_value_nat_digits [of "nat v"] nat_digits_all_digits [of "nat v"]
    by (simp add: format_int_def atoi_def Let_def)
qed

text \<open>
  \<^verbatim>\<open>%q\<close> (\<^verbatim>\<open>strconv.Quote\<close>) on text whose bytes are printable: the quote and the
  backslash are escaped, and the ASCII control characters with their short escapes.
\<close>

definition quote_char :: "char \<Rightarrow> string" where
  "quote_char c =
     (if c = CHR 0x22 then [CHR 0x5C, CHR 0x22]
      else if c = CHR 0x5C then [CHR 0x5C, CHR 0x5C]
      else if c = CHR 0x0A then [CHR 0x5C, CHR ''n'']
      else if c = CHR 0x0D then [CHR 0x5C, CHR ''r'']
      else if c = CHR 0x09 then [CHR 0x5C, CHR ''t'']
      else [c])"

definition quoted :: "string \<Rightarrow> string" where
  "quoted s = [CHR 0x22] @ concat (map quote_char s) @ [CHR 0x22]"

section \<open>Time\<close>

text \<open>
  \<^verbatim>\<open>time.Duration\<close> counts nanoseconds and \<^verbatim>\<open>time.Time\<close> is taken as nanoseconds on one
  clock. Both are compared and copied; the only sums are of an instant and one of the
  constants below, far from the limits of int64.
\<close>

type_synonym duration = int
type_synonym instant = int

definition second :: duration where "second = 1000000000"
definition minute :: duration where "minute = 60 * second"

lemma second_pos [simp]: "0 < second" by (simp add: second_def)
lemma minute_pos [simp]: "0 < minute" by (simp add: minute_def)

section \<open>Association lists as Go maps\<close>

abbreviation keys_of :: "('k \<times> 'v) list \<Rightarrow> 'k list" where
  "keys_of m \<equiv> map fst m"

text \<open>\<^verbatim>\<open>delete(m, k)\<close>\<close>

definition map_delete :: "'k \<Rightarrow> ('k \<times> 'v) list \<Rightarrow> ('k \<times> 'v) list" where
  "map_delete k m = filter (\<lambda>p. fst p \<noteq> k) m"

lemma map_of_map_delete: "map_of (map_delete k m) x = (if x = k then None else map_of m x)"
  by (induction m) (auto simp: map_delete_def)

lemma distinct_map_delete: "distinct (keys_of m) \<Longrightarrow> distinct (keys_of (map_delete k m))"
  by (induction m) (auto simp: map_delete_def)

lemma map_of_update_same [simp]: "map_of (AList.update k v m) k = Some v"
  by (simp add: update_conv')

lemma map_of_update: "map_of (AList.update k v m) x = (if x = k then Some v else map_of m x)"
  by (simp add: update_conv')

text \<open>Writing the value a key already has changes nothing, not even the order.\<close>

lemma update_id: "map_of m k = Some v \<Longrightarrow> AList.update k v m = m"
  by (induction m) (auto split: if_splits)

section \<open>Lists\<close>

text \<open>The first element that satisfies a test, as the operator's search loops return it.\<close>

lemma find_Some_in_set: "find P xs = Some x \<Longrightarrow> x \<in> set xs \<and> P x"
  by (auto simp: find_Some_iff)

lemma ball_enumerate: "(\<forall>p \<in> set (enumerate n xs). P (snd p)) \<longleftrightarrow> (\<forall>x \<in> set xs. P x)"
proof -
  have "snd ` set (enumerate n xs) = set xs"
    by (metis map_snd_enumerate set_map)
  then show ?thesis by (metis (no_types, lifting) image_eqI image_iff)
qed

text \<open>Keeping the first occurrence of every element, in order.\<close>

fun dedup_from :: "'a list \<Rightarrow> 'a list \<Rightarrow> 'a list" where
  "dedup_from seen [] = []"
| "dedup_from seen (x # xs) =
     (if x \<in> set seen then dedup_from seen xs else x # dedup_from (x # seen) xs)"

lemma set_dedup_from: "set (dedup_from seen xs) = set xs - set seen"
  by (induction seen xs rule: dedup_from.induct) auto

lemma distinct_dedup_from: "distinct (dedup_from seen xs)"
  by (induction seen xs rule: dedup_from.induct) (auto simp: set_dedup_from)

section \<open>Go errors\<close>

text \<open>
  The reasons of a Kubernetes API error that the operator tells apart with
  \<^verbatim>\<open>apierrors.IsNotFound\<close>, \<^verbatim>\<open>IsAlreadyExists\<close> and \<^verbatim>\<open>IsConflict\<close>.
\<close>

datatype k8s_reason = NotFound | AlreadyExists | Conflict | OtherReason

text \<open>
  A Go error: plain text, text wrapping another error (\<^verbatim>\<open>fmt.Errorf("...: %w", err)\<close>),
  a Kubernetes API error, a non-2xx answer of the Keycloak Admin API
  (\<^verbatim>\<open>*apiError\<close>: method, path, status code, status text, body), the sentinel
  \<^verbatim>\<open>ErrNoAdminCredentials\<close> with the text that follows it, a \<^verbatim>\<open>PermanentDeleteError\<close>,
  a \<^verbatim>\<open>prerequisiteError\<close> (reason, message), and \<^verbatim>\<open>errors.Join\<close> of two errors.
\<close>

datatype go_err =
    Msg string
  | Wrap string go_err
  | K8sErr k8s_reason string
  | ApiErr string string int string string
  | NoAdminCredentials string
  | PermanentDelete go_err
  | Prerequisite string string
  | Joined go_err go_err

text \<open>\<^verbatim>\<open>err.Error()\<close>\<close>

fun err_text :: "go_err \<Rightarrow> string" where
  "err_text (Msg s) = s"
| "err_text (Wrap s e) = s @ '': '' @ err_text e"
| "err_text (K8sErr r s) = s"
| "err_text (ApiErr m p c st b) = m @ '' '' @ p @ '': unexpected status '' @ st @ '': '' @ b"
| "err_text (NoAdminCredentials s) = ''no Keycloak admin credentials: '' @ s"
| "err_text (PermanentDelete e) = err_text e"
| "err_text (Prerequisite r m) = m"
| "err_text (Joined a b) = err_text a @ [CHR 0x0A] @ err_text b"

text \<open>\<^verbatim>\<open>errors.As\<close> walks the chain of wrapped errors, depth first for a joined error.\<close>

fun k8s_reason_of :: "go_err \<Rightarrow> k8s_reason option" where
  "k8s_reason_of (K8sErr r s) = Some r"
| "k8s_reason_of (Wrap s e) = k8s_reason_of e"
| "k8s_reason_of (PermanentDelete e) = k8s_reason_of e"
| "k8s_reason_of (Joined a b) =
     (case k8s_reason_of a of Some r \<Rightarrow> Some r | None \<Rightarrow> k8s_reason_of b)"
| "k8s_reason_of _ = None"

definition is_not_found :: "go_err \<Rightarrow> bool" where
  "is_not_found e \<longleftrightarrow> k8s_reason_of e = Some NotFound"

definition is_already_exists :: "go_err \<Rightarrow> bool" where
  "is_already_exists e \<longleftrightarrow> k8s_reason_of e = Some AlreadyExists"

definition is_conflict :: "go_err \<Rightarrow> bool" where
  "is_conflict e \<longleftrightarrow> k8s_reason_of e = Some Conflict"

text \<open>\<^verbatim>\<open>errors.Is(err, ErrNoAdminCredentials)\<close> and \<^verbatim>\<open>errors.As\<close> for the other error types.\<close>

fun is_no_admin_credentials :: "go_err \<Rightarrow> bool" where
  "is_no_admin_credentials (NoAdminCredentials s) = True"
| "is_no_admin_credentials (Wrap s e) = is_no_admin_credentials e"
| "is_no_admin_credentials (PermanentDelete e) = is_no_admin_credentials e"
| "is_no_admin_credentials (Joined a b) = (is_no_admin_credentials a \<or> is_no_admin_credentials b)"
| "is_no_admin_credentials _ = False"

fun is_permanent_delete :: "go_err \<Rightarrow> bool" where
  "is_permanent_delete (PermanentDelete e) = True"
| "is_permanent_delete (Wrap s e) = is_permanent_delete e"
| "is_permanent_delete (Joined a b) = (is_permanent_delete a \<or> is_permanent_delete b)"
| "is_permanent_delete _ = False"

fun api_status_of :: "go_err \<Rightarrow> int option" where
  "api_status_of (ApiErr m p c st b) = Some c"
| "api_status_of (Wrap s e) = api_status_of e"
| "api_status_of (PermanentDelete e) = api_status_of e"
| "api_status_of (Joined a b) =
     (case api_status_of a of Some c \<Rightarrow> Some c | None \<Rightarrow> api_status_of b)"
| "api_status_of _ = None"

lemma is_not_found_simps [simp]:
  "is_not_found (K8sErr r s) \<longleftrightarrow> r = NotFound"
  "is_not_found (Wrap s e) \<longleftrightarrow> is_not_found e"
  "\<not> is_not_found (Msg s)"
  "\<not> is_not_found (NoAdminCredentials s)"
  by (simp_all add: is_not_found_def)

lemma is_already_exists_simps [simp]:
  "is_already_exists (K8sErr r s) \<longleftrightarrow> r = AlreadyExists"
  "is_already_exists (Wrap s e) \<longleftrightarrow> is_already_exists e"
  "\<not> is_already_exists (Msg s)"
  by (simp_all add: is_already_exists_def)

lemma is_conflict_simps [simp]:
  "is_conflict (K8sErr r s) \<longleftrightarrow> r = Conflict"
  "is_conflict (Wrap s e) \<longleftrightarrow> is_conflict e"
  "\<not> is_conflict (Msg s)"
  by (simp_all add: is_conflict_def)

end
