(* ===== verification/Json_Value.thy ===== *)
theory Json_Value
  imports Complex_Main Operator_Prelude
begin

text \<open>
  The generic JSON values the operator works with: the Keycloak representations of
  \<^verbatim>\<open>internal/keycloak\<close> (\<^verbatim>\<open>type representation map[string]any\<close>) and the specs of the
  unstructured Kubernetes objects of \<^verbatim>\<open>internal/resources\<close>. The operations are the typed
  readers of \<^verbatim>\<open>admin.go\<close>, \<^verbatim>\<open>mergeRepresentation\<close> of \<^verbatim>\<open>clientsync.go\<close>, Go's
  \<^verbatim>\<open>reflect.DeepEqual\<close> on such values, and the conversions of \<^verbatim>\<open>realmsync.go\<close>.
  The lemmas show what merging preserves and that it is idempotent, which is what
  stops a reconciliation from finding drift for ever; the interface is the locale
  \<open>drift_merge\<close>, interpreted here on the operator's own merge.
\<close>

section \<open>Values\<close>

text \<open>
  \<^verbatim>\<open>any\<close> as \<^verbatim>\<open>encoding/json\<close> and the operator build it. A Go int, int32 or int64 is
  \<open>JInt\<close>; a float64, which is what the decoder makes of every JSON number, is \<open>JFloat\<close>
  of its exact value: the two never compare equal under \<^verbatim>\<open>reflect.DeepEqual\<close>.
\<close>

datatype json =
    JNull
  | JBool bool
  | JInt int
  | JFloat rat
  | JStr string
  | JArr "json list"
  | JObj "(string \<times> json) list"

type_synonym representation = "(string \<times> json) list"

text \<open>A Go map has every key once, at every level.\<close>

fun wf_json :: "json \<Rightarrow> bool" where
  "wf_json (JArr xs) = list_all wf_json xs"
| "wf_json (JObj m) = (distinct (keys_of m) \<and> list_all (\<lambda>p. wf_json (snd p)) m)"
| "wf_json _ = True"

definition wf_rep :: "representation \<Rightarrow> bool" where
  "wf_rep m = wf_json (JObj m)"

section \<open>Typed readers\<close>

definition string_value :: "representation \<Rightarrow> string \<Rightarrow> string" where
  "string_value rep key = (case map_of rep key of Some (JStr s) \<Rightarrow> s | _ \<Rightarrow> [])"

text \<open>\<^verbatim>\<open>int(v)\<close> on a float64 cuts the fraction off.\<close>

definition truncate_rat :: "rat \<Rightarrow> int" where
  "truncate_rat r = (if r < 0 then - \<lfloor>- r\<rfloor> else \<lfloor>r\<rfloor>)"

definition int_value :: "representation \<Rightarrow> string \<Rightarrow> int" where
  "int_value rep key =
     (case map_of rep key of
        Some (JFloat r) \<Rightarrow> truncate_rat r
      | Some (JInt i) \<Rightarrow> i
      | _ \<Rightarrow> 0)"

text \<open>\<^verbatim>\<open>value, _ := rep[key].(bool)\<close>\<close>

definition bool_field :: "representation \<Rightarrow> string \<Rightarrow> bool" where
  "bool_field rep key = (case map_of rep key of Some (JBool b) \<Rightarrow> b | _ \<Rightarrow> False)"

text \<open>Both shapes of a JSON object, \<^verbatim>\<open>representation\<close> and \<^verbatim>\<open>map[string]any\<close>, are \<open>JObj\<close>.\<close>

definition as_map :: "json \<Rightarrow> representation option" where
  "as_map v = (case v of JObj m \<Rightarrow> Some m | _ \<Rightarrow> None)"

lemma as_map_simps [simp]:
  "as_map (JObj m) = Some m" "as_map JNull = None" "as_map (JBool b) = None"
  "as_map (JInt i) = None" "as_map (JFloat r) = None" "as_map (JStr s) = None"
  "as_map (JArr xs) = None"
  by (simp_all add: as_map_def)

lemma as_map_Some_iff [simp]: "as_map v = Some m \<longleftrightarrow> v = JObj m"
  by (cases v) (auto simp: as_map_def)

section \<open>Conversions\<close>

definition bool_value :: "bool option \<Rightarrow> bool \<Rightarrow> bool" where
  "bool_value v fallback = (case v of None \<Rightarrow> fallback | Some b \<Rightarrow> b)"

definition int64_value :: "int option \<Rightarrow> int \<Rightarrow> int" where
  "int64_value v fallback = (case v of None \<Rightarrow> fallback | Some i \<Rightarrow> i)"

text \<open>
  Go's \<^verbatim>\<open>float64(i)\<close> for an int64: the nearest value with a 53-bit significand, ties to
  even. At most eleven bits are dropped, since \<open>\<bar>i\<bar> \<le> 2 ^ 63\<close>.
\<close>

definition dropped_bits :: "int \<Rightarrow> nat" where
  "dropped_bits a = (case find (\<lambda>e. a < 2 ^ (53 + e)) [0..<12] of Some e \<Rightarrow> e | None \<Rightarrow> 0)"

definition float64_of_int :: "int \<Rightarrow> rat" where
  "float64_of_int i =
     (let a = \<bar>i\<bar>; e = dropped_bits a; q = a div 2 ^ e; r = a mod 2 ^ e;
          up = (2 * r > 2 ^ e \<or> (2 * r = 2 ^ e \<and> odd q));
          m = (if up then q + 1 else q) * 2 ^ e
      in of_int (if i < 0 then - m else m))"

definition float64_value :: "int option \<Rightarrow> int \<Rightarrow> rat" where
  "float64_value v fallback = float64_of_int (int64_value v fallback)"

definition any_slice :: "string list \<Rightarrow> json list" where
  "any_slice values = map JStr values"

definition string_map :: "(string \<times> string) list \<Rightarrow> representation" where
  "string_map values = map (\<lambda>(k, v). (k, JStr v)) values"

text \<open>Up to \<open>2 ^ 53\<close> the conversion loses nothing.\<close>

lemma float64_of_int_exact:
  assumes "\<bar>i\<bar> < 2 ^ 53"
  shows "float64_of_int i = of_int i"
proof -
  have "dropped_bits \<bar>i\<bar> = 0"
    using assms by (simp add: dropped_bits_def upt_rec)
  then show ?thesis by (cases "i < 0") (simp_all add: float64_of_int_def Let_def)
qed

lemma keys_of_string_map [simp]: "keys_of (string_map m) = keys_of m"
  by (simp add: string_map_def comp_def case_prod_unfold)

lemma wf_string_map: "distinct (keys_of m) \<Longrightarrow> wf_rep (string_map m)"
  by (auto simp: wf_rep_def string_map_def comp_def case_prod_unfold list_all_iff)

section \<open>Equality\<close>

text \<open>
  \<^verbatim>\<open>reflect.DeepEqual\<close>: maps are equal when they have the same keys with deeply equal
  values, whatever the order of the entries.
\<close>

fun deep_equal :: "json \<Rightarrow> json \<Rightarrow> bool" where
  "deep_equal JNull JNull = True"
| "deep_equal (JBool a) (JBool b) = (a = b)"
| "deep_equal (JInt a) (JInt b) = (a = b)"
| "deep_equal (JFloat a) (JFloat b) = (a = b)"
| "deep_equal (JStr a) (JStr b) = (a = b)"
| "deep_equal (JArr xs) (JArr ys) = list_all2 deep_equal xs ys"
| "deep_equal (JObj m) (JObj n) =
     (length m = length n \<and>
      list_all (\<lambda>p. case map_of n (fst p) of None \<Rightarrow> False | Some w \<Rightarrow> deep_equal (snd p) w) m)"
| "deep_equal _ _ = False"

lemma deep_equal_refl: "wf_json v \<Longrightarrow> deep_equal v v"
proof (induction v rule: wf_json.induct)
  case (1 xs)
  then show ?case by (simp add: list_all_iff list_all2_same)
next
  case (2 m)
  then show ?case
    by (auto simp: list_all_iff map_of_is_SomeI)
qed auto

lemma deep_equal_rep_refl: "wf_rep m \<Longrightarrow> deep_equal (JObj m) (JObj m)"
  unfolding wf_rep_def by (rule deep_equal_refl)

section \<open>Merging\<close>

text \<open>
  \<^verbatim>\<open>mergeRepresentation(live, desired)\<close>: \<open>live\<close> with the keys of \<open>desired\<close> overwritten,
  objects merged key by key. Overwriting keeps an existing key at its place, so the
  order of \<open>live\<close> survives.
\<close>

fun merge_representation :: "representation \<Rightarrow> representation \<Rightarrow> representation" where
  "merge_representation live [] = live"
| "merge_representation live ((k, v) # desired) =
     merge_representation
       (AList.update k
          (case v of
             JObj nested \<Rightarrow>
               (case map_of live k of
                  Some (JObj current) \<Rightarrow> JObj (merge_representation current nested)
                | _ \<Rightarrow> JObj nested)
           | _ \<Rightarrow> v) live)
       desired"

text \<open>What a key of \<open>desired\<close> holds after the merge.\<close>

definition merge_value :: "json option \<Rightarrow> json \<Rightarrow> json" where
  "merge_value current v =
     (case v of
        JObj nested \<Rightarrow>
          (case current of
             Some (JObj cur) \<Rightarrow> JObj (merge_representation cur nested)
           | _ \<Rightarrow> JObj nested)
      | _ \<Rightarrow> v)"

lemma merge_representation_Cons:
  "merge_representation live ((k, v) # desired) =
     merge_representation (AList.update k (merge_value (map_of live k) v) live) desired"
  by (simp add: merge_value_def)

declare merge_representation.simps(2) [simp del]

lemma merge_lookup_other:
  "k \<notin> set (keys_of desired) \<Longrightarrow> map_of (merge_representation live desired) k = map_of live k"
proof (induction desired arbitrary: live)
  case (Cons p ds)
  then show ?case by (cases p) (simp add: merge_representation_Cons map_of_update)
qed simp

lemma merge_lookup:
  "distinct (keys_of desired) \<Longrightarrow>
   map_of (merge_representation live desired) k =
     (case map_of desired k of
        None \<Rightarrow> map_of live k
      | Some v \<Rightarrow> Some (merge_value (map_of live k) v))"
proof (induction desired arbitrary: live)
  case (Cons p ds)
  obtain a v where p: "p = (a, v)" by (cases p)
  let ?live = "AList.update a (merge_value (map_of live a) v) live"
  show ?case
  proof (cases "k = a")
    case True
    with Cons.prems p have "map_of (merge_representation ?live ds) k = map_of ?live k"
      by (intro merge_lookup_other) auto
    with True p show ?thesis by (simp add: merge_representation_Cons)
  next
    case False
    with Cons p show ?thesis
      by (simp add: merge_representation_Cons map_of_update split: option.split)
  qed
qed simp

lemma merge_keys:
  "set (keys_of (merge_representation live desired)) = set (keys_of live) \<union> set (keys_of desired)"
proof (induction desired arbitrary: live)
  case (Cons p ds)
  then show ?case by (cases p) (auto simp: merge_representation_Cons dom_update)
qed simp

text \<open>Merging keeps maps well-formed.\<close>

lemma wf_rep_Nil [simp]: "wf_rep []"
  by (simp add: wf_rep_def)

lemma wf_rep_Cons [simp]:
  "wf_rep ((k, v) # m) \<longleftrightarrow> k \<notin> set (keys_of m) \<and> wf_json v \<and> wf_rep m"
  by (auto simp: wf_rep_def)

lemma wf_rep_iff: "wf_rep m \<longleftrightarrow> distinct (keys_of m) \<and> list_all (\<lambda>p. wf_json (snd p)) m"
  by (simp add: wf_rep_def)

lemma wf_rep_map_of: "wf_rep m \<Longrightarrow> (k, v) \<in> set m \<Longrightarrow> map_of m k = Some v"
  by (simp add: wf_rep_iff)

lemma wf_json_JObj [simp]: "wf_json (JObj m) = wf_rep m"
  by (simp add: wf_rep_def)

declare wf_json.simps(2) [simp del]

lemma wf_rep_update: "wf_rep m \<Longrightarrow> wf_json v \<Longrightarrow> wf_rep (AList.update k v m)"
proof (induction m)
  case (Cons p m)
  then show ?case by (cases p) (auto simp: dom_update)
qed simp

lemma wf_rep_lookup: "wf_rep m \<Longrightarrow> map_of m k = Some v \<Longrightarrow> wf_json v"
proof (induction m)
  case (Cons p m)
  then show ?case by (cases p) (auto split: if_splits)
qed simp

lemma wf_merge: "wf_rep live \<Longrightarrow> wf_rep desired \<Longrightarrow> wf_rep (merge_representation live desired)"
proof (induction live desired rule: merge_representation.induct)
  case (2 live k v desired)
  have "wf_json (merge_value (map_of live k) v)"
    using 2 by (fastforce simp: merge_value_def split: json.splits option.splits dest: wf_rep_lookup)
  with 2 show ?case
    by (simp add: merge_representation_Cons merge_value_def wf_rep_update)
qed simp

text \<open>
  \<open>covered desired live\<close>: \<open>live\<close> already holds everything \<open>desired\<close> asks for. This is
  what "no drift" means.
\<close>

fun covered :: "representation \<Rightarrow> representation \<Rightarrow> bool" where
  "covered [] live = True"
| "covered ((k, v) # desired) live =
     ((case map_of live k of
         None \<Rightarrow> False
       | Some w \<Rightarrow>
           (case v of
              JObj nested \<Rightarrow> (case w of JObj current \<Rightarrow> covered nested current | _ \<Rightarrow> False)
            | _ \<Rightarrow> w = v))
      \<and> covered desired live)"

lemma covered_merge_id: "covered desired live \<Longrightarrow> merge_representation live desired = live"
proof (induction desired live rule: covered.induct)
  case (2 k v desired live)
  from 2 obtain w where w: "map_of live k = Some w" by (auto split: option.splits)
  have "merge_value (Some w) v = w"
    using 2 w by (auto simp: merge_value_def split: json.splits)
  with w have "AList.update k (merge_value (map_of live k) v) live = live"
    by (simp add: update_id)
  with 2 show ?case by (simp add: merge_representation_Cons)
qed simp

lemma covered_self:
  "wf_rep desired \<Longrightarrow> \<forall>(k, v) \<in> set desired. map_of live k = Some v \<Longrightarrow> covered desired live"
proof (induction desired live rule: covered.induct)
  case (2 k v desired live)
  have self: "\<forall>(k, v) \<in> set m. map_of m k = Some v" if "wf_rep m" for m :: representation
    using that by (auto simp: wf_rep_map_of)
  have "covered desired live" using 2 by auto
  moreover have "case v of JObj nested \<Rightarrow> covered nested nested | _ \<Rightarrow> True"
    using 2 self by (auto split: json.splits)
  ultimately show ?case using 2 by (auto split: json.splits)
qed simp

lemma covered_refl: "wf_rep m \<Longrightarrow> covered m m"
  by (rule covered_self) (auto simp: wf_rep_map_of)

lemma merge_covers: "wf_rep desired \<Longrightarrow> covered desired (merge_representation live desired)"
proof (induction live desired rule: merge_representation.induct)
  case (2 live k v desired)
  let ?w = "merge_value (map_of live k) v"
  let ?m = "merge_representation (AList.update k ?w live) desired"
  from 2 have "covered desired ?m" by (simp add: merge_value_def)
  moreover have "map_of ?m k = Some ?w"
    using 2 by (simp add: merge_lookup_other)
  moreover have "case v of JObj nested \<Rightarrow> (case ?w of JObj current \<Rightarrow> covered nested current | _ \<Rightarrow> False)
                 | _ \<Rightarrow> ?w = v"
    using 2 by (auto simp: merge_value_def covered_refl split: json.splits option.splits)
  ultimately show ?case by (simp add: merge_representation_Cons)
qed simp

lemma merge_idempotent:
  "wf_rep desired \<Longrightarrow>
   merge_representation (merge_representation live desired) desired = merge_representation live desired"
  by (intro covered_merge_id merge_covers)

text \<open>
  The other direction: when the operator finds no difference, everything it wants is
  there (up to the order of the entries).
\<close>

lemma deep_equal_lookup:
  "deep_equal (JObj m) (JObj n) \<Longrightarrow> map_of n k = Some w \<Longrightarrow> wf_rep m \<Longrightarrow> wf_rep n \<Longrightarrow>
   \<exists>v. map_of m k = Some v \<and> deep_equal v w"
proof -
  assume eq: "deep_equal (JObj m) (JObj n)" and k: "map_of n k = Some w"
    and wf: "wf_rep m" "wf_rep n"
  from wf have d: "distinct (keys_of m)" "distinct (keys_of n)"
    by (simp_all add: wf_rep_iff)
  have "fst p \<in> set (keys_of n)" if "p \<in> set m" for p
    using eq that by (auto simp: list_all_iff map_of_eq_None_iff split: option.splits)
  then have "set (keys_of m) \<subseteq> set (keys_of n)" by auto
  moreover have "card (set (keys_of m)) = card (set (keys_of n))"
    using eq distinct_card [OF d(1)] distinct_card [OF d(2)] by simp
  ultimately have "set (keys_of m) = set (keys_of n)"
    by (rule card_subset_eq [OF List.finite_set])
  moreover from k have "k \<in> set (keys_of n)"
    by (metis domI dom_map_of_conv_image_fst set_map)
  ultimately have "map_of m k \<noteq> None" by (metis map_of_eq_None_iff set_map)
  then obtain v where v: "map_of m k = Some v" by blast
  then have "(k, v) \<in> set m" by (rule map_of_SomeD)
  with eq k have "deep_equal v w" by (auto simp: list_all_iff)
  with v show ?thesis by blast
qed

lemma no_drift_sound:
  assumes "deep_equal (JObj live) (JObj (merge_representation live desired))"
    and "wf_rep live" and "wf_rep desired" and "map_of desired k = Some v"
  shows "\<exists>w. map_of live k = Some w \<and> deep_equal w (merge_value (map_of live k) v)"
proof -
  have "map_of (merge_representation live desired) k = Some (merge_value (map_of live k) v)"
    using assms(3,4) by (simp add: merge_lookup wf_rep_iff)
  with assms show ?thesis by (meson deep_equal_lookup wf_merge)
qed

section \<open>The contract of a drift correction\<close>

text \<open>
  Every reconciliation against Keycloak has the same shape: merge what is wanted into
  what is there, write the result when it differs, and find no difference on the next
  pass. The contract below is what that shape relies on.
\<close>

locale drift_merge =
  fixes merge :: "'l \<Rightarrow> 'd \<Rightarrow> 'l"
    and same :: "'l \<Rightarrow> 'l \<Rightarrow> bool"
    and valid_live :: "'l \<Rightarrow> bool"
    and valid_desired :: "'d \<Rightarrow> bool"
  assumes merge_again: "valid_desired d \<Longrightarrow> merge (merge l d) d = merge l d"
    and same_refl: "valid_live l \<Longrightarrow> same l l"
    and merge_valid: "valid_live l \<Longrightarrow> valid_desired d \<Longrightarrow> valid_live (merge l d)"
begin

lemma settled:
  "valid_live l \<Longrightarrow> valid_desired d \<Longrightarrow> same (merge l d) (merge (merge l d) d)"
  by (simp add: merge_again same_refl merge_valid)

text \<open>However often a pass runs, what is stored is what one pass stored.\<close>

lemma passes_stable:
  "valid_desired d \<Longrightarrow> ((\<lambda>l. merge l d) ^^ Suc n) l = merge l d"
  by (induction n) (simp_all add: merge_again)

end

interpretation rep: drift_merge merge_representation "\<lambda>a b. deep_equal (JObj a) (JObj b)" wf_rep wf_rep
  by unfold_locales
    (simp_all add: merge_idempotent wf_merge deep_equal_refl del: deep_equal.simps)

end
