(* ===== verification/Crd_Types.thy ===== *)
theory Crd_Types
  imports Operator_Prelude "HOL-Library.List_Lexorder" "HOL-Library.Char_ord"
begin

text \<open>
  The custom resources of \<^verbatim>\<open>api/v1alpha1\<close>: NetEye, KeycloakUser, KeycloakClient,
  KeycloakRealm and KeycloakAuthFlow with their specs and statuses, the defaults the
  accessors apply to objects that bypassed admission defaulting, and the release data
  that maps a NetEye version to its images.

  A Go pointer is an option. A slice or a map is an option too where the code tells nil
  from empty (a nil list means "not managed here"), and a plain list where it does not.
  An int32 or an int64 that is only copied and compared is an \<^typ>\<open>int\<close>.
\<close>

section \<open>Object metadata\<close>

text \<open>
  The part of \<^verbatim>\<open>metav1.ObjectMeta\<close> the operator reads and writes. A zero
  \<^verbatim>\<open>deletionTimestamp\<close> is \<open>meta_deleting = False\<close>.
\<close>

record owner_reference =
  or_api_version :: string
  or_kind :: string
  or_name :: string
  or_uid :: string
  or_controller :: "bool option"
  or_block_owner_deletion :: "bool option"

record object_meta =
  meta_name :: string
  meta_namespace :: string
  meta_uid :: string
  meta_generation :: int
  meta_resource_version :: string
  meta_deleting :: bool
  meta_finalizers :: "string list"
  meta_owners :: "owner_reference list"
  meta_labels :: "(string \<times> string) list"

definition new_meta :: "string \<Rightarrow> string \<Rightarrow> object_meta" where
  "new_meta namespace name =
     \<lparr>meta_name = name, meta_namespace = namespace, meta_uid = [], meta_generation = 0,
      meta_resource_version = [], meta_deleting = False, meta_finalizers = [],
      meta_owners = [], meta_labels = []\<rparr>"

lemma new_meta_simps [simp]:
  "meta_name (new_meta ns n) = n" "meta_namespace (new_meta ns n) = ns"
  "meta_owners (new_meta ns n) = []" "meta_finalizers (new_meta ns n) = []"
  "meta_deleting (new_meta ns n) = False" "meta_labels (new_meta ns n) = []"
  by (simp_all add: new_meta_def)

section \<open>NetEye\<close>

record neteye_components =
  keycloak_image :: string
  otel_collector_image :: string
  edot_gateway_image :: string
  ca_bundle_image :: string

record secret_key_selector =
  sel_name :: string
  sel_key :: string

record db_connection_spec =
  db_host :: string
  db_port :: int
  db_dbname :: string
  db_username_secret :: "secret_key_selector option"
  db_password_secret :: "secret_key_selector option"

definition default_db_name :: string where "default_db_name = ''keycloak''"
definition default_db_credentials :: string where "default_db_credentials = ''keycloak-db-credentials''"
definition default_db_username_key :: string where "default_db_username_key = ''username''"
definition default_db_password_key :: string where "default_db_password_key = ''password''"

definition effective_db_name :: "db_connection_spec option \<Rightarrow> string" where
  "effective_db_name s =
     (case s of None \<Rightarrow> default_db_name
      | Some d \<Rightarrow> if db_dbname d = [] then default_db_name else db_dbname d)"

definition effective_username_secret :: "db_connection_spec option \<Rightarrow> secret_key_selector" where
  "effective_username_secret s =
     (let dflt = \<lparr>sel_name = default_db_credentials, sel_key = default_db_username_key\<rparr>
      in case s of None \<Rightarrow> dflt
         | Some d \<Rightarrow> (case db_username_secret d of None \<Rightarrow> dflt | Some r \<Rightarrow> r))"

definition effective_password_secret :: "db_connection_spec option \<Rightarrow> secret_key_selector" where
  "effective_password_secret s =
     (let dflt = \<lparr>sel_name = default_db_credentials, sel_key = default_db_password_key\<rparr>
      in case s of None \<Rightarrow> dflt
         | Some d \<Rightarrow> (case db_password_secret d of None \<Rightarrow> dflt | Some r \<Rightarrow> r))"

record env_var =
  ev_name :: string
  ev_value :: string

record keycloak_option =
  ko_name :: string
  ko_value :: string

record identity_telemetry_spec =
  logs_enabled :: bool
  metrics_enabled :: bool
  resource_attributes :: "(string \<times> string) list"

record identity_spec =
  id_replicas :: int
  id_hostname :: string
  id_pod_extra_env_vars :: "env_var list"
  id_additional_options :: "keycloak_option list"
  id_enabled_features :: "string list"
  id_telemetry :: "identity_telemetry_spec option"
  id_db_connection :: db_connection_spec

record otel_collector_spec =
  oc_replicas :: int
  oc_basic_auth_secret_name :: string
  oc_root_ca_secret_name :: string
  oc_api_key_secret :: "secret_key_selector option"

record edot_gateway_spec =
  eg_replicas :: int
  eg_api_key_secret :: "secret_key_selector option"
  eg_root_ca_secret_name :: string

record telemetry_spec =
  tel_otel_collector :: "otel_collector_spec option"
  tel_edot_gateway :: "edot_gateway_spec option"

record elastic_stack_spec =
  es_enabled :: bool
  es_endpoints :: "string list"
  es_telemetry :: "telemetry_spec option"

definition default_collector_replicas :: int where "default_collector_replicas = 1"
definition default_collector_basic_auth :: string where "default_collector_basic_auth = ''otel-collector-basicauth''"
definition default_collector_api_key_name :: string where
  "default_collector_api_key_name = ''otel-collector-icinga-api-key-secret''"
definition default_gateway_replicas :: int where "default_gateway_replicas = 1"
definition default_gateway_api_key_name :: string where
  "default_gateway_api_key_name = ''otel-collector-apm-api-key-secret''"
definition default_api_key_key :: string where "default_api_key_key = ''api_key''"
definition default_root_ca :: string where "default_root_ca = ''neteye-root-ca''"

definition collector_effective_replicas :: "otel_collector_spec option \<Rightarrow> int" where
  "collector_effective_replicas s =
     (case s of None \<Rightarrow> default_collector_replicas
      | Some c \<Rightarrow> if oc_replicas c = 0 then default_collector_replicas else oc_replicas c)"

definition gateway_effective_replicas :: "edot_gateway_spec option \<Rightarrow> int" where
  "gateway_effective_replicas s =
     (case s of None \<Rightarrow> default_gateway_replicas
      | Some g \<Rightarrow> if eg_replicas g = 0 then default_gateway_replicas else eg_replicas g)"

definition collector_effective_basic_auth :: "otel_collector_spec option \<Rightarrow> string" where
  "collector_effective_basic_auth s =
     (case s of None \<Rightarrow> default_collector_basic_auth
      | Some c \<Rightarrow> if oc_basic_auth_secret_name c = [] then default_collector_basic_auth
                  else oc_basic_auth_secret_name c)"

definition collector_effective_root_ca :: "otel_collector_spec option \<Rightarrow> string" where
  "collector_effective_root_ca s =
     (case s of None \<Rightarrow> default_root_ca
      | Some c \<Rightarrow> if oc_root_ca_secret_name c = [] then default_root_ca else oc_root_ca_secret_name c)"

definition collector_effective_api_key :: "otel_collector_spec option \<Rightarrow> secret_key_selector" where
  "collector_effective_api_key s =
     (let dflt = \<lparr>sel_name = default_collector_api_key_name, sel_key = default_api_key_key\<rparr>
      in case s of None \<Rightarrow> dflt
         | Some c \<Rightarrow> (case oc_api_key_secret c of None \<Rightarrow> dflt | Some r \<Rightarrow> r))"

definition gateway_effective_api_key :: "edot_gateway_spec option \<Rightarrow> secret_key_selector" where
  "gateway_effective_api_key s =
     (let dflt = \<lparr>sel_name = default_gateway_api_key_name, sel_key = default_api_key_key\<rparr>
      in case s of None \<Rightarrow> dflt
         | Some g \<Rightarrow> (case eg_api_key_secret g of None \<Rightarrow> dflt | Some r \<Rightarrow> r))"

definition gateway_effective_root_ca :: "edot_gateway_spec option \<Rightarrow> string" where
  "gateway_effective_root_ca s =
     (case s of None \<Rightarrow> default_root_ca
      | Some g \<Rightarrow> if eg_root_ca_secret_name g = [] then default_root_ca else eg_root_ca_secret_name g)"

record gateway_spec =
  gw_name :: string
  gw_class_name :: string
  gw_annotations :: "(string \<times> string) list"

record neteye_spec =
  ne_version :: string
  ne_gateway :: gateway_spec
  ne_issuer_ref :: string
  ne_identity :: identity_spec
  ne_elastic_stack :: "elastic_stack_spec option"

text \<open>
  \<^verbatim>\<open>ServiceState\<close> and \<^verbatim>\<open>NetEyePhase\<close> are strings in the code; the constructors
  \<open>OtherState\<close> and \<open>OtherPhase\<close> hold any string that is none of the constants, the
  empty one of an unset status included.
\<close>

datatype service_state =
    ServiceUnknown | ServiceNotReady | ServiceReady | ServiceFailed | ServiceDisabled
  | OtherState string

datatype neteye_phase =
    PhasePendingUpgrades | PhaseNotReady | PhaseReady | PhaseFailed
  | OtherPhase string

record service_status =
  ss_status :: service_state
  ss_message :: string
  ss_resolved_image :: string

record elastic_stack_status =
  est_status :: service_state
  est_message :: string
  est_otel_collector :: "service_status option"
  est_edot_gateway :: "service_status option"

record services_status =
  svc_identity :: "service_status option"
  svc_elastic_stack :: "elastic_stack_status option"

record neteye_status =
  nst_phase :: neteye_phase
  nst_message :: string
  nst_services :: services_status
  nst_observed_generation :: int

record neteye =
  ne_meta :: object_meta
  ne_spec :: neteye_spec
  ne_status :: neteye_status

section \<open>Release data\<close>

definition current_neteye_version :: string where "current_neteye_version = ''4.51''"
definition previous_neteye_version :: string where "previous_neteye_version = ''4.50''"

definition neteye_version_map :: "(string \<times> neteye_components) list" where
  "neteye_version_map =
     [(current_neteye_version,
       \<lparr>keycloak_image = ''ghcr.io/neteye-platform/neteye-keycloak:1.0.8@sha256:5617558fab88584d7a3a034838e9babd09774ab15ee5948cad3918eb740e0520'',
        otel_collector_image = ''docker.io/otel/opentelemetry-collector-contrib:0.162.0@sha256:39923a8e431bd1f57be82411999d389fcfe40857492e4365456d97a4c1f74be6'',
        edot_gateway_image = ''docker.elastic.co/elastic-agent/elastic-otel-collector:9.5.5@sha256:e167d4a672625d7049f00b631cd2914f94d878377322f5f90dacb199f87e292f'',
        ca_bundle_image = ''docker.io/alpine:3.24.2@sha256:294b683cb724975bec92580e1e685676bd4b50bda910ddb8c51d4cabeaec77e6''\<rparr>)]"

definition related_image_keycloak_env :: string where "related_image_keycloak_env = ''RELATED_IMAGE_KEYCLOAK''"
definition related_image_otel_collector_env :: string where
  "related_image_otel_collector_env = ''RELATED_IMAGE_OTEL_COLLECTOR''"
definition related_image_edot_gateway_env :: string where
  "related_image_edot_gateway_env = ''RELATED_IMAGE_EDOT_GATEWAY''"
definition related_image_ca_bundle_env :: string where
  "related_image_ca_bundle_env = ''RELATED_IMAGE_CA_BUNDLE''"

text \<open>\<open>getenv\<close> is \<^verbatim>\<open>os.Getenv\<close>: the empty string for an unset variable.\<close>

definition image_override :: "(string \<Rightarrow> string) \<Rightarrow> string \<Rightarrow> string \<Rightarrow> string" where
  "image_override getenv var packaged =
     (let image = trim_space (getenv var) in if image \<noteq> [] then image else packaged)"

definition components_for_version :: "(string \<Rightarrow> string) \<Rightarrow> string \<Rightarrow> neteye_components option" where
  "components_for_version getenv version =
     (case map_of neteye_version_map version of
        None \<Rightarrow> None
      | Some c \<Rightarrow> Some
          \<lparr>keycloak_image = image_override getenv related_image_keycloak_env (keycloak_image c),
           otel_collector_image = image_override getenv related_image_otel_collector_env (otel_collector_image c),
           edot_gateway_image = image_override getenv related_image_edot_gateway_env (edot_gateway_image c),
           ca_bundle_image = image_override getenv related_image_ca_bundle_env (ca_bundle_image c)\<rparr>)"

definition supported_versions :: "string list" where
  "supported_versions = sort (keys_of neteye_version_map)"

definition is_supported_version :: "string \<Rightarrow> bool" where
  "is_supported_version version \<longleftrightarrow> map_of neteye_version_map version \<noteq> None"

definition is_previous_version :: "string \<Rightarrow> bool" where
  "is_previous_version version \<longleftrightarrow> version = previous_neteye_version"

definition is_latest_version :: "string \<Rightarrow> bool" where
  "is_latest_version version \<longleftrightarrow> version = current_neteye_version"

lemma latest_not_previous: "is_latest_version v \<Longrightarrow> \<not> is_previous_version v"
  by (simp add: is_latest_version_def is_previous_version_def current_neteye_version_def
      previous_neteye_version_def)

lemma latest_has_components: "is_latest_version v \<Longrightarrow> components_for_version getenv v \<noteq> None"
  by (simp add: is_latest_version_def components_for_version_def neteye_version_map_def)

lemma components_iff_supported:
  "components_for_version getenv v \<noteq> None \<longleftrightarrow> is_supported_version v"
  by (auto simp: components_for_version_def is_supported_version_def split: option.split)

lemma supported_versions_iff: "v \<in> set supported_versions \<longleftrightarrow> is_supported_version v"
  by (simp add: supported_versions_def is_supported_version_def neteye_version_map_def)

section \<open>Keycloak resources\<close>

datatype deletion_policy = PolicyOrphan | PolicyDelete | OtherPolicy string

record user_credential_spec =
  uc_secret_ref :: secret_key_selector
  uc_generate :: bool
  uc_temporary :: bool
  uc_rotation_token :: string

record keycloak_user_spec =
  us_realm :: string
  us_username :: string
  us_enabled :: "bool option"
  us_email :: string
  us_email_verified :: bool
  us_first_name :: string
  us_last_name :: string
  us_realm_roles :: "string list option"
  us_groups :: "string list option"
  us_credential :: "user_credential_spec option"
  us_deletion_policy :: deletion_policy

record keycloak_user_status =
  ust_status :: service_state
  ust_message :: string
  ust_user_id :: string
  ust_adopted :: bool
  ust_credential_rotation :: string
  ust_observed_generation :: int

record keycloak_user =
  ku_meta :: object_meta
  ku_spec :: keycloak_user_spec
  ku_status :: keycloak_user_status

record protocol_mapper =
  pm_name :: string
  pm_protocol :: string
  pm_protocol_mapper :: string
  pm_config :: "(string \<times> string) list"

record service_account_spec =
  sa_client_roles :: "(string \<times> string list) list option"

record keycloak_client_spec =
  cs_realm :: string
  cs_client_id :: string
  cs_enabled :: "bool option"
  cs_name :: string
  cs_description :: string
  cs_root_url :: string
  cs_redirect_uris :: "string list option"
  cs_web_origins :: "string list option"
  cs_attributes :: "(string \<times> string) list option"
  cs_public_client :: bool
  cs_standard_flow :: "bool option"
  cs_direct_access :: bool
  cs_allow_client_credentials_grant :: bool
  cs_service_account :: "service_account_spec option"
  cs_client_secret_ref :: "secret_key_selector option"
  cs_protocol_mappers :: "protocol_mapper list option"
  cs_default_client_scopes :: "string list option"
  cs_optional_client_scopes :: "string list option"
  cs_deletion_policy :: deletion_policy

record keycloak_client_status =
  cst_status :: service_state
  cst_message :: string
  cst_client_uuid :: string
  cst_observed_generation :: int

record keycloak_client =
  kc_meta :: object_meta
  kc_spec :: keycloak_client_spec
  kc_status :: keycloak_client_status

record realm_events =
  re_events_enabled :: "bool option"
  re_admin_events_enabled :: "bool option"
  re_admin_events_details_enabled :: "bool option"
  re_events_expiration :: "int option"
  re_admin_events_expiration :: "int option"

record realm_brute_force_protection =
  bf_protected :: "bool option"
  bf_max_delta_time_seconds :: "int option"
  bf_max_failure_wait_seconds :: "int option"
  bf_minimum_quick_login_wait_seconds :: "int option"
  bf_quick_login_check_milli_seconds :: "int option"
  bf_failure_factor :: "int option"
  bf_wait_increment_seconds :: "int option"

record realm_theme =
  rt_login :: string
  rt_admin :: string
  rt_account :: string
  rt_email :: string

record keycloak_realm_spec =
  rs_realm :: string
  rs_display_name :: string
  rs_display_name_html :: string
  rs_password_policy :: "string option"
  rs_enabled :: "bool option"
  rs_remember_me :: "bool option"
  rs_events :: realm_events
  rs_brute_force_protection :: realm_brute_force_protection
  rs_theme :: "realm_theme option"
  rs_deletion_policy :: deletion_policy

record keycloak_realm_status =
  rst_status :: service_state
  rst_message :: string
  rst_observed_generation :: int

record keycloak_realm =
  kr_meta :: object_meta
  kr_spec :: keycloak_realm_spec
  kr_status :: keycloak_realm_status

record auth_flow_config =
  afc_alias :: string
  afc_values :: "(string \<times> string) list"

text \<open>
  The API types cap the nesting of executions at three fixed levels; a level-3 execution
  has no flow.
\<close>

record auth_flow_execution_l3 =
  x3_alias :: string
  x3_requirement :: string
  x3_authenticator :: string
  x3_config :: "auth_flow_config option"

record auth_flow_spec_l3 =
  s3_alias :: string
  s3_provider :: string
  s3_executions :: "auth_flow_execution_l3 list"

record auth_flow_execution_l2 =
  x2_alias :: string
  x2_requirement :: string
  x2_authenticator :: string
  x2_config :: "auth_flow_config option"
  x2_flow :: "auth_flow_spec_l3 option"

record auth_flow_spec_l2 =
  s2_alias :: string
  s2_provider :: string
  s2_executions :: "auth_flow_execution_l2 list"

record auth_flow_execution =
  x1_alias :: string
  x1_requirement :: string
  x1_authenticator :: string
  x1_config :: "auth_flow_config option"
  x1_flow :: "auth_flow_spec_l2 option"

record keycloak_auth_flow_spec =
  fs_realm :: string
  fs_alias :: string
  fs_provider :: string
  fs_executions :: "auth_flow_execution list"
  fs_deletion_policy :: deletion_policy
  fs_bindings :: "string list"

record keycloak_auth_flow_status =
  fst_status :: service_state
  fst_message :: string
  fst_observed_generation :: int

record keycloak_auth_flow =
  kf_meta :: object_meta
  kf_spec :: keycloak_auth_flow_spec
  kf_status :: keycloak_auth_flow_status

end
