(* ===== verification/Keycloak_Options.thy ===== *)
theory Keycloak_Options
  imports Crd_Types
begin

text \<open>
  \<^verbatim>\<open>internal/keycloakconfig/options.go\<close>: the Keycloak server options and features the
  operator owns, which the admission webhook refuses in a NetEye resource and the
  Keycloak component skips when it renders the instance.
\<close>

definition http_relative_path :: string where "http_relative_path = ''/auth''"
definition infinispan_cluster_name :: string where "infinispan_cluster_name = ''neteye-k8s-ispn''"
definition instance_name :: string where "instance_name = ''neteye-kc''"
definition truststore_folder :: string where "truststore_folder = ''/opt/keycloak/conf/truststores''"
definition feature_opentelemetry_logs :: string where "feature_opentelemetry_logs = ''opentelemetry-logs''"
definition feature_opentelemetry_metrics :: string where
  "feature_opentelemetry_metrics = ''opentelemetry-metrics''"

record managed_option =
  mo_name :: string
  mo_value :: string
  mo_emit_as_server_option :: bool

text \<open>Options listed by name only have the zero value of the other two fields.\<close>

definition named_option :: "string \<Rightarrow> managed_option" where
  "named_option n = \<lparr>mo_name = n, mo_value = [], mo_emit_as_server_option = False\<rparr>"

definition managed_options :: "managed_option list" where
  "managed_options =
     [\<lparr>mo_name = ''http-relative-path'', mo_value = http_relative_path, mo_emit_as_server_option = True\<rparr>,
      \<lparr>mo_name = ''cache-embedded-cluster-name'', mo_value = infinispan_cluster_name, mo_emit_as_server_option = True\<rparr>,
      \<lparr>mo_name = ''truststore-paths'', mo_value = truststore_folder, mo_emit_as_server_option = True\<rparr>,
      named_option ''proxy-headers'',
      named_option ''telemetry-logs-enabled'',
      named_option ''telemetry-metrics-enabled'',
      named_option ''metrics-enabled'',
      named_option ''telemetry-endpoint'',
      named_option ''telemetry-protocol'',
      named_option ''telemetry-service-name'',
      named_option ''telemetry-logs-endpoint'',
      named_option ''telemetry-logs-protocol'',
      named_option ''telemetry-metrics-endpoint'',
      named_option ''telemetry-metrics-protocol'']"

definition managed_features :: "string list" where
  "managed_features = [feature_opentelemetry_logs, feature_opentelemetry_metrics]"

definition is_managed_option :: "string \<Rightarrow> bool" where
  "is_managed_option name \<longleftrightarrow> list_ex (\<lambda>opt. mo_name opt = name) managed_options"

definition is_managed_feature :: "string \<Rightarrow> bool" where
  "is_managed_feature name \<longleftrightarrow> list_ex (\<lambda>f. f = name) managed_features"

definition managed_option_names :: "string list" where
  "managed_option_names = map mo_name managed_options"

lemma is_managed_option_iff: "is_managed_option name \<longleftrightarrow> name \<in> set managed_option_names"
  by (auto simp: is_managed_option_def managed_option_names_def list_ex_iff)

lemma is_managed_feature_iff: "is_managed_feature name \<longleftrightarrow> name \<in> set managed_features"
  by (auto simp: is_managed_feature_def list_ex_iff)

end
