(* ===== verification/Admission_Webhook.thy ===== *)
theory Admission_Webhook
  imports Keycloak_Options
begin

text \<open>
  The validating webhook of \<^verbatim>\<open>api/v1alpha1/neteye_webhook.go\<close>. The validators the code
  takes from elsewhere (the Kubernetes name checks, the URL and IP parsers) are the
  fields of \<open>validation_lib\<close>, the uncached reader is the value its list call returns.
  The lemmas characterise each validator by the condition under which it reports
  nothing; the properties say exactly which creations and updates are admitted.
\<close>

section \<open>What the webhook takes from elsewhere\<close>

text \<open>
  \<^verbatim>\<open>u.IsAbs()\<close> is a non-empty scheme; \<open>pu_has_user\<close> is \<^verbatim>\<open>u.User != nil\<close>; the host name is
  the host without its port.
\<close>

record parsed_url =
  pu_scheme :: string
  pu_host :: string
  pu_hostname :: string
  pu_port :: string
  pu_has_user :: bool
  pu_raw_query :: string
  pu_fragment :: string

text \<open>
  \<^verbatim>\<open>validation.IsDNS1123Subdomain\<close> and \<^verbatim>\<open>validation.IsConfigMapKey\<close> return the list of
  issues, \<^verbatim>\<open>url.ParseRequestURI\<close> the URL or an error (None), and \<^verbatim>\<open>net.ParseIP\<close> is taken
  only as the test whether its result is not nil.
\<close>

record validation_lib =
  vl_dns1123_subdomain :: "string \<Rightarrow> string list"
  vl_config_map_key :: "string \<Rightarrow> string list"
  vl_parse_request_uri :: "string \<Rightarrow> parsed_url option"
  vl_is_ip :: "string \<Rightarrow> bool"

section \<open>Field errors\<close>

datatype path_step = Child string | Index nat | Key string

type_synonym field_path = "path_step list"

datatype field_error =
    FieldForbidden field_path string
  | FieldRequired field_path string
  | FieldInvalid field_path string string

text \<open>A rejection: an Invalid status for the named resource, or a failed list call.\<close>

datatype admission_error = Invalid string "field_error list" | ListFailed go_err

definition neteye_namespace :: string where "neteye_namespace = ''neteye-tenant-shared''"

section \<open>The validators\<close>

definition spec_path :: "string list \<Rightarrow> field_path" where
  "spec_path names = map Child (''spec'' # names)"

definition identity_telemetry_enabled :: "identity_telemetry_spec option \<Rightarrow> bool" where
  "identity_telemetry_enabled telemetry =
     (case telemetry of None \<Rightarrow> False | Some t \<Rightarrow> logs_enabled t \<or> metrics_enabled t)"

definition elastic_enabled :: "neteye_spec \<Rightarrow> bool" where
  "elastic_enabled spec = (case ne_elastic_stack spec of None \<Rightarrow> False | Some es \<Rightarrow> es_enabled es)"

text \<open>One error for every list element that fails a test, at its index.\<close>

definition indexed_errors :: "('a \<Rightarrow> bool) \<Rightarrow> (nat \<Rightarrow> 'a \<Rightarrow> field_error) \<Rightarrow> 'a list \<Rightarrow> field_error list" where
  "indexed_errors bad mk xs = map (\<lambda>(i, x). mk i x) (filter (\<lambda>(i, x). bad x) (enumerate 0 xs))"

lemma indexed_errors_empty: "indexed_errors bad mk xs = [] \<longleftrightarrow> (\<forall>x \<in> set xs. \<not> bad x)"
  using ball_enumerate [where P = "\<lambda>x. \<not> bad x"]
  by (simp add: indexed_errors_def filter_empty_conv case_prod_unfold)

definition validate_namespace :: "neteye \<Rightarrow> admission_error option" where
  "validate_namespace ne =
     (if meta_namespace (ne_meta ne) = neteye_namespace then None
      else Some (Invalid (meta_name (ne_meta ne))
             [FieldForbidden [Child ''metadata'', Child ''namespace'']
                (''NetEye resources must be created in namespace '' @ quoted neteye_namespace)]))"

definition identity_errors :: "neteye_spec \<Rightarrow> field_error list" where
  "identity_errors spec =
     (let ident = ne_identity spec in
      indexed_errors (\<lambda>opt. is_managed_option (ko_name opt))
        (\<lambda>i _. FieldForbidden (spec_path [''identity'', ''additionalOptions''] @ [Index i, Child ''name''])
                 ''option is managed by the NetEye operator'')
        (id_additional_options ident) @
      indexed_errors is_managed_feature
        (\<lambda>i _. FieldForbidden (spec_path [''identity'', ''enabledFeatures''] @ [Index i])
                 ''feature is managed by the NetEye operator'')
        (id_enabled_features ident) @
      (case id_telemetry ident of None \<Rightarrow> []
       | Some t \<Rightarrow>
           if map_of (resource_attributes t) ''service.name'' \<noteq> None
           then [FieldForbidden
                   (spec_path [''identity'', ''telemetry'', ''resourceAttributes''] @ [Key ''service.name''])
                   ''service name is managed by the NetEye operator'']
           else []) @
      (if identity_telemetry_enabled (id_telemetry ident) \<and> \<not> elastic_enabled spec
       then [FieldForbidden (spec_path [''identity'', ''telemetry''])
               ''requires elasticStack.enabled to be true'']
       else []))"

definition validate_identity :: "neteye \<Rightarrow> admission_error option" where
  "validate_identity ne =
     (let errors = identity_errors (ne_spec ne)
      in if errors = [] then None else Some (Invalid (meta_name (ne_meta ne)) errors))"

definition validate_https_url :: "validation_lib \<Rightarrow> field_path \<Rightarrow> string \<Rightarrow> field_error option" where
  "validate_https_url lib path v =
     (case vl_parse_request_uri lib v of
        None \<Rightarrow> Some (FieldInvalid path v ''must be an absolute HTTPS URL'')
      | Some u \<Rightarrow>
          if v \<noteq> trim_space v \<or> v = [] \<or> pu_scheme u = [] \<or> pu_scheme u \<noteq> ''https'' \<or>
             pu_host u = [] \<or> pu_has_user u
          then Some (FieldInvalid path v ''must be an absolute HTTPS URL'')
          else if \<not> vl_is_ip lib (pu_hostname u) \<and> vl_dns1123_subdomain lib (pu_hostname u) \<noteq> []
          then Some (FieldInvalid path v ''host must be an IP address or DNS name'')
          else None)"

definition validate_dns_hostname :: "validation_lib \<Rightarrow> field_path \<Rightarrow> string \<Rightarrow> field_error option" where
  "validate_dns_hostname lib path v =
     (let trimmed = trim_space v in
      if trimmed = [] then Some (FieldRequired path ''is required when elasticStack is enabled'')
      else if v \<noteq> trimmed then Some (FieldInvalid path v ''must not contain surrounding whitespace'')
      else let issues = vl_dns1123_subdomain lib v
           in if issues \<noteq> [] then Some (FieldInvalid path v (join_string issues '', '')) else None)"

definition option_list :: "'a option \<Rightarrow> 'a list" where
  "option_list x = (case x of None \<Rightarrow> [] | Some y \<Rightarrow> [y])"

lemma option_list_empty [simp]: "option_list x = [] \<longleftrightarrow> x = None"
  by (cases x) (simp_all add: option_list_def)

definition validate_api_key_secret ::
    "validation_lib \<Rightarrow> field_path \<Rightarrow> secret_key_selector option \<Rightarrow> field_error list" where
  "validate_api_key_secret lib path selector =
     (case selector of None \<Rightarrow> []
      | Some s \<Rightarrow>
          (let name = trim_space (sel_name s); key = trim_space (sel_key s) in
           (if name = [] then [FieldRequired (path @ [Child ''name'']) ''must be set when apiKeySecret is supplied'']
            else option_list (validate_dns_hostname lib (path @ [Child ''name'']) (sel_name s))) @
           (if key = [] then [FieldRequired (path @ [Child ''key'']) ''must be set when apiKeySecret is supplied'']
            else if sel_key s \<noteq> key
            then [FieldInvalid (path @ [Child ''key'']) (sel_key s) ''must not contain surrounding whitespace'']
            else let issues = vl_config_map_key lib key
                 in if issues \<noteq> [] then [FieldInvalid (path @ [Child ''key'']) key (join_string issues '', '')]
                    else [])))"

definition validate_edot_gateway ::
    "validation_lib \<Rightarrow> field_path \<Rightarrow> edot_gateway_spec \<Rightarrow> field_error list" where
  "validate_edot_gateway lib path config =
     validate_api_key_secret lib (path @ [Child ''apiKeySecret'']) (eg_api_key_secret config) @
     (if eg_root_ca_secret_name config \<noteq> []
      then option_list (validate_dns_hostname lib (path @ [Child ''rootCASecretName''])
                          (eg_root_ca_secret_name config))
      else [])"

definition validate_collector_reference_overrides ::
    "validation_lib \<Rightarrow> field_path \<Rightarrow> otel_collector_spec \<Rightarrow> field_error list" where
  "validate_collector_reference_overrides lib path config =
     concat (map (\<lambda>(p, v). if v \<noteq> [] then option_list (validate_dns_hostname lib p v) else [])
        [(path @ [Child ''basicAuthSecretName''], oc_basic_auth_secret_name config),
         (path @ [Child ''rootCASecretName''], oc_root_ca_secret_name config)]) @
     validate_api_key_secret lib (path @ [Child ''apiKeySecret'']) (oc_api_key_secret config)"

definition endpoint_errors :: "validation_lib \<Rightarrow> string list \<Rightarrow> field_error list" where
  "endpoint_errors lib endpoints =
     (let path = spec_path [''elasticStack'', ''elasticsearchEndpoints''] in
      if endpoints = [] then [FieldRequired path ''at least one HTTPS endpoint is required'']
      else concat (map (\<lambda>(i, e). option_list (validate_https_url lib (path @ [Index i]) e))
                     (enumerate 0 endpoints)))"

definition validate_elastic_stack :: "validation_lib \<Rightarrow> neteye \<Rightarrow> admission_error option" where
  "validate_elastic_stack lib ne =
     (let path = spec_path [''elasticStack''];
          reject = (\<lambda>errors. Some (Invalid (meta_name (ne_meta ne)) errors));
          missing = (\<lambda>names. reject [FieldRequired (path @ map Child names)
                                       ''must be set when elasticStack.enabled is true''])
      in case ne_elastic_stack (ne_spec ne) of
           None \<Rightarrow> None
         | Some es \<Rightarrow>
             if \<not> es_enabled es then None
             else case es_telemetry es of
               None \<Rightarrow> missing [''telemetry'']
             | Some t \<Rightarrow>
                 (case tel_otel_collector t of
                    None \<Rightarrow> missing [''telemetry'', ''otelCollector'']
                  | Some oc \<Rightarrow>
                      (case tel_edot_gateway t of
                         None \<Rightarrow> missing [''telemetry'', ''edotGateway'']
                       | Some eg \<Rightarrow>
                           let errors =
                             endpoint_errors lib (es_endpoints es) @
                             validate_edot_gateway lib (path @ [Child ''telemetry'', Child ''edotGateway'']) eg @
                             validate_collector_reference_overrides lib
                               (path @ [Child ''telemetry'', Child ''otelCollector'']) oc
                           in if errors = [] then None else reject errors)))"

text \<open>
  \<open>reader\<close> is None for a validator without a reader, else what listing every NetEye of
  the cluster returns.
\<close>

definition validate_single_authority ::
    "(go_err + neteye list) option \<Rightarrow> neteye \<Rightarrow> admission_error option" where
  "validate_single_authority reader obj =
     (case reader of
        None \<Rightarrow> None
      | Some (Inl e) \<Rightarrow> Some (ListFailed (Wrap ''list NetEye resources'' e))
      | Some (Inr items) \<Rightarrow>
          (case find (\<lambda>other. \<not> (meta_namespace (ne_meta other) = meta_namespace (ne_meta obj) \<and>
                                meta_name (ne_meta other) = meta_name (ne_meta obj))) items of
             None \<Rightarrow> None
           | Some other \<Rightarrow> Some (Invalid (meta_name (ne_meta obj))
               [FieldForbidden [Child ''metadata'', Child ''name'']
                 ''only one NetEye resource may manage shared NetEye platform components in this cluster''])))"

definition invalid_version_error :: "neteye \<Rightarrow> string \<Rightarrow> admission_error" where
  "invalid_version_error ne message =
     Invalid (meta_name (ne_meta ne))
       [FieldInvalid (spec_path [''version'']) (ne_version (ne_spec ne)) message]"

section \<open>Admission\<close>

definition validate_create ::
    "validation_lib \<Rightarrow> (go_err + neteye list) option \<Rightarrow> neteye \<Rightarrow> admission_error option" where
  "validate_create lib reader obj =
     (case validate_namespace obj of Some e \<Rightarrow> Some e | None \<Rightarrow>
      (case validate_identity obj of Some e \<Rightarrow> Some e | None \<Rightarrow>
       (case validate_elastic_stack lib obj of Some e \<Rightarrow> Some e | None \<Rightarrow>
          if ne_version (ne_spec obj) = current_neteye_version
          then validate_single_authority reader obj
          else Some (invalid_version_error obj
                 (''NetEye version must be '' @ current_neteye_version @ '' on create'')))))"

definition validate_update ::
    "validation_lib \<Rightarrow> (go_err + neteye list) option \<Rightarrow> neteye \<Rightarrow> neteye \<Rightarrow> admission_error option" where
  "validate_update lib reader old_obj new_obj =
     (case validate_namespace new_obj of Some e \<Rightarrow> Some e | None \<Rightarrow>
      (case validate_identity new_obj of Some e \<Rightarrow> Some e | None \<Rightarrow>
       (case validate_elastic_stack lib new_obj of Some e \<Rightarrow> Some e | None \<Rightarrow>
          let old_version = ne_version (ne_spec old_obj); new_version = ne_version (ne_spec new_obj) in
          if old_version = current_neteye_version \<and> new_version = current_neteye_version
          then validate_single_authority reader new_obj
          else if old_version = previous_neteye_version \<and> new_version = current_neteye_version
          then validate_single_authority reader new_obj
          else Some (invalid_version_error new_obj
                 (''NetEye version can only remain at '' @ current_neteye_version @ '' or upgrade from '' @
                  previous_neteye_version @ '' to '' @ current_neteye_version)))))"

definition validate_delete :: "neteye \<Rightarrow> admission_error option" where
  "validate_delete obj = None"

section \<open>What is admitted\<close>

text \<open>
  The policy in words of the resource: no managed option, feature or service name, and
  telemetry only with the Elastic Stack enabled.
\<close>

definition identity_admissible :: "neteye_spec \<Rightarrow> bool" where
  "identity_admissible spec \<longleftrightarrow>
     (\<forall>opt \<in> set (id_additional_options (ne_identity spec)). ko_name opt \<notin> set managed_option_names) \<and>
     (\<forall>f \<in> set (id_enabled_features (ne_identity spec)). f \<notin> set managed_features) \<and>
     (case id_telemetry (ne_identity spec) of None \<Rightarrow> True
      | Some t \<Rightarrow> ''service.name'' \<notin> set (keys_of (resource_attributes t)) \<and>
                  (logs_enabled t \<or> metrics_enabled t \<longrightarrow> elastic_enabled spec))"

definition dns_name_ok :: "validation_lib \<Rightarrow> string \<Rightarrow> bool" where
  "dns_name_ok lib v \<longleftrightarrow> v \<noteq> [] \<and> trim_space v = v \<and> vl_dns1123_subdomain lib v = []"

definition selector_ok :: "validation_lib \<Rightarrow> secret_key_selector option \<Rightarrow> bool" where
  "selector_ok lib selector \<longleftrightarrow>
     (case selector of None \<Rightarrow> True
      | Some s \<Rightarrow> dns_name_ok lib (sel_name s) \<and>
          sel_key s \<noteq> [] \<and> trim_space (sel_key s) = sel_key s \<and> vl_config_map_key lib (sel_key s) = [])"

definition endpoint_ok :: "validation_lib \<Rightarrow> string \<Rightarrow> bool" where
  "endpoint_ok lib e \<longleftrightarrow>
     e \<noteq> [] \<and> trim_space e = e \<and>
     (\<exists>u. vl_parse_request_uri lib e = Some u \<and> pu_scheme u = ''https'' \<and> pu_host u \<noteq> [] \<and>
          \<not> pu_has_user u \<and>
          (vl_is_ip lib (pu_hostname u) \<or> vl_dns1123_subdomain lib (pu_hostname u) = []))"

definition elastic_admissible :: "validation_lib \<Rightarrow> neteye_spec \<Rightarrow> bool" where
  "elastic_admissible lib spec \<longleftrightarrow>
     (case ne_elastic_stack spec of None \<Rightarrow> True
      | Some es \<Rightarrow> es_enabled es \<longrightarrow>
          (\<exists>t oc eg. es_telemetry es = Some t \<and> tel_otel_collector t = Some oc \<and>
             tel_edot_gateway t = Some eg \<and>
             es_endpoints es \<noteq> [] \<and> (\<forall>e \<in> set (es_endpoints es). endpoint_ok lib e) \<and>
             selector_ok lib (eg_api_key_secret eg) \<and>
             (eg_root_ca_secret_name eg = [] \<or> dns_name_ok lib (eg_root_ca_secret_name eg)) \<and>
             selector_ok lib (oc_api_key_secret oc) \<and>
             (oc_basic_auth_secret_name oc = [] \<or> dns_name_ok lib (oc_basic_auth_secret_name oc)) \<and>
             (oc_root_ca_secret_name oc = [] \<or> dns_name_ok lib (oc_root_ca_secret_name oc))))"

definition sole_authority :: "(go_err + neteye list) option \<Rightarrow> neteye \<Rightarrow> bool" where
  "sole_authority reader obj \<longleftrightarrow>
     (case reader of None \<Rightarrow> True | Some (Inl e) \<Rightarrow> False
      | Some (Inr items) \<Rightarrow> \<forall>other \<in> set items.
          meta_namespace (ne_meta other) = meta_namespace (ne_meta obj) \<and>
          meta_name (ne_meta other) = meta_name (ne_meta obj))"

lemma validate_identity_None: "validate_identity ne = None \<longleftrightarrow> identity_admissible (ne_spec ne)"
  by (auto simp: validate_identity_def identity_errors_def identity_admissible_def Let_def
      indexed_errors_empty is_managed_option_iff is_managed_feature_iff
      identity_telemetry_enabled_def map_of_eq_None_iff split: option.splits if_splits)

lemma validate_dns_hostname_None: "validate_dns_hostname lib path v = None \<longleftrightarrow> dns_name_ok lib v"
  by (auto simp: validate_dns_hostname_def dns_name_ok_def Let_def)

lemma validate_https_url_None: "validate_https_url lib path v = None \<longleftrightarrow> endpoint_ok lib v"
  by (auto simp: validate_https_url_def endpoint_ok_def split: option.splits)

lemma validate_api_key_secret_None: "validate_api_key_secret lib path s = [] \<longleftrightarrow> selector_ok lib s"
  by (auto simp: validate_api_key_secret_def selector_ok_def Let_def validate_dns_hostname_None
      dns_name_ok_def split: option.splits)

lemma endpoint_errors_None:
  "endpoint_errors lib es = [] \<longleftrightarrow> es \<noteq> [] \<and> (\<forall>e \<in> set es. endpoint_ok lib e)"
  using ball_enumerate [where P = "endpoint_ok lib" and n = 0 and xs = es]
  by (auto simp: endpoint_errors_def Let_def validate_https_url_None case_prod_unfold)

lemma validate_elastic_stack_None:
  "validate_elastic_stack lib ne = None \<longleftrightarrow> elastic_admissible lib (ne_spec ne)"
  by (auto simp: validate_elastic_stack_def elastic_admissible_def Let_def endpoint_errors_None
      validate_edot_gateway_def validate_collector_reference_overrides_def
      validate_api_key_secret_None validate_dns_hostname_None split: option.splits)

lemma validate_single_authority_None:
  "validate_single_authority reader obj = None \<longleftrightarrow> sole_authority reader obj"
  by (auto simp: validate_single_authority_def sole_authority_def find_None_iff
      dest: find_Some_in_set split: option.splits sum.splits)

lemmas admission_iffs = validate_identity_None validate_elastic_stack_None validate_single_authority_None

text \<open>
  C28. A NetEye is admitted on creation exactly when it is in the shared namespace, asks
  for nothing the operator manages, has a complete Elastic Stack configuration if it
  enables one, declares the current version, and is the only NetEye of the cluster.
\<close>

theorem create_admitted_iff:
  "validate_create lib reader obj = None \<longleftrightarrow>
     meta_namespace (ne_meta obj) = neteye_namespace \<and>
     identity_admissible (ne_spec obj) \<and>
     elastic_admissible lib (ne_spec obj) \<and>
     ne_version (ne_spec obj) = current_neteye_version \<and>
     sole_authority reader obj"
  by (auto simp: validate_create_def validate_namespace_def admission_iffs [symmetric]
      split: option.split)

text \<open>
  An update is admitted exactly under the same conditions, where the old version may
  be the current or the previous one: no downgrade, no skipped release and no change to
  an unknown version is ever admitted.
\<close>

theorem update_admitted_iff:
  "validate_update lib reader old_obj new_obj = None \<longleftrightarrow>
     meta_namespace (ne_meta new_obj) = neteye_namespace \<and>
     identity_admissible (ne_spec new_obj) \<and>
     elastic_admissible lib (ne_spec new_obj) \<and>
     ne_version (ne_spec new_obj) = current_neteye_version \<and>
     ne_version (ne_spec old_obj) \<in> {current_neteye_version, previous_neteye_version} \<and>
     sole_authority reader new_obj"
  by (auto simp: validate_update_def validate_namespace_def Let_def admission_iffs [symmetric]
      split: option.split)

end
