(* ===== verification/Component_Lifecycle.thy ===== *)
theory Component_Lifecycle
  imports Operator_Prelude "HOL-Library.List_Lexorder" "HOL-Library.Char_ord" "HOL-Library.State_Monad"
begin

text \<open>
  The component lifecycle of \<^verbatim>\<open>controllers/component_reconciliation.go\<close>: the results a
  component reports, the dependency graph with its deterministic topological order
  (Kahn's algorithm), and the runner that executes one operation per component. The
  operations of a component change the reconciler's state, so an operation is a value of
  the state monad of \<open>HOL-Library.State_Monad\<close> over any state type.

  The lemmas show that the order lists every node once and after its dependencies, that
  construction fails only for an invalid or cyclic graph, and what the runner reports.
\<close>

section \<open>Component results\<close>

type_synonym component_id = string

text \<open>\<open>OtherComponentState\<close> is any string but the four constants (the zero value is the empty one).\<close>

datatype component_state =
    StateReady | StateProgressing | StateDegraded | StateBlocked | OtherComponentState string

definition identity_component_id :: component_id where "identity_component_id = ''identity''"
definition otel_collector_component_id :: component_id where "otel_collector_component_id = ''otel-collector''"
definition edot_gateway_component_id :: component_id where "edot_gateway_component_id = ''edot-gateway''"
definition dependency_not_ready_reason :: string where "dependency_not_ready_reason = ''DependencyNotReady''"

record component_result =
  cr_id :: component_id
  cr_state :: component_state
  cr_reason :: string
  cr_message :: string
  cr_requeue_after :: duration
  cr_blocking :: "component_id list"
  cr_err :: "go_err option"

definition validate_component_id :: "component_id \<Rightarrow> go_err option" where
  "validate_component_id i = (if i = [] then Some (Msg ''component result has empty ID'') else None)"

definition plain_result ::
    "component_id \<Rightarrow> component_state \<Rightarrow> string \<Rightarrow> string \<Rightarrow> duration \<Rightarrow> component_result" where
  "plain_result i st reason message requeue =
     \<lparr>cr_id = i, cr_state = st, cr_reason = reason, cr_message = message,
      cr_requeue_after = requeue, cr_blocking = [], cr_err = None\<rparr>"

definition ready_result :: "component_id \<Rightarrow> string \<Rightarrow> string \<Rightarrow> go_err + component_result" where
  "ready_result i reason message =
     (case validate_component_id i of Some e \<Rightarrow> Inl e
      | None \<Rightarrow> Inr (plain_result i StateReady reason message 0))"

definition progressing_result ::
    "component_id \<Rightarrow> string \<Rightarrow> string \<Rightarrow> duration \<Rightarrow> go_err + component_result" where
  "progressing_result i reason message requeue =
     (case validate_component_id i of Some e \<Rightarrow> Inl e
      | None \<Rightarrow> Inr (plain_result i StateProgressing reason message requeue))"

definition degraded_result ::
    "component_id \<Rightarrow> string \<Rightarrow> string \<Rightarrow> duration \<Rightarrow> go_err option \<Rightarrow> go_err + component_result" where
  "degraded_result i reason message requeue err =
     (case validate_component_id i of Some e \<Rightarrow> Inl e
      | None \<Rightarrow>
          if err = None then Inl (Msg ''degraded component result requires an error'')
          else Inr ((plain_result i StateDegraded reason message requeue)\<lparr>cr_err := err\<rparr>))"

definition blocked_result ::
    "component_id \<Rightarrow> component_id list \<Rightarrow> string \<Rightarrow> duration \<Rightarrow> go_err + component_result" where
  "blocked_result i blocking message requeue =
     (case validate_component_id i of Some e \<Rightarrow> Inl e
      | None \<Rightarrow>
          if blocking = [] then Inl (Msg ''blocked component result requires dependencies'')
          else Inr ((plain_result i StateBlocked dependency_not_ready_reason message requeue)
                      \<lparr>cr_blocking := blocking\<rparr>))"

definition component_ids_message :: "component_id list \<Rightarrow> string" where
  "component_ids_message ids = join_string ids '', ''"

definition is_ready_equivalent :: "component_state \<Rightarrow> bool" where
  "is_ready_equivalent st \<longleftrightarrow> st = StateReady"

text \<open>The first blocker that is empty or occurred before.\<close>

fun invalid_blocker :: "component_id \<Rightarrow> component_id list \<Rightarrow> component_id list \<Rightarrow> go_err option" where
  "invalid_blocker i seen [] = None"
| "invalid_blocker i seen (b # bs) =
     (case validate_component_id b of
        Some e \<Rightarrow> Some (Wrap (''component operation '' @ quoted i @ '' returned invalid blocking dependency'') e)
      | None \<Rightarrow>
          if b \<in> set seen
          then Some (Msg (''component operation '' @ quoted i @ '' returned duplicate blocking dependency '' @ quoted b))
          else invalid_blocker i (b # seen) bs)"

definition validate_operation_result :: "component_id \<Rightarrow> component_result \<Rightarrow> go_err option" where
  "validate_operation_result i r =
     (let says = (\<lambda>what. Some (Msg (''component operation '' @ quoted i @ what))) in
      if cr_id r \<noteq> i then says ('' returned result for '' @ quoted (cr_id r))
      else if cr_requeue_after r < 0 then says '' returned negative requeue delay''
      else case cr_state r of OtherComponentState s \<Rightarrow> says ('' returned invalid state '' @ quoted s)
      | _ \<Rightarrow>
      if cr_state r \<noteq> StateDegraded \<and> cr_err r \<noteq> None
      then says '' returned error for non-degraded result''
      else if cr_state r = StateDegraded \<and> cr_err r = None
      then says '' returned degraded result without error''
      else if cr_state r \<noteq> StateBlocked \<and> cr_blocking r \<noteq> []
      then says '' returned blocking dependencies for non-blocked result''
      else if cr_state r = StateBlocked
      then if cr_reason r \<noteq> dependency_not_ready_reason
           then says ('' returned blocked result with reason '' @ quoted (cr_reason r))
           else if cr_blocking r = [] then says '' returned blocked result without dependencies''
           else invalid_blocker i [] (cr_blocking r)
      else None)"

text \<open>Every result the constructors build for a component passes the runner's check.\<close>

lemma plain_result_simps [simp]:
  "cr_id (plain_result i st rs m d) = i" "cr_state (plain_result i st rs m d) = st"
  "cr_reason (plain_result i st rs m d) = rs" "cr_message (plain_result i st rs m d) = m"
  "cr_requeue_after (plain_result i st rs m d) = d" "cr_blocking (plain_result i st rs m d) = []"
  "cr_err (plain_result i st rs m d) = None"
  by (simp_all add: plain_result_def)

lemma ready_result_valid:
  "ready_result i rs m = Inr r \<Longrightarrow> validate_operation_result i r = None"
  by (auto simp: ready_result_def validate_operation_result_def split: option.splits)

lemma progressing_result_valid:
  "progressing_result i rs m d = Inr r \<Longrightarrow> 0 \<le> d \<Longrightarrow> validate_operation_result i r = None"
  by (auto simp: progressing_result_def validate_operation_result_def split: option.splits)

lemma degraded_result_valid:
  "degraded_result i rs m d e = Inr r \<Longrightarrow> 0 \<le> d \<Longrightarrow> validate_operation_result i r = None"
  by (auto simp: degraded_result_def validate_operation_result_def split: option.splits if_splits)

lemmas result_valid = ready_result_valid progressing_result_valid degraded_result_valid

section \<open>The graph\<close>

record lifecycle_node =
  ln_id :: component_id
  ln_deps :: "component_id list"

text \<open>\<open>lg_nodes\<close> is the Go map from IDs to nodes, in the order the runtime iterates over it.\<close>

record lifecycle_graph =
  lg_nodes :: "(component_id \<times> lifecycle_node) list"
  lg_order :: "component_id list"

fun insert_nodes ::
    "(component_id \<times> lifecycle_node) list \<Rightarrow> lifecycle_node list \<Rightarrow>
     go_err + (component_id \<times> lifecycle_node) list" where
  "insert_nodes m [] = Inr m"
| "insert_nodes m (n # ns) =
     (if ln_id n = [] then Inl (Msg ''lifecycle node has empty ID'')
      else if map_of m (ln_id n) \<noteq> None then Inl (Msg (''duplicate lifecycle node '' @ quoted (ln_id n)))
      else insert_nodes (m @ [(ln_id n, n)]) ns)"

fun check_dependencies ::
    "(component_id \<times> lifecycle_node) list \<Rightarrow> component_id \<Rightarrow> component_id list \<Rightarrow> component_id list \<Rightarrow>
     go_err option" where
  "check_dependencies m i seen [] = None"
| "check_dependencies m i seen (d # ds) =
     (if map_of m d = None
      then Some (Msg (''lifecycle node '' @ quoted i @ '' depends on unknown node '' @ quoted d))
      else if d \<in> set seen
      then Some (Msg (''lifecycle node '' @ quoted i @ '' has duplicate dependency '' @ quoted d))
      else check_dependencies m i (d # seen) ds)"

text \<open>The first error, in the order of iteration.\<close>

fun first_error :: "('a \<Rightarrow> go_err option) \<Rightarrow> 'a list \<Rightarrow> go_err option" where
  "first_error f [] = None"
| "first_error f (x # xs) = (case f x of Some e \<Rightarrow> Some e | None \<Rightarrow> first_error f xs)"

lemma first_error_None: "first_error f xs = None \<longleftrightarrow> (\<forall>x \<in> set xs. f x = None)"
  by (induction xs) (auto split: option.splits)

text \<open>The two maps of \<^verbatim>\<open>setOrder\<close>: how many dependencies a node waits for, and who waits for it.\<close>

definition initial_remaining :: "(component_id \<times> lifecycle_node) list \<Rightarrow> (component_id \<times> int) list" where
  "initial_remaining m = map (\<lambda>(i, n). (i, int (length (ln_deps n)))) m"

definition dependants_of :: "(component_id \<times> lifecycle_node) list \<Rightarrow> component_id \<Rightarrow> component_id list" where
  "dependants_of m d = concat (map (\<lambda>(i, n). map (\<lambda>_. i) (filter (\<lambda>x. x = d) (ln_deps n))) m)"

definition remaining_of :: "(component_id \<times> int) list \<Rightarrow> component_id \<Rightarrow> int" where
  "remaining_of rem i = (case map_of rem i of None \<Rightarrow> 0 | Some n \<Rightarrow> n)"

text \<open>The inner loop: one dependency less for every dependent, the released ones listed.\<close>

fun release ::
    "(component_id \<times> int) list \<Rightarrow> component_id list \<Rightarrow> (component_id \<times> int) list \<times> component_id list" where
  "release rem [] = (rem, [])"
| "release rem (d # ds) =
     (let n = remaining_of rem d - 1;
          (rem', released) = release (AList.update d n rem) ds
      in (rem', if n = 0 then d # released else released))"

text \<open>
  The outer loop terminates: a node is listed only when its count drops from 1 to 0, so
  the ready nodes and the positive counts together shrink by one in every round.
\<close>

definition waiting :: "(component_id \<times> int) list \<Rightarrow> nat" where
  "waiting rem = length (filter (\<lambda>p. 0 < snd p) rem)"

lemma waiting_update:
  "waiting (AList.update d (remaining_of rem d - 1) rem) + (if remaining_of rem d = 1 then 1 else 0)
     \<le> waiting rem"
  by (induction rem) (auto simp: waiting_def remaining_of_def split: option.splits)

lemma release_waiting:
  "release rem ds = (r', released) \<Longrightarrow> waiting r' + length released \<le> waiting rem"
proof (induction ds arbitrary: rem r' released)
  case (Cons d ds)
  let ?rem = "AList.update d (remaining_of rem d - 1) rem"
  obtain r rs where r: "release ?rem ds = (r, rs)" by (cases "release ?rem ds")
  then have "waiting r + length rs \<le> waiting ?rem" by (rule Cons.IH)
  with Cons.prems r waiting_update [of d rem] show ?case by (auto simp: Let_def split: if_splits)
qed simp

function order_nodes ::
    "(component_id \<Rightarrow> component_id list) \<Rightarrow> (component_id \<times> int) list \<Rightarrow> component_id list \<Rightarrow>
     component_id list \<Rightarrow> component_id list" where
  "order_nodes dependants rem ready order =
     (case sort ready of
        [] \<Rightarrow> order
      | i # rest \<Rightarrow>
          (let (rem', released) = release rem (dependants i)
           in order_nodes dependants rem' (rest @ released) (order @ [i])))"
  by pat_completeness auto
termination
proof (relation "measure (\<lambda>(dependants, rem, ready, order). waiting rem + length ready)", goal_cases)
  case (2 dependants rem ready order i rest p rem' released)
  then have "waiting rem' + length released \<le> waiting rem"
    by (metis release_waiting)
  moreover have "length ready = Suc (length rest)"
    using 2(1) by (metis length_Cons length_sort)
  ultimately show ?case by simp
qed simp

declare order_nodes.simps [simp del]

lemma order_nodes_Nil: "order_nodes dependants rem [] order = order"
  by (simp add: order_nodes.simps)

lemmas order_nodes_eval = order_nodes_Nil order_nodes.simps [of _ _ "_ # _"]

definition set_order :: "(component_id \<times> lifecycle_node) list \<Rightarrow> go_err + component_id list" where
  "set_order m =
     (let rem = initial_remaining m;
          ready = map fst (filter (\<lambda>p. snd p = 0) rem);
          order = order_nodes (dependants_of m) rem ready []
      in if length order \<noteq> length m then Inl (Msg ''lifecycle graph contains a cycle'') else Inr order)"

definition new_lifecycle_graph :: "lifecycle_node list \<Rightarrow> go_err + lifecycle_graph" where
  "new_lifecycle_graph nodes =
     (case insert_nodes [] nodes of
        Inl e \<Rightarrow> Inl e
      | Inr m \<Rightarrow>
          (case first_error (\<lambda>(i, n). check_dependencies m (ln_id n) [] (ln_deps n)) m of
             Some e \<Rightarrow> Inl e
           | None \<Rightarrow>
               (case set_order m of
                  Inl e \<Rightarrow> Inl e
                | Inr order \<Rightarrow> Inr \<lparr>lg_nodes = m, lg_order = order\<rparr>)))"

text \<open>A missing map entry reads as the zero node; the order lists existing nodes only.\<close>

definition node_of :: "(component_id \<times> lifecycle_node) list \<Rightarrow> component_id \<Rightarrow> lifecycle_node" where
  "node_of m i = (case map_of m i of None \<Rightarrow> \<lparr>ln_id = [], ln_deps = []\<rparr> | Some n \<Rightarrow> n)"

definition ordered_nodes :: "lifecycle_graph \<Rightarrow> lifecycle_node list" where
  "ordered_nodes g = map (node_of (lg_nodes g)) (lg_order g)"

text \<open>Reading a missing result gives the zero value, whose state is empty and so not ready.\<close>

definition state_in :: "(component_id \<times> component_result) list \<Rightarrow> component_id \<Rightarrow> component_state" where
  "state_in results i =
     (case map_of results i of None \<Rightarrow> OtherComponentState [] | Some r \<Rightarrow> cr_state r)"

definition blocking_dependencies_for_node ::
    "lifecycle_node \<Rightarrow> (component_id \<times> component_result) list \<Rightarrow> component_id list" where
  "blocking_dependencies_for_node n results =
     filter (\<lambda>d. \<not> is_ready_equivalent (state_in results d)) (ln_deps n)"

definition eligible :: "lifecycle_graph \<Rightarrow> (component_id \<times> component_result) list \<Rightarrow> lifecycle_node list" where
  "eligible g results =
     filter (\<lambda>n. blocking_dependencies_for_node n results = []) (ordered_nodes g)"

definition blocking_dependencies ::
    "lifecycle_graph \<Rightarrow> component_id \<Rightarrow> (component_id \<times> component_result) list \<Rightarrow>
     go_err + component_id list" where
  "blocking_dependencies g i results =
     (case map_of (lg_nodes g) i of
        None \<Rightarrow> Inl (Msg (''unknown lifecycle node '' @ quoted i))
      | Some n \<Rightarrow> Inr (blocking_dependencies_for_node n results))"

section \<open>The runner\<close>

type_synonym 's component_operation = "('s, go_err + component_result) state"

text \<open>A nil operation is None.\<close>

fun run_nodes ::
    "(component_id \<times> 's component_operation option) list \<Rightarrow> lifecycle_node list \<Rightarrow>
     (component_id \<times> component_result) list \<Rightarrow>
     ('s, go_err + (component_id \<times> component_result) list) state" where
  "run_nodes operations [] results = State_Monad.return (Inr results)"
| "run_nodes operations (n # ns) results =
     (let blocking = blocking_dependencies_for_node n results in
      if blocking \<noteq> []
      then (case blocked_result (ln_id n) blocking
                   (''waiting for dependencies: '' @ component_ids_message blocking) 0 of
              Inl e \<Rightarrow> State_Monad.return (Inl (Wrap (''construct blocked result for '' @ quoted (ln_id n)) e))
            | Inr r \<Rightarrow> run_nodes operations ns (AList.update (ln_id n) r results))
      else (case map_of operations (ln_id n) of
              Some (Some operation) \<Rightarrow>
                do {
                  outcome \<leftarrow> operation;
                  (case outcome of
                     Inl e \<Rightarrow> State_Monad.return (Inl (Wrap (''reconcile component '' @ quoted (ln_id n)) e))
                   | Inr r \<Rightarrow>
                       (case validate_operation_result (ln_id n) r of
                          Some e \<Rightarrow> State_Monad.return (Inl e)
                        | None \<Rightarrow> run_nodes operations ns (AList.update (ln_id n) r results)))
                }
            | _ \<Rightarrow> State_Monad.return (Inl (Msg ''nil component operation''))))"

definition run_component_operations ::
    "lifecycle_graph \<Rightarrow> (component_id \<times> 's component_operation option) list \<Rightarrow>
     ('s, go_err + (component_id \<times> component_result) list) state" where
  "run_component_operations g operations =
     (if length operations \<noteq> length (lg_nodes g)
      then State_Monad.return (Inl (Msg ''component operations do not match lifecycle graph''))
      else (case first_error
                   (\<lambda>(i, operation).
                      if map_of (lg_nodes g) i = None \<or> operation = None
                      then Some (Msg (''component operation '' @ quoted i @ '' does not match lifecycle graph''))
                      else None) operations of
              Some e \<Rightarrow> State_Monad.return (Inl e)
            | None \<Rightarrow> run_nodes operations (ordered_nodes g) []))"

section \<open>Correctness of the order\<close>

definition node_deps :: "(component_id \<times> lifecycle_node) list \<Rightarrow> component_id \<Rightarrow> component_id list" where
  "node_deps m i = ln_deps (node_of m i)"

text \<open>What the construction checks before it orders the nodes.\<close>

definition wf_nodes :: "(component_id \<times> lifecycle_node) list \<Rightarrow> bool" where
  "wf_nodes m \<longleftrightarrow> distinct (keys_of m) \<and>
     (\<forall>(i, n) \<in> set m. ln_id n = i \<and> distinct (ln_deps n) \<and> set (ln_deps n) \<subseteq> set (keys_of m))"

text \<open>A cycle: some nodes each of which waits for another one of them.\<close>

definition has_cycle :: "(component_id \<times> lifecycle_node) list \<Rightarrow> bool" where
  "has_cycle m \<longleftrightarrow>
     (\<exists>S. S \<noteq> {} \<and> S \<subseteq> set (keys_of m) \<and> (\<forall>i \<in> S. \<exists>d \<in> S. d \<in> set (node_deps m i)))"

definition topo_respects :: "(component_id \<times> lifecycle_node) list \<Rightarrow> component_id list \<Rightarrow> bool" where
  "topo_respects m order \<longleftrightarrow> (\<forall>xs i ys. order = xs @ i # ys \<longrightarrow> set (node_deps m i) \<subseteq> set xs)"

lemma topo_respects_Nil [simp]: "topo_respects m []"
  by (simp add: topo_respects_def)

lemma topo_respects_snoc: "topo_respects m (order @ [i]) \<longleftrightarrow> topo_respects m order \<and> set (node_deps m i) \<subseteq> set order"
proof
  assume r: "topo_respects m (order @ [i])"
  have "topo_respects m order" unfolding topo_respects_def
  proof (intro allI impI)
    fix xs j ys assume "order = xs @ j # ys"
    then have "order @ [i] = xs @ j # (ys @ [i])" by simp
    with r show "set (node_deps m j) \<subseteq> set xs" unfolding topo_respects_def by blast
  qed
  moreover from r have "set (node_deps m i) \<subseteq> set order" unfolding topo_respects_def by blast
  ultimately show "topo_respects m order \<and> set (node_deps m i) \<subseteq> set order" ..
next
  assume r: "topo_respects m order \<and> set (node_deps m i) \<subseteq> set order"
  show "topo_respects m (order @ [i])" unfolding topo_respects_def
  proof (intro allI impI)
    fix xs j ys assume e: "order @ [i] = xs @ j # ys"
    show "set (node_deps m j) \<subseteq> set xs"
    proof (cases ys rule: rev_cases)
      case Nil
      with e r show ?thesis by simp
    next
      case (snoc ys' y)
      with e have "order = xs @ j # ys'" by simp
      with r show ?thesis unfolding topo_respects_def by blast
    qed
  qed
qed

lemma wf_nodes_node: "wf_nodes m \<Longrightarrow> (i, n) \<in> set m \<Longrightarrow> node_of m i = n"
  by (simp add: wf_nodes_def node_of_def)

lemma wf_nodes_deps:
  assumes "wf_nodes m" and "i \<in> set (keys_of m)"
  shows "distinct (node_deps m i)" and "set (node_deps m i) \<subseteq> set (keys_of m)"
proof -
  from assms(2) obtain n where n: "(i, n) \<in> set m" by auto
  with assms(1) have "node_deps m i = ln_deps n" by (simp add: node_deps_def wf_nodes_node)
  with assms(1) n show "distinct (node_deps m i)" "set (node_deps m i) \<subseteq> set (keys_of m)"
    by (auto simp: wf_nodes_def)
qed

lemma remaining_of_update:
  "remaining_of (AList.update d n rem) i = (if i = d then n else remaining_of rem i)"
  by (simp add: remaining_of_def update_conv')

lemma release_spec:
  "distinct ds \<Longrightarrow> release rem ds = (r', released) \<Longrightarrow>
     (\<forall>i. remaining_of r' i = remaining_of rem i - (if i \<in> set ds then 1 else 0)) \<and>
     released = filter (\<lambda>d. remaining_of rem d = 1) ds"
proof (induction ds arbitrary: rem r' released)
  case (Cons d ds)
  let ?rem = "AList.update d (remaining_of rem d - 1) rem"
  obtain r rs where r: "release ?rem ds = (r, rs)" by (cases "release ?rem ds")
  with Cons have IH: "\<forall>i. remaining_of r i = remaining_of ?rem i - (if i \<in> set ds then 1 else 0)"
      "rs = filter (\<lambda>d. remaining_of ?rem d = 1) ds"
    by auto
  have "filter (\<lambda>x. remaining_of ?rem x = 1) ds = filter (\<lambda>x. remaining_of rem x = 1) ds"
    using Cons.prems(1) by (intro filter_cong) (auto simp: remaining_of_update)
  with IH Cons.prems r show ?case
    by (auto simp: Let_def remaining_of_update split: if_splits)
qed simp

lemma set_dependants_of:
  "set (dependants_of m d) = {i. \<exists>n. (i, n) \<in> set m \<and> d \<in> set (ln_deps n)}"
  by (auto simp: dependants_of_def)

lemma filter_eq_distinct: "distinct xs \<Longrightarrow> filter (\<lambda>x. x = d) xs = (if d \<in> set xs then [d] else [])"
  by (induction xs) auto

lemma distinct_dependants_of:
  "distinct (keys_of m) \<Longrightarrow> \<forall>(i, n) \<in> set m. distinct (ln_deps n) \<Longrightarrow> distinct (dependants_of m d)"
proof (induction m)
  case (Cons p m)
  obtain i n where p: "p = (i, n)" by (cases p)
  have "i \<notin> set (dependants_of m d)"
    using Cons.prems(1) p by (force simp: set_dependants_of)
  with Cons p show ?case
    by (auto simp: dependants_of_def filter_eq_distinct)
qed (simp add: dependants_of_def)

lemma in_dependants_of:
  assumes "wf_nodes m"
  shows "i \<in> set (dependants_of m d) \<longleftrightarrow> i \<in> set (keys_of m) \<and> d \<in> set (node_deps m i)"
proof -
  have "i \<in> set (dependants_of m d) \<longleftrightarrow> (\<exists>n. (i, n) \<in> set m \<and> d \<in> set (ln_deps n))"
    by (simp add: set_dependants_of)
  also have "\<dots> \<longleftrightarrow> i \<in> set (keys_of m) \<and> d \<in> set (node_deps m i)"
    using assms by (force simp: node_deps_def wf_nodes_node)
  finally show ?thesis .
qed

lemma int_length_remove1:
  "int (length (remove1 x xs)) = int (length xs) - (if x \<in> set xs then 1 else 0)"
  by (induction xs) auto

text \<open>The invariant of the outer loop.\<close>

definition order_inv ::
    "(component_id \<times> lifecycle_node) list \<Rightarrow> (component_id \<times> int) list \<Rightarrow> component_id list \<Rightarrow>
     component_id list \<Rightarrow> bool" where
  "order_inv m rem ready order \<longleftrightarrow>
     distinct (order @ ready) \<and> set (order @ ready) \<subseteq> set (keys_of m) \<and>
     (\<forall>i \<in> set (keys_of m).
        remaining_of rem i = int (length (filter (\<lambda>d. d \<notin> set order) (node_deps m i))) \<and>
        (i \<in> set (order @ ready) \<longleftrightarrow> remaining_of rem i = 0)) \<and>
     topo_respects m order"

lemma order_invD:
  assumes "order_inv m rem ready order" and "i \<in> set (keys_of m)"
  shows "remaining_of rem i = int (length (filter (\<lambda>d. d \<notin> set order) (node_deps m i)))"
    and "i \<in> set order \<or> i \<in> set ready \<longleftrightarrow> remaining_of rem i = 0"
  using assms by (auto simp: order_inv_def)

lemma order_inv_step:
  assumes wf: "wf_nodes m" and inv: "order_inv m rem ready order"
    and srt: "sort ready = i # rest" and rel: "release rem (dependants_of m i) = (r', released)"
  shows "order_inv m r' (rest @ released) (order @ [i])"
proof -
  have ready: "set ready = insert i (set rest)" "distinct (i # rest)"
    using srt inv by (metis list.simps(15) set_sort)
      (use srt inv in \<open>metis distinct_append distinct_sort order_inv_def\<close>)
  have i: "i \<in> set (keys_of m)" "i \<notin> set order" "set rest \<inter> set order = {}"
    using inv ready by (auto simp: order_inv_def)
  have d: "distinct (dependants_of m i)"
    using wf by (intro distinct_dependants_of) (auto simp: wf_nodes_def)
  have rem: "remaining_of r' j = remaining_of rem j - (if j \<in> set (dependants_of m i) then 1 else 0)" for j
    using release_spec [OF d rel] by simp
  have released: "released = filter (\<lambda>j. remaining_of rem j = 1) (dependants_of m i)"
    using release_spec [OF d rel] by simp
  have cnt: "remaining_of r' j = int (length (filter (\<lambda>x. x \<notin> set (order @ [i])) (node_deps m j)))"
    if j: "j \<in> set (keys_of m)" for j
  proof -
    have dj: "distinct (node_deps m j)" by (rule wf_nodes_deps [OF wf j])
    have "filter (\<lambda>x. x \<notin> set (order @ [i])) (node_deps m j) =
          remove1 i (filter (\<lambda>x. x \<notin> set order) (node_deps m j))"
      using dj by (simp add: distinct_remove1_removeAll removeAll_filter_not_eq conj_commute)
        (metis (no_types, lifting) filter_cong)
    moreover have "i \<in> set (filter (\<lambda>x. x \<notin> set order) (node_deps m j)) \<longleftrightarrow> j \<in> set (dependants_of m i)"
      using i j by (auto simp: in_dependants_of [OF wf])
    ultimately show ?thesis
      using rem [of j] order_invD(1) [OF inv j]
      by (simp add: int_length_remove1)
  qed
  have mem: "j \<in> set (order @ [i]) \<or> j \<in> set (rest @ released) \<longleftrightarrow> remaining_of r' j = 0"
    if j: "j \<in> set (keys_of m)" for j
  proof -
    have ge: "0 \<le> remaining_of r' j" by (simp add: cnt [OF j])
    have "j \<in> set (order @ [i]) \<or> j \<in> set (rest @ released) \<longleftrightarrow>
          remaining_of rem j = 0 \<or> (remaining_of rem j = 1 \<and> j \<in> set (dependants_of m i))"
      using order_invD(2) [OF inv j] ready(1) released by auto
    also have "\<dots> \<longleftrightarrow> remaining_of r' j = 0"
      using ge rem [of j] by auto
    finally show ?thesis .
  qed
  have "set (node_deps m i) \<subseteq> set order"
  proof -
    have "remaining_of rem i = 0" using order_invD(2) [OF inv i(1)] ready by simp
    then show ?thesis using order_invD(1) [OF inv i(1)] by (auto simp: filter_empty_conv)
  qed
  moreover have "set released \<inter> set (order @ i # rest) = {}"
  proof -
    have "j \<notin> set order \<and> j \<notin> set ready" if "j \<in> set released" for j
      using that released order_invD(2) [OF inv, of j] by (auto simp: in_dependants_of [OF wf])
    then show ?thesis using ready by auto
  qed
  moreover have "set released \<subseteq> set (keys_of m)"
    using released by (auto simp: in_dependants_of [OF wf] simp del: set_map)
  ultimately show ?thesis
    using inv ready i d released cnt mem unfolding order_inv_def
    by (auto simp: topo_respects_snoc)
qed

lemma order_inv_initial:
  assumes wf: "wf_nodes m"
  shows "order_inv m (initial_remaining m)
           (map fst (filter (\<lambda>p. snd p = 0) (initial_remaining m))) []"
proof -
  let ?rem = "initial_remaining m"
  have keys: "map fst ?rem = keys_of m" by (simp add: initial_remaining_def comp_def split_def)
  then have dist: "distinct (map fst ?rem)" using wf by (simp add: wf_nodes_def)
  have in_rem: "(i, int (length (node_deps m i))) \<in> set ?rem" if "i \<in> set (keys_of m)" for i
  proof -
    from that obtain n where n: "(i, n) \<in> set m" by auto
    then have "node_deps m i = ln_deps n" using wf by (simp add: node_deps_def wf_nodes_node)
    with n show ?thesis by (force simp: initial_remaining_def)
  qed
  have rem: "remaining_of ?rem i = int (length (node_deps m i))" if "i \<in> set (keys_of m)" for i
    using in_rem [OF that] dist by (simp add: remaining_of_def)
  have "i \<in> set (map fst (filter (\<lambda>p. snd p = 0) ?rem)) \<longleftrightarrow> remaining_of ?rem i = 0"
    if i: "i \<in> set (keys_of m)" for i
  proof
    assume "i \<in> set (map fst (filter (\<lambda>p. snd p = 0) ?rem))"
    then have "(i, 0) \<in> set ?rem" by auto
    with dist show "remaining_of ?rem i = 0" by (simp add: remaining_of_def)
  next
    assume "remaining_of ?rem i = 0"
    with in_rem [OF i] rem [OF i] show "i \<in> set (map fst (filter (\<lambda>p. snd p = 0) ?rem))" by force
  qed
  moreover have "set (map fst (filter (\<lambda>p. snd p = 0) ?rem)) \<subseteq> set (keys_of m)"
    using keys by (metis filter_is_subset image_mono set_map)
  moreover have "distinct (map fst (filter (\<lambda>p. snd p = 0) ?rem))"
    using dist by (rule distinct_map_filter)
  ultimately show ?thesis using rem by (simp add: order_inv_def del: set_map)
qed

lemma order_nodes_inv:
  "wf_nodes m \<Longrightarrow> dependants = dependants_of m \<Longrightarrow> order_inv m rem ready order \<Longrightarrow>
     \<exists>rem'. order_inv m rem' [] (order_nodes dependants rem ready order)"
proof (induction dependants rem ready order rule: order_nodes.induct)
  case (1 dependants rem ready order)
  show ?case
  proof (cases "sort ready")
    case Nil
    then have "ready = []" by (metis length_0_conv length_sort)
    with 1 Nil show ?thesis by (auto simp: order_nodes.simps)
  next
    case (Cons i rest)
    obtain r' released where rel: "release rem (dependants i) = (r', released)"
      by (cases "release rem (dependants i)")
    then have "order_inv m r' (rest @ released) (order @ [i])"
      using order_inv_step [of m rem ready order] 1 Cons by simp
    with "1.IH" [OF Cons rel [symmetric] refl] 1 Cons rel show ?thesis
      by (simp add: order_nodes.simps [of _ _ ready])
  qed
qed

lemma set_order_cases:
  assumes wf: "wf_nodes m"
  obtains (ordered) order where "set_order m = Inr order" "distinct order"
      "set order = set (keys_of m)" "topo_respects m order" "\<not> has_cycle m"
    | (cycle) "set_order m = Inl (Msg ''lifecycle graph contains a cycle'')" "has_cycle m"
proof -
  define order where "order = order_nodes (dependants_of m) (initial_remaining m)
       (map fst (filter (\<lambda>p. snd p = 0) (initial_remaining m))) []"
  obtain r where inv: "order_inv m r [] order"
    using order_nodes_inv [OF wf refl order_inv_initial [OF wf]] unfolding order_def by blast
  then have d: "distinct order" and sub: "set order \<subseteq> set (keys_of m)" and t: "topo_respects m order"
    by (simp_all add: order_inv_def)
  have dm: "distinct (keys_of m)" using wf by (simp add: wf_nodes_def)
  have len: "length order = length m \<longleftrightarrow> set order = set (keys_of m)"
    using d dm sub by (metis card_subset_eq distinct_card finite_set length_map)
  have so: "set_order m = (if length order \<noteq> length m
      then Inl (Msg ''lifecycle graph contains a cycle'') else Inr order)"
    by (simp add: set_order_def order_def Let_def)
  show thesis
  proof (cases "set order = set (keys_of m)")
    case True
    have "\<not> has_cycle m"
    proof
      assume "has_cycle m"
      then obtain S where S: "S \<noteq> {}" "S \<subseteq> set order" "\<forall>i \<in> S. \<exists>d \<in> S. d \<in> set (node_deps m i)"
        unfolding has_cycle_def True by blast
      then have "\<exists>x \<in> set order. x \<in> S" by blast
      from split_list_first_prop [OF this]
      obtain xs i ys where o: "order = xs @ i # ys" "i \<in> S" "\<forall>x \<in> set xs. x \<notin> S"
        by blast
      with t have "set (node_deps m i) \<subseteq> set xs" unfolding topo_respects_def by blast
      with S o show False by blast
    qed
    with ordered True d t so len show ?thesis by simp
  next
    case False
    define S where "S = set (keys_of m) - set order"
    have "\<exists>d \<in> S. d \<in> set (node_deps m i)" if i: "i \<in> S" for i
    proof -
      have k: "i \<in> set (keys_of m)" and no: "i \<notin> set order" using i by (auto simp: S_def)
      then have "filter (\<lambda>d. d \<notin> set order) (node_deps m i) \<noteq> []"
        using order_invD [OF inv k] by auto
      then show ?thesis using wf_nodes_deps(2) [OF wf k] by (auto simp: S_def filter_empty_conv)
    qed
    moreover have "S \<noteq> {}" "S \<subseteq> set (keys_of m)" using False sub by (auto simp: S_def)
    ultimately have "has_cycle m" unfolding has_cycle_def by blast
    with cycle False so len show ?thesis by simp
  qed
qed

text \<open>The checks before the ordering.\<close>

definition nodes_map :: "lifecycle_node list \<Rightarrow> (component_id \<times> lifecycle_node) list" where
  "nodes_map nodes = map (\<lambda>n. (ln_id n, n)) nodes"

lemma keys_nodes_map [simp]: "keys_of (nodes_map nodes) = map ln_id nodes"
  by (simp add: nodes_map_def comp_def)

lemma insert_nodes_Inr:
  "distinct (keys_of m) \<Longrightarrow>
     insert_nodes m nodes = Inr m' \<longleftrightarrow>
       m' = m @ nodes_map nodes \<and> [] \<notin> ln_id ` set nodes \<and> distinct (keys_of m @ map ln_id nodes)"
proof (induction nodes arbitrary: m)
  case (Cons n ns)
  show ?case
  proof (cases "ln_id n = [] \<or> ln_id n \<in> set (keys_of m)")
    case True
    then show ?thesis by (auto simp: map_of_eq_None_iff)
  next
    case False
    then show ?thesis using Cons.IH [of "m @ [(ln_id n, n)]"] Cons.prems
      by (simp add: map_of_eq_None_iff nodes_map_def) (auto simp: image_iff)
  qed
qed (auto simp: nodes_map_def)

lemma check_dependencies_None:
  "check_dependencies m i seen ds = None \<longleftrightarrow>
     set ds \<subseteq> set (keys_of m) \<and> distinct ds \<and> set ds \<inter> set seen = {}"
  by (induction ds arbitrary: seen) (auto simp: map_of_eq_None_iff)

text \<open>The graphs that can be built: named, distinct nodes with known, distinct dependencies.\<close>

definition valid_nodes :: "lifecycle_node list \<Rightarrow> bool" where
  "valid_nodes nodes \<longleftrightarrow>
     [] \<notin> ln_id ` set nodes \<and> distinct (map ln_id nodes) \<and>
     (\<forall>n \<in> set nodes. distinct (ln_deps n) \<and> set (ln_deps n) \<subseteq> ln_id ` set nodes)"

lemma valid_nodes_wf: "valid_nodes nodes \<Longrightarrow> wf_nodes (nodes_map nodes)"
  by (auto simp: valid_nodes_def wf_nodes_def nodes_map_def comp_def)

lemma new_lifecycle_graph_eq:
  "new_lifecycle_graph nodes =
     (case insert_nodes [] nodes of Inl e \<Rightarrow> Inl e
      | Inr _ \<Rightarrow>
         (case first_error (\<lambda>n. check_dependencies (nodes_map nodes) (ln_id n) [] (ln_deps n)) nodes of
            Some e \<Rightarrow> Inl e
          | None \<Rightarrow> map_sum id (\<lambda>order. \<lparr>lg_nodes = nodes_map nodes, lg_order = order\<rparr>)
                      (set_order (nodes_map nodes))))"
proof (cases "insert_nodes [] nodes")
  case (Inr m)
  then have m: "m = nodes_map nodes" using insert_nodes_Inr [of "[]" nodes m] by simp
  have "first_error (\<lambda>(i, n). check_dependencies m (ln_id n) [] (ln_deps n)) (nodes_map xs) =
        first_error (\<lambda>n. check_dependencies m (ln_id n) [] (ln_deps n)) xs" for xs
    by (induction xs) (auto simp: nodes_map_def split: option.splits)
  with Inr m show ?thesis
    by (simp add: new_lifecycle_graph_def split: option.splits sum.splits)
qed (simp add: new_lifecycle_graph_def)

lemma new_lifecycle_graph_valid:
  "valid_nodes nodes \<Longrightarrow>
     new_lifecycle_graph nodes =
       map_sum id (\<lambda>order. \<lparr>lg_nodes = nodes_map nodes, lg_order = order\<rparr>) (set_order (nodes_map nodes))"
proof -
  assume v: "valid_nodes nodes"
  then have "insert_nodes [] nodes = Inr (nodes_map nodes)"
    using insert_nodes_Inr [of "[]" nodes "nodes_map nodes"] by (simp add: valid_nodes_def)
  moreover have "first_error (\<lambda>n. check_dependencies (nodes_map nodes) (ln_id n) [] (ln_deps n)) nodes = None"
    using v by (simp add: first_error_None check_dependencies_None valid_nodes_def)
  ultimately show ?thesis by (simp add: new_lifecycle_graph_eq)
qed

lemma new_lifecycle_graph_Inr:
  assumes "new_lifecycle_graph nodes = Inr g"
  shows "valid_nodes nodes \<and> lg_nodes g = nodes_map nodes \<and> set_order (nodes_map nodes) = Inr (lg_order g)"
proof -
  from assms obtain m where m: "insert_nodes [] nodes = Inr m"
    by (auto simp: new_lifecycle_graph_eq split: sum.splits)
  with assms have
    fe: "first_error (\<lambda>n. check_dependencies (nodes_map nodes) (ln_id n) [] (ln_deps n)) nodes = None"
    by (auto simp: new_lifecycle_graph_eq split: option.splits)
  have "valid_nodes nodes"
    using m fe insert_nodes_Inr [of "[]" nodes m]
    by (auto simp: valid_nodes_def first_error_None check_dependencies_None)
  moreover from assms m fe have "set_order (nodes_map nodes) = Inr (lg_order g)"
    "lg_nodes g = nodes_map nodes"
    by (cases "set_order (nodes_map nodes)", auto simp: new_lifecycle_graph_eq)+
  ultimately show ?thesis by simp
qed

text \<open>
  C25. Construction of the lifecycle graph succeeds exactly for a valid set of nodes (named,
  distinct, with known and distinct dependencies) that has no cycle.
\<close>

theorem new_lifecycle_graph_succeeds_iff:
  "(\<exists>g. new_lifecycle_graph nodes = Inr g) \<longleftrightarrow> valid_nodes nodes \<and> \<not> has_cycle (nodes_map nodes)"
proof (cases "valid_nodes nodes")
  case True
  from valid_nodes_wf [OF this] show ?thesis
    by (cases rule: set_order_cases) (simp_all add: new_lifecycle_graph_valid True)
next
  case False
  then show ?thesis using new_lifecycle_graph_Inr by blast
qed

text \<open>
  C26. The execution order of a constructed graph lists every node exactly once, and every
  node after all the nodes it depends on.
\<close>

theorem lifecycle_order_topological:
  assumes "new_lifecycle_graph nodes = Inr g"
  shows "distinct (lg_order g) \<and> set (lg_order g) = ln_id ` set nodes \<and>
    (\<forall>n \<in> set nodes. \<forall>xs ys. lg_order g = xs @ ln_id n # ys \<longrightarrow> set (ln_deps n) \<subseteq> set xs)"
proof -
  have v: "valid_nodes nodes" and o: "set_order (nodes_map nodes) = Inr (lg_order g)"
    using new_lifecycle_graph_Inr [OF assms] by simp_all
  have wf: "wf_nodes (nodes_map nodes)" by (rule valid_nodes_wf [OF v])
  then have "distinct (lg_order g) \<and> set (lg_order g) = ln_id ` set nodes \<and>
      topo_respects (nodes_map nodes) (lg_order g)"
    by (cases rule: set_order_cases) (use o in simp_all)
  moreover have "node_deps (nodes_map nodes) (ln_id n) = ln_deps n" if "n \<in> set nodes" for n
    using wf_nodes_node [OF wf, of "ln_id n" n] that by (simp add: node_deps_def nodes_map_def)
  ultimately show ?thesis unfolding topo_respects_def by metis
qed

theorem lifecycle_order_topological_witness:
  "\<exists>g. new_lifecycle_graph [\<lparr>ln_id = ''b'', ln_deps = [''a'']\<rparr>, \<lparr>ln_id = ''a'', ln_deps = []\<rparr>] = Inr g \<and>
       set (lg_order g) = {''a'', ''b''}"
proof -
  let ?nodes = "[\<lparr>ln_id = ''b'', ln_deps = [''a'']\<rparr>, \<lparr>ln_id = ''a'', ln_deps = []\<rparr>]"
  have "new_lifecycle_graph ?nodes = Inr \<lparr>lg_nodes = nodes_map ?nodes, lg_order = [''a'', ''b'']\<rparr>"
    by (simp add: new_lifecycle_graph_def set_order_def order_nodes_eval initial_remaining_def
        dependants_of_def remaining_of_def nodes_map_def)
  from lifecycle_order_topological [OF this] this show ?thesis by auto
qed

section \<open>Correctness of the runner\<close>

text \<open>The operations answer the graph: one operation, not nil, for each node and no other.\<close>

definition operations_match ::
    "lifecycle_graph \<Rightarrow> (component_id \<times> 's component_operation option) list \<Rightarrow> bool" where
  "operations_match g operations \<longleftrightarrow>
     set (keys_of operations) = set (keys_of (lg_nodes g)) \<and> (\<forall>p \<in> set operations. snd p \<noteq> None)"

text \<open>The entry of a node that waits.\<close>

definition blocked_entry :: "lifecycle_node \<Rightarrow> (component_id \<times> component_result) list \<Rightarrow> component_result" where
  "blocked_entry n results =
     (plain_result (ln_id n) StateBlocked dependency_not_ready_reason
        (''waiting for dependencies: '' @ component_ids_message (blocking_dependencies_for_node n results)) 0)
      \<lparr>cr_blocking := blocking_dependencies_for_node n results\<rparr>"

lemma run_nodes_blocked:
  assumes "blocking_dependencies_for_node n res \<noteq> []" and "ln_id n \<noteq> []"
  shows "run_nodes operations (n # ns) res =
           run_nodes operations ns (AList.update (ln_id n) (blocked_entry n res) res)"
  using assms by (simp add: Let_def blocked_result_def validate_component_id_def blocked_entry_def)

lemma run_nodes_operation:
  assumes "blocking_dependencies_for_node n res = []"
    and "map_of operations (ln_id n) = Some (Some operation)"
  shows "run_state (run_nodes operations (n # ns) res) s =
     (case run_state operation s of
        (Inl e, s') \<Rightarrow> (Inl (Wrap (''reconcile component '' @ quoted (ln_id n)) e), s')
      | (Inr r, s') \<Rightarrow>
          (case validate_operation_result (ln_id n) r of
             Some e \<Rightarrow> (Inl e, s')
           | None \<Rightarrow> run_state (run_nodes operations ns (AList.update (ln_id n) r res)) s'))"
  using assms by (auto simp: run_state_bind split: prod.splits sum.splits option.splits)

lemma run_nodes_no_operation:
  assumes "blocking_dependencies_for_node n res = []"
    and "map_of operations (ln_id n) = None \<or> map_of operations (ln_id n) = Some None"
  shows "run_nodes operations (n # ns) res = State_Monad.return (Inl (Msg ''nil component operation''))"
  using assms by auto

lemma operation_or_nil:
  "(\<exists>operation. map_of operations i = Some (Some operation)) \<or>
   map_of operations i = None \<or> map_of operations i = Some None"
  by (metis not_None_eq)

declare run_nodes.simps(2) [simp del]

text \<open>What a node's entry of the results records.\<close>

definition node_outcome ::
    "(component_id \<times> 's component_operation option) list \<Rightarrow> (component_id \<times> component_result) list \<Rightarrow>
     lifecycle_node \<Rightarrow> component_result \<Rightarrow> bool" where
  "node_outcome operations results n r =
     (if blocking_dependencies_for_node n results \<noteq> []
      then r = blocked_entry n results
      else validate_operation_result (ln_id n) r = None \<and>
           (\<exists>operation s s'. map_of operations (ln_id n) = Some (Some operation) \<and>
              run_state operation s = (Inr r, s')))"

lemma state_in_append: "i \<in> set (keys_of res) \<Longrightarrow> state_in (res @ rest) i = state_in res i"
  by (auto simp: state_in_def map_add_def dom_map_of_conv_image_fst split: option.splits
      dest: map_of_SomeD weak_map_of_SomeI)

lemma blocking_append:
  "set (ln_deps n) \<subseteq> set (keys_of res) \<Longrightarrow>
     blocking_dependencies_for_node n (res @ rest) = blocking_dependencies_for_node n res"
  unfolding blocking_dependencies_for_node_def
  by (intro filter_cong refl) (simp add: state_in_append subset_iff del: set_map)

lemma node_outcome_append:
  "set (ln_deps n) \<subseteq> set (keys_of res) \<Longrightarrow>
     node_outcome operations (res @ rest) n r = node_outcome operations res n r"
  by (simp add: node_outcome_def blocked_entry_def blocking_append)

lemma update_new: "k \<notin> set (keys_of res) \<Longrightarrow> AList.update k r res = res @ [(k, r)]"
  by (induction res) auto

text \<open>A list of nodes in which every node comes after its dependencies.\<close>

definition ordered :: "lifecycle_node list \<Rightarrow> bool" where
  "ordered nodes \<longleftrightarrow> distinct (map ln_id nodes) \<and> (\<forall>n \<in> set nodes. ln_id n \<noteq> []) \<and>
     (\<forall>xs n ys. nodes = xs @ n # ys \<longrightarrow> set (ln_deps n) \<subseteq> ln_id ` set xs)"

lemma orderedD:
  assumes "ordered (pre @ n # ns)"
  shows "set (ln_deps n) \<subseteq> set (map ln_id pre)" "ln_id n \<notin> set (map ln_id pre)" "ln_id n \<noteq> []"
  using assms by (auto simp: ordered_def)

lemma ordered_deps: "ordered nodes \<Longrightarrow> n \<in> set nodes \<Longrightarrow> set (ln_deps n) \<subseteq> ln_id ` set nodes"
  by (metis (no_types, lifting) image_mono ordered_def set_append Un_upper1 split_list order_trans)

lemma run_nodes_results:
  assumes "ordered (pre @ ns)" and "keys_of res = map ln_id pre"
    and "\<forall>n \<in> set pre. \<exists>r. map_of res (ln_id n) = Some r \<and> node_outcome operations res n r"
    and "run_state (run_nodes operations ns res) s = (Inr out, s')"
  shows "keys_of out = map ln_id (pre @ ns) \<and>
    (\<forall>n \<in> set (pre @ ns). \<exists>r. map_of out (ln_id n) = Some r \<and> node_outcome operations out n r)"
  using assms
proof (induction ns arbitrary: pre res s)
  case (Cons n ns)
  note o = orderedD [OF Cons.prems(1)]
  have key: "ln_id n \<notin> set (keys_of res)" using o(2) Cons.prems(2) by (simp del: set_map)
  obtain r s1 where r: "node_outcome operations res n r"
    and step: "run_state (run_nodes operations ns (res @ [(ln_id n, r)])) s1 = (Inr out, s')"
  proof (cases "blocking_dependencies_for_node n res = []")
    case False
    with that Cons.prems(4) o(3) key show thesis
      by (simp add: run_nodes_blocked node_outcome_def update_new del: set_map)
  next
    case True
    have "\<exists>operation. map_of operations (ln_id n) = Some (Some operation)"
    proof (rule ccontr)
      assume "\<nexists>operation. map_of operations (ln_id n) = Some (Some operation)"
      then have "map_of operations (ln_id n) = None \<or> map_of operations (ln_id n) = Some None"
        by (metis not_None_eq)
      with Cons.prems(4) True show False by (simp add: run_nodes_no_operation)
    qed
    then obtain operation where operation: "map_of operations (ln_id n) = Some (Some operation)" ..
    obtain x t where x: "run_state operation s = (x, t)" by (cases "run_state operation s")
    with Cons.prems(4) True operation obtain r
      where r: "x = Inr r" "validate_operation_result (ln_id n) r = None"
      by (auto simp: run_nodes_operation split: sum.splits option.splits)
    from r x operation True have "node_outcome operations res n r" by (auto simp: node_outcome_def)
    with that [of r t] Cons.prems(4) True operation x r key show thesis
      by (simp add: run_nodes_operation update_new del: set_map)
  qed
  have sub: "set (ln_deps m) \<subseteq> set (keys_of res)" if "m \<in> set pre \<or> m = n" for m
  proof -
    have "ordered pre" using Cons.prems(1) unfolding ordered_def
      by (auto simp: append_eq_append_conv2)
    with that o(1) ordered_deps [of pre m] Cons.prems(2) show ?thesis by auto
  qed
  have "\<forall>m \<in> set (pre @ [n]). \<exists>x. map_of (res @ [(ln_id n, r)]) (ln_id m) = Some x \<and>
          node_outcome operations (res @ [(ln_id n, r)]) m x"
  proof
    fix m assume m: "m \<in> set (pre @ [n])"
    show "\<exists>x. map_of (res @ [(ln_id n, r)]) (ln_id m) = Some x \<and>
          node_outcome operations (res @ [(ln_id n, r)]) m x"
    proof (cases "m = n")
      case True
      with key r sub show ?thesis
        by (auto simp: node_outcome_append map_add_def map_of_eq_None_iff [THEN iffD2] split: option.splits)
    next
      case False
      with m have "m \<in> set pre" by simp
      with Cons.prems(3) obtain x where "map_of res (ln_id m) = Some x" "node_outcome operations res m x"
        by blast
      moreover have "ln_id m \<noteq> ln_id n" using \<open>m \<in> set pre\<close> o(2) by (metis imageI set_map)
      ultimately show ?thesis using \<open>m \<in> set pre\<close> sub by (auto simp: node_outcome_append)
    qed
  qed
  with Cons.IH [of "pre @ [n]" "res @ [(ln_id n, r)]" s1] Cons.prems(1,2) step show ?case by simp
qed simp

lemma ordered_nodes_graph:
  assumes "new_lifecycle_graph nodes = Inr g"
  shows "ordered (ordered_nodes g)" and "map ln_id (ordered_nodes g) = lg_order g"
    and "set (ordered_nodes g) = set nodes"
proof -
  have v: "valid_nodes nodes" and m: "lg_nodes g = nodes_map nodes"
    and so: "set_order (nodes_map nodes) = Inr (lg_order g)"
    using new_lifecycle_graph_Inr [OF assms] by simp_all
  have wf: "wf_nodes (nodes_map nodes)" by (rule valid_nodes_wf [OF v])
  then have o: "distinct (lg_order g)" "set (lg_order g) = ln_id ` set nodes"
      "topo_respects (nodes_map nodes) (lg_order g)"
    by (cases rule: set_order_cases; use so in simp)+
  have at: "node_of (lg_nodes g) (ln_id n) = n" if "n \<in> set nodes" for n
    using wf_nodes_node [OF wf, of "ln_id n" n] that m by (simp add: nodes_map_def)
  have "map ln_id (map (node_of (lg_nodes g)) xs) = xs" if "set xs \<subseteq> ln_id ` set nodes" for xs
    using that by (induction xs) (auto simp: at)
  then show ids: "map ln_id (ordered_nodes g) = lg_order g" using o(2) by (simp add: ordered_nodes_def)
  have "set (ordered_nodes g) = (\<lambda>i. node_of (lg_nodes g) i) ` ln_id ` set nodes"
    by (simp add: ordered_nodes_def o(2))
  also have "\<dots> = set nodes" by (force simp: at image_image)
  finally show s: "set (ordered_nodes g) = set nodes" .
  show "ordered (ordered_nodes g)" unfolding ordered_def
  proof (intro conjI allI impI)
    show "distinct (map ln_id (ordered_nodes g))" using ids o(1) by simp
    show "\<forall>n \<in> set (ordered_nodes g). ln_id n \<noteq> []" using v s by (force simp: valid_nodes_def)
    fix xs n ys assume e: "ordered_nodes g = xs @ n # ys"
    then have "lg_order g = map ln_id xs @ ln_id n # map ln_id ys" using ids by (metis list.map(2) map_append)
    moreover have "node_deps (nodes_map nodes) (ln_id n) = ln_deps n"
    proof -
      have "n \<in> set nodes" using e s by auto
      with at m show ?thesis by (simp add: node_deps_def)
    qed
    ultimately show "set (ln_deps n) \<subseteq> ln_id ` set xs"
      using o(3) unfolding topo_respects_def by force
  qed
qed

lemma run_component_operations_Inr:
  "run_state (run_component_operations g operations) s = (Inr out, s') \<Longrightarrow>
     run_state (run_nodes operations (ordered_nodes g) []) s = (Inr out, s')"
  by (auto simp: run_component_operations_def split: if_splits option.splits)

text \<open>
  C27. A run of the component operations that succeeds has one result per node, in the
  execution order. A node some of whose dependencies are not ready is reported as blocked
  by exactly those dependencies; every other node carries what its own operation returned,
  and that result passed the check of the operation contract.
\<close>

theorem run_component_operations_results:
  assumes "new_lifecycle_graph nodes = Inr g"
    and "run_state (run_component_operations g operations) s = (Inr results, s')"
  shows "keys_of results = lg_order g \<and>
    (\<forall>n \<in> set nodes. \<exists>r. map_of results (ln_id n) = Some r \<and> node_outcome operations results n r)"
  using run_nodes_results [of "[]" "ordered_nodes g" "[]" operations s results s']
    run_component_operations_Inr [OF assms(2)] ordered_nodes_graph [OF assms(1)]
  by simp

text \<open>An operation that also records that it ran.\<close>

definition logging ::
    "component_id \<Rightarrow> 's component_operation \<Rightarrow> ('s \<times> component_id list) component_operation" where
  "logging i operation =
     State (\<lambda>(s, executed). case run_state operation s of (r, s') \<Rightarrow> (r, (s', executed @ [i])))"

definition logged ::
    "(component_id \<times> 's component_operation option) list \<Rightarrow>
     (component_id \<times> ('s \<times> component_id list) component_operation option) list" where
  "logged operations = map (\<lambda>(i, operation). (i, map_option (logging i) operation)) operations"

lemma map_of_logged: "map_of (logged operations) i = map_option (map_option (logging i)) (map_of operations i)"
  by (induction operations) (auto simp: logged_def)

lemma run_nodes_logged:
  assumes "ordered (pre @ ns)" and "keys_of res = map ln_id pre"
    and "run_state (run_nodes (logged operations) ns res) (s, executed) = (Inr out, (s', executed'))"
  shows "(\<exists>rest. out = res @ rest) \<and>
    executed' = executed @ map ln_id (filter (\<lambda>n. blocking_dependencies_for_node n out = []) ns)"
  using assms
proof (induction ns arbitrary: pre res s executed)
  case (Cons n ns)
  note o = orderedD [OF Cons.prems(1)]
  have key: "ln_id n \<notin> set (keys_of res)" and sub: "set (ln_deps n) \<subseteq> set (keys_of res)"
    using o(1,2) Cons.prems(2) by (simp_all del: set_map)
  have IH: "(\<exists>rest. out = (res @ [(ln_id n, r)]) @ rest) \<and>
      executed' = executed1 @ map ln_id (filter (\<lambda>n. blocking_dependencies_for_node n out = []) ns)"
    if "run_state (run_nodes (logged operations) ns (res @ [(ln_id n, r)])) (s1, executed1) = (Inr out, (s', executed'))"
    for r s1 executed1
    using Cons.IH [of "pre @ [n]" "res @ [(ln_id n, r)]" s1 executed1] Cons.prems(1,2) that by simp
  show ?case
  proof (cases "blocking_dependencies_for_node n res = []")
    case False
    with Cons.prems(3) o(3) key IH [of "blocked_entry n res" s executed] show ?thesis
      by (auto simp: run_nodes_blocked update_new blocking_append [OF sub] simp del: set_map)
  next
    case True
    have "\<exists>operation. map_of operations (ln_id n) = Some (Some operation)"
    proof (rule ccontr)
      assume "\<nexists>operation. map_of operations (ln_id n) = Some (Some operation)"
      then have "map_of (logged operations) (ln_id n) = None \<or> map_of (logged operations) (ln_id n) = Some None"
        using operation_or_nil [of operations "ln_id n"] by (auto simp: map_of_logged)
      with Cons.prems(3) True show False by (simp add: run_nodes_no_operation)
    qed
    then obtain operation where operation: "map_of (logged operations) (ln_id n) = Some (Some (logging (ln_id n) operation))"
      by (auto simp: map_of_logged)
    obtain x t where x: "run_state operation s = (x, t)" by (cases "run_state operation s")
    then have l: "run_state (logging (ln_id n) operation) (s, executed) = (x, (t, executed @ [ln_id n]))"
      by (simp add: logging_def)
    with Cons.prems(3) True operation obtain r
      where r: "x = Inr r" "validate_operation_result (ln_id n) r = None"
      by (auto simp: run_nodes_operation split: sum.splits option.splits)
    with Cons.prems(3) True operation l key IH [of r t "executed @ [ln_id n]"] show ?thesis
      by (auto simp: run_nodes_operation update_new blocking_append [OF sub] simp del: set_map)
  qed
qed simp

text \<open>
  A successful run executes exactly the operations of the nodes that are eligible
  under its own results, each once, in the order of the graph: no operation of a blocked
  node runs, and none runs before the operations it depends on.
\<close>

theorem run_component_operations_eligible:
  assumes "new_lifecycle_graph nodes = Inr g"
    and "run_state (run_component_operations g (logged operations)) (s, []) = (Inr results, (s', executed))"
  shows "executed = map ln_id (eligible g results)"
  using run_nodes_logged [of "[]" "ordered_nodes g" "[]" operations s "[]" results s' executed]
    run_component_operations_Inr [OF assms(2)] ordered_nodes_graph [OF assms(1)]
  by (simp add: eligible_def)

text \<open>
  Operations that do not answer the graph one to one are refused before any of them
  runs: the run returns an error and the state is the one it started from.
\<close>

theorem run_component_operations_contract:
  assumes "new_lifecycle_graph nodes = Inr g" and "distinct (keys_of operations)"
    and "\<not> operations_match g operations"
  shows "\<exists>e. run_state (run_component_operations g operations) s = (Inl e, s)"
proof (cases "length operations = length (lg_nodes g)")
  case True
  define f where "f = (\<lambda>(i, operation :: 'a component_operation option).
      if map_of (lg_nodes g) i = None \<or> operation = None
      then Some (Msg (''component operation '' @ quoted i @ '' does not match lifecycle graph'')) else None)"
  have "first_error f operations \<noteq> None"
  proof
    assume "first_error f operations = None"
    then have all: "\<forall>p \<in> set operations. fst p \<in> set (keys_of (lg_nodes g)) \<and> snd p \<noteq> None"
      by (auto simp: first_error_None f_def map_of_eq_None_iff split: if_splits)
    have "distinct (keys_of (lg_nodes g))"
      using new_lifecycle_graph_Inr [OF assms(1)] by (simp add: valid_nodes_def)
    then have "card (set (keys_of operations)) = card (set (keys_of (lg_nodes g)))"
      using assms(2) True by (metis distinct_card length_map)
    moreover have "set (keys_of operations) \<subseteq> set (keys_of (lg_nodes g))" using all by force
    ultimately have "set (keys_of operations) = set (keys_of (lg_nodes g))"
      by (metis List.finite_set card_subset_eq)
    with all assms(3) show False by (simp add: operations_match_def)
  qed
  with True show ?thesis by (auto simp: run_component_operations_def f_def [symmetric])
qed (simp add: run_component_operations_def)

text \<open>
  Operations that honour their contract: each returns, from every state, a result that the
  runner accepts. The laws are stated for the operation of one component.
\<close>

locale component_operation =
  fixes operation :: "'s component_operation" and component :: component_id
  assumes operation_valid:
    "\<exists>r s'. run_state operation s = (Inr r, s') \<and> validate_operation_result component r = None"

lemma run_nodes_total:
  assumes "\<forall>n \<in> set ns. ln_id n \<noteq> [] \<and>
      (\<exists>operation. map_of operations (ln_id n) = Some (Some operation) \<and> component_operation operation (ln_id n))"
  shows "\<exists>out s'. run_state (run_nodes operations ns res) s = (Inr out, s')"
  using assms
proof (induction ns arbitrary: res s)
  case (Cons n ns)
  then obtain operation where operation: "map_of operations (ln_id n) = Some (Some operation)"
    and c: "component_operation operation (ln_id n)" and i: "ln_id n \<noteq> []" by auto
  obtain r t where "run_state operation s = (Inr r, t)" "validate_operation_result (ln_id n) r = None"
    using component_operation.operation_valid [OF c] by blast
  with Cons operation i show ?case
    by (cases "blocking_dependencies_for_node n res = []") (simp_all add: run_nodes_operation run_nodes_blocked)
qed simp

section \<open>A concrete graph\<close>

definition sample_nodes :: "lifecycle_node list" where
  "sample_nodes = [\<lparr>ln_id = ''b'', ln_deps = [''a'']\<rparr>, \<lparr>ln_id = ''a'', ln_deps = []\<rparr>]"

definition sample_graph :: lifecycle_graph where
  "sample_graph = \<lparr>lg_nodes = nodes_map sample_nodes, lg_order = [''a'', ''b'']\<rparr>"

definition sample_operations :: "(component_id \<times> nat component_operation option) list" where
  "sample_operations =
     [(''a'', Some (State (\<lambda>n. (Inr (plain_result ''a'' StateProgressing ''Pending'' [] 5), n + 1)))),
      (''b'', Some (State (\<lambda>n. (Inr (plain_result ''b'' StateReady ''Ready'' [] 0), n + 10))))]"

lemma sample_graph_built: "new_lifecycle_graph sample_nodes = Inr sample_graph"
  by (simp add: new_lifecycle_graph_def set_order_def order_nodes_eval initial_remaining_def
      dependants_of_def remaining_of_def nodes_map_def sample_nodes_def sample_graph_def)

lemma sample_order: "ordered_nodes sample_graph = [\<lparr>ln_id = ''a'', ln_deps = []\<rparr>, \<lparr>ln_id = ''b'', ln_deps = [''a'']\<rparr>]"
  by (simp add: ordered_nodes_def sample_graph_def nodes_map_def sample_nodes_def node_of_def)

definition sample_results :: "(component_id \<times> component_result) list" where
  "sample_results =
     [(''a'', plain_result ''a'' StateProgressing ''Pending'' [] 5),
      (''b'', (plain_result ''b'' StateBlocked dependency_not_ready_reason ''waiting for dependencies: a'' 0)
                \<lparr>cr_blocking := [''a'']\<rparr>)]"

lemmas sample_run = run_component_operations_def run_nodes.simps(2) sample_order sample_operations_def
  sample_results_def sample_graph_def nodes_map_def sample_nodes_def blocking_dependencies_for_node_def
  state_in_def is_ready_equivalent_def blocked_result_def validate_component_id_def
  component_ids_message_def run_state_bind validate_operation_result_def

theorem run_component_operations_results_witness:
  "new_lifecycle_graph sample_nodes = Inr sample_graph \<and>
   run_state (run_component_operations sample_graph sample_operations) 0 = (Inr sample_results, 1) \<and>
   keys_of sample_results = lg_order sample_graph"
proof -
  have r: "run_state (run_component_operations sample_graph sample_operations) 0 = (Inr sample_results, 1)"
    unfolding run_component_operations_def sample_order
    by (simp add: sample_run)
  from run_component_operations_results [OF sample_graph_built r] r sample_graph_built show ?thesis by blast
qed

theorem run_component_operations_eligible_witness:
  "run_state (run_component_operations sample_graph (logged sample_operations)) (0, []) =
     (Inr sample_results, (1, [''a''])) \<and> map ln_id (eligible sample_graph sample_results) = [''a'']"
proof -
  have r: "run_state (run_component_operations sample_graph (logged sample_operations)) (0, []) =
     (Inr sample_results, (1, [''a'']))"
    unfolding run_component_operations_def sample_order
    by (simp add: sample_run logged_def logging_def)
  from run_component_operations_eligible [OF sample_graph_built r] r show ?thesis by simp
qed

theorem run_component_operations_contract_witness:
  "\<exists>e. run_state (run_component_operations sample_graph [(''a'', None :: nat component_operation option)]) 7 = (Inl e, 7)"
  by (rule run_component_operations_contract [OF sample_graph_built])
    (simp_all add: operations_match_def)

end
