(* ===== verification/Effects.thy ===== *)
theory Effects
  imports Json_Value Crd_Types "HOL-Library.State_Monad"
begin

text \<open>
  What the operator does to the world. A step of the operator is a value of the state
  monad over \<open>op_state\<close>: the calls made so far and the clients it holds in memory. The
  world is an \<open>env\<close>: it answers every call, as any function of the calls made before, so
  a statement over all environments holds for every API server, every Keycloak, every
  clock, and whatever other actors do between two calls. Logging is left out.

  The theory also holds the combinators the components are written with, the retry loop
  of \<^verbatim>\<open>client-go\<close>, and a small calculus: \<open>emits P m\<close> says that every call \<open>m\<close> makes satisfies
  \<open>P\<close>, and the rules of \<open>emits_intros\<close> follow the structure of the code.
\<close>

section \<open>Kubernetes objects\<close>

record gvk =
  gvk_group :: string
  gvk_version :: string
  gvk_kind :: string

definition gvk_of :: "string \<Rightarrow> string \<Rightarrow> string \<Rightarrow> gvk" where
  "gvk_of g v k = \<lparr>gvk_group = g, gvk_version = v, gvk_kind = k\<rparr>"

lemma gvk_of_eq [simp]: "gvk_of g v k = gvk_of g' v' k' \<longleftrightarrow> g = g' \<and> v = v' \<and> k = k'"
  by (simp add: gvk_of_def)

text \<open>
  The fields of the typed objects the operator reads or writes. The spec of a typed
  Deployment or Service is the JSON object of its set fields: two Go values of these
  types that the operator builds are deeply equal exactly when the JSON objects are.
\<close>

record deployment_status =
  ds_observed_generation :: int
  ds_ready_replicas :: int
  ds_updated_replicas :: int

datatype content =
    Unstructured representation
  | SecretData "(string \<times> string) list option"
  | ConfigMapData "(string \<times> string) list option"
  | NetEyeContent neteye_spec neteye_status
  | UserContent keycloak_user_spec keycloak_user_status
  | ClientContent keycloak_client_spec keycloak_client_status
  | RealmContent keycloak_realm_spec keycloak_realm_status
  | FlowContent keycloak_auth_flow_spec keycloak_auth_flow_status
  | LeaseContent "string option"
  | DeploymentContent representation deployment_status
  | ServiceContent representation
  | NoContent

record k8s_object =
  ob_gvk :: gvk
  ob_meta :: object_meta
  ob_content :: content

definition new_object :: "gvk \<Rightarrow> string \<Rightarrow> string \<Rightarrow> content \<Rightarrow> k8s_object" where
  "new_object k ns n c = \<lparr>ob_gvk = k, ob_meta = new_meta ns n, ob_content = c\<rparr>"

lemma new_object_simps [simp]:
  "ob_gvk (new_object k ns n c) = k" "ob_meta (new_object k ns n c) = new_meta ns n"
  "ob_content (new_object k ns n c) = c"
  by (simp_all add: new_object_def)

section \<open>Calls\<close>

datatype http_method = GET | POST | PUT | DELETE

fun method_text :: "http_method \<Rightarrow> string" where
  "method_text GET = ''GET''"
| "method_text POST = ''POST''"
| "method_text PUT = ''PUT''"
| "method_text DELETE = ''DELETE''"

text \<open>
  The calls that leave the process. \<open>StoreSecretKey\<close> is \<^verbatim>\<open>controllerutil.CreateOrUpdate\<close> of a
  Secret with one key to set.
\<close>

datatype call =
    K8sGet gvk string string
  | K8sCreate k8s_object
  | K8sUpdate k8s_object
  | K8sUpdateStatus k8s_object
  | K8sDelete gvk string string
  | StoreSecretKey string string string string
  | TokenCall string string string
  | AdminCall string http_method string "json option"
  | ReadClock
  | DrawRandom int

text \<open>
  The answer to an HTTP request: it could not be built, could not be sent, its body could
  not be read, or the status code, the status text and the body.
\<close>

datatype http_answer =
    BadRequest go_err
  | SendFailed go_err
  | ReadFailed go_err
  | Answer int string string

type_synonym trace = "call list"

text \<open>
  \<open>env_decode\<close> is \<^verbatim>\<open>json.Unmarshal\<close> into \<^verbatim>\<open>any\<close>, \<open>env_decode_token\<close> into the token payload (the
  access token and its lifetime in seconds), \<open>env_retries\<close> how often \<^verbatim>\<open>retry.RetryOnConflict\<close>
  repeats a conflicting update, \<open>env_controller\<close> the metadata \<^verbatim>\<open>SetControllerReference\<close> leaves,
  \<open>env_class_order\<close> the order in which the runtime iterates over a map literal.
\<close>

record env =
  env_get :: "trace \<Rightarrow> gvk \<Rightarrow> string \<Rightarrow> string \<Rightarrow> go_err + k8s_object"
  env_create :: "trace \<Rightarrow> k8s_object \<Rightarrow> go_err + k8s_object"
  env_update :: "trace \<Rightarrow> k8s_object \<Rightarrow> go_err + k8s_object"
  env_update_status :: "trace \<Rightarrow> k8s_object \<Rightarrow> go_err + k8s_object"
  env_delete :: "trace \<Rightarrow> gvk \<Rightarrow> string \<Rightarrow> string \<Rightarrow> go_err option"
  env_store_secret :: "trace \<Rightarrow> string \<Rightarrow> string \<Rightarrow> string \<Rightarrow> string \<Rightarrow> go_err option"
  env_token :: "trace \<Rightarrow> string \<Rightarrow> string \<Rightarrow> string \<Rightarrow> http_answer"
  env_admin :: "trace \<Rightarrow> string \<Rightarrow> http_method \<Rightarrow> string \<Rightarrow> string \<Rightarrow> json option \<Rightarrow> http_answer"
  env_now :: "trace \<Rightarrow> instant"
  env_random :: "trace \<Rightarrow> int \<Rightarrow> go_err + int"
  env_decode :: "string \<Rightarrow> go_err + json"
  env_decode_token :: "string \<Rightarrow> go_err + (string \<times> int)"
  env_retries :: nat
  env_controller :: "object_meta \<Rightarrow> object_meta \<Rightarrow> go_err + object_meta"
  env_class_order :: "trace \<Rightarrow> (string \<times> int) list \<Rightarrow> (string \<times> int) list"

section \<open>The operator's memory\<close>

text \<open>
  The Admin API clients and the providers are shared objects, so they live in a store and
  a pointer is an index into it.
\<close>

record admin_api =
  api_base_url :: string
  api_username :: string
  api_password :: string
  api_token :: string
  api_token_expiry :: instant

text \<open>\<open>nextInternalAttempt\<close> is None for the zero time.\<close>

record admin_provider =
  pv_credential_namespace :: string
  pv_endpoint_namespace :: string
  pv_skip_internal :: bool
  pv_retry_interval :: duration
  pv_api :: "nat option"
  pv_username :: string
  pv_password :: string
  pv_next_attempt :: "instant option"

record op_state =
  st_trace :: trace
  st_apis :: "admin_api list"
  st_providers :: "admin_provider list"
  st_registry :: "(string \<times> (nat \<times> instant)) list"
  st_component_admin :: "nat option"

type_synonym 'a op = "(op_state, 'a) state"
type_synonym 'a fallible = "(op_state, go_err + 'a) state"

definition initial_state :: op_state where
  "initial_state = \<lparr>st_trace = [], st_apis = [], st_providers = [], st_registry = [],
     st_component_admin = None\<rparr>"

section \<open>Combinators\<close>

abbreviation ok :: "'a \<Rightarrow> 'a fallible" where
  "ok x \<equiv> State_Monad.return (Inr x)"

abbreviation fail :: "go_err \<Rightarrow> 'a fallible" where
  "fail e \<equiv> State_Monad.return (Inl e)"

text \<open>\<^verbatim>\<open>x, err := m; if err != nil { return handle(err) }; k(x)\<close>\<close>

definition attempt ::
    "'a fallible \<Rightarrow> (go_err \<Rightarrow> 'b op) \<Rightarrow> ('a \<Rightarrow> 'b op) \<Rightarrow> 'b op" where
  "attempt m handle k = State_Monad.bind m (\<lambda>r. case r of Inl e \<Rightarrow> handle e | Inr x \<Rightarrow> k x)"

text \<open>\<^verbatim>\<open>x, err := m; if err != nil { return err }; k(x)\<close>\<close>

definition try_ok :: "'a fallible \<Rightarrow> ('a \<Rightarrow> 'b fallible) \<Rightarrow> 'b fallible" where
  "try_ok m k = attempt m fail k"

text \<open>The same with \<^verbatim>\<open>return fmt.Errorf("text: %w", err)\<close>.\<close>

definition try_wrap :: "string \<Rightarrow> 'a fallible \<Rightarrow> ('a \<Rightarrow> 'b fallible) \<Rightarrow> 'b fallible" where
  "try_wrap t m k = attempt m (\<lambda>e. fail (Wrap t e)) k"

text \<open>A pure fallible value used as a step.\<close>

abbreviation lift_result :: "go_err + 'a \<Rightarrow> 'a fallible" where
  "lift_result r \<equiv> State_Monad.return r"

definition lift_error :: "go_err option \<Rightarrow> unit fallible" where
  "lift_error e = State_Monad.return (case e of None \<Rightarrow> Inr () | Some x \<Rightarrow> Inl x)"

text \<open>A loop over a list that stops at the first error.\<close>

fun for_each :: "('a \<Rightarrow> 's \<Rightarrow> 's fallible) \<Rightarrow> 'a list \<Rightarrow> 's \<Rightarrow> 's fallible" where
  "for_each body [] acc = ok acc"
| "for_each body (x # xs) acc = try_ok (body x acc) (\<lambda>acc'. for_each body xs acc')"

lemma run_attempt [simp]:
  "run_state (attempt m handle k) s =
     (case run_state m s of (Inl e, s') \<Rightarrow> run_state (handle e) s' | (Inr x, s') \<Rightarrow> run_state (k x) s')"
  by (simp add: attempt_def run_state_bind split: prod.splits sum.splits)

lemma run_try_ok [simp]:
  "run_state (try_ok m k) s =
     (case run_state m s of (Inl e, s') \<Rightarrow> (Inl e, s') | (Inr x, s') \<Rightarrow> run_state (k x) s')"
  by (simp add: try_ok_def split: prod.splits sum.splits)

lemma run_try_wrap [simp]:
  "run_state (try_wrap t m k) s =
     (case run_state m s of (Inl e, s') \<Rightarrow> (Inl (Wrap t e), s') | (Inr x, s') \<Rightarrow> run_state (k x) s')"
  by (simp add: try_wrap_def split: prod.splits sum.splits)

lemma run_lift_error [simp]:
  "run_state (lift_error e) s = (case e of None \<Rightarrow> Inr () | Some x \<Rightarrow> Inl x, s)"
  by (simp add: lift_error_def)

lemma run_return [simp]: "run_state (State_Monad.return x) s = (x, s)"
  by (simp add: State_Monad.return_def)

lemma attempt_return [simp]:
  "attempt (State_Monad.return r) h k = (case r of Inl e \<Rightarrow> h e | Inr x \<Rightarrow> k x)"
  by (rule state.expand, rule ext) (simp split: sum.split)

lemma try_ok_return [simp]:
  "try_ok (State_Monad.return r) k = (case r of Inl e \<Rightarrow> fail e | Inr x \<Rightarrow> k x)"
  by (simp add: try_ok_def)

section \<open>Making a call\<close>

definition record_call :: "call \<Rightarrow> op_state \<Rightarrow> op_state" where
  "record_call c s = s\<lparr>st_trace := st_trace s @ [c]\<rparr>"

lemma record_call_simps [simp]:
  "st_trace (record_call c s) = st_trace s @ [c]"
  "st_apis (record_call c s) = st_apis s"
  "st_providers (record_call c s) = st_providers s"
  "st_registry (record_call c s) = st_registry s"
  "st_component_admin (record_call c s) = st_component_admin s"
  by (simp_all add: record_call_def)

definition perform :: "call \<Rightarrow> (trace \<Rightarrow> 'a) \<Rightarrow> 'a op" where
  "perform c answer = State (\<lambda>s. (answer (st_trace s), record_call c s))"

lemma run_perform [simp]: "run_state (perform c answer) s = (answer (st_trace s), record_call c s)"
  by (simp add: perform_def)

definition k8s_get :: "env \<Rightarrow> gvk \<Rightarrow> string \<Rightarrow> string \<Rightarrow> k8s_object fallible" where
  "k8s_get e k ns n = perform (K8sGet k ns n) (\<lambda>t. env_get e t k ns n)"

definition k8s_create :: "env \<Rightarrow> k8s_object \<Rightarrow> k8s_object fallible" where
  "k8s_create e ob = perform (K8sCreate ob) (\<lambda>t. env_create e t ob)"

definition k8s_update :: "env \<Rightarrow> k8s_object \<Rightarrow> k8s_object fallible" where
  "k8s_update e ob = perform (K8sUpdate ob) (\<lambda>t. env_update e t ob)"

definition k8s_update_status :: "env \<Rightarrow> k8s_object \<Rightarrow> k8s_object fallible" where
  "k8s_update_status e ob = perform (K8sUpdateStatus ob) (\<lambda>t. env_update_status e t ob)"

definition unit_result :: "go_err option \<Rightarrow> go_err + unit" where
  "unit_result e = (case e of None \<Rightarrow> Inr () | Some x \<Rightarrow> Inl x)"

lemma unit_result_simps [simp]: "unit_result None = Inr ()" "unit_result (Some e) = Inl e"
  by (simp_all add: unit_result_def)

definition k8s_delete :: "env \<Rightarrow> gvk \<Rightarrow> string \<Rightarrow> string \<Rightarrow> unit fallible" where
  "k8s_delete e k ns n = perform (K8sDelete k ns n) (\<lambda>t. unit_result (env_delete e t k ns n))"

definition store_secret_key :: "env \<Rightarrow> string \<Rightarrow> string \<Rightarrow> string \<Rightarrow> string \<Rightarrow> unit fallible" where
  "store_secret_key e ns n key v =
     perform (StoreSecretKey ns n key v) (\<lambda>t. unit_result (env_store_secret e t ns n key v))"

definition read_clock :: "env \<Rightarrow> instant op" where
  "read_clock e = perform ReadClock (env_now e)"

definition draw_random :: "env \<Rightarrow> int \<Rightarrow> int fallible" where
  "draw_random e n = perform (DrawRandom n) (\<lambda>t. env_random e t n)"

definition request_token :: "env \<Rightarrow> string \<Rightarrow> string \<Rightarrow> string \<Rightarrow> http_answer op" where
  "request_token e base user pass =
     perform (TokenCall base user pass) (\<lambda>t. env_token e t base user pass)"

definition admin_request ::
    "env \<Rightarrow> string \<Rightarrow> http_method \<Rightarrow> string \<Rightarrow> string \<Rightarrow> json option \<Rightarrow> http_answer op" where
  "admin_request e base m path token body =
     perform (AdminCall base m path body) (\<lambda>t. env_admin e t base m path token body)"

lemmas call_defs = k8s_get_def k8s_create_def k8s_update_def k8s_update_status_def k8s_delete_def
  store_secret_key_def read_clock_def draw_random_def request_token_def admin_request_def

text \<open>
  \<^verbatim>\<open>retry.RetryOnConflict\<close>: the function runs again, a bounded number of times, as long as
  it fails with a conflict; the last error is returned.
\<close>

fun retry_on_conflict :: "nat \<Rightarrow> 'a fallible \<Rightarrow> 'a fallible" where
  "retry_on_conflict 0 m = m"
| "retry_on_conflict (Suc n) m =
     attempt m (\<lambda>e. if is_conflict e then retry_on_conflict n m else fail e) ok"

text \<open>\<^verbatim>\<open>client.IgnoreNotFound\<close>\<close>

definition ignore_not_found :: "'a fallible \<Rightarrow> unit fallible" where
  "ignore_not_found m = attempt m (\<lambda>e. if is_not_found e then ok () else fail e) (\<lambda>_. ok ())"

section \<open>The calls a step makes\<close>

definition emits :: "(call \<Rightarrow> bool) \<Rightarrow> 'a op \<Rightarrow> bool" where
  "emits P m \<longleftrightarrow>
     (\<forall>s. \<exists>new. st_trace (snd (run_state m s)) = st_trace s @ new \<and> (\<forall>c \<in> set new. P c))"

named_theorems emits_intros

lemma emitsD:
  assumes "emits P m" and "run_state m s = (r, s')"
  obtains new where "st_trace s' = st_trace s @ new" and "\<forall>c \<in> set new. P c"
  using assms unfolding emits_def by (metis snd_conv)

lemma emits_return [emits_intros]: "emits P (State_Monad.return x)"
  by (simp add: emits_def)

lemma emits_lift_error [emits_intros]: "emits P (lift_error e)"
  by (simp add: emits_def)

lemma emits_perform [emits_intros]: "P c \<Longrightarrow> emits P (perform c answer)"
  by (simp add: emits_def)

lemma emits_bind:
  assumes "emits P m" and "\<And>x. emits P (k x)"
  shows "emits P (State_Monad.bind m k)"
  unfolding emits_def
proof
  fix s
  obtain x t where x: "run_state m s = (x, t)" by (cases "run_state m s")
  obtain a where a: "st_trace t = st_trace s @ a" "\<forall>c \<in> set a. P c"
    using assms(1) x by (rule emitsD)
  obtain y u where y: "run_state (k x) t = (y, u)" by (cases "run_state (k x) t")
  obtain b where b: "st_trace u = st_trace t @ b" "\<forall>c \<in> set b. P c"
    using assms(2) y by (rule emitsD)
  show "\<exists>new. st_trace (snd (run_state (State_Monad.bind m k) s)) = st_trace s @ new \<and> (\<forall>c \<in> set new. P c)"
    by (rule exI [of _ "a @ b"]) (use a b x y in \<open>auto simp: run_state_bind\<close>)
qed

lemma emits_attempt:
  assumes "emits P m" and "\<And>e. emits P (h e)" and "\<And>x. emits P (k x)"
  shows "emits P (attempt m h k)"
  unfolding attempt_def by (rule emits_bind) (auto simp: assms split: sum.split)

lemma emits_try_ok: "emits P m \<Longrightarrow> (\<And>x. emits P (k x)) \<Longrightarrow> emits P (try_ok m k)"
  unfolding try_ok_def by (intro emits_attempt emits_return)

lemma emits_try_wrap: "emits P m \<Longrightarrow> (\<And>x. emits P (k x)) \<Longrightarrow> emits P (try_wrap t m k)"
  unfolding try_wrap_def by (intro emits_attempt emits_return)

lemmas emits_binds [emits_intros] = emits_bind emits_attempt emits_try_ok emits_try_wrap

lemma emits_for_each [emits_intros]:
  "(\<And>x acc. x \<in> set xs \<Longrightarrow> emits P (body x acc)) \<Longrightarrow> emits P (for_each body xs acc)"
  by (induction xs arbitrary: acc) (auto intro!: emits_intros)

lemma emits_retry [emits_intros]: "emits P m \<Longrightarrow> emits P (retry_on_conflict n m)"
  by (induction n) (auto intro!: emits_intros)

lemma emits_ignore_not_found [emits_intros]: "emits P m \<Longrightarrow> emits P (ignore_not_found m)"
  by (auto simp: ignore_not_found_def intro!: emits_intros)

lemma emits_mono: "emits P m \<Longrightarrow> (\<And>c. P c \<Longrightarrow> Q c) \<Longrightarrow> emits Q m"
  unfolding emits_def by meson

lemma emits_if [emits_intros]: "(b \<Longrightarrow> emits P m) \<Longrightarrow> (\<not> b \<Longrightarrow> emits P n) \<Longrightarrow> emits P (if b then m else n)"
  by simp

lemma emits_case_option [emits_intros]:
  "(v = None \<Longrightarrow> emits P m) \<Longrightarrow> (\<And>x. v = Some x \<Longrightarrow> emits P (k x)) \<Longrightarrow>
     emits P (case v of None \<Rightarrow> m | Some x \<Rightarrow> k x)"
  by (simp split: option.split)

lemma emits_case_sum [emits_intros]:
  "(\<And>e. v = Inl e \<Longrightarrow> emits P (h e)) \<Longrightarrow> (\<And>x. v = Inr x \<Longrightarrow> emits P (k x)) \<Longrightarrow>
     emits P (case v of Inl e \<Rightarrow> h e | Inr x \<Rightarrow> k x)"
  by (simp split: sum.split)

lemma emits_case_prod [emits_intros]:
  "(\<And>a b. v = (a, b) \<Longrightarrow> emits P (k a b)) \<Longrightarrow> emits P (case v of (a, b) \<Rightarrow> k a b)"
  by (simp split: prod.split)

lemma emits_case_list [emits_intros]:
  "(v = [] \<Longrightarrow> emits P m) \<Longrightarrow> (\<And>x xs. v = x # xs \<Longrightarrow> emits P (k x xs)) \<Longrightarrow>
     emits P (case v of [] \<Rightarrow> m | x # xs \<Rightarrow> k x xs)"
  by (simp split: list.split)

lemma emits_Let [emits_intros]: "(\<And>x. x = v \<Longrightarrow> emits P (k x)) \<Longrightarrow> emits P (Let v k)"
  by simp

text \<open>A step that only changes the operator's memory makes no call.\<close>

definition silent :: "'a op \<Rightarrow> bool" where
  "silent m \<longleftrightarrow> (\<forall>s. st_trace (snd (run_state m s)) = st_trace s)"

lemma emits_silent: "silent m \<Longrightarrow> emits P m"
  by (simp add: silent_def emits_def)

lemma emits_State [emits_intros]:
  "(\<And>s. st_trace (snd (f s)) = st_trace s) \<Longrightarrow> emits P (State f)"
  by (simp add: emits_def)

text \<open>Every value a step can return satisfies \<open>Q\<close>.\<close>

definition returns :: "('a \<Rightarrow> bool) \<Rightarrow> 'a op \<Rightarrow> bool" where
  "returns Q m \<longleftrightarrow> (\<forall>s. Q (fst (run_state m s)))"

named_theorems returns_intros

lemma returns_State [returns_intros]: "(\<And>s. Q (fst (f s))) \<Longrightarrow> returns Q (State f)"
  by (simp add: returns_def)

lemma returnsD: "returns Q m \<Longrightarrow> run_state m s = (r, s') \<Longrightarrow> Q r"
  unfolding returns_def by (metis fst_conv)

lemma returns_return [returns_intros]: "Q x \<Longrightarrow> returns Q (State_Monad.return x)"
  by (simp add: returns_def)

lemma returns_bind [returns_intros]: "(\<And>x. returns Q (k x)) \<Longrightarrow> returns Q (State_Monad.bind m k)"
  by (simp add: returns_def run_state_bind split: prod.split)

lemma returns_attempt [returns_intros]:
  "(\<And>e. returns Q (h e)) \<Longrightarrow> (\<And>x. returns Q (k x)) \<Longrightarrow> returns Q (attempt m h k)"
  by (simp add: returns_def split: prod.split sum.split)

lemma returns_if [returns_intros]: "(b \<Longrightarrow> returns Q m) \<Longrightarrow> (\<not> b \<Longrightarrow> returns Q n) \<Longrightarrow> returns Q (if b then m else n)"
  by simp

lemma returns_case_option [returns_intros]:
  "(v = None \<Longrightarrow> returns Q m) \<Longrightarrow> (\<And>x. v = Some x \<Longrightarrow> returns Q (k x)) \<Longrightarrow>
     returns Q (case v of None \<Rightarrow> m | Some x \<Rightarrow> k x)"
  by (simp split: option.split)

lemma returns_case_sum [returns_intros]:
  "(\<And>e. v = Inl e \<Longrightarrow> returns Q (h e)) \<Longrightarrow> (\<And>x. v = Inr x \<Longrightarrow> returns Q (k x)) \<Longrightarrow>
     returns Q (case v of Inl e \<Rightarrow> h e | Inr x \<Rightarrow> k x)"
  by (simp split: sum.split)

lemma returns_case_prod [returns_intros]:
  "(\<And>a b. v = (a, b) \<Longrightarrow> returns Q (k a b)) \<Longrightarrow> returns Q (case v of (a, b) \<Rightarrow> k a b)"
  by (simp split: prod.split)

lemma returns_Let [returns_intros]: "(\<And>x. x = v \<Longrightarrow> returns Q (k x)) \<Longrightarrow> returns Q (Let v k)"
  by simp

text \<open>
  \<open>delivers P R m\<close>: when \<open>m\<close> succeeds, its value satisfies \<open>P\<close>; when it fails, its error
  satisfies \<open>R\<close>.
\<close>

definition delivers :: "('a \<Rightarrow> bool) \<Rightarrow> (go_err \<Rightarrow> bool) \<Rightarrow> 'a fallible \<Rightarrow> bool" where
  "delivers P R m \<longleftrightarrow> returns (case_sum R P) m"

named_theorems delivers_intros

lemma delivers_Inr: "delivers P R m \<Longrightarrow> run_state m s = (Inr x, s') \<Longrightarrow> P x"
  unfolding delivers_def by (drule (1) returnsD) simp

lemma delivers_Inl: "delivers P R m \<Longrightarrow> run_state m s = (Inl e, s') \<Longrightarrow> R e"
  unfolding delivers_def by (drule (1) returnsD) simp

lemma delivers_ok [delivers_intros]: "P x \<Longrightarrow> delivers P R (ok x)"
  by (simp add: delivers_def returns_def)

lemma delivers_fail [delivers_intros]: "R e \<Longrightarrow> delivers P R (fail e)"
  by (simp add: delivers_def returns_def)

lemma delivers_lift: "case_sum R P r \<Longrightarrow> delivers P R (lift_result r)"
  by (simp add: delivers_def returns_def)

lemma delivers_perform: "(\<And>t. case_sum R P (answer t)) \<Longrightarrow> delivers P R (perform c answer)"
  by (simp add: delivers_def returns_def)

lemma delivers_attempt:
  "delivers A B m \<Longrightarrow> (\<And>e. B e \<Longrightarrow> delivers P R (h e)) \<Longrightarrow> (\<And>x. A x \<Longrightarrow> delivers P R (k x)) \<Longrightarrow>
     delivers P R (attempt m h k)"
  by (auto simp: delivers_def returns_def split: prod.split sum.split) (metis fst_conv sum.case)+

lemma delivers_try:
  "delivers A R m \<Longrightarrow> (\<And>x. A x \<Longrightarrow> delivers P R (k x)) \<Longrightarrow> delivers P R (try_ok m k)"
  unfolding try_ok_def by (erule delivers_attempt) (auto intro: delivers_intros)

lemma delivers_bind:
  "returns A m \<Longrightarrow> (\<And>x. A x \<Longrightarrow> delivers P R (k x)) \<Longrightarrow> delivers P R (State_Monad.bind m k)"
  by (auto simp: delivers_def returns_def run_state_bind split: prod.split) (metis fst_conv)

lemma delivers_any [delivers_intros]: "delivers (\<lambda>x. True) (\<lambda>e. True) m"
  by (simp add: delivers_def returns_def split: sum.split)

lemma delivers_mono:
  "delivers P R m \<Longrightarrow> (\<And>x. P x \<Longrightarrow> P' x) \<Longrightarrow> (\<And>e. R e \<Longrightarrow> R' e) \<Longrightarrow> delivers P' R' m"
  unfolding delivers_def returns_def by (auto split: sum.splits)

text \<open>\<open>keeps f m\<close>: \<open>m\<close> leaves the part \<open>f\<close> of the operator's memory as it is.\<close>

definition keeps :: "(op_state \<Rightarrow> 'k) \<Rightarrow> 'a op \<Rightarrow> bool" where
  "keeps f m \<longleftrightarrow> (\<forall>s. f (snd (run_state m s)) = f s)"

named_theorems keeps_intros

lemma keepsD: "keeps f m \<Longrightarrow> run_state m s = (r, s') \<Longrightarrow> f s' = f s"
  unfolding keeps_def by (metis snd_conv)

lemma keeps_return [keeps_intros]: "keeps f (State_Monad.return x)"
  by (simp add: keeps_def)

lemma keeps_State [keeps_intros]: "(\<And>s. f (snd (g s)) = f s) \<Longrightarrow> keeps f (State g)"
  by (simp add: keeps_def)

lemma keeps_bind [keeps_intros]:
  "keeps f m \<Longrightarrow> (\<And>x. keeps f (k x)) \<Longrightarrow> keeps f (State_Monad.bind m k)"
  by (simp add: keeps_def run_state_bind split: prod.split) (metis snd_conv)

lemma keeps_attempt [keeps_intros]:
  "keeps f m \<Longrightarrow> (\<And>e. keeps f (h e)) \<Longrightarrow> (\<And>x. keeps f (k x)) \<Longrightarrow> keeps f (attempt m h k)"
  unfolding attempt_def by (rule keeps_bind) (auto split: sum.split)

lemma keeps_try [keeps_intros]:
  "keeps f m \<Longrightarrow> (\<And>x. keeps f (k x)) \<Longrightarrow> keeps f (try_ok m k)"
  unfolding try_ok_def by (intro keeps_intros)

lemma keeps_wrap [keeps_intros]:
  "keeps f m \<Longrightarrow> (\<And>x. keeps f (k x)) \<Longrightarrow> keeps f (try_wrap t m k)"
  unfolding try_wrap_def by (intro keeps_intros)

lemma keeps_if [keeps_intros]: "(b \<Longrightarrow> keeps f m) \<Longrightarrow> (\<not> b \<Longrightarrow> keeps f n) \<Longrightarrow> keeps f (if b then m else n)"
  by simp

lemma keeps_case_option [keeps_intros]:
  "(v = None \<Longrightarrow> keeps f m) \<Longrightarrow> (\<And>x. v = Some x \<Longrightarrow> keeps f (k x)) \<Longrightarrow>
     keeps f (case v of None \<Rightarrow> m | Some x \<Rightarrow> k x)"
  by (simp split: option.split)

lemma keeps_case_sum [keeps_intros]:
  "(\<And>e. v = Inl e \<Longrightarrow> keeps f (h e)) \<Longrightarrow> (\<And>x. v = Inr x \<Longrightarrow> keeps f (k x)) \<Longrightarrow>
     keeps f (case v of Inl e \<Rightarrow> h e | Inr x \<Rightarrow> k x)"
  by (simp split: sum.split)

lemma keeps_case_prod [keeps_intros]:
  "(\<And>a b. v = (a, b) \<Longrightarrow> keeps f (k a b)) \<Longrightarrow> keeps f (case v of (a, b) \<Rightarrow> k a b)"
  by (simp split: prod.split)

lemma keeps_Let [keeps_intros]: "(\<And>x. x = v \<Longrightarrow> keeps f (k x)) \<Longrightarrow> keeps f (Let v k)"
  by simp

lemma keeps_for_each [keeps_intros]:
  "(\<And>x acc. keeps f (body x acc)) \<Longrightarrow> keeps f (for_each body xs acc)"
  by (induction xs arbitrary: acc) (auto intro!: keeps_intros)

text \<open>A call changes nothing but the trace.\<close>

definition memory :: "op_state \<Rightarrow> admin_api list \<times> admin_provider list \<times> (string \<times> (nat \<times> instant)) list \<times> nat option" where
  "memory s = (st_apis s, st_providers s, st_registry s, st_component_admin s)"

lemma keeps_perform [keeps_intros]: "(\<And>s c. f (record_call c s) = f s) \<Longrightarrow> keeps f (perform c answer)"
  by (simp add: keeps_def)

lemma memory_record_call [simp]: "memory (record_call c s) = memory s"
  by (simp add: memory_def)

text \<open>What was read in a run: the answer to a call that is in its trace.\<close>

definition was_read :: "env \<Rightarrow> trace \<Rightarrow> gvk \<Rightarrow> string \<Rightarrow> string \<Rightarrow> k8s_object \<Rightarrow> bool" where
  "was_read env t k ns n ob \<longleftrightarrow>
     (\<exists>before after. t = before @ K8sGet k ns n # after \<and> env_get env before k ns n = Inr ob)"

lemma was_read_append: "was_read env t k ns n ob \<Longrightarrow> was_read env (t @ new) k ns n ob"
  unfolding was_read_def by (metis append.assoc append_Cons)

lemma was_read_last: "env_get env t k ns n = Inr ob \<Longrightarrow> was_read env (t @ [K8sGet k ns n]) k ns n ob"
  unfolding was_read_def by blast

text \<open>Read after the trace was \<open>t0\<close>, so not from memory.\<close>

definition read_since :: "env \<Rightarrow> trace \<Rightarrow> trace \<Rightarrow> gvk \<Rightarrow> string \<Rightarrow> string \<Rightarrow> k8s_object \<Rightarrow> bool" where
  "read_since env t0 t k ns n ob \<longleftrightarrow>
     (\<exists>before after. t = t0 @ before @ K8sGet k ns n # after \<and> env_get env (t0 @ before) k ns n = Inr ob)"

lemma read_since_append: "read_since env t0 t k ns n ob \<Longrightarrow> read_since env t0 (t @ new) k ns n ob"
  unfolding read_since_def by (metis append.assoc append_Cons)

lemma read_since_prefix: "read_since env (t0 @ more_calls) t k ns n ob \<Longrightarrow> read_since env t0 t k ns n ob"
  unfolding read_since_def by (metis append.assoc)

lemma read_since_now: "env_get env t k ns n = Inr ob \<Longrightarrow> read_since env t (t @ [K8sGet k ns n]) k ns n ob"
  unfolding read_since_def by (metis append_Nil append_Nil2)

text \<open>The calls that write, in Kubernetes or in Keycloak.\<close>

fun is_write :: "call \<Rightarrow> bool" where
  "is_write (K8sCreate ob) = True"
| "is_write (K8sUpdate ob) = True"
| "is_write (K8sUpdateStatus ob) = True"
| "is_write (K8sDelete k ns n) = True"
| "is_write (StoreSecretKey ns n key v) = True"
| "is_write (AdminCall base m path body) = (m \<noteq> GET)"
| "is_write _ = False"

fun is_k8s_write :: "call \<Rightarrow> bool" where
  "is_k8s_write (K8sCreate ob) = True"
| "is_k8s_write (K8sUpdate ob) = True"
| "is_k8s_write (K8sUpdateStatus ob) = True"
| "is_k8s_write (K8sDelete k ns n) = True"
| "is_k8s_write (StoreSecretKey ns n key v) = True"
| "is_k8s_write _ = False"

text \<open>A step that does not fail with a conflict is not repeated.\<close>

lemma run_retry_no_conflict:
  assumes "run_state m s = (r, s')" and "\<And>e. r = Inl e \<Longrightarrow> \<not> is_conflict e"
  shows "run_state (retry_on_conflict n m) s = (r, s')"
  using assms by (cases n) (auto split: sum.splits)

section \<open>Loops that only add\<close>

text \<open>
  The contract of the loops over declared entries (roles, groups, scopes, mappers): an entry
  that is already there is skipped without a call.
\<close>

locale declared_entries =
  fixes step :: "'n \<Rightarrow> 'acc \<Rightarrow> 'acc fallible"
    and present :: "'n \<Rightarrow> bool"
  assumes present_skips: "present n \<Longrightarrow> step n acc = ok acc"
begin

lemma all_present: "\<forall>n \<in> set ns. present n \<Longrightarrow> for_each step ns acc = ok acc"
  by (induction ns) (simp_all add: present_skips)

text \<open>Entries that are there do not hide the ones that are missing.\<close>

lemma first_missing:
  "\<forall>n \<in> set ns. present n \<Longrightarrow> for_each step (ns @ ms) acc = for_each step ms acc"
  by (induction ns) (simp_all add: present_skips)

end

section \<open>A world for concrete runs\<close>

text \<open>
  An API server that keeps the objects it is sent, the start objects first, and a Keycloak
  given by a function of the calls so far. Concrete runs evaluate in it.
\<close>

definition has_key :: "gvk \<Rightarrow> string \<Rightarrow> string \<Rightarrow> k8s_object \<Rightarrow> bool" where
  "has_key k ns n ob \<longleftrightarrow> ob_gvk ob = k \<and> meta_namespace (ob_meta ob) = ns \<and> meta_name (ob_meta ob) = n"

definition put_object :: "k8s_object \<Rightarrow> k8s_object list \<Rightarrow> k8s_object list" where
  "put_object ob obs =
     ob # filter (\<lambda>x. \<not> has_key (ob_gvk ob) (meta_namespace (ob_meta ob)) (meta_name (ob_meta ob)) x) obs"

fun stored_after :: "call \<Rightarrow> k8s_object list \<Rightarrow> k8s_object list" where
  "stored_after (K8sCreate ob) obs = put_object ob obs"
| "stored_after (K8sUpdate ob) obs = put_object ob obs"
| "stored_after (K8sUpdateStatus ob) obs = put_object ob obs"
| "stored_after (K8sDelete k ns n) obs = filter (\<lambda>x. \<not> has_key k ns n x) obs"
| "stored_after c obs = obs"

definition stored :: "k8s_object list \<Rightarrow> trace \<Rightarrow> k8s_object list" where
  "stored obs t = fold stored_after t obs"

lemma stored_simps [simp]: "stored obs [] = obs" "stored obs (t @ [c]) = stored_after c (stored obs t)"
  by (simp_all add: stored_def)

definition memory_get :: "k8s_object list \<Rightarrow> trace \<Rightarrow> gvk \<Rightarrow> string \<Rightarrow> string \<Rightarrow> go_err + k8s_object" where
  "memory_get obs t k ns n =
     (case find (has_key k ns n) (stored obs t) of
        None \<Rightarrow> Inl (K8sErr NotFound ''not found'')
      | Some ob \<Rightarrow> Inr ob)"

definition memory_env ::
    "k8s_object list \<Rightarrow>
     (trace \<Rightarrow> string \<Rightarrow> http_method \<Rightarrow> string \<Rightarrow> string \<Rightarrow> json option \<Rightarrow> http_answer) \<Rightarrow>
     (string \<Rightarrow> go_err + json) \<Rightarrow> env" where
  "memory_env obs admin decode =
     \<lparr>env_get = memory_get obs,
      env_create = (\<lambda>t ob. Inr ob), env_update = (\<lambda>t ob. Inr ob), env_update_status = (\<lambda>t ob. Inr ob),
      env_delete = (\<lambda>t k ns n. None), env_store_secret = (\<lambda>t ns n key v. None),
      env_token = (\<lambda>t base user pass. Answer 200 ''200 OK'' ''token''),
      env_admin = admin, env_now = (\<lambda>t. 0), env_random = (\<lambda>t n. Inr 0),
      env_decode = decode, env_decode_token = (\<lambda>raw. Inr (''token'', 60)), env_retries = 3,
      env_controller = (\<lambda>owner m. Inr m), env_class_order = (\<lambda>t xs. xs)\<rparr>"

definition no_keycloak ::
    "trace \<Rightarrow> string \<Rightarrow> http_method \<Rightarrow> string \<Rightarrow> string \<Rightarrow> json option \<Rightarrow> http_answer" where
  "no_keycloak t base m path token body = SendFailed (Msg ''connection refused'')"

definition cluster_env :: "k8s_object list \<Rightarrow> env" where
  "cluster_env obs = memory_env obs no_keycloak (\<lambda>raw. Inl (Msg ''no JSON''))"

lemma cluster_env_simps [simp]:
  "env_get (cluster_env obs) = memory_get obs"
  "env_create (cluster_env obs) = (\<lambda>t ob. Inr ob)"
  "env_update (cluster_env obs) = (\<lambda>t ob. Inr ob)"
  "env_update_status (cluster_env obs) = (\<lambda>t ob. Inr ob)"
  "env_delete (cluster_env obs) = (\<lambda>t k ns n. None)"
  "env_store_secret (cluster_env obs) = (\<lambda>t ns n key v. None)"
  "env_now (cluster_env obs) = (\<lambda>t. 0)"
  "env_retries (cluster_env obs) = 3"
  by (simp_all add: cluster_env_def memory_env_def)

lemma memory_get_keeps_key: "memory_get obs t k ns n = Inr ob \<Longrightarrow> has_key k ns n ob"
  by (auto simp: memory_get_def find_Some_iff split: option.splits)

end
