(* ===== verification/Resource_Apply.thy ===== *)
theory Resource_Apply
  imports Effects
begin

text \<open>
  The generic resource helpers of \<^verbatim>\<open>internal/resources\<close>: ownership (\<^verbatim>\<open>ownership.go\<close>), the
  create-or-reconcile operation \<^verbatim>\<open>Apply\<close> on unstructured objects (\<^verbatim>\<open>apply.go\<close>), its
  counterparts for ConfigMaps, Deployments and Services (\<^verbatim>\<open>core.go\<close>), and the readiness
  tests (\<^verbatim>\<open>conditions.go\<close>, \<^verbatim>\<open>deployment.go\<close>).

  The lemmas show that an object that exists is never adopted nor its owners changed,
  that an object some other controller owns is never written, what is written, and that
  an application that succeeded finds nothing to do when it runs again.
\<close>

section \<open>Unstructured fields\<close>

text \<open>The fields of an object next to its metadata; an object of another kind has none.\<close>

definition fields_of :: "k8s_object \<Rightarrow> representation" where
  "fields_of ob = (case ob_content ob of Unstructured m \<Rightarrow> m | _ \<Rightarrow> [])"

text \<open>\<^verbatim>\<open>unstructured.NestedFieldNoCopy\<close> and its typed variants; an absent field is \<open>Inr None\<close>.\<close>

fun nested_field :: "json \<Rightarrow> string list \<Rightarrow> go_err + json option" where
  "nested_field v [] = Inr (Some v)"
| "nested_field v (f # fs) =
     (case v of
        JNull \<Rightarrow> Inr None
      | JObj m \<Rightarrow> (case map_of m f of None \<Rightarrow> Inr None | Some w \<Rightarrow> nested_field w fs)
      | _ \<Rightarrow> Inl (Msg (''accessor error: '' @ f)))"

definition nested_slice :: "representation \<Rightarrow> string list \<Rightarrow> go_err + json list option" where
  "nested_slice m path =
     (case nested_field (JObj m) path of
        Inl e \<Rightarrow> Inl e
      | Inr None \<Rightarrow> Inr None
      | Inr (Some (JArr xs)) \<Rightarrow> Inr (Some xs)
      | Inr (Some _) \<Rightarrow> Inl (Msg ''accessor error: not a list''))"

definition nested_map :: "representation \<Rightarrow> string \<Rightarrow> go_err + representation option" where
  "nested_map m f =
     (case nested_field (JObj m) [f] of
        Inl e \<Rightarrow> Inl e
      | Inr None \<Rightarrow> Inr None
      | Inr (Some (JObj x)) \<Rightarrow> Inr (Some x)
      | Inr (Some _) \<Rightarrow> Inl (Msg ''accessor error: not a map''))"

definition nested_int64 :: "representation \<Rightarrow> string \<Rightarrow> go_err + int option" where
  "nested_int64 m f =
     (case nested_field (JObj m) [f] of
        Inl e \<Rightarrow> Inl e
      | Inr None \<Rightarrow> Inr None
      | Inr (Some (JInt i)) \<Rightarrow> Inr (Some i)
      | Inr (Some _) \<Rightarrow> Inl (Msg ''accessor error: not an int64''))"

text \<open>\<^verbatim>\<open>s, _, _ := unstructured.NestedString(m, f)\<close> is the empty string unless \<open>f\<close> is a string.\<close>

definition nested_string :: "representation \<Rightarrow> string \<Rightarrow> string" where
  "nested_string m f = string_value m f"

section \<open>Ownership\<close>

definition make_owner_reference :: "string \<Rightarrow> string \<Rightarrow> object_meta \<Rightarrow> owner_reference" where
  "make_owner_reference api_version kind owner =
     \<lparr>or_api_version = api_version, or_kind = kind, or_name = meta_name owner,
      or_uid = meta_uid owner, or_controller = Some True, or_block_owner_deletion = Some True\<rparr>"

definition is_controller_ref :: "owner_reference \<Rightarrow> bool" where
  "is_controller_ref r \<longleftrightarrow> or_controller r = Some True"

definition object_text :: "k8s_object \<Rightarrow> string" where
  "object_text ob =
     gvk_kind (ob_gvk ob) @ '' '' @ meta_namespace (ob_meta ob) @ ''/'' @ meta_name (ob_meta ob)"

definition already_controlled :: "k8s_object \<Rightarrow> owner_reference \<Rightarrow> go_err" where
  "already_controlled ob existing =
     Msg (object_text ob @ '' is already controlled by '' @ or_kind existing @ '' '' @
          or_api_version existing @ ''/'' @ or_name existing)"

text \<open>The loop of \<^verbatim>\<open>SetOwnerReference\<close>: an error, or whether the owner is there already.\<close>

fun owner_present :: "k8s_object \<Rightarrow> owner_reference \<Rightarrow> owner_reference list \<Rightarrow> go_err + bool" where
  "owner_present ob owner [] = Inr False"
| "owner_present ob owner (r # rs) =
     (if or_uid r = or_uid owner then Inr True
      else if is_controller_ref r then Inl (already_controlled ob r)
      else owner_present ob owner rs)"

definition owners_of :: "k8s_object \<Rightarrow> owner_reference list" where
  "owners_of ob = meta_owners (ob_meta ob)"

definition set_owners :: "owner_reference list \<Rightarrow> k8s_object \<Rightarrow> k8s_object" where
  "set_owners rs ob = ob\<lparr>ob_meta := (ob_meta ob)\<lparr>meta_owners := rs\<rparr>\<rparr>"

definition set_owner_reference :: "k8s_object \<Rightarrow> owner_reference \<Rightarrow> go_err + (bool \<times> k8s_object)" where
  "set_owner_reference ob owner =
     (case owner_present ob owner (owners_of ob) of
        Inl e \<Rightarrow> Inl e
      | Inr True \<Rightarrow> Inr (False, ob)
      | Inr False \<Rightarrow> Inr (True, set_owners (owners_of ob @ [owner]) ob))"

fun managed_owner_error :: "k8s_object \<Rightarrow> owner_reference \<Rightarrow> owner_reference list \<Rightarrow> go_err option" where
  "managed_owner_error ob owner [] =
     Some (Msg (object_text ob @ '' is not controlled by the expected owner and cannot be adopted''))"
| "managed_owner_error ob owner (r # rs) =
     (if or_uid r = or_uid owner \<and> is_controller_ref r then None
      else if is_controller_ref r then Some (already_controlled ob r)
      else managed_owner_error ob owner rs)"

definition require_managed_owner :: "k8s_object \<Rightarrow> owner_reference \<Rightarrow> go_err option" where
  "require_managed_owner ob owner = managed_owner_error ob owner (owners_of ob)"

text \<open>The abstract reading: the first controller of the object is the owner.\<close>

definition controller_of :: "k8s_object \<Rightarrow> owner_reference option" where
  "controller_of ob = find is_controller_ref (owners_of ob)"

definition managed_by :: "owner_reference \<Rightarrow> k8s_object \<Rightarrow> bool" where
  "managed_by owner ob \<longleftrightarrow> (\<exists>r. controller_of ob = Some r \<and> or_uid r = or_uid owner)"

lemma managed_owner_error_None:
  "managed_owner_error ob owner rs = None \<longleftrightarrow>
     (\<exists>r. find is_controller_ref rs = Some r \<and> or_uid r = or_uid owner)"
  by (induction rs) auto

lemma require_managed_owner_None: "require_managed_owner ob owner = None \<longleftrightarrow> managed_by owner ob"
  by (simp add: require_managed_owner_def managed_owner_error_None managed_by_def controller_of_def)

lemma owner_present_managed:
  "managed_owner_error ob owner rs = None \<Longrightarrow> owner_present ob owner rs = Inr True"
  by (induction rs) (auto split: if_splits)

lemma set_owner_reference_managed: "managed_by owner ob \<Longrightarrow> set_owner_reference ob owner = Inr (False, ob)"
  using owner_present_managed [of ob owner "owners_of ob"] require_managed_owner_None [of ob owner]
  by (simp add: set_owner_reference_def require_managed_owner_def)

lemma set_owner_reference_fresh:
  "owners_of ob = [] \<Longrightarrow> set_owner_reference ob owner = Inr (True, set_owners [owner] ob)"
  by (simp add: set_owner_reference_def)

section \<open>Apply\<close>

datatype apply_outcome = Unchanged | Updated | Created

record object_definition =
  od_gvk :: gvk
  od_name :: string
  od_namespace :: string
  od_spec :: representation
  od_owner :: "owner_reference option"

definition managed_by_label :: string where "managed_by_label = ''app.kubernetes.io/managed-by''"
definition managed_by_value :: string where "managed_by_value = ''neteye-operator''"

definition get_object :: "env \<Rightarrow> object_definition \<Rightarrow> k8s_object fallible" where
  "get_object env obj = k8s_get env (od_gvk obj) (od_namespace obj) (od_name obj)"

text \<open>A missing spec and one that is no object both read as the nil map, which equals no spec.\<close>

definition current_spec :: "k8s_object \<Rightarrow> representation option" where
  "current_spec ob = (case nested_map (fields_of ob) ''spec'' of Inr (Some m) \<Rightarrow> Some m | _ \<Rightarrow> None)"

definition set_spec :: "representation \<Rightarrow> k8s_object \<Rightarrow> k8s_object" where
  "set_spec spec ob = ob\<lparr>ob_content := Unstructured (AList.update ''spec'' (JObj spec) (fields_of ob))\<rparr>"

definition spec_changed :: "k8s_object \<Rightarrow> representation \<Rightarrow> bool" where
  "spec_changed ob spec \<longleftrightarrow>
     (case current_spec ob of None \<Rightarrow> True | Some m \<Rightarrow> \<not> deep_equal (JObj m) (JObj spec))"

definition check_owner :: "k8s_object \<Rightarrow> owner_reference option \<Rightarrow> go_err + (bool \<times> k8s_object)" where
  "check_owner live owner =
     (case owner of
        None \<Rightarrow> Inr (False, live)
      | Some w \<Rightarrow>
          (case require_managed_owner live w of
             Some e \<Rightarrow> Inl e
           | None \<Rightarrow> set_owner_reference live w))"

definition reconcile_existing :: "env \<Rightarrow> object_definition \<Rightarrow> apply_outcome fallible" where
  "reconcile_existing env obj =
     retry_on_conflict (env_retries env)
       (try_ok (get_object env obj) (\<lambda>live.
        try_ok (lift_result (check_owner live (od_owner obj))) (\<lambda>(owner_changed, live').
          if \<not> spec_changed live (od_spec obj) \<and> \<not> owner_changed then ok Unchanged
          else try_ok (k8s_update env
                 (if spec_changed live (od_spec obj) then set_spec (od_spec obj) live' else live'))
                 (\<lambda>_. ok Updated))))"

definition desired_object :: "object_definition \<Rightarrow> k8s_object" where
  "desired_object obj =
     (let ob = new_object (od_gvk obj) (od_namespace obj) (od_name obj)
                 (Unstructured [(''spec'', JObj (od_spec obj))])
      in ob\<lparr>ob_meta := (ob_meta ob)\<lparr>meta_labels := [(managed_by_label, managed_by_value)]\<rparr>\<rparr>)"

definition owned_object :: "object_definition \<Rightarrow> go_err + k8s_object" where
  "owned_object obj =
     (case od_owner obj of
        None \<Rightarrow> Inr (desired_object obj)
      | Some owner \<Rightarrow>
          (case set_owner_reference (desired_object obj) owner of
             Inl e \<Rightarrow> Inl e
           | Inr (_, ob) \<Rightarrow> Inr ob))"

definition create_object :: "env \<Rightarrow> object_definition \<Rightarrow> apply_outcome fallible" where
  "create_object env obj =
     try_ok (lift_result (owned_object obj)) (\<lambda>desired.
     attempt (k8s_create env desired)
       (\<lambda>e. if \<not> is_already_exists e then fail e else reconcile_existing env obj)
       (\<lambda>_. ok Created))"

definition apply_object :: "env \<Rightarrow> object_definition \<Rightarrow> apply_outcome fallible" where
  "apply_object env obj =
     attempt (get_object env obj)
       (\<lambda>e. if is_not_found e then create_object env obj else fail e)
       (\<lambda>_. reconcile_existing env obj)"

text \<open>Creating with an owner never fails on the owner: a new object has none.\<close>

lemma owners_desired_object [simp]: "owners_of (desired_object obj) = []"
  by (simp add: desired_object_def owners_of_def Let_def)

definition created_object :: "object_definition \<Rightarrow> k8s_object" where
  "created_object obj =
     (case od_owner obj of None \<Rightarrow> desired_object obj | Some w \<Rightarrow> set_owners [w] (desired_object obj))"

lemma owned_object_eq: "owned_object obj = Inr (created_object obj)"
  by (simp add: owned_object_def created_object_def set_owner_reference_fresh split: option.split)

lemma check_owner_cases:
  "check_owner live owner =
     (case owner of
        None \<Rightarrow> Inr (False, live)
      | Some w \<Rightarrow> if managed_by w live then Inr (False, live)
                  else Inl (the (require_managed_owner live w)))"
proof (cases owner)
  case (Some w)
  then show ?thesis
    using require_managed_owner_None [of live w]
    by (cases "require_managed_owner live w") (auto simp: check_owner_def set_owner_reference_managed)
qed (simp add: check_owner_def)

text \<open>What one pass over an existing object does: nothing, one update of the spec, or an error.\<close>

definition admitted :: "object_definition \<Rightarrow> k8s_object \<Rightarrow> bool" where
  "admitted obj live \<longleftrightarrow> (case od_owner obj of None \<Rightarrow> True | Some w \<Rightarrow> managed_by w live)"

definition reconcile_once :: "env \<Rightarrow> object_definition \<Rightarrow> apply_outcome fallible" where
  "reconcile_once env obj =
     try_ok (get_object env obj) (\<lambda>live.
       if \<not> admitted obj live then fail (the (require_managed_owner live (the (od_owner obj))))
       else if \<not> spec_changed live (od_spec obj) then ok Unchanged
       else try_ok (k8s_update env (set_spec (od_spec obj) live)) (\<lambda>_. ok Updated))"

lemma reconcile_existing_eq:
  "reconcile_existing env obj = retry_on_conflict (env_retries env) (reconcile_once env obj)"
proof -
  have "(\<lambda>live. try_ok (lift_result (check_owner live (od_owner obj))) (\<lambda>(owner_changed, live').
          if \<not> spec_changed live (od_spec obj) \<and> \<not> owner_changed then ok Unchanged
          else try_ok (k8s_update env
                 (if spec_changed live (od_spec obj) then set_spec (od_spec obj) live' else live'))
                 (\<lambda>_. ok Updated))) =
        (\<lambda>live.
          if \<not> admitted obj live then fail (the (require_managed_owner live (the (od_owner obj))))
          else if \<not> spec_changed live (od_spec obj) then ok Unchanged
          else try_ok (k8s_update env (set_spec (od_spec obj) live)) (\<lambda>_. ok Updated))"
    by (rule ext, rule state.expand, rule ext)
      (simp add: check_owner_cases admitted_def split: option.split)
  then show ?thesis by (simp only: reconcile_existing_def reconcile_once_def)
qed

lemma meta_set_spec [simp]: "ob_meta (set_spec spec ob) = ob_meta ob"
  by (simp add: set_spec_def)

lemma gvk_set_spec [simp]: "ob_gvk (set_spec spec ob) = ob_gvk ob"
  by (simp add: set_spec_def)

lemma current_spec_set_spec [simp]: "current_spec (set_spec spec ob) = Some spec"
  by (simp add: current_spec_def set_spec_def fields_of_def nested_map_def)

lemma admitted_set_spec [simp]: "admitted obj (set_spec spec ob) = admitted obj ob"
  by (simp add: admitted_def managed_by_def controller_of_def owners_of_def split: option.split)

text \<open>The calls \<^verbatim>\<open>Apply\<close> may make for a definition.\<close>

fun apply_call :: "object_definition \<Rightarrow> call \<Rightarrow> bool" where
  "apply_call obj (K8sGet k ns n) = (k = od_gvk obj \<and> ns = od_namespace obj \<and> n = od_name obj)"
| "apply_call obj (K8sCreate ob) = (ob = created_object obj)"
| "apply_call obj (K8sUpdate ob) = (admitted obj ob \<and> current_spec ob = Some (od_spec obj))"
| "apply_call obj c = False"

lemma emits_reconcile_existing: "emits (apply_call obj) (reconcile_existing env obj)"
  unfolding reconcile_existing_eq reconcile_once_def get_object_def k8s_get_def k8s_update_def
  by (intro emits_intros) auto

lemma emits_apply_object: "emits (apply_call obj) (apply_object env obj)"
  unfolding apply_object_def create_object_def owned_object_eq get_object_def k8s_get_def k8s_create_def
    try_ok_return sum.case
  by (intro emits_intros emits_reconcile_existing) auto

text \<open>
  Whatever the API server answers, \<^verbatim>\<open>Apply\<close> reads one key, creates nothing but the
  desired object with its label and its owner, and updates only objects that the wanted
  owner controls, to the desired spec.
\<close>

theorem apply_object_writes:
  "\<exists>new. st_trace (snd (run_state (apply_object env obj) s)) = st_trace s @ new \<and>
     list_all (apply_call obj) new"
  using emits_apply_object [of obj env] by (simp add: emits_def list_all_iff)

text \<open>
  An existing object that the wanted owner does not control is left alone: \<^verbatim>\<open>Apply\<close>
  fails and writes nothing.
\<close>

theorem apply_object_foreign:
  assumes "\<And>t. \<exists>live. env_get env t (od_gvk obj) (od_namespace obj) (od_name obj) = Inr live \<and>
                  \<not> admitted obj live"
  shows "\<exists>e new. run_state (apply_object env obj) s = (Inl e, s\<lparr>st_trace := st_trace s @ new\<rparr>) \<and>
           list_all (\<lambda>c. \<not> is_write c) new"
proof -
  let ?get = "K8sGet (od_gvk obj) (od_namespace obj) (od_name obj)"
  obtain live where live: "env_get env (st_trace s) (od_gvk obj) (od_namespace obj) (od_name obj) = Inr live"
    using assms by blast
  obtain live' where live': "env_get env (st_trace s @ [?get]) (od_gvk obj) (od_namespace obj) (od_name obj) = Inr live'"
    and no: "\<not> admitted obj live'" using assms by blast
  let ?e = "the (require_managed_owner live' (the (od_owner obj)))"
  from no obtain w where w: "od_owner obj = Some w" "\<not> managed_by w live'"
    by (auto simp: admitted_def split: option.splits)
  have "\<not> is_conflict ?e"
  proof -
    have "\<exists>m. managed_owner_error live' w rs = None \<or> managed_owner_error live' w rs = Some (Msg m)" for rs
      by (induction rs) (auto simp: already_controlled_def)
    then obtain m where "require_managed_owner live' w = Some (Msg m)"
      using w(2) require_managed_owner_None [of live' w] unfolding require_managed_owner_def by metis
    with w show ?thesis by simp
  qed
  moreover have "run_state (reconcile_once env obj) (record_call ?get s) =
      (Inl ?e, record_call ?get (record_call ?get s))"
    using live' no by (simp add: reconcile_once_def get_object_def k8s_get_def)
  ultimately have "run_state (reconcile_existing env obj) (record_call ?get s) =
      (Inl ?e, record_call ?get (record_call ?get s))"
    unfolding reconcile_existing_eq by (intro run_retry_no_conflict) auto
  then have "run_state (apply_object env obj) s = (Inl ?e, s\<lparr>st_trace := st_trace s @ [?get, ?get]\<rparr>)"
    using live by (simp add: apply_object_def get_object_def k8s_get_def record_call_def)
  then show ?thesis by force
qed

definition foreign_owner :: owner_reference where
  "foreign_owner = make_owner_reference ''v1'' ''Other'' ((new_meta ''ns'' ''x'')\<lparr>meta_uid := ''u2''\<rparr>)"

definition sample_owner :: owner_reference where
  "sample_owner = make_owner_reference ''neteye.cloud/v1alpha1'' ''NetEye''
     ((new_meta ''ns'' ''ne'')\<lparr>meta_uid := ''u1''\<rparr>)"

definition sample_definition :: object_definition where
  "sample_definition =
     \<lparr>od_gvk = gvk_of ''g'' ''v1'' ''Kind'', od_name = ''a'', od_namespace = ''ns'',
      od_spec = [(''replicas'', JInt 1)], od_owner = Some sample_owner\<rparr>"

definition foreign_object :: k8s_object where
  "foreign_object =
     set_owners [foreign_owner] (new_object (gvk_of ''g'' ''v1'' ''Kind'') ''ns'' ''a'' (Unstructured []))"

definition fixed_env :: "k8s_object \<Rightarrow> env" where
  "fixed_env ob = (cluster_env [])\<lparr>env_get := (\<lambda>t k ns n. Inr ob)\<rparr>"

theorem apply_object_foreign_witness:
  "\<exists>e new. run_state (apply_object (fixed_env foreign_object) sample_definition) initial_state =
     (Inl e, initial_state\<lparr>st_trace := st_trace initial_state @ new\<rparr>) \<and> list_all (\<lambda>c. \<not> is_write c) new"
  by (rule apply_object_foreign)
    (simp add: fixed_env_def admitted_def sample_definition_def managed_by_def controller_of_def
      foreign_object_def foreign_owner_def sample_owner_def set_owners_def owners_of_def
      make_owner_reference_def is_controller_ref_def)

section \<open>Applying twice\<close>

text \<open>
  What the API server promises while nobody else writes the object: reading does not change
  it, and a write that was accepted is what the next read returns.
\<close>

definition read_of :: "env \<Rightarrow> object_definition \<Rightarrow> trace \<Rightarrow> go_err + k8s_object" where
  "read_of env obj t = env_get env t (od_gvk obj) (od_namespace obj) (od_name obj)"

definition own_key :: "object_definition \<Rightarrow> k8s_object \<Rightarrow> bool" where
  "own_key obj = has_key (od_gvk obj) (od_namespace obj) (od_name obj)"

definition kept :: "env \<Rightarrow> object_definition \<Rightarrow> trace \<Rightarrow> k8s_object \<Rightarrow> bool" where
  "kept env obj t ob \<longleftrightarrow>
     (\<exists>live. read_of env obj t = Inr live \<and> owners_of live = owners_of ob \<and> current_spec live = current_spec ob)"

definition server_keeps :: "env \<Rightarrow> object_definition \<Rightarrow> bool" where
  "server_keeps env obj \<longleftrightarrow>
     (\<forall>t live. read_of env obj t = Inr live \<longrightarrow> own_key obj live \<and>
        read_of env obj (t @ [K8sGet (od_gvk obj) (od_namespace obj) (od_name obj)]) = Inr live) \<and>
     (\<forall>t ob. own_key obj ob \<longrightarrow> isl (env_update env t ob) \<or> kept env obj (t @ [K8sUpdate ob]) ob) \<and>
     (\<forall>t ob. own_key obj ob \<longrightarrow> isl (env_create env t ob) \<or> kept env obj (t @ [K8sCreate ob]) ob)"

lemma server_keepsD:
  assumes k: "server_keeps env obj"
  shows "env_get env t (od_gvk obj) (od_namespace obj) (od_name obj) = Inr live \<Longrightarrow>
           has_key (od_gvk obj) (od_namespace obj) (od_name obj) live \<and>
           env_get env (t @ [K8sGet (od_gvk obj) (od_namespace obj) (od_name obj)])
             (od_gvk obj) (od_namespace obj) (od_name obj) = Inr live"
    and "has_key (od_gvk obj) (od_namespace obj) (od_name obj) ob \<Longrightarrow> env_update env t ob = Inr r \<Longrightarrow>
           kept env obj (t @ [K8sUpdate ob]) ob"
    and "has_key (od_gvk obj) (od_namespace obj) (od_name obj) ob \<Longrightarrow> env_create env t ob = Inr r \<Longrightarrow>
           kept env obj (t @ [K8sCreate ob]) ob"
proof -
  note c = k [unfolded server_keeps_def]
  show "env_get env t (od_gvk obj) (od_namespace obj) (od_name obj) = Inr live \<Longrightarrow>
           has_key (od_gvk obj) (od_namespace obj) (od_name obj) live \<and>
           env_get env (t @ [K8sGet (od_gvk obj) (od_namespace obj) (od_name obj)])
             (od_gvk obj) (od_namespace obj) (od_name obj) = Inr live"
    by (rule conjunct1 [OF c, THEN spec [of _ t], THEN spec [of _ live], THEN mp, unfolded read_of_def own_key_def])
  show "has_key (od_gvk obj) (od_namespace obj) (od_name obj) ob \<Longrightarrow> env_update env t ob = Inr r \<Longrightarrow>
           kept env obj (t @ [K8sUpdate ob]) ob"
    using conjunct1 [OF conjunct2 [OF c], THEN spec [of _ t], THEN spec [of _ ob]] by (simp add: own_key_def)
  show "has_key (od_gvk obj) (od_namespace obj) (od_name obj) ob \<Longrightarrow> env_create env t ob = Inr r \<Longrightarrow>
           kept env obj (t @ [K8sCreate ob]) ob"
    using conjunct2 [OF conjunct2 [OF c], THEN spec [of _ t], THEN spec [of _ ob]] by (simp add: own_key_def)
qed

definition settled :: "env \<Rightarrow> object_definition \<Rightarrow> trace \<Rightarrow> bool" where
  "settled env obj t \<longleftrightarrow>
     (\<exists>live. env_get env t (od_gvk obj) (od_namespace obj) (od_name obj) = Inr live \<and>
        admitted obj live \<and> \<not> spec_changed live (od_spec obj))"

lemma settled_same:
  assumes "owners_of live = owners_of ob" and "current_spec live = current_spec ob"
    and "admitted obj ob" and "current_spec ob = Some (od_spec obj)" and "wf_rep (od_spec obj)"
  shows "admitted obj live \<and> \<not> spec_changed live (od_spec obj)"
  using assms deep_equal_rep_refl [of "od_spec obj"]
  by (simp add: admitted_def managed_by_def controller_of_def spec_changed_def
      del: deep_equal.simps split: option.splits)

lemma has_key_set_spec [simp]: "has_key k ns n (set_spec spec ob) = has_key k ns n ob"
  by (simp add: has_key_def)

lemma reconcile_once_settles:
  assumes keeps: "server_keeps env obj" and wf: "wf_rep (od_spec obj)"
    and r: "run_state (reconcile_once env obj) s = (Inr r, s')"
  shows "settled env obj (st_trace s')"
proof -
  let ?read = "K8sGet (od_gvk obj) (od_namespace obj) (od_name obj)"
  let ?get = "\<lambda>t. env_get env t (od_gvk obj) (od_namespace obj) (od_name obj)"
  from r obtain live where live: "?get (st_trace s) = Inr live"
    by (auto simp: reconcile_once_def get_object_def k8s_get_def split: sum.splits)
  with keeps have again: "?get (st_trace s @ [?read]) = Inr live"
    and own: "has_key (od_gvk obj) (od_namespace obj) (od_name obj) live"
    using server_keepsD(1) [OF keeps] by blast+
  from r live have adm: "admitted obj live"
    by (auto simp: reconcile_once_def get_object_def k8s_get_def split: if_splits)
  show ?thesis
  proof (cases "spec_changed live (od_spec obj)")
    case False
    with r live adm have "s' = record_call ?read s"
      by (simp add: reconcile_once_def get_object_def k8s_get_def)
    with again adm False show ?thesis by (auto simp: settled_def)
  next
    case True
    let ?ob = "set_spec (od_spec obj) live"
    from r live adm True obtain x where
      x: "env_update env (st_trace s @ [?read]) ?ob = Inr x"
      and s': "s' = record_call (K8sUpdate ?ob) (record_call ?read s)"
      by (auto simp: reconcile_once_def get_object_def k8s_get_def k8s_update_def split: sum.splits)
    from server_keepsD(2) [OF keeps _ x] own obtain live' where
      "?get ((st_trace s @ [?read]) @ [K8sUpdate ?ob]) = Inr live'"
      "owners_of live' = owners_of ?ob" "current_spec live' = current_spec ?ob"
      by (auto simp: kept_def read_of_def)
    with settled_same [of live' ?ob obj] adm wf s' show ?thesis by (auto simp: settled_def)
  qed
qed

lemma retry_settles:
  assumes "\<And>s r s'. run_state m s = (Inr r, s') \<Longrightarrow> Q (st_trace s')"
  shows "run_state (retry_on_conflict n m) s = (Inr r, s') \<Longrightarrow> Q (st_trace s')"
  by (induction n arbitrary: s)
    (auto intro: assms split: prod.splits sum.splits if_splits)

definition controller_owner :: "object_definition \<Rightarrow> bool" where
  "controller_owner obj \<longleftrightarrow> (case od_owner obj of None \<Rightarrow> True | Some w \<Rightarrow> is_controller_ref w)"

lemma created_object_facts:
  "has_key (od_gvk obj) (od_namespace obj) (od_name obj) (created_object obj)"
  "controller_owner obj \<Longrightarrow> admitted obj (created_object obj)"
  "current_spec (created_object obj) = Some (od_spec obj)"
  by (auto simp: created_object_def desired_object_def has_key_def admitted_def set_owners_def
      current_spec_def fields_of_def nested_map_def Let_def managed_by_def controller_of_def owners_of_def
      controller_owner_def split: option.splits)

lemma create_object_settles:
  assumes keeps: "server_keeps env obj" and wf: "wf_rep (od_spec obj)" and co: "controller_owner obj"
    and r: "run_state (create_object env obj) s = (Inr r, s')"
  shows "settled env obj (st_trace s')"
proof (cases "env_create env (st_trace s) (created_object obj)")
  case (Inl e)
  with r have "run_state (reconcile_existing env obj) (record_call (K8sCreate (created_object obj)) s) = (Inr r, s')"
    by (auto simp: create_object_def owned_object_eq k8s_create_def split: if_splits)
  then show ?thesis unfolding reconcile_existing_eq
    by (rule retry_settles [rotated]) (rule reconcile_once_settles [OF keeps wf])
next
  case (Inr x)
  with r have s': "s' = record_call (K8sCreate (created_object obj)) s"
    by (simp add: create_object_def owned_object_eq k8s_create_def)
  from server_keepsD(3) [OF keeps created_object_facts(1) Inr] obtain live where
    "env_get env (st_trace s') (od_gvk obj) (od_namespace obj) (od_name obj) = Inr live"
    "owners_of live = owners_of (created_object obj)" "current_spec live = current_spec (created_object obj)"
    by (auto simp: s' kept_def read_of_def)
  with settled_same [of live "created_object obj" obj] created_object_facts [of obj] co wf
  show ?thesis by (auto simp: settled_def)
qed

text \<open>
  Applying is convergent: when the API server keeps what it accepts, an application
  that succeeded leaves nothing to do, so that the same application right after it only
  reads and reports no change.
\<close>

theorem apply_object_converges:
  assumes "server_keeps env obj" and "wf_rep (od_spec obj)" and "controller_owner obj"
    and "run_state (apply_object env obj) s = (Inr r, s')"
  shows "\<exists>new. run_state (apply_object env obj) s' = (Inr Unchanged, s'\<lparr>st_trace := st_trace s' @ new\<rparr>) \<and>
           list_all (\<lambda>c. \<not> is_write c) new"
proof -
  let ?read = "K8sGet (od_gvk obj) (od_namespace obj) (od_name obj)"
  have "settled env obj (st_trace s')"
  proof (cases "env_get env (st_trace s) (od_gvk obj) (od_namespace obj) (od_name obj)")
    case (Inl e)
    with assms(4) have "run_state (create_object env obj) (record_call ?read s) = (Inr r, s')"
      by (auto simp: apply_object_def get_object_def k8s_get_def split: if_splits)
    then show ?thesis by (rule create_object_settles [OF assms(1-3)])
  next
    case (Inr live)
    with assms(4) have "run_state (reconcile_existing env obj) (record_call ?read s) = (Inr r, s')"
      by (auto simp: apply_object_def get_object_def k8s_get_def)
    then show ?thesis unfolding reconcile_existing_eq
      by (rule retry_settles [rotated]) (rule reconcile_once_settles [OF assms(1,2)])
  qed
  then obtain live where live:
    "env_get env (st_trace s') (od_gvk obj) (od_namespace obj) (od_name obj) = Inr live"
    "admitted obj live" "\<not> spec_changed live (od_spec obj)" by (auto simp: settled_def)
  then have "env_get env (st_trace s' @ [?read]) (od_gvk obj) (od_namespace obj) (od_name obj) = Inr live"
    using server_keepsD(1) [OF assms(1)] by blast
  with live have "run_state (reconcile_existing env obj) (record_call ?read s') =
      (Inr Unchanged, record_call ?read (record_call ?read s'))"
    unfolding reconcile_existing_eq
    by (intro run_retry_no_conflict) (simp_all add: reconcile_once_def get_object_def k8s_get_def)
  with live(1) have "run_state (apply_object env obj) s' = (Inr Unchanged, s'\<lparr>st_trace := st_trace s' @ [?read, ?read]\<rparr>)"
    by (simp add: apply_object_def get_object_def k8s_get_def record_call_def)
  then show ?thesis by force
qed

lemma memory_keeps: "server_keeps (cluster_env obs) obj"
proof -
  have put: "memory_get obs (t @ [c]) (ob_gvk ob) (meta_namespace (ob_meta ob)) (meta_name (ob_meta ob)) = Inr ob"
    if "c = K8sUpdate ob \<or> c = K8sCreate ob" for t c ob
    using that by (auto simp: memory_get_def put_object_def has_key_def)
  have k: "kept (cluster_env obs) obj (t @ [c]) ob"
    if "own_key obj ob" and "c = K8sUpdate ob \<or> c = K8sCreate ob" for t c ob
    using put [OF that(2), of t] that(1) by (auto simp: kept_def read_of_def own_key_def has_key_def)
  have r: "own_key obj live \<and>
      read_of (cluster_env obs) obj (t @ [K8sGet (od_gvk obj) (od_namespace obj) (od_name obj)]) = Inr live"
    if "read_of (cluster_env obs) obj t = Inr live" for t live
    using that by (auto simp: read_of_def own_key_def memory_get_def dest: memory_get_keeps_key
        split: option.splits) (auto simp: find_Some_iff)
  show ?thesis unfolding server_keeps_def using k r by blast
qed

theorem apply_object_converges_witness:
  "\<exists>s'. run_state (apply_object (cluster_env []) sample_definition) initial_state = (Inr Created, s') \<and>
     (\<exists>new. run_state (apply_object (cluster_env []) sample_definition) s' =
        (Inr Unchanged, s'\<lparr>st_trace := st_trace s' @ new\<rparr>) \<and> list_all (\<lambda>c. \<not> is_write c) new)"
proof -
  have "fst (run_state (apply_object (cluster_env []) sample_definition) initial_state) = Inr Created"
    by (simp add: apply_object_def get_object_def k8s_get_def create_object_def owned_object_eq
        k8s_create_def memory_get_def initial_state_def)
  then obtain s' where s': "run_state (apply_object (cluster_env []) sample_definition) initial_state = (Inr Created, s')"
    by (metis prod.collapse)
  have "controller_owner sample_definition" "wf_rep (od_spec sample_definition)"
    by (simp_all add: controller_owner_def sample_definition_def sample_owner_def make_owner_reference_def
        is_controller_ref_def wf_rep_iff)
  from apply_object_converges [OF memory_keeps this(2,1) s'] s' show ?thesis by blast
qed

section \<open>Refinement of a store\<close>

text \<open>
  The specification of \<^verbatim>\<open>Apply\<close> on the state of a cluster, a map from keys to objects. It is
  stated on the objects alone: what the object of the key holds afterwards, given what it
  held before and what \<^verbatim>\<open>Apply\<close> reported.
\<close>

type_synonym cluster = "gvk \<Rightarrow> string \<Rightarrow> string \<Rightarrow> k8s_object option"

definition put_cluster :: "k8s_object \<Rightarrow> cluster \<Rightarrow> cluster" where
  "put_cluster ob c = (\<lambda>k ns n. if has_key k ns n ob then Some ob else c k ns n)"

definition has_spec :: "representation \<Rightarrow> k8s_object \<Rightarrow> bool" where
  "has_spec spec ob \<longleftrightarrow>
     (\<exists>m. map_of (fields_of ob) ''spec'' = Some (JObj m) \<and> (m = spec \<or> deep_equal (JObj m) (JObj spec)))"

definition freshly_created :: "object_definition \<Rightarrow> k8s_object \<Rightarrow> bool" where
  "freshly_created obj ob \<longleftrightarrow>
     has_key (od_gvk obj) (od_namespace obj) (od_name obj) ob \<and> has_spec (od_spec obj) ob \<and>
     (managed_by_label, managed_by_value) \<in> set (meta_labels (ob_meta ob)) \<and>
     owners_of ob = (case od_owner obj of None \<Rightarrow> [] | Some w \<Rightarrow> [w])"

text \<open>The same object but for its spec: its metadata and every other field are untouched.\<close>

definition same_but_spec :: "k8s_object \<Rightarrow> k8s_object \<Rightarrow> bool" where
  "same_but_spec ob ob' \<longleftrightarrow>
     ob_gvk ob' = ob_gvk ob \<and> ob_meta ob' = ob_meta ob \<and>
     (\<forall>f. f \<noteq> ''spec'' \<longrightarrow> map_of (fields_of ob') f = map_of (fields_of ob) f)"

fun applied :: "object_definition \<Rightarrow> k8s_object option \<Rightarrow> apply_outcome \<Rightarrow> k8s_object \<Rightarrow> bool" where
  "applied obj None r ob' \<longleftrightarrow> r = Created \<and> freshly_created obj ob'"
| "applied obj (Some ob) r ob' \<longleftrightarrow>
     (\<forall>w. od_owner obj = Some w \<longrightarrow> managed_by w ob) \<and> has_spec (od_spec obj) ob' \<and>
     (case r of
        Unchanged \<Rightarrow> ob' = ob
      | Updated \<Rightarrow> same_but_spec ob ob' \<and>
          \<not> (\<exists>m. map_of (fields_of ob) ''spec'' = Some (JObj m) \<and> deep_equal (JObj m) (JObj (od_spec obj)))
      | Created \<Rightarrow> False)"

text \<open>
  An API server backed by a store: it answers from the store, or with an error, and changes
  the store by the writes it accepts and by nothing else. It may refuse any request.
\<close>

definition backed_by :: "env \<Rightarrow> (trace \<Rightarrow> cluster) \<Rightarrow> bool" where
  "backed_by env store \<longleftrightarrow>
     (\<forall>t k ns n ob. store t k ns n = Some ob \<longrightarrow> has_key k ns n ob) \<and>
     (\<forall>t k ns n. (case env_get env t k ns n of
        Inr ob \<Rightarrow> store t k ns n = Some ob
      | Inl e \<Rightarrow> is_not_found e \<longrightarrow> store t k ns n = None)) \<and>
     (\<forall>t c. \<not> is_write c \<longrightarrow> store (t @ [c]) = store t) \<and>
     (\<forall>t ob. store (t @ [K8sUpdate ob]) =
        (if isl (env_update env t ob) then store t else put_cluster ob (store t))) \<and>
     (\<forall>t ob. store (t @ [K8sCreate ob]) =
        (if isl (env_create env t ob) then store t else put_cluster ob (store t)))"

lemma backed_byD:
  assumes "backed_by env store"
  shows "store t k ns n = Some ob \<Longrightarrow> has_key k ns n ob"
    and "env_get env t k ns n = Inr ob \<Longrightarrow> store t k ns n = Some ob"
    and "env_get env t k ns n = Inl e \<Longrightarrow> is_not_found e \<Longrightarrow> store t k ns n = None"
    and "store (t @ [K8sGet k ns n]) = store t"
    and "env_update env t ob = Inl e \<Longrightarrow> store (t @ [K8sUpdate ob]) = store t"
    and "env_update env t ob = Inr x \<Longrightarrow> store (t @ [K8sUpdate ob]) = put_cluster ob (store t)"
    and "env_create env t ob = Inl e \<Longrightarrow> store (t @ [K8sCreate ob]) = store t"
    and "env_create env t ob = Inr x \<Longrightarrow> store (t @ [K8sCreate ob]) = put_cluster ob (store t)"
  using assms by (force simp: backed_by_def split: sum.splits)+

lemma put_cluster_same: "c k ns n = Some ob \<Longrightarrow> has_key k ns n ob \<Longrightarrow> put_cluster ob c = c"
  by (auto simp: put_cluster_def has_key_def intro!: ext)

definition key_entry :: "object_definition \<Rightarrow> cluster \<Rightarrow> k8s_object option" where
  "key_entry obj c = c (od_gvk obj) (od_namespace obj) (od_name obj)"

text \<open>What a run owes the store: an error leaves it alone, a result is an object applied.\<close>

definition serves :: "object_definition \<Rightarrow> cluster \<Rightarrow> go_err + apply_outcome \<Rightarrow> cluster \<Rightarrow> bool" where
  "serves obj c r c' \<longleftrightarrow>
     (case r of
        Inl e \<Rightarrow> c' = c
      | Inr out \<Rightarrow> \<exists>ob'. applied obj (key_entry obj c) out ob' \<and> c' = put_cluster ob' c)"

lemma spec_unchanged:
  "\<not> spec_changed ob spec \<longleftrightarrow>
     (\<exists>m. map_of (fields_of ob) ''spec'' = Some (JObj m) \<and> deep_equal (JObj m) (JObj spec))"
  by (auto simp: spec_changed_def current_spec_def nested_map_def
      simp del: deep_equal.simps split: option.splits json.splits sum.splits)

lemma created_object_fresh: "freshly_created obj (created_object obj)"
  by (auto simp: freshly_created_def has_spec_def created_object_def desired_object_def has_key_def
      set_owners_def fields_of_def Let_def owners_of_def simp del: deep_equal.simps split: option.splits)

lemma set_spec_only: "same_but_spec ob (set_spec spec ob)" "has_spec spec (set_spec spec ob)"
  by (auto simp: same_but_spec_def has_spec_def set_spec_def fields_of_def update_conv'
      simp del: deep_equal.simps)

lemma admitted_owner: "admitted obj ob \<longleftrightarrow> (\<forall>w. od_owner obj = Some w \<longrightarrow> managed_by w ob)"
  by (simp add: admitted_def split: option.split)

lemma reconcile_once_serves:
  assumes b: "backed_by env store" and r: "run_state (reconcile_once env obj) s = (r, s')"
  shows "serves obj (store (st_trace s)) r (store (st_trace s'))"
proof (cases "env_get env (st_trace s) (od_gvk obj) (od_namespace obj) (od_name obj)")
  case (Inl e)
  with r show ?thesis
    by (auto simp: reconcile_once_def get_object_def k8s_get_def serves_def backed_byD(4) [OF b])
next
  case (Inr live)
  let ?t = "st_trace s @ [K8sGet (od_gvk obj) (od_namespace obj) (od_name obj)]"
  have at: "key_entry obj (store (st_trace s)) = Some live" and
    key: "has_key (od_gvk obj) (od_namespace obj) (od_name obj) live"
    using backed_byD(2) [OF b Inr] backed_byD(1) [OF b] by (simp_all add: key_entry_def)
  have same: "put_cluster live (store (st_trace s)) = store (st_trace s)"
    using put_cluster_same at key by (simp add: key_entry_def)
  have kept: "store ?t = store (st_trace s)" by (rule backed_byD(4) [OF b])
  show ?thesis
  proof (cases "admitted obj live \<and> spec_changed live (od_spec obj)")
    case True
    show ?thesis
    proof (cases "env_update env ?t (set_spec (od_spec obj) live)")
      case (Inl e)
      with r True \<open>env_get _ _ _ _ _ = _\<close> show ?thesis
        by (auto simp: reconcile_once_def get_object_def k8s_get_def k8s_update_def serves_def kept
            backed_byD(5) [OF b Inl, simplified])
    next
      case (Inr x)
      have "\<not> (\<exists>m. map_of (fields_of live) ''spec'' = Some (JObj m) \<and> deep_equal (JObj m) (JObj (od_spec obj)))"
        using True spec_unchanged by blast
      with True have "applied obj (Some live) Updated (set_spec (od_spec obj) live)"
        by (simp add: admitted_owner set_spec_only del: deep_equal.simps)
      with r True at \<open>env_get _ _ _ _ _ = _\<close> Inr show ?thesis
        by (auto simp: reconcile_once_def get_object_def k8s_get_def k8s_update_def serves_def kept
            backed_byD(6) [OF b Inr, simplified] simp del: applied.simps)
    qed
  next
    case False
    show ?thesis
    proof (cases "admitted obj live")
      case True
      with False spec_unchanged have "applied obj (Some live) Unchanged live"
        by (auto simp: admitted_owner has_spec_def simp del: deep_equal.simps)
      with True False r at same Inr show ?thesis
        by (auto simp: reconcile_once_def get_object_def k8s_get_def serves_def kept [simplified]
            simp del: applied.simps intro!: exI [of _ live])
    next
      case no: False
      with r Inr show ?thesis
        by (auto simp: reconcile_once_def get_object_def k8s_get_def serves_def kept [simplified])
    qed
  qed
qed

lemma retry_serves:
  assumes once: "\<And>s r s'. run_state m s = (r, s') \<Longrightarrow> serves obj (store (st_trace s)) r (store (st_trace s'))"
  shows "run_state (retry_on_conflict n m) s = (r, s') \<Longrightarrow> serves obj (store (st_trace s)) r (store (st_trace s'))"
proof (induction n arbitrary: s)
  case 0
  then show ?case using once by simp
next
  case (Suc n)
  obtain r1 s1 where m: "run_state m s = (r1, s1)" by (cases "run_state m s")
  show ?case
  proof (cases "\<exists>e. r1 = Inl e \<and> is_conflict e")
    case True
    then have "store (st_trace s1) = store (st_trace s)" using once [OF m] by (auto simp: serves_def)
    moreover have "run_state (retry_on_conflict n m) s1 = (r, s')" using True m Suc.prems by auto
    ultimately show ?thesis using Suc.IH by metis
  next
    case False
    then have "(r, s') = (r1, s1)" using m Suc.prems by (auto split: sum.splits)
    then show ?thesis using once [OF m] by simp
  qed
qed

lemma reconcile_existing_serves:
  "backed_by env store \<Longrightarrow> run_state (reconcile_existing env obj) s = (r, s') \<Longrightarrow>
     serves obj (store (st_trace s)) r (store (st_trace s'))"
  unfolding reconcile_existing_eq by (erule retry_serves [rotated]) (rule reconcile_once_serves)

lemma create_object_serves:
  assumes b: "backed_by env store" and none: "key_entry obj (store (st_trace s)) = None"
    and r: "run_state (create_object env obj) s = (r, s')"
  shows "serves obj (store (st_trace s)) r (store (st_trace s'))"
proof (cases "env_create env (st_trace s) (created_object obj)")
  case (Inl e)
  have same: "store (st_trace s @ [K8sCreate (created_object obj)]) = store (st_trace s)"
    by (rule backed_byD(7) [OF b Inl])
  show ?thesis
  proof (cases "is_already_exists e")
    case True
    with Inl r have "run_state (reconcile_existing env obj) (record_call (K8sCreate (created_object obj)) s) = (r, s')"
      by (simp add: create_object_def owned_object_eq k8s_create_def)
    from reconcile_existing_serves [OF b this] same show ?thesis by simp
  next
    case False
    with Inl r same show ?thesis
      by (auto simp: create_object_def owned_object_eq k8s_create_def serves_def)
  qed
next
  case (Inr x)
  with r none backed_byD(8) [OF b Inr] created_object_fresh [of obj] show ?thesis
    by (auto simp: create_object_def owned_object_eq k8s_create_def serves_def)
qed

text \<open>
  C29. On any API server backed by a store, which may refuse every request, \<^verbatim>\<open>Apply\<close> refines
  the specification over the cluster. An error leaves the cluster as it was. A result means
  that the object of the key holds the wanted spec: a missing object was created with the
  wanted spec, label and owner; an existing one is controlled by the wanted owner and either
  held that spec and was not touched (\<^verbatim>\<open>Unchanged\<close>), or had drifted and now differs in its spec
  only (\<^verbatim>\<open>Updated\<close>). Every other object of the cluster is what it was.
\<close>

theorem apply_object_refines:
  assumes "backed_by env store" and "run_state (apply_object env obj) s = (r, s')"
  shows "case r of
      Inl e \<Rightarrow> store (st_trace s') = store (st_trace s)
    | Inr out \<Rightarrow> \<exists>ob'.
        applied obj (store (st_trace s) (od_gvk obj) (od_namespace obj) (od_name obj)) out ob' \<and>
        store (st_trace s') = put_cluster ob' (store (st_trace s))"
proof -
  let ?read = "K8sGet (od_gvk obj) (od_namespace obj) (od_name obj)"
  have same: "store (st_trace s @ [?read]) = store (st_trace s)" by (rule backed_byD(4) [OF assms(1)])
  have "serves obj (store (st_trace s)) r (store (st_trace s'))"
  proof (cases "env_get env (st_trace s) (od_gvk obj) (od_namespace obj) (od_name obj)")
    case (Inl e)
    show ?thesis
    proof (cases "is_not_found e")
      case True
      with Inl assms(2) have "run_state (create_object env obj) (record_call ?read s) = (r, s')"
        by (simp add: apply_object_def get_object_def k8s_get_def)
      moreover have "key_entry obj (store (st_trace (record_call ?read s))) = None"
        using backed_byD(3) [OF assms(1) Inl True] same by (simp add: key_entry_def)
      ultimately have "serves obj (store (st_trace (record_call ?read s))) r (store (st_trace s'))"
        using create_object_serves [OF assms(1)] by blast
      then show ?thesis using same by simp
    next
      case False
      with Inl assms(2) same show ?thesis
        by (auto simp: apply_object_def get_object_def k8s_get_def serves_def)
    qed
  next
    case (Inr live)
    with assms(2) have "run_state (reconcile_existing env obj) (record_call ?read s) = (r, s')"
      by (simp add: apply_object_def get_object_def k8s_get_def)
    from reconcile_existing_serves [OF assms(1) this] same show ?thesis by simp
  qed
  then show ?thesis by (simp add: serves_def key_entry_def split: sum.splits)
qed

text \<open>The cluster that accepts every write, and one that refuses them all with a conflict.\<close>

definition cluster_after :: "k8s_object list \<Rightarrow> trace \<Rightarrow> cluster" where
  "cluster_after obs t = (\<lambda>k ns n. find (has_key k ns n) (stored obs t))"

definition refusing_env :: "k8s_object list \<Rightarrow> env" where
  "refusing_env obs = (cluster_env obs)\<lparr>env_get := \<lambda>t. memory_get obs [],
     env_update := \<lambda>t ob. Inl (K8sErr Conflict ''modified''),
     env_create := \<lambda>t ob. Inl (K8sErr AlreadyExists ''exists'')\<rparr>"

lemma cluster_get:
  "case memory_get obs t k ns n of
     Inr ob \<Rightarrow> cluster_after obs t k ns n = Some ob
   | Inl e \<Rightarrow> is_not_found e \<longrightarrow> cluster_after obs t k ns n = None"
  by (simp add: memory_get_def cluster_after_def split: option.split)

lemma cluster_put: "c = K8sCreate ob \<or> c = K8sUpdate ob \<Longrightarrow>
   cluster_after obs (t @ [c]) = put_cluster ob (cluster_after obs t)"
proof (intro ext)
  fix k ns n
  assume c: "c = K8sCreate ob \<or> c = K8sUpdate ob"
  have "find (has_key k ns n) (filter (\<lambda>x. \<not> has_key k' ns' n' x) xs) = find (has_key k ns n) xs"
    if "\<not> (k = k' \<and> ns = ns' \<and> n = n')" for xs k' ns' n'
    using that by (induction xs) (auto simp: has_key_def)
  with c show "cluster_after obs (t @ [c]) k ns n = put_cluster ob (cluster_after obs t) k ns n"
    by (auto simp: cluster_after_def put_object_def put_cluster_def has_key_def)
qed

lemma cluster_read: "\<not> is_write c \<Longrightarrow> cluster_after obs (t @ [c]) = cluster_after obs t"
  by (cases c) (simp_all add: cluster_after_def)

lemma cluster_backed: "backed_by (cluster_env obs) (cluster_after obs)"
  by (auto simp: backed_by_def cluster_get cluster_put cluster_read)
    (auto simp: cluster_after_def find_Some_iff)

lemma refusing_backed: "backed_by (refusing_env obs) (\<lambda>t. cluster_after obs [])"
  by (auto simp: backed_by_def refusing_env_def cluster_get) (auto simp: cluster_after_def find_Some_iff)

theorem apply_object_refines_witness:
  "(\<exists>ob'. applied sample_definition None Created ob' \<and>
      cluster_after [] (st_trace (snd (run_state (apply_object (cluster_env []) sample_definition) initial_state)))
        = put_cluster ob' (cluster_after [] [])) \<and>
   (case fst (run_state (apply_object (refusing_env [foreign_object]) sample_definition) initial_state) of
      Inl e \<Rightarrow> True | Inr out \<Rightarrow> False)"
proof
  let ?run = "run_state (apply_object (cluster_env []) sample_definition) initial_state"
  have "fst ?run = Inr Created"
    by (simp add: apply_object_def get_object_def k8s_get_def create_object_def owned_object_eq
        k8s_create_def memory_get_def initial_state_def)
  then have run: "?run = (Inr Created, snd ?run)" by (metis prod.collapse)
  have "cluster_after [] (st_trace initial_state) k ns n = None" for k ns n
    by (simp add: cluster_after_def initial_state_def)
  with apply_object_refines [OF cluster_backed run]
  show "\<exists>ob'. applied sample_definition None Created ob' \<and>
      cluster_after [] (st_trace (snd ?run)) = put_cluster ob' (cluster_after [] [])"
    by (simp add: initial_state_def del: applied.simps)
next
  let ?run = "run_state (apply_object (refusing_env [foreign_object]) sample_definition) initial_state"
  show "case fst ?run of Inl e \<Rightarrow> True | Inr out \<Rightarrow> False"
  proof (cases "fst ?run")
    case (Inr out)
    then have run: "?run = (Inr out, snd ?run)" by (metis prod.collapse)
    have "\<not> managed_by sample_owner foreign_object" and
      "cluster_after [foreign_object] [] (od_gvk sample_definition) (od_namespace sample_definition)
         (od_name sample_definition) = Some foreign_object"
      by (simp_all add: managed_by_def controller_of_def foreign_object_def foreign_owner_def sample_owner_def
          set_owners_def owners_of_def make_owner_reference_def is_controller_ref_def cluster_after_def
          has_key_def sample_definition_def new_object_def)
    with apply_object_refines [OF refusing_backed run] show ?thesis
      by (simp add: sample_definition_def)
  qed simp
qed

end
