(* ===== verification/Cluster_Resources.thy ===== *)
theory Cluster_Resources
  imports Resource_Apply
begin

text \<open>
  The Kubernetes resources the operator declares through \<^verbatim>\<open>internal/resources\<close>: ConfigMaps,
  Deployments and Services (\<^verbatim>\<open>core.go\<close>), the readiness tests (\<^verbatim>\<open>conditions.go\<close>,
  \<^verbatim>\<open>deployment.go\<close>), Issuers and Certificates, the Gateway with its listeners, the HTTP and
  gRPC routes, and the default-deny network policy. A map literal of the source is the
  list of its entries in the order they are written.

  The lemmas state when each readiness test is positive, and that the typed helpers, like
  \<^verbatim>\<open>Apply\<close>, write nothing they do not own.
\<close>

section \<open>Typed helpers\<close>

text \<open>Both messages of a missing owner carry the object, so the error is that of \<^verbatim>\<open>Apply\<close>.\<close>

definition set_controller_owner_reference ::
    "k8s_object \<Rightarrow> owner_reference \<Rightarrow> go_err + (bool \<times> k8s_object)" where
  "set_controller_owner_reference ob owner = check_owner ob (Some owner)"

definition config_map_gvk :: gvk where "config_map_gvk = gvk_of [] ''v1'' ''ConfigMap''"
definition secret_gvk :: gvk where "secret_gvk = gvk_of [] ''v1'' ''Secret''"
definition service_gvk :: gvk where "service_gvk = gvk_of [] ''v1'' ''Service''"
definition deployment_gvk :: gvk where "deployment_gvk = gvk_of ''apps'' ''v1'' ''Deployment''"

text \<open>\<^verbatim>\<open>reflect.DeepEqual\<close> on two \<^verbatim>\<open>map[string]string\<close>, the second one not nil.\<close>

definition same_data :: "(string \<times> string) list option \<Rightarrow> (string \<times> string) list \<Rightarrow> bool" where
  "same_data live data =
     (case live of None \<Rightarrow> False | Some m \<Rightarrow> deep_equal (JObj (string_map m)) (JObj (string_map data)))"

definition config_map_data :: "k8s_object \<Rightarrow> (string \<times> string) list option" where
  "config_map_data ob = (case ob_content ob of ConfigMapData d \<Rightarrow> d | _ \<Rightarrow> None)"

definition ensure_config_map ::
    "env \<Rightarrow> string \<Rightarrow> string \<Rightarrow> (string \<times> string) list \<Rightarrow> owner_reference \<Rightarrow> unit fallible" where
  "ensure_config_map env ns name data owner =
     attempt (k8s_get env config_map_gvk ns name)
       (\<lambda>e. if is_not_found e
            then try_ok (k8s_create env (set_owners [owner] (new_object config_map_gvk ns name (ConfigMapData (Some data)))))
                   (\<lambda>_. ok ())
            else fail e)
       (\<lambda>live. try_ok (lift_result (set_controller_owner_reference live owner)) (\<lambda>(owner_changed, live').
          if same_data (config_map_data live) data \<and> \<not> owner_changed then ok ()
          else try_ok (k8s_update env (live'\<lparr>ob_content := ConfigMapData (Some data)\<rparr>)) (\<lambda>_. ok ())))"

definition deployment_spec :: "k8s_object \<Rightarrow> representation" where
  "deployment_spec ob = (case ob_content ob of DeploymentContent spec st \<Rightarrow> spec | _ \<Rightarrow> [])"

definition deployment_status_of :: "k8s_object \<Rightarrow> deployment_status" where
  "deployment_status_of ob =
     (case ob_content ob of
        DeploymentContent spec st \<Rightarrow> st
      | _ \<Rightarrow> \<lparr>ds_observed_generation = 0, ds_ready_replicas = 0, ds_updated_replicas = 0\<rparr>)"

definition ensure_deployment :: "env \<Rightarrow> k8s_object \<Rightarrow> owner_reference \<Rightarrow> unit fallible" where
  "ensure_deployment env desired owner =
     attempt (k8s_get env deployment_gvk (meta_namespace (ob_meta desired)) (meta_name (ob_meta desired)))
       (\<lambda>e. if is_not_found e
            then try_ok (k8s_create env (set_owners [owner] desired)) (\<lambda>_. ok ())
            else fail e)
       (\<lambda>live. try_ok (lift_result (set_controller_owner_reference live owner)) (\<lambda>(owner_changed, live').
          if deep_equal (JObj (deployment_spec live)) (JObj (deployment_spec desired)) \<and> \<not> owner_changed
          then ok ()
          else try_ok (k8s_update env
                 (live'\<lparr>ob_content := DeploymentContent (deployment_spec desired) (deployment_status_of live)\<rparr>))
                 (\<lambda>_. ok ())))"

text \<open>The allocated fields of a Service are taken over from the live object before comparing.\<close>

definition service_spec :: "k8s_object \<Rightarrow> representation" where
  "service_spec ob = (case ob_content ob of ServiceContent spec \<Rightarrow> spec | _ \<Rightarrow> [])"

definition take_over :: "representation \<Rightarrow> string \<Rightarrow> representation \<Rightarrow> representation" where
  "take_over live key desired =
     (case map_of live key of None \<Rightarrow> map_delete key desired | Some v \<Rightarrow> AList.update key v desired)"

definition with_allocated_fields :: "representation \<Rightarrow> representation \<Rightarrow> representation" where
  "with_allocated_fields live desired =
     fold (take_over live) [''clusterIP'', ''clusterIPs'', ''ipFamilies'', ''ipFamilyPolicy''] desired"

definition ensure_service :: "env \<Rightarrow> k8s_object \<Rightarrow> owner_reference \<Rightarrow> unit fallible" where
  "ensure_service env desired owner =
     attempt (k8s_get env service_gvk (meta_namespace (ob_meta desired)) (meta_name (ob_meta desired)))
       (\<lambda>e. if is_not_found e
            then try_ok (k8s_create env (set_owners [owner] desired)) (\<lambda>_. ok ())
            else fail e)
       (\<lambda>live.
          let spec = with_allocated_fields (service_spec live) (service_spec desired) in
          try_ok (lift_result (set_controller_owner_reference live owner)) (\<lambda>(owner_changed, live').
          if deep_equal (JObj (service_spec live)) (JObj spec) \<and> \<not> owner_changed then ok ()
          else try_ok (k8s_update env (live'\<lparr>ob_content := ServiceContent spec\<rparr>)) (\<lambda>_. ok ())))"

text \<open>What the typed helpers may write: owned objects of one key, or a fresh owned one.\<close>

definition owned_write :: "gvk \<Rightarrow> owner_reference \<Rightarrow> call \<Rightarrow> bool" where
  "owned_write k owner c =
     (case c of
        K8sGet k' ns n \<Rightarrow> k' = k
      | K8sCreate ob \<Rightarrow> owners_of ob = [owner]
      | K8sUpdate ob \<Rightarrow> managed_by owner ob
      | _ \<Rightarrow> False)"

lemma owned_write_simps [simp]:
  "owned_write k owner (K8sGet k' ns n) \<longleftrightarrow> k' = k"
  "owned_write k owner (K8sCreate ob) \<longleftrightarrow> owners_of ob = [owner]"
  "owned_write k owner (K8sUpdate ob) \<longleftrightarrow> managed_by owner ob"
  by (simp_all add: owned_write_def)

lemma owners_set_owners [simp]: "owners_of (set_owners rs ob) = rs"
  by (simp add: owners_of_def set_owners_def)

lemma managed_by_content [simp]: "managed_by owner (ob\<lparr>ob_content := c\<rparr>) = managed_by owner ob"
  by (simp add: managed_by_def controller_of_def owners_of_def)

lemma set_controller_owner_reference_eq:
  "set_controller_owner_reference ob owner =
     (if managed_by owner ob then Inr (False, ob) else Inl (the (require_managed_owner ob owner)))"
  by (simp add: set_controller_owner_reference_def check_owner_cases)

lemma emits_ensure_config_map: "emits (owned_write config_map_gvk owner) (ensure_config_map env ns name data owner)"
  unfolding ensure_config_map_def k8s_get_def k8s_create_def k8s_update_def set_controller_owner_reference_eq
    try_ok_return Let_def
  by (intro emits_intros) (auto split: if_splits)

lemma emits_ensure_deployment: "emits (owned_write deployment_gvk owner) (ensure_deployment env desired owner)"
  unfolding ensure_deployment_def k8s_get_def k8s_create_def k8s_update_def set_controller_owner_reference_eq
    try_ok_return Let_def
  by (intro emits_intros) (auto split: if_splits)

lemma emits_ensure_service: "emits (owned_write service_gvk owner) (ensure_service env desired owner)"
  unfolding ensure_service_def k8s_get_def k8s_create_def k8s_update_def set_controller_owner_reference_eq
    try_ok_return Let_def
  by (intro emits_intros) (auto split: if_splits)

section \<open>Readiness\<close>

fun scan_ready_condition :: "json list \<Rightarrow> string \<Rightarrow> bool \<times> string" where
  "scan_ready_condition [] subject = (False, ''waiting for '' @ subject @ '' Ready condition'')"
| "scan_ready_condition (raw # rest) subject =
     (case raw of
        JObj condition \<Rightarrow>
          if nested_string condition ''type'' \<noteq> ''Ready'' then scan_ready_condition rest subject
          else if nested_string condition ''status'' = ''True'' then (True, [])
          else
            (let message = nested_string condition ''message'';
                 message = (if message = [] then nested_string condition ''reason'' else message)
             in (False, if message = [] then ''waiting for '' @ subject @ '' Ready condition'' else message))
      | _ \<Rightarrow> scan_ready_condition rest subject)"

definition ready_condition_message :: "representation \<Rightarrow> string \<Rightarrow> go_err + (bool \<times> string)" where
  "ready_condition_message obj subject =
     (case nested_slice obj [''status'', ''conditions''] of
        Inl e \<Rightarrow> Inl e
      | Inr None \<Rightarrow> Inr (False, ''waiting for '' @ subject @ '' status conditions'')
      | Inr (Some conditions) \<Rightarrow>
          if conditions = [] then Inr (False, ''waiting for '' @ subject @ '' status conditions'')
          else Inr (scan_ready_condition conditions subject))"

text \<open>The first condition of type Ready decides.\<close>

definition is_ready_condition :: "json \<Rightarrow> bool" where
  "is_ready_condition raw = (case raw of JObj c \<Rightarrow> string_value c ''type'' = ''Ready'' | _ \<Rightarrow> False)"

definition condition_true :: "json \<Rightarrow> bool" where
  "condition_true raw = (case raw of JObj c \<Rightarrow> string_value c ''status'' = ''True'' | _ \<Rightarrow> False)"

lemma scan_ready_condition_iff:
  "fst (scan_ready_condition conditions subject) \<longleftrightarrow>
     (\<exists>c. find is_ready_condition conditions = Some c \<and> condition_true c)"
  by (induction conditions)
    (auto simp: is_ready_condition_def condition_true_def nested_string_def Let_def split: json.splits)

definition ready_now :: "representation \<Rightarrow> bool" where
  "ready_now obj \<longleftrightarrow>
     (\<exists>conditions c. nested_slice obj [''status'', ''conditions''] = Inr (Some conditions) \<and>
        find is_ready_condition conditions = Some c \<and> condition_true c)"

lemma ready_condition_message_iff:
  "(\<exists>m. ready_condition_message obj subject = Inr (True, m)) \<longleftrightarrow> ready_now obj"
proof (cases "nested_slice obj [''status'', ''conditions'']")
  case (Inr r)
  then show ?thesis
    by (cases r) (auto simp: ready_condition_message_def ready_now_def scan_ready_condition_iff
        prod_eq_iff)
qed (auto simp: ready_condition_message_def ready_now_def)

text \<open>An unset replica count means one.\<close>

definition desired_replicas :: "k8s_object \<Rightarrow> int" where
  "desired_replicas ob = (case map_of (deployment_spec ob) ''replicas'' of Some (JInt n) \<Rightarrow> n | _ \<Rightarrow> 1)"

definition deployment_behind :: "k8s_object \<Rightarrow> bool" where
  "deployment_behind ob \<longleftrightarrow>
     (let st = deployment_status_of ob in
      ds_observed_generation st < meta_generation (ob_meta ob) \<or>
      ds_ready_replicas st < desired_replicas ob \<or> ds_updated_replicas st < desired_replicas ob)"

definition progress_text :: "string \<Rightarrow> k8s_object \<Rightarrow> string" where
  "progress_text name ob =
     (let st = deployment_status_of ob; d = format_int (desired_replicas ob) in
      ''Deployment '' @ quoted name @ '' is progressing: observed generation '' @
      format_int (ds_observed_generation st) @ ''/'' @ format_int (meta_generation (ob_meta ob)) @
      '', ready replicas '' @ format_int (ds_ready_replicas st) @ ''/'' @ d @
      '', updated replicas '' @ format_int (ds_updated_replicas st) @ ''/'' @ d)"

definition is_deployment_ready :: "env \<Rightarrow> string \<Rightarrow> string \<Rightarrow> (bool \<times> string) fallible" where
  "is_deployment_ready env ns name =
     attempt (k8s_get env deployment_gvk ns name)
       (\<lambda>e. if is_not_found e then ok (False, ''Deployment '' @ quoted name @ '' is not created'') else fail e)
       (\<lambda>ob. if deployment_behind ob then ok (False, progress_text name ob) else ok (True, []))"

section \<open>Issuers and certificates\<close>

definition cert_manager_group :: string where "cert_manager_group = ''cert-manager.io''"
definition issuer_kind :: string where "issuer_kind = ''Issuer''"
definition issuer_gvk :: gvk where "issuer_gvk = gvk_of cert_manager_group ''v1'' issuer_kind"
definition certificate_gvk :: gvk where "certificate_gvk = gvk_of ''cert-manager.io'' ''v1'' ''Certificate''"

definition validate_issuer_ref :: "string \<Rightarrow> go_err option" where
  "validate_issuer_ref issuer =
     (if issuer = [] then Some (Msg ''certificate issuer ref name is required'') else None)"

definition ensure_issuer_exists :: "env \<Rightarrow> string \<Rightarrow> string \<Rightarrow> unit fallible" where
  "ensure_issuer_exists env ns issuer =
     try_ok (lift_error (validate_issuer_ref issuer)) (\<lambda>_.
     try_ok (k8s_get env issuer_gvk ns issuer) (\<lambda>_. ok ()))"

definition certificate_spec :: "string \<Rightarrow> string \<Rightarrow> string list \<Rightarrow> string \<Rightarrow> representation" where
  "certificate_spec secret_name common_name dns_names issuer =
     [(''secretName'', JStr secret_name),
      (''dnsNames'', JArr (any_slice dns_names)),
      (''commonName'', JStr common_name),
      (''privateKey'', JObj [(''algorithm'', JStr ''RSA''), (''size'', JInt 2048), (''rotationPolicy'', JStr ''Always'')]),
      (''issuerRef'', JObj [(''name'', JStr issuer), (''kind'', JStr issuer_kind), (''group'', JStr cert_manager_group)])]"

text \<open>The outcome of an application is only logged.\<close>

definition apply_only :: "env \<Rightarrow> object_definition \<Rightarrow> unit fallible" where
  "apply_only env obj = try_ok (apply_object env obj) (\<lambda>_. ok ())"

definition ensure_certificate ::
    "env \<Rightarrow> string \<Rightarrow> string \<Rightarrow> string \<Rightarrow> string \<Rightarrow> string list \<Rightarrow> string \<Rightarrow> owner_reference option \<Rightarrow> unit fallible" where
  "ensure_certificate env ns name secret_name common_name dns_names issuer owner =
     try_ok (lift_error (validate_issuer_ref issuer)) (\<lambda>_.
     apply_only env \<lparr>od_gvk = certificate_gvk, od_name = name, od_namespace = ns,
       od_spec = certificate_spec secret_name common_name dns_names issuer, od_owner = owner\<rparr>)"

definition is_certificate_ready :: "env \<Rightarrow> string \<Rightarrow> string \<Rightarrow> (bool \<times> string) fallible" where
  "is_certificate_ready env ns name =
     attempt (k8s_get env certificate_gvk ns name)
       (\<lambda>e. if is_not_found e then ok (False, ''waiting for TLS Certificate to be created'') else fail e)
       (\<lambda>ob. lift_result (ready_condition_message (fields_of ob) ''TLS Certificate''))"

section \<open>Gateway and routes\<close>

definition gateway_api_group :: string where "gateway_api_group = ''gateway.networking.k8s.io''"
definition redirect_route_name :: string where "redirect_route_name = ''redirect-http-to-https''"
definition http_listener_name :: string where "http_listener_name = ''http''"
definition route_kind_http :: string where "route_kind_http = ''HTTPRoute''"
definition route_kind_grpc :: string where "route_kind_grpc = ''GRPCRoute''"
definition gateway_gvk :: gvk where "gateway_gvk = gvk_of gateway_api_group ''v1'' ''Gateway''"
definition http_route_gvk :: gvk where "http_route_gvk = gvk_of gateway_api_group ''v1'' ''HTTPRoute''"
definition grpc_route_gvk :: gvk where "grpc_route_gvk = gvk_of gateway_api_group ''v1'' ''GRPCRoute''"

record gateway_listener =
  gl_name :: string
  gl_hostname :: string
  gl_tls_secret :: string
  gl_route_kind :: string

definition route_kinds :: "string list \<Rightarrow> json list" where
  "route_kinds kinds = map (\<lambda>k. JObj [(''group'', JStr gateway_api_group), (''kind'', JStr k)]) kinds"

definition allowed_routes :: "string \<Rightarrow> json" where
  "allowed_routes kind =
     JObj [(''namespaces'', JObj [(''from'', JStr ''Same'')]), (''kinds'', JArr (route_kinds [kind]))]"

definition http_listener :: json where
  "http_listener =
     JObj [(''name'', JStr http_listener_name), (''protocol'', JStr ''HTTP''), (''port'', JInt 80),
           (''allowedRoutes'', allowed_routes route_kind_http)]"

definition https_listener :: "gateway_listener \<Rightarrow> json" where
  "https_listener l =
     JObj [(''name'', JStr (gl_name l)), (''protocol'', JStr ''HTTPS''), (''port'', JInt 443),
           (''hostname'', JStr (gl_hostname l)),
           (''allowedRoutes'', allowed_routes (gl_route_kind l)),
           (''tls'', JObj [(''mode'', JStr ''Terminate''),
              (''certificateRefs'', JArr [JObj [(''kind'', JStr ''Secret''), (''group'', JStr []),
                                            (''name'', JStr (gl_tls_secret l))]])])]"

definition gateway_spec_of ::
    "string \<Rightarrow> (string \<times> string) list \<Rightarrow> gateway_listener list \<Rightarrow> representation" where
  "gateway_spec_of class_name annotations listeners =
     [(''gatewayClassName'', JStr class_name),
      (''listeners'', JArr (http_listener # map https_listener listeners))] @
     (if annotations \<noteq> []
      then [(''infrastructure'', JObj [(''annotations'', JObj (string_map annotations))])] else [])"

definition ensure_gateway ::
    "env \<Rightarrow> string \<Rightarrow> string \<Rightarrow> string \<Rightarrow> (string \<times> string) list \<Rightarrow> gateway_listener list \<Rightarrow>
     owner_reference \<Rightarrow> unit fallible" where
  "ensure_gateway env ns name class_name annotations listeners owner =
     apply_only env \<lparr>od_gvk = gateway_gvk, od_name = name, od_namespace = ns,
       od_spec = gateway_spec_of class_name annotations listeners, od_owner = Some owner\<rparr>"

definition ensure_http_route_spec ::
    "env \<Rightarrow> string \<Rightarrow> string \<Rightarrow> representation \<Rightarrow> owner_reference option \<Rightarrow> unit fallible" where
  "ensure_http_route_spec env ns name spec owner =
     apply_only env \<lparr>od_gvk = http_route_gvk, od_name = name, od_namespace = ns,
       od_spec = spec, od_owner = owner\<rparr>"

definition redirect_route_spec :: "string \<Rightarrow> representation" where
  "redirect_route_spec gateway_name =
     [(''parentRefs'', JArr [JObj [(''name'', JStr gateway_name), (''sectionName'', JStr http_listener_name)]]),
      (''rules'', JArr [JObj [(''filters'', JArr [JObj [
         (''type'', JStr ''RequestRedirect''),
         (''requestRedirect'', JObj [(''scheme'', JStr ''https''), (''statusCode'', JInt 301)])]])]])]"

definition ensure_redirect_route :: "env \<Rightarrow> string \<Rightarrow> string \<Rightarrow> owner_reference \<Rightarrow> unit fallible" where
  "ensure_redirect_route env ns gateway_name owner =
     ensure_http_route_spec env ns redirect_route_name (redirect_route_spec gateway_name) (Some owner)"

definition parent_ref :: "string \<Rightarrow> string \<Rightarrow> string \<Rightarrow> json" where
  "parent_ref gateway_ns gateway section_name =
     JObj [(''group'', JStr gateway_api_group), (''kind'', JStr ''Gateway''), (''namespace'', JStr gateway_ns),
           (''name'', JStr gateway), (''sectionName'', JStr section_name)]"

definition http_route_spec :: "string \<Rightarrow> string \<Rightarrow> string \<Rightarrow> string list \<Rightarrow> string \<Rightarrow> int \<Rightarrow> representation" where
  "http_route_spec gateway_ns gateway section_name hostnames service port =
     [(''parentRefs'', JArr [parent_ref gateway_ns gateway section_name]),
      (''hostnames'', JArr (any_slice hostnames)),
      (''rules'', JArr [JObj [(''backendRefs'', JArr [JObj [(''group'', JStr []), (''kind'', JStr ''Service''),
          (''name'', JStr service), (''port'', JInt port)]])]])]"

definition ensure_http_route ::
    "env \<Rightarrow> string \<Rightarrow> string \<Rightarrow> string \<Rightarrow> string \<Rightarrow> string \<Rightarrow> string list \<Rightarrow> string \<Rightarrow> int \<Rightarrow>
     owner_reference option \<Rightarrow> unit fallible" where
  "ensure_http_route env ns name gateway_ns gateway section_name hostnames service port owner =
     ensure_http_route_spec env ns name (http_route_spec gateway_ns gateway section_name hostnames service port) owner"

definition grpc_route_spec :: "string \<Rightarrow> string \<Rightarrow> string \<Rightarrow> string \<Rightarrow> string \<Rightarrow> int \<Rightarrow> representation" where
  "grpc_route_spec gateway_ns gateway section_name hostname service port =
     [(''parentRefs'', JArr [parent_ref gateway_ns gateway section_name]),
      (''hostnames'', JArr [JStr hostname]),
      (''rules'', JArr [JObj [(''backendRefs'', JArr [JObj [(''name'', JStr service), (''port'', JInt port),
          (''weight'', JInt 100)]])]])]"

definition ensure_grpc_route ::
    "env \<Rightarrow> string \<Rightarrow> string \<Rightarrow> string \<Rightarrow> string \<Rightarrow> string \<Rightarrow> string \<Rightarrow> string \<Rightarrow> int \<Rightarrow>
     owner_reference option \<Rightarrow> unit fallible" where
  "ensure_grpc_route env ns name gateway_ns gateway section_name hostname service port owner =
     apply_only env \<lparr>od_gvk = grpc_route_gvk, od_name = name, od_namespace = ns,
       od_spec = grpc_route_spec gateway_ns gateway section_name hostname service port, od_owner = owner\<rparr>"

section \<open>Network policy\<close>

definition default_deny_policy_name :: string where "default_deny_policy_name = ''neteye-default-deny''"
definition native_network_policy_gvk :: gvk where
  "native_network_policy_gvk = gvk_of ''networking.k8s.io'' ''v1'' ''NetworkPolicy''"
definition cilium_network_policy_gvk :: gvk where
  "cilium_network_policy_gvk = gvk_of ''cilium.io'' ''v2'' ''CiliumNetworkPolicy''"

definition delete_legacy_default_deny :: "env \<Rightarrow> string \<Rightarrow> unit fallible" where
  "delete_legacy_default_deny env ns =
     attempt (k8s_get env native_network_policy_gvk ns default_deny_policy_name)
       (\<lambda>e. if is_not_found e then ok () else fail e)
       (\<lambda>_. ignore_not_found (k8s_delete env native_network_policy_gvk ns default_deny_policy_name))"

definition default_deny_spec :: representation where
  "default_deny_spec =
     [(''endpointSelector'', JObj []),
      (''enableDefaultDeny'', JObj [(''ingress'', JBool True), (''egress'', JBool True)]),
      (''ingress'', JArr [JObj [(''fromEntities'', JArr [JStr ''none''])]]),
      (''egress'', JArr [JObj [(''toEntities'', JArr [JStr ''none''])]])]"

definition ensure_default_deny :: "env \<Rightarrow> string \<Rightarrow> owner_reference \<Rightarrow> unit fallible" where
  "ensure_default_deny env ns owner =
     try_ok (delete_legacy_default_deny env ns) (\<lambda>_.
     apply_only env \<lparr>od_gvk = cilium_network_policy_gvk, od_name = default_deny_policy_name,
       od_namespace = ns, od_spec = default_deny_spec, od_owner = Some owner\<rparr>)"

section \<open>What the helpers guarantee\<close>

text \<open>
  The typed helpers for ConfigMaps, Deployments and Services read one kind of object,
  create only objects whose sole owner is the one given, and update only objects that this
  owner already controls.
\<close>

theorem typed_helpers_write_owned:
  "emits (owned_write config_map_gvk owner) (ensure_config_map env ns name data owner) \<and>
   emits (owned_write deployment_gvk owner) (ensure_deployment env desired owner) \<and>
   emits (owned_write service_gvk owner) (ensure_service env desired owner)"
  by (intro conjI emits_ensure_config_map emits_ensure_deployment emits_ensure_service)

text \<open>
  A Deployment is reported ready exactly when it exists, its controller has observed
  the current generation, and every wanted replica is both ready and updated.
\<close>

theorem is_deployment_ready_iff:
  "fst (run_state (is_deployment_ready env ns name) s) = Inr (True, []) \<longleftrightarrow>
     (\<exists>ob. env_get env (st_trace s) deployment_gvk ns name = Inr ob \<and>
        meta_generation (ob_meta ob) \<le> ds_observed_generation (deployment_status_of ob) \<and>
        desired_replicas ob \<le> ds_ready_replicas (deployment_status_of ob) \<and>
        desired_replicas ob \<le> ds_updated_replicas (deployment_status_of ob))"
  by (cases "env_get env (st_trace s) deployment_gvk ns name")
    (auto simp: is_deployment_ready_def k8s_get_def deployment_behind_def Let_def)

text \<open>
  A status is ready exactly when its conditions are a list whose first condition of
  type Ready has the status True, whatever conditions surround it.
\<close>

theorem ready_condition_decides:
  "(\<exists>m. ready_condition_message obj subject = Inr (True, m)) \<longleftrightarrow>
     (\<exists>conditions c. nested_slice obj [''status'', ''conditions''] = Inr (Some conditions) \<and>
        find is_ready_condition conditions = Some c \<and> condition_true c)"
  by (simp add: ready_condition_message_iff ready_now_def)

end
