(* ===== verification/Elastic_Stack.thy ===== *)
theory Elastic_Stack
  imports Admission_Webhook Cluster_Resources "HOL-Library.Multiset"
begin

text \<open>
  The telemetry components of \<^verbatim>\<open>internal/elasticstack\<close>: the OpenTelemetry Collector
  (\<^verbatim>\<open>collector.go\<close>), the EDOT Gateway (\<^verbatim>\<open>edot_gateway.go\<close>), what they own
  (\<^verbatim>\<open>component.go\<close>) and the outcome they report (\<^verbatim>\<open>outcome.go\<close>). A typed Deployment or
  Service is the JSON object of its set fields.

  The lemmas show which endpoints are accepted and that the targets computed from them do
  not depend on the order in which Go iterates over a map (with the exception found), that
  every outcome is well formed, what a ready outcome implies, and what deletion may touch.
\<close>

section \<open>Names\<close>

definition es_config_map_name :: string where "es_config_map_name = ''otel-collector-config''"
definition es_variables_config_map_name :: string where "es_variables_config_map_name = ''otel-collector-variables''"
definition es_deployment_name :: string where "es_deployment_name = ''otel-collector''"
definition es_service_name :: string where "es_service_name = ''otel-collector-service''"
definition grpc_route_name :: string where "grpc_route_name = ''otel-collector-route''"
definition es_http_route_name :: string where "es_http_route_name = ''otel-collector-crosstenant-route''"
definition grpc_route_hostname :: string where "grpc_route_hostname = ''otel-collector.neteyelocal''"
definition cross_tenant_route_hostname :: string where
  "cross_tenant_route_hostname = ''otel-collector-crosstenant.neteyelocal''"
definition grpc_listener_name :: string where "grpc_listener_name = ''otel-collector''"
definition cross_tenant_listener_name :: string where "cross_tenant_listener_name = ''otel-collector-crosstenant''"
definition ingress_policy_name :: string where "ingress_policy_name = ''neteye-otel-collector-ingress''"
definition egress_policy_name :: string where "egress_policy_name = ''neteye-otel-collector-egress''"
definition grpc_tls_cert_name :: string where "grpc_tls_cert_name = ''otel-collector-tls''"
definition grpc_tls_secret_name :: string where "grpc_tls_secret_name = ''otel-collector-tls-secret''"
definition cross_tenant_tls_cert_name :: string where "cross_tenant_tls_cert_name = ''otel-collector-crosstenant-tls''"
definition cross_tenant_tls_secret_name :: string where
  "cross_tenant_tls_secret_name = ''otel-collector-crosstenant-tls-secret''"
definition edot_service_name :: string where "edot_service_name = ''otel-edot-gateway''"
definition collector_app_label :: string where "collector_app_label = ''otel-collector''"
definition edot_config_map_name :: string where "edot_config_map_name = ''otel-edot-gateway-config''"
definition edot_variables_config_map_name :: string where
  "edot_variables_config_map_name = ''otel-edot-gateway-variables''"
definition edot_deployment_name :: string where "edot_deployment_name = ''otel-edot-gateway''"
definition edot_ingress_policy_name :: string where "edot_ingress_policy_name = ''neteye-otel-edot-gateway-ingress''"
definition edot_egress_policy_name :: string where "edot_egress_policy_name = ''neteye-otel-edot-gateway-egress''"
definition edot_app_label :: string where "edot_app_label = ''otel-edot-gateway''"

section \<open>Outcomes\<close>

text \<open>A \<^verbatim>\<open>Phase\<close> is a string; \<open>TelOther\<close> is any but the three constants.\<close>

datatype telemetry_phase = TelReady | TelProgressing | TelDegraded | TelOther string

record telemetry_outcome =
  to_phase :: telemetry_phase
  to_reason :: string
  to_message :: string
  to_err :: "go_err option"

definition reason_available :: string where "reason_available = ''Available''"
definition reason_invalid_configuration :: string where "reason_invalid_configuration = ''InvalidConfiguration''"
definition reason_secret_not_found :: string where "reason_secret_not_found = ''SecretNotFound''"
definition reason_secret_key_missing :: string where "reason_secret_key_missing = ''SecretKeyMissing''"
definition reason_deployment_not_available :: string where
  "reason_deployment_not_available = ''DeploymentNotAvailable''"
definition reason_route_not_ready :: string where "reason_route_not_ready = ''RouteNotReady''"
definition reason_certificate_not_ready :: string where "reason_certificate_not_ready = ''CertificateNotReady''"
definition reason_reconcile_failed :: string where "reason_reconcile_failed = ''ReconcileFailed''"

definition ready_outcome :: "string \<Rightarrow> telemetry_outcome" where
  "ready_outcome message =
     \<lparr>to_phase = TelReady, to_reason = reason_available, to_message = message, to_err = None\<rparr>"

definition progressing_outcome :: "string \<Rightarrow> string \<Rightarrow> telemetry_outcome" where
  "progressing_outcome reason message =
     \<lparr>to_phase = TelProgressing, to_reason = reason, to_message = message, to_err = None\<rparr>"

definition degraded_outcome :: "string \<Rightarrow> string \<Rightarrow> go_err option \<Rightarrow> telemetry_outcome" where
  "degraded_outcome reason message err =
     \<lparr>to_phase = TelDegraded, to_reason = reason, to_message = message,
      to_err = Some (case err of None \<Rightarrow> Msg message | Some e \<Rightarrow> e)\<rparr>"

fun as_prerequisite :: "go_err \<Rightarrow> (string \<times> string) option" where
  "as_prerequisite (Prerequisite reason message) = Some (reason, message)"
| "as_prerequisite (Wrap s e) = as_prerequisite e"
| "as_prerequisite (PermanentDelete e) = as_prerequisite e"
| "as_prerequisite (Joined a b) =
     (case as_prerequisite a of Some p \<Rightarrow> Some p | None \<Rightarrow> as_prerequisite b)"
| "as_prerequisite _ = None"

definition prerequisite_outcome :: "go_err \<Rightarrow> telemetry_outcome" where
  "prerequisite_outcome e =
     (case as_prerequisite e of
        Some (reason, message) \<Rightarrow> degraded_outcome reason message (Some (Prerequisite reason message))
      | None \<Rightarrow> degraded_outcome reason_reconcile_failed (err_text e) (Some e))"

text \<open>What every outcome of a component must be for the controller to accept it.\<close>

definition wf_outcome :: "telemetry_outcome \<Rightarrow> bool" where
  "wf_outcome out \<longleftrightarrow>
     (case to_phase out of TelReady \<Rightarrow> to_err out = None | TelProgressing \<Rightarrow> to_err out = None
      | TelDegraded \<Rightarrow> to_err out \<noteq> None | TelOther s \<Rightarrow> False)"

lemma wf_outcomes [simp]:
  "wf_outcome (ready_outcome m)" "wf_outcome (progressing_outcome r m)" "wf_outcome (degraded_outcome r m e)"
  by (simp_all add: wf_outcome_def ready_outcome_def progressing_outcome_def degraded_outcome_def)

lemma wf_prerequisite_outcome [simp]: "wf_outcome (prerequisite_outcome e)"
  by (simp add: prerequisite_outcome_def split: option.split)

lemma outcome_phases [simp]:
  "to_phase (ready_outcome m) = TelReady" "to_phase (progressing_outcome r m) = TelProgressing"
  "to_phase (degraded_outcome r m e) = TelDegraded" "to_phase (prerequisite_outcome e') = TelDegraded"
  by (simp_all add: ready_outcome_def progressing_outcome_def degraded_outcome_def prerequisite_outcome_def
      split: option.split)

section \<open>Endpoints\<close>

text \<open>
  \<^verbatim>\<open>url.Parse\<close>, \<^verbatim>\<open>net.ParseIP\<close> as the two tests the code makes of its result (not nil; an
  IPv4 address, IPv4-mapped IPv6 addresses included), \<^verbatim>\<open>json.Marshal\<close> of a list of strings,
  and the order in which the runtime iterates over the map of targets.
\<close>

record url_lib =
  ul_parse :: "string \<Rightarrow> parsed_url option"
  ul_is_ip :: "string \<Rightarrow> bool"
  ul_is_ip4 :: "string \<Rightarrow> bool"
  ul_encode :: "string list \<Rightarrow> string"

type_synonym egress_target = "string \<times> string"

definition is_dns_char :: "char \<Rightarrow> bool" where
  "is_dns_char c \<longleftrightarrow> c = CHR ''-'' \<or> (CHR ''a'' \<le> c \<and> c \<le> CHR ''z'') \<or> (CHR ''0'' \<le> c \<and> c \<le> CHR ''9'')"

definition bad_label :: "string \<Rightarrow> bool" where
  "bad_label label \<longleftrightarrow>
     label = [] \<or> 63 < length label \<or> hd label = CHR ''-'' \<or> last label = CHR ''-'' \<or>
     list_ex (\<lambda>c. \<not> is_dns_char c) label"

definition validate_dns_name :: "string \<Rightarrow> string \<Rightarrow> go_err option" where
  "validate_dns_name value what =
     (let invalid = Some (Msg (what @ '' must be a non-empty DNS name'')) in
      if trim_space value = [] \<or> trim_space value \<noteq> value \<or> 253 < length value then invalid
      else if list_ex bad_label (split_string value ''.'') then invalid
      else None)"

definition is_supported_endpoint_host :: "url_lib \<Rightarrow> string \<Rightarrow> bool" where
  "is_supported_endpoint_host lib host \<longleftrightarrow>
     ul_is_ip lib host \<or> validate_dns_name host ''host'' = None"

definition invalid_endpoint :: "string \<Rightarrow> go_err" where
  "invalid_endpoint value = Msg (''invalid unsupported Elasticsearch endpoint '' @ quoted value)"

text \<open>The host and port of one endpoint.\<close>

definition endpoint_target :: "url_lib \<Rightarrow> string \<Rightarrow> go_err + egress_target" where
  "endpoint_target lib value =
     (case ul_parse lib value of
        None \<Rightarrow> Inl (invalid_endpoint value)
      | Some u \<Rightarrow>
          if pu_scheme u \<noteq> ''https'' \<or> pu_hostname u = [] \<or> pu_has_user u \<or> pu_raw_query u \<noteq> [] \<or>
             pu_fragment u \<noteq> [] \<or> \<not> is_supported_endpoint_host lib (pu_hostname u)
          then Inl (invalid_endpoint value)
          else if pu_port u = [] then Inr (pu_hostname u, ''443'')
          else (case atoi (pu_port u) of
                  None \<Rightarrow> Inl (invalid_endpoint value)
                | Some n \<Rightarrow> if n < 1 \<or> 65535 < n then Inl (invalid_endpoint value)
                            else Inr (pu_hostname u, pu_port u)))"

fun collect_targets ::
    "url_lib \<Rightarrow> string list \<Rightarrow> (string \<times> egress_target) list \<Rightarrow> go_err + (string \<times> egress_target) list" where
  "collect_targets lib [] unique = Inr unique"
| "collect_targets lib (v # vs) unique =
     (case endpoint_target lib v of
        Inl e \<Rightarrow> Inl e
      | Inr (host, port) \<Rightarrow>
          collect_targets lib vs (AList.update (host @ '':'' @ port) (host, port) unique))"

definition target_sort_key :: "egress_target \<Rightarrow> string" where
  "target_sort_key t = fst t @ snd t"

definition validated_endpoints ::
    "url_lib \<Rightarrow> (egress_target list \<Rightarrow> egress_target list) \<Rightarrow> string list \<Rightarrow>
     go_err + (string list \<times> egress_target list)" where
  "validated_endpoints lib iteration urls =
     (if urls = [] then Inl (Msg ''at least one Elasticsearch endpoint is required'')
      else (case collect_targets lib urls [] of
              Inl e \<Rightarrow> Inl e
            | Inr unique \<Rightarrow> Inr (urls, sort_key target_sort_key (iteration (map snd unique)))))"

section \<open>Policies\<close>

definition labels_for :: "string \<Rightarrow> json" where
  "labels_for app = JObj [(''matchLabels'', JObj [(''k8s:app'', JStr app)])]"

definition namespace_scoped_endpoint :: "string \<Rightarrow> string \<Rightarrow> json" where
  "namespace_scoped_endpoint app ns =
     JObj [(''matchLabels'', JObj [(''k8s:app'', JStr app), (''k8s:io.kubernetes.pod.namespace'', JStr ns)])]"

definition tcp_ports :: "string list \<Rightarrow> json" where
  "tcp_ports ports = JObj [(''ports'', JArr (map (\<lambda>p. JObj [(''port'', JStr p), (''protocol'', JStr ''TCP'')]) ports))]"

definition dns_egress :: json where
  "dns_egress =
     JObj [(''toEndpoints'', JArr [JObj [(''matchLabels'', JObj
              [(''k8s:io.kubernetes.pod.namespace'', JStr ''kube-system''), (''k8s:k8s-app'', JStr ''kube-dns'')])]]),
           (''toPorts'', JArr [JObj
              [(''ports'', JArr [JObj [(''port'', JStr ''53''), (''protocol'', JStr ''TCP'')],
                                JObj [(''port'', JStr ''53''), (''protocol'', JStr ''UDP'')]]),
               (''rules'', JObj [(''dns'', JArr [JObj [(''matchPattern'', JStr ''*'')]])])]])]"

definition fqdn_egress :: "string \<Rightarrow> string \<Rightarrow> json" where
  "fqdn_egress host port =
     JObj [(''toFQDNs'', JArr [JObj [(''matchName'', JStr host)]]), (''toPorts'', JArr [tcp_ports [port]])]"

definition host_cidr :: "url_lib \<Rightarrow> string \<Rightarrow> string" where
  "host_cidr lib ip = (if ul_is_ip lib ip \<and> ul_is_ip4 lib ip then ip @ ''/32'' else ip @ ''/128'')"

definition cidr_egress :: "url_lib \<Rightarrow> string \<Rightarrow> string \<Rightarrow> json" where
  "cidr_egress lib ip port =
     JObj [(''toCIDR'', JArr [JStr (host_cidr lib ip)]), (''toPorts'', JArr [tcp_ports [port]])]"

definition target_egress :: "url_lib \<Rightarrow> egress_target \<Rightarrow> json" where
  "target_egress lib t =
     (if ul_is_ip lib (fst t) then cidr_egress lib (fst t) (snd t) else fqdn_egress (fst t) (snd t))"

definition host_ports :: "string \<Rightarrow> json" where
  "host_ports port =
     JObj [(''toEntities'', JArr [JStr ''host'', JStr ''remote-node'']), (''toPorts'', JArr [tcp_ports [port]])]"

definition collector_ingress_policy :: representation where
  "collector_ingress_policy =
     [(''endpointSelector'', labels_for collector_app_label),
      (''ingress'', JArr
         [JObj [(''fromEntities'', JArr [JStr ''ingress'']), (''toPorts'', JArr [tcp_ports [''4317'', ''4318'']])],
          JObj [(''fromEntities'', JArr [JStr ''host'', JStr ''remote-node'']),
                (''toPorts'', JArr [tcp_ports [''13133'']])]])]"

definition collector_egress_policy :: "url_lib \<Rightarrow> string \<Rightarrow> string \<Rightarrow> egress_target list \<Rightarrow> representation" where
  "collector_egress_policy lib ns identity_hostname targets =
     [(''endpointSelector'', labels_for collector_app_label),
      (''egress'', JArr
         ([dns_egress,
           JObj [(''toEndpoints'', JArr [namespace_scoped_endpoint edot_app_label ns]),
                 (''toPorts'', JArr [tcp_ports [''4317'']])],
           fqdn_egress identity_hostname ''443'', host_ports ''443'', host_ports ''9200'']
          @ map (target_egress lib) targets))]"

definition edot_gateway_ingress_policy :: "string \<Rightarrow> bool \<Rightarrow> representation" where
  "edot_gateway_ingress_policy ns telemetry_enabled =
     [(''endpointSelector'', labels_for edot_app_label),
      (''ingress'', JArr
         ([JObj [(''fromEndpoints'', JArr [namespace_scoped_endpoint collector_app_label ns]),
                 (''toPorts'', JArr [tcp_ports [''4317'', ''4318'']])]]
          @ (if telemetry_enabled
             then [JObj [(''fromEndpoints'', JArr [JObj [(''matchLabels'', JObj
                      [(''k8s:app'', JStr ''keycloak''),
                       (''k8s:app.kubernetes.io/instance'', JStr instance_name),
                       (''k8s:app.kubernetes.io/managed-by'', JStr ''keycloak-operator''),
                       (''k8s:io.kubernetes.pod.namespace'', JStr ns)])]]),
                     (''toPorts'', JArr [tcp_ports [''4317'']])]]
             else [])
          @ [JObj [(''fromEntities'', JArr [JStr ''host'', JStr ''remote-node'']),
                   (''toPorts'', JArr [tcp_ports [''13133'']])]]))]"

definition edot_gateway_egress_policy :: "url_lib \<Rightarrow> egress_target list \<Rightarrow> representation" where
  "edot_gateway_egress_policy lib targets =
     [(''endpointSelector'', labels_for edot_app_label),
      (''egress'', JArr
         (map (target_egress lib) targets
          @ (if list_ex (\<lambda>t. \<not> ul_is_ip lib (fst t)) targets then [dns_egress] else [])
          @ [host_ports ''9200'']))]"

section \<open>Workloads\<close>

definition ca_bundle_command :: string where
  \<open>ca_bundle_command = join_string
    [''tmp_bundle=/work/ca-bundle.pem.tmp'',
     ''final_bundle=/work/ca-bundle.pem'',
     ''cat /input/system/tls-ca-bundle.pem > "$tmp_bundle"'',
     ''for cert in /input/neteye/*; do'',
     ''  if [ -f "$cert" ]; then cat "$cert" >> "$tmp_bundle"; printf '' @ [CHR 0x27] @ [CHR 0x5C] @ ''n'' @ [CHR 0x27] @ '' >> "$tmp_bundle"; fi'',
     ''done'',
     ''sed -e '' @ [CHR 0x27] @ ''/^#/d'' @ [CHR 0x27] @ '' -e '' @ [CHR 0x27] @ ''/^[[:space:]]*$/d'' @ [CHR 0x27] @ '' -e '' @ [CHR 0x27] @ ''s/TRUSTED //g'' @ [CHR 0x27] @ '' "$tmp_bundle" > "$final_bundle"'',
     ''rm -f "$tmp_bundle"'',
     ''chmod 755 /work'',
     ''chmod 644 "$final_bundle"''] [CHR 0x0A]\<close>

definition collector_config :: string where
  \<open>collector_config = join_string
    [''receivers:'',
     ''  otlp:'',
     ''    protocols:'',
     ''      grpc:'',
     ''        endpoint: 0.0.0.0:4317'',
     ''        auth: {authenticator: oidc}'',
     ''  otlp/crosstenant:'',
     ''    protocols:'',
     ''      http:'',
     ''        endpoint: 0.0.0.0:4318'',
     ''        auth: {authenticator: basicauth/crosstenant}'',
     ''extensions:'',
     ''  oidc: {issuer_url: "${OIDC_ISSUER}", audience: account, username_claim: sub}'',
     ''  basicauth/crosstenant: {htpasswd: {file: /etc/otel/basicauth/htpasswd}}'',
     ''  health_check: {endpoint: 0.0.0.0:13133}'',
     ''processors:'',
     ''  attributes/tenant: {actions: [{key: data_stream.namespace, from_context: auth.claims.tenant, action: upsert}]}'',
     ''  transform/crosstenant:'',
     ''    error_mode: ignore'',
     ''    metric_statements:'',
     ''      - context: resource'',
     ''        statements:'',
     ''          - set(attributes["data_stream.namespace"], attributes["icinga2.custom.tenant"]) where attributes["icinga2.custom.tenant"] != nil'',
     ''          - set(attributes["data_stream.namespace"], "master") where attributes["data_stream.namespace"] == nil'',
     ''          - set(attributes["data_stream.dataset"], "icinga2")'',
     ''  batch:'',
     ''    send_batch_size: 1000'',
     ''    timeout: 1s'',
     ''    send_batch_max_size: 1500'',
     ''  batch/metrics:'',
     ''    send_batch_max_size: 0'',
     ''    timeout: 1s'',
     ''exporters:'',
     ''  otlp/edot: {endpoint: otel-edot-gateway:4317, tls: {insecure: true}}'',
     ''  elasticsearch/otel:'',
     ''    endpoints: ${ELASTICSEARCH_ENDPOINTS}'',
     ''    api_key: "${ELASTICSEARCH_API_KEY}"'',
     ''    tls: {ca_file: /etc/pki/tls/certs/ca-bundle.crt}'',
     ''    mapping: {mode: otel}'',
     ''service:'',
     ''  extensions: [oidc, basicauth/crosstenant, health_check]'',
     ''  pipelines:'',
     ''    # grpc traffiic is used for metrics, logs and traces using the oauth integration and is sent to the EDOT gateway for'',
     ''    # ElasticAPM enrichment and forwarded to the ES Cluster'',
     ''    metrics: {receivers: [otlp], processors: [attributes/tenant, batch/metrics], exporters: [otlp/edot]}'',
     ''    logs: {receivers: [otlp], processors: [attributes/tenant, batch], exporters: [otlp/edot]}'',
     ''    traces: {receivers: [otlp], processors: [attributes/tenant, batch], exporters: [otlp/edot]}'',
     ''    # Icinga2 elasticsearch writer is directly connected to the ES cluster since it does not need APM enrichment'',
     ''    metrics/crosstenant: {receivers: [otlp/crosstenant], processors: [transform/crosstenant, batch/metrics], exporters: [elasticsearch/otel]}'',
     ''''] [CHR 0x0A]\<close>

definition edot_gateway_config :: string where
  \<open>edot_gateway_config = join_string
    [''receivers:'',
     ''  otlp:'',
     ''    protocols:'',
     ''      grpc: {endpoint: 0.0.0.0:4317}'',
     ''      http: {endpoint: 0.0.0.0:4318}'',
     ''processors:'',
     ''  batch: {}'',
     ''  elasticapm: {}'',
     ''connectors:'',
     ''  elasticapm: {}'',
     ''exporters:'',
     ''  elasticsearch/otel:'',
     ''    endpoints: ${ELASTICSEARCH_ENDPOINTS}'',
     ''    api_key: "${ELASTICSEARCH_API_KEY}"'',
     ''    tls: {ca_file: /etc/pki/tls/certs/ca-bundle.crt}'',
     ''    mapping: {mode: otel}'',
     ''extensions:'',
     ''  health_check: {endpoint: 0.0.0.0:13133}'',
     ''service:'',
     ''  extensions: [health_check]'',
     ''  pipelines:'',
     ''    logs: {receivers: [otlp], processors: [batch, elasticapm], exporters: [elasticapm, elasticsearch/otel]}'',
     ''    metrics: {receivers: [otlp], processors: [batch, elasticapm], exporters: [elasticapm, elasticsearch/otel]}'',
     ''    traces: {receivers: [otlp], processors: [batch, elasticapm], exporters: [elasticapm, elasticsearch/otel]}'',
     ''    metrics/aggregated-otel-metrics: {receivers: [elasticapm], exporters: [elasticsearch/otel]}'',
     ''''] [CHR 0x0A]\<close>


definition j_mount :: "string \<Rightarrow> string \<Rightarrow> bool \<Rightarrow> json" where
  "j_mount name path read_only =
     JObj ([(''name'', JStr name), (''mountPath'', JStr path)] @
           (if read_only then [(''readOnly'', JBool True)] else []))"

definition health_probe :: "int \<Rightarrow> int \<Rightarrow> json" where
  "health_probe period failures =
     JObj [(''httpGet'', JObj [(''path'', JStr ''/''), (''port'', JStr ''health'')]),
           (''periodSeconds'', JInt period), (''failureThreshold'', JInt failures), (''timeoutSeconds'', JInt 2)]"

definition collector_ports :: json where
  "collector_ports =
     JArr [JObj [(''name'', JStr ''health''), (''containerPort'', JInt 13133)],
           JObj [(''name'', JStr ''otlp-grpc''), (''containerPort'', JInt 4317)],
           JObj [(''name'', JStr ''otlp-http''), (''containerPort'', JInt 4318)]]"

definition ca_bundle_container :: "string \<Rightarrow> string \<Rightarrow> json" where
  "ca_bundle_container name img =
     JObj [(''name'', JStr name), (''image'', JStr img),
           (''command'', JArr (any_slice [''/bin/sh'', ''-ec'', ca_bundle_command])),
           (''volumeMounts'', JArr [j_mount ''trusted-ca'' ''/work'' False,
              j_mount ''host-ca'' ''/input/system/tls-ca-bundle.pem'' True,
              j_mount ''root-ca'' ''/input/neteye'' True])]"

definition secret_env :: "string \<Rightarrow> secret_key_selector \<Rightarrow> json" where
  "secret_env name sel =
     JObj [(''name'', JStr name),
           (''valueFrom'', JObj [(''secretKeyRef'', JObj [(''name'', JStr (sel_name sel)), (''key'', JStr (sel_key sel))])])]"

definition value_env :: "string \<Rightarrow> string \<Rightarrow> json" where
  "value_env name v = JObj [(''name'', JStr name), (''value'', JStr v)]"

definition trusted_ca_mount :: json where
  "trusted_ca_mount =
     JObj [(''name'', JStr ''trusted-ca''), (''mountPath'', JStr ''/etc/pki/tls/certs/ca-bundle.crt''),
           (''subPath'', JStr ''ca-bundle.pem''), (''readOnly'', JBool True)]"

definition config_volume :: "string \<Rightarrow> string \<Rightarrow> json" where
  "config_volume config_map key =
     JObj [(''name'', JStr ''config''), (''configMap'', JObj [(''name'', JStr config_map),
        (''items'', JArr [JObj [(''key'', JStr key), (''path'', JStr ''config.yaml'')]])])]"

definition ca_volumes :: "string \<Rightarrow> json list" where
  "ca_volumes root_ca =
     [JObj [(''name'', JStr ''trusted-ca''), (''emptyDir'', JObj [])],
      JObj [(''name'', JStr ''host-ca''), (''hostPath'', JObj
        [(''path'', JStr ''/etc/pki/ca-trust/extracted/pem/tls-ca-bundle.pem''), (''type'', JStr ''File'')])],
      JObj [(''name'', JStr ''root-ca''), (''secret'', JObj [(''secretName'', JStr root_ca),
        (''items'', JArr [JObj [(''key'', JStr ''tls.crt''), (''path'', JStr ''ca.crt'')]])])]]"

definition workload_spec ::
    "int \<Rightarrow> string \<Rightarrow> (string \<times> string) list \<Rightarrow> json \<Rightarrow> json \<Rightarrow> json list \<Rightarrow> representation" where
  "workload_spec replicas app annotations init container volumes =
     [(''replicas'', JInt replicas),
      (''selector'', JObj [(''matchLabels'', JObj [(''app'', JStr app)])]),
      (''template'', JObj
        [(''metadata'', JObj [(''labels'', JObj [(''app'', JStr app)]), (''annotations'', JObj (string_map annotations))]),
         (''spec'', JObj [(''initContainers'', JArr [init]), (''containers'', JArr [container]), (''volumes'', JArr volumes)])])]"

definition no_deployment_status :: deployment_status where
  "no_deployment_status = \<lparr>ds_observed_generation = 0, ds_ready_replicas = 0, ds_updated_replicas = 0\<rparr>"

definition collector_deployment ::
    "string \<Rightarrow> otel_collector_spec \<Rightarrow> string \<Rightarrow> string \<Rightarrow> string \<Rightarrow> secret_key_selector \<Rightarrow> string \<Rightarrow>
     (string \<times> string) list \<Rightarrow> k8s_object" where
  "collector_deployment ns spec img ca_image oidc_issuer api_key endpoints annotations =
     new_object deployment_gvk ns es_deployment_name (DeploymentContent
       (workload_spec (collector_effective_replicas (Some spec)) collector_app_label annotations
         (ca_bundle_container ''otel-collector-ca-bundle'' ca_image)
         (JObj [(''name'', JStr ''otel-collector''), (''image'', JStr img),
            (''args'', JArr (any_slice [''--config'', ''/etc/otel/config.yaml''])), (''ports'', collector_ports),
            (''env'', JArr [value_env ''OIDC_ISSUER'' oidc_issuer, value_env ''ELASTICSEARCH_ENDPOINTS'' endpoints,
               secret_env ''ELASTICSEARCH_API_KEY'' api_key]),
            (''volumeMounts'', JArr [j_mount ''config'' ''/etc/otel'' True, trusted_ca_mount,
               j_mount ''basic-auth'' ''/etc/otel/basicauth'' True]),
            (''startupProbe'', health_probe 5 30), (''readinessProbe'', health_probe 10 3),
            (''livenessProbe'', health_probe 10 3)])
         ([config_volume es_config_map_name ''otel-collector-config.yaml'']
          @ ca_volumes (collector_effective_root_ca (Some spec))
          @ [JObj [(''name'', JStr ''basic-auth''), (''secret'', JObj
               [(''secretName'', JStr (collector_effective_basic_auth (Some spec))), (''defaultMode'', JInt 288)])]]))
       no_deployment_status)"

definition edot_gateway_deployment ::
    "string \<Rightarrow> edot_gateway_spec \<Rightarrow> string \<Rightarrow> string \<Rightarrow> string \<Rightarrow> (string \<times> string) list \<Rightarrow> k8s_object" where
  "edot_gateway_deployment ns spec img ca_image endpoints annotations =
     new_object deployment_gvk ns edot_deployment_name (DeploymentContent
       (workload_spec (gateway_effective_replicas (Some spec)) edot_app_label annotations
         (ca_bundle_container ''edot-gateway-ca-bundle'' ca_image)
         (JObj [(''name'', JStr ''edot-gateway''), (''image'', JStr img),
            (''args'', JArr (any_slice [''--config'', ''/etc/edot/config.yaml''])), (''ports'', collector_ports),
            (''env'', JArr [value_env ''ELASTICSEARCH_ENDPOINTS'' endpoints,
               secret_env ''ELASTICSEARCH_API_KEY'' (gateway_effective_api_key (Some spec))]),
            (''volumeMounts'', JArr [j_mount ''config'' ''/etc/edot'' True, trusted_ca_mount]),
            (''startupProbe'', health_probe 5 30), (''readinessProbe'', health_probe 10 3),
            (''livenessProbe'', health_probe 10 3)])
         ([config_volume edot_config_map_name ''edot-gateway-config.yaml'']
          @ ca_volumes (gateway_effective_root_ca (Some spec))))
       no_deployment_status)"

definition telemetry_service :: "string \<Rightarrow> string \<Rightarrow> string \<Rightarrow> k8s_object" where
  "telemetry_service ns name app =
     new_object service_gvk ns name (ServiceContent
       [(''type'', JStr ''ClusterIP''), (''selector'', JObj [(''app'', JStr app)]),
        (''ports'', JArr
          [JObj [(''name'', JStr ''otlp-grpc''), (''protocol'', JStr ''TCP''), (''port'', JInt 4317),
                 (''targetPort'', JInt 4317), (''appProtocol'', JStr ''kubernetes.io/h2c'')],
           JObj [(''name'', JStr ''otlp-http''), (''protocol'', JStr ''TCP''), (''port'', JInt 4318),
                 (''targetPort'', JInt 4318)]])])"

definition collector_service :: "string \<Rightarrow> k8s_object" where
  "collector_service ns = telemetry_service ns es_service_name collector_app_label"

section \<open>Prerequisites\<close>

definition secret_data :: "k8s_object \<Rightarrow> (string \<times> string) list" where
  "secret_data ob = (case ob_content ob of SecretData (Some d) \<Rightarrow> d | _ \<Rightarrow> [])"

definition secret_value :: "k8s_object \<Rightarrow> string \<Rightarrow> string" where
  "secret_value ob key = (case map_of (secret_data ob) key of None \<Rightarrow> [] | Some v \<Rightarrow> v)"

definition has_blank :: "string \<Rightarrow> bool" where
  "has_blank s \<longleftrightarrow> list_ex (\<lambda>c. c \<in> {CHR '' '', CHR 0x09, CHR 0x0D, CHR 0x0A}) s"

definition required_secret_resource_version ::
    "env \<Rightarrow> string \<Rightarrow> string \<Rightarrow> string \<Rightarrow> string fallible" where
  "required_secret_resource_version env ns name key =
     (case validate_dns_name name ''Secret name'' of
        Some e \<Rightarrow> fail (Prerequisite reason_invalid_configuration (err_text e))
      | None \<Rightarrow>
          if key = [] \<or> trim_space key \<noteq> key \<or> has_blank key
          then fail (Prerequisite reason_invalid_configuration
                 ''secret key must be a non-empty value without whitespace'')
          else attempt (k8s_get env secret_gvk ns name)
            (\<lambda>e. if is_not_found e
                 then fail (Prerequisite reason_secret_not_found
                        (''required user-managed Secret '' @ quoted name @ '' is missing in namespace '' @ quoted ns))
                 else fail e)
            (\<lambda>ob. if secret_value ob key = []
                  then fail (Prerequisite reason_secret_key_missing
                         (''required user-managed Secret '' @ quoted name @ '' is missing non-empty key '' @
                          quoted key @ '' in namespace '' @ quoted ns))
                  else ok (meta_resource_version (ob_meta ob))))"

definition config_map_resource_version :: "env \<Rightarrow> string \<Rightarrow> string \<Rightarrow> string fallible" where
  "config_map_resource_version env ns name =
     try_ok (k8s_get env config_map_gvk ns name) (\<lambda>ob. ok (meta_resource_version (ob_meta ob)))"

definition collector_input_versions ::
    "env \<Rightarrow> string \<Rightarrow> string \<Rightarrow> string \<Rightarrow> string \<Rightarrow> (string \<times> string) list fallible" where
  "collector_input_versions env ns basic_auth api_key root_ca =
     try_ok (config_map_resource_version env ns es_config_map_name) (\<lambda>config.
     ok [(''neteye.cloud/config-resource-version'', config),
         (''neteye.cloud/basic-auth-resource-version'', basic_auth),
         (''neteye.cloud/api-key-resource-version'', api_key),
         (''neteye.cloud/root-ca-resource-version'', root_ca)])"

definition edot_gateway_input_versions ::
    "env \<Rightarrow> string \<Rightarrow> string \<Rightarrow> string \<Rightarrow> (string \<times> string) list fallible" where
  "edot_gateway_input_versions env ns api_key root_ca =
     try_ok (config_map_resource_version env ns edot_config_map_name) (\<lambda>config.
     ok [(''neteye.cloud/config-resource-version'', config),
         (''neteye.cloud/api-key-resource-version'', api_key),
         (''neteye.cloud/root-ca-resource-version'', root_ca)])"

section \<open>Route status\<close>

record expected_parent =
  ep_group :: string
  ep_kind :: string
  ep_namespace :: string
  ep_name :: string
  ep_section :: string

definition or_default :: "string \<Rightarrow> string \<Rightarrow> string" where
  "or_default s d = (if s = [] then d else s)"

definition parent_matches :: "expected_parent \<Rightarrow> representation \<Rightarrow> bool" where
  "parent_matches expected ref \<longleftrightarrow>
     or_default (nested_string ref ''group'') gateway_api_group = or_default (ep_group expected) gateway_api_group \<and>
     or_default (nested_string ref ''kind'') ''Gateway'' = ep_kind expected \<and>
     nested_string ref ''namespace'' = ep_namespace expected \<and>
     nested_string ref ''name'' = ep_name expected \<and>
     nested_string ref ''sectionName'' = ep_section expected"

definition find_condition :: "json list \<Rightarrow> string \<Rightarrow> representation option" where
  "find_condition conditions type =
     (case find (\<lambda>c. case c of JObj m \<Rightarrow> map_of m ''type'' = Some (JStr type) | _ \<Rightarrow> False) conditions of
        Some (JObj m) \<Rightarrow> Some m | _ \<Rightarrow> None)"

definition gateway_text :: "expected_parent \<Rightarrow> string" where
  "gateway_text expected = ''Gateway '' @ ep_namespace expected @ ''/'' @ ep_name expected"

definition route_condition ::
    "string \<Rightarrow> string \<Rightarrow> expected_parent \<Rightarrow> int \<Rightarrow> json list \<Rightarrow> string \<Rightarrow> go_err + (bool \<times> string)" where
  "route_condition kind route expected generation conditions type =
     (let waiting_text = ''waiting for '' @ kind @ '' '' @ route @ '' '' @ type @ '' condition from '' @ gateway_text expected in
      case find_condition conditions type of
        None \<Rightarrow> Inr (False, waiting_text)
      | Some condition \<Rightarrow>
          (case nested_int64 condition ''observedGeneration'' of
             Inl e \<Rightarrow> Inl e
           | Inr observed \<Rightarrow>
               if (case observed of None \<Rightarrow> False | Some n \<Rightarrow> n < generation)
               then Inr (False, kind @ '' '' @ route @ '' '' @ type @ '' status is stale'')
               else if nested_string condition ''status'' \<noteq> ''True''
               then Inr (False, or_default (nested_string condition ''message'') waiting_text)
               else Inr (True, [])))"

fun route_conditions ::
    "string \<Rightarrow> string \<Rightarrow> expected_parent \<Rightarrow> int \<Rightarrow> json list \<Rightarrow> string list \<Rightarrow> go_err + (bool \<times> string)" where
  "route_conditions kind route expected generation conditions [] = Inr (True, [])"
| "route_conditions kind route expected generation conditions (t # ts) =
     (case route_condition kind route expected generation conditions t of
        Inl e \<Rightarrow> Inl e
      | Inr (False, m) \<Rightarrow> Inr (False, m)
      | Inr (True, m) \<Rightarrow> route_conditions kind route expected generation conditions ts)"

fun scan_parents ::
    "string \<Rightarrow> string \<Rightarrow> expected_parent \<Rightarrow> int \<Rightarrow> json list \<Rightarrow> go_err + (bool \<times> string)" where
  "scan_parents kind route expected generation [] =
     Inr (False, ''waiting for '' @ gateway_text expected @ '' to accept '' @ kind @ '' '' @ route)"
| "scan_parents kind route expected generation (raw # rest) =
     (case raw of
        JObj parent \<Rightarrow>
          (case map_of parent ''parentRef'' of
             Some (JObj ref) \<Rightarrow>
               if \<not> parent_matches expected ref then scan_parents kind route expected generation rest
               else (case nested_slice parent [''conditions''] of
                       Inl e \<Rightarrow> Inl e
                     | Inr conditions \<Rightarrow>
                         route_conditions kind route expected generation
                           (case conditions of None \<Rightarrow> [] | Some cs \<Rightarrow> cs) [''Accepted'', ''ResolvedRefs''])
           | _ \<Rightarrow> scan_parents kind route expected generation rest)
      | _ \<Rightarrow> scan_parents kind route expected generation rest)"

definition route_ready ::
    "env \<Rightarrow> string \<Rightarrow> string \<Rightarrow> string \<Rightarrow> expected_parent \<Rightarrow> (bool \<times> string) fallible" where
  "route_ready env ns route kind expected =
     attempt (k8s_get env (gvk_of gateway_api_group ''v1'' kind) ns route)
       (\<lambda>e. if is_not_found e then ok (False, kind @ '' '' @ route @ '' is not created'') else fail e)
       (\<lambda>ob. lift_result
          (case nested_slice (fields_of ob) [''status'', ''parents''] of
             Inl e \<Rightarrow> Inl e
           | Inr parents \<Rightarrow>
               if parents = None \<or> parents = Some []
               then Inr (False, ''waiting for '' @ gateway_text expected @ '' to report '' @ kind @ '' '' @ route @ '' status'')
               else scan_parents kind route expected (meta_generation (ob_meta ob)) (the parents)))"

section \<open>Ownership inventory and deletion\<close>

type_synonym managed_resource = "gvk \<times> string"

definition collector_resource_inventory :: "managed_resource list" where
  "collector_resource_inventory =
     [(config_map_gvk, es_config_map_name), (deployment_gvk, es_deployment_name),
      (service_gvk, es_service_name), (grpc_route_gvk, grpc_route_name),
      (http_route_gvk, es_http_route_name), (certificate_gvk, grpc_tls_cert_name),
      (certificate_gvk, cross_tenant_tls_cert_name),
      (cilium_network_policy_gvk, ingress_policy_name), (cilium_network_policy_gvk, egress_policy_name)]"

definition edot_gateway_resource_inventory :: "managed_resource list" where
  "edot_gateway_resource_inventory =
     [(config_map_gvk, edot_config_map_name), (deployment_gvk, edot_deployment_name),
      (service_gvk, edot_service_name),
      (cilium_network_policy_gvk, edot_ingress_policy_name), (cilium_network_policy_gvk, edot_egress_policy_name)]"

definition collector_legacy_inventory :: "managed_resource list" where
  "collector_legacy_inventory = [(config_map_gvk, es_variables_config_map_name)]"

definition edot_gateway_legacy_inventory :: "managed_resource list" where
  "edot_gateway_legacy_inventory = [(config_map_gvk, edot_variables_config_map_name)]"

definition controlled_by :: "owner_reference \<Rightarrow> k8s_object \<Rightarrow> bool" where
  "controlled_by owner ob \<longleftrightarrow> (\<exists>r \<in> set (owners_of ob). or_uid r = or_uid owner \<and> is_controller_ref r)"

definition delete_owned_resource :: "env \<Rightarrow> string \<Rightarrow> owner_reference \<Rightarrow> managed_resource \<Rightarrow> unit fallible" where
  "delete_owned_resource env ns owner r =
     attempt (k8s_get env (fst r) ns (snd r))
       (\<lambda>e. if is_not_found e then ok () else fail e)
       (\<lambda>ob. if \<not> controlled_by owner ob then ok ()
             else ignore_not_found (k8s_delete env (fst r) ns (snd r)))"

definition delete_owned_resources ::
    "env \<Rightarrow> string \<Rightarrow> owner_reference \<Rightarrow> managed_resource list \<Rightarrow> unit fallible" where
  "delete_owned_resources env ns owner inventory =
     for_each (\<lambda>r _. delete_owned_resource env ns owner r) inventory ()"

definition delete_otel_collector :: "env \<Rightarrow> string \<Rightarrow> owner_reference \<Rightarrow> unit fallible" where
  "delete_otel_collector env ns owner =
     delete_owned_resources env ns owner (collector_resource_inventory @ collector_legacy_inventory)"

definition delete_edot_gateway :: "env \<Rightarrow> string \<Rightarrow> owner_reference \<Rightarrow> unit fallible" where
  "delete_edot_gateway env ns owner =
     delete_owned_resources env ns owner (edot_gateway_resource_inventory @ edot_gateway_legacy_inventory)"

section \<open>Ensuring the components\<close>

text \<open>The three ways the code turns an error into an outcome, and a list of readiness tests.\<close>

definition finish :: "telemetry_outcome \<Rightarrow> telemetry_outcome op" where
  "finish out = State_Monad.return out"

definition reconcile_step :: "'a fallible \<Rightarrow> ('a \<Rightarrow> telemetry_outcome op) \<Rightarrow> telemetry_outcome op" where
  "reconcile_step m k = attempt m (\<lambda>e. finish (degraded_outcome reason_reconcile_failed [] (Some e))) k"

definition prerequisite_step :: "'a fallible \<Rightarrow> ('a \<Rightarrow> telemetry_outcome op) \<Rightarrow> telemetry_outcome op" where
  "prerequisite_step m k = attempt m (\<lambda>e. finish (prerequisite_outcome e)) k"

definition invalid_configuration :: "string \<Rightarrow> telemetry_outcome op" where
  "invalid_configuration message = finish (degraded_outcome reason_invalid_configuration message None)"

fun all_ready :: "(bool \<times> string) fallible list \<Rightarrow> string \<Rightarrow> telemetry_outcome op \<Rightarrow> telemetry_outcome op" where
  "all_ready [] reason k = k"
| "all_ready (m # ms) reason k =
     reconcile_step m (\<lambda>(ready, message).
       if \<not> ready then finish (progressing_outcome reason message) else all_ready ms reason k)"

definition cilium_policy :: "string \<Rightarrow> string \<Rightarrow> representation \<Rightarrow> owner_reference \<Rightarrow> object_definition" where
  "cilium_policy ns name spec owner =
     \<lparr>od_gvk = cilium_network_policy_gvk, od_name = name, od_namespace = ns, od_spec = spec, od_owner = Some owner\<rparr>"

definition ensure_collector_policies ::
    "env \<Rightarrow> url_lib \<Rightarrow> string \<Rightarrow> string \<Rightarrow> egress_target list \<Rightarrow> owner_reference \<Rightarrow> unit fallible" where
  "ensure_collector_policies env lib ns identity_hostname targets owner =
     try_ok (apply_only env (cilium_policy ns ingress_policy_name collector_ingress_policy owner)) (\<lambda>_.
     apply_only env (cilium_policy ns egress_policy_name
       (collector_egress_policy lib ns identity_hostname targets) owner))"

definition ensure_edot_ingress_policy :: "env \<Rightarrow> string \<Rightarrow> bool \<Rightarrow> owner_reference \<Rightarrow> unit fallible" where
  "ensure_edot_ingress_policy env ns telemetry_enabled owner =
     apply_only env (cilium_policy ns edot_ingress_policy_name (edot_gateway_ingress_policy ns telemetry_enabled) owner)"

definition ensure_edot_egress_policy ::
    "env \<Rightarrow> url_lib \<Rightarrow> string \<Rightarrow> egress_target list \<Rightarrow> owner_reference \<Rightarrow> unit fallible" where
  "ensure_edot_egress_policy env lib ns targets owner =
     apply_only env (cilium_policy ns edot_egress_policy_name (edot_gateway_egress_policy lib targets) owner)"

definition collector_parent :: "string \<Rightarrow> string \<Rightarrow> string \<Rightarrow> expected_parent" where
  "collector_parent gateway_ns gateway section_name =
     \<lparr>ep_group = gateway_api_group, ep_kind = ''Gateway'', ep_namespace = gateway_ns, ep_name = gateway,
      ep_section = section_name\<rparr>"

text \<open>The part of \<^verbatim>\<open>Ensure\<close> that writes and then tests readiness.\<close>

definition deploy_otel_collector ::
    "env \<Rightarrow> url_lib \<Rightarrow> string \<Rightarrow> otel_collector_spec \<Rightarrow> string list \<Rightarrow> egress_target list \<Rightarrow> string \<Rightarrow>
     string \<Rightarrow> string \<Rightarrow> string \<Rightarrow> string \<Rightarrow> string \<Rightarrow> string \<times> string \<times> string \<Rightarrow> owner_reference \<Rightarrow>
     telemetry_outcome op" where
  "deploy_otel_collector env lib ns spec endpoints targets identity_hostname gateway_ns gateway img ca_image
       issuer_ref versions owner =
     (let (basic_auth, root_ca, api_key) = versions;
          issuer = ''https://'' @ identity_hostname @ ''/auth/realms/master'' in
      if ul_parse lib issuer = None
      then finish (degraded_outcome reason_reconcile_failed [] (Some (Msg (''parse '' @ quoted issuer))))
      else
     reconcile_step (ensure_config_map env ns es_config_map_name
         [(''otel-collector-config.yaml'', collector_config)] owner) (\<lambda>_.
     reconcile_step (collector_input_versions env ns basic_auth api_key root_ca) (\<lambda>annotations.
     reconcile_step (ensure_deployment env
         (collector_deployment ns spec img ca_image issuer (collector_effective_api_key (Some spec))
            (ul_encode lib endpoints) annotations) owner) (\<lambda>_.
     reconcile_step (delete_owned_resources env ns owner collector_legacy_inventory) (\<lambda>_.
     reconcile_step (ensure_service env (collector_service ns) owner) (\<lambda>_.
     reconcile_step (ensure_certificate env ns grpc_tls_cert_name grpc_tls_secret_name grpc_route_hostname
         [grpc_route_hostname] issuer_ref (Some owner)) (\<lambda>_.
     reconcile_step (ensure_certificate env ns cross_tenant_tls_cert_name cross_tenant_tls_secret_name
         cross_tenant_route_hostname [cross_tenant_route_hostname] issuer_ref (Some owner)) (\<lambda>_.
     reconcile_step (ensure_grpc_route env ns grpc_route_name gateway_ns gateway grpc_listener_name
         grpc_route_hostname es_service_name 4317 (Some owner)) (\<lambda>_.
     reconcile_step (ensure_http_route env ns es_http_route_name gateway_ns gateway cross_tenant_listener_name
         [cross_tenant_route_hostname] es_service_name 4318 (Some owner)) (\<lambda>_.
     reconcile_step (ensure_collector_policies env lib ns identity_hostname targets owner) (\<lambda>_.
     all_ready (map (is_certificate_ready env ns) [grpc_tls_cert_name, cross_tenant_tls_cert_name])
       reason_certificate_not_ready (
     all_ready
       [route_ready env ns grpc_route_name ''GRPCRoute'' (collector_parent gateway_ns gateway grpc_listener_name),
        route_ready env ns es_http_route_name ''HTTPRoute''
          (collector_parent gateway_ns gateway cross_tenant_listener_name)]
       reason_route_not_ready (
     all_ready [is_deployment_ready env ns es_deployment_name] reason_deployment_not_available (
     finish (ready_outcome ''OpenTelemetry Collector is ready'')))))))))))))))"

definition ensure_otel_collector ::
    "env \<Rightarrow> url_lib \<Rightarrow> (egress_target list \<Rightarrow> egress_target list) \<Rightarrow> string \<Rightarrow> otel_collector_spec option \<Rightarrow>
     string list \<Rightarrow> string \<Rightarrow> string \<Rightarrow> string \<Rightarrow> string \<Rightarrow> string \<Rightarrow> string \<Rightarrow> owner_reference \<Rightarrow>
     telemetry_outcome op" where
  "ensure_otel_collector env lib iteration ns spec_opt raw_endpoints identity_hostname gateway_ns gateway
       img ca_image issuer_ref owner =
     (case spec_opt of
        None \<Rightarrow> invalid_configuration ''otel collector configuration is required''
      | Some spec \<Rightarrow>
     if oc_replicas spec < 0 then invalid_configuration ''otel collector replicas must be at least one''
     else (case validate_dns_name identity_hostname ''identity hostname'' of
        Some e \<Rightarrow> invalid_configuration (err_text e)
      | None \<Rightarrow>
     (case validated_endpoints lib iteration raw_endpoints of
        Inl e \<Rightarrow> invalid_configuration (err_text e)
      | Inr (endpoints, targets) \<Rightarrow>
     prerequisite_step (required_secret_resource_version env ns (collector_effective_basic_auth spec_opt) ''htpasswd'')
       (\<lambda>basic_auth.
     prerequisite_step (required_secret_resource_version env ns (collector_effective_root_ca spec_opt) ''tls.crt'')
       (\<lambda>root_ca.
     prerequisite_step (required_secret_resource_version env ns (sel_name (collector_effective_api_key spec_opt))
         (sel_key (collector_effective_api_key spec_opt))) (\<lambda>api_key.
     if img = [] then invalid_configuration ''otel collector resolved image is required''
     else deploy_otel_collector env lib ns spec endpoints targets identity_hostname gateway_ns gateway img
            ca_image issuer_ref (basic_auth, root_ca, api_key) owner))))))"

definition ensure_edot_gateway ::
    "env \<Rightarrow> url_lib \<Rightarrow> (egress_target list \<Rightarrow> egress_target list) \<Rightarrow> string \<Rightarrow> edot_gateway_spec option \<Rightarrow>
     string list \<Rightarrow> string \<Rightarrow> string \<Rightarrow> bool \<Rightarrow> owner_reference \<Rightarrow> telemetry_outcome op" where
  "ensure_edot_gateway env lib iteration ns spec_opt raw_endpoints img ca_image telemetry_enabled owner =
     (case spec_opt of
        None \<Rightarrow> invalid_configuration ''edot gateway configuration is required''
      | Some spec \<Rightarrow>
     if eg_replicas spec < 0 then invalid_configuration ''edot gateway replicas must be at least one''
     else if img = [] then invalid_configuration ''edot gateway resolved image is required''
     else (case validated_endpoints lib iteration raw_endpoints of
        Inl e \<Rightarrow> invalid_configuration (err_text e)
      | Inr (endpoints, targets) \<Rightarrow>
     reconcile_step (ensure_edot_ingress_policy env ns telemetry_enabled owner) (\<lambda>_.
     prerequisite_step (required_secret_resource_version env ns (sel_name (gateway_effective_api_key spec_opt))
         (sel_key (gateway_effective_api_key spec_opt))) (\<lambda>api_key.
     prerequisite_step (required_secret_resource_version env ns (gateway_effective_root_ca spec_opt) ''tls.crt'')
       (\<lambda>root_ca.
     reconcile_step (ensure_config_map env ns edot_config_map_name
         [(''edot-gateway-config.yaml'', edot_gateway_config)] owner) (\<lambda>_.
     reconcile_step (edot_gateway_input_versions env ns api_key root_ca) (\<lambda>annotations.
     reconcile_step (ensure_deployment env
         (edot_gateway_deployment ns spec img ca_image (ul_encode lib endpoints) annotations) owner) (\<lambda>_.
     reconcile_step (delete_owned_resources env ns owner edot_gateway_legacy_inventory) (\<lambda>_.
     reconcile_step (ensure_service env (telemetry_service ns edot_service_name edot_app_label) owner) (\<lambda>_.
     reconcile_step (ensure_edot_egress_policy env lib ns targets owner) (\<lambda>_.
     all_ready [is_deployment_ready env ns edot_deployment_name] reason_deployment_not_available (
     finish (ready_outcome ''EDOT Gateway is ready'')))))))))))))"

section \<open>Endpoints: what is accepted\<close>

definition endpoint_key :: "egress_target \<Rightarrow> string" where
  "endpoint_key t = fst t @ '':'' @ snd t"

lemma collect_targets_eq:
  "collect_targets lib urls unique =
     (case map (endpoint_target lib) urls of rs \<Rightarrow>
        if list_all (\<lambda>r. \<not> isl r) rs
        then Inr (fold (\<lambda>t. AList.update (endpoint_key t) t) (map projr rs) unique)
        else Inl (projl (the (find isl rs))))"
  by (induction urls arbitrary: unique) (auto simp: endpoint_key_def split: sum.splits prod.splits)

definition endpoints_ok :: "url_lib \<Rightarrow> string list \<Rightarrow> bool" where
  "endpoints_ok lib urls \<longleftrightarrow> urls \<noteq> [] \<and> (\<forall>v \<in> set urls. \<not> isl (endpoint_target lib v))"

lemma validated_endpoints_Inr:
  "(\<exists>r. validated_endpoints lib iteration urls = Inr r) \<longleftrightarrow> endpoints_ok lib urls"
  by (simp add: validated_endpoints_def endpoints_ok_def collect_targets_eq list_all_iff split: sum.split)

lemma fold_update_entries:
  "set (fold (\<lambda>t. AList.update (endpoint_key t) t) ts unique) \<subseteq>
     set unique \<union> (\<lambda>t. (endpoint_key t, t)) ` set ts"
proof (induction ts arbitrary: unique)
  case (Cons t ts)
  have "set (AList.update (endpoint_key t) t unique) \<subseteq> set unique \<union> {(endpoint_key t, t)}"
    by (induction unique) auto
  with Cons.IH [of "AList.update (endpoint_key t) t unique"] show ?case by auto
qed simp

lemma fold_update_keys:
  "distinct (keys_of unique) \<Longrightarrow>
   distinct (keys_of (fold (\<lambda>t. AList.update (endpoint_key t) t) ts unique)) \<and>
   set (keys_of (fold (\<lambda>t. AList.update (endpoint_key t) t) ts unique)) =
     set (keys_of unique) \<union> endpoint_key ` set ts"
  by (induction ts arbitrary: unique) (simp_all add: distinct_update dom_update)

text \<open>A port has no colon, so the key tells the host and the port apart.\<close>

lemma digits_no_colon: "list_all is_digit s \<Longrightarrow> CHR '':'' \<notin> set s"
  by (auto simp: list_all_iff is_digit_def)

lemma atoi_no_colon: "atoi s = Some n \<Longrightarrow> CHR '':'' \<notin> set s"
  by (cases s) (auto simp: atoi_def Let_def is_digit_def dest!: digits_no_colon split: if_splits)

lemma endpoint_target_port:
  "endpoint_target lib v = Inr t \<Longrightarrow> CHR '':'' \<notin> set (snd t)"
  by (auto simp: endpoint_target_def dest: atoi_no_colon split: option.splits if_splits)

lemma append_separator_eq:
  "xs @ c # ys = xs' @ c # ys' \<Longrightarrow> c \<notin> set xs \<Longrightarrow> c \<notin> set xs' \<Longrightarrow> xs = xs' \<and> ys = ys'"
proof (induction xs arbitrary: xs')
  case Nil
  then show ?case by (cases xs') auto
next
  case (Cons x xs)
  then show ?case by (cases xs') auto
qed

lemma append_colon_eq:
  assumes "h @ '':'' @ p = h' @ '':'' @ p'" and "CHR '':'' \<notin> set p" and "CHR '':'' \<notin> set p'"
  shows "h = h' \<and> p = p'"
proof -
  have "rev p @ CHR '':'' # rev h = rev p' @ CHR '':'' # rev h'"
    using arg_cong [OF assms(1), of rev] by simp
  then show ?thesis using append_separator_eq [of "rev p" _ "rev h" "rev p'" "rev h'"] assms(2,3) by simp
qed

lemma endpoint_key_inj:
  "endpoint_key t = endpoint_key t' \<Longrightarrow> CHR '':'' \<notin> set (snd t) \<Longrightarrow> CHR '':'' \<notin> set (snd t') \<Longrightarrow> t = t'"
  unfolding endpoint_key_def using append_colon_eq [of "fst t" "snd t" "fst t'" "snd t'"] by (simp add: prod_eq_iff)

definition endpoint_targets :: "url_lib \<Rightarrow> string list \<Rightarrow> egress_target set" where
  "endpoint_targets lib urls = {t. \<exists>v \<in> set urls. endpoint_target lib v = Inr t}"

lemma collected_targets:
  assumes ok: "collect_targets lib urls [] = Inr unique"
  shows "distinct (map snd unique) \<and> set (map snd unique) = endpoint_targets lib urls"
proof -
  define ts where "ts = map projr (map (endpoint_target lib) urls)"
  from ok have all: "\<forall>v \<in> set urls. \<not> isl (endpoint_target lib v)"
    and u: "unique = fold (\<lambda>t. AList.update (endpoint_key t) t) ts []"
    by (auto simp: collect_targets_eq list_all_iff ts_def split: if_splits)
  have ts: "set ts = endpoint_targets lib urls"
    using all by (force simp: ts_def endpoint_targets_def isl_def image_iff)
  have keyed: "k = endpoint_key t \<and> t \<in> set ts" if "(k, t) \<in> set unique" for k t
    using fold_update_entries [of ts "[]"] that u by auto
  have keys: "distinct (keys_of unique)" "set (keys_of unique) = endpoint_key ` set ts"
    using fold_update_keys [of "[]" ts] u by simp_all
  have no_colon: "CHR '':'' \<notin> set (snd t)" if "t \<in> set ts" for t
    using that ts by (auto simp: endpoint_targets_def dest: endpoint_target_port)
  have "keys_of unique = map endpoint_key (map snd unique)" using keyed by auto
  with keys(1) have "distinct (map snd unique)" by (metis distinct_map)
  moreover have "set (map snd unique) = set ts"
  proof
    show "set (map snd unique) \<subseteq> set ts" using keyed by auto
    show "set ts \<subseteq> set (map snd unique)"
    proof
      fix t assume t: "t \<in> set ts"
      then have "endpoint_key t \<in> set (keys_of unique)" using keys(2) by simp
      then obtain t' where t': "(endpoint_key t, t') \<in> set unique" by auto
      then have "endpoint_key t = endpoint_key t'" "t' \<in> set ts" using keyed by auto
      then have "t = t'" using endpoint_key_inj no_colon t by blast
      with t' show "t \<in> set (map snd unique)" by force
    qed
  qed
  ultimately show ?thesis using ts by simp
qed

text \<open>
  Endpoint validation succeeds exactly when there is an endpoint and each of them has
  the https scheme, a host that is an IP address or a DNS name, no user, query or fragment,
  and no port or one between 1 and 65535.
\<close>

theorem validated_endpoints_succeeds_iff:
  "(\<exists>r. validated_endpoints lib iteration urls = Inr r) \<longleftrightarrow>
     urls \<noteq> [] \<and>
     list_all (\<lambda>v. \<exists>u. ul_parse lib v = Some u \<and> pu_scheme u = ''https'' \<and> pu_hostname u \<noteq> [] \<and>
        \<not> pu_has_user u \<and> pu_raw_query u = [] \<and> pu_fragment u = [] \<and>
        (ul_is_ip lib (pu_hostname u) \<or> validate_dns_name (pu_hostname u) ''host'' = None) \<and>
        (pu_port u = [] \<or> (\<exists>n. atoi (pu_port u) = Some n \<and> 1 \<le> n \<and> n \<le> 65535))) urls"
proof -
  have eq: "\<not> isl (endpoint_target lib v) \<longleftrightarrow>
     (\<exists>u. ul_parse lib v = Some u \<and> pu_scheme u = ''https'' \<and> pu_hostname u \<noteq> [] \<and>
        \<not> pu_has_user u \<and> pu_raw_query u = [] \<and> pu_fragment u = [] \<and>
        (ul_is_ip lib (pu_hostname u) \<or> validate_dns_name (pu_hostname u) ''host'' = None) \<and>
        (pu_port u = [] \<or> (\<exists>n. atoi (pu_port u) = Some n \<and> 1 \<le> n \<and> n \<le> 65535)))" for v
    by (auto simp: endpoint_target_def is_supported_endpoint_host_def split: option.splits)
  show ?thesis unfolding validated_endpoints_Inr endpoints_ok_def list_all_iff by (simp only: eq)
qed

text \<open>
  C35. The computed targets are exactly the host and port pairs of the endpoints (port 443
  where none is given), each once, sorted by the text of the pair. They do not depend on
  the order in which the runtime iterates over the map of targets, provided no two of
  them have the same text.
\<close>

theorem validated_endpoints_targets:
  assumes "\<And>xs. mset (iteration xs) = mset xs"
    and "validated_endpoints lib iteration urls = Inr (endpoints, targets)"
    and "inj_on target_sort_key (endpoint_targets lib urls)"
  shows "endpoints = urls \<and> distinct targets \<and> set targets = endpoint_targets lib urls \<and>
    sorted (map target_sort_key targets) \<and>
    (\<forall>order. (\<forall>xs. mset (order xs) = mset xs) \<longrightarrow>
       validated_endpoints lib order urls = Inr (endpoints, targets))"
proof -
  from assms(2) obtain unique where u: "collect_targets lib urls [] = Inr unique"
    and r: "endpoints = urls" "targets = sort_key target_sort_key (iteration (map snd unique))"
    and ne: "urls \<noteq> []"
    by (auto simp: validated_endpoints_def split: if_splits sum.splits)
  note c = collected_targets [OF u]
  have perm: "distinct (sort_key target_sort_key (order (map snd unique))) \<and>
      set (sort_key target_sort_key (order (map snd unique))) = endpoint_targets lib urls \<and>
      sorted (map target_sort_key (sort_key target_sort_key (order (map snd unique))))"
    if "\<forall>xs. mset (order xs) = mset xs" for order
    using that c by (metis distinct_sort mset_eq_imp_distinct_iff set_mset_mset set_sort sorted_sort_key)
  have uniq: "xs = ys" if "distinct xs" "distinct ys" "set xs = endpoint_targets lib urls" "set ys = set xs"
      "sorted (map target_sort_key xs)" "sorted (map target_sort_key ys)" for xs ys
  proof -
    have inj: "inj_on target_sort_key (set xs \<union> set ys)" using assms(3) that by simp
    then have "distinct (map target_sort_key xs)" "distinct (map target_sort_key ys)"
      using that by (simp_all add: distinct_map inj_on_Un)
    with that have "map target_sort_key xs = map target_sort_key ys"
      by (intro sorted_distinct_set_unique) simp_all
    with inj show ?thesis by (rule map_inj_on [rotated])
  qed
  have "validated_endpoints lib order urls = Inr (endpoints, targets)"
    if "\<forall>xs. mset (order xs) = mset xs" for order
  proof -
    have "sort_key target_sort_key (order (map snd unique)) = targets"
      unfolding r by (rule uniq) (use perm [OF that] perm [of iteration] assms(1) in auto)
    with u ne r show ?thesis by (simp add: validated_endpoints_def)
  qed
  with r perm [of iteration] assms(1) show ?thesis by blast
qed

definition sample_url :: "string \<Rightarrow> string \<Rightarrow> parsed_url" where
  "sample_url host port =
     \<lparr>pu_scheme = ''https'', pu_host = host @ '':'' @ port, pu_hostname = host, pu_port = port,
      pu_has_user = False, pu_raw_query = [], pu_fragment = []\<rparr>"

definition sample_url_lib :: url_lib where
  "sample_url_lib =
     \<lparr>ul_parse = (\<lambda>v. if v = ''https://10.0.0.11:443'' then Some (sample_url ''10.0.0.11'' ''443'')
                 else if v = ''https://10.0.0.1:1443'' then Some (sample_url ''10.0.0.1'' ''1443'')
                 else None),
      ul_is_ip = (\<lambda>h. h \<in> {''10.0.0.11'', ''10.0.0.1''}), ul_is_ip4 = (\<lambda>h. True),
      ul_encode = (\<lambda>xs. concat xs)\<rparr>"

lemma sample_targets:
  "endpoint_target sample_url_lib ''https://10.0.0.11:443'' = Inr (''10.0.0.11'', ''443'')"
  "endpoint_target sample_url_lib ''https://10.0.0.1:1443'' = Inr (''10.0.0.1'', ''1443'')"
  by (simp_all add: endpoint_target_def sample_url_lib_def sample_url_def is_supported_endpoint_host_def
      atoi_def is_digit_def decimal_value_def digit_value_def min_int64_def max_int64_def Let_def)

theorem validated_endpoints_targets_witness:
  "validated_endpoints sample_url_lib id [''https://10.0.0.11:443''] =
     Inr ([''https://10.0.0.11:443''], [(''10.0.0.11'', ''443'')]) \<and>
   set [(''10.0.0.11'', ''443'')] = endpoint_targets sample_url_lib [''https://10.0.0.11:443'']"
proof -
  have r: "validated_endpoints sample_url_lib id [''https://10.0.0.11:443''] =
     Inr ([''https://10.0.0.11:443''], [(''10.0.0.11'', ''443'')])"
    by (simp add: validated_endpoints_def sample_targets)
  have "inj_on target_sort_key (endpoint_targets sample_url_lib [''https://10.0.0.11:443''])"
    by (simp add: endpoint_targets_def sample_targets inj_on_def)
  from validated_endpoints_targets [OF _ r this] r show ?thesis by simp
qed

text \<open>
  The proviso is needed: the sort key is the host and the port without a separator, so
  two different targets can compare equal, and then the order of the rules written to
  the egress policy is the one in which the runtime happens to iterate over the map.
\<close>

theorem validated_endpoints_order_dependent:
  "\<exists>lib urls order targets targets'. (\<forall>xs. mset (order xs) = mset xs) \<and>
     validated_endpoints lib id urls = Inr (urls, targets) \<and>
     validated_endpoints lib order urls = Inr (urls, targets') \<and>
     edot_gateway_egress_policy lib targets \<noteq> edot_gateway_egress_policy lib targets'"
proof -
  let ?urls = "[''https://10.0.0.11:443'', ''https://10.0.0.1:1443'']"
  have u: "collect_targets sample_url_lib ?urls [] =
      Inr [(''10.0.0.11:443'', (''10.0.0.11'', ''443'')), (''10.0.0.1:1443'', (''10.0.0.1'', ''1443''))]"
    by (simp add: sample_targets)
  have "validated_endpoints sample_url_lib id ?urls =
      Inr (?urls, [(''10.0.0.11'', ''443''), (''10.0.0.1'', ''1443'')])"
    "validated_endpoints sample_url_lib rev ?urls =
      Inr (?urls, [(''10.0.0.1'', ''1443''), (''10.0.0.11'', ''443'')])"
    by (simp_all only: validated_endpoints_def u sum.case list.distinct if_False)
      (simp_all add: target_sort_key_def)
  moreover have "edot_gateway_egress_policy sample_url_lib [(''10.0.0.11'', ''443''), (''10.0.0.1'', ''1443'')] \<noteq>
      edot_gateway_egress_policy sample_url_lib [(''10.0.0.1'', ''1443''), (''10.0.0.11'', ''443'')]"
    by (simp add: edot_gateway_egress_policy_def target_egress_def sample_url_lib_def cidr_egress_def
        host_cidr_def)
  ultimately show ?thesis by (intro exI [of _ sample_url_lib] exI [of _ ?urls] exI [of _ rev]) auto
qed

section \<open>What the components write\<close>

text \<open>
  The writes of a component that works for \<open>owner\<close>: it creates objects with that sole owner,
  updates objects the owner controls, and deletes only objects of the inventory.
\<close>

fun owned_call :: "owner_reference \<Rightarrow> managed_resource list \<Rightarrow> call \<Rightarrow> bool" where
  "owned_call owner inventory (K8sCreate ob) = (owners_of ob = [owner])"
| "owned_call owner inventory (K8sUpdate ob) = managed_by owner ob"
| "owned_call owner inventory (K8sDelete k ns n) = ((k, n) \<in> set inventory)"
| "owned_call owner inventory c = (\<not> is_write c)"

lemma emits_apply_only:
  assumes "od_owner obj = Some owner"
  shows "emits (owned_call owner inventory) (apply_only env obj)"
proof -
  have "apply_call obj c \<Longrightarrow> owned_call owner inventory c" for c
    using assms by (cases c) (auto simp: created_object_def admitted_def)
  then show ?thesis unfolding apply_only_def
    by (intro emits_intros emits_mono [OF emits_apply_object])
qed

lemma owned_write_owned_call: "owned_write k owner c \<Longrightarrow> owned_call owner inventory c"
  by (cases c) (auto simp: owned_write_def)

lemma emits_reconcile_step [emits_intros]:
  "emits P m \<Longrightarrow> (\<And>x. emits P (k x)) \<Longrightarrow> emits P (reconcile_step m k)"
  unfolding reconcile_step_def finish_def by (intro emits_intros)

lemma emits_prerequisite_step [emits_intros]:
  "emits P m \<Longrightarrow> (\<And>x. emits P (k x)) \<Longrightarrow> emits P (prerequisite_step m k)"
  unfolding prerequisite_step_def finish_def by (intro emits_intros)

lemma emits_finish [emits_intros]: "emits P (finish out)"
  unfolding finish_def by (intro emits_intros)

lemma emits_invalid_configuration [emits_intros]: "emits P (invalid_configuration m)"
  unfolding invalid_configuration_def by (intro emits_intros)

lemma emits_all_ready [emits_intros]:
  "\<forall>m \<in> set ms. emits P m \<Longrightarrow> emits P k \<Longrightarrow> emits P (all_ready ms reason k)"
  by (induction ms) (auto intro!: emits_intros)

text \<open>
  The contract between the telemetry components and the helpers they write through: whatever
  holds of the calls of the helpers, of every read and of the deletions of the inventory, holds
  of all calls of the components.
\<close>

definition telemetry_kinds :: "gvk set" where
  "telemetry_kinds = {certificate_gvk, http_route_gvk, grpc_route_gvk, cilium_network_policy_gvk}"

locale resource_writer =
  fixes env :: env and owner :: owner_reference and inventory :: "managed_resource list" and P :: "call \<Rightarrow> bool"
  assumes reads: "k \<in> telemetry_kinds \<union> {secret_gvk, config_map_gvk, deployment_gvk} \<Longrightarrow> P (K8sGet k ns n)"
    and applies: "od_owner obj = Some owner \<Longrightarrow> od_gvk obj \<in> telemetry_kinds \<Longrightarrow> emits P (apply_only env obj)"
    and config_maps: "emits P (ensure_config_map env ns name data owner)"
    and deployments: "ob_gvk desired = deployment_gvk \<Longrightarrow> emits P (ensure_deployment env desired owner)"
    and services: "ob_gvk desired = service_gvk \<Longrightarrow> emits P (ensure_service env desired owner)"
    and deletes: "(k, n) \<in> set inventory \<Longrightarrow> P (K8sGet k ns n) \<and> P (K8sDelete k ns n)"
begin

lemma lookups:
  "emits P (required_secret_resource_version env ns name key)"
  "emits P (collector_input_versions env ns basic_auth api_key root_ca)"
  "emits P (edot_gateway_input_versions env ns api_key root_ca)"
  "gvk_of gateway_api_group ''v1'' kind \<in> telemetry_kinds \<Longrightarrow> emits P (route_ready env ns route kind expected)"
  "emits P (is_certificate_ready env ns name)"
  "emits P (is_deployment_ready env ns name)"
  unfolding required_secret_resource_version_def collector_input_versions_def edot_gateway_input_versions_def
    config_map_resource_version_def route_ready_def is_certificate_ready_def is_deployment_ready_def k8s_get_def
  by (intro emits_intros reads; simp add: telemetry_kinds_def)+

lemma route_kinds:
  "gvk_of gateway_api_group ''v1'' ''GRPCRoute'' \<in> telemetry_kinds"
  "gvk_of gateway_api_group ''v1'' ''HTTPRoute'' \<in> telemetry_kinds"
  by (simp_all add: telemetry_kinds_def http_route_gvk_def grpc_route_gvk_def)

lemma applied:
  "emits P (ensure_certificate env ns name sn cn dns issuer (Some owner))"
  "emits P (ensure_grpc_route env ns name gns g sec h svc port (Some owner))"
  "emits P (ensure_http_route env ns name gns g sec hs svc port (Some owner))"
  "emits P (ensure_collector_policies env lib ns host targets owner)"
  "emits P (ensure_edot_ingress_policy env ns b owner)"
  "emits P (ensure_edot_egress_policy env lib ns targets owner)"
  unfolding ensure_certificate_def ensure_grpc_route_def ensure_http_route_def ensure_http_route_spec_def
    ensure_collector_policies_def ensure_edot_ingress_policy_def ensure_edot_egress_policy_def
  by (intro emits_intros applies; simp add: cilium_policy_def telemetry_kinds_def)+

lemma retires:
  "set known \<subseteq> set inventory \<Longrightarrow> emits P (delete_owned_resources env ns owner known)"
  unfolding delete_owned_resources_def delete_owned_resource_def k8s_get_def k8s_delete_def
  by (intro emits_intros conjunct1 [OF deletes] conjunct2 [OF deletes]) auto

lemma deploys:
  assumes "set collector_legacy_inventory \<subseteq> set inventory"
  shows "emits P (deploy_otel_collector env lib ns spec endpoints targets host gns g img ca iss versions owner)"
  unfolding deploy_otel_collector_def
  by (intro emits_intros config_maps deployments services retires [OF assms] lookups applied)
    (auto simp: collector_deployment_def collector_service_def telemetry_service_def route_kinds
      intro!: emits_intros lookups)

lemma ensures:
  "set collector_legacy_inventory \<subseteq> set inventory \<Longrightarrow>
     emits P (ensure_otel_collector env lib iteration ns collector_spec urls host gns g img ca iss owner)"
  "set edot_gateway_legacy_inventory \<subseteq> set inventory \<Longrightarrow>
     emits P (ensure_edot_gateway env lib iteration ns gateway_spec urls img ca enabled owner)"
  unfolding ensure_otel_collector_def ensure_edot_gateway_def
  by (intro emits_intros config_maps deployments services retires deploys lookups applied;
      auto simp: edot_gateway_deployment_def telemetry_service_def
        intro!: emits_intros lookups)+

lemma removes:
  "set (collector_resource_inventory @ collector_legacy_inventory) \<subseteq> set inventory \<Longrightarrow>
     emits P (delete_otel_collector env ns owner)"
  "set (edot_gateway_resource_inventory @ edot_gateway_legacy_inventory) \<subseteq> set inventory \<Longrightarrow>
     emits P (delete_edot_gateway env ns owner)"
  unfolding delete_otel_collector_def delete_edot_gateway_def by (erule retires)+

end

interpretation owned_writer: resource_writer env owner inventory "owned_call owner inventory"
  for env owner inventory
  by unfold_locales
    (auto intro: emits_apply_only emits_mono [OF emits_ensure_config_map owned_write_owned_call]
      emits_mono [OF emits_ensure_deployment owned_write_owned_call]
      emits_mono [OF emits_ensure_service owned_write_owned_call])

text \<open>
  Ensuring a telemetry component, whatever the cluster answers, creates only objects
  owned by the NetEye it works for, updates only objects that NetEye controls, and deletes
  nothing but the retired ConfigMap of that component.
\<close>

theorem telemetry_ensure_writes_owned:
  "emits (owned_call owner collector_legacy_inventory)
     (ensure_otel_collector env lib iteration ns collector_spec urls host gns g img ca iss owner) \<and>
   emits (owned_call owner edot_gateway_legacy_inventory)
     (ensure_edot_gateway env lib iteration ns gateway_spec urls img ca enabled owner)"
  by (intro conjI owned_writer.ensures subset_refl)

section \<open>What the components report\<close>

lemma returns_finish [returns_intros]: "Q out \<Longrightarrow> returns Q (finish out)"
  unfolding finish_def by (intro returns_intros)

lemma returns_reconcile_step [returns_intros]:
  "(\<And>x. returns wf_outcome (k x)) \<Longrightarrow> returns wf_outcome (reconcile_step m k)"
  unfolding reconcile_step_def by (intro returns_intros) simp_all

lemma returns_prerequisite_step [returns_intros]:
  "(\<And>x. returns wf_outcome (k x)) \<Longrightarrow> returns wf_outcome (prerequisite_step m k)"
  unfolding prerequisite_step_def by (intro returns_intros) simp_all

lemma returns_invalid_configuration [returns_intros]: "returns wf_outcome (invalid_configuration m)"
  unfolding invalid_configuration_def by (intro returns_intros) simp

lemma returns_all_ready [returns_intros]: "returns wf_outcome k \<Longrightarrow> returns wf_outcome (all_ready ms reason k)"
  by (induction ms) (auto intro!: returns_intros)

lemma ensure_otel_collector_wf:
  "returns wf_outcome (ensure_otel_collector env lib iteration ns spec urls host gns g img ca iss owner)"
  unfolding ensure_otel_collector_def deploy_otel_collector_def
  by (intro returns_intros) simp_all

lemma ensure_edot_gateway_wf:
  "returns wf_outcome (ensure_edot_gateway env lib iteration ns spec urls img ca enabled owner)"
  unfolding ensure_edot_gateway_def by (intro returns_intros) simp_all

text \<open>What a ready outcome means for the steps that led to it.\<close>

lemma reconcile_step_ready:
  assumes "run_state (reconcile_step m k) s = (out, s')" and "to_phase out = TelReady"
  obtains x t where "run_state m s = (Inr x, t)" and "run_state (k x) t = (out, s')"
  using assms by (auto simp: reconcile_step_def finish_def split: prod.splits sum.splits)

lemma prerequisite_step_ready:
  assumes "run_state (prerequisite_step m k) s = (out, s')" and "to_phase out = TelReady"
  obtains x t where "run_state m s = (Inr x, t)" and "run_state (k x) t = (out, s')"
  using assms by (auto simp: prerequisite_step_def finish_def split: prod.splits sum.splits)

text \<open>The last tests of a component, and that the calls before them are kept.\<close>

definition appends :: "'a op \<Rightarrow> bool" where
  "appends m \<longleftrightarrow> emits (\<lambda>_. True) m"

definition deployment_ready_at :: "env \<Rightarrow> string \<Rightarrow> string \<Rightarrow> trace \<Rightarrow> bool" where
  "deployment_ready_at env ns name t \<longleftrightarrow>
     (\<exists>ob. was_read env t deployment_gvk ns name ob \<and> \<not> deployment_behind ob)"

lemma deployment_test_ready:
  assumes "run_state (all_ready [is_deployment_ready env ns name] reason (finish out0)) s = (out, s')"
    and "to_phase out = TelReady"
  shows "deployment_ready_at env ns name (st_trace s')"
proof -
  from assms obtain r m t where m: "run_state (is_deployment_ready env ns name) s = (Inr (r, m), t)"
    and k: "run_state (if \<not> r then finish (progressing_outcome reason m)
              else all_ready [] reason (finish out0)) t = (out, s')"
    by (auto elim!: reconcile_step_ready)
  from k assms(2) have r: "r" and t: "s' = t" by (auto simp: finish_def split: if_splits)
  from m r obtain ob where "env_get env (st_trace s) deployment_gvk ns name = Inr ob"
      "\<not> deployment_behind ob" "st_trace t = st_trace s @ [K8sGet deployment_gvk ns name]"
    by (auto simp: is_deployment_ready_def k8s_get_def split: sum.splits if_splits)
  with t show ?thesis using was_read_last [of env "st_trace s" deployment_gvk ns name ob]
    by (auto simp: deployment_ready_at_def)
qed

lemma all_ready_ready:
  assumes "run_state (all_ready ms reason k) s = (out, s')" and "to_phase out = TelReady"
  shows "\<exists>t. run_state k t = (out, s')"
  using assms
proof (induction ms arbitrary: s)
  case (Cons m ms)
  then show ?case
    by (auto elim!: reconcile_step_ready simp: finish_def split: if_splits)
qed auto

text \<open>
  A telemetry component reports Ready only with a configuration, an image and valid
  endpoints, and only after it has read its Deployment and found that the controller of
  the Deployment observed the current generation with all replicas ready and updated.
\<close>

theorem telemetry_ready_sound:
  assumes "run_state (ensure_edot_gateway env lib iteration ns spec urls img ca enabled owner) s = (out, s')"
    and "to_phase out = TelReady"
  shows "spec \<noteq> None \<and> img \<noteq> [] \<and> endpoints_ok lib urls \<and> to_err out = None \<and>
    (\<exists>ob. was_read env (st_trace s') deployment_gvk ns edot_deployment_name ob \<and> \<not> deployment_behind ob)"
proof -
  have wf: "wf_outcome out" using ensure_edot_gateway_wf assms(1) by (rule returnsD)
  obtain c where c: "spec = Some c"
    using assms by (cases spec) (auto simp: ensure_edot_gateway_def invalid_configuration_def finish_def)
  have img: "img \<noteq> []" and r0: "0 \<le> eg_replicas c"
    using assms c by (auto simp: ensure_edot_gateway_def invalid_configuration_def finish_def split: if_splits)
  obtain endpoints targets where v: "validated_endpoints lib iteration urls = Inr (endpoints, targets)"
    using assms c img r0
    by (cases "validated_endpoints lib iteration urls")
      (auto simp: ensure_edot_gateway_def invalid_configuration_def finish_def)
  note run = assms(1) [unfolded ensure_edot_gateway_def c option.case v sum.case prod.case]
  have "\<exists>t. run_state (all_ready [is_deployment_ready env ns edot_deployment_name] reason_deployment_not_available
      (finish (ready_outcome ''EDOT Gateway is ready''))) t = (out, s')"
    using run img r0 assms(2)
    by (auto elim!: reconcile_step_ready prerequisite_step_ready simp del: all_ready.simps split: if_splits)
  then obtain t where "run_state (all_ready [is_deployment_ready env ns edot_deployment_name]
      reason_deployment_not_available (finish (ready_outcome ''EDOT Gateway is ready''))) t = (out, s')" ..
  then have "deployment_ready_at env ns edot_deployment_name (st_trace s')"
    using assms(2) by (rule deployment_test_ready)
  with wf c img v assms(2) validated_endpoints_Inr [of lib iteration urls] show ?thesis
    by (auto simp: wf_outcome_def deployment_ready_at_def)
qed

section \<open>A cluster that cooperates\<close>

text \<open>
  Every object that is asked for exists, is controlled by \<open>owner\<close>, and every write is
  accepted; the Secrets hold the wanted keys and the Deployments are up to date.
\<close>

definition cooperative :: "env \<Rightarrow> owner_reference \<Rightarrow> bool" where
  "cooperative env owner \<longleftrightarrow>
     (\<forall>t k ns n. \<exists>ob. env_get env t k ns n = Inr ob \<and> managed_by owner ob) \<and>
     (\<forall>t ob. \<not> isl (env_update env t ob)) \<and> (\<forall>t k ns n. env_delete env t k ns n = None)"

definition succeeds :: "'a fallible \<Rightarrow> bool" where
  "succeeds m \<longleftrightarrow> (\<forall>s. \<exists>x s'. run_state m s = (Inr x, s'))"

lemma succeedsE: assumes "succeeds m" obtains x s' where "run_state m s = (Inr x, s')"
  using assms unfolding succeeds_def by blast

lemma succeeds_try_ok: "succeeds m \<Longrightarrow> (\<And>x. succeeds (k x)) \<Longrightarrow> succeeds (try_ok m k)"
  unfolding succeeds_def by (simp split: prod.split sum.split) (metis prod.inject sum.inject(2) sum.distinct(1))

lemma succeeds_ok [simp]: "succeeds (ok x)"
  by (simp add: succeeds_def)

lemma succeeds_update: "cooperative env owner \<Longrightarrow> succeeds (k8s_update env ob)"
  by (auto simp: succeeds_def k8s_update_def cooperative_def isl_def sum.exhaust_sel)
    (metis isl_def sum.exhaust)

lemma succeeds_delete: "cooperative env owner \<Longrightarrow> succeeds (ignore_not_found (k8s_delete env k ns n))"
  by (simp add: succeeds_def k8s_delete_def cooperative_def ignore_not_found_def)

text \<open>A read that only continues with objects the owner controls.\<close>

lemma succeeds_read:
  assumes "cooperative env owner" and "\<And>ob. managed_by owner ob \<Longrightarrow> succeeds (k ob)"
  shows "succeeds (attempt (k8s_get env g ns n) h k)" and "succeeds (try_ok (k8s_get env g ns n) k)"
proof -
  have "\<exists>x s'. run_state (attempt (k8s_get env g ns n) h k) s = (Inr x, s')" for h s
  proof -
    obtain ob where "env_get env (st_trace s) g ns n = Inr ob" "managed_by owner ob"
      using assms(1) unfolding cooperative_def by blast
    with assms(2) [OF this(2)] show ?thesis by (simp add: k8s_get_def succeeds_def)
  qed
  then show "succeeds (attempt (k8s_get env g ns n) h k)" "succeeds (try_ok (k8s_get env g ns n) k)"
    by (simp_all add: succeeds_def try_ok_def del: run_attempt)
qed

lemma succeeds_retry: "succeeds m \<Longrightarrow> succeeds (retry_on_conflict n m)"
proof (cases n)
  case (Suc k)
  assume m: "succeeds m"
  show ?thesis unfolding succeeds_def
  proof
    fix s :: op_state obtain x s' where "run_state m s = (Inr x, s')" using m by (rule succeedsE)
    with Suc show "\<exists>x s'. run_state (retry_on_conflict n m) s = (Inr x, s')" by simp
  qed
qed simp

lemma succeeds_apply:
  assumes c: "cooperative env owner" and o: "od_owner obj = Some owner"
  shows "succeeds (apply_only env obj)"
proof -
  have adm: "managed_by owner live \<Longrightarrow> admitted obj live" for live using o by (simp add: admitted_def)
  have "succeeds (reconcile_once env obj)"
    unfolding reconcile_once_def get_object_def
    by (rule succeeds_read(2) [OF c]) (use adm in \<open>auto intro!: succeeds_try_ok succeeds_update [OF c]\<close>)
  then have "succeeds (reconcile_existing env obj)"
    unfolding reconcile_existing_eq by (rule succeeds_retry)
  then show ?thesis unfolding apply_only_def apply_object_def get_object_def
    by (intro succeeds_try_ok succeeds_read(1) [OF c]) auto
qed

lemma succeeds_typed:
  assumes c: "cooperative env owner"
  shows "succeeds (ensure_config_map env ns name data owner)"
    and "succeeds (ensure_deployment env desired owner)"
    and "succeeds (ensure_service env service owner)"
  unfolding ensure_config_map_def ensure_deployment_def ensure_service_def
  by (rule succeeds_read(1) [OF c],
      auto simp: set_controller_owner_reference_eq Let_def intro!: succeeds_try_ok succeeds_update [OF c])+

lemma succeeds_delete_owned: "cooperative env owner \<Longrightarrow> succeeds (delete_owned_resources env ns owner inventory)"
proof -
  assume c: "cooperative env owner"
  have "succeeds (delete_owned_resource env ns owner r)" for r
    unfolding delete_owned_resource_def
    by (rule succeeds_read(1) [OF c]) (auto intro!: succeeds_delete [OF c])
  then show ?thesis unfolding delete_owned_resources_def
    by (induction inventory) (auto intro!: succeeds_try_ok)
qed

definition secrets_present :: "env \<Rightarrow> string \<Rightarrow> string \<Rightarrow> string \<Rightarrow> bool" where
  "secrets_present env ns name key \<longleftrightarrow>
     validate_dns_name name ''Secret name'' = None \<and> key \<noteq> [] \<and> trim_space key = key \<and> \<not> has_blank key \<and>
     (\<forall>t ob. env_get env t secret_gvk ns name = Inr ob \<longrightarrow> secret_value ob key \<noteq> [])"

lemma succeeds_secret:
  assumes c: "cooperative env owner" and p: "secrets_present env ns name key"
  shows "succeeds (required_secret_resource_version env ns name key)"
  unfolding succeeds_def
proof
  fix s :: op_state
  obtain ob where "env_get env (st_trace s) secret_gvk ns name = Inr ob"
    using c unfolding cooperative_def by blast
  with p show "\<exists>x s'. run_state (required_secret_resource_version env ns name key) s = (Inr x, s')"
    by (auto simp: required_secret_resource_version_def secrets_present_def k8s_get_def)
qed

definition deployments_current :: "env \<Rightarrow> string \<Rightarrow> string \<Rightarrow> bool" where
  "deployments_current env ns name \<longleftrightarrow>
     (\<forall>t ob. env_get env t deployment_gvk ns name = Inr ob \<longrightarrow> \<not> deployment_behind ob)"

lemma reconcile_step_succeeds:
  assumes "succeeds m" and "\<And>x s. \<exists>s'. run_state (k x) s = (out, s')"
  shows "\<exists>s'. run_state (reconcile_step m k) s = (out, s')"
    and "\<exists>s'. run_state (prerequisite_step m k) s = (out, s')"
proof -
  obtain x t where "run_state m s = (Inr x, t)" using assms(1) by (rule succeedsE)
  with assms(2) [of x t] show "\<exists>s'. run_state (reconcile_step m k) s = (out, s')"
    "\<exists>s'. run_state (prerequisite_step m k) s = (out, s')"
    by (simp_all add: reconcile_step_def prerequisite_step_def)
qed

lemma deployment_test_succeeds:
  assumes c: "cooperative env owner" and d: "deployments_current env ns name"
  shows "\<exists>s'. run_state (all_ready [is_deployment_ready env ns name] reason (finish out)) s = (out, s')"
proof -
  obtain ob where "env_get env (st_trace s) deployment_gvk ns name = Inr ob"
    using c unfolding cooperative_def by blast
  with d show ?thesis
    by (auto simp: reconcile_step_def is_deployment_ready_def k8s_get_def deployments_current_def finish_def)
qed

lemma edot_gateway_live:
  assumes c: "cooperative env owner" and spec: "0 \<le> eg_replicas spec" and img: "img \<noteq> []"
    and urls: "endpoints_ok lib urls"
    and key: "secrets_present env ns (sel_name (gateway_effective_api_key (Some spec)))
                (sel_key (gateway_effective_api_key (Some spec)))"
    and ca: "secrets_present env ns (gateway_effective_root_ca (Some spec)) ''tls.crt''"
    and d: "deployments_current env ns edot_deployment_name"
  shows "\<exists>s'. run_state (ensure_edot_gateway env lib iteration ns (Some spec) urls img ca_image enabled owner) s =
           (ready_outcome ''EDOT Gateway is ready'', s')"
proof -
  obtain endpoints targets where v: "validated_endpoints lib iteration urls = Inr (endpoints, targets)"
    using urls validated_endpoints_Inr [of lib iteration urls] by (metis surj_pair)
  have versions: "succeeds (edot_gateway_input_versions env ns a b)" for a b
    unfolding edot_gateway_input_versions_def config_map_resource_version_def
    by (intro succeeds_try_ok succeeds_read(2) [OF c]) auto
  show ?thesis
    unfolding ensure_edot_gateway_def option.case v sum.case prod.case
    using spec img
    by (simp del: all_ready.simps)
      (intro reconcile_step_succeeds deployment_test_succeeds [OF c d] succeeds_typed [OF c] versions
        succeeds_delete_owned [OF c] succeeds_secret [OF c key] succeeds_secret [OF c ca];
       unfold ensure_edot_ingress_policy_def ensure_edot_egress_policy_def;
       rule succeeds_apply [OF c]; simp add: cilium_policy_def)
qed

text \<open>
  In a cluster that cooperates (objects owned by this NetEye, writes accepted, Secrets
  present with their keys, the Deployment up to date) ensuring the EDOT Gateway with a
  valid configuration runs through and reports Ready.
\<close>

theorem edot_gateway_reaches_ready:
  assumes "cooperative env owner" and "0 \<le> eg_replicas spec" and "img \<noteq> []" and "endpoints_ok lib urls"
    and "secrets_present env ns (sel_name (gateway_effective_api_key (Some spec)))
           (sel_key (gateway_effective_api_key (Some spec)))"
    and "secrets_present env ns (gateway_effective_root_ca (Some spec)) ''tls.crt''"
    and "deployments_current env ns edot_deployment_name"
  shows "\<exists>s'. run_state (ensure_edot_gateway env lib iteration ns (Some spec) urls img ca_image enabled owner) s =
           (ready_outcome ''EDOT Gateway is ready'', s')"
  using assms by (rule edot_gateway_live)

definition owned_by_sample :: "gvk \<Rightarrow> content \<Rightarrow> k8s_object" where
  "owned_by_sample k c = set_owners [sample_owner] (new_object k ''ns'' ''n'' c)"

definition ready_cluster_get :: "trace \<Rightarrow> gvk \<Rightarrow> string \<Rightarrow> string \<Rightarrow> go_err + k8s_object" where
  "ready_cluster_get t k ns n =
     Inr (owned_by_sample k
       (if k = secret_gvk then SecretData (Some [(''api_key'', ''x''), (''tls.crt'', ''y'')])
        else if k = deployment_gvk
        then DeploymentContent [] \<lparr>ds_observed_generation = 1, ds_ready_replicas = 1, ds_updated_replicas = 1\<rparr>
        else Unstructured []))"

definition ready_cluster :: env where
  "ready_cluster = (cluster_env [])\<lparr>env_get := ready_cluster_get\<rparr>"

definition sample_gateway :: edot_gateway_spec where
  "sample_gateway = \<lparr>eg_replicas = 1, eg_api_key_secret = None, eg_root_ca_secret_name = []\<rparr>"

lemma ready_cluster_env_get [simp]: "env_get ready_cluster = ready_cluster_get"
  by (simp add: ready_cluster_def)

lemma managed_sample [simp]: "managed_by sample_owner (owned_by_sample k c)"
  by (simp add: managed_by_def controller_of_def owned_by_sample_def is_controller_ref_def sample_owner_def
      make_owner_reference_def)

lemma ready_cluster_facts:
  "cooperative ready_cluster sample_owner" "0 \<le> eg_replicas sample_gateway"
  "endpoints_ok sample_url_lib [''https://10.0.0.11:443'']"
  "deployments_current ready_cluster ns name"
proof -
  show "cooperative ready_cluster sample_owner"
    by (simp add: cooperative_def ready_cluster_get_def) (simp add: ready_cluster_def)
qed (simp_all add: ready_cluster_get_def sample_gateway_def endpoints_ok_def
      sample_targets deployments_current_def deployment_behind_def owned_by_sample_def secret_gvk_def
      deployment_gvk_def deployment_status_of_def desired_replicas_def deployment_spec_def set_owners_def
      new_object_def new_meta_def)

lemma sample_secret_names:
  "validate_dns_name ''otel-collector-apm-api-key-secret'' w = None" "validate_dns_name ''neteye-root-ca'' w = None"
  by code_simp+

lemma ready_cluster_secrets:
  "secrets_present ready_cluster ns (sel_name (gateway_effective_api_key (Some sample_gateway)))
     (sel_key (gateway_effective_api_key (Some sample_gateway)))"
  "secrets_present ready_cluster ns (gateway_effective_root_ca (Some sample_gateway)) ''tls.crt''"
  by (simp_all add: secrets_present_def gateway_effective_api_key_def gateway_effective_root_ca_def
      sample_gateway_def default_gateway_api_key_name_def default_api_key_key_def default_root_ca_def
      sample_secret_names ready_cluster_get_def owned_by_sample_def secret_value_def secret_data_def set_owners_def
      trim_space_def trim_left_def is_space_def has_blank_def)

theorem edot_gateway_reaches_ready_witness:
  "\<exists>s'. run_state (ensure_edot_gateway ready_cluster sample_url_lib id ''ns'' (Some sample_gateway)
     [''https://10.0.0.11:443''] ''img'' ''ca'' False sample_owner) initial_state =
     (ready_outcome ''EDOT Gateway is ready'', s')"
  by (rule edot_gateway_reaches_ready [OF ready_cluster_facts(1,2) _ ready_cluster_facts(3)
        ready_cluster_secrets ready_cluster_facts(4)]) simp

theorem telemetry_ready_sound_witness:
  "\<exists>s'. run_state (ensure_edot_gateway ready_cluster sample_url_lib id ''ns'' (Some sample_gateway)
     [''https://10.0.0.11:443''] ''img'' ''ca'' False sample_owner) initial_state =
     (ready_outcome ''EDOT Gateway is ready'', s') \<and>
     (\<exists>ob. was_read ready_cluster (st_trace s') deployment_gvk ''ns'' edot_deployment_name ob \<and>
        \<not> deployment_behind ob)"
proof -
  obtain s' where r: "run_state (ensure_edot_gateway ready_cluster sample_url_lib id ''ns'' (Some sample_gateway)
     [''https://10.0.0.11:443''] ''img'' ''ca'' False sample_owner) initial_state =
     (ready_outcome ''EDOT Gateway is ready'', s')"
    using edot_gateway_live [OF ready_cluster_facts(1,2) _ ready_cluster_facts(3) ready_cluster_secrets
        ready_cluster_facts(4), where img = "''img''" and ns = "''ns''" and iteration = id
        and ca_image = "''ca''" and enabled = False and s = initial_state] by auto
  from telemetry_ready_sound [OF r] r show ?thesis by auto
qed

section \<open>Deletion\<close>

lemma inventories_disjoint:
  "set (collector_resource_inventory @ collector_legacy_inventory) \<inter>
   set (edot_gateway_resource_inventory @ edot_gateway_legacy_inventory) = {}"
  by (simp add: collector_resource_inventory_def collector_legacy_inventory_def
      edot_gateway_resource_inventory_def edot_gateway_legacy_inventory_def config_map_gvk_def
      deployment_gvk_def service_gvk_def certificate_gvk_def cilium_network_policy_gvk_def
      grpc_route_gvk_def http_route_gvk_def es_config_map_name_def es_deployment_name_def es_service_name_def
      edot_config_map_name_def edot_deployment_name_def edot_service_name_def ingress_policy_name_def
      egress_policy_name_def edot_ingress_policy_name_def edot_egress_policy_name_def
      es_variables_config_map_name_def edot_variables_config_map_name_def)

lemma inventories_no_secret:
  "(k, n) \<in> set (collector_resource_inventory @ collector_legacy_inventory) \<union>
     set (edot_gateway_resource_inventory @ edot_gateway_legacy_inventory) \<Longrightarrow> k \<noteq> secret_gvk"
  by (auto simp: collector_resource_inventory_def collector_legacy_inventory_def
      edot_gateway_resource_inventory_def edot_gateway_legacy_inventory_def config_map_gvk_def secret_gvk_def
      deployment_gvk_def service_gvk_def certificate_gvk_def cilium_network_policy_gvk_def
      grpc_route_gvk_def http_route_gvk_def)

text \<open>The only writes are deletions of inventory entries in the given namespace.\<close>

definition only_deletes :: "string \<Rightarrow> managed_resource list \<Rightarrow> call \<Rightarrow> bool" where
  "only_deletes ns inventory c =
     (case c of K8sDelete k ns' n \<Rightarrow> ns' = ns \<and> (k, n) \<in> set inventory | _ \<Rightarrow> \<not> is_write c)"

lemma emits_deletes: "emits (only_deletes ns inventory) (delete_owned_resources env ns owner inventory)"
  unfolding delete_owned_resources_def delete_owned_resource_def k8s_get_def k8s_delete_def
  by (intro emits_intros) (auto simp: only_deletes_def)

text \<open>
  Removing one telemetry component deletes objects of its own inventory only: never an
  object of the other component, never a Secret, and it writes nothing else.
\<close>

theorem telemetry_delete_isolated:
  "\<exists>mine. emits (only_deletes ns mine) (delete_otel_collector env ns owner) \<and>
     set mine \<inter> set (edot_gateway_resource_inventory @ edot_gateway_legacy_inventory) = {} \<and>
     (\<exists>theirs. emits (only_deletes ns theirs) (delete_edot_gateway env ns owner) \<and>
        set theirs \<inter> set (collector_resource_inventory @ collector_legacy_inventory) = {} \<and>
        secret_gvk \<notin> fst ` (set mine \<union> set theirs))"
proof (intro exI conjI)
  show "emits (only_deletes ns (collector_resource_inventory @ collector_legacy_inventory))
      (delete_otel_collector env ns owner)"
    unfolding delete_otel_collector_def by (rule emits_deletes)
  show "emits (only_deletes ns (edot_gateway_resource_inventory @ edot_gateway_legacy_inventory))
      (delete_edot_gateway env ns owner)"
    unfolding delete_edot_gateway_def by (rule emits_deletes)
qed (use inventories_disjoint inventories_no_secret in auto)+

text \<open>
  An object is deleted exactly when it is there and the owner controls it; an object
  that is absent, or that somebody else controls, is passed over without an error.
\<close>

theorem delete_owned_resource_exact:
  "run_state (delete_owned_resource env ns owner r) s =
     (let read = record_call (K8sGet (fst r) ns (snd r)) s;
          gone = record_call (K8sDelete (fst r) ns (snd r)) read
      in case env_get env (st_trace s) (fst r) ns (snd r) of
           Inl e \<Rightarrow> (if is_not_found e then Inr () else Inl e, read)
         | Inr ob \<Rightarrow>
             if \<not> controlled_by owner ob then (Inr (), read)
             else (case env_delete env (st_trace read) (fst r) ns (snd r) of
                     None \<Rightarrow> (Inr (), gone)
                   | Some e \<Rightarrow> (if is_not_found e then Inr () else Inl e, gone)))"
  by (auto simp: delete_owned_resource_def k8s_get_def k8s_delete_def ignore_not_found_def Let_def
      split: sum.split option.split)

end
