(* ===== verification/Password_Rules.thy ===== *)
theory Password_Rules
  imports Effects "HOL-Library.Multiset"
begin

text \<open>
  Password generation (\<^verbatim>\<open>internal/keycloak/passwordpolicy.go\<close>): reading a Keycloak realm
  policy and drawing a random password that satisfies it. Integers are Go's int, 64 bits
  wide: the sum of the class minima wraps around. Memory is unbounded, so the panic of
  \<^verbatim>\<open>make\<close> on a length no machine can allocate is not modelled.

  The random source is the environment's \<open>env_random\<close>, and the order in which the map
  literal of character classes is walked is \<open>env_class_order\<close>.
\<close>

section \<open>Policies\<close>

definition default_generated_password_length :: int where
  "default_generated_password_length = 32"

definition lower_case_characters :: string where
  "lower_case_characters = ''abcdefghijklmnopqrstuvwxyz''"

definition upper_case_characters :: string where
  "upper_case_characters = ''ABCDEFGHIJKLMNOPQRSTUVWXYZ''"

definition digit_characters :: string where
  "digit_characters = ''0123456789''"

definition special_characters :: string where
  "special_characters = ''-._~''"

record password_policy =
  pp_min_length :: int
  pp_max_length :: int
  pp_digits :: int
  pp_upper_case :: int
  pp_lower_case :: int
  pp_special_chars :: int
  pp_regex_patterns :: "string list"

definition zero_policy :: password_policy where
  "zero_policy =
     \<lparr>pp_min_length = 0, pp_max_length = 0, pp_digits = 0, pp_upper_case = 0,
      pp_lower_case = 0, pp_special_chars = 0, pp_regex_patterns = []\<rparr>"

text \<open>\<^verbatim>\<open>rule[open+1 : len(rule)-1]\<close> is in range: the last byte is not the first parenthesis.\<close>

definition split_policy_rule :: "string \<Rightarrow> string \<times> string" where
  "split_policy_rule rul =
     (case index_byte rul CHR ''('' of
        None \<Rightarrow> (rul, [])
      | Some opening \<Rightarrow>
          if \<not> has_suffix rul '')'' then (rul, [])
          else (take opening rul, drop (Suc opening) (butlast rul)))"

definition set_rule :: "string \<Rightarrow> int \<Rightarrow> password_policy \<Rightarrow> password_policy" where
  "set_rule nam value parsed =
     (if nam = ''length'' then parsed\<lparr>pp_min_length := value\<rparr>
      else if nam = ''maxLength'' then parsed\<lparr>pp_max_length := value\<rparr>
      else if nam = ''digits'' then parsed\<lparr>pp_digits := value\<rparr>
      else if nam = ''upperCase'' then parsed\<lparr>pp_upper_case := value\<rparr>
      else if nam = ''lowerCase'' then parsed\<lparr>pp_lower_case := value\<rparr>
      else if nam = ''specialChars'' then parsed\<lparr>pp_special_chars := value\<rparr>
      else parsed)"

definition parse_rule :: "string \<Rightarrow> password_policy \<Rightarrow> password_policy" where
  "parse_rule rul parsed =
     (let (nam, argument) = split_policy_rule (trim_space rul) in
      if nam = [] then parsed
      else if nam = ''regexPattern'' then
        (if argument \<noteq> [] then parsed\<lparr>pp_regex_patterns := pp_regex_patterns parsed @ [argument]\<rparr>
         else parsed)
      else
        (case atoi argument of
           None \<Rightarrow> parsed
         | Some value \<Rightarrow> if value < 0 then parsed else set_rule nam value parsed))"

definition parse_password_policy :: "string \<Rightarrow> password_policy" where
  "parse_password_policy policy = fold parse_rule (split_string policy '' and '') zero_policy"

section \<open>Drawing characters\<close>

definition random_character :: "env \<Rightarrow> string \<Rightarrow> char fallible" where
  "random_character env alphabet =
     attempt (draw_random env (int (length alphabet)))
       (\<lambda>e. fail (Wrap ''generate password'' e))
       (\<lambda>index. ok (alphabet ! nat index))"

text \<open>\<^verbatim>\<open>n\<close> random characters appended one by one.\<close>

fun append_random :: "env \<Rightarrow> string \<Rightarrow> nat \<Rightarrow> string \<Rightarrow> string fallible" where
  "append_random env alphabet 0 password = ok password"
| "append_random env alphabet (Suc n) password =
     try_ok (random_character env alphabet)
       (\<lambda>character. append_random env alphabet n (password @ [character]))"

definition swap :: "'a list \<Rightarrow> nat \<Rightarrow> nat \<Rightarrow> 'a list" where
  "swap xs i j = xs[i := xs ! j, j := xs ! i]"

text \<open>The Fisher-Yates loop from index \<open>i\<close> down to 1.\<close>

fun shuffle_from :: "env \<Rightarrow> nat \<Rightarrow> string \<Rightarrow> string fallible" where
  "shuffle_from env 0 password = ok password"
| "shuffle_from env (Suc i) password =
     attempt (draw_random env (int (Suc i) + 1))
       (\<lambda>e. fail (Wrap ''generate password'' e))
       (\<lambda>j. shuffle_from env i (swap password (Suc i) (nat j)))"

definition shuffle_password :: "env \<Rightarrow> string \<Rightarrow> string fallible" where
  "shuffle_password env password = shuffle_from env (length password - 1) password"

definition is_letter :: "char \<Rightarrow> bool" where
  "is_letter c \<longleftrightarrow>
     (of_char CHR ''a'' \<le> (of_char c :: nat) \<and> (of_char c :: nat) \<le> of_char CHR ''z'') \<or>
     (of_char CHR ''A'' \<le> (of_char c :: nat) \<and> (of_char c :: nat) \<le> of_char CHR ''Z'')"

definition no_letter :: go_err where
  "no_letter = Msg ''generate password: no letter available for the leading character''"

definition move_letter_first :: "string \<Rightarrow> go_err + string" where
  "move_letter_first password =
     (case find (\<lambda>i. is_letter (password ! i)) [0..<length password] of
        Some i \<Rightarrow> Inr (swap password 0 i)
      | None \<Rightarrow> Inl no_letter)"

section \<open>Generating a password\<close>

text \<open>The value of an int64 sum.\<close>

definition wrap_int64 :: "int \<Rightarrow> int" where
  "wrap_int64 i = (i + 2 ^ 63) mod 2 ^ 64 - 2 ^ 63"

definition required_lower :: "password_policy \<Rightarrow> int" where
  "required_lower policy = max (pp_lower_case policy) 1"

definition required_length :: "password_policy \<Rightarrow> int" where
  "required_length policy =
     wrap_int64 (pp_digits policy + pp_upper_case policy + required_lower policy + pp_special_chars policy)"

definition password_length :: "password_policy \<Rightarrow> go_err + int" where
  "password_length policy =
     (let required = required_length policy;
          len = max default_generated_password_length (max (pp_min_length policy) required)
      in if 0 < pp_max_length policy then
           if pp_max_length policy < required
           then Inl (Msg (''password policy requires at least '' @ format_int required
                   @ '' characters but allows at most '' @ format_int (pp_max_length policy)))
           else Inr (min len (pp_max_length policy))
         else Inr len)"

definition class_counts :: "password_policy \<Rightarrow> (string \<times> int) list" where
  "class_counts policy =
     [(lower_case_characters, required_lower policy), (upper_case_characters, pp_upper_case policy),
      (digit_characters, pp_digits policy), (special_characters, pp_special_chars policy)]"

definition filler :: "password_policy \<Rightarrow> string" where
  "filler policy =
     lower_case_characters @ upper_case_characters @ digit_characters
     @ (if 0 < pp_special_chars policy then special_characters else [])"

definition place_required :: "env \<Rightarrow> (string \<times> int) list \<Rightarrow> string fallible" where
  "place_required env classes =
     for_each (\<lambda>(alphabet, number) password. append_random env alphabet (nat number) password) classes []"

definition walk_classes :: "env \<Rightarrow> password_policy \<Rightarrow> (string \<times> int) list op" where
  "walk_classes env policy = State (\<lambda>s. (env_class_order env (st_trace s) (class_counts policy), s))"

definition generate_password :: "env \<Rightarrow> password_policy \<Rightarrow> string fallible" where
  "generate_password env policy =
     try_ok (lift_result (password_length policy)) (\<lambda>len.
     State_Monad.bind (walk_classes env policy) (\<lambda>classes.
     try_ok (place_required env classes) (\<lambda>required.
     try_ok (append_random env (filler policy) (nat (len - int (length required))) required) (\<lambda>password.
     try_ok (shuffle_password env password) (\<lambda>shuffled.
     lift_result (move_letter_first shuffled))))))"

section \<open>What a generated password satisfies\<close>

text \<open>The documented behaviour of \<^verbatim>\<open>rand.Int\<close> and of a range loop over a map.\<close>

definition random_in_range :: "env \<Rightarrow> bool" where
  "random_in_range env \<longleftrightarrow> (\<forall>t n v. env_random env t n = Inr v \<longrightarrow> 0 \<le> v \<and> v < n)"

definition walks_every_class :: "env \<Rightarrow> bool" where
  "walks_every_class env \<longleftrightarrow> (\<forall>t xs. mset (env_class_order env t xs) = mset xs)"

definition count_in :: "string \<Rightarrow> string \<Rightarrow> nat" where
  "count_in alphabet password = length (filter (\<lambda>c. c \<in> set alphabet) password)"

text \<open>What Keycloak checks, and what the consumers of the password rely on.\<close>

definition policy_accepts :: "password_policy \<Rightarrow> string \<Rightarrow> bool" where
  "policy_accepts policy password \<longleftrightarrow>
     pp_min_length policy \<le> int (length password) \<and>
     (0 < pp_max_length policy \<longrightarrow> int (length password) \<le> pp_max_length policy) \<and>
     pp_digits policy \<le> int (count_in digit_characters password) \<and>
     pp_upper_case policy \<le> int (count_in upper_case_characters password) \<and>
     pp_lower_case policy \<le> int (count_in lower_case_characters password) \<and>
     pp_special_chars policy \<le> int (count_in special_characters password)"

definition fit_for_consumers :: "password_policy \<Rightarrow> string \<Rightarrow> bool" where
  "fit_for_consumers policy password \<longleftrightarrow>
     password \<noteq> [] \<and> is_letter (hd password) \<and> set password \<subseteq> set (filler policy)"

definition random_failure :: "go_err \<Rightarrow> bool" where
  "random_failure err \<longleftrightarrow> (\<exists>cause. err = Wrap ''generate password'' cause)"

definition wf_policy :: "password_policy \<Rightarrow> bool" where
  "wf_policy policy \<longleftrightarrow>
     0 \<le> pp_digits policy \<and> 0 \<le> pp_upper_case policy \<and> 0 \<le> pp_lower_case policy \<and>
     0 \<le> pp_special_chars policy \<and>
     pp_digits policy + pp_upper_case policy + required_lower policy + pp_special_chars policy \<le> max_int64"

text \<open>The policy can be met: its minima fit into its maximum.\<close>

definition satisfiable_policy :: "password_policy \<Rightarrow> bool" where
  "satisfiable_policy policy \<longleftrightarrow>
     (0 < pp_max_length policy \<longrightarrow>
        pp_min_length policy \<le> pp_max_length policy \<and>
        pp_digits policy + pp_upper_case policy + required_lower policy + pp_special_chars policy
          \<le> pp_max_length policy)"

lemma required_length_exact:
  assumes "wf_policy policy"
  shows "required_length policy =
     pp_digits policy + pp_upper_case policy + required_lower policy + pp_special_chars policy"
  using assms
  by (auto simp: required_length_def wrap_int64_def wf_policy_def max_int64_def required_lower_def)

lemma delivers_draw:
  assumes "random_in_range env"
  shows "delivers (\<lambda>v. 0 \<le> v \<and> v < n) (\<lambda>e. True) (draw_random env n)"
  unfolding draw_random_def
  by (rule delivers_perform) (use assms in \<open>auto simp: random_in_range_def split: sum.split\<close>)

lemma delivers_random_character:
  assumes "random_in_range env"
  shows "delivers (\<lambda>c. c \<in> set alphabet) random_failure (random_character env alphabet)"
  unfolding random_character_def
  by (rule delivers_attempt [OF delivers_draw [OF assms]])
     (auto intro!: delivers_intros nth_mem simp: random_failure_def)

lemma delivers_append_random:
  assumes "random_in_range env"
  shows "delivers (\<lambda>r. \<exists>new. r = password @ new \<and> length new = n \<and> set new \<subseteq> set alphabet)
           random_failure (append_random env alphabet n password)"
proof (induction n arbitrary: password)
  case 0
  show ?case by (auto intro: delivers_intros)
next
  case (Suc n)
  show ?case
    unfolding append_random.simps
    apply (rule delivers_try [OF delivers_random_character [OF assms]])
    subgoal for c
      by (rule delivers_mono [OF Suc.IH [of "password @ [c]"]]) (auto intro: exI [of _ "c # _"])
    done
qed

definition placed :: "(string \<times> int) list \<Rightarrow> string \<Rightarrow> bool" where
  "placed classes new \<longleftrightarrow>
     length new = (\<Sum>(alphabet, number) \<leftarrow> classes. nat number) \<and>
     (\<forall>(alphabet, number) \<in> set classes. nat number \<le> count_in alphabet new) \<and>
     set new \<subseteq> (\<Union>(alphabet, number) \<in> set classes. if 0 < number then set alphabet else {})"

lemma count_in_append [simp]: "count_in a (xs @ ys) = count_in a xs + count_in a ys"
  by (simp add: count_in_def)

lemma count_in_all: "set xs \<subseteq> set a \<Longrightarrow> count_in a xs = length xs"
  by (simp add: count_in_def filter_id_conv subset_eq)

lemma placed_Cons:
  assumes "length new = nat number" and "set new \<subseteq> set alphabet" and "placed classes rest"
  shows "placed ((alphabet, number) # classes) (new @ rest)"
proof -
  have "\<forall>(a, n) \<in> set classes. nat n \<le> count_in a (new @ rest)"
    using assms(3) by (fastforce simp: placed_def intro: trans_le_add2)
  moreover have "set new \<subseteq> (if 0 < number then set alphabet else {})"
    using assms(1,2) by (cases "0 < number") auto
  ultimately show ?thesis
    using assms by (auto simp: placed_def count_in_all)
qed

lemma delivers_place_required:
  assumes "random_in_range env"
  shows "delivers (\<lambda>r. \<exists>new. r = password @ new \<and> placed classes new) random_failure
           (for_each (\<lambda>(alphabet, number) password. append_random env alphabet (nat number) password)
              classes password)"
proof (induction classes arbitrary: password)
  case Nil
  show ?case by (auto simp: placed_def intro: delivers_intros)
next
  case (Cons entry classes)
  obtain alphabet number where c: "entry = (alphabet, number)" by (cases entry)
  show ?case
    unfolding for_each.simps c prod.case
    by (rule delivers_try [OF delivers_append_random [OF assms]])
       (auto intro!: delivers_mono [OF Cons.IH] placed_Cons)
qed

lemma swap_simps [simp]:
  "length (swap xs i j) = length xs"
  "i < length xs \<Longrightarrow> j < length xs \<Longrightarrow> mset (swap xs i j) = mset xs"
  by (simp_all add: swap_def mset_swap)

lemma delivers_shuffle_from:
  assumes "random_in_range env"
  shows "i < length password \<or> i = 0 \<Longrightarrow>
    delivers (\<lambda>r. mset r = mset password) random_failure (shuffle_from env i password)"
proof (induction i arbitrary: password)
  case 0
  show ?case by (auto intro: delivers_intros)
next
  case (Suc i)
  show ?case
    unfolding shuffle_from.simps
    by (rule delivers_attempt [OF delivers_draw [OF assms]])
       (use Suc.prems in \<open>auto intro!: delivers_intros delivers_mono [OF Suc.IH] simp: random_failure_def\<close>)
qed

lemma delivers_shuffle:
  "random_in_range env \<Longrightarrow>
     delivers (\<lambda>r. mset r = mset password) random_failure (shuffle_password env password)"
  unfolding shuffle_password_def by (rule delivers_shuffle_from) auto

lemma count_in_mset: "mset xs = mset ys \<Longrightarrow> count_in a xs = count_in a ys"
  unfolding count_in_def by (metis mset_filter size_mset)

lemma lower_case_letters: "c \<in> set lower_case_characters \<Longrightarrow> is_letter c"
  by (auto simp: lower_case_characters_def is_letter_def)

lemma move_letter_first_spec:
  assumes "\<exists>c \<in> set password. is_letter c"
  obtains moved where "move_letter_first password = Inr moved" and "mset moved = mset password"
    and "moved \<noteq> []" and "is_letter (hd moved)"
proof -
  let ?find = "find (\<lambda>i. is_letter (password ! i)) [0..<length password]"
  have "?find \<noteq> None"
    using assms by (auto simp: find_None_iff in_set_conv_nth)
  then obtain i where i: "?find = Some i" by auto
  then have "is_letter (password ! i)" and "i < length password"
    by (auto dest: find_Some_in_set)
  then have here: "is_letter (password ! i)" "i < length password" "0 < length password" by auto
  show thesis
  proof (rule that [of "swap password 0 i"])
    show "move_letter_first password = Inr (swap password 0 i)"
      by (simp add: move_letter_first_def i)
    show "mset (swap password 0 i) = mset password" using here by simp
    show "swap password 0 i \<noteq> []" and "is_letter (hd (swap password 0 i))"
      using here by (cases password; cases i; simp add: swap_def)+
  qed
qed

lemma password_length_satisfiable:
  assumes "wf_policy policy" and "satisfiable_policy policy"
  obtains len where "password_length policy = Inr len" and "required_length policy \<le> len"
    and "pp_min_length policy \<le> len" and "0 < pp_max_length policy \<longrightarrow> len \<le> pp_max_length policy"
  using assms that [of "min (max 32 (max (pp_min_length policy) (required_length policy))) (pp_max_length policy)"]
    that [of "max 32 (max (pp_min_length policy) (required_length policy))"]
  by (cases "0 < pp_max_length policy")
     (auto simp: password_length_def required_length_exact satisfiable_policy_def Let_def
       default_generated_password_length_def)

lemma placed_policy_classes:
  assumes "mset classes = mset (class_counts policy)" and "wf_policy policy" and "placed classes required"
  shows "int (length required) = required_length policy"
    and "set required \<subseteq> set (filler policy)"
    and "pp_digits policy \<le> int (count_in digit_characters required)"
    and "pp_upper_case policy \<le> int (count_in upper_case_characters required)"
    and "required_lower policy \<le> int (count_in lower_case_characters required)"
    and "pp_special_chars policy \<le> int (count_in special_characters required)"
proof -
  have s: "set classes = set (class_counts policy)"
    using assms(1) by (metis set_mset_mset)
  have "sum_list (map (\<lambda>(a, n). nat n) classes) = sum_list (map (\<lambda>(a, n). nat n) (class_counts policy))"
    using assms(1) by (metis mset_map sum_mset_sum_list)
  then show "int (length required) = required_length policy"
    using assms(2,3)
    by (auto simp: placed_def class_counts_def required_length_exact wf_policy_def required_lower_def
      max_def)
  show "set required \<subseteq> set (filler policy)"
    using assms(3) by (auto simp: placed_def s class_counts_def filler_def split: if_splits)
  have "\<forall>(a, n) \<in> set (class_counts policy). nat n \<le> count_in a required"
    using assms(3) by (simp add: placed_def s)
  then show "pp_digits policy \<le> int (count_in digit_characters required)"
    and "pp_upper_case policy \<le> int (count_in upper_case_characters required)"
    and "required_lower policy \<le> int (count_in lower_case_characters required)"
    and "pp_special_chars policy \<le> int (count_in special_characters required)"
    by (simp_all add: class_counts_def nat_le_iff)
qed

lemma returns_walk_classes:
  assumes "walks_every_class env"
  shows "returns (\<lambda>classes. mset classes = mset (class_counts policy)) (walk_classes env policy)"
  using assms by (simp add: returns_def walk_classes_def walks_every_class_def)

text \<open>A string with the characters of a filled required part is a password once it is shuffled.\<close>

lemma shuffled_fits:
  assumes "mset classes = mset (class_counts policy)" and "wf_policy policy" and "placed classes required"
    and "set new \<subseteq> set (filler policy)" and "int (length (required @ new)) = len"
    and "pp_min_length policy \<le> len" and "0 < pp_max_length policy \<longrightarrow> len \<le> pp_max_length policy"
    and "mset shuffled = mset (required @ new)"
  shows "case_sum random_failure (\<lambda>r. policy_accepts policy r \<and> fit_for_consumers policy r)
           (move_letter_first shuffled)"
proof -
  note required = placed_policy_classes [OF assms(1-3)]
  have "0 < count_in lower_case_characters required"
    using required(5) by (simp add: required_lower_def)
  then have "\<exists>c \<in> set required. is_letter c"
    by (auto simp: count_in_def filter_empty_conv intro: lower_case_letters)
  moreover have "set shuffled = set (required @ new)"
    using assms(8) by (metis set_mset_mset)
  ultimately have "\<exists>c \<in> set shuffled. is_letter c" by auto
  then obtain moved where moved: "move_letter_first shuffled = Inr moved" "mset moved = mset shuffled"
      "moved \<noteq> []" "is_letter (hd moved)"
    by (rule move_letter_first_spec)
  have same: "mset moved = mset (required @ new)" using moved(2) assms(8) by simp
  then have "length moved = length (required @ new)" and "set moved = set (required @ new)"
    by (metis size_mset) (metis same set_mset_mset)
  then show ?thesis
    using moved required assms(4-7) count_in_mset [OF same]
    by (auto simp: policy_accepts_def fit_for_consumers_def required_lower_def)
qed

lemma generate_password_fits:
  assumes "random_in_range env" and "walks_every_class env"
    and "wf_policy policy" and "satisfiable_policy policy"
  shows "delivers (\<lambda>password. policy_accepts policy password \<and> fit_for_consumers policy password)
           random_failure (generate_password env policy)"
proof -
  obtain len where len: "password_length policy = Inr len" "required_length policy \<le> len"
      "pp_min_length policy \<le> len" "0 < pp_max_length policy \<longrightarrow> len \<le> pp_max_length policy"
    using assms(3,4) by (rule password_length_satisfiable)
  show ?thesis
    unfolding generate_password_def place_required_def len(1) try_ok_return sum.case
    apply (rule delivers_bind [OF returns_walk_classes [OF assms(2)]])
    apply (rule delivers_try [OF delivers_place_required [OF assms(1)]])
    apply (rule delivers_try [OF delivers_append_random [OF assms(1)]])
    apply (rule delivers_try [OF delivers_shuffle [OF assms(1)]])
    apply (rule delivers_lift)
    subgoal for classes required password shuffled
      using placed_policy_classes(1) [OF _ assms(3), of classes required] assms(3) len
      by (elim exE conjE) (rule shuffled_fits [of classes policy required _ len shuffled]; simp)
    done
qed

text \<open>
  C30. Every password the operator generates for a policy that can be met satisfies it: its
  length is within the bounds and every character class has the characters it demands. It
  starts with a letter and holds only characters of the policy's alphabet. Whatever the
  order in which the classes are walked and whatever is drawn, the only failure left is
  that of the random source: the missing-letter error never occurs.
\<close>

theorem generate_password_meets_policy:
  assumes "random_in_range env" and "walks_every_class env"
    and "wf_policy policy" and "satisfiable_policy policy"
  shows "delivers (\<lambda>password. policy_accepts policy password \<and> fit_for_consumers policy password)
           random_failure (generate_password env policy)"
  using assms by (rule generate_password_fits)

text \<open>
  A policy whose character minima exceed its maximal length is rejected before anything
  random is drawn, and the error names both numbers.
\<close>

theorem impossible_policy_rejected:
  assumes "0 < pp_max_length policy" and "pp_max_length policy < required_length policy"
  shows "run_state (generate_password env policy) s =
     (Inl (Msg (''password policy requires at least '' @ format_int (required_length policy)
        @ '' characters but allows at most '' @ format_int (pp_max_length policy))), s)"
  using assms by (simp add: generate_password_def password_length_def Let_def)

definition strict_policy :: password_policy where
  "strict_policy =
     \<lparr>pp_min_length = 40, pp_max_length = 64, pp_digits = 2, pp_upper_case = 3,
      pp_lower_case = 0, pp_special_chars = 1, pp_regex_patterns = []\<rparr>"

text \<open>A source that varies with the calls made, and a runtime that walks the map backwards.\<close>

definition dice_env :: env where
  "dice_env = (cluster_env [])\<lparr>env_random := (\<lambda>t n. if 0 < n then Inr (int (length t) * 7 mod n) else Inl (Msg ''n'')),
     env_class_order := (\<lambda>t xs. rev xs)\<rparr>"

theorem generate_password_meets_policy_witness:
  "random_in_range dice_env \<and> walks_every_class dice_env \<and> wf_policy strict_policy \<and>
   satisfiable_policy strict_policy \<and>
   delivers (\<lambda>password. policy_accepts strict_policy password \<and> fit_for_consumers strict_policy password)
     random_failure (generate_password dice_env strict_policy)"
proof -
  have "random_in_range dice_env" and "walks_every_class dice_env"
    by (auto simp: random_in_range_def walks_every_class_def dice_env_def split: if_splits)
  moreover have "wf_policy strict_policy" and "satisfiable_policy strict_policy"
    by (simp_all add: wf_policy_def satisfiable_policy_def strict_policy_def required_lower_def
      max_int64_def)
  ultimately show ?thesis by (simp add: generate_password_meets_policy)
qed

theorem impossible_policy_rejected_witness:
  "0 < pp_max_length (strict_policy\<lparr>pp_max_length := 5\<rparr>) \<and>
   pp_max_length (strict_policy\<lparr>pp_max_length := 5\<rparr>)
     < required_length (strict_policy\<lparr>pp_max_length := 5\<rparr>) \<and>
   run_state (generate_password dice_env (strict_policy\<lparr>pp_max_length := 5\<rparr>)) initial_state =
     (Inl (Msg (''password policy requires at least '' @ format_int 7
        @ '' characters but allows at most '' @ format_int 5)), initial_state)"
proof -
  have "required_length (strict_policy\<lparr>pp_max_length := 5\<rparr>) = 7"
    by (simp add: required_length_def required_lower_def strict_policy_def wrap_int64_def)
  then show ?thesis
    using impossible_policy_rejected [of "strict_policy\<lparr>pp_max_length := 5\<rparr>" dice_env initial_state]
    by (simp add: strict_policy_def)
qed

section \<open>A random source that works\<close>

text \<open>When every draw from a non-empty range succeeds, so does the generation for a policy that can be met.\<close>

definition random_works :: "env \<Rightarrow> bool" where
  "random_works env \<longleftrightarrow> random_in_range env \<and> (\<forall>t n. 0 < n \<longrightarrow> \<not> isl (env_random env t n))"

abbreviation no_draw_fails :: "'a fallible \<Rightarrow> bool" where
  "no_draw_fails \<equiv> delivers (\<lambda>x. True) (\<lambda>e. \<not> random_failure e)"

lemma draw_works: "random_works env \<Longrightarrow> 0 < n \<Longrightarrow> delivers (\<lambda>v. True) (\<lambda>e. False) (draw_random env n)"
  unfolding draw_random_def
  by (rule delivers_perform) (auto simp: random_works_def isl_def split: sum.split)

lemma no_draw_fails_parts:
  assumes "random_works env"
  shows "alphabet \<noteq> [] \<Longrightarrow> no_draw_fails (append_random env alphabet n password)"
    and "no_draw_fails (shuffle_from env i password)"
proof -
  show "no_draw_fails (append_random env alphabet n password)" if "alphabet \<noteq> []"
  proof (induction n arbitrary: password)
    case (Suc n)
    have "no_draw_fails (random_character env alphabet)"
      unfolding random_character_def
      by (rule delivers_attempt [OF draw_works [OF assms]]) (use that in \<open>auto intro: delivers_intros\<close>)
    then show ?case using Suc by (auto intro: delivers_try)
  qed (auto intro: delivers_intros)
  show "no_draw_fails (shuffle_from env i password)"
    by (induction i arbitrary: password)
      (auto intro!: delivers_intros delivers_attempt [OF draw_works [OF assms]])
qed

lemma generate_password_works:
  assumes works: "random_works env" and "walks_every_class env" and "wf_policy policy" and "satisfiable_policy policy"
  obtains password s' where "run_state (generate_password env policy) s = (Inr password, s')"
proof -
  have place: "no_draw_fails (for_each (\<lambda>(alphabet, number) password. append_random env alphabet (nat number) password)
      classes password)" if "\<forall>c \<in> set classes. fst c \<noteq> []" for classes password
    using that no_draw_fails_parts(1) [OF works]
    by (induction classes arbitrary: password) (auto intro!: delivers_intros delivers_try split: prod.split)
  have classes: "returns (\<lambda>classes. \<forall>c \<in> set classes. fst c \<noteq> []) (walk_classes env policy)"
  proof -
    have "set (env_class_order env t (class_counts policy)) = set (class_counts policy)" for t
      using assms(2) unfolding walks_every_class_def by (metis set_mset_mset)
    moreover have "\<forall>c \<in> set (class_counts policy). fst c \<noteq> []"
      by (simp add: class_counts_def lower_case_characters_def upper_case_characters_def digit_characters_def
          special_characters_def)
    ultimately show ?thesis by (simp add: walk_classes_def returns_def)
  qed
  have "filler policy \<noteq> []" by (simp add: filler_def lower_case_characters_def)
  then have "no_draw_fails (generate_password env policy)"
    unfolding generate_password_def place_required_def shuffle_password_def
    by (intro delivers_try [where A = "\<lambda>x. True"] delivers_bind [OF classes] place
        no_draw_fails_parts [OF works] delivers_lift)
      (auto simp: password_length_def Let_def random_failure_def move_letter_first_def no_letter_def
        split: sum.split option.split)
  moreover have "delivers (\<lambda>password. policy_accepts policy password \<and> fit_for_consumers policy password)
      random_failure (generate_password env policy)"
    using assms by (intro generate_password_fits) (simp_all add: random_works_def)
  ultimately have "fst (run_state (generate_password env policy) s) \<noteq> Inl e" for e
    by (metis delivers_Inl prod.collapse)
  then show thesis using that by (metis prod.collapse sum.exhaust)
qed

section \<open>Reading a policy\<close>

text \<open>A policy read from text never has a negative number, and none outside int64.\<close>

definition parsed_bounds :: "password_policy \<Rightarrow> bool" where
  "parsed_bounds policy \<longleftrightarrow>
     (\<forall>n \<in> {pp_min_length policy, pp_max_length policy, pp_digits policy, pp_upper_case policy,
        pp_lower_case policy, pp_special_chars policy}. 0 \<le> n \<and> n \<le> max_int64) \<and>
     [] \<notin> set (pp_regex_patterns policy)"

lemma atoi_bounds: "atoi s = Some v \<Longrightarrow> min_int64 \<le> v \<and> v \<le> max_int64"
  by (auto simp: atoi_def Let_def split: prod.splits if_splits)

lemma set_rule_bounds:
  "0 \<le> v \<Longrightarrow> v \<le> max_int64 \<Longrightarrow> parsed_bounds policy \<Longrightarrow> parsed_bounds (set_rule nam v policy)"
  by (simp add: set_rule_def parsed_bounds_def)

lemma parse_rule_bounds:
  assumes "parsed_bounds policy"
  shows "parsed_bounds (parse_rule rul policy)"
proof -
  obtain nam argument where r: "split_policy_rule (trim_space rul) = (nam, argument)" by force
  have "parsed_bounds (set_rule nam v policy)" if "atoi argument = Some v" and "\<not> v < 0" for v
    using assms that atoi_bounds [of argument v] by (simp add: set_rule_bounds)
  moreover have "parsed_bounds (policy\<lparr>pp_regex_patterns := pp_regex_patterns policy @ [argument]\<rparr>)"
    if "argument \<noteq> []"
    using assms that by (simp add: parsed_bounds_def)
  ultimately show ?thesis
    using assms by (simp add: parse_rule_def r split: option.split)
qed

lemma fold_parse_rule_bounds: "parsed_bounds policy \<Longrightarrow> parsed_bounds (fold parse_rule rules policy)"
  by (induction rules arbitrary: policy) (auto simp: parse_rule_bounds)

lemma parse_password_policy_bounds: "parsed_bounds (parse_password_policy policy)"
  unfolding parse_password_policy_def
  by (rule fold_parse_rule_bounds) (simp add: parsed_bounds_def zero_policy_def max_int64_def)

section \<open>What the text of a policy demands\<close>

text \<open>
  Read independently of the parser: the rule \<open>rul\<close> of a policy text asks for \<open>v\<close> of what \<open>nam\<close>
  names when, spaces around it aside, it reads \<open>nam(v)\<close> with a number that is not negative.
\<close>

definition rule_asks :: "string \<Rightarrow> int \<Rightarrow> string \<Rightarrow> bool" where
  "rule_asks nam v rul \<longleftrightarrow>
     (\<exists>digits. trim_space rul = nam @ ''('' @ digits @ '')'' \<and> atoi digits = Some v \<and> 0 \<le> v)"

definition counted_rules :: "string list" where
  "counted_rules = [''length'', ''maxLength'', ''digits'', ''upperCase'', ''lowerCase'', ''specialChars'']"

definition meets_rule :: "string \<Rightarrow> int \<Rightarrow> string \<Rightarrow> bool" where
  "meets_rule nam v password \<longleftrightarrow>
     (nam = ''length'' \<longrightarrow> v \<le> int (length password)) \<and>
     (nam = ''maxLength'' \<and> 0 < v \<longrightarrow> int (length password) \<le> v) \<and>
     (nam = ''digits'' \<longrightarrow> v \<le> int (count_in ''0123456789'' password)) \<and>
     (nam = ''upperCase'' \<longrightarrow> v \<le> int (count_in ''ABCDEFGHIJKLMNOPQRSTUVWXYZ'' password)) \<and>
     (nam = ''lowerCase'' \<longrightarrow> v \<le> int (count_in ''abcdefghijklmnopqrstuvwxyz'' password)) \<and>
     (nam = ''specialChars'' \<longrightarrow> v \<le> int (count_in ''-._~'' password))"

text \<open>The field a rule name stands for.\<close>

definition field_named :: "string \<Rightarrow> password_policy \<Rightarrow> int" where
  "field_named nam policy =
     (if nam = ''length'' then pp_min_length policy
      else if nam = ''maxLength'' then pp_max_length policy
      else if nam = ''digits'' then pp_digits policy
      else if nam = ''upperCase'' then pp_upper_case policy
      else if nam = ''lowerCase'' then pp_lower_case policy
      else pp_special_chars policy)"

lemma field_set_rule:
  "nam \<in> set counted_rules \<Longrightarrow>
     field_named nam (set_rule m v policy) = (if m = nam then v else field_named nam policy)"
  by (auto simp: counted_rules_def set_rule_def field_named_def)

lemma index_byte_parts: "index_byte xs b = Some k \<Longrightarrow> \<exists>ys. xs = take k xs @ b # ys \<and> drop (Suc k) xs = ys"
  by (induction xs arbitrary: k) (auto split: if_splits)

lemma index_byte_first: "b \<notin> set xs \<Longrightarrow> index_byte (xs @ b # ys) b = Some (length xs)"
  by (induction xs) auto

lemma split_policy_rule_text:
  "CHR ''('' \<notin> set nam \<Longrightarrow> split_policy_rule (nam @ ''('' @ argument @ '')'') = (nam, argument)"
  by (simp add: split_policy_rule_def index_byte_first has_suffix_def has_prefix_def butlast_append)

lemma split_policy_rule_inv:
  assumes "split_policy_rule rul = (nam, argument)" and "argument \<noteq> []"
  shows "rul = nam @ ''('' @ argument @ '')''"
proof -
  obtain k where k: "index_byte rul CHR ''('' = Some k" and suffix: "has_suffix rul '')''"
    and parts: "nam = take k rul" "argument = drop (Suc k) (butlast rul)"
    using assms by (auto simp: split_policy_rule_def split: option.splits if_splits)
  obtain ys where ys: "rul = nam @ CHR ''('' # ys" "drop (Suc k) rul = ys"
    using index_byte_parts [OF k] parts(1) by auto
  have "rul \<noteq> []" and end_char: "last rul = CHR '')''"
    using suffix by (cases rul rule: rev_cases; simp add: has_suffix_def has_prefix_def)+
  then have "ys \<noteq> []" and "last ys = CHR '')''"
    using ys(1) by (cases ys; auto)+
  then have "ys = butlast ys @ [CHR '')'']" by (metis append_butlast_last_id)
  moreover have "argument = butlast ys"
    using parts(2) ys(2) drop_butlast [of "Suc k" rul] by simp
  ultimately show ?thesis using ys(1) by simp
qed

lemma parse_rule_field:
  assumes "nam \<in> set counted_rules"
  shows "rule_asks nam v rul \<Longrightarrow> field_named nam (parse_rule rul policy) = v"
    and "\<forall>w. \<not> rule_asks nam w rul \<Longrightarrow> field_named nam (parse_rule rul policy) = field_named nam policy"
proof -
  have plain: "CHR ''('' \<notin> set nam" "nam \<noteq> []" "nam \<noteq> ''regexPattern''"
    using assms by (auto simp: counted_rules_def)
  show "field_named nam (parse_rule rul policy) = v" if "rule_asks nam v rul"
    using that plain split_policy_rule_text [OF plain(1)] field_set_rule [OF assms]
    by (auto simp: rule_asks_def parse_rule_def)
  show "field_named nam (parse_rule rul policy) = field_named nam policy" if none: "\<forall>w. \<not> rule_asks nam w rul"
  proof -
    obtain m argument where r: "split_policy_rule (trim_space rul) = (m, argument)" by force
    have "m \<noteq> nam" if "atoi argument = Some w" and "\<not> w < 0" for w
    proof
      assume "m = nam"
      have "argument \<noteq> []" using that(1) by (auto simp: atoi_def)
      from split_policy_rule_inv [OF r this] that none \<open>m = nam\<close> show False
        by (auto simp: rule_asks_def)
    qed
    moreover have "field_named nam (policy\<lparr>pp_regex_patterns := rs\<rparr>) = field_named nam policy" for rs
      by (simp add: field_named_def)
    ultimately show ?thesis
      using field_set_rule [OF assms] by (auto simp: parse_rule_def r split: option.split)
  qed
qed

lemma last_rule_wins:
  assumes "nam \<in> set counted_rules" and "rule_asks nam v rul" and "\<forall>r \<in> set after. \<forall>w. \<not> rule_asks nam w r"
  shows "field_named nam (fold parse_rule (before @ rul # after) policy) = v"
proof -
  have "field_named nam (fold parse_rule after p) = field_named nam p" for p
    using assms(3) by (induction after arbitrary: p) (simp_all add: parse_rule_field(2) [OF assms(1)])
  then show ?thesis by (simp add: parse_rule_field(1) [OF assms(1,2)])
qed

text \<open>
  C31. A generated password satisfies the policy as its text reads. Take the rules of the text
  that a realm holds, separated by \<^verbatim>\<open>and\<close>, and any of the six counted kinds: if a rule asks
  \<open>v\<close> of it and no later rule asks for that kind again, then every password generated for the
  parsed text has at least \<open>v\<close> characters of the kind (at most \<open>v\<close> characters for
  \<^verbatim>\<open>maxLength\<close>), whatever else the text holds, and the only failure is that of the random source.
\<close>

theorem generated_password_meets_text:
  assumes "random_in_range env" and "walks_every_class env"
    and "wf_policy (parse_password_policy policy)" and "satisfiable_policy (parse_password_policy policy)"
    and "split_string policy '' and '' = before @ rul # after"
    and "nam \<in> set counted_rules" and "rule_asks nam v rul" and "\<forall>r \<in> set after. \<forall>w. \<not> rule_asks nam w r"
  shows "delivers (meets_rule nam v) random_failure (generate_password env (parse_password_policy policy))"
proof -
  have asked: "field_named nam (parse_password_policy policy) = v"
    unfolding parse_password_policy_def assms(5) by (rule last_rule_wins [OF assms(6-8)])
  have "meets_rule nam v password" if "policy_accepts (parse_password_policy policy) password" for password
    using that asked assms(6)
    by (auto simp: counted_rules_def field_named_def policy_accepts_def meets_rule_def digit_characters_def
        upper_case_characters_def lower_case_characters_def special_characters_def)
  then show ?thesis
    by (intro delivers_mono [OF generate_password_fits [OF assms(1-4)]]) auto
qed

theorem generated_password_meets_text_witness:
  "delivers (meets_rule ''digits'' 3) random_failure
     (generate_password dice_env (parse_password_policy ''digits(1) and notUsername(x) and  digits(3)''))"
proof -
  let ?rules = "[''digits(1)'', ''notUsername(x)'', '' digits(3)'']"
  have parts: "split_string ''digits(1) and notUsername(x) and  digits(3)'' '' and '' = ?rules"
    by (simp add: split_string_def has_prefix_def)
  have env: "random_in_range dice_env" "walks_every_class dice_env"
    by (auto simp: random_in_range_def walks_every_class_def dice_env_def split: if_splits)
  have parsed: "parse_password_policy ''digits(1) and notUsername(x) and  digits(3)'' = zero_policy\<lparr>pp_digits := 3\<rparr>"
    unfolding parse_password_policy_def parts by code_simp
  have "wf_policy (zero_policy\<lparr>pp_digits := 3\<rparr>)" "satisfiable_policy (zero_policy\<lparr>pp_digits := 3\<rparr>)"
    by (simp_all add: wf_policy_def satisfiable_policy_def zero_policy_def required_lower_def max_int64_def)
  moreover have "rule_asks ''digits'' 3 '' digits(3)''"
    unfolding rule_asks_def by (rule exI [of _ "''3''"]) code_simp
  ultimately show ?thesis
    using generated_password_meets_text [OF env, of "''digits(1) and notUsername(x) and  digits(3)''"
        "[''digits(1)'', ''notUsername(x)'']" "'' digits(3)''" "[]" "''digits''" 3] parts
    by (simp add: parsed counted_rules_def)
qed

end
