(* ===== verification/Admin_Api.thy ===== *)
theory Admin_Api
  imports Password_Rules Keycloak_Options
begin

text \<open>
  The Keycloak Admin API client (\<^verbatim>\<open>internal/keycloak/admin.go\<close>, \<^verbatim>\<open>adminusers.go\<close>): the
  cached admin token, the authenticated request, and one operation per endpoint. A client
  is an index into \<open>st_apis\<close>. The lock around the token is left out: a reconciliation runs
  to its end before the next one starts. \<^verbatim>\<open>json.Marshal\<close> cannot fail on the values the
  operator sends.
\<close>

section \<open>Escaping\<close>

definition is_unreserved :: "char \<Rightarrow> bool" where
  "is_unreserved c \<longleftrightarrow>
     of_char c \<in> {48..57 :: nat} \<or> of_char c \<in> {65..90 :: nat} \<or> of_char c \<in> {97..122 :: nat} \<or>
     c \<in> {CHR ''-'', CHR ''_'', CHR ''.'', CHR ''~''}"

text \<open>\<^verbatim>\<open>shouldEscape\<close> of \<^verbatim>\<open>net/url\<close> for a path segment and for a query component.\<close>

definition path_keeps :: "char \<Rightarrow> bool" where
  "path_keeps c \<longleftrightarrow>
     is_unreserved c \<or> c \<in> {CHR ''$'', CHR ''&'', CHR ''+'', CHR '':'', CHR ''='', CHR ''@''}"

definition hex_digit :: "nat \<Rightarrow> char" where
  "hex_digit d = (if d < 10 then char_of (48 + d) else char_of (55 + d))"

definition percent :: "char \<Rightarrow> string" where
  "percent c = [CHR ''%'', hex_digit (of_char c div 16), hex_digit (of_char c mod 16)]"

definition path_escape :: "string \<Rightarrow> string" where
  "path_escape s = concat (map (\<lambda>c. if path_keeps c then [c] else percent c) s)"

definition query_escape :: "string \<Rightarrow> string" where
  "query_escape s =
     concat (map (\<lambda>c. if is_unreserved c then [c] else if c = CHR '' '' then ''+'' else percent c) s)"

section \<open>Clients\<close>

definition admin_token_leeway :: duration where
  "admin_token_leeway = 30 * second"

record admin_credentials =
  cred_username :: string
  cred_password :: string

definition new_admin_api :: "string \<Rightarrow> admin_credentials \<Rightarrow> admin_api" where
  "new_admin_api base_url creds =
     \<lparr>api_base_url = trim_right_char CHR ''/'' base_url,
      api_username = cred_username creds, api_password = cred_password creds,
      api_token = [], api_token_expiry = 0\<rparr>"

definition alloc_admin_api :: "string \<Rightarrow> admin_credentials \<Rightarrow> nat op" where
  "alloc_admin_api base_url creds =
     State (\<lambda>s. (length (st_apis s), s\<lparr>st_apis := st_apis s @ [new_admin_api base_url creds]\<rparr>))"

definition read_api :: "nat \<Rightarrow> admin_api op" where
  "read_api a = State (\<lambda>s. (st_apis s ! a, s))"

definition update_api :: "nat \<Rightarrow> (admin_api \<Rightarrow> admin_api) \<Rightarrow> unit op" where
  "update_api a f = State (\<lambda>s. ((), s\<lparr>st_apis := (st_apis s)[a := f (st_apis s ! a)]\<rparr>))"

definition service_name :: string where "service_name = ''neteye-kc-service''"
definition http_port :: int where "http_port = 8080"

definition in_cluster_base_url :: "string \<Rightarrow> string" where
  "in_cluster_base_url ns =
     ''http://'' @ service_name @ ''.'' @ ns @ ''.svc:'' @ format_int http_port @ http_relative_path"

text \<open>The text appended to a cut body is the UTF-8 encoding of an ellipsis.\<close>

definition truncate_body :: "string \<Rightarrow> string" where
  "truncate_body body =
     (if 512 < length body then take 512 body @ [CHR 0xE2, CHR 0x80, CHR 0xA6] else body)"

section \<open>Tokens\<close>

definition token_text :: string where
  "token_text = ''request keycloak admin token''"

definition store_token :: "env \<Rightarrow> nat \<Rightarrow> string \<Rightarrow> int \<Rightarrow> string fallible" where
  "store_token env a token expires_in =
     State_Monad.bind (read_clock env) (\<lambda>now.
     State_Monad.bind (update_api a (\<lambda>api. api\<lparr>api_token := token,
         api_token_expiry := now + wrap_int64 (expires_in * second)\<rparr>)) (\<lambda>_.
     ok token))"

definition accept_token :: "env \<Rightarrow> nat \<Rightarrow> http_answer \<Rightarrow> string fallible" where
  "accept_token env a answer =
     (case answer of
        BadRequest e \<Rightarrow> fail e
      | SendFailed e \<Rightarrow> fail (Wrap token_text e)
      | ReadFailed e \<Rightarrow> fail e
      | Answer code status raw \<Rightarrow>
          if code \<noteq> 200
          then fail (Msg (token_text @ '': unexpected status '' @ status @ '': '' @ truncate_body raw))
          else (case env_decode_token env raw of
                  Inl e \<Rightarrow> fail (Wrap ''decode keycloak admin token'' e)
                | Inr (token, expires_in) \<Rightarrow>
                    if token = []
                    then fail (Msg ''keycloak admin token response contained no access token'')
                    else store_token env a token expires_in))"

definition fetch_token :: "env \<Rightarrow> nat \<Rightarrow> admin_api \<Rightarrow> string fallible" where
  "fetch_token env a api =
     State_Monad.bind (request_token env (api_base_url api) (api_username api) (api_password api))
       (accept_token env a)"

text \<open>The clock is only read when there is a cached token.\<close>

definition authenticate :: "env \<Rightarrow> nat \<Rightarrow> string fallible" where
  "authenticate env a =
     State_Monad.bind (read_api a) (\<lambda>api.
       if api_token api = [] then fetch_token env a api
       else State_Monad.bind (read_clock env) (\<lambda>now.
         if now + admin_token_leeway < api_token_expiry api then ok (api_token api)
         else fetch_token env a api))"

definition verify_api :: "env \<Rightarrow> nat \<Rightarrow> unit fallible" where
  "verify_api env a = try_ok (authenticate env a) (\<lambda>_. ok ())"

section \<open>Requests\<close>

definition drop_token :: "nat \<Rightarrow> unit op" where
  "drop_token a = update_api a (\<lambda>api. api\<lparr>api_token := []\<rparr>)"

text \<open>The part of \<^verbatim>\<open>do\<close> up to the status check: the body of a 2xx answer.\<close>

definition read_answer :: "nat \<Rightarrow> http_method \<Rightarrow> string \<Rightarrow> http_answer \<Rightarrow> string fallible" where
  "read_answer a m path answer =
     (case answer of
        BadRequest e \<Rightarrow> fail e
      | SendFailed e \<Rightarrow> fail (Wrap (method_text m @ '' '' @ path) e)
      | ReadFailed e \<Rightarrow> fail e
      | Answer code status raw \<Rightarrow>
          if code < 200 \<or> 299 < code
          then State_Monad.bind (if code = 401 then drop_token a else State_Monad.return ()) (\<lambda>_.
               fail (ApiErr (method_text m) path code status (truncate_body raw)))
          else ok raw)"

definition do_request :: "env \<Rightarrow> nat \<Rightarrow> http_method \<Rightarrow> string \<Rightarrow> json option \<Rightarrow> string fallible" where
  "do_request env a m path body =
     try_ok (authenticate env a) (\<lambda>token.
     State_Monad.bind (read_api a) (\<lambda>api.
     State_Monad.bind (admin_request env (api_base_url api) m path token body)
       (read_answer a m path)))"

text \<open>\<^verbatim>\<open>do\<close> without and with a value to decode into.\<close>

definition do_send :: "env \<Rightarrow> nat \<Rightarrow> http_method \<Rightarrow> string \<Rightarrow> json option \<Rightarrow> unit fallible" where
  "do_send env a m path body = try_ok (do_request env a m path body) (\<lambda>_. ok ())"

definition do_read :: "env \<Rightarrow> nat \<Rightarrow> string \<Rightarrow> 'a \<Rightarrow> (json \<Rightarrow> go_err + 'a) \<Rightarrow> 'a fallible" where
  "do_read env a path fallback into =
     try_ok (do_request env a GET path None) (\<lambda>raw.
       if trim_space raw = [] then ok fallback
       else (case env_decode env raw of
               Inl e \<Rightarrow> fail (Wrap (''decode GET '' @ path @ '' response'') e)
             | Inr j \<Rightarrow> (case into j of
                           Inl e \<Rightarrow> fail (Wrap (''decode GET '' @ path @ '' response'') e)
                         | Inr x \<Rightarrow> ok x)))"

text \<open>
  Decoding into a \<^verbatim>\<open>representation\<close> (None is a nil map) and into a list of them, where a null
  element leaves an empty map and the first element of another kind is the error.
\<close>

fun json_kind :: "json \<Rightarrow> string" where
  "json_kind JNull = ''null''"
| "json_kind (JBool b) = ''bool''"
| "json_kind (JInt i) = ''number''"
| "json_kind (JFloat r) = ''number''"
| "json_kind (JStr s) = ''string''"
| "json_kind (JArr xs) = ''array''"
| "json_kind (JObj m) = ''object''"

definition type_mismatch :: "json \<Rightarrow> string \<Rightarrow> go_err" where
  "type_mismatch j target =
     Msg (''json: cannot unmarshal '' @ json_kind j @ '' into Go value of type '' @ target)"

definition into_representation :: "json \<Rightarrow> go_err + representation option" where
  "into_representation j =
     (case j of
        JNull \<Rightarrow> Inr None
      | JObj m \<Rightarrow> Inr (Some m)
      | _ \<Rightarrow> Inl (type_mismatch j ''keycloak.representation''))"

fun into_elements :: "json list \<Rightarrow> go_err + representation list" where
  "into_elements [] = Inr []"
| "into_elements (x # xs) =
     (case into_representation x of
        Inl e \<Rightarrow> Inl e
      | Inr m \<Rightarrow> map_sum id ((#) (case m of None \<Rightarrow> [] | Some r \<Rightarrow> r)) (into_elements xs))"

definition into_representations :: "json \<Rightarrow> go_err + representation list" where
  "into_representations j =
     (case j of
        JNull \<Rightarrow> Inr []
      | JArr xs \<Rightarrow> into_elements xs
      | _ \<Rightarrow> Inl (type_mismatch j ''[]keycloak.representation''))"

definition get_one :: "env \<Rightarrow> nat \<Rightarrow> string \<Rightarrow> representation option fallible" where
  "get_one env a path = do_read env a path None into_representation"

definition get_many :: "env \<Rightarrow> nat \<Rightarrow> string \<Rightarrow> representation list fallible" where
  "get_many env a path = do_read env a path [] into_representations"

text \<open>\<^verbatim>\<open>isNotFound\<close> of this package, and a read that takes a 404 as absence.\<close>

definition is_api_not_found :: "go_err \<Rightarrow> bool" where
  "is_api_not_found e \<longleftrightarrow> api_status_of e = Some 404"

definition absent_on_404 :: "representation option fallible \<Rightarrow> representation option fallible" where
  "absent_on_404 m = attempt m (\<lambda>e. if is_api_not_found e then ok None else fail e) ok"

section \<open>Realms\<close>

definition realm_path :: "string \<Rightarrow> string \<Rightarrow> string" where
  "realm_path realm rest = ''/admin/realms/'' @ path_escape realm @ rest"

definition get_realm :: "env \<Rightarrow> nat \<Rightarrow> string \<Rightarrow> representation option fallible" where
  "get_realm env a nam = absent_on_404 (get_one env a (realm_path nam []))"

definition create_realm :: "env \<Rightarrow> nat \<Rightarrow> representation \<Rightarrow> unit fallible" where
  "create_realm env a realm = do_send env a POST ''/admin/realms'' (Some (JObj realm))"

definition update_realm :: "env \<Rightarrow> nat \<Rightarrow> string \<Rightarrow> representation \<Rightarrow> unit fallible" where
  "update_realm env a nam realm = do_send env a PUT (realm_path nam []) (Some (JObj realm))"

definition delete_realm :: "env \<Rightarrow> nat \<Rightarrow> string \<Rightarrow> unit fallible" where
  "delete_realm env a nam = do_send env a DELETE (realm_path nam []) None"

section \<open>Clients of a realm\<close>

definition client_path :: "string \<Rightarrow> string \<Rightarrow> string \<Rightarrow> string" where
  "client_path realm uuid rest = realm_path realm (''/clients/'' @ path_escape uuid @ rest)"

definition get_client :: "env \<Rightarrow> nat \<Rightarrow> string \<Rightarrow> string \<Rightarrow> representation option fallible" where
  "get_client env a realm client_id =
     try_ok (get_many env a (realm_path realm (''/clients?clientId='' @ query_escape client_id)))
       (\<lambda>clients. ok (find (\<lambda>c. string_value c ''clientId'' = client_id) clients))"

text \<open>An entity that was just created is read back for its identifier.\<close>

definition identifier_of :: "string \<Rightarrow> string \<Rightarrow> representation option \<Rightarrow> string fallible" where
  "identifier_of kind nam created =
     (case created of
        None \<Rightarrow> fail (Msg (''keycloak '' @ kind @ '' '' @ quoted nam @ '' was not found right after creation''))
      | Some rep \<Rightarrow> ok (string_value rep ''id''))"

definition create_client :: "env \<Rightarrow> nat \<Rightarrow> string \<Rightarrow> representation \<Rightarrow> string fallible" where
  "create_client env a realm client =
     try_ok (do_send env a POST (realm_path realm ''/clients'') (Some (JObj client))) (\<lambda>_.
     try_ok (get_client env a realm (string_value client ''clientId''))
       (identifier_of ''client'' (string_value client ''clientId'')))"

definition update_client :: "env \<Rightarrow> nat \<Rightarrow> string \<Rightarrow> string \<Rightarrow> representation \<Rightarrow> unit fallible" where
  "update_client env a realm uuid client =
     do_send env a PUT (client_path realm uuid []) (Some (JObj client))"

definition delete_client :: "env \<Rightarrow> nat \<Rightarrow> string \<Rightarrow> string \<Rightarrow> unit fallible" where
  "delete_client env a realm uuid = do_send env a DELETE (client_path realm uuid []) None"

definition mappers_path :: "string \<Rightarrow> string \<Rightarrow> string" where
  "mappers_path realm uuid = client_path realm uuid ''/protocol-mappers/models''"

definition list_protocol_mappers :: "env \<Rightarrow> nat \<Rightarrow> string \<Rightarrow> string \<Rightarrow> representation list fallible" where
  "list_protocol_mappers env a realm uuid = get_many env a (mappers_path realm uuid)"

definition create_protocol_mapper ::
    "env \<Rightarrow> nat \<Rightarrow> string \<Rightarrow> string \<Rightarrow> representation \<Rightarrow> unit fallible" where
  "create_protocol_mapper env a realm uuid mapper =
     do_send env a POST (mappers_path realm uuid) (Some (JObj mapper))"

definition update_protocol_mapper ::
    "env \<Rightarrow> nat \<Rightarrow> string \<Rightarrow> string \<Rightarrow> string \<Rightarrow> representation \<Rightarrow> unit fallible" where
  "update_protocol_mapper env a realm uuid mapper_id mapper =
     do_send env a PUT (mappers_path realm uuid @ ''/'' @ path_escape mapper_id) (Some (JObj mapper))"

text \<open>Lists keyed by a field; the last entry of a key wins.\<close>

definition keyed_by :: "string \<Rightarrow> (representation \<Rightarrow> 'v) \<Rightarrow> representation list \<Rightarrow> (string \<times> 'v) list" where
  "keyed_by key val reps = fold (\<lambda>rep m. AList.update (string_value rep key) (val rep) m) reps []"

definition id_of :: "representation \<Rightarrow> string" where
  "id_of rep = string_value rep ''id''"

definition list_realm_client_scopes :: "env \<Rightarrow> nat \<Rightarrow> string \<Rightarrow> (string \<times> string) list fallible" where
  "list_realm_client_scopes env a realm =
     try_ok (get_many env a (realm_path realm ''/client-scopes''))
       (\<lambda>scopes. ok (keyed_by ''name'' id_of scopes))"

definition scopes_path :: "string \<Rightarrow> string \<Rightarrow> string \<Rightarrow> string" where
  "scopes_path realm uuid kind = client_path realm uuid (''/'' @ kind @ ''-client-scopes'')"

definition list_client_scopes ::
    "env \<Rightarrow> nat \<Rightarrow> string \<Rightarrow> string \<Rightarrow> string \<Rightarrow> (string \<times> string) list fallible" where
  "list_client_scopes env a realm uuid kind =
     try_ok (get_many env a (scopes_path realm uuid kind))
       (\<lambda>scopes. ok (keyed_by ''name'' id_of scopes))"

definition add_client_scope ::
    "env \<Rightarrow> nat \<Rightarrow> string \<Rightarrow> string \<Rightarrow> string \<Rightarrow> string \<Rightarrow> unit fallible" where
  "add_client_scope env a realm uuid kind scope_id =
     do_send env a PUT (scopes_path realm uuid kind @ ''/'' @ path_escape scope_id) None"

section \<open>Authentication flows\<close>

definition auth_path :: "string \<Rightarrow> string \<Rightarrow> string" where
  "auth_path realm rest = realm_path realm (''/authentication/'' @ rest)"

definition get_auth_flow :: "env \<Rightarrow> nat \<Rightarrow> string \<Rightarrow> string \<Rightarrow> representation option fallible" where
  "get_auth_flow env a realm alias =
     try_ok (get_many env a (auth_path realm ''flows''))
       (\<lambda>flows. ok (find (\<lambda>f. string_value f ''alias'' = alias) flows))"

definition get_auth_flow_by_id :: "env \<Rightarrow> nat \<Rightarrow> string \<Rightarrow> string \<Rightarrow> representation option fallible" where
  "get_auth_flow_by_id env a realm ident = get_one env a (auth_path realm (''flows/'' @ path_escape ident))"

definition create_auth_flow :: "env \<Rightarrow> nat \<Rightarrow> string \<Rightarrow> representation \<Rightarrow> unit fallible" where
  "create_auth_flow env a realm flow = do_send env a POST (auth_path realm ''flows'') (Some (JObj flow))"

definition executions_path :: "string \<Rightarrow> string \<Rightarrow> string" where
  "executions_path realm flow = auth_path realm (''flows/'' @ path_escape flow @ ''/executions'')"

definition create_subflow :: "env \<Rightarrow> nat \<Rightarrow> string \<Rightarrow> string \<Rightarrow> representation \<Rightarrow> unit fallible" where
  "create_subflow env a realm parent flow =
     do_send env a POST (executions_path realm parent @ ''/flow'') (Some (JObj flow))"

definition list_direct_executions :: "env \<Rightarrow> nat \<Rightarrow> string \<Rightarrow> string \<Rightarrow> representation list fallible" where
  "list_direct_executions env a realm flow =
     try_ok (get_many env a (executions_path realm flow))
       (\<lambda>execs. ok (filter (\<lambda>e. int_value e ''level'' = 0) execs))"

definition create_execution :: "env \<Rightarrow> nat \<Rightarrow> string \<Rightarrow> string \<Rightarrow> string \<Rightarrow> unit fallible" where
  "create_execution env a realm flow provider =
     do_send env a POST (executions_path realm flow @ ''/execution'')
       (Some (JObj [(''provider'', JStr provider)]))"

definition update_execution_requirement ::
    "env \<Rightarrow> nat \<Rightarrow> string \<Rightarrow> string \<Rightarrow> string \<Rightarrow> string \<Rightarrow> unit fallible" where
  "update_execution_requirement env a realm flow ident requirement =
     do_send env a PUT (executions_path realm flow)
       (Some (JObj [(''id'', JStr ident), (''requirement'', JStr requirement)]))"

definition update_execution :: "env \<Rightarrow> nat \<Rightarrow> string \<Rightarrow> string \<Rightarrow> representation \<Rightarrow> unit fallible" where
  "update_execution env a realm flow execution =
     do_send env a PUT (executions_path realm flow) (Some (JObj execution))"

definition execution_path :: "string \<Rightarrow> string \<Rightarrow> string \<Rightarrow> string" where
  "execution_path realm ident rest = auth_path realm (''executions/'' @ path_escape ident @ rest)"

definition raise_execution_priority :: "env \<Rightarrow> nat \<Rightarrow> string \<Rightarrow> string \<Rightarrow> unit fallible" where
  "raise_execution_priority env a realm ident =
     do_send env a POST (execution_path realm ident ''/raise-priority'') None"

definition lower_execution_priority :: "env \<Rightarrow> nat \<Rightarrow> string \<Rightarrow> string \<Rightarrow> unit fallible" where
  "lower_execution_priority env a realm ident =
     do_send env a POST (execution_path realm ident ''/lower-priority'') None"

definition config_path :: "string \<Rightarrow> string \<Rightarrow> string" where
  "config_path realm ident = auth_path realm (''config/'' @ path_escape ident)"

definition get_authenticator_config ::
    "env \<Rightarrow> nat \<Rightarrow> string \<Rightarrow> string \<Rightarrow> representation option fallible" where
  "get_authenticator_config env a realm ident = get_one env a (config_path realm ident)"

definition create_authenticator_config ::
    "env \<Rightarrow> nat \<Rightarrow> string \<Rightarrow> string \<Rightarrow> representation \<Rightarrow> unit fallible" where
  "create_authenticator_config env a realm execution_id config =
     do_send env a POST (execution_path realm execution_id ''/config'') (Some (JObj config))"

definition update_authenticator_config ::
    "env \<Rightarrow> nat \<Rightarrow> string \<Rightarrow> string \<Rightarrow> representation \<Rightarrow> unit fallible" where
  "update_authenticator_config env a realm ident config =
     do_send env a PUT (config_path realm ident) (Some (JObj config))"

definition delete_execution :: "env \<Rightarrow> nat \<Rightarrow> string \<Rightarrow> string \<Rightarrow> unit fallible" where
  "delete_execution env a realm ident = do_send env a DELETE (execution_path realm ident []) None"

definition delete_auth_flow :: "env \<Rightarrow> nat \<Rightarrow> string \<Rightarrow> string \<Rightarrow> unit fallible" where
  "delete_auth_flow env a realm ident =
     do_send env a DELETE (auth_path realm (''flows/'' @ path_escape ident)) None"

section \<open>Users, roles and groups\<close>

definition get_user :: "env \<Rightarrow> nat \<Rightarrow> string \<Rightarrow> string \<Rightarrow> representation option fallible" where
  "get_user env a realm username =
     try_ok (get_many env a (realm_path realm (''/users?username='' @ query_escape username @ ''&exact=true'')))
       (\<lambda>users. ok (find (\<lambda>u. string_value u ''username'' = to_lower username \<or>
          string_value u ''username'' = username) users))"

definition create_user :: "env \<Rightarrow> nat \<Rightarrow> string \<Rightarrow> representation \<Rightarrow> string fallible" where
  "create_user env a realm user =
     try_ok (do_send env a POST (realm_path realm ''/users'') (Some (JObj user))) (\<lambda>_.
     try_ok (get_user env a realm (string_value user ''username''))
       (identifier_of ''user'' (string_value user ''username'')))"

definition user_path :: "string \<Rightarrow> string \<Rightarrow> string \<Rightarrow> string" where
  "user_path realm user_id rest = realm_path realm (''/users/'' @ path_escape user_id @ rest)"

definition update_user :: "env \<Rightarrow> nat \<Rightarrow> string \<Rightarrow> string \<Rightarrow> representation \<Rightarrow> unit fallible" where
  "update_user env a realm user_id user =
     do_send env a PUT (user_path realm user_id []) (Some (JObj user))"

definition delete_user :: "env \<Rightarrow> nat \<Rightarrow> string \<Rightarrow> string \<Rightarrow> unit fallible" where
  "delete_user env a realm user_id = do_send env a DELETE (user_path realm user_id []) None"

definition reset_user_password ::
    "env \<Rightarrow> nat \<Rightarrow> string \<Rightarrow> string \<Rightarrow> string \<Rightarrow> bool \<Rightarrow> unit fallible" where
  "reset_user_password env a realm user_id password temporary =
     do_send env a PUT (user_path realm user_id ''/reset-password'')
       (Some (JObj [(''type'', JStr ''password''), (''value'', JStr password),
          (''temporary'', JBool temporary)]))"

definition get_realm_role :: "env \<Rightarrow> nat \<Rightarrow> string \<Rightarrow> string \<Rightarrow> representation option fallible" where
  "get_realm_role env a realm nam =
     absent_on_404 (get_one env a (realm_path realm (''/roles/'' @ path_escape nam)))"

definition realm_roles_path :: "string \<Rightarrow> string \<Rightarrow> string" where
  "realm_roles_path realm user_id = user_path realm user_id ''/role-mappings/realm''"

definition list_user_realm_roles ::
    "env \<Rightarrow> nat \<Rightarrow> string \<Rightarrow> string \<Rightarrow> (string \<times> representation) list fallible" where
  "list_user_realm_roles env a realm user_id =
     try_ok (get_many env a (realm_roles_path realm user_id)) (\<lambda>roles. ok (keyed_by ''name'' id roles))"

definition add_user_realm_roles ::
    "env \<Rightarrow> nat \<Rightarrow> string \<Rightarrow> string \<Rightarrow> representation list \<Rightarrow> unit fallible" where
  "add_user_realm_roles env a realm user_id roles =
     do_send env a POST (realm_roles_path realm user_id) (Some (JArr (map JObj roles)))"

definition get_group_by_path :: "env \<Rightarrow> nat \<Rightarrow> string \<Rightarrow> string \<Rightarrow> representation option fallible" where
  "get_group_by_path env a realm group_path =
     (let segments = map path_escape (split_string (trim_char CHR ''/'' group_path) ''/'')
      in absent_on_404 (get_one env a (realm_path realm (''/group-by-path/'' @ join_string segments ''/''))))"

definition list_user_groups ::
    "env \<Rightarrow> nat \<Rightarrow> string \<Rightarrow> string \<Rightarrow> (string \<times> string) list fallible" where
  "list_user_groups env a realm user_id =
     try_ok (get_many env a (user_path realm user_id ''/groups'')) (\<lambda>groups. ok (keyed_by ''path'' id_of groups))"

definition add_user_to_group :: "env \<Rightarrow> nat \<Rightarrow> string \<Rightarrow> string \<Rightarrow> string \<Rightarrow> unit fallible" where
  "add_user_to_group env a realm user_id group_id =
     do_send env a PUT (user_path realm user_id (''/groups/'' @ path_escape group_id)) None"

definition get_service_account_user ::
    "env \<Rightarrow> nat \<Rightarrow> string \<Rightarrow> string \<Rightarrow> representation option fallible" where
  "get_service_account_user env a realm client_uuid =
     absent_on_404 (get_one env a (client_path realm client_uuid ''/service-account-user''))"

definition get_client_role ::
    "env \<Rightarrow> nat \<Rightarrow> string \<Rightarrow> string \<Rightarrow> string \<Rightarrow> representation option fallible" where
  "get_client_role env a realm client_uuid nam =
     absent_on_404 (get_one env a (client_path realm client_uuid (''/roles/'' @ path_escape nam)))"

definition client_roles_path :: "string \<Rightarrow> string \<Rightarrow> string \<Rightarrow> string" where
  "client_roles_path realm user_id client_uuid =
     user_path realm user_id (''/role-mappings/clients/'' @ path_escape client_uuid)"

definition list_user_client_roles ::
    "env \<Rightarrow> nat \<Rightarrow> string \<Rightarrow> string \<Rightarrow> string \<Rightarrow> (string \<times> representation) list fallible" where
  "list_user_client_roles env a realm user_id client_uuid =
     try_ok (get_many env a (client_roles_path realm user_id client_uuid))
       (\<lambda>roles. ok (keyed_by ''name'' id roles))"

definition add_user_client_roles ::
    "env \<Rightarrow> nat \<Rightarrow> string \<Rightarrow> string \<Rightarrow> string \<Rightarrow> representation list \<Rightarrow> unit fallible" where
  "add_user_client_roles env a realm user_id client_uuid roles =
     do_send env a POST (client_roles_path realm user_id client_uuid) (Some (JArr (map JObj roles)))"

section \<open>The password policy of a realm\<close>

definition get_password_policy :: "env \<Rightarrow> nat \<Rightarrow> string \<Rightarrow> password_policy fallible" where
  "get_password_policy env a realm =
     attempt (get_realm env a realm)
       (\<lambda>e. fail (Wrap (''get realm '' @ quoted realm) e))
       (\<lambda>rep. case rep of
          None \<Rightarrow> fail (Msg (''realm '' @ quoted realm @ '' not found''))
        | Some r \<Rightarrow> ok (parse_password_policy (string_value r ''passwordPolicy'')))"

section \<open>Escaped names stay in their segment\<close>

text \<open>Reading an escaped segment back, as a server does.\<close>

definition hex_value :: "char \<Rightarrow> nat" where
  "hex_value c = (if of_char c < (58 :: nat) then of_char c - 48 else of_char c - 55)"

fun path_unescape :: "string \<Rightarrow> string" where
  "path_unescape (c # a # b # cs) =
     (if c = CHR ''%'' then char_of (16 * hex_value a + hex_value b) # path_unescape cs
      else c # path_unescape (a # b # cs))"
| "path_unescape s = s"

lemma hex_value_digit [simp]: "d < 16 \<Longrightarrow> hex_value (hex_digit d) = d"
  by (simp add: hex_value_def hex_digit_def)

lemma hex_digit_range: "d < 16 \<Longrightarrow> of_char (hex_digit d) \<in> {48..57 :: nat} \<union> {65..70}"
  by (auto simp: hex_digit_def)

lemma of_char_bound: "of_char c < (256 :: nat)"
  using of_char_mod_256 [of c] by (metis mod_less_divisor zero_less_numeral)

lemma of_char_nibble: "of_char c div 16 < (16 :: nat)"
  using of_char_bound [of c] by (simp add: less_mult_imp_div_less)

lemma percent_unescape: "path_unescape (percent c @ rest) = c # path_unescape rest"
  by (simp add: percent_def of_char_nibble)

lemma kept_not_percent: "path_keeps c \<Longrightarrow> c \<noteq> CHR ''%''"
  by (auto simp: path_keeps_def is_unreserved_def)

lemma unescape_kept: "c \<noteq> CHR ''%'' \<Longrightarrow> path_unescape (c # cs) = c # path_unescape cs"
  by (cases "c # cs" rule: path_unescape.cases) auto

text \<open>
  Escaping a name for a path segment loses nothing: the server reads the same bytes
  back, so two different realms, users or flows are never addressed by one path.
\<close>

lemma path_unescape_escape: "path_unescape (path_escape s) = s"
proof (induction s)
  case Nil
  show ?case by (simp add: path_escape_def)
next
  case (Cons c s)
  then show ?case
    using kept_not_percent [of c]
    by (simp add: path_escape_def percent_unescape unescape_kept)
qed

lemma path_escape_inj: "path_escape s = path_escape t \<longleftrightarrow> s = t"
  by (metis path_unescape_escape)

lemma percent_chars: "x \<in> set (percent c) \<Longrightarrow> x = CHR ''%'' \<or> is_unreserved x"
proof -
  have "is_unreserved (hex_digit d)" if "d < 16" for d
    using hex_digit_range [OF that] by (auto simp: is_unreserved_def)
  then show "x \<in> set (percent c) \<Longrightarrow> x = CHR ''%'' \<or> is_unreserved x"
    using of_char_nibble [of c] by (auto simp: percent_def)
qed

lemma path_escape_chars: "x \<in> set (path_escape s) \<Longrightarrow> x = CHR ''%'' \<or> path_keeps x"
  by (auto simp: path_escape_def path_keeps_def dest: percent_chars split: if_splits)

text \<open>A path that goes on with a slash or ends fixes the realm.\<close>

lemma realm_path_inj [simp]: "realm_path r [] = realm_path r' [] \<longleftrightarrow> r = r'"
  by (simp add: realm_path_def path_escape_inj)

section \<open>What a request does to the token\<close>

text \<open>A client holds a token that can be replayed: it is set, and outlives the leeway.\<close>

definition token_usable :: "env \<Rightarrow> nat \<Rightarrow> op_state \<Rightarrow> bool" where
  "token_usable env a s \<longleftrightarrow>
     api_token (st_apis s ! a) \<noteq> [] \<and>
     env_now env (st_trace s) + admin_token_leeway < api_token_expiry (st_apis s ! a)"

lemma run_read_api [simp]: "run_state (read_api a) s = (st_apis s ! a, s)"
  by (simp add: read_api_def)

lemma run_update_api [simp]:
  "run_state (update_api a f) s = ((), s\<lparr>st_apis := (st_apis s)[a := f (st_apis s ! a)]\<rparr>)"
  by (simp add: update_api_def)

lemma authenticate_cached:
  assumes "token_usable env a s"
  shows "run_state (authenticate env a) s = (Inr (api_token (st_apis s ! a)), record_call ReadClock s)"
  using assms by (simp add: authenticate_def token_usable_def run_state_bind read_clock_def)

lemma authenticate_fetches:
  assumes "\<not> token_usable env a s"
  obtains s' before where "st_trace s' = st_trace s @ before" and "st_apis s' = st_apis s"
    and "run_state (authenticate env a) s = run_state (fetch_token env a (st_apis s ! a)) s'"
proof (cases "api_token (st_apis s ! a) = []")
  case True
  then show thesis
    by (intro that [of s "[]"]) (simp_all add: authenticate_def run_state_bind)
next
  case False
  with assms show thesis
    by (intro that [of "record_call ReadClock s" "[ReadClock]"])
       (auto simp: authenticate_def token_usable_def run_state_bind read_clock_def)
qed

lemma emits_update_api [emits_intros]: "emits P (update_api a f)"
  by (simp add: update_api_def emits_intros)

lemma emits_read_api [emits_intros]: "emits P (read_api a)"
  by (simp add: read_api_def emits_intros)

lemma emits_accept_token: "emits ((=) ReadClock) (accept_token env a answer)"
  unfolding accept_token_def store_token_def read_clock_def
  by (cases answer) (auto intro!: emits_intros split: sum.split)

definition token_call :: "admin_api \<Rightarrow> call" where
  "token_call api = TokenCall (api_base_url api) (api_username api) (api_password api)"

text \<open>
  A token is replayed without asking Keycloak only when it is set and outlives the
  leeway; in every other case the client sends its own credentials to its own Keycloak.
\<close>

theorem authenticate_token_source:
  "if token_usable env a s
   then run_state (authenticate env a) s = (Inr (api_token (st_apis s ! a)), record_call ReadClock s)
   else \<exists>before after. st_trace (snd (run_state (authenticate env a) s))
          = st_trace s @ before @ token_call (st_apis s ! a) # after"
proof (cases "token_usable env a s")
  case True
  then show ?thesis by (simp add: authenticate_cached)
next
  case False
  let ?api = "st_apis s ! a"
  obtain u before where u: "st_trace u = st_trace s @ before"
      "run_state (authenticate env a) s = run_state (fetch_token env a ?api) u"
    using False by (rule authenticate_fetches)
  obtain r s' where run: "run_state (accept_token env a (env_token env (st_trace u) (api_base_url ?api)
      (api_username ?api) (api_password ?api))) (record_call (token_call ?api) u) = (r, s')"
    by force
  with emits_accept_token obtain new where "st_trace s' = st_trace (record_call (token_call ?api) u) @ new"
    by (rule emitsD)
  moreover have "snd (run_state (authenticate env a) s) = s'"
    using u(2) run by (simp add: fetch_token_def request_token_def run_state_bind token_call_def)
  ultimately show ?thesis using False u(1) by auto
qed

text \<open>
  After Keycloak answers 401 the cached token is gone, so the next request logs in
  again instead of replaying it; any other answer leaves the token alone.
\<close>

theorem unauthorized_drops_token:
  assumes "a < length (st_apis s)"
    and "s' = snd (run_state (read_answer a m path (Answer code status raw)) s)"
  shows "api_token (st_apis s' ! a) = (if code = 401 then [] else api_token (st_apis s ! a)) \<and>
    token_usable env a s' = (code \<noteq> 401 \<and> token_usable env a s)"
  using assms by (simp_all add: read_answer_def drop_token_def run_state_bind token_usable_def)

theorem unauthorized_drops_token_witness:
  "let s = initial_state\<lparr>st_apis := [(new_admin_api ''http://kc/'' \<lparr>cred_username = ''u'', cred_password = ''p''\<rparr>)
       \<lparr>api_token := ''t'', api_token_expiry := minute\<rparr>]\<rparr>;
       s' = snd (run_state (read_answer 0 GET ''/x'' (Answer 401 ''401'' [])) s)
   in token_usable (cluster_env []) 0 s \<and> \<not> token_usable (cluster_env []) 0 s'"
proof -
  let ?s = "initial_state\<lparr>st_apis := [(new_admin_api ''http://kc/'' \<lparr>cred_username = ''u'', cred_password = ''p''\<rparr>)
       \<lparr>api_token := ''t'', api_token_expiry := minute\<rparr>]\<rparr>"
  have "token_usable (cluster_env []) 0 ?s"
    by (simp add: token_usable_def minute_def second_def admin_token_leeway_def)
  then show ?thesis
    using unauthorized_drops_token [of 0 ?s _ GET "''/x''" 401 "''401''" "[]" "cluster_env []"]
    by (simp add: Let_def)
qed

section \<open>What a lookup answers\<close>

text \<open>
  A client, flow or user that a lookup returns carries the name that was asked for,
  although the Admin API searches by substring: the operator never updates a neighbour.
\<close>

lemma lookups_exact:
  "delivers (pred_option (\<lambda>c. string_value c ''clientId'' = client_id)) (\<lambda>e. True)
     (get_client env a realm client_id) \<and>
   delivers (pred_option (\<lambda>f. string_value f ''alias'' = alias)) (\<lambda>e. True)
     (get_auth_flow env a realm alias) \<and>
   delivers (pred_option (\<lambda>u. string_value u ''username'' \<in> {username, to_lower username})) (\<lambda>e. True)
     (get_user env a realm username)"
  unfolding get_client_def get_auth_flow_def get_user_def
  by (intro conjI; rule delivers_try [OF delivers_any]; rule delivers_ok)
     (auto simp: option.pred_set dest: find_Some_in_set)

text \<open>An empty body or null, and for some entities a 404, is an absent entity.\<close>

lemma delivers_absent_on_404:
  "delivers (\<lambda>x. True) (\<lambda>e. api_status_of e \<noteq> Some 404) (absent_on_404 m)"
  unfolding absent_on_404_def
  by (rule delivers_attempt [OF delivers_any]) (auto intro: delivers_intros simp: is_api_not_found_def)

section \<open>The requests an operation makes\<close>

text \<open>
  \<open>sends P c\<close>: \<open>c\<close> belongs to an Admin API operation whose requests that are no reads
  satisfy \<open>P\<close> (method, path, body).
\<close>

fun sends :: "(http_method \<Rightarrow> string \<Rightarrow> json option \<Rightarrow> bool) \<Rightarrow> call \<Rightarrow> bool" where
  "sends P ReadClock = True"
| "sends P (TokenCall base user pass) = True"
| "sends P (AdminCall base m path body) = (m = GET \<or> P m path body)"
| "sends P _ = False"

lemma sends_mono: "sends P c \<Longrightarrow> (\<And>m path body. P m path body \<Longrightarrow> Q m path body) \<Longrightarrow> sends Q c"
  by (cases c) auto

lemma sends_nothing: "sends (\<lambda>m path body. False) c \<Longrightarrow> \<not> is_write c"
  by (cases c) auto

lemma emits_authenticate [emits_intros]: "emits (sends P) (authenticate env a)"
  unfolding authenticate_def fetch_token_def request_token_def read_clock_def
  by (auto intro!: emits_intros intro: emits_mono [OF emits_accept_token])

lemma emits_read_answer [emits_intros]: "emits P (read_answer a m path answer)"
  unfolding read_answer_def drop_token_def by (cases answer) (auto intro!: emits_intros)

lemma emits_do_request [emits_intros]:
  "m = GET \<or> P m path body \<Longrightarrow> emits (sends P) (do_request env a m path body)"
  unfolding do_request_def admin_request_def by (auto intro!: emits_intros)

lemma emits_do_send [emits_intros]:
  "P m path body \<Longrightarrow> emits (sends P) (do_send env a m path body)"
  unfolding do_send_def by (auto intro!: emits_intros)

lemma emits_do_read [emits_intros]: "emits (sends P) (do_read env a path fallback into)"
  unfolding do_read_def by (auto intro!: emits_intros split: sum.split)

lemma emits_api_reads [emits_intros]:
  "emits (sends P) (get_one env a path)" "emits (sends P) (get_many env a path)"
  unfolding get_one_def get_many_def by (intro emits_intros)+

lemma emits_absent_on_404 [emits_intros]: "emits P m \<Longrightarrow> emits P (absent_on_404 m)"
  unfolding absent_on_404_def by (auto intro!: emits_intros)

lemmas lookup_defs = get_realm_def get_client_def list_protocol_mappers_def list_realm_client_scopes_def
  list_client_scopes_def get_auth_flow_def get_auth_flow_by_id_def list_direct_executions_def
  get_authenticator_config_def get_user_def get_realm_role_def list_user_realm_roles_def
  get_group_by_path_def list_user_groups_def get_service_account_user_def get_client_role_def
  list_user_client_roles_def get_password_policy_def

lemma emits_lookups [emits_intros]:
  "emits (sends P) (get_realm env a realm)"
  "emits (sends P) (get_client env a realm x)"
  "emits (sends P) (list_protocol_mappers env a realm x)"
  "emits (sends P) (list_realm_client_scopes env a realm)"
  "emits (sends P) (list_client_scopes env a realm x y)"
  "emits (sends P) (get_auth_flow env a realm x)"
  "emits (sends P) (get_auth_flow_by_id env a realm x)"
  "emits (sends P) (list_direct_executions env a realm x)"
  "emits (sends P) (get_authenticator_config env a realm x)"
  "emits (sends P) (get_user env a realm x)"
  "emits (sends P) (get_realm_role env a realm x)"
  "emits (sends P) (list_user_realm_roles env a realm x)"
  "emits (sends P) (get_group_by_path env a realm x)"
  "emits (sends P) (list_user_groups env a realm x)"
  "emits (sends P) (get_service_account_user env a realm x)"
  "emits (sends P) (get_client_role env a realm x y)"
  "emits (sends P) (list_user_client_roles env a realm x y)"
  "emits (sends P) (get_password_policy env a realm)"
  unfolding lookup_defs Let_def by (auto intro!: emits_intros)

lemma emits_identifier_of [emits_intros]: "emits P (identifier_of kind nam created)"
  unfolding identifier_of_def by (auto intro!: emits_intros)

section \<open>What an operation leaves alone\<close>

text \<open>The account and the server of every client; only tokens change.\<close>

definition account_of :: "admin_api \<Rightarrow> string \<times> string \<times> string" where
  "account_of api = (api_base_url api, api_username api, api_password api)"

definition accounts :: "op_state \<Rightarrow> (string \<times> string \<times> string) list" where
  "accounts s = map account_of (st_apis s)"

definition clients :: "op_state \<Rightarrow> (string \<times> string \<times> string) list \<times> admin_provider list \<times>
    (string \<times> (nat \<times> instant)) list \<times> nat option" where
  "clients s = (accounts s, st_providers s, st_registry s, st_component_admin s)"

lemma clients_record_call [simp]: "clients (record_call c s) = clients s"
  by (simp add: clients_def accounts_def)

lemma accounts_update:
  "account_of (f (st_apis s ! a)) = account_of (st_apis s ! a) \<Longrightarrow>
     map account_of ((st_apis s)[a := f (st_apis s ! a)]) = map account_of (st_apis s)"
  by (cases "a < length (st_apis s)")
     (simp_all add: list_update_beyond not_less list_eq_iff_nth_eq nth_list_update)

lemma keeps_update_token:
  "(\<And>api. account_of (f api) = account_of api) \<Longrightarrow> keeps clients (update_api a f)"
  unfolding update_api_def
  by (intro keeps_intros) (simp add: clients_def accounts_def accounts_update)

lemma keeps_read_api [keeps_intros]: "keeps f (read_api a)"
  unfolding read_api_def by (intro keeps_intros) simp

lemma keeps_authenticate [keeps_intros]: "keeps clients (authenticate env a)"
  unfolding authenticate_def fetch_token_def accept_token_def store_token_def request_token_def read_clock_def
  by (auto intro!: keeps_intros keeps_update_token simp: account_of_def split: http_answer.split)

lemma keeps_verify_api [keeps_intros]: "keeps clients (verify_api env a)"
  unfolding verify_api_def by (intro keeps_intros)

lemma keeps_do_request [keeps_intros]: "keeps clients (do_request env a m path body)"
  unfolding do_request_def read_answer_def drop_token_def admin_request_def
  by (auto intro!: keeps_intros keeps_update_token simp: account_of_def split: http_answer.split)

lemma keeps_do_send [keeps_intros]: "keeps clients (do_send env a m path body)"
  unfolding do_send_def by (intro keeps_intros)

end
