(* ===== verification/Realm_Sync.thy ===== *)
theory Realm_Sync
  imports Admin_Api
begin

text \<open>
  Realms (\<^verbatim>\<open>internal/keycloak/realmsync.go\<close>): the representation a KeycloakRealm stands
  for, the reconciliation that creates the realm or merges the representation into the
  live one, and the deletion that spares the master realm. The partial result that the
  Go functions return beside an error is left out: no caller reads it.
\<close>

section \<open>The wanted representation\<close>

definition master_realm :: string where "master_realm = ''master''"

abbreviation set_key :: "string \<Rightarrow> json \<Rightarrow> representation \<Rightarrow> representation" where
  "set_key k v m \<equiv> AList.update k v m"

definition default_expiration :: int where "default_expiration = 15552000"

definition apply_events :: "realm_events \<Rightarrow> representation \<Rightarrow> representation" where
  "apply_events ev desired =
     set_key ''attributes'' (JObj [(''adminEventsExpiration'',
        JStr (format_int (int64_value (re_admin_events_expiration ev) default_expiration)))])
    (set_key ''eventsExpiration'' (JFloat (float64_value (re_events_expiration ev) default_expiration))
    (set_key ''adminEventsDetailsEnabled'' (JBool (bool_value (re_admin_events_details_enabled ev) True))
    (set_key ''adminEventsEnabled'' (JBool (bool_value (re_admin_events_enabled ev) True))
    (set_key ''eventsEnabled'' (JBool (bool_value (re_events_enabled ev) True)) desired))))"

definition apply_brute_force_protection ::
    "realm_brute_force_protection \<Rightarrow> representation \<Rightarrow> representation" where
  "apply_brute_force_protection bf desired =
     set_key ''permanentLockout'' (JBool False)
    (set_key ''waitIncrementSeconds'' (JFloat (float64_value (bf_wait_increment_seconds bf) 60))
    (set_key ''failureFactor'' (JFloat (float64_value (bf_failure_factor bf) 30))
    (set_key ''quickLoginCheckMilliSeconds'' (JFloat (float64_value (bf_quick_login_check_milli_seconds bf) 1000))
    (set_key ''minimumQuickLoginWaitSeconds'' (JFloat (float64_value (bf_minimum_quick_login_wait_seconds bf) 60))
    (set_key ''maxFailureWaitSeconds'' (JFloat (float64_value (bf_max_failure_wait_seconds bf) 900))
    (set_key ''maxDeltaTimeSeconds'' (JFloat (float64_value (bf_max_delta_time_seconds bf) 43200))
    (set_key ''bruteForceProtected'' (JBool (bool_value (bf_protected bf) True)) desired)))))))"

definition set_nonempty :: "string \<Rightarrow> string \<Rightarrow> representation \<Rightarrow> representation" where
  "set_nonempty k v m = (if v = [] then m else set_key k (JStr v) m)"

definition apply_theme :: "realm_theme option \<Rightarrow> representation \<Rightarrow> representation" where
  "apply_theme theme desired =
     (case theme of
        None \<Rightarrow> desired
      | Some t \<Rightarrow> set_nonempty ''emailTheme'' (rt_email t) (set_nonempty ''accountTheme'' (rt_account t)
          (set_nonempty ''adminTheme'' (rt_admin t) (set_nonempty ''loginTheme'' (rt_login t) desired))))"

definition desired_realm_representation :: "keycloak_realm_spec \<Rightarrow> representation" where
  "desired_realm_representation spec =
     (let base = [(''realm'', JStr (rs_realm spec)), (''enabled'', JBool (bool_value (rs_enabled spec) True))];
          named = set_nonempty ''displayName'' (rs_display_name spec) base;
          remembered = set_key ''rememberMe'' (JBool (bool_value (rs_remember_me spec) True))
            (set_key ''displayNameHtml'' (JStr (rs_display_name_html spec)) named);
          policed = (case rs_password_policy spec of
                       None \<Rightarrow> remembered
                     | Some p \<Rightarrow> set_key ''passwordPolicy'' (JStr p) remembered)
      in apply_theme (rs_theme spec)
           (apply_brute_force_protection (rs_brute_force_protection spec)
             (apply_events (rs_events spec) policed)))"

section \<open>Reconciliation and deletion\<close>

record realm_sync_result =
  rr_created :: bool
  rr_updated :: bool

definition unchanged_realm :: realm_sync_result where
  "unchanged_realm = \<lparr>rr_created = False, rr_updated = False\<rparr>"

definition unchanged :: "representation \<Rightarrow> representation \<Rightarrow> bool" where
  "unchanged live merged = deep_equal (JObj live) (JObj merged)"

definition reconcile_realm :: "env \<Rightarrow> nat \<Rightarrow> keycloak_realm_spec \<Rightarrow> realm_sync_result fallible" where
  "reconcile_realm env a spec =
     (let desired = desired_realm_representation spec; nam = rs_realm spec in
      try_wrap (''get keycloak realm '' @ quoted nam) (get_realm env a nam) (\<lambda>live.
      case live of
        None \<Rightarrow>
          try_wrap (''create keycloak realm '' @ quoted nam) (create_realm env a desired) (\<lambda>_.
          ok (unchanged_realm\<lparr>rr_created := True\<rparr>))
      | Some l \<Rightarrow>
          (let merged = merge_representation l desired in
           if unchanged l merged then ok unchanged_realm
           else try_wrap (''update keycloak realm '' @ quoted nam) (update_realm env a nam merged) (\<lambda>_.
                ok (unchanged_realm\<lparr>rr_updated := True\<rparr>)))))"

definition delete_declared_realm :: "env \<Rightarrow> nat \<Rightarrow> keycloak_realm_spec \<Rightarrow> unit fallible" where
  "delete_declared_realm env a spec =
     (let nam = rs_realm spec in
      if nam = master_realm then ok ()
      else try_wrap (''get keycloak realm '' @ quoted nam) (get_realm env a nam) (\<lambda>live.
        case live of
          None \<Rightarrow> ok ()
        | Some l \<Rightarrow> try_wrap (''delete keycloak realm '' @ quoted nam) (delete_realm env a nam) ok))"

section \<open>What the operator wants stays wanted\<close>

lemma wf_set_nonempty: "wf_rep m \<Longrightarrow> wf_rep (set_nonempty k v m)"
  by (simp add: set_nonempty_def wf_rep_update)

lemma wf_desired_realm: "wf_rep (desired_realm_representation spec)"
  unfolding desired_realm_representation_def apply_theme_def apply_brute_force_protection_def
    apply_events_def Let_def
  by (auto intro!: wf_rep_update wf_set_nonempty split: option.split)

text \<open>A live representation that already holds what is wanted is left alone.\<close>

lemma covered_unchanged: "covered desired live \<Longrightarrow> wf_rep live \<Longrightarrow> unchanged live (merge_representation live desired)"
  by (simp add: unchanged_def covered_merge_id deep_equal_rep_refl del: deep_equal.simps)

lemma merged_unchanged:
  "wf_rep live \<Longrightarrow> wf_rep desired \<Longrightarrow>
     unchanged (merge_representation live desired)
       (merge_representation (merge_representation live desired) desired)"
  by (intro covered_unchanged merge_covers wf_merge)

text \<open>
  A realm that holds every field of its KeycloakRealm is read once and not written,
  whatever else an administrator has set in it. A realm as the operator last updated it is
  such a realm, so a reconciliation never finds drift of its own making.
\<close>

theorem reconcile_realm_settles:
  assumes "run_state (get_realm env a (rs_realm spec)) s = (Inr (Some live), s')" and "wf_rep live"
    and "covered (desired_realm_representation spec) live \<or>
         (\<exists>before. wf_rep before \<and> live = merge_representation before (desired_realm_representation spec))"
  shows "run_state (reconcile_realm env a spec) s = (Inr unchanged_realm, s')"
proof -
  have "unchanged live (merge_representation live (desired_realm_representation spec))"
    using assms(2,3) covered_unchanged merged_unchanged wf_desired_realm by blast
  with assms(1) show ?thesis by (simp add: reconcile_realm_def Let_def)
qed

text \<open>The writes of a realm reconciliation: the wanted realm, or a live one with it merged in.\<close>

definition realm_write :: "keycloak_realm_spec \<Rightarrow> http_method \<Rightarrow> string \<Rightarrow> json option \<Rightarrow> bool" where
  "realm_write spec m path body \<longleftrightarrow>
     (m = POST \<and> path = ''/admin/realms'' \<and> body = Some (JObj (desired_realm_representation spec))) \<or>
     (m = PUT \<and> path = realm_path (rs_realm spec) [] \<and>
        (\<exists>live. body = Some (JObj (merge_representation live (desired_realm_representation spec)))))"

lemma reconcile_realm_writes: "emits (sends (realm_write spec)) (reconcile_realm env a spec)"
  unfolding reconcile_realm_def create_realm_def update_realm_def Let_def
  by (auto intro!: emits_intros simp: realm_write_def)

text \<open>
  C34. Deleting a KeycloakRealm removes at most the realm it names, and never the master
  realm: for that one not a single request is made.
\<close>

theorem master_realm_never_deleted:
  "emits (sends (\<lambda>m path body. m = DELETE \<and> path = realm_path (rs_realm spec) [] \<and> body = None \<and>
       rs_realm spec \<noteq> master_realm)) (delete_declared_realm env a spec) \<and>
   run_state (delete_declared_realm env a (spec\<lparr>rs_realm := master_realm\<rparr>)) s = (Inr (), s)"
proof
  show "emits (sends (\<lambda>m path body. m = DELETE \<and> path = realm_path (rs_realm spec) [] \<and> body = None \<and>
       rs_realm spec \<noteq> master_realm)) (delete_declared_realm env a spec)"
    unfolding delete_declared_realm_def delete_realm_def Let_def by (auto intro!: emits_intros)
qed (simp add: delete_declared_realm_def)

definition sample_events :: realm_events where
  "sample_events =
     \<lparr>re_events_enabled = None, re_admin_events_enabled = Some False,
      re_admin_events_details_enabled = None, re_events_expiration = Some 60,
      re_admin_events_expiration = None\<rparr>"

definition sample_realm :: keycloak_realm_spec where
  "sample_realm =
     \<lparr>rs_realm = ''neteye'', rs_display_name = [], rs_display_name_html = [],
      rs_password_policy = Some ''length(12)'', rs_enabled = None, rs_remember_me = None,
      rs_events = sample_events,
      rs_brute_force_protection =
        \<lparr>bf_protected = None, bf_max_delta_time_seconds = None, bf_max_failure_wait_seconds = None,
         bf_minimum_quick_login_wait_seconds = None, bf_quick_login_check_milli_seconds = None,
         bf_failure_factor = None, bf_wait_increment_seconds = None\<rparr>,
      rs_theme = None, rs_deletion_policy = PolicyOrphan\<rparr>"

text \<open>A Keycloak that answers every request with one value.\<close>

definition constant_keycloak ::
    "json \<Rightarrow> trace \<Rightarrow> string \<Rightarrow> http_method \<Rightarrow> string \<Rightarrow> string \<Rightarrow> json option \<Rightarrow> http_answer" where
  "constant_keycloak j t base m path token body = Answer 200 ''200 OK'' ''json''"

definition keycloak_env :: "json \<Rightarrow> env" where
  "keycloak_env j = memory_env [] (constant_keycloak j) (\<lambda>raw. Inr j)"

definition one_api :: op_state where
  "one_api = initial_state\<lparr>st_apis := [new_admin_api ''http://kc''
     \<lparr>cred_username = ''admin'', cred_password = ''secret''\<rparr>]\<rparr>"

lemma keycloak_env_simps [simp]:
  "env_admin (keycloak_env j) = constant_keycloak j"
  "env_decode (keycloak_env j) = (\<lambda>raw. Inr j)"
  "env_token (keycloak_env j) = (\<lambda>t base user pass. Answer 200 ''200 OK'' ''token'')"
  "env_decode_token (keycloak_env j) = (\<lambda>raw. Inr (''token'', 60))"
  "env_now (keycloak_env j) = (\<lambda>t. 0)"
  by (simp_all add: keycloak_env_def memory_env_def)

text \<open>In the example Keycloak a read returns the constant value.\<close>

lemma run_constant_request:
  "\<exists>s'. run_state (do_request (keycloak_env j) a m path body) s = (Inr ''json'', s')"
proof -
  have "\<exists>token s'. run_state (authenticate (keycloak_env j) a) s = (Inr token, s')" for s
    by (simp add: authenticate_def fetch_token_def request_token_def accept_token_def store_token_def
      read_clock_def run_state_bind)
  then obtain token s' where "run_state (authenticate (keycloak_env j) a) s = (Inr token, s')" by blast
  then show ?thesis
    by (simp add: do_request_def run_state_bind admin_request_def constant_keycloak_def read_answer_def)
qed

lemma constant_body: "trim_space ''json'' = ''json''"
  by (simp add: trim_space_def trim_left_def is_space_def)

lemma run_constant_read:
  assumes "into j = Inr x"
  shows "\<exists>s'. run_state (do_read (keycloak_env j) a path fallback into) s = (Inr x, s')"
  using run_constant_request [of j a GET path None s] assms
  by (auto simp: do_read_def constant_body)

lemma run_constant_get_one:
  obtains s' where "run_state (get_one (keycloak_env (JObj m)) a path) s = (Inr (Some m), s')"
  using run_constant_read [of into_representation "JObj m" "Some m" a path None s]
  by (auto simp: get_one_def into_representation_def)

lemma run_constant_get_many:
  obtains s' where "run_state (get_many (keycloak_env (JArr [JObj m])) a path) s = (Inr [m], s')"
  using run_constant_read [of into_representations "JArr [JObj m]" "[m]" a path "[]" s]
  by (auto simp: get_many_def into_representations_def into_representation_def)

theorem reconcile_realm_settles_witness:
  "\<exists>s'. run_state (reconcile_realm (keycloak_env (JObj (desired_realm_representation sample_realm))) 0 sample_realm)
     one_api = (Inr unchanged_realm, s')"
proof -
  let ?live = "desired_realm_representation sample_realm"
  obtain s' where "run_state (get_one (keycloak_env (JObj ?live)) 0 (realm_path (rs_realm sample_realm) [])) one_api
      = (Inr (Some ?live), s')"
    by (rule run_constant_get_one)
  then have "run_state (get_realm (keycloak_env (JObj ?live)) 0 (rs_realm sample_realm)) one_api
      = (Inr (Some ?live), s')"
    by (simp add: get_realm_def absent_on_404_def)
  then have "run_state (reconcile_realm (keycloak_env (JObj ?live)) 0 sample_realm) one_api
      = (Inr unchanged_realm, s')"
    by (rule reconcile_realm_settles) (intro wf_desired_realm, intro disjI1 covered_refl wf_desired_realm)
  then show ?thesis by (rule exI)
qed

end
