(* ===== verification/User_Sync.thy ===== *)
theory User_Sync
  imports Realm_Sync
begin

text \<open>
  Accounts (\<^verbatim>\<open>internal/keycloak/usersync.go\<close>): an account is created with its password, or
  adopted and merged; an existing password is only reset on request; declared realm roles
  and groups are added and no other is removed.
\<close>

section \<open>The wanted account\<close>

record user_credential =
  uc_password :: string
  uc_temporary :: bool
  uc_rotate :: bool

record user_sync_result =
  ur_user_id :: string
  ur_created :: bool
  ur_adopted :: bool
  ur_updated :: bool
  ur_password_set :: bool

definition user_realm :: "keycloak_user_spec \<Rightarrow> string" where
  "user_realm spec = (if us_realm spec = [] then master_realm else us_realm spec)"

definition desired_user_representation :: "keycloak_user_spec \<Rightarrow> representation" where
  "desired_user_representation spec =
     (let base = [(''username'', JStr (us_username spec)), (''enabled'', JBool (bool_value (us_enabled spec) True))];
          mailed = (if us_email spec = [] then base
                    else set_key ''emailVerified'' (JBool (us_email_verified spec))
                           (set_key ''email'' (JStr (us_email spec)) base))
      in set_nonempty ''lastName'' (us_last_name spec) (set_nonempty ''firstName'' (us_first_name spec) mailed))"

definition credential_json :: "user_credential \<Rightarrow> json" where
  "credential_json cred =
     JArr [JObj [(''type'', JStr ''password''), (''value'', JStr (uc_password cred)),
                 (''temporary'', JBool (uc_temporary cred))]]"

definition with_credential :: "user_credential \<Rightarrow> representation \<Rightarrow> representation" where
  "with_credential cred desired =
     (if uc_password cred = [] then desired else set_key ''credentials'' (credential_json cred) desired)"

definition user_password_policy :: "env \<Rightarrow> nat \<Rightarrow> keycloak_user_spec \<Rightarrow> password_policy fallible" where
  "user_password_policy env a spec = get_password_policy env a (user_realm spec)"

section \<open>Roles and groups\<close>

definition missing_role ::
    "env \<Rightarrow> nat \<Rightarrow> string \<Rightarrow> (string \<times> representation) list \<Rightarrow> string \<Rightarrow> representation list \<Rightarrow>
     representation list fallible" where
  "missing_role env a realm assigned nam missing =
     (if nam \<in> set (keys_of assigned) then ok missing
      else try_wrap (''get realm role '' @ quoted nam) (get_realm_role env a realm nam) (\<lambda>role.
        case role of
          None \<Rightarrow> fail (Msg (''realm role '' @ quoted nam @ '' does not exist in realm '' @ quoted realm))
        | Some r \<Rightarrow> ok (missing @ [[(''id'', JStr (string_value r ''id'')), (''name'', JStr (string_value r ''name''))]])))"

definition reconcile_realm_roles ::
    "env \<Rightarrow> nat \<Rightarrow> string \<Rightarrow> string \<Rightarrow> string list option \<Rightarrow> bool fallible" where
  "reconcile_realm_roles env a realm user_id desired =
     (case desired of
        None \<Rightarrow> ok False
      | Some names \<Rightarrow>
          try_wrap ''list realm roles'' (list_user_realm_roles env a realm user_id) (\<lambda>assigned.
          try_ok (for_each (missing_role env a realm assigned) names []) (\<lambda>missing.
          if missing = [] then ok False
          else try_wrap ''add realm roles'' (add_user_realm_roles env a realm user_id missing) (\<lambda>_. ok True))))"

definition join_group ::
    "env \<Rightarrow> nat \<Rightarrow> string \<Rightarrow> string \<Rightarrow> (string \<times> string) list \<Rightarrow> string \<Rightarrow> bool \<Rightarrow> bool fallible" where
  "join_group env a realm user_id assigned group_path changed =
     (if group_path \<in> set (keys_of assigned) then ok changed
      else try_wrap (''get group '' @ quoted group_path) (get_group_by_path env a realm group_path) (\<lambda>group.
        case group of
          None \<Rightarrow> fail (Msg (''group '' @ quoted group_path @ '' does not exist in realm '' @ quoted realm))
        | Some g \<Rightarrow>
            try_wrap (''add user to group '' @ quoted group_path)
              (add_user_to_group env a realm user_id (string_value g ''id'')) (\<lambda>_. ok True)))"

definition reconcile_user_groups ::
    "env \<Rightarrow> nat \<Rightarrow> string \<Rightarrow> string \<Rightarrow> string list option \<Rightarrow> bool fallible" where
  "reconcile_user_groups env a realm user_id desired =
     (case desired of
        None \<Rightarrow> ok False
      | Some paths \<Rightarrow>
          try_wrap ''list user groups'' (list_user_groups env a realm user_id) (\<lambda>assigned.
          for_each (join_group env a realm user_id assigned) paths False))"

section \<open>Reconciliation and deletion\<close>

definition place_user ::
    "env \<Rightarrow> nat \<Rightarrow> keycloak_user_spec \<Rightarrow> user_credential \<Rightarrow> representation option \<Rightarrow> user_sync_result fallible" where
  "place_user env a spec cred live =
     (let desired = desired_user_representation spec; realm = user_realm spec; nam = us_username spec in
      case live of
        None \<Rightarrow>
          try_wrap (''create keycloak user '' @ quoted nam)
            (create_user env a realm (with_credential cred desired)) (\<lambda>ident.
          ok \<lparr>ur_user_id = ident, ur_created = True, ur_adopted = False, ur_updated = False,
              ur_password_set = (uc_password cred \<noteq> [])\<rparr>)
      | Some l \<Rightarrow>
          (let merged = merge_representation l desired;
               result = \<lparr>ur_user_id = string_value l ''id'', ur_created = False, ur_adopted = True,
                         ur_updated = False, ur_password_set = False\<rparr>
           in if unchanged l merged then ok result
              else try_wrap (''update keycloak user '' @ quoted nam)
                     (update_user env a realm (ur_user_id result) merged) (\<lambda>_.
                   ok (result\<lparr>ur_updated := True\<rparr>))))"

definition rotate_password ::
    "env \<Rightarrow> nat \<Rightarrow> keycloak_user_spec \<Rightarrow> user_credential \<Rightarrow> user_sync_result \<Rightarrow> user_sync_result fallible" where
  "rotate_password env a spec cred result =
     (if uc_password cred \<noteq> [] \<and> uc_rotate cred \<and> \<not> ur_created result then
        try_wrap (''set password of keycloak user '' @ quoted (us_username spec))
          (reset_user_password env a (user_realm spec) (ur_user_id result) (uc_password cred) (uc_temporary cred))
          (\<lambda>_. ok (result\<lparr>ur_password_set := True\<rparr>))
      else ok result)"

definition reconcile_user ::
    "env \<Rightarrow> nat \<Rightarrow> keycloak_user_spec \<Rightarrow> user_credential \<Rightarrow> user_sync_result fallible" where
  "reconcile_user env a spec cred =
     (let realm = user_realm spec in
      try_wrap (''get keycloak user '' @ quoted (us_username spec)) (get_user env a realm (us_username spec)) (\<lambda>live.
      try_ok (place_user env a spec cred live) (\<lambda>placed.
      try_ok (rotate_password env a spec cred placed) (\<lambda>result.
      try_ok (reconcile_realm_roles env a realm (ur_user_id result) (us_realm_roles spec)) (\<lambda>roles_changed.
      try_ok (reconcile_user_groups env a realm (ur_user_id result) (us_groups spec)) (\<lambda>groups_changed.
      ok (if roles_changed \<or> groups_changed then result\<lparr>ur_updated := True\<rparr> else result)))))))"

definition delete_declared_user :: "env \<Rightarrow> nat \<Rightarrow> keycloak_user_spec \<Rightarrow> unit fallible" where
  "delete_declared_user env a spec =
     (let realm = user_realm spec; nam = us_username spec in
      try_wrap (''get keycloak user '' @ quoted nam) (get_user env a realm nam) (\<lambda>live.
      case live of
        None \<Rightarrow> ok ()
      | Some l \<Rightarrow> try_wrap (''delete keycloak user '' @ quoted nam)
                    (delete_user env a realm (string_value l ''id'')) ok))"

section \<open>What a reconciliation may write\<close>

text \<open>
  The wanted account never names credentials, so merging it into a live account neither
  sends a password nor clears one.
\<close>

lemma wf_desired_user: "wf_rep (desired_user_representation spec)"
  unfolding desired_user_representation_def Let_def by (auto intro!: wf_rep_update wf_set_nonempty)

lemma desired_user_no_credentials: "map_of (desired_user_representation spec) ''credentials'' = None"
  by (simp add: desired_user_representation_def set_nonempty_def Let_def map_of_update)

lemma merged_user_credentials:
  "map_of (merge_representation live (desired_user_representation spec)) ''credentials'' = map_of live ''credentials''"
  by (rule merge_lookup_other)
     (use desired_user_no_credentials [of spec] in \<open>auto simp: map_of_eq_None_iff\<close>)

text \<open>
  Everything the reconciliation of an account may send: the new account, a live account
  with the wanted fields merged in, a password on request, and additional declared roles
  and groups.
\<close>

definition user_write ::
    "keycloak_user_spec \<Rightarrow> user_credential \<Rightarrow> http_method \<Rightarrow> string \<Rightarrow> json option \<Rightarrow> bool" where
  "user_write spec cred m path body \<longleftrightarrow>
     (m = POST \<and> path = realm_path (user_realm spec) ''/users'' \<and>
        body = Some (JObj (with_credential cred (desired_user_representation spec)))) \<or>
     (m = PUT \<and> (\<exists>ident. path = user_path (user_realm spec) ident []) \<and>
        (\<exists>live. body = Some (JObj (merge_representation live (desired_user_representation spec))))) \<or>
     (m = PUT \<and> (\<exists>ident. path = user_path (user_realm spec) ident ''/reset-password'') \<and>
        uc_password cred \<noteq> [] \<and> uc_rotate cred) \<or>
     (m = POST \<and> (\<exists>ident. path = realm_roles_path (user_realm spec) ident) \<and> us_realm_roles spec \<noteq> None) \<or>
     (m = PUT \<and> (\<exists>ident group. path = user_path (user_realm spec) ident (''/groups/'' @ group)) \<and>
        us_groups spec \<noteq> None \<and> body = None)"

lemma emits_missing_role [emits_intros]: "emits (sends P) (missing_role env a realm assigned nam missing)"
  unfolding missing_role_def by (auto intro!: emits_intros)

lemma reconcile_realm_roles_writes:
  assumes "\<And>roles. desired \<noteq> None \<Longrightarrow> P POST (realm_roles_path realm ident) (Some (JArr roles))"
  shows "emits (sends P) (reconcile_realm_roles env a realm ident desired)"
  unfolding reconcile_realm_roles_def add_user_realm_roles_def
  using assms by (auto intro!: emits_intros)

lemma reconcile_user_groups_writes:
  assumes "\<And>group. desired \<noteq> None \<Longrightarrow> P PUT (user_path realm ident (''/groups/'' @ group)) None"
  shows "emits (sends P) (reconcile_user_groups env a realm ident desired)"
  unfolding reconcile_user_groups_def join_group_def add_user_to_group_def
  using assms by (auto intro!: emits_intros)

lemma account_writes:
  "emits (sends (user_write spec cred)) (reconcile_user env a spec cred)"
proof -
  have place: "emits (sends (user_write spec cred)) (place_user env a spec cred live)" for live
    unfolding place_user_def create_user_def update_user_def Let_def
    by (auto intro!: emits_intros simp: user_write_def)
  have rotate: "emits (sends (user_write spec cred)) (rotate_password env a spec cred result)" for result
    unfolding rotate_password_def reset_user_password_def
    by (auto intro!: emits_intros simp: user_write_def)
  show ?thesis
    unfolding reconcile_user_def Let_def
    by (intro emits_intros place rotate reconcile_realm_roles_writes reconcile_user_groups_writes)
       (auto simp: user_write_def)
qed

text \<open>
  Reconciling an account never deletes anything, takes no role or group away, sends a
  password only for a new account or when a rotation was asked for, and touches roles and
  groups only when the resource declares them.
\<close>

theorem reconcile_user_writes:
  "emits (sends (user_write spec cred)) (reconcile_user env a spec cred)"
  by (rule account_writes)

text \<open>The password of an adopted account is left as it is without a rotation request.\<close>

lemma rotate_password_skipped:
  "\<not> (uc_rotate cred \<and> uc_password cred \<noteq> []) \<Longrightarrow> rotate_password env a spec cred result = ok result"
  by (auto simp: rotate_password_def)

section \<open>A settled account\<close>

interpretation realm_roles: declared_entries "missing_role env a realm assigned"
    "\<lambda>nam. nam \<in> set (keys_of assigned)" for env a realm assigned
  by unfold_locales (simp add: missing_role_def)

interpretation groups: declared_entries "join_group env a realm ident assigned"
    "\<lambda>path. path \<in> set (keys_of assigned)" for env a realm ident assigned
  by unfold_locales (simp add: join_group_def)

lemma roles_settled:
  assumes "run_state (list_user_realm_roles env a realm ident) s = (Inr assigned, s')"
    and "set names \<subseteq> set (keys_of assigned)"
  shows "run_state (reconcile_realm_roles env a realm ident (Some names)) s = (Inr False, s')"
  using assms by (simp add: reconcile_realm_roles_def realm_roles.all_present subset_eq)

lemma groups_settled:
  assumes "run_state (list_user_groups env a realm ident) s = (Inr assigned, s')"
    and "set paths \<subseteq> set (keys_of assigned)"
  shows "run_state (reconcile_user_groups env a realm ident (Some paths)) s = (Inr False, s')"
  using assms by (simp add: reconcile_user_groups_def groups.all_present subset_eq)

text \<open>
  An account that has the declared fields, roles and groups is adopted without a single
  write, whatever further roles, groups and attributes it has: the result carries its
  identifier and reports no change.
\<close>

theorem reconcile_user_settled:
  assumes "run_state (get_user env a (user_realm spec) (us_username spec)) s = (Inr (Some live), s1)"
    and "wf_rep live" and "covered (desired_user_representation spec) live"
    and "us_realm_roles spec = Some names" and "us_groups spec = Some paths"
    and "run_state (list_user_realm_roles env a (user_realm spec) (string_value live ''id'')) s1 = (Inr roles, s2)"
    and "run_state (list_user_groups env a (user_realm spec) (string_value live ''id'')) s2 = (Inr groups, s3)"
    and "set names \<subseteq> set (keys_of roles)" and "set paths \<subseteq> set (keys_of groups)"
    and "\<not> (uc_rotate cred \<and> uc_password cred \<noteq> [])"
  shows "run_state (reconcile_user env a spec cred) s =
     (Inr \<lparr>ur_user_id = string_value live ''id'', ur_created = False, ur_adopted = True,
           ur_updated = False, ur_password_set = False\<rparr>, s3)"
  using assms
  by (simp add: reconcile_user_def place_user_def Let_def covered_unchanged rotate_password_skipped
      roles_settled [OF assms(6,8)] groups_settled [OF assms(7,9)])

text \<open>One value serves as the account, as a role and as a group of the example.\<close>

definition sample_account :: representation where
  "sample_account =
     [(''id'', JStr ''7''), (''username'', JStr ''root''), (''enabled'', JBool True),
      (''name'', JStr ''admin''), (''path'', JStr ''/ops'')]"

definition sample_user :: keycloak_user_spec where
  "sample_user =
     \<lparr>us_realm = [], us_username = ''root'', us_enabled = None, us_email = [], us_email_verified = False,
      us_first_name = [], us_last_name = [], us_realm_roles = Some [''admin''], us_groups = Some [''/ops''],
      us_credential = None, us_deletion_policy = PolicyOrphan\<rparr>"

theorem reconcile_user_settled_witness:
  "\<exists>s'. run_state (reconcile_user (keycloak_env (JArr [JObj sample_account])) 0 sample_user
       \<lparr>uc_password = ''pw'', uc_temporary = False, uc_rotate = False\<rparr>) one_api =
     (Inr \<lparr>ur_user_id = ''7'', ur_created = False, ur_adopted = True, ur_updated = False,
           ur_password_set = False\<rparr>, s')"
proof -
  let ?env = "keycloak_env (JArr [JObj sample_account])"
  have ident: "string_value sample_account ''id'' = ''7''"
    by (simp add: sample_account_def string_value_def)
  obtain s1 where "run_state (get_many ?env 0 (realm_path (user_realm sample_user)
      (''/users?username='' @ query_escape (us_username sample_user) @ ''&exact=true''))) one_api
      = (Inr [sample_account], s1)"
    by (rule run_constant_get_many)
  then have "run_state (get_user ?env 0 (user_realm sample_user) (us_username sample_user)) one_api
      = (Inr (Some sample_account), s1)"
    by (simp add: get_user_def sample_user_def sample_account_def string_value_def)
  moreover obtain s2 where "run_state (get_many ?env 0 (realm_roles_path (user_realm sample_user) ''7'')) s1
      = (Inr [sample_account], s2)"
    by (rule run_constant_get_many)
  then have "run_state (list_user_realm_roles ?env 0 (user_realm sample_user) ''7'') s1
      = (Inr (keyed_by ''name'' id [sample_account]), s2)"
    by (simp add: list_user_realm_roles_def)
  moreover obtain s3 where "run_state (get_many ?env 0 (user_path (user_realm sample_user) ''7'' ''/groups'')) s2
      = (Inr [sample_account], s3)"
    by (rule run_constant_get_many)
  then have "run_state (list_user_groups ?env 0 (user_realm sample_user) ''7'') s2
      = (Inr (keyed_by ''path'' id_of [sample_account]), s3)"
    by (simp add: list_user_groups_def)
  moreover have "covered (desired_user_representation sample_user) sample_account"
    by (simp add: desired_user_representation_def sample_user_def sample_account_def set_nonempty_def
      bool_value_def)
  moreover have "wf_rep sample_account" by (simp add: sample_account_def)
  ultimately show ?thesis
    using reconcile_user_settled [of ?env 0 sample_user one_api sample_account s1 "[''admin'']" "[''/ops'']"
        _ s2 _ s3 "\<lparr>uc_password = ''pw'', uc_temporary = False, uc_rotate = False\<rparr>"]
    by (simp add: ident sample_user_def keyed_by_def sample_account_def string_value_def exI)
qed

end
