(* ===== verification/Client_Sync.thy ===== *)
theory Client_Sync
  imports User_Sync
begin

text \<open>
  Clients (\<^verbatim>\<open>internal/keycloak/clientsync.go\<close>): the client itself is created or merged,
  then its service account roles, protocol mappers and client scopes are added where the
  resource declares them. The maps of roles per client are walked in the order of their
  association list.
\<close>

section \<open>The wanted representations\<close>

definition default_scope_kind :: string where "default_scope_kind = ''default''"
definition optional_scope_kind :: string where "optional_scope_kind = ''optional''"
definition open_id_connect :: string where "open_id_connect = ''openid-connect''"

record client_sync_result =
  clr_uuid :: string
  clr_created :: bool
  clr_updated :: bool

definition client_realm :: "keycloak_client_spec \<Rightarrow> string" where
  "client_realm spec = (if cs_realm spec = [] then ''master'' else cs_realm spec)"

definition set_declared :: "string \<Rightarrow> ('a \<Rightarrow> json) \<Rightarrow> 'a option \<Rightarrow> representation \<Rightarrow> representation" where
  "set_declared k render v m = (case v of None \<Rightarrow> m | Some x \<Rightarrow> set_key k (render x) m)"

definition desired_client_representation :: "keycloak_client_spec \<Rightarrow> string \<Rightarrow> representation" where
  "desired_client_representation spec client_secret =
     (let base =
        [(''clientId'', JStr (cs_client_id spec)),
         (''protocol'', JStr open_id_connect),
         (''enabled'', JBool (bool_value (cs_enabled spec) True)),
         (''publicClient'', JBool (cs_public_client spec)),
         (''standardFlowEnabled'', JBool (bool_value (cs_standard_flow spec) True)),
         (''directAccessGrantsEnabled'', JBool (cs_direct_access spec)),
         (''serviceAccountsEnabled'', JBool (cs_allow_client_credentials_grant spec))];
          named = set_nonempty ''rootUrl'' (cs_root_url spec)
            (set_nonempty ''description'' (cs_description spec) (set_nonempty ''name'' (cs_name spec) base));
          listed = set_declared ''attributes'' (\<lambda>m. JObj (string_map m)) (cs_attributes spec)
            (set_declared ''webOrigins'' (\<lambda>xs. JArr (any_slice xs)) (cs_web_origins spec)
            (set_declared ''redirectUris'' (\<lambda>xs. JArr (any_slice xs)) (cs_redirect_uris spec) named))
      in if \<not> cs_public_client spec \<and> client_secret \<noteq> []
         then set_key ''secret'' (JStr client_secret) listed else listed)"

definition desired_mapper_representation :: "protocol_mapper \<Rightarrow> representation" where
  "desired_mapper_representation mapper =
     [(''name'', JStr (pm_name mapper)),
      (''protocol'', JStr (if pm_protocol mapper = [] then open_id_connect else pm_protocol mapper)),
      (''protocolMapper'', JStr (pm_protocol_mapper mapper)),
      (''config'', JObj (string_map (pm_config mapper)))]"

section \<open>Protocol mappers\<close>

definition place_mapper ::
    "env \<Rightarrow> nat \<Rightarrow> string \<Rightarrow> string \<Rightarrow> (string \<times> representation) list \<Rightarrow> protocol_mapper \<Rightarrow> bool \<Rightarrow> bool fallible" where
  "place_mapper env a realm uuid live_by_name mapper changed =
     (let want = desired_mapper_representation mapper in
      case map_of live_by_name (pm_name mapper) of
        None \<Rightarrow>
          try_wrap (''create protocol mapper '' @ quoted (pm_name mapper))
            (create_protocol_mapper env a realm uuid want) (\<lambda>_. ok True)
      | Some current \<Rightarrow>
          (let merged = merge_representation current want in
           if unchanged current merged then ok changed
           else try_wrap (''update protocol mapper '' @ quoted (pm_name mapper))
                  (update_protocol_mapper env a realm uuid (string_value current ''id'') merged) (\<lambda>_. ok True)))"

definition reconcile_protocol_mappers ::
    "env \<Rightarrow> nat \<Rightarrow> string \<Rightarrow> string \<Rightarrow> protocol_mapper list option \<Rightarrow> bool fallible" where
  "reconcile_protocol_mappers env a realm uuid desired =
     (case desired of
        None \<Rightarrow> ok False
      | Some mappers \<Rightarrow>
          try_wrap ''list protocol mappers'' (list_protocol_mappers env a realm uuid) (\<lambda>live.
          for_each (place_mapper env a realm uuid (keyed_by ''name'' id live)) mappers False))"

section \<open>Client scopes\<close>

definition assign_scope ::
    "env \<Rightarrow> nat \<Rightarrow> string \<Rightarrow> string \<Rightarrow> string \<Rightarrow> (string \<times> string) list \<Rightarrow> (string \<times> string) list \<Rightarrow> string \<Rightarrow>
     bool \<Rightarrow> bool fallible" where
  "assign_scope env a realm uuid kind assigned realm_scopes nam changed =
     (if nam \<in> set (keys_of assigned) then ok changed
      else (case map_of realm_scopes nam of
              None \<Rightarrow> fail (Msg (''client scope '' @ quoted nam @ '' does not exist in realm '' @ quoted realm))
            | Some scope_id \<Rightarrow>
                try_wrap (''add '' @ kind @ '' client scope '' @ quoted nam)
                  (add_client_scope env a realm uuid kind scope_id) (\<lambda>_. ok True)))"

definition reconcile_client_scopes ::
    "env \<Rightarrow> nat \<Rightarrow> string \<Rightarrow> string \<Rightarrow> string \<Rightarrow> string list option \<Rightarrow> bool fallible" where
  "reconcile_client_scopes env a realm uuid kind desired =
     (case desired of
        None \<Rightarrow> ok False
      | Some names \<Rightarrow>
          try_wrap (''list '' @ kind @ '' client scopes'') (list_client_scopes env a realm uuid kind) (\<lambda>assigned.
          try_wrap ''list realm client scopes'' (list_realm_client_scopes env a realm) (\<lambda>realm_scopes.
          for_each (assign_scope env a realm uuid kind assigned realm_scopes) names False)))"

section \<open>Service account roles\<close>

definition missing_client_role ::
    "env \<Rightarrow> nat \<Rightarrow> string \<Rightarrow> string \<Rightarrow> string \<Rightarrow> (string \<times> representation) list \<Rightarrow> string \<Rightarrow>
     representation list \<Rightarrow> representation list fallible" where
  "missing_client_role env a realm client_id owner_uuid assigned nam missing =
     (if nam \<in> set (keys_of assigned) then ok missing
      else try_wrap (''get role '' @ quoted nam @ '' of client '' @ quoted client_id)
        (get_client_role env a realm owner_uuid nam) (\<lambda>role.
        case role of
          None \<Rightarrow> fail (Msg (''client '' @ quoted client_id @ '' has no role '' @ quoted nam
                   @ '' in realm '' @ quoted realm))
        | Some r \<Rightarrow> ok (missing @ [[(''id'', JStr (string_value r ''id'')), (''name'', JStr (string_value r ''name''))]])))"

definition grant_client_roles ::
    "env \<Rightarrow> nat \<Rightarrow> string \<Rightarrow> string \<Rightarrow> string \<times> string list \<Rightarrow> bool \<Rightarrow> bool fallible" where
  "grant_client_roles env a realm account_id entry changed =
     (let client_id = fst entry; roles = snd entry in
      try_wrap (''get client '' @ quoted client_id @ '' owning service account roles'')
        (get_client env a realm client_id) (\<lambda>role_owner.
      case role_owner of
        None \<Rightarrow> fail (Msg (''client '' @ quoted client_id @ '' does not exist in realm '' @ quoted realm))
      | Some own \<Rightarrow>
          (let owner_uuid = string_value own ''id'' in
           try_wrap (''list '' @ quoted client_id @ '' roles of the service account'')
             (list_user_client_roles env a realm account_id owner_uuid) (\<lambda>assigned.
           try_ok (for_each (missing_client_role env a realm client_id owner_uuid assigned) roles []) (\<lambda>missing.
           if missing = [] then ok changed
           else try_wrap (''add '' @ quoted client_id @ '' roles to the service account'')
                  (add_user_client_roles env a realm account_id owner_uuid missing) (\<lambda>_. ok True))))))"

definition declared_client_roles :: "keycloak_client_spec \<Rightarrow> (string \<times> string list) list option" where
  "declared_client_roles spec = Option.bind (cs_service_account spec) sa_client_roles"

definition reconcile_service_account_roles ::
    "env \<Rightarrow> nat \<Rightarrow> string \<Rightarrow> string \<Rightarrow> keycloak_client_spec \<Rightarrow> bool fallible" where
  "reconcile_service_account_roles env a realm uuid spec =
     (case declared_client_roles spec of
        None \<Rightarrow> ok False
      | Some client_roles \<Rightarrow>
          if \<not> cs_allow_client_credentials_grant spec
          then fail (Msg (''client '' @ quoted (cs_client_id spec)
                 @ '' declares service account roles but its service account is disabled''))
          else try_wrap (''get service account user of client '' @ quoted (cs_client_id spec))
            (get_service_account_user env a realm uuid) (\<lambda>account.
            case account of
              None \<Rightarrow> fail (Msg (''client '' @ quoted (cs_client_id spec) @ '' has no service account user''))
            | Some acc \<Rightarrow>
                for_each (grant_client_roles env a realm (string_value acc ''id'')) client_roles False))"

section \<open>Reconciliation and deletion\<close>

definition place_client ::
    "env \<Rightarrow> nat \<Rightarrow> keycloak_client_spec \<Rightarrow> string \<Rightarrow> representation option \<Rightarrow> client_sync_result fallible" where
  "place_client env a spec client_secret live =
     (let desired = desired_client_representation spec client_secret;
          realm = client_realm spec; nam = cs_client_id spec in
      case live of
        None \<Rightarrow>
          try_wrap (''create keycloak client '' @ quoted nam) (create_client env a realm desired) (\<lambda>uuid.
          ok \<lparr>clr_uuid = uuid, clr_created = True, clr_updated = False\<rparr>)
      | Some l \<Rightarrow>
          (let uuid = string_value l ''id''; merged = merge_representation l desired in
           if unchanged l merged then ok \<lparr>clr_uuid = uuid, clr_created = False, clr_updated = False\<rparr>
           else try_wrap (''update keycloak client '' @ quoted nam) (update_client env a realm uuid merged) (\<lambda>_.
                ok \<lparr>clr_uuid = uuid, clr_created = False, clr_updated = True\<rparr>)))"

definition reconcile_client ::
    "env \<Rightarrow> nat \<Rightarrow> keycloak_client_spec \<Rightarrow> string \<Rightarrow> client_sync_result fallible" where
  "reconcile_client env a spec client_secret =
     (let realm = client_realm spec in
      try_wrap (''get keycloak client '' @ quoted (cs_client_id spec))
        (get_client env a realm (cs_client_id spec)) (\<lambda>live.
      try_ok (place_client env a spec client_secret live) (\<lambda>result.
      try_ok (reconcile_service_account_roles env a realm (clr_uuid result) spec) (\<lambda>account_changed.
      try_ok (reconcile_protocol_mappers env a realm (clr_uuid result) (cs_protocol_mappers spec)) (\<lambda>mappers_changed.
      try_ok (reconcile_client_scopes env a realm (clr_uuid result) default_scope_kind
                (cs_default_client_scopes spec)) (\<lambda>defaults_changed.
      try_ok (reconcile_client_scopes env a realm (clr_uuid result) optional_scope_kind
                (cs_optional_client_scopes spec)) (\<lambda>optionals_changed.
      ok (if account_changed \<or> mappers_changed \<or> defaults_changed \<or> optionals_changed
          then result\<lparr>clr_updated := True\<rparr> else result))))))))"

definition delete_declared_client :: "env \<Rightarrow> nat \<Rightarrow> keycloak_client_spec \<Rightarrow> unit fallible" where
  "delete_declared_client env a spec =
     (let realm = client_realm spec; nam = cs_client_id spec in
      try_wrap (''get keycloak client '' @ quoted nam) (get_client env a realm nam) (\<lambda>live.
      case live of
        None \<Rightarrow> ok ()
      | Some l \<Rightarrow> try_wrap (''delete keycloak client '' @ quoted nam)
                    (delete_client env a realm (string_value l ''id'')) ok))"

section \<open>What a reconciliation may write\<close>

text \<open>
  Everything the reconciliation of a client may send. All of it is a POST or a PUT: the
  undeclared mappers, scopes and roles of a client stay, also when the declared list is
  empty.
\<close>

definition client_write ::
    "keycloak_client_spec \<Rightarrow> string \<Rightarrow> http_method \<Rightarrow> string \<Rightarrow> json option \<Rightarrow> bool" where
  "client_write spec client_secret m path body \<longleftrightarrow>
     (m = POST \<and> path = realm_path (client_realm spec) ''/clients'' \<and>
        body = Some (JObj (desired_client_representation spec client_secret))) \<or>
     (m = PUT \<and> (\<exists>uuid. path = client_path (client_realm spec) uuid []) \<and>
        (\<exists>live. body = Some (JObj (merge_representation live (desired_client_representation spec client_secret))))) \<or>
     (m = POST \<and> (\<exists>ident own. path = client_roles_path (client_realm spec) ident own) \<and>
        declared_client_roles spec \<noteq> None \<and> cs_allow_client_credentials_grant spec) \<or>
     (m \<in> {POST, PUT} \<and> (\<exists>uuid rest. path = mappers_path (client_realm spec) uuid @ rest) \<and>
        cs_protocol_mappers spec \<noteq> None) \<or>
     (m = PUT \<and> (\<exists>uuid scope_id. path = scopes_path (client_realm spec) uuid default_scope_kind @ ''/'' @ scope_id) \<and>
        cs_default_client_scopes spec \<noteq> None) \<or>
     (m = PUT \<and> (\<exists>uuid scope_id. path = scopes_path (client_realm spec) uuid optional_scope_kind @ ''/'' @ scope_id) \<and>
        cs_optional_client_scopes spec \<noteq> None)"

lemma reconcile_protocol_mappers_writes:
  assumes "\<And>m rest body. m \<in> {POST, PUT} \<Longrightarrow> desired \<noteq> None \<Longrightarrow> P m (mappers_path realm uuid @ rest) body"
  shows "emits (sends P) (reconcile_protocol_mappers env a realm uuid desired)"
proof -
  have "P POST (mappers_path realm uuid) body" if "desired \<noteq> None" for body
    using assms [of POST "[]"] that by simp
  then show ?thesis
    unfolding reconcile_protocol_mappers_def place_mapper_def create_protocol_mapper_def
      update_protocol_mapper_def Let_def
    using assms by (auto intro!: emits_intros)
qed

lemma reconcile_client_scopes_writes:
  assumes "\<And>scope_id. desired \<noteq> None \<Longrightarrow> P PUT (scopes_path realm uuid kind @ ''/'' @ scope_id) None"
  shows "emits (sends P) (reconcile_client_scopes env a realm uuid kind desired)"
  unfolding reconcile_client_scopes_def assign_scope_def add_client_scope_def
  using assms by (auto intro!: emits_intros)

lemma emits_missing_client_role [emits_intros]:
  "emits (sends P) (missing_client_role env a realm client_id own assigned nam missing)"
  unfolding missing_client_role_def by (auto intro!: emits_intros)

lemma reconcile_service_account_writes:
  assumes "\<And>ident own roles. declared_client_roles spec \<noteq> None \<Longrightarrow> cs_allow_client_credentials_grant spec \<Longrightarrow>
    P POST (client_roles_path realm ident own) (Some (JArr roles))"
  shows "emits (sends P) (reconcile_service_account_roles env a realm uuid spec)"
  unfolding reconcile_service_account_roles_def grant_client_roles_def add_user_client_roles_def Let_def
  using assms by (auto intro!: emits_intros)

lemma client_writes:
  "emits (sends (client_write spec client_secret)) (reconcile_client env a spec client_secret)"
proof -
  have place: "emits (sends (client_write spec client_secret)) (place_client env a spec client_secret live)" for live
    unfolding place_client_def create_client_def update_client_def Let_def
    by (auto intro!: emits_intros simp: client_write_def)
  show ?thesis
    unfolding reconcile_client_def Let_def
    by (intro emits_intros place reconcile_service_account_writes reconcile_protocol_mappers_writes
        reconcile_client_scopes_writes) (auto simp: client_write_def)
qed

text \<open>
  Reconciling a client deletes nothing and takes nothing away: it creates or merges the
  client, and adds mappers, scopes and service account roles only for the lists the
  resource declares, roles only when the client may use its service account.
\<close>

theorem reconcile_client_writes:
  "emits (sends (client_write spec client_secret)) (reconcile_client env a spec client_secret)"
  by (rule client_writes)

section \<open>A settled client\<close>

text \<open>A public client never gets a secret, a confidential one exactly the one it was given.\<close>

lemma map_of_set_other:
  "k \<noteq> k' \<Longrightarrow> map_of (set_nonempty k' v m) k = map_of m k"
  "k \<noteq> k' \<Longrightarrow> map_of (set_declared k' render w m) k = map_of m k"
  by (simp_all add: set_nonempty_def set_declared_def map_of_update split: option.split)

lemma desired_client_secret:
  "map_of (desired_client_representation spec client_secret) ''secret'' =
     (if \<not> cs_public_client spec \<and> client_secret \<noteq> [] then Some (JStr client_secret) else None)"
  by (simp add: desired_client_representation_def Let_def map_of_update map_of_set_other)

lemma wf_set_declared: "wf_rep m \<Longrightarrow> (\<And>x. v = Some x \<Longrightarrow> wf_json (render x)) \<Longrightarrow> wf_rep (set_declared k render v m)"
  by (simp add: set_declared_def wf_rep_update split: option.split)

lemma wf_any_slice [simp]: "list_all wf_json (any_slice xs)"
  by (simp add: any_slice_def list_all_iff)

text \<open>A Go map names every attribute once.\<close>

lemma wf_desired_client:
  "pred_option (\<lambda>m. distinct (keys_of m)) (cs_attributes spec) \<Longrightarrow>
     wf_rep (desired_client_representation spec client_secret)"
  unfolding desired_client_representation_def Let_def
  by (auto intro!: wf_rep_update wf_set_nonempty wf_set_declared wf_string_map
      simp: option.pred_set del: wf_json.simps)

definition mapper_present :: "(string \<times> representation) list \<Rightarrow> protocol_mapper \<Rightarrow> bool" where
  "mapper_present live_by_name mapper \<longleftrightarrow>
     pred_option (\<lambda>current. wf_rep current \<and> covered (desired_mapper_representation mapper) current)
       (map_of live_by_name (pm_name mapper)) \<and> map_of live_by_name (pm_name mapper) \<noteq> None"

interpretation mappers: declared_entries "place_mapper env a realm uuid live_by_name"
    "mapper_present live_by_name" for env a realm uuid live_by_name
  by unfold_locales (auto simp: place_mapper_def mapper_present_def covered_unchanged Let_def)

interpretation scopes: declared_entries "assign_scope env a realm uuid kind assigned realm_scopes"
    "\<lambda>nam. nam \<in> set (keys_of assigned)" for env a realm uuid kind assigned realm_scopes
  by unfold_locales (simp add: assign_scope_def)

interpretation client_roles: declared_entries
    "missing_client_role env a realm client_id own assigned"
    "\<lambda>nam. nam \<in> set (keys_of assigned)" for env a realm client_id own assigned
  by unfold_locales (simp add: missing_client_role_def)

lemma mappers_settled:
  assumes "run_state (list_protocol_mappers env a realm uuid) s = (Inr live, s')"
    and "list_all (mapper_present (keyed_by ''name'' id live)) declared"
  shows "run_state (reconcile_protocol_mappers env a realm uuid (Some declared)) s = (Inr False, s')"
  using assms by (simp add: reconcile_protocol_mappers_def mappers.all_present list_all_iff)

lemma scopes_settled:
  assumes "run_state (list_client_scopes env a realm uuid kind) s = (Inr assigned, s1)"
    and "run_state (list_realm_client_scopes env a realm) s1 = (Inr known, s2)"
    and "set names \<subseteq> set (keys_of assigned)"
  shows "run_state (reconcile_client_scopes env a realm uuid kind (Some names)) s = (Inr False, s2)"
  using assms by (simp add: reconcile_client_scopes_def scopes.all_present subset_eq)

text \<open>
  Service account roles are never granted to a client whose service account is
  disabled: declaring them is an error that is reported before any request for them.
\<close>

lemma disabled_service_account_rejected:
  assumes "declared_client_roles spec = Some roles" and "\<not> cs_allow_client_credentials_grant spec"
  shows "run_state (reconcile_service_account_roles env a realm uuid spec) s =
     (Inl (Msg (''client '' @ quoted (cs_client_id spec)
        @ '' declares service account roles but its service account is disabled'')), s)"
  using assms by (simp add: reconcile_service_account_roles_def)

text \<open>
  A client whose fields, mappers and scopes are as declared is left alone.
\<close>

lemma reconcile_client_settled:
  assumes "run_state (get_client env a (client_realm spec) (cs_client_id spec)) s = (Inr (Some live), s1)"
    and "wf_rep live" and "covered (desired_client_representation spec client_secret) live"
    and "declared_client_roles spec = None"
    and "cs_protocol_mappers spec = Some declared"
    and "cs_default_client_scopes spec = Some names" and "cs_optional_client_scopes spec = None"
    and "run_state (list_protocol_mappers env a (client_realm spec) (string_value live ''id'')) s1 = (Inr maps, s2)"
    and "list_all (mapper_present (keyed_by ''name'' id maps)) declared"
    and "run_state (list_client_scopes env a (client_realm spec) (string_value live ''id'') default_scope_kind) s2
         = (Inr assigned, s3)"
    and "run_state (list_realm_client_scopes env a (client_realm spec)) s3 = (Inr known, s4)"
    and "set names \<subseteq> set (keys_of assigned)"
  shows "run_state (reconcile_client env a spec client_secret) s =
     (Inr \<lparr>clr_uuid = string_value live ''id'', clr_created = False, clr_updated = False\<rparr>, s4)"
  using assms
  by (simp add: reconcile_client_def place_client_def Let_def covered_unchanged
      reconcile_service_account_roles_def reconcile_client_scopes_def [of _ _ _ _ optional_scope_kind]
      mappers_settled [OF assms(8,9)] scopes_settled [OF assms(10-12)])

end
