(* ===== verification/Flow_Sync.thy ===== *)
theory Flow_Sync
  imports Client_Sync
begin

text \<open>
  Authentication flows (\<^verbatim>\<open>internal/keycloak/authflowsync.go\<close>): the recursive reconciliation
  of a flow's executions and subflows, their priorities, their authenticator
  configurations, and the realm bindings. The three nesting levels of the API type are
  turned into one recursive datatype, as in the code. The partial results beside an error
  are left out: no caller reads them.
\<close>

section \<open>Runtime executions\<close>

datatype flow_execution =
    FlowExecution (fe_alias: string) (fe_requirement: string) (fe_authenticator: string)
      (fe_config: "auth_flow_config option") (fe_flow: "flow_spec option")
and flow_spec =
    FlowSpec (fl_alias: string) (fl_provider: string) (fl_executions: "flow_execution list")

record flow_sync_result =
  fr_created :: bool
  fr_updated :: bool

definition to_runtime_l3 :: "auth_flow_execution_l3 \<Rightarrow> flow_execution" where
  "to_runtime_l3 e = FlowExecution (x3_alias e) (x3_requirement e) (x3_authenticator e) (x3_config e) None"

definition to_runtime_spec_l3 :: "auth_flow_spec_l3 option \<Rightarrow> flow_spec option" where
  "to_runtime_spec_l3 spec =
     map_option (\<lambda>s. FlowSpec (s3_alias s) (s3_provider s) (map to_runtime_l3 (s3_executions s))) spec"

definition to_runtime_l2 :: "auth_flow_execution_l2 \<Rightarrow> flow_execution" where
  "to_runtime_l2 e = FlowExecution (x2_alias e) (x2_requirement e) (x2_authenticator e) (x2_config e)
     (to_runtime_spec_l3 (x2_flow e))"

definition to_runtime_spec_l2 :: "auth_flow_spec_l2 option \<Rightarrow> flow_spec option" where
  "to_runtime_spec_l2 spec =
     map_option (\<lambda>s. FlowSpec (s2_alias s) (s2_provider s) (map to_runtime_l2 (s2_executions s))) spec"

definition to_runtime_executions :: "auth_flow_execution list \<Rightarrow> flow_execution list" where
  "to_runtime_executions execs =
     map (\<lambda>e. FlowExecution (x1_alias e) (x1_requirement e) (x1_authenticator e) (x1_config e)
        (to_runtime_spec_l2 (x1_flow e))) execs"

definition flow_realm :: "keycloak_auth_flow_spec \<Rightarrow> string" where
  "flow_realm spec = (if fs_realm spec = [] then ''master'' else fs_realm spec)"

definition flow_provider :: "string \<Rightarrow> string" where
  "flow_provider provider = (if provider = [] then ''basic-flow'' else provider)"

section \<open>Matching\<close>

definition authentication_flow :: "representation \<Rightarrow> bool" where
  "authentication_flow e = bool_field e ''authenticationFlow''"

text \<open>\<open>used\<close> holds the identifiers claimed so far.\<close>

definition matching_execution ::
    "representation list \<Rightarrow> flow_execution \<Rightarrow> string list \<Rightarrow> representation option" where
  "matching_execution live want used =
     (let unclaimed = (\<lambda>e. string_value e ''id'' \<notin> set used) in
      case fe_flow want of
        Some f \<Rightarrow>
          find (\<lambda>e. authentication_flow e \<and> unclaimed e \<and>
             (string_value e ''displayName'' = fl_alias f \<or> string_value e ''alias'' = fl_alias f)) live
      | None \<Rightarrow>
          (case find (\<lambda>e. \<not> authentication_flow e \<and> unclaimed e \<and> fe_alias want \<noteq> [] \<and>
               string_value e ''alias'' = fe_alias want) live of
             Some e \<Rightarrow> Some e
           | None \<Rightarrow>
               find (\<lambda>e. \<not> authentication_flow e \<and> unclaimed e \<and> fe_authenticator want \<noteq> [] \<and>
                 string_value e ''providerId'' = fe_authenticator want) live))"

definition execution_name :: "flow_execution \<Rightarrow> string" where
  "execution_name e =
     (case fe_flow e of
        Some f \<Rightarrow> fl_alias f
      | None \<Rightarrow> if fe_alias e \<noteq> [] then fe_alias e else fe_authenticator e)"

section \<open>Authenticator configurations\<close>

definition string_map_representation :: "(string \<times> string) list \<Rightarrow> representation" where
  "string_map_representation vals = string_map (filter (\<lambda>p. snd p \<noteq> []) vals)"

text \<open>
  \<^verbatim>\<open>jsonEqual\<close> compares what is left of two values after a trip through JSON text, where
  every number becomes a float64.
\<close>

fun json_normal :: "json \<Rightarrow> json" where
  "json_normal (JInt i) = JFloat (float64_of_int i)"
| "json_normal (JArr xs) = JArr (map json_normal xs)"
| "json_normal (JObj m) = JObj (map (\<lambda>p. (fst p, json_normal (snd p))) m)"
| "json_normal v = v"

definition json_equal :: "json \<Rightarrow> json \<Rightarrow> bool" where
  "json_equal l r = deep_equal (json_normal l) (json_normal r)"

text \<open>Reading a key of a map that may be nil: an absent key is nil.\<close>

definition any_value :: "representation option \<Rightarrow> string \<Rightarrow> json" where
  "any_value m k = (case Option.bind m (\<lambda>rep. map_of rep k) of None \<Rightarrow> JNull | Some v \<Rightarrow> v)"

definition wanted_config :: "auth_flow_config \<Rightarrow> representation" where
  "wanted_config desired =
     [(''alias'', JStr (afc_alias desired)), (''config'', JObj (string_map_representation (afc_values desired)))]"

definition config_settled :: "representation option \<Rightarrow> auth_flow_config \<Rightarrow> bool" where
  "config_settled live desired \<longleftrightarrow>
     deep_equal (any_value live ''alias'') (JStr (afc_alias desired)) \<and>
     json_equal (any_value live ''config'') (JObj (string_map_representation (afc_values desired)))"

definition reconcile_authenticator_config ::
    "env \<Rightarrow> nat \<Rightarrow> string \<Rightarrow> representation \<Rightarrow> auth_flow_config \<Rightarrow> bool fallible" where
  "reconcile_authenticator_config env a realm execution desired =
     (let want = wanted_config desired; ident = string_value execution ''authenticationConfig'' in
      if ident = []
      then try_ok (create_authenticator_config env a realm (string_value execution ''id'') want) (\<lambda>_. ok True)
      else try_ok (get_authenticator_config env a realm ident) (\<lambda>live.
           if config_settled live desired then ok False
           else try_ok (update_authenticator_config env a realm ident want) (\<lambda>_. ok True)))"

section \<open>Priorities\<close>

fun set_priorities ::
    "env \<Rightarrow> nat \<Rightarrow> string \<Rightarrow> string \<Rightarrow> representation list \<Rightarrow> int \<Rightarrow> flow_execution list \<Rightarrow> string list \<Rightarrow> bool \<Rightarrow>
     bool fallible" where
  "set_priorities env a realm alias live priority [] used changed = ok changed"
| "set_priorities env a realm alias live priority (want # rest) used changed =
     (case matching_execution live want used of
        None \<Rightarrow> set_priorities env a realm alias live (priority + 1) rest used changed
      | Some current \<Rightarrow>
          (let ident = string_value current ''id'' in
           if int_value current ''priority'' = priority
           then set_priorities env a realm alias live (priority + 1) rest (ident # used) changed
           else try_wrap (''set priority of execution '' @ quoted ident @ '' in flow '' @ quoted alias)
                  (update_execution env a realm alias (set_key ''priority'' (JInt priority) current)) (\<lambda>_.
                set_priorities env a realm alias live (priority + 1) rest (ident # used) True)))"

definition reconcile_execution_order ::
    "env \<Rightarrow> nat \<Rightarrow> string \<Rightarrow> string \<Rightarrow> flow_execution list \<Rightarrow> bool fallible" where
  "reconcile_execution_order env a realm alias desired =
     try_ok (list_direct_executions env a realm alias) (\<lambda>live.
     set_priorities env a realm alias (sort_key (\<lambda>e. int_value e ''index'') live) 0 desired [] False)"

section \<open>Executions\<close>

text \<open>The loop variables of \<^verbatim>\<open>reconcileFlowExecutions\<close>.\<close>

record flow_progress =
  fp_live :: "representation list"
  fp_kept :: "string list"
  fp_created :: bool
  fp_updated :: bool

definition relist ::
    "env \<Rightarrow> nat \<Rightarrow> string \<Rightarrow> string \<Rightarrow> flow_execution \<Rightarrow> flow_progress \<Rightarrow> (representation \<times> flow_progress) fallible" where
  "relist env a realm alias want p =
     try_ok (list_direct_executions env a realm alias) (\<lambda>live.
     case matching_execution live want (fp_kept p) of
       None \<Rightarrow> fail (Msg (''created execution '' @ quoted (execution_name want)
                 @ '' was not found in flow '' @ quoted alias))
     | Some current \<Rightarrow> ok (current, p\<lparr>fp_live := live, fp_created := True\<rparr>))"

definition subflow_representation :: "flow_spec \<Rightarrow> representation" where
  "subflow_representation f =
     [(''alias'', JStr (fl_alias f)), (''type'', JStr (flow_provider (fl_provider f))),
      (''provider'', JStr (flow_provider (fl_provider f)))]"

definition find_or_create ::
    "env \<Rightarrow> nat \<Rightarrow> string \<Rightarrow> string \<Rightarrow> flow_execution \<Rightarrow> flow_progress \<Rightarrow> (representation \<times> flow_progress) fallible" where
  "find_or_create env a realm alias want p =
     (case matching_execution (fp_live p) want (fp_kept p) of
        Some current \<Rightarrow> ok (current, p)
      | None \<Rightarrow>
          (case fe_flow want of
             Some f \<Rightarrow>
               try_wrap (''create subflow '' @ quoted (fl_alias f))
                 (create_subflow env a realm alias (subflow_representation f)) (\<lambda>_.
               relist env a realm alias want p)
           | None \<Rightarrow>
               if fe_authenticator want = []
               then fail (Msg (''execution in flow '' @ quoted alias @ '' has neither flow nor authenticator''))
               else try_wrap (''create execution '' @ quoted (fe_authenticator want))
                      (create_execution env a realm alias (fe_authenticator want)) (\<lambda>_.
                    relist env a realm alias want p)))"

definition claim_execution :: "representation \<Rightarrow> flow_progress \<Rightarrow> flow_progress" where
  "claim_execution current p = p\<lparr>fp_kept := string_value current ''id'' # fp_kept p\<rparr>"

definition set_requirement ::
    "env \<Rightarrow> nat \<Rightarrow> string \<Rightarrow> string \<Rightarrow> flow_execution \<Rightarrow> representation \<Rightarrow> flow_progress \<Rightarrow> flow_progress fallible" where
  "set_requirement env a realm alias want current p =
     (if fe_requirement want \<noteq> [] \<and> fe_requirement want \<noteq> string_value current ''requirement''
      then try_ok (update_execution_requirement env a realm alias (string_value current ''id'')
               (fe_requirement want)) (\<lambda>_. ok (p\<lparr>fp_updated := True\<rparr>))
      else ok p)"

definition check_subflow ::
    "env \<Rightarrow> nat \<Rightarrow> string \<Rightarrow> string \<Rightarrow> representation \<Rightarrow> unit fallible" where
  "check_subflow env a realm sub_alias current =
     (let flow_id = string_value current ''flowId'' in
      if flow_id = [] then fail (Msg (''subflow '' @ quoted sub_alias @ '' has no flow ID''))
      else try_ok (get_auth_flow_by_id env a realm flow_id) (\<lambda>child.
        let live_alias = string_value (case child of None \<Rightarrow> [] | Some c \<Rightarrow> c) ''alias'' in
        if live_alias \<noteq> sub_alias
        then fail (Msg (''subflow execution points to '' @ quoted live_alias @ '', expected '' @ quoted sub_alias))
        else ok ()))"

fun prune_executions ::
    "env \<Rightarrow> nat \<Rightarrow> string \<Rightarrow> string list \<Rightarrow> representation list \<Rightarrow> bool \<Rightarrow> bool fallible" where
  "prune_executions env a realm kept [] updated = ok updated"
| "prune_executions env a realm kept (e # live) updated =
     (if string_value e ''id'' \<in> set kept then prune_executions env a realm kept live updated
      else try_ok (delete_execution env a realm (string_value e ''id'')) (\<lambda>_.
           prune_executions env a realm kept live True))"

definition no_progress :: "representation list \<Rightarrow> flow_progress" where
  "no_progress live = \<lparr>fp_live = live, fp_kept = [], fp_created = False, fp_updated = False\<rparr>"

text \<open>
  The recursion over flows and the loop over the wanted executions of one flow. Its result
  is whether anything was created and whether anything was updated.
\<close>

function (sequential)
    reconcile_flow_executions ::
      "env \<Rightarrow> nat \<Rightarrow> string \<Rightarrow> string \<Rightarrow> flow_execution list \<Rightarrow> (bool \<times> bool) fallible"
and place_executions ::
      "env \<Rightarrow> nat \<Rightarrow> string \<Rightarrow> string \<Rightarrow> flow_execution list \<Rightarrow> flow_progress \<Rightarrow> flow_progress fallible"
and descend ::
      "env \<Rightarrow> nat \<Rightarrow> string \<Rightarrow> flow_execution \<Rightarrow> representation \<Rightarrow> flow_progress \<Rightarrow> flow_progress fallible" where
  "reconcile_flow_executions env a realm alias desired =
     try_wrap (''list executions of flow '' @ quoted alias) (list_direct_executions env a realm alias) (\<lambda>live.
     try_ok (place_executions env a realm alias desired (no_progress live)) (\<lambda>p.
     try_ok (list_direct_executions env a realm alias) (\<lambda>now.
     try_ok (prune_executions env a realm (fp_kept p) now (fp_updated p)) (\<lambda>updated.
     try_ok (reconcile_execution_order env a realm alias desired) (\<lambda>changed.
     ok (fp_created p, updated \<or> changed))))))"
| "place_executions env a realm alias [] p = ok p"
| "place_executions env a realm alias (want # rest) p =
     try_ok (find_or_create env a realm alias want p) (\<lambda>(current, p1).
     try_ok (set_requirement env a realm alias want current (claim_execution current p1)) (\<lambda>p2.
     try_ok (descend env a realm want current p2) (\<lambda>p3.
     place_executions env a realm alias rest p3)))"
| "descend env a realm (FlowExecution al rq au cf (Some (FlowSpec sub_alias prov execs))) current p =
     try_ok (check_subflow env a realm sub_alias current) (\<lambda>_.
     try_ok (reconcile_flow_executions env a realm sub_alias execs) (\<lambda>(created, updated).
     ok (p\<lparr>fp_created := fp_created p \<or> created, fp_updated := fp_updated p \<or> updated\<rparr>)))"
| "descend env a realm (FlowExecution al rq au (Some cf) None) current p =
     try_ok (reconcile_authenticator_config env a realm current cf) (\<lambda>changed.
     ok (p\<lparr>fp_updated := fp_updated p \<or> changed\<rparr>))"
| "descend env a realm (FlowExecution al rq au None None) current p = ok p"
  by pat_completeness auto
termination
  by (relation "measure (\<lambda>x. case x of
        Inl (env, a, realm, alias, desired) \<Rightarrow> 2 * size_list size desired + 1
      | Inr (Inl (env, a, realm, alias, desired, p)) \<Rightarrow> 2 * size_list size desired
      | Inr (Inr (env, a, realm, want, current, p)) \<Rightarrow> 2 * size want + 1)") auto

section \<open>Flows\<close>

definition root_representation :: "string \<Rightarrow> string \<Rightarrow> representation" where
  "root_representation alias provider =
     [(''alias'', JStr alias), (''providerId'', JStr (flow_provider provider)),
      (''topLevel'', JBool True), (''builtIn'', JBool False)]"

definition ensure_root_flow :: "env \<Rightarrow> nat \<Rightarrow> string \<Rightarrow> string \<Rightarrow> string \<Rightarrow> bool fallible" where
  "ensure_root_flow env a realm alias provider =
     try_wrap (''get flow '' @ quoted alias) (get_auth_flow env a realm alias) (\<lambda>flow.
     case flow of
       Some f \<Rightarrow> ok False
     | None \<Rightarrow>
         try_wrap (''create flow '' @ quoted alias)
           (create_auth_flow env a realm (root_representation alias provider)) (\<lambda>_. ok True))"

definition realm_flow_fields :: "(string \<times> string) list" where
  "realm_flow_fields =
     [(''browser'', ''browserFlow''), (''registration'', ''registrationFlow''),
      (''directGrant'', ''directGrantFlow''), (''resetCredentials'', ''resetCredentialsFlow''),
      (''clientAuthentication'', ''clientAuthenticationFlow''),
      (''dockerAuthentication'', ''dockerAuthenticationFlow'')]"

definition add_binding :: "representation \<Rightarrow> string \<Rightarrow> string \<Rightarrow> representation \<Rightarrow> representation" where
  "add_binding realm_rep alias binding update =
     (case map_of realm_flow_fields binding of
        None \<Rightarrow> update
      | Some field \<Rightarrow>
          if string_value realm_rep field = alias then update else set_key field (JStr alias) update)"

definition binding_update :: "representation \<Rightarrow> string \<Rightarrow> string list \<Rightarrow> representation" where
  "binding_update realm_rep alias bindings = fold (add_binding realm_rep alias) bindings []"

definition complete_update :: "representation \<Rightarrow> representation \<Rightarrow> representation" where
  "complete_update realm_rep update =
     update @ filter (\<lambda>p. fst p \<notin> set (keys_of update)) realm_rep"

definition reconcile_bindings ::
    "env \<Rightarrow> nat \<Rightarrow> string \<Rightarrow> string \<Rightarrow> string list \<Rightarrow> bool fallible" where
  "reconcile_bindings env a realm alias bindings =
     (if bindings = [] then ok False
      else try_wrap (''get realm '' @ quoted realm) (get_realm env a realm) (\<lambda>found.
        case found of
          None \<Rightarrow> fail (Msg (''realm '' @ quoted realm @ '' not found''))
        | Some realm_rep \<Rightarrow>
            (let update = binding_update realm_rep alias bindings in
             if update = [] then ok False
             else try_wrap (''bind flow '' @ quoted alias @ '' to realm '' @ quoted realm)
                    (update_realm env a realm (complete_update realm_rep update)) (\<lambda>_. ok True))))"

definition reconcile_flow :: "env \<Rightarrow> nat \<Rightarrow> keycloak_auth_flow_spec \<Rightarrow> flow_sync_result fallible" where
  "reconcile_flow env a spec =
     (let realm = flow_realm spec; alias = fs_alias spec in
      try_ok (ensure_root_flow env a realm alias (fs_provider spec)) (\<lambda>root_created.
      try_ok (reconcile_flow_executions env a realm alias (to_runtime_executions (fs_executions spec)))
        (\<lambda>(created, updated).
      try_ok (reconcile_bindings env a realm alias (fs_bindings spec)) (\<lambda>bound.
      ok \<lparr>fr_created = (root_created \<or> created), fr_updated = (updated \<or> bound)\<rparr>))))"

definition delete_declared_flow :: "env \<Rightarrow> nat \<Rightarrow> keycloak_auth_flow_spec \<Rightarrow> unit fallible" where
  "delete_declared_flow env a spec =
     try_ok (get_auth_flow env a (flow_realm spec) (fs_alias spec)) (\<lambda>found.
     case found of
       None \<Rightarrow> ok ()
     | Some flow \<Rightarrow>
         if bool_field flow ''builtIn''
         then fail (PermanentDelete (Msg (''refusing to delete built-in Keycloak flow '' @ quoted (fs_alias spec))))
         else if string_value flow ''id'' = []
         then fail (PermanentDelete (Msg (''flow '' @ quoted (fs_alias spec) @ '' exists but has no ID'')))
         else delete_auth_flow env a (flow_realm spec) (string_value flow ''id''))"

section \<open>Nesting\<close>

fun execution_depth :: "flow_execution \<Rightarrow> nat" and spec_depth :: "flow_spec \<Rightarrow> nat" where
  "execution_depth (FlowExecution al rq au cf None) = 1"
| "execution_depth (FlowExecution al rq au cf (Some f)) = Suc (spec_depth f)"
| "spec_depth (FlowSpec al prov execs) = fold max (map execution_depth execs) 0"

lemma fold_max_le: "list_all (\<lambda>n. n \<le> b) ns \<Longrightarrow> m \<le> b \<Longrightarrow> fold max ns m \<le> (b :: nat)"
  by (induction ns arbitrary: m) auto

text \<open>
  Whatever the resource declares, the recursion works on executions nested at most three
  levels deep, so no input makes it run away.
\<close>

theorem to_runtime_depth: "list_all (\<lambda>e. execution_depth e \<le> 3) (to_runtime_executions execs)"
proof -
  have l3: "execution_depth (to_runtime_l3 e) = 1" for e
    by (simp add: to_runtime_l3_def)
  have l2: "execution_depth (to_runtime_l2 e) \<le> 2" for e
    by (cases "x2_flow e")
       (auto simp: to_runtime_l2_def to_runtime_spec_l3_def list_all_iff l3 intro!: fold_max_le)
  have "execution_depth (FlowExecution al rq au cf (to_runtime_spec_l2 f)) \<le> 3" for al rq au cf f
    by (cases f) (auto simp: to_runtime_spec_l2_def list_all_iff l2 intro!: fold_max_le)
  then show ?thesis by (simp add: to_runtime_executions_def list_all_iff)
qed

section \<open>Every wanted execution gets its own\<close>

lemma matching_execution_sound:
  "matching_execution live want used = Some e \<Longrightarrow> e \<in> set live \<and> string_value e ''id'' \<notin> set used"
  by (auto simp: matching_execution_def Let_def dest: find_Some_in_set split: option.splits)

lemma delivers_find_or_create:
  "delivers (\<lambda>(current, p'). string_value current ''id'' \<notin> set (fp_kept p) \<and> fp_kept p' = fp_kept p)
     (\<lambda>e. True) (find_or_create env a realm alias want p)"
proof -
  have relist: "delivers (\<lambda>(current, p'). string_value current ''id'' \<notin> set (fp_kept p) \<and> fp_kept p' = fp_kept p)
     (\<lambda>e. True) (relist env a realm alias want p)"
    unfolding relist_def
    by (rule delivers_try [OF delivers_any])
       (auto intro!: delivers_intros dest: matching_execution_sound split: option.split)
  then show ?thesis
    unfolding find_or_create_def try_wrap_def
    by (auto intro!: delivers_intros delivers_attempt [OF delivers_any] dest: matching_execution_sound
        split: option.split)
qed

lemma delivers_set_requirement:
  "delivers (\<lambda>p'. fp_kept p' = fp_kept p) (\<lambda>e. True) (set_requirement env a realm alias want current p)"
  unfolding set_requirement_def
  by (auto intro!: delivers_intros delivers_try [OF delivers_any])

lemma delivers_descend:
  "delivers (\<lambda>p'. fp_kept p' = fp_kept p) (\<lambda>e. True) (descend env a realm want current p)"
  by (cases "(env, a, realm, want, current, p)" rule: descend.cases)
     (auto intro!: delivers_intros delivers_try [OF delivers_any])

lemma delivers_place_executions:
  "distinct (fp_kept p) \<Longrightarrow>
   delivers (\<lambda>p'. distinct (fp_kept p') \<and> length (fp_kept p') = length (fp_kept p) + length desired)
     (\<lambda>e. True) (place_executions env a realm alias desired p)"
proof (induction desired arbitrary: p)
  case Nil
  then show ?case by (auto intro: delivers_intros)
next
  case (Cons want rest)
  show ?case
    unfolding place_executions.simps
    apply (rule delivers_try [OF delivers_find_or_create])
    apply (clarsimp simp del: place_executions.simps)
    apply (rule delivers_try [OF delivers_set_requirement])
    apply (rule delivers_try [OF delivers_descend])
    subgoal for current p1 p2 p3
      using Cons.prems by (intro delivers_mono [OF Cons.IH [of p3]]) (auto simp: claim_execution_def)
    done
qed

text \<open>The clean-up deletes what it was not told to keep, and nothing else.\<close>

definition deletes_one_of :: "string \<Rightarrow> string set \<Rightarrow> http_method \<Rightarrow> string \<Rightarrow> json option \<Rightarrow> bool" where
  "deletes_one_of realm idents m path body \<longleftrightarrow>
     (m = DELETE \<longrightarrow> (\<exists>i \<in> idents. path = execution_path realm i []))"

lemma execution_path_inj: "execution_path realm i [] = execution_path realm j [] \<longleftrightarrow> i = j"
  by (simp add: execution_path_def auth_path_def realm_path_def path_escape_inj)

definition unclaimed :: "string list \<Rightarrow> representation list \<Rightarrow> string set" where
  "unclaimed kept now = {i \<in> (\<lambda>e. string_value e ''id'') ` set now. i \<notin> set kept}"

lemma emits_prune_unclaimed:
  "unclaimed kept now \<subseteq> idents \<Longrightarrow>
     emits (sends (deletes_one_of realm idents)) (prune_executions env a realm kept now updated)"
proof (induction now arbitrary: updated)
  case (Cons e now)
  have "unclaimed kept now \<subseteq> idents" using Cons.prems by (auto simp: unclaimed_def)
  moreover have "string_value e ''id'' \<notin> set kept \<Longrightarrow> string_value e ''id'' \<in> idents"
    using Cons.prems by (auto simp: unclaimed_def)
  ultimately show ?case
    using Cons.IH by (auto intro!: emits_intros simp: delete_execution_def deletes_one_of_def)
qed (auto intro: emits_intros)

lemma do_send_sent:
  assumes "run_state (do_send env a m path body) s = (Inr u, s')"
  shows "\<exists>before base. st_trace s' = st_trace s @ before @ [AdminCall base m path body]"
proof -
  obtain token s1 where auth: "run_state (authenticate env a) s = (Inr token, s1)"
    using assms by (auto simp: do_send_def do_request_def split: prod.splits sum.splits)
  have "emits (sends (\<lambda>m path body. False)) (authenticate env a)" by (intro emits_intros)
  from emitsD [OF this auth] obtain before where before: "st_trace s1 = st_trace s @ before" by blast
  let ?call = "AdminCall (api_base_url (st_apis s1 ! a)) m path body"
  have "st_trace s' = st_trace s1 @ [?call]"
    using assms auth
    by (auto simp: do_send_def do_request_def run_state_bind admin_request_def read_answer_def
        split: http_answer.splits if_splits prod.splits sum.splits)
  with before show ?thesis by auto
qed

lemma prune_deletes_all:
  assumes "run_state (prune_executions env a realm kept now updated) s = (Inr r, s')"
  shows "\<exists>new. st_trace s' = st_trace s @ new \<and>
    (\<forall>i \<in> unclaimed kept now. \<exists>base. AdminCall base DELETE (execution_path realm i []) None \<in> set new)"
  using assms
proof (induction now arbitrary: updated s)
  case Nil
  then show ?case by (simp add: unclaimed_def)
next
  case (Cons e now)
  show ?case
  proof (cases "string_value e ''id'' \<in> set kept")
    case True
    then have "unclaimed kept (e # now) = unclaimed kept now" by (auto simp: unclaimed_def)
    with True Cons show ?thesis by auto
  next
    case False
    then obtain s1 where one: "run_state (delete_execution env a realm (string_value e ''id'')) s = (Inr (), s1)"
      and rest: "run_state (prune_executions env a realm kept now True) s1 = (Inr r, s')"
      using Cons.prems by (auto split: prod.splits sum.splits)
    obtain before base where "st_trace s1 =
        st_trace s @ before @ [AdminCall base DELETE (execution_path realm (string_value e ''id'') []) None]"
      using do_send_sent [OF one [unfolded delete_execution_def]] by blast
    moreover have "unclaimed kept (e # now) = insert (string_value e ''id'') (unclaimed kept now)"
      using False by (auto simp: unclaimed_def)
    moreover obtain more_calls where "st_trace s' = st_trace s1 @ more_calls"
        "\<forall>i \<in> unclaimed kept now. \<exists>base. AdminCall base DELETE (execution_path realm i []) None \<in> set more_calls"
      using Cons.IH [OF rest] by blast
    ultimately show ?thesis
      by (intro exI [of _ "before @ [AdminCall base DELETE (execution_path realm (string_value e ''id'') []) None] @ more_calls"])
        auto
  qed
qed

lemma emits_order_keeps: "emits (sends (deletes_one_of realm {})) (reconcile_execution_order env a realm alias desired)"
proof -
  have "emits (sends (deletes_one_of realm {})) (set_priorities env a realm alias live priority desired used changed)"
    for live priority desired used changed
    by (induction desired arbitrary: priority used changed)
      (auto intro!: emits_intros simp: Let_def update_execution_def deletes_one_of_def)
  then show ?thesis unfolding reconcile_execution_order_def by (intro emits_intros)
qed

text \<open>What the reconciliation of one flow does after its executions are placed.\<close>

definition cleaned_up :: "string \<Rightarrow> string list \<Rightarrow> representation list \<Rightarrow> bool \<Rightarrow> call list \<Rightarrow> bool" where
  "cleaned_up realm kept now done_all new \<longleftrightarrow>
     (\<forall>base path body. AdminCall base DELETE path body \<in> set new \<longrightarrow>
        (\<exists>e \<in> set now. string_value e ''id'' \<notin> set kept \<and> path = execution_path realm (string_value e ''id'') [])) \<and>
     (\<forall>i \<in> set kept. \<forall>base body. AdminCall base DELETE (execution_path realm i []) body \<notin> set new) \<and>
     (done_all \<longrightarrow> (\<forall>e \<in> set now. string_value e ''id'' \<notin> set kept \<longrightarrow>
        (\<exists>base. AdminCall base DELETE (execution_path realm (string_value e ''id'') []) None \<in> set new)))"

lemma cleaned_upI:
  assumes "\<forall>c \<in> set new. sends (deletes_one_of realm (unclaimed kept now)) c"
    and "done_all \<Longrightarrow> \<forall>i \<in> unclaimed kept now. \<exists>base. AdminCall base DELETE (execution_path realm i []) None \<in> set new"
  shows "cleaned_up realm kept now done_all new"
proof -
  have only: "\<exists>e \<in> set now. string_value e ''id'' \<notin> set kept \<and> path = execution_path realm (string_value e ''id'') []"
    if "AdminCall base DELETE path body \<in> set new" for base path body
    using assms(1) that by (force simp: deletes_one_of_def unclaimed_def)
  moreover have "AdminCall base DELETE (execution_path realm i []) body \<notin> set new" if "i \<in> set kept" for i base body
    using only [of base "execution_path realm i []" body] that by (auto simp: execution_path_inj)
  moreover have "\<exists>base. AdminCall base DELETE (execution_path realm (string_value e ''id'') []) None \<in> set new"
    if done_all and "e \<in> set now" and "string_value e ''id'' \<notin> set kept" for e
    using assms(2) that by (simp add: unclaimed_def)
  ultimately show ?thesis unfolding cleaned_up_def by blast
qed

text \<open>
  C32. Every wanted execution gets a live one of its own, and keeps it. Placing the wanted
  executions of a flow claims as many different identifiers as executions are wanted, so two
  entries that look alike never share one. What the reconciliation of that flow does
  afterwards deletes only executions that the flow lists and nobody claimed, so never a
  claimed one; and when it succeeds, it has deleted every unclaimed one.
\<close>

theorem executions_claimed_and_kept:
  assumes "run_state (list_direct_executions env a realm alias) s = (Inr live, s0)"
    and "run_state (place_executions env a realm alias desired (no_progress live)) s0 = (Inr p, s1)"
    and "run_state (list_direct_executions env a realm alias) s1 = (Inr now, s2)"
    and "run_state (reconcile_flow_executions env a realm alias desired) s = (r, s')"
  shows "distinct (fp_kept p) \<and> length (fp_kept p) = length desired \<and>
    (\<exists>new. st_trace s' = st_trace s1 @ new \<and> cleaned_up realm (fp_kept p) now (\<not> isl r) new)"
proof -
  have claimed: "distinct (fp_kept p) \<and> length (fp_kept p) = length desired"
    using delivers_Inr [OF delivers_place_executions assms(2)] by (simp add: no_progress_def)
  have "emits (sends (\<lambda>m path body. False)) (list_direct_executions env a realm alias)" by (intro emits_intros)
  from emitsD [OF this assms(3)] obtain listing where listing: "st_trace s2 = st_trace s1 @ listing"
      "\<forall>c \<in> set listing. sends (\<lambda>m path body. False) c" by blast
  then have quiet: "\<forall>c \<in> set listing. sends (deletes_one_of realm (unclaimed (fp_kept p) now)) c"
    by (auto elim: sends_mono)
  obtain out s3 where prune: "run_state (prune_executions env a realm (fp_kept p) now (fp_updated p)) s2 = (out, s3)"
    by (metis surj_pair)
  obtain pruned where pruned: "st_trace s3 = st_trace s2 @ pruned"
      "\<forall>c \<in> set pruned. sends (deletes_one_of realm (unclaimed (fp_kept p) now)) c"
    using emitsD [OF emits_prune_unclaimed [OF order_refl] prune] by blast
  show ?thesis
  proof (cases out)
    case (Inl e)
    then have "r = Inl e" "s' = s3" using assms prune by auto
    then show ?thesis
      using claimed listing(1) pruned quiet
      by (intro conjI exI [of _ "listing @ pruned"] cleaned_upI) auto
  next
    case (Inr updated)
    obtain res s4 where order: "run_state (reconcile_execution_order env a realm alias desired) s3 = (res, s4)"
      by (metis surj_pair)
    obtain ordered where ordered: "st_trace s4 = st_trace s3 @ ordered"
        "\<forall>c \<in> set ordered. sends (deletes_one_of realm {}) c"
      using emitsD [OF emits_order_keeps order] by blast
    have still: "\<forall>c \<in> set ordered. sends (deletes_one_of realm (unclaimed (fp_kept p) now)) c"
      using ordered(2) by (auto elim!: sends_mono simp: deletes_one_of_def)
    have s': "s' = s4" using assms prune order Inr by (cases res) auto
    have "\<forall>i \<in> unclaimed (fp_kept p) now. \<exists>base. AdminCall base DELETE (execution_path realm i []) None \<in> set pruned"
      using prune_deletes_all [OF prune [unfolded Inr]] pruned(1) by simp
    then show ?thesis
      using claimed listing(1) pruned quiet ordered(1) s' still
      by (intro conjI exI [of _ "listing @ pruned @ ordered"] cleaned_upI) auto
  qed
qed

text \<open>A flow with a wanted execution and a stale one: the stale one goes.\<close>

definition wanted_live :: representation where
  "wanted_live = [(''id'', JStr ''1''), (''providerId'', JStr ''auth-cookie'')]"

definition stale_live :: representation where
  "stale_live = [(''id'', JStr ''2''), (''providerId'', JStr ''auth-spnego'')]"

abbreviation stale_env :: env where
  "stale_env \<equiv> keycloak_env (JArr [JObj wanted_live, JObj stale_live])"

definition cookie_execution :: flow_execution where
  "cookie_execution = FlowExecution [] [] ''auth-cookie'' None None"

lemma stale_listing:
  obtains s' where "run_state (list_direct_executions stale_env 0 realm nam) s = (Inr [wanted_live, stale_live], s')"
  using run_constant_read [of into_representations "JArr [JObj wanted_live, JObj stale_live]"
      "[wanted_live, stale_live]" 0 "executions_path realm nam" "[]" s]
  by (auto simp: list_direct_executions_def get_many_def into_representations_def into_representation_def
      int_value_def wanted_live_def stale_live_def)

theorem executions_claimed_and_kept_witness:
  "\<exists>(s1 :: op_state) s' new updated.
     run_state (reconcile_flow_executions stale_env 0 ''neteye'' ''browser'' [cookie_execution]) one_api
       = (Inr (False, updated), s') \<and>
     st_trace s' = st_trace s1 @ new \<and>
     cleaned_up ''neteye'' [''1''] [wanted_live, stale_live] True new \<and>
     (\<exists>base. AdminCall base DELETE (execution_path ''neteye'' ''2'' []) None \<in> set new)"
proof -
  obtain s1 where s1: "run_state (list_direct_executions stale_env 0 ''neteye'' ''browser'') one_api
      = (Inr [wanted_live, stale_live], s1)" by (rule stale_listing)
  obtain s2 where s2: "run_state (list_direct_executions stale_env 0 ''neteye'' ''browser'') s1
      = (Inr [wanted_live, stale_live], s2)" by (rule stale_listing)
  obtain s3 where s3: "run_state (do_request stale_env 0 DELETE (execution_path ''neteye'' ''2'' []) None) s2
      = (Inr ''json'', s3)" using run_constant_request by blast
  obtain s4 where s4: "run_state (list_direct_executions stale_env 0 ''neteye'' ''browser'') s3
      = (Inr [wanted_live, stale_live], s4)" by (rule stale_listing)
  let ?p = "(no_progress [wanted_live, stale_live])\<lparr>fp_kept := [''1'']\<rparr>"
  have place: "run_state (place_executions stale_env 0 ''neteye'' ''browser'' [cookie_execution]
      (no_progress [wanted_live, stale_live])) s1 = (Inr ?p, s1)"
    by (simp add: find_or_create_def matching_execution_def cookie_execution_def no_progress_def wanted_live_def
        stale_live_def authentication_flow_def bool_field_def string_value_def set_requirement_def claim_execution_def)
  have order: "run_state (reconcile_execution_order stale_env 0 ''neteye'' ''browser'' [cookie_execution]) s3
      = (Inr False, s4)"
    using s4
    by (simp add: reconcile_execution_order_def matching_execution_def cookie_execution_def wanted_live_def
        stale_live_def authentication_flow_def bool_field_def string_value_def int_value_def)
  have prune: "run_state (prune_executions stale_env 0 ''neteye'' [''1''] [wanted_live, stale_live] False) s2
      = (Inr True, s3)"
    using s3 by (simp add: delete_execution_def do_send_def wanted_live_def stale_live_def string_value_def)
  have run: "run_state (reconcile_flow_executions stale_env 0 ''neteye'' ''browser'' [cookie_execution]) one_api
      = (Inr (False, True), s4)"
    using s1 place s2 prune order by (simp add: no_progress_def del: place_executions.simps prune_executions.simps)
  from executions_claimed_and_kept [OF s1 place s2 run] obtain new where
    new: "st_trace s4 = st_trace s1 @ new" "cleaned_up ''neteye'' [''1''] [wanted_live, stale_live] True new"
    by auto
  then have "\<exists>base. AdminCall base DELETE (execution_path ''neteye'' ''2'' []) None \<in> set new"
    by (simp add: cleaned_up_def stale_live_def wanted_live_def string_value_def)
  with new show ?thesis by (intro exI [of _ s1] exI [of _ s4] exI [of _ new] exI [of _ True] conjI run) simp_all
qed

section \<open>What a reconciliation may write\<close>

text \<open>
  Requests below the authentication resources of the realm, and one that sets bindings and
  repeats everything else of a realm representation.
\<close>

definition flow_write :: "keycloak_auth_flow_spec \<Rightarrow> http_method \<Rightarrow> string \<Rightarrow> json option \<Rightarrow> bool" where
  "flow_write spec m path body \<longleftrightarrow>
     (\<exists>rest. path = auth_path (flow_realm spec) rest) \<or>
     (m = PUT \<and> path = realm_path (flow_realm spec) [] \<and> fs_bindings spec \<noteq> [] \<and>
        (\<exists>rep. body = Some (JObj (complete_update rep (binding_update rep (fs_alias spec) (fs_bindings spec))))))"

abbreviation auth_call :: "string \<Rightarrow> http_method \<Rightarrow> string \<Rightarrow> json option \<Rightarrow> bool" where
  "auth_call realm m path body \<equiv> (\<exists>rest. path = auth_path realm rest)"

lemma auth_call_paths:
  "\<exists>rest. executions_path realm flow @ more_path = auth_path realm rest"
  "\<exists>rest. execution_path realm ident more_path = auth_path realm rest"
  "\<exists>rest. config_path realm ident = auth_path realm rest"
  by (auto simp: executions_path_def execution_path_def config_path_def auth_path_def realm_path_def)

lemmas auth_write_defs = create_auth_flow_def create_subflow_def create_execution_def
  update_execution_requirement_def update_execution_def create_authenticator_config_def
  update_authenticator_config_def delete_execution_def delete_auth_flow_def

lemma emits_auth_writes [emits_intros]:
  "emits (sends (auth_call realm)) (create_auth_flow env a realm flow)"
  "emits (sends (auth_call realm)) (create_subflow env a realm parent flow)"
  "emits (sends (auth_call realm)) (create_execution env a realm x provider)"
  "emits (sends (auth_call realm)) (update_execution_requirement env a realm x ident requirement)"
  "emits (sends (auth_call realm)) (update_execution env a realm x flow)"
  "emits (sends (auth_call realm)) (create_authenticator_config env a realm ident flow)"
  "emits (sends (auth_call realm)) (update_authenticator_config env a realm ident flow)"
  "emits (sends (auth_call realm)) (delete_execution env a realm ident)"
  "emits (sends (auth_call realm)) (delete_auth_flow env a realm ident)"
  unfolding auth_write_defs
  using auth_call_paths(1) [of realm _ "[]"]
  by (auto intro!: emits_do_send auth_call_paths)

lemma emits_prune [emits_intros]: "emits (sends (auth_call realm)) (prune_executions env a realm kept live updated)"
  by (induction live arbitrary: updated) (auto intro!: emits_intros)

lemma emits_set_priorities [emits_intros]:
  "emits (sends (auth_call realm)) (set_priorities env a realm alias live priority desired used changed)"
  by (induction desired arbitrary: priority used changed) (auto intro!: emits_intros simp: Let_def)

lemma emits_execution_order [emits_intros]:
  "emits (sends (auth_call realm)) (reconcile_execution_order env a realm alias desired)"
  unfolding reconcile_execution_order_def by (intro emits_intros)

lemma emits_find_or_create [emits_intros]:
  "emits (sends (auth_call realm)) (find_or_create env a realm alias want p)"
  unfolding find_or_create_def relist_def by (auto intro!: emits_intros)

lemma emits_execution_parts [emits_intros]:
  "emits (sends (auth_call realm)) (set_requirement env a realm alias want current p)"
  "emits (sends (auth_call realm)) (check_subflow env a realm alias current)"
  "emits (sends (auth_call realm)) (reconcile_authenticator_config env a realm current cf)"
  unfolding set_requirement_def check_subflow_def reconcile_authenticator_config_def Let_def
  by (auto intro!: emits_intros)

lemma emits_flow_executions:
  "emits (sends (auth_call realm)) (reconcile_flow_executions env a realm alias desired)"
  "emits (sends (auth_call realm)) (place_executions env a realm alias desired p)"
  "emits (sends (auth_call realm)) (descend env a realm want current p)"
proof (induction env a realm "alias" desired and env a realm "alias" desired p and env a realm want current p
    rule: reconcile_flow_executions_place_executions_descend.induct)
  case (1 env a realm al desired)
  then show ?case by (auto simp del: place_executions.simps intro!: emits_intros)
qed (auto intro!: emits_intros)

lemma emits_bindings:
  assumes "\<And>rep. bindings \<noteq> [] \<Longrightarrow>
    P PUT (realm_path realm []) (Some (JObj (complete_update rep (binding_update rep alias bindings))))"
  shows "emits (sends P) (reconcile_bindings env a realm alias bindings)"
  unfolding reconcile_bindings_def update_realm_def Let_def
  using assms by (auto intro!: emits_intros)

lemma flow_writes: "emits (sends (flow_write spec)) (reconcile_flow env a spec)"
proof -
  have auth: "emits (sends (flow_write spec)) m" if "emits (sends (auth_call (flow_realm spec))) m"
    for m :: "'x op"
    using that by (rule emits_mono) (auto elim!: sends_mono simp: flow_write_def)
  have auth': "emits (sends (flow_write spec)) m" if "emits (sends (auth_call (flow_realm spec))) m"
    for m :: "'y op"
    using that by (rule emits_mono) (auto elim!: sends_mono simp: flow_write_def)
  have root: "emits (sends (auth_call (flow_realm spec)))
      (ensure_root_flow env a (flow_realm spec) (fs_alias spec) (fs_provider spec))"
    unfolding ensure_root_flow_def by (auto intro!: emits_intros)
  have bind: "emits (sends (flow_write spec))
      (reconcile_bindings env a (flow_realm spec) (fs_alias spec) (fs_bindings spec))"
    by (rule emits_bindings) (auto simp: flow_write_def)
  show ?thesis
    unfolding reconcile_flow_def Let_def
    by (intro emits_intros bind auth [OF root] emits_flow_executions(1)
        emits_mono [OF emits_flow_executions(1)]) (auto elim!: sends_mono simp: flow_write_def)
qed

text \<open>
  Reconciling a flow stays below the authentication resources of its realm, at every
  nesting level. The one request outside them sets the declared bindings, and is not made
  when none is declared.
\<close>

theorem reconcile_flow_writes: "emits (sends (flow_write spec)) (reconcile_flow env a spec)"
  by (rule flow_writes)

section \<open>Bindings\<close>

lemma string_value_set_key: "string_value (set_key k v m) k' = (if k' = k then (case v of JStr s \<Rightarrow> s | _ \<Rightarrow> []) else string_value m k')"
  by (auto simp: string_value_def map_of_update split: json.split)

lemma keys_add_binding: "distinct (keys_of u) \<Longrightarrow> distinct (keys_of (add_binding rep alias b u))"
  by (auto simp: add_binding_def distinct_update split: option.split)

lemma map_of_add_binding:
  "map_of (add_binding rep alias b u) k =
     (if map_of realm_flow_fields b = Some k \<and> string_value rep k \<noteq> alias
      then Some (JStr alias) else map_of u k)"
  by (auto simp: add_binding_def map_of_update split: option.split)

lemma map_of_binding_update:
  "map_of (fold (add_binding rep alias) bs u) k =
     (if (\<exists>b \<in> set bs. map_of realm_flow_fields b = Some k) \<and> string_value rep k \<noteq> alias
      then Some (JStr alias) else map_of u k)"
  by (induction bs arbitrary: u) (auto simp: map_of_add_binding)

lemma map_of_complete_update:
  "map_of (complete_update rep u) k = (case map_of u k of None \<Rightarrow> map_of rep k | Some v \<Rightarrow> Some v)"
proof (cases "map_of u k")
  case None
  then have "k \<notin> set (keys_of u)" by (simp add: map_of_eq_None_iff)
  then have "map_of (filter (\<lambda>p. fst p \<notin> set (keys_of u)) rep) k = map_of rep k"
    by (induction rep) auto
  with None show ?thesis by (simp add: complete_update_def map_add_def)
qed (simp add: complete_update_def map_add_def)

definition bound_fields :: "string list \<Rightarrow> string set" where
  "bound_fields bindings = {f. \<exists>b \<in> set bindings. map_of realm_flow_fields b = Some f}"

text \<open>
  C33. Binding a flow points exactly the declared, known bindings of the realm at it and
  repeats every other field as it was read; on the realm it wrote, the next pass has
  nothing left to bind.
\<close>

theorem bindings_exact:
  "map_of (complete_update rep (binding_update rep alias bindings)) k =
     (if k \<in> bound_fields bindings \<and> string_value rep k \<noteq> alias then Some (JStr alias) else map_of rep k) \<and>
   binding_update (complete_update rep (binding_update rep alias bindings)) alias bindings = []"
proof
  have lookup: "map_of (complete_update rep (binding_update rep alias bindings)) k =
     (if k \<in> bound_fields bindings \<and> string_value rep k \<noteq> alias then Some (JStr alias) else map_of rep k)" for k
    by (simp add: map_of_complete_update binding_update_def map_of_binding_update bound_fields_def)
  then show "map_of (complete_update rep (binding_update rep alias bindings)) k =
     (if k \<in> bound_fields bindings \<and> string_value rep k \<noteq> alias then Some (JStr alias) else map_of rep k)" .
  let ?new = "complete_update rep (binding_update rep alias bindings)"
  have bound: "string_value ?new f = alias" if "f \<in> bound_fields bindings" for f
    using that lookup [of f] by (auto simp: string_value_def)
  have "fold (add_binding ?new alias) bs [] = []" if "set bs \<subseteq> set bindings" for bs
    using that
  proof (induction bs)
    case (Cons b bs)
    then have "add_binding ?new alias b [] = []"
      using bound by (auto simp: add_binding_def bound_fields_def split: option.split)
    with Cons show ?case by simp
  qed simp
  then show "binding_update ?new alias bindings = []"
    unfolding binding_update_def [of ?new] by blast
qed

section \<open>Deletion\<close>

text \<open>
  A flow that Keycloak marks as built in, or that has no identifier, is never deleted:
  nothing is sent after the lookup, and the error is the permanent one that makes the
  controller give up instead of retrying.
\<close>

theorem built_in_flow_kept:
  assumes "run_state (get_auth_flow env a (flow_realm spec) (fs_alias spec)) s = (Inr (Some flow), s')"
    and "bool_field flow ''builtIn'' \<or> string_value flow ''id'' = []"
  shows "\<exists>e. run_state (delete_declared_flow env a spec) s = (Inl e, s') \<and> is_permanent_delete e"
  using assms by (cases "bool_field flow ''builtIn''") (simp_all add: delete_declared_flow_def)

definition built_in_flow :: representation where
  "built_in_flow = [(''alias'', JStr ''browser''), (''id'', JStr ''1''), (''builtIn'', JBool True)]"

definition browser_flow_spec :: keycloak_auth_flow_spec where
  "browser_flow_spec =
     \<lparr>fs_realm = ''neteye'', fs_alias = ''browser'', fs_provider = [], fs_executions = [],
      fs_deletion_policy = PolicyDelete, fs_bindings = []\<rparr>"

theorem built_in_flow_kept_witness:
  "\<exists>e s'. run_state (delete_declared_flow (keycloak_env (JArr [JObj built_in_flow])) 0 browser_flow_spec) one_api
     = (Inl e, s') \<and> is_permanent_delete e"
proof -
  obtain s' where "run_state (get_many (keycloak_env (JArr [JObj built_in_flow])) 0
      (auth_path (flow_realm browser_flow_spec) ''flows'')) one_api = (Inr [built_in_flow], s')"
    by (rule run_constant_get_many)
  then have "run_state (get_auth_flow (keycloak_env (JArr [JObj built_in_flow])) 0
      (flow_realm browser_flow_spec) (fs_alias browser_flow_spec)) one_api = (Inr (Some built_in_flow), s')"
    by (simp add: get_auth_flow_def string_value_def built_in_flow_def browser_flow_spec_def)
  moreover have "bool_field built_in_flow ''builtIn''" by (simp add: bool_field_def built_in_flow_def)
  ultimately show ?thesis
    using built_in_flow_kept [of _ 0 browser_flow_spec one_api built_in_flow s'] by blast
qed

end
