(* ===== verification/Admin_Provider.thy ===== *)
theory Admin_Provider
  imports Flow_Sync Elastic_Stack
begin

text \<open>
  Who the operator authenticates as (\<^verbatim>\<open>internal/keycloak/adminresolve.go\<close>,
  \<^verbatim>\<open>adminprovider.go\<close>): the two admin Secrets, the provider that keeps one Admin API client
  alive and rebuilds it when the credential changes, and the registry that gives every
  credential namespace a provider of its own. Providers live in \<open>st_providers\<close> and are
  referred to by index. The factory is \<open>new_admin_api\<close>, the one the program installs; locks
  are left out, since reconciliations run one after the other.
\<close>

section \<open>Credentials\<close>

definition admin_secret_name :: string where "admin_secret_name = instance_name @ ''-initial-admin''"
definition admin_secret_username_key :: string where "admin_secret_username_key = ''username''"
definition admin_secret_password_key :: string where "admin_secret_password_key = ''password''"
definition internal_admin_username :: string where
  "internal_admin_username = ''neteye-internal-keycloak-admin''"
definition internal_admin_secret_name :: string where
  "internal_admin_secret_name = instance_name @ ''-neteye-internal-keycloak-admin''"
definition internal_admin_secret_password_key :: string where
  "internal_admin_secret_password_key = ''password''"

definition internal_admin_credentials :: "env \<Rightarrow> string \<Rightarrow> admin_credentials option fallible" where
  "internal_admin_credentials env ns =
     attempt (k8s_get env secret_gvk ns internal_admin_secret_name)
       (\<lambda>e. if is_not_found e then ok None
            else fail (Wrap (''get keycloak internal admin secret '' @ quoted internal_admin_secret_name
                   @ '' in namespace '' @ quoted ns) e))
       (\<lambda>secret. let password = secret_value secret internal_admin_secret_password_key in
          ok (if password = [] then None
              else Some \<lparr>cred_username = internal_admin_username, cred_password = password\<rparr>))"

definition bootstrap_admin_credentials :: "env \<Rightarrow> string \<Rightarrow> admin_credentials fallible" where
  "bootstrap_admin_credentials env ns =
     attempt (k8s_get env secret_gvk ns admin_secret_name)
       (\<lambda>e. if is_not_found e
            then fail (NoAdminCredentials (''keycloak admin secret '' @ quoted admin_secret_name
                   @ '' not found in namespace '' @ quoted ns))
            else fail (Wrap (''get keycloak admin secret '' @ quoted admin_secret_name
                   @ '' in namespace '' @ quoted ns) e))
       (\<lambda>secret.
          let username = secret_value secret admin_secret_username_key;
              password = secret_value secret admin_secret_password_key
          in if username = [] \<or> password = []
             then fail (NoAdminCredentials (''keycloak admin secret '' @ quoted admin_secret_name
                    @ '' in namespace '' @ quoted ns @ '' is missing the '' @ quoted admin_secret_username_key
                    @ '' or '' @ quoted admin_secret_password_key @ '' key''))
             else ok \<lparr>cred_username = username, cred_password = password\<rparr>)"

section \<open>The provider\<close>

definition internal_admin_retry_interval :: duration where
  "internal_admin_retry_interval = minute"

definition new_admin_provider :: "string \<Rightarrow> string \<Rightarrow> bool \<Rightarrow> admin_provider" where
  "new_admin_provider credential_namespace endpoint_namespace skip_internal =
     \<lparr>pv_credential_namespace = credential_namespace, pv_endpoint_namespace = endpoint_namespace,
      pv_skip_internal = skip_internal, pv_retry_interval = 0, pv_api = None, pv_username = [],
      pv_password = [], pv_next_attempt = None\<rparr>"

definition alloc_provider :: "admin_provider \<Rightarrow> nat op" where
  "alloc_provider pv = State (\<lambda>s. (length (st_providers s), s\<lparr>st_providers := st_providers s @ [pv]\<rparr>))"

definition read_provider :: "nat \<Rightarrow> admin_provider op" where
  "read_provider p = State (\<lambda>s. (st_providers s ! p, s))"

definition update_provider :: "nat \<Rightarrow> (admin_provider \<Rightarrow> admin_provider) \<Rightarrow> unit op" where
  "update_provider p f = State (\<lambda>s. ((), s\<lparr>st_providers := (st_providers s)[p := f (st_providers s ! p)]\<rparr>))"

definition retry_interval :: "admin_provider \<Rightarrow> duration" where
  "retry_interval pv =
     (if 0 < pv_retry_interval pv then pv_retry_interval pv else internal_admin_retry_interval)"

definition cached_api :: "admin_provider \<Rightarrow> admin_credentials \<Rightarrow> nat option" where
  "cached_api pv creds =
     (if pv_username pv = cred_username creds \<and> pv_password pv = cred_password creds then pv_api pv else None)"

definition hold_api :: "nat \<Rightarrow> admin_credentials \<Rightarrow> admin_provider \<Rightarrow> admin_provider" where
  "hold_api a creds pv =
     pv\<lparr>pv_api := Some a, pv_username := cred_username creds, pv_password := cred_password creds\<rparr>"

definition build_api :: "nat \<Rightarrow> admin_credentials \<Rightarrow> nat op" where
  "build_api p creds =
     State_Monad.bind (read_provider p) (\<lambda>pv.
     alloc_admin_api (in_cluster_base_url (pv_endpoint_namespace pv)) creds)"

definition store_api :: "nat \<Rightarrow> admin_credentials \<Rightarrow> nat op" where
  "store_api p creds =
     State_Monad.bind (build_api p creds) (\<lambda>a.
     State_Monad.bind (update_provider p (hold_api a creds)) (\<lambda>_. State_Monad.return a))"

definition throttled :: "admin_provider \<Rightarrow> instant \<Rightarrow> bool" where
  "throttled pv now = (case pv_next_attempt pv of None \<Rightarrow> False | Some t \<Rightarrow> now < t)"

definition postpone_internal :: "env \<Rightarrow> nat \<Rightarrow> nat option op" where
  "postpone_internal env p =
     State_Monad.bind (read_clock env) (\<lambda>now.
     State_Monad.bind (update_provider p (\<lambda>pv. pv\<lparr>pv_next_attempt := Some (now + retry_interval pv)\<rparr>)) (\<lambda>_.
     State_Monad.return None))"

definition verify_internal :: "env \<Rightarrow> nat \<Rightarrow> admin_credentials \<Rightarrow> nat option op" where
  "verify_internal env p creds =
     State_Monad.bind (read_clock env) (\<lambda>now.
     State_Monad.bind (read_provider p) (\<lambda>pv.
     if throttled pv now then State_Monad.return None
     else State_Monad.bind (build_api p creds) (\<lambda>a.
       attempt (verify_api env a)
         (\<lambda>e. postpone_internal env p)
         (\<lambda>_. State_Monad.bind (update_provider p (\<lambda>pv. hold_api a creds (pv\<lparr>pv_next_attempt := None\<rparr>))) (\<lambda>_.
              State_Monad.return (Some a))))))"

definition adopt_bootstrap :: "env \<Rightarrow> nat \<Rightarrow> admin_credentials \<Rightarrow> (nat \<times> string) fallible" where
  "adopt_bootstrap env p creds =
     State_Monad.bind (read_provider p) (\<lambda>pv.
     if pv_skip_internal pv
     then State_Monad.bind (build_api p creds) (\<lambda>a.
          try_wrap ''verify Keycloak tenant admin credentials'' (verify_api env a) (\<lambda>_.
          State_Monad.bind (update_provider p (hold_api a creds)) (\<lambda>_. ok (a, cred_username creds))))
     else State_Monad.bind (store_api p creds) (\<lambda>a. ok (a, cred_username creds)))"

definition get_bootstrap_api :: "env \<Rightarrow> nat \<Rightarrow> (nat \<times> string) fallible" where
  "get_bootstrap_api env p =
     State_Monad.bind (read_provider p) (\<lambda>pv.
     try_ok (bootstrap_admin_credentials env (pv_credential_namespace pv)) (\<lambda>creds.
     case cached_api pv creds of
       Some a \<Rightarrow> ok (a, cred_username creds)
     | None \<Rightarrow> adopt_bootstrap env p creds))"

definition get_admin_api :: "env \<Rightarrow> nat \<Rightarrow> (nat \<times> string) fallible" where
  "get_admin_api env p =
     State_Monad.bind (read_provider p) (\<lambda>pv.
     if pv_skip_internal pv then get_bootstrap_api env p
     else try_ok (internal_admin_credentials env (pv_credential_namespace pv)) (\<lambda>internal.
       case internal of
         None \<Rightarrow> get_bootstrap_api env p
       | Some creds \<Rightarrow>
           (case cached_api pv creds of
              Some a \<Rightarrow> ok (a, internal_admin_username)
            | None \<Rightarrow>
                State_Monad.bind (verify_internal env p creds) (\<lambda>found.
                case found of
                  Some a \<Rightarrow> ok (a, internal_admin_username)
                | None \<Rightarrow> get_bootstrap_api env p))))"

section \<open>The registry\<close>

definition registry_idle_max_age :: duration where
  "registry_idle_max_age = 30 * minute"

definition evict_idle :: "instant \<Rightarrow> duration \<Rightarrow> unit op" where
  "evict_idle now max_age =
     State (\<lambda>s. ((), s\<lparr>st_registry := filter (\<lambda>(ns, p, last). now - last \<le> max_age) (st_registry s)\<rparr>))"

definition lookup_provider :: "string \<Rightarrow> nat option op" where
  "lookup_provider ns = State (\<lambda>s. (map_option fst (map_of (st_registry s) ns), s))"

definition register_provider :: "string \<Rightarrow> nat \<Rightarrow> instant \<Rightarrow> unit op" where
  "register_provider ns p now = State (\<lambda>s. ((), s\<lparr>st_registry := AList.update ns (p, now) (st_registry s)\<rparr>))"

definition provider_for :: "env \<Rightarrow> string \<Rightarrow> string \<Rightarrow> nat op" where
  "provider_for env endpoint_namespace ns =
     State_Monad.bind (read_clock env) (\<lambda>now.
     State_Monad.bind (evict_idle now registry_idle_max_age) (\<lambda>_.
     State_Monad.bind (lookup_provider ns) (\<lambda>found.
     State_Monad.bind
       (case found of
          Some p \<Rightarrow> State_Monad.return p
        | None \<Rightarrow> alloc_provider (new_admin_provider ns endpoint_namespace (ns \<noteq> endpoint_namespace))) (\<lambda>p.
     State_Monad.bind (register_provider ns p now) (\<lambda>_. State_Monad.return p)))))"

definition forget_provider :: "string \<Rightarrow> unit op" where
  "forget_provider ns = State (\<lambda>s. ((), s\<lparr>st_registry := map_delete ns (st_registry s)\<rparr>))"

text \<open>The provider of the Keycloak component (\<^verbatim>\<open>Component.admin\<close>), built once.\<close>

definition component_admin :: "string \<Rightarrow> nat op" where
  "component_admin ns =
     State (\<lambda>s. case st_component_admin s of
       Some p \<Rightarrow> (p, s)
     | None \<Rightarrow> (length (st_providers s),
         s\<lparr>st_providers := st_providers s @ [new_admin_provider ns ns False],
           st_component_admin := Some (length (st_providers s))\<rparr>))"

definition evict_idle_now :: "env \<Rightarrow> duration \<Rightarrow> unit op" where
  "evict_idle_now env max_age = State_Monad.bind (read_clock env) (\<lambda>now. evict_idle now max_age)"

section \<open>The clients a provider holds\<close>

text \<open>
  The client a provider holds was built for its endpoint and for the credential the provider
  remembers, so comparing the remembered credential is comparing the client's.
\<close>

definition holds_own :: "(string \<times> string \<times> string) list \<Rightarrow> admin_provider \<Rightarrow> bool" where
  "holds_own accs pv \<longleftrightarrow>
     pred_option (\<lambda>a. a < length accs \<and>
       accs ! a = (in_cluster_base_url (pv_endpoint_namespace pv), pv_username pv, pv_password pv)) (pv_api pv)"

definition providers_sound :: "op_state \<Rightarrow> bool" where
  "providers_sound s \<longleftrightarrow> list_all (holds_own (accounts s)) (st_providers s)"

definition config_of :: "admin_provider \<Rightarrow> string \<times> string \<times> bool" where
  "config_of pv = (pv_credential_namespace pv, pv_endpoint_namespace pv, pv_skip_internal pv)"

definition config :: "op_state \<Rightarrow> (string \<times> string \<times> bool) list \<times> (string \<times> (nat \<times> instant)) list \<times> nat option" where
  "config s = (map config_of (st_providers s), st_registry s, st_component_admin s)"

lemma run_read_provider [simp]: "run_state (read_provider p) s = (st_providers s ! p, s)"
  by (simp add: read_provider_def)

lemma run_update_provider [simp]:
  "run_state (update_provider p f) s = ((), s\<lparr>st_providers := (st_providers s)[p := f (st_providers s ! p)]\<rparr>)"
  by (simp add: update_provider_def)

lemma run_alloc_admin_api [simp]:
  "run_state (alloc_admin_api base creds) s =
     (length (st_apis s), s\<lparr>st_apis := st_apis s @ [new_admin_api base creds]\<rparr>)"
  by (simp add: alloc_admin_api_def)

lemma clients_determine:
  "clients s' = clients s \<Longrightarrow> accounts s' = accounts s \<and> st_providers s' = st_providers s \<and>
     st_registry s' = st_registry s \<and> st_component_admin s' = st_component_admin s"
  by (simp add: clients_def)

lemma providers_sound_clients: "clients s' = clients s \<Longrightarrow> providers_sound s' = providers_sound s"
  by (simp add: providers_sound_def clients_def)

text \<open>The base URL of a service has no trailing slash to cut.\<close>

lemma trim_in_cluster: "trim_right_char CHR ''/'' (in_cluster_base_url ns) = in_cluster_base_url ns"
  by (simp add: trim_right_char_def in_cluster_base_url_def http_relative_path_def)

lemma account_of_new:
  "account_of (new_admin_api (in_cluster_base_url ns) creds)
     = (in_cluster_base_url ns, cred_username creds, cred_password creds)"
  by (simp add: account_of_def new_admin_api_def trim_in_cluster)

lemma holds_own_append: "holds_own accs pv \<Longrightarrow> holds_own (accs @ new) pv"
  by (auto simp: holds_own_def option.pred_set nth_append)

lemma providers_sound_alloc:
  "providers_sound s \<Longrightarrow> providers_sound (s\<lparr>st_apis := st_apis s @ [x]\<rparr>)"
  by (auto simp: providers_sound_def accounts_def list_all_iff intro: holds_own_append)

lemma list_all_update: "list_all P xs \<Longrightarrow> P x \<Longrightarrow> list_all P (xs[p := x])"
  by (auto simp: list_all_iff dest!: set_update_subset_insert [THEN subsetD])

lemma providers_sound_hold:
  assumes "providers_sound s" and "a < length (accounts s)"
    and "accounts s ! a = (in_cluster_base_url (pv_endpoint_namespace pv), cred_username creds, cred_password creds)"
  shows "providers_sound (s\<lparr>st_providers := (st_providers s)[p := hold_api a creds pv]\<rparr>)"
  using assms
  by (auto simp: providers_sound_def accounts_def holds_own_def hold_api_def intro!: list_all_update)

lemma providers_sound_next_attempt:
  assumes "providers_sound s" and "p < length (st_providers s)"
  shows "providers_sound (s\<lparr>st_providers := (st_providers s)[p := (st_providers s ! p)\<lparr>pv_next_attempt := t\<rparr>]\<rparr>)"
proof -
  have "holds_own (accounts s) (st_providers s ! p)"
    using assms by (simp add: providers_sound_def list_all_length)
  then show ?thesis
    using assms(1)
    by (auto simp: providers_sound_def accounts_def holds_own_def intro!: list_all_update)
qed

text \<open>A credential that was read from one of the two Secrets of a namespace since \<open>t0\<close>.\<close>

definition internal_credential :: "env \<Rightarrow> trace \<Rightarrow> trace \<Rightarrow> string \<Rightarrow> admin_credentials \<Rightarrow> bool" where
  "internal_credential env t0 t ns creds \<longleftrightarrow>
     (\<exists>secret. read_since env t0 t secret_gvk ns internal_admin_secret_name secret \<and>
        creds = \<lparr>cred_username = internal_admin_username,
                 cred_password = secret_value secret internal_admin_secret_password_key\<rparr>)"

definition bootstrap_credential :: "env \<Rightarrow> trace \<Rightarrow> trace \<Rightarrow> string \<Rightarrow> admin_credentials \<Rightarrow> bool" where
  "bootstrap_credential env t0 t ns creds \<longleftrightarrow>
     (\<exists>secret. read_since env t0 t secret_gvk ns admin_secret_name secret \<and>
        creds = \<lparr>cred_username = secret_value secret admin_secret_username_key,
                 cred_password = secret_value secret admin_secret_password_key\<rparr>)"

lemma credential_append:
  "internal_credential env t0 t ns creds \<Longrightarrow> internal_credential env t0 (t @ new) ns creds"
  "bootstrap_credential env t0 t ns creds \<Longrightarrow> bootstrap_credential env t0 (t @ new) ns creds"
  unfolding internal_credential_def bootstrap_credential_def by (blast intro: read_since_append)+

lemma credential_prefix:
  "internal_credential env (t0 @ x) t ns creds \<Longrightarrow> internal_credential env t0 t ns creds"
  "bootstrap_credential env (t0 @ x) t ns creds \<Longrightarrow> bootstrap_credential env t0 t ns creds"
  unfolding internal_credential_def bootstrap_credential_def by (blast intro: read_since_prefix)+

lemma internal_credentials_read:
  assumes "run_state (internal_admin_credentials env ns) s = (Inr (Some creds), s')"
  shows "internal_credential env (st_trace s) (st_trace s') ns creds \<and> cred_username creds = internal_admin_username"
  using assms
  by (fastforce simp: internal_admin_credentials_def internal_credential_def k8s_get_def Let_def
      split: sum.splits if_splits intro: read_since_now)

lemma bootstrap_credentials_read:
  assumes "run_state (bootstrap_admin_credentials env ns) s = (Inr creds, s')"
  shows "bootstrap_credential env (st_trace s) (st_trace s') ns creds"
  using assms
  by (fastforce simp: bootstrap_admin_credentials_def bootstrap_credential_def k8s_get_def Let_def
      split: sum.splits if_splits intro: read_since_now)

lemma keeps_credentials [keeps_intros]:
  "keeps clients (internal_admin_credentials env ns)" "keeps clients (bootstrap_admin_credentials env ns)"
  unfolding internal_admin_credentials_def bootstrap_admin_credentials_def k8s_get_def Let_def
  by (intro keeps_intros; simp)+

text \<open>The account behind the client a resolution answers with.\<close>

definition authenticates :: "op_state \<Rightarrow> nat \<Rightarrow> nat \<Rightarrow> admin_credentials \<Rightarrow> bool" where
  "authenticates s p a creds \<longleftrightarrow>
     a < length (accounts s) \<and>
     accounts s ! a = (in_cluster_base_url (pv_endpoint_namespace (st_providers s ! p)),
       cred_username creds, cred_password creds)"

lemma authenticates_clients: "clients s' = clients s \<Longrightarrow> authenticates s' p a creds = authenticates s p a creds"
  by (simp add: authenticates_def clients_def)

lemma cached_authenticates:
  assumes "providers_sound s" and "p < length (st_providers s)"
    and "cached_api (st_providers s ! p) creds = Some a"
  shows "authenticates s p a creds"
  using assms
  by (fastforce simp: providers_sound_def list_all_length holds_own_def authenticates_def cached_api_def
      split: if_splits)

lemma build_authenticates:
  assumes "run_state (build_api p creds) s = (a, s')" and "providers_sound s"
  shows "authenticates s' p a creds \<and> providers_sound s' \<and> st_providers s' = st_providers s \<and>
    st_trace s' = st_trace s \<and> config s' = config s"
  using assms
  by (auto simp: build_api_def run_state_bind authenticates_def accounts_def account_of_new config_def
      nth_append intro: providers_sound_alloc)

lemma hold_authenticates:
  assumes "authenticates s p a creds" and "providers_sound s" and "p < length (st_providers s)"
    and "s' = s\<lparr>st_providers := (st_providers s)[p := hold_api a creds ((st_providers s ! p)\<lparr>pv_next_attempt := t\<rparr>)]\<rparr>"
  shows "authenticates s' p a creds \<and> providers_sound s' \<and> config s' = config s"
proof -
  have "providers_sound s'"
    using assms by (auto simp: authenticates_def intro!: providers_sound_hold)
  moreover have "config s' = config s"
    using assms(3,4) by (simp add: config_def map_update config_of_def hold_api_def list_update_same_conv)
  ultimately show ?thesis
    using assms(1,3,4) by (simp add: authenticates_def accounts_def hold_api_def)
qed

text \<open>What every resolution step guarantees: soundness stays, and the configuration and the past.\<close>

definition step_safe :: "op_state \<Rightarrow> op_state \<Rightarrow> bool" where
  "step_safe s s' \<longleftrightarrow> providers_sound s' \<and> config s' = config s \<and> (\<exists>new. st_trace s' = st_trace s @ new)"

lemma step_safe_trans: "step_safe s t \<Longrightarrow> step_safe t u \<Longrightarrow> step_safe s u"
  by (auto simp: step_safe_def)

lemma config_clients: "clients s' = clients s \<Longrightarrow> config s' = config s"
  by (simp add: clients_def config_def)

lemma config_length: "config s' = config s \<Longrightarrow> length (st_providers s') = length (st_providers s)"
  by (simp add: config_def) (metis length_map)

lemma verify_safe:
  assumes "run_state (verify_api env a) s = (r, s')" and "providers_sound s"
  shows "step_safe s s' \<and> clients s' = clients s"
proof -
  have "emits (sends (\<lambda>m path body. False)) (verify_api env a)"
    unfolding verify_api_def by (intro emits_intros)
  then obtain new where "st_trace s' = st_trace s @ new" using assms(1) by (rule emitsD)
  moreover have "clients s' = clients s" using keeps_verify_api assms(1) by (rule keepsD)
  ultimately show ?thesis
    using assms(2) providers_sound_clients [of s' s] config_clients [of s' s] by (simp add: step_safe_def)
qed

lemma sound_record_call [simp]: "providers_sound (record_call c s) = providers_sound s"
  by (rule providers_sound_clients) simp

lemma clock_safe: "providers_sound s \<Longrightarrow> step_safe s (record_call c s)"
  using config_clients [of "record_call c s" s] by (simp add: step_safe_def)

lemma postpone_safe:
  assumes "run_state (postpone_internal env p) s = (found, s')" and "providers_sound s"
    and "p < length (st_providers s)"
  shows "step_safe s s' \<and> found = None"
proof -
  let ?t = "record_call ReadClock s"
  have "providers_sound s'"
    using assms providers_sound_next_attempt [of ?t p]
    by (auto simp: postpone_internal_def run_state_bind read_clock_def)
  then show ?thesis
    using assms(1,3)
    by (auto simp: postpone_internal_def run_state_bind read_clock_def step_safe_def config_def map_update
        config_of_def list_update_same_conv)
qed

lemma verify_internal_safe:
  assumes "run_state (verify_internal env p creds) s = (found, s')" and "providers_sound s"
    and "p < length (st_providers s)"
  shows "step_safe s s' \<and> pred_option (\<lambda>a. authenticates s' p a creds) found"
proof (cases "throttled (st_providers s ! p) (env_now env (st_trace s))")
  case True
  then show ?thesis
    using assms by (auto simp: verify_internal_def run_state_bind read_clock_def intro: clock_safe)
next
  case False
  let ?s1 = "record_call ReadClock s"
  obtain a s2 where build: "run_state (build_api p creds) ?s1 = (a, s2)" by force
  obtain r s3 where verify: "run_state (verify_api env a) s2 = (r, s3)" by force
  have s1: "step_safe s ?s1" using assms(2) by (rule clock_safe)
  have s2: "authenticates s2 p a creds" "providers_sound s2" "st_providers s2 = st_providers s"
      "step_safe ?s1 s2"
    using build_authenticates [OF build] s1 by (auto simp: step_safe_def)
  have s3: "step_safe s2 s3" "clients s3 = clients s2"
    using verify_safe [OF verify s2(2)] by auto
  have len: "p < length (st_providers s3)"
    using s3(2) s2(3) assms(3) by (simp add: clients_def)
  show ?thesis
  proof (cases r)
    case (Inl e)
    then have "run_state (postpone_internal env p) s3 = (found, s')"
      using assms(1) False build verify by (simp add: verify_internal_def run_state_bind read_clock_def)
    from postpone_safe [OF this _ len] show ?thesis
      using s1 s2(4) s3(1) by (auto simp: step_safe_def)
  next
    case (Inr x)
    let ?s4 = "s3\<lparr>st_providers := (st_providers s3)[p := hold_api a creds ((st_providers s3 ! p)\<lparr>pv_next_attempt := None\<rparr>)]\<rparr>"
    have run: "found = Some a" "s' = ?s4"
      using assms(1) False build verify Inr
      by (simp_all add: verify_internal_def run_state_bind read_clock_def)
    have "authenticates s3 p a creds" using s2(1) authenticates_clients [OF s3(2)] by simp
    from hold_authenticates [OF this _ len refl, of None] have "authenticates s' p a creds" "step_safe s3 s'"
      using s3(1) run(2) by (simp_all add: step_safe_def)
    then show ?thesis
      using run(1) s1 s2(4) s3(1) by (auto intro: step_safe_trans)
  qed
qed

section \<open>Whom the operator authenticates as\<close>

lemma read_secret_safe:
  assumes "run_state (internal_admin_credentials env ns) s = (r, s') \<or>
           run_state (bootstrap_admin_credentials env ns) s = (r', s')" and "providers_sound s"
  shows "step_safe s s' \<and> clients s' = clients s"
proof -
  have "clients s' = clients s"
    using assms(1) keeps_credentials by (blast dest: keepsD)
  moreover have "st_trace s' = st_trace s @ [K8sGet secret_gvk ns internal_admin_secret_name] \<or>
      st_trace s' = st_trace s @ [K8sGet secret_gvk ns admin_secret_name]"
    using assms(1)
    by (auto simp: internal_admin_credentials_def bootstrap_admin_credentials_def k8s_get_def Let_def
        split: sum.splits if_splits)
  ultimately show ?thesis
    using assms(2) providers_sound_clients [of s' s] config_clients [of s' s] by (auto simp: step_safe_def)
qed

lemma hold_now_safe:
  assumes "authenticates s p a creds" and "providers_sound s" and "p < length (st_providers s)"
    and "s' = s\<lparr>st_providers := (st_providers s)[p := hold_api a creds (st_providers s ! p)]\<rparr>"
  shows "authenticates s' p a creds \<and> step_safe s s'"
  using hold_authenticates [OF assms(1-3), of s' "pv_next_attempt (st_providers s ! p)"] assms(4)
  by (simp add: step_safe_def)

lemma adopt_bootstrap_safe:
  assumes "run_state (adopt_bootstrap env p creds) s = (r, s')" and "providers_sound s"
    and "p < length (st_providers s)"
  shows "step_safe s s' \<and>
    (\<forall>a user. r = Inr (a, user) \<longrightarrow> authenticates s' p a creds \<and> user = cred_username creds)"
proof -
  obtain a s2 where build: "run_state (build_api p creds) s = (a, s2)" by force
  note s2 = build_authenticates [OF build assms(2)]
  then have safe2: "step_safe s s2" and len2: "p < length (st_providers s2)"
    using assms(3) by (simp_all add: step_safe_def)
  show ?thesis
  proof (cases "pv_skip_internal (st_providers s ! p)")
    case True
    obtain v s3 where verify: "run_state (verify_api env a) s2 = (v, s3)" by force
    have s3: "step_safe s2 s3" "clients s3 = clients s2" using verify_safe [OF verify] s2 by auto
    show ?thesis
    proof (cases v)
      case (Inl e)
      then show ?thesis
        using assms(1) True build verify safe2 s3(1)
        by (auto simp: adopt_bootstrap_def run_state_bind intro: step_safe_trans)
    next
      case (Inr x)
      then have run: "r = Inr (a, cred_username creds)"
        "s' = s3\<lparr>st_providers := (st_providers s3)[p := hold_api a creds (st_providers s3 ! p)]\<rparr>"
        using assms(1) True build verify by (simp_all add: adopt_bootstrap_def run_state_bind)
      have "authenticates s3 p a creds" "p < length (st_providers s3)" "providers_sound s3"
        using s2 s3 len2 authenticates_clients [OF s3(2)] by (simp_all add: clients_def step_safe_def)
      from hold_now_safe [OF this(1,3,2) run(2)] show ?thesis
        using run(1) safe2 s3(1) by (auto intro: step_safe_trans)
    qed
  next
    case False
    then have run: "r = Inr (a, cred_username creds)"
      "s' = s2\<lparr>st_providers := (st_providers s2)[p := hold_api a creds (st_providers s2 ! p)]\<rparr>"
      using assms(1) build by (simp_all add: adopt_bootstrap_def store_api_def run_state_bind)
    from hold_now_safe [OF _ _ len2 run(2)] show ?thesis
      using run(1) s2 safe2 by (auto intro: step_safe_trans)
  qed
qed

lemma get_bootstrap_api_safe:
  assumes "run_state (get_bootstrap_api env p) s = (r, s')" and "providers_sound s"
    and "p < length (st_providers s)"
  shows "step_safe s s' \<and>
    (\<forall>a user. r = Inr (a, user) \<longrightarrow> (\<exists>creds. authenticates s' p a creds \<and> user = cred_username creds \<and>
       bootstrap_credential env (st_trace s) (st_trace s') (pv_credential_namespace (st_providers s ! p)) creds))"
proof -
  let ?ns = "pv_credential_namespace (st_providers s ! p)"
  obtain c s1 where read: "run_state (bootstrap_admin_credentials env ?ns) s = (c, s1)" by force
  note s1 = read_secret_safe [of env, OF disjI2 [OF read] assms(2)]
  then have p1: "st_providers s1 = st_providers s" "providers_sound s1" "p < length (st_providers s1)"
    using assms(3) by (auto simp: clients_def step_safe_def)
  show ?thesis
  proof (cases c)
    case (Inl e)
    then show ?thesis using assms(1) read s1 by (auto simp: get_bootstrap_api_def run_state_bind)
  next
    case (Inr creds)
    have cred: "bootstrap_credential env (st_trace s) (st_trace t) ?ns creds" if "step_safe s1 t" for t
      using that bootstrap_credentials_read [OF read [unfolded Inr]]
      by (auto simp: step_safe_def intro: credential_append)
    show ?thesis
    proof (cases "cached_api (st_providers s ! p) creds")
      case (Some a)
      then have "r = Inr (a, cred_username creds)" "s' = s1"
        using assms(1) read Inr by (simp_all add: get_bootstrap_api_def run_state_bind)
      moreover have "authenticates s1 p a creds"
        using cached_authenticates [OF p1(2,3)] p1(1) Some by simp
      moreover have "step_safe s1 s1" using p1(2) by (simp add: step_safe_def)
      ultimately show ?thesis using s1 cred [of s1] by auto
    next
      case None
      then have "run_state (adopt_bootstrap env p creds) s1 = (r, s')"
        using assms(1) read Inr by (simp add: get_bootstrap_api_def run_state_bind)
      from adopt_bootstrap_safe [OF this p1(2,3)] show ?thesis
        using s1 cred [of s'] by (auto intro: step_safe_trans)
    qed
  qed
qed

definition resolved :: "env \<Rightarrow> trace \<Rightarrow> op_state \<Rightarrow> nat \<Rightarrow> nat \<Rightarrow> string \<Rightarrow> bool" where
  "resolved env t0 s p a user \<longleftrightarrow>
     (\<exists>creds. authenticates s p a creds \<and> user = cred_username creds \<and>
        (bootstrap_credential env t0 (st_trace s) (pv_credential_namespace (st_providers s ! p)) creds \<or>
         (\<not> pv_skip_internal (st_providers s ! p) \<and>
          internal_credential env t0 (st_trace s) (pv_credential_namespace (st_providers s ! p)) creds)))"

lemma config_nth:
  assumes "config s' = config s" and "p < length (st_providers s)"
  shows "pv_credential_namespace (st_providers s' ! p) = pv_credential_namespace (st_providers s ! p) \<and>
    pv_endpoint_namespace (st_providers s' ! p) = pv_endpoint_namespace (st_providers s ! p) \<and>
    pv_skip_internal (st_providers s' ! p) = pv_skip_internal (st_providers s ! p)"
proof -
  have "map config_of (st_providers s') ! p = map config_of (st_providers s) ! p"
    using assms(1) by (simp add: config_def)
  then show ?thesis using assms config_length [OF assms(1)] by (simp add: config_of_def)
qed

lemma get_admin_api_safe:
  assumes "run_state (get_admin_api env p) s = (r, s')" and "providers_sound s"
    and "p < length (st_providers s)"
  shows "step_safe s s' \<and> (\<forall>a user. r = Inr (a, user) \<longrightarrow> resolved env (st_trace s) s' p a user)"
proof -
  let ?ns = "pv_credential_namespace (st_providers s ! p)"
  have boot: "step_safe s s' \<and> (\<forall>a user. r = Inr (a, user) \<longrightarrow> resolved env (st_trace s) s' p a user)"
    if run: "run_state (get_bootstrap_api env p) t = (r, s')" and t: "step_safe s t" for t
  proof -
    have "p < length (st_providers t)" "config t = config s" "providers_sound t"
      using t assms(3) config_length [of t s] by (auto simp: step_safe_def)
    note boot = get_bootstrap_api_safe [OF run this(3,1)] and same = config_nth [OF this(2) assms(3)]
    then have safe: "step_safe s s'" using t step_safe_trans by blast
    then have "pv_credential_namespace (st_providers s' ! p) = pv_credential_namespace (st_providers t ! p)"
      using config_nth [of s' s p] assms(3) same by (simp add: step_safe_def)
    moreover obtain new where "st_trace t = st_trace s @ new" using t by (auto simp: step_safe_def)
    ultimately show ?thesis
      using safe boot credential_prefix(2) [of env "st_trace s" new] unfolding resolved_def by metis
  qed
  have refl: "step_safe s s" using assms(2) by (simp add: step_safe_def)
  show ?thesis
  proof (cases "pv_skip_internal (st_providers s ! p)")
    case True
    then show ?thesis using assms(1) boot [OF _ refl] by (simp add: get_admin_api_def run_state_bind)
  next
    case False
    obtain c s1 where read: "run_state (internal_admin_credentials env ?ns) s = (c, s1)" by force
    note s1 = read_secret_safe [of env, OF disjI1 [OF read] assms(2)]
    show ?thesis
    proof (cases "\<exists>creds. c = Inr (Some creds)")
      case False
      then show ?thesis
        using assms(1) read \<open>\<not> pv_skip_internal _\<close> boot [of s1] s1
        by (cases c) (auto simp: get_admin_api_def run_state_bind)
    next
      case True
      then obtain creds where creds: "c = Inr (Some creds)" ..
      note cred = internal_credentials_read [OF read [unfolded creds]]
      have ok_case: "step_safe s s' \<and> (\<forall>a user. r = Inr (a, user) \<longrightarrow> resolved env (st_trace s) s' p a user)"
        if "r = Inr (a, internal_admin_username)" "step_safe s1 s'" "authenticates s' p a creds" for a
      proof -
        have "internal_credential env (st_trace s) (st_trace s') ?ns creds"
          using that(2) cred by (auto simp: step_safe_def intro: credential_append)
        moreover have "step_safe s s'" using s1 that(2) step_safe_trans by blast
        moreover have "pv_credential_namespace (st_providers s' ! p) = ?ns \<and>
            \<not> pv_skip_internal (st_providers s' ! p)"
          using config_nth [of s' s p] \<open>step_safe s s'\<close> assms(3) \<open>\<not> pv_skip_internal _\<close>
          by (simp add: step_safe_def)
        ultimately show ?thesis using that(1,3) cred by (auto simp: resolved_def)
      qed
      have p1: "st_providers s1 = st_providers s" "providers_sound s1" "p < length (st_providers s1)"
        using s1 assms(3) by (auto simp: clients_def step_safe_def)
      show ?thesis
      proof (cases "cached_api (st_providers s ! p) creds")
        case (Some a)
        then show ?thesis
          using assms(1) read creds \<open>\<not> pv_skip_internal _\<close> ok_case [of a] cached_authenticates [OF p1(2,3)] p1
          by (simp add: get_admin_api_def run_state_bind step_safe_def)
      next
        case None
        obtain found s2 where verify: "run_state (verify_internal env p creds) s1 = (found, s2)" by force
        note s2 = verify_internal_safe [OF verify p1(2,3)]
        show ?thesis
          using assms(1) read creds None verify \<open>\<not> pv_skip_internal _\<close> ok_case boot [of s2] s1 s2
          by (cases found) (auto simp: get_admin_api_def run_state_bind intro: step_safe_trans)
      qed
    qed
  qed
qed

section \<open>Tenants are kept apart\<close>

text \<open>
  Every registered provider was built for the namespace it is registered under, and looks at
  the platform's own account only when that is the endpoint namespace.
\<close>

definition registered_own :: "string \<Rightarrow> op_state \<Rightarrow> string \<times> (nat \<times> instant) \<Rightarrow> bool" where
  "registered_own endpoint s entry \<longleftrightarrow>
     fst (snd entry) < length (st_providers s) \<and>
     config_of (st_providers s ! fst (snd entry)) = (fst entry, endpoint, fst entry \<noteq> endpoint)"

definition admin_sound :: "string \<Rightarrow> op_state \<Rightarrow> bool" where
  "admin_sound endpoint s \<longleftrightarrow>
     providers_sound s \<and> distinct (keys_of (st_registry s)) \<and>
     list_all (registered_own endpoint s) (st_registry s)"

text \<open>
  What the program can do to the providers: the registry operations, a resolution, a request
  with any client, and everything else, which leaves the clients alone.
\<close>

inductive admin_step :: "env \<Rightarrow> string \<Rightarrow> op_state \<Rightarrow> op_state \<Rightarrow> bool"
  for env :: env and endpoint :: string where
  resolve: "run_state (provider_for env endpoint ns) s = (p, s') \<Longrightarrow> admin_step env endpoint s s'"
| component: "run_state (component_admin ns) s = (p, s') \<Longrightarrow> admin_step env endpoint s s'"
| forget: "run_state (forget_provider ns) s = (u, s') \<Longrightarrow> admin_step env endpoint s s'"
| evict: "run_state (evict_idle_now env max_age) s = (u, s') \<Longrightarrow> admin_step env endpoint s s'"
| get: "p < length (st_providers s) \<Longrightarrow> run_state (get_admin_api env p) s = (r, s') \<Longrightarrow>
    admin_step env endpoint s s'"
| request: "run_state (do_request env a m path body) s = (r', s') \<Longrightarrow> admin_step env endpoint s s'"
| other: "clients s' = clients s \<Longrightarrow> admin_step env endpoint s s'"

inductive admin_reachable :: "env \<Rightarrow> string \<Rightarrow> op_state \<Rightarrow> bool"
  for env :: env and endpoint :: string where
  start: "admin_reachable env endpoint initial_state"
| step: "admin_reachable env endpoint s \<Longrightarrow> admin_step env endpoint s s' \<Longrightarrow> admin_reachable env endpoint s'"

inductive_cases admin_stepE: "admin_step env endpoint s s'"

lemma registered_config:
  assumes "config s' = config s"
  shows "list_all (registered_own endpoint s') (st_registry s') = list_all (registered_own endpoint s) (st_registry s)"
proof -
  have "registered_own endpoint s' e = registered_own endpoint s e" for e
    using config_nth [OF assms, of "fst (snd e)"] config_length [OF assms]
    by (auto simp: registered_own_def config_of_def)
  moreover have "st_registry s' = st_registry s" using assms by (simp add: config_def)
  ultimately show ?thesis by (simp add: list_all_iff)
qed

lemma admin_sound_config:
  "admin_sound endpoint s \<Longrightarrow> providers_sound s' \<Longrightarrow> config s' = config s \<Longrightarrow> admin_sound endpoint s'"
  using registered_config [of s' s endpoint] by (simp add: admin_sound_def config_def)

lemma admin_sound_clients: "admin_sound endpoint s \<Longrightarrow> clients s' = clients s \<Longrightarrow> admin_sound endpoint s'"
  using providers_sound_clients [of s' s] config_clients [of s' s] admin_sound_config [of endpoint s s']
  by (simp add: admin_sound_def)

lemma registered_more:
  "registered_own endpoint s e \<Longrightarrow> st_providers s' = st_providers s @ new \<Longrightarrow> registered_own endpoint s' e"
  by (simp add: registered_own_def nth_append)

lemma new_provider_facts [simp]:
  "holds_own accs (new_admin_provider ns endpoint skip)"
  "config_of (new_admin_provider ns endpoint skip) = (ns, endpoint, skip)"
  by (simp_all add: holds_own_def new_admin_provider_def config_of_def)

lemma admin_sound_evict:
  "admin_sound endpoint s \<Longrightarrow> admin_sound endpoint (s\<lparr>st_registry := filter P (st_registry s)\<rparr>)"
  by (auto simp: admin_sound_def providers_sound_def accounts_def registered_own_def list_all_iff
      intro: distinct_map_filter)

lemma list_all_alist_update: "list_all P m \<Longrightarrow> P (k, v) \<Longrightarrow> list_all P (AList.update k v m)"
  by (induction m) auto

text \<open>A lookup answers with the provider of the namespace, now registered.\<close>

lemma provider_for_own:
  assumes "run_state (provider_for env endpoint ns) s = (p, s')" and "admin_sound endpoint s"
  shows "admin_sound endpoint s' \<and> p < length (st_providers s') \<and>
    config_of (st_providers s' ! p) = (ns, endpoint, ns \<noteq> endpoint)"
proof -
  define now where "now = env_now env (st_trace s)"
  define s1 where "s1 = (record_call ReadClock s)
    \<lparr>st_registry := filter (\<lambda>(ns, p, last). now - last \<le> registry_idle_max_age) (st_registry s)\<rparr>"
  have "admin_sound endpoint (record_call ReadClock s)"
    using assms(2) by (rule admin_sound_clients) simp
  from admin_sound_evict [OF this] have sound: "admin_sound endpoint s1" by (simp add: s1_def)
  show ?thesis
  proof (cases "map_of (st_registry s1) ns")
    case None
    then have "p = length (st_providers s1)"
      "s' = s1\<lparr>st_providers := st_providers s1 @ [new_admin_provider ns endpoint (ns \<noteq> endpoint)],
               st_registry := AList.update ns (p, now) (st_registry s1)\<rparr>"
      using assms(1)
      by (auto simp: provider_for_def run_state_bind read_clock_def evict_idle_def lookup_provider_def
          alloc_provider_def register_provider_def s1_def now_def)
    then show ?thesis
      using sound
      by (auto simp: admin_sound_def providers_sound_def accounts_def registered_own_def nth_append
          distinct_update intro!: list_all_alist_update elim: list.pred_mono_strong)
  next
    case (Some entry)
    then have run: "p = fst entry" "s' = s1\<lparr>st_registry := AList.update ns (p, now) (st_registry s1)\<rparr>"
      using assms(1)
      by (auto simp: provider_for_def run_state_bind read_clock_def evict_idle_def lookup_provider_def
          register_provider_def s1_def now_def)
    have "registered_own endpoint s1 (ns, entry)"
      using sound Some by (auto simp: admin_sound_def list_all_iff dest: map_of_SomeD)
    then show ?thesis
      using sound run
      by (auto simp: admin_sound_def providers_sound_def accounts_def registered_own_def distinct_update
          intro!: list_all_alist_update elim: list.pred_mono_strong)
  qed
qed

lemma admin_reachable_sound_aux:
  assumes "admin_reachable env endpoint s"
  shows "admin_sound endpoint s"
  using assms
proof (induction rule: admin_reachable.induct)
  case start
  show ?case by (simp add: admin_sound_def providers_sound_def initial_state_def)
next
  case (step s s')
  from step(2) show ?case
  proof (cases rule: admin_step.cases)
    case (resolve ns p)
    then show ?thesis using step(3) provider_for_own by blast
  next
    case (component ns p)
    then have more_apis: "st_registry s' = st_registry s" "accounts s' = accounts s"
        "st_providers s' = st_providers s \<or> st_providers s' = st_providers s @ [new_admin_provider ns ns False]"
      by (auto simp: component_admin_def accounts_def split: option.splits)
    then have "registered_own endpoint s' e" if "registered_own endpoint s e" for e
      using that registered_more [of endpoint s e s'] registered_more [of endpoint s e s' "[]"] by auto
    then show ?thesis
      using step(3) more_apis by (auto simp: admin_sound_def providers_sound_def list_all_iff)
  next
    case (forget ns u)
    then show ?thesis
      using step(3) admin_sound_evict by (auto simp: forget_provider_def map_delete_def)
  next
    case (evict max_age u)
    have "admin_sound endpoint (record_call ReadClock s)" using step(3) by (rule admin_sound_clients) simp
    from admin_sound_evict [OF this] show ?thesis
      using evict by (auto simp: evict_idle_now_def evict_idle_def run_state_bind read_clock_def)
  next
    case (get p r)
    have "providers_sound s" using step(3) by (simp add: admin_sound_def)
    from get_admin_api_safe [OF get(2) this get(1)] show ?thesis
      using admin_sound_config [OF step(3), of s'] by (simp add: step_safe_def)
  next
    case (request a m path body r)
    with keeps_do_request have "clients s' = clients s" by (rule keepsD)
    with step(3) show ?thesis by (rule admin_sound_clients)
  next
    case other
    with step(3) show ?thesis by (rule admin_sound_clients)
  qed
qed

text \<open>
  C2. In every state the program can reach, a provider's client talks to the provider's own
  endpoint with the credential the provider remembers, and the registry maps a namespace
  only to a provider built for it.
\<close>

theorem admin_reachable_sound:
  assumes "admin_reachable env endpoint s"
  shows "admin_sound endpoint s"
  using assms by (rule admin_reachable_sound_aux)

text \<open>
  C1. A tenant never works with another tenant's credential: in every reachable state the
  client resolved for a namespace talks to the Keycloak of the endpoint namespace with a
  credential that was read during this resolution from a Secret of that very namespace,
  and only the endpoint namespace itself can use the platform's internal account.
\<close>

theorem tenant_credentials_isolated:
  assumes "admin_reachable env endpoint s"
    and "run_state (provider_for env endpoint ns) s = (p, s1)"
    and "run_state (get_admin_api env p) s1 = (Inr (a, user), s2)"
  shows "\<exists>creds. account_of (st_apis s2 ! a)
        = (in_cluster_base_url endpoint, cred_username creds, cred_password creds) \<and>
      user = cred_username creds \<and>
      (bootstrap_credential env (st_trace s1) (st_trace s2) ns creds \<or>
       (ns = endpoint \<and> internal_credential env (st_trace s1) (st_trace s2) ns creds))"
proof -
  have own: "admin_sound endpoint s1" "p < length (st_providers s1)"
      "config_of (st_providers s1 ! p) = (ns, endpoint, ns \<noteq> endpoint)"
    using provider_for_own [OF assms(2) admin_reachable_sound_aux [OF assms(1)]] by auto
  then have "providers_sound s1" by (simp add: admin_sound_def)
  from get_admin_api_safe [OF assms(3) this own(2)]
  have safe: "step_safe s1 s2" "resolved env (st_trace s1) s2 p a user" by auto
  have "config_of (st_providers s2 ! p) = (ns, endpoint, ns \<noteq> endpoint)"
    using config_nth [of s2 s1 p] safe(1) own(2,3) by (simp add: config_of_def step_safe_def)
  then show ?thesis
    using safe(2) by (auto simp: resolved_def authenticates_def accounts_def config_of_def)
qed

text \<open>A cluster with the bootstrap Secret of a tenant, and the states of its first resolution.\<close>

definition tenant_secret :: k8s_object where
  "tenant_secret = new_object secret_gvk ''tenant-a'' admin_secret_name
     (SecretData (Some [(''username'', ''alice''), (''password'', ''pw'')]))"

definition tenant_env :: env where
  "tenant_env = memory_env [tenant_secret] no_keycloak (\<lambda>raw. Inl (Msg ''no JSON''))"

definition tenant_start :: "nat \<times> op_state" where
  "tenant_start = run_state (provider_for tenant_env ''kc'' ''tenant-a'') initial_state"

definition tenant_result :: "(go_err + nat \<times> string) \<times> op_state" where
  "tenant_result = run_state (get_admin_api tenant_env (fst tenant_start)) (snd tenant_start)"

lemma tenant_start_eq:
  "tenant_start = (0, initial_state\<lparr>st_trace := [ReadClock],
     st_providers := [new_admin_provider ''tenant-a'' ''kc'' True],
     st_registry := [(''tenant-a'', (0, 0))]\<rparr>)"
  by (simp add: tenant_start_def provider_for_def run_state_bind read_clock_def evict_idle_def lookup_provider_def
      alloc_provider_def register_provider_def initial_state_def tenant_env_def memory_env_def record_call_def)

lemma tenant_secret_read:
  "env_get tenant_env [ReadClock] secret_gvk ''tenant-a'' admin_secret_name = Inr tenant_secret"
  by (simp add: tenant_env_def memory_env_def memory_get_def tenant_secret_def has_key_def stored_def new_meta_def)

lemma tenant_env_verifies:
  "\<exists>s'. run_state (verify_api tenant_env 0) s = (Inr (), s')"
  by (simp add: verify_api_def authenticate_def fetch_token_def request_token_def accept_token_def store_token_def
      read_clock_def run_state_bind tenant_env_def memory_env_def)

lemma tenant_result_eq: "fst tenant_result = Inr (0, ''alice'')"
proof -
  have "\<forall>s. \<exists>s'. run_state (verify_api tenant_env 0) s = (Inr (), s')"
    using tenant_env_verifies by blast
  from choice [OF this] obtain f where "\<forall>s. run_state (verify_api tenant_env 0) s = (Inr (), f s)" ..
  then show ?thesis
    by (simp add: tenant_result_def tenant_start_eq get_admin_api_def get_bootstrap_api_def run_state_bind
        new_admin_provider_def bootstrap_admin_credentials_def k8s_get_def tenant_secret_read Let_def
        cached_api_def adopt_bootstrap_def build_api_def initial_state_def tenant_secret_def secret_value_def
        secret_data_def admin_secret_username_key_def admin_secret_password_key_def)
qed

theorem admin_reachable_sound_witness:
  "admin_reachable tenant_env ''kc'' (snd tenant_result) \<and> admin_sound ''kc'' (snd tenant_result)"
proof -
  have one: "admin_reachable tenant_env ''kc'' (snd tenant_start)"
    by (rule admin_reachable.step [OF admin_reachable.start])
       (rule admin_step.resolve [of _ _ "''tenant-a''" _ "fst tenant_start"], simp add: tenant_start_def)
  have "admin_reachable tenant_env ''kc'' (snd tenant_result)"
    by (rule admin_reachable.step [OF one])
       (rule admin_step.get [of "fst tenant_start" _ _ "fst tenant_result"],
        simp_all add: tenant_result_def tenant_start_eq)
  then show ?thesis using admin_reachable_sound [of tenant_env "''kc''" "snd tenant_result"] by simp
qed

theorem tenant_credentials_isolated_witness:
  "fst tenant_result = Inr (0, ''alice'') \<and>
   (\<exists>creds. account_of (st_apis (snd tenant_result) ! 0)
        = (in_cluster_base_url ''kc'', cred_username creds, cred_password creds) \<and>
      ''alice'' = cred_username creds \<and>
      bootstrap_credential tenant_env (st_trace (snd tenant_start)) (st_trace (snd tenant_result)) ''tenant-a'' creds)"
proof -
  have "run_state (get_admin_api tenant_env (fst tenant_start)) (snd tenant_start)
      = (Inr (0, ''alice''), snd tenant_result)"
    using tenant_result_eq by (metis prod.collapse tenant_result_def)
  moreover have "run_state (provider_for tenant_env ''kc'' ''tenant-a'') initial_state
      = (fst tenant_start, snd tenant_start)"
    by (simp add: tenant_start_def)
  moreover have "''tenant-a'' \<noteq> ''kc''" by simp
  ultimately show ?thesis
    using tenant_credentials_isolated [OF admin_reachable.start, of tenant_env "''kc''" "''tenant-a''"
        "fst tenant_start" "snd tenant_start" 0 "''alice''" "snd tenant_result"] tenant_result_eq
    by blast
qed

end
