(* ===== verification/Trace_Logic.thy ===== *)
theory Trace_Logic
  imports Effects
begin

text \<open>
  A Hoare calculus over the calls made so far. \<open>triple P m Q\<close>: from any state whose trace
  satisfies \<open>P\<close>, the value and the trace \<open>m\<close> leaves satisfy \<open>Q\<close>. The rules follow the
  combinators of the model, so an order between calls (the route after the readiness test,
  nothing after a refused lease) is proved along the code.
\<close>

definition triple :: "(trace \<Rightarrow> bool) \<Rightarrow> 'a op \<Rightarrow> ('a \<Rightarrow> trace \<Rightarrow> bool) \<Rightarrow> bool" where
  "triple P m Q \<longleftrightarrow>
     (\<forall>s r s'. P (st_trace s) \<longrightarrow> run_state m s = (r, s') \<longrightarrow> Q r (st_trace s'))"

lemma tripleD: "triple P m Q \<Longrightarrow> P (st_trace s) \<Longrightarrow> run_state m s = (r, s') \<Longrightarrow> Q r (st_trace s')"
  by (simp add: triple_def)

named_theorems triple_intros

lemma triple_return [triple_intros]: "(\<And>t. P t \<Longrightarrow> Q x t) \<Longrightarrow> triple P (State_Monad.return x) Q"
  by (simp add: triple_def)

lemma triple_bind: "triple P m R \<Longrightarrow> (\<And>x. triple (R x) (k x) Q) \<Longrightarrow> triple P (State_Monad.bind m k) Q"
  unfolding triple_def by (fastforce simp: run_state_bind split: prod.splits)

lemma triple_attempt:
  "triple P m R \<Longrightarrow> (\<And>e. triple (R (Inl e)) (h e) Q) \<Longrightarrow> (\<And>x. triple (R (Inr x)) (k x) Q) \<Longrightarrow>
     triple P (attempt m h k) Q"
  unfolding attempt_def by (erule triple_bind) (simp split: sum.split)

lemma triple_try:
  "triple P m R \<Longrightarrow> (\<And>e t. R (Inl e) t \<Longrightarrow> Q (Inl e) t) \<Longrightarrow> (\<And>x. triple (R (Inr x)) (k x) Q) \<Longrightarrow>
     triple P (try_ok m k) Q"
  unfolding try_ok_def by (erule triple_attempt) (auto intro: triple_return)

lemma triple_wrap:
  "triple P m R \<Longrightarrow> (\<And>e t. R (Inl e) t \<Longrightarrow> Q (Inl (Wrap msg e)) t) \<Longrightarrow> (\<And>x. triple (R (Inr x)) (k x) Q) \<Longrightarrow>
     triple P (try_wrap msg m k) Q"
  unfolding try_wrap_def by (erule triple_attempt) (auto intro: triple_return)

lemma triple_if [triple_intros]:
  "(b \<Longrightarrow> triple P m Q) \<Longrightarrow> (\<not> b \<Longrightarrow> triple P n Q) \<Longrightarrow> triple P (if b then m else n) Q"
  by simp

lemma triple_case_prod [triple_intros]:
  "(\<And>a b. v = (a, b) \<Longrightarrow> triple P (k a b) Q) \<Longrightarrow> triple P (case v of (a, b) \<Rightarrow> k a b) Q"
  by (simp split: prod.split)

lemma triple_case_option [triple_intros]:
  "(v = None \<Longrightarrow> triple P m Q) \<Longrightarrow> (\<And>x. v = Some x \<Longrightarrow> triple P (k x) Q) \<Longrightarrow>
     triple P (case v of None \<Rightarrow> m | Some x \<Rightarrow> k x) Q"
  by (simp split: option.split)

lemma triple_case_sum [triple_intros]:
  "(\<And>e. v = Inl e \<Longrightarrow> triple P (h e) Q) \<Longrightarrow> (\<And>x. v = Inr x \<Longrightarrow> triple P (k x) Q) \<Longrightarrow>
     triple P (case v of Inl e \<Rightarrow> h e | Inr x \<Rightarrow> k x) Q"
  by (simp split: sum.split)

lemma triple_Let [triple_intros]: "(\<And>x. x = v \<Longrightarrow> triple P (k x) Q) \<Longrightarrow> triple P (Let v k) Q"
  by simp

lemma triple_mono:
  "triple P m Q \<Longrightarrow> (\<And>t. P' t \<Longrightarrow> P t) \<Longrightarrow> (\<And>r t. Q r t \<Longrightarrow> Q' r t) \<Longrightarrow> triple P' m Q'"
  unfolding triple_def by blast

lemma triple_conj:
  "triple P m Q \<Longrightarrow> triple P' m Q' \<Longrightarrow> triple (\<lambda>t. P t \<and> P' t) m (\<lambda>r t. Q r t \<and> Q' r t)"
  unfolding triple_def by blast

text \<open>What is stable under the calls of \<open>m\<close> holds after \<open>m\<close>.\<close>

lemma triple_calls:
  "emits C m \<Longrightarrow> (\<And>t new. P t \<Longrightarrow> \<forall>c \<in> set new. C c \<Longrightarrow> P (t @ new)) \<Longrightarrow> triple P m (\<lambda>r. P)"
  unfolding triple_def by (metis emitsD)

lemma triple_returns: "triple P m Q \<Longrightarrow> returns A m \<Longrightarrow> triple P m (\<lambda>r t. Q r t \<and> A r)"
  unfolding triple_def by (metis returnsD)

lemma triple_get:
  "(\<And>t. P t \<Longrightarrow> P (t @ [K8sGet k ns n])) \<Longrightarrow>
     triple P (k8s_get env k ns n)
       (\<lambda>r t. P t \<and> (\<exists>before. t = before @ [K8sGet k ns n] \<and> P before \<and> r = env_get env before k ns n))"
  by (auto simp: triple_def k8s_get_def)

text \<open>Calls made since the trace was \<open>t0\<close>, all of them in \<open>C\<close>.\<close>

definition only_since :: "(call \<Rightarrow> bool) \<Rightarrow> trace \<Rightarrow> trace \<Rightarrow> bool" where
  "only_since C t0 t \<longleftrightarrow> (\<exists>new. t = t0 @ new \<and> (\<forall>c \<in> set new. C c))"

lemma only_since_refl [simp]: "only_since C t t"
  by (simp add: only_since_def)

lemma only_since_append: "only_since C t0 t \<Longrightarrow> \<forall>c \<in> set new. C c \<Longrightarrow> only_since C t0 (t @ new)"
  by (fastforce simp: only_since_def)

lemma only_since_trans: "only_since C t0 t1 \<Longrightarrow> only_since C t1 t2 \<Longrightarrow> only_since C t0 t2"
  unfolding only_since_def by (metis append.assoc Un_iff set_append)

lemma only_since_mono: "only_since C t0 t \<Longrightarrow> (\<And>c. C c \<Longrightarrow> D c) \<Longrightarrow> only_since D t0 t"
  by (auto simp: only_since_def)

lemma only_since_get:
  "only_since C t0 before \<Longrightarrow> env_get env before k ns n = Inr ob \<Longrightarrow>
     read_since env t0 (before @ [K8sGet k ns n]) k ns n ob"
  unfolding only_since_def by (metis read_since_now read_since_prefix)

lemma triple_only: "emits C m \<Longrightarrow> triple (only_since C t0) m (\<lambda>r. only_since C t0)"
  by (erule triple_calls) (rule only_since_append)

text \<open>A step that follows a lookup may rely on what the lookup answers.\<close>

lemma emits_attempt_delivers:
  assumes "emits P m" and "delivers A R m" and "\<And>e. R e \<Longrightarrow> emits P (h e)" and "\<And>x. A x \<Longrightarrow> emits P (k x)"
  shows "emits P (attempt m h k)"
proof -
  have "emits P (State_Monad.bind m (\<lambda>r. case r of Inl e \<Rightarrow> h e | Inr x \<Rightarrow> k x))"
    unfolding emits_def
  proof
    fix s
    obtain x t where x: "run_state m s = (x, t)" by (cases "run_state m s")
    obtain a where a: "st_trace t = st_trace s @ a" "\<forall>c \<in> set a. P c"
      using assms(1) x by (rule emitsD)
    have "emits P (case x of Inl e \<Rightarrow> h e | Inr x \<Rightarrow> k x)"
      using assms(2,3,4) x by (auto split: sum.split dest: delivers_Inr delivers_Inl)
    then obtain b where b: "st_trace (snd (run_state (case x of Inl e \<Rightarrow> h e | Inr x \<Rightarrow> k x) t))
        = st_trace t @ b" "\<forall>c \<in> set b. P c" unfolding emits_def by meson
    show "\<exists>new. st_trace (snd (run_state (State_Monad.bind m
            (\<lambda>r. case r of Inl e \<Rightarrow> h e | Inr x \<Rightarrow> k x)) s)) = st_trace s @ new \<and> (\<forall>c \<in> set new. P c)"
      by (rule exI [of _ "a @ b"]) (use a b x in \<open>auto simp: run_state_bind\<close>)
  qed
  then show ?thesis by (simp add: attempt_def)
qed

lemma emits_wrap_delivers:
  "emits P m \<Longrightarrow> delivers A R m \<Longrightarrow> (\<And>x. A x \<Longrightarrow> emits P (k x)) \<Longrightarrow> emits P (try_wrap msg m k)"
  unfolding try_wrap_def by (rule emits_attempt_delivers [where A = A and R = R]) (simp_all add: emits_return)

section \<open>Readiness tests\<close>

text \<open>
  A test that reads one object and is positive only for a good one: after a positive answer a
  good object was read in this very run.
\<close>

definition seen_since :: "env \<Rightarrow> trace \<Rightarrow> gvk \<Rightarrow> string \<Rightarrow> string \<Rightarrow> (k8s_object \<Rightarrow> bool) \<Rightarrow> trace \<Rightarrow> bool" where
  "seen_since env t0 k ns n good t \<longleftrightarrow> (\<exists>ob. read_since env t0 t k ns n ob \<and> good ob)"

lemma seen_since_append: "seen_since env t0 k ns n good t \<Longrightarrow> seen_since env t0 k ns n good (t @ new)"
  unfolding seen_since_def by (blast intro: read_since_append)

locale readiness_test =
  fixes test :: "(bool \<times> string) fallible" and env :: env and k :: gvk and ns n :: string
    and good :: "k8s_object \<Rightarrow> bool"
  assumes reads_once: "run_state test s = (r, s') \<Longrightarrow> st_trace s' = st_trace s @ [K8sGet k ns n]"
    and positive: "run_state test s = (Inr (True, m), s') \<Longrightarrow>
      \<exists>ob. env_get env (st_trace s) k ns n = Inr ob \<and> good ob"
    and answers: "env_get env (st_trace s) k ns n = Inr ob \<Longrightarrow> good ob \<Longrightarrow> \<exists>m. fst (run_state test s) = Inr (True, m)"
begin

lemma emits_test: "P (K8sGet k ns n) \<Longrightarrow> emits P test"
  unfolding emits_def
proof
  fix s assume "P (K8sGet k ns n)"
  then show "\<exists>new. st_trace (snd (run_state test s)) = st_trace s @ new \<and> (\<forall>c \<in> set new. P c)"
    by (intro exI [of _ "[K8sGet k ns n]"]) (simp add: reads_once [OF surjective_pairing])
qed

lemma triple_test:
  assumes stable: "\<And>t. P t \<Longrightarrow> P (t @ [K8sGet k ns n])" and since: "\<And>t. P t \<Longrightarrow> \<exists>new. t = t0 @ new"
  shows "triple P test (\<lambda>r t. P t \<and> (\<forall>m. r = Inr (True, m) \<longrightarrow> seen_since env t0 k ns n good t))"
proof (unfold triple_def, intro allI impI)
  fix s r s'
  assume P: "P (st_trace s)" and run: "run_state test s = (r, s')"
  obtain new where new: "st_trace s = t0 @ new" using since [OF P] by blast
  have "seen_since env t0 k ns n good (st_trace s')" if r: "r = Inr (True, m)" for m
    using positive [OF run [unfolded r]] reads_once [OF run] new
    unfolding seen_since_def by (metis read_since_now read_since_prefix)
  then show "P (st_trace s') \<and> (\<forall>m. r = Inr (True, m) \<longrightarrow> seen_since env t0 k ns n good (st_trace s'))"
    using stable [OF P] reads_once [OF run] by simp
qed

text \<open>Where only good objects are read, the test is positive and the code goes on.\<close>

lemma continues:
  assumes "\<And>t. \<exists>ob. env_get env t k ns n = Inr ob \<and> good ob"
    and "\<And>m s. \<exists>s'. run_state (kont (True, m)) s = (out, s')"
  shows "\<exists>s'. run_state (try_wrap msg test kont) s = (out, s')"
proof -
  obtain m t where "run_state test s = (Inr (True, m), t)"
    using assms(1) [of "st_trace s"] answers by (metis prod.collapse)
  with assms(2) show ?thesis by simp
qed

end

lemma wrap_continues:
  assumes "\<And>s. \<exists>x s'. run_state m s = (Inr x, s')" and "\<And>x s. \<exists>s'. run_state (kont x) s = (out, s')"
  shows "\<exists>s'. run_state (try_wrap msg m kont) s = (out, s')"
proof -
  obtain x t where "run_state m s = (Inr x, t)" using assms(1) by blast
  with assms(2) show ?thesis by simp
qed

lemma attempt_continues:
  assumes "\<And>s. \<exists>x s'. run_state m s = (Inr x, s')" and "\<And>x s. \<exists>s'. run_state (kont x) s = (out, s')"
  shows "\<exists>s'. run_state (attempt m h kont) s = (out, s')"
proof -
  obtain x t where "run_state m s = (Inr x, t)" using assms(1) by blast
  with assms(2) show ?thesis by simp
qed

end
