(* ===== verification/Keycloak_Component.thy ===== *)
theory Keycloak_Component
  imports Admin_Provider Trace_Logic
begin

text \<open>
  The Keycloak component of \<^verbatim>\<open>internal/keycloak\<close>: the operator extension and the resources of
  the instance (\<^verbatim>\<open>component.go\<close>), and the resources the platform declares in it: the internal
  admin (\<^verbatim>\<open>internaladmin.go\<close>), the root user (\<^verbatim>\<open>rootuser.go\<close>), the master realm
  (\<^verbatim>\<open>masterrealm.go\<close>), the NetEye client (\<^verbatim>\<open>neteyeclient.go\<close>) and the two authentication
  flows (\<^verbatim>\<open>authflows.go\<close>).

  The lemmas show that the options and features the operator owns never come from a NetEye
  resource, that a declared resource is created once and never changed, that the HTTP route
  is written only for an instance that was observed ready, and that the bootstrap account is
  disabled only by the internal admin.
\<close>

section \<open>Names\<close>

definition kc_operator_namespace :: string where "kc_operator_namespace = ''keycloak-system''"
definition workload_namespace :: string where "workload_namespace = ''neteye-tenant-shared''"
definition kc_http_route_name :: string where "kc_http_route_name = ''keycloak''"
definition kc_route_hostname :: string where "kc_route_hostname = ''keycloak.neteyelocal''"
definition kc_listener_name :: string where "kc_listener_name = ''keycloak''"
definition kc_tls_certificate_name :: string where "kc_tls_certificate_name = ''keycloak-tls''"
definition kc_tls_secret_name :: string where "kc_tls_secret_name = ''keycloak-tls-secret''"
definition kc_service_name :: string where "kc_service_name = ''neteye-kc-service''"
definition kc_egress_policy_name :: string where "kc_egress_policy_name = ''neteye-kc-egress''"
definition kc_ingress_policy_name :: string where "kc_ingress_policy_name = ''neteye-kc-ingress''"
definition kc_host_policy_name :: string where "kc_host_policy_name = ''neteye-kc-host-management''"
definition kc_http_port :: int where "kc_http_port = 8080"
definition operator_system_namespace :: string where "operator_system_namespace = ''neteye-system''"
definition host_ca_bundle_path :: string where
  "host_ca_bundle_path = ''/etc/pki/ca-trust/extracted/pem/tls-ca-bundle.pem''"
definition host_ca_truststore_path :: string where
  "host_ca_truststore_path = truststore_folder @ ''/neteye-host-ca''"
definition ca_bundle_container_name :: string where "ca_bundle_container_name = ''neteye-kc-ca-bundle''"
definition host_ca_volume_name :: string where "host_ca_volume_name = ''host-ca''"
definition trusted_ca_volume_name :: string where "trusted_ca_volume_name = ''trusted-ca''"
definition keycloak_image_user :: int where "keycloak_image_user = 1000"
definition extension_name :: string where "extension_name = ''keycloak-operator''"
definition extension_channel :: string where "extension_channel = ''fast''"
definition catalog_name :: string where "catalog_name = ''operatorhubio''"
definition default_database_port :: int where "default_database_port = 3306"

definition keycloak_gvk :: gvk where "keycloak_gvk = gvk_of ''k8s.keycloak.org'' ''v2beta1'' ''Keycloak''"
definition cluster_extension_gvk :: gvk where
  "cluster_extension_gvk = gvk_of ''olm.operatorframework.io'' ''v1'' ''ClusterExtension''"

definition neteye_group :: string where "neteye_group = ''neteye.cloud''"
definition neteye_version :: string where "neteye_version = ''v1alpha1''"
definition keycloak_user_gvk :: gvk where "keycloak_user_gvk = gvk_of neteye_group neteye_version ''KeycloakUser''"
definition keycloak_client_gvk :: gvk where
  "keycloak_client_gvk = gvk_of neteye_group neteye_version ''KeycloakClient''"
definition keycloak_realm_gvk :: gvk where
  "keycloak_realm_gvk = gvk_of neteye_group neteye_version ''KeycloakRealm''"
definition keycloak_auth_flow_gvk :: gvk where
  "keycloak_auth_flow_gvk = gvk_of neteye_group neteye_version ''KeycloakAuthFlow''"

section \<open>The operator extension\<close>

definition cluster_extension_spec :: representation where
  "cluster_extension_spec =
     [(''namespace'', JStr kc_operator_namespace),
      (''source'', JObj
         [(''sourceType'', JStr ''Catalog''),
          (''catalog'', JObj
             [(''packageName'', JStr extension_name),
              (''channels'', JArr [JStr extension_channel]),
              (''selector'', JObj [(''matchLabels'', JObj
                 [(''olm.operatorframework.io/metadata.name'', JStr catalog_name)])])])])]"

definition ensure_operator_extension :: "env \<Rightarrow> unit fallible" where
  "ensure_operator_extension env =
     apply_only env \<lparr>od_gvk = cluster_extension_gvk, od_name = extension_name, od_namespace = [],
       od_spec = cluster_extension_spec, od_owner = None\<rparr>"

definition install_operator :: "env \<Rightarrow> unit fallible" where
  "install_operator env = try_wrap ''ensure keycloak extension'' (ensure_operator_extension env) ok"

text \<open>
  The loop of \<^verbatim>\<open>Start\<close>: installing, where a timer brings the next attempt; then watching, where
  a ticker brings the next pass, whose failure is only logged. A timer and the cancellation of
  the context are the two events it waits for.
\<close>

datatype start_phase = Installing nat | Watching | Stopped "go_err option"
datatype start_event = TimerFired | ContextDone

definition context_cancelled :: go_err where "context_cancelled = Msg ''context canceled''"

definition start_attempt :: "env \<Rightarrow> nat \<Rightarrow> start_phase op" where
  "start_attempt env n =
     attempt (install_operator env)
       (\<lambda>e. State_Monad.return (Installing n)) (\<lambda>_. State_Monad.return Watching)"

fun start_on :: "env \<Rightarrow> start_phase \<Rightarrow> start_event \<Rightarrow> start_phase op" where
  "start_on env (Installing n) TimerFired = start_attempt env (Suc n)"
| "start_on env (Installing n) ContextDone = State_Monad.return (Stopped (Some context_cancelled))"
| "start_on env Watching TimerFired =
     attempt (install_operator env) (\<lambda>e. State_Monad.return Watching) (\<lambda>_. State_Monad.return Watching)"
| "start_on env Watching ContextDone = State_Monad.return (Stopped None)"
| "start_on env (Stopped r) ev = State_Monad.return (Stopped r)"

fun start_loop :: "env \<Rightarrow> start_phase \<Rightarrow> start_event list \<Rightarrow> start_phase op" where
  "start_loop env ph [] = State_Monad.return ph"
| "start_loop env ph (ev # evs) =
     State_Monad.bind (start_on env ph ev) (\<lambda>ph'. start_loop env ph' evs)"

definition start_component :: "env \<Rightarrow> start_event list \<Rightarrow> start_phase op" where
  "start_component env evs =
     State_Monad.bind (start_attempt env 1) (\<lambda>ph. start_loop env ph evs)"

section \<open>Readiness\<close>

definition status_observed_generation :: "representation \<Rightarrow> go_err + int option" where
  "status_observed_generation obj =
     (case nested_field (JObj obj) [''status'', ''observedGeneration''] of
        Inl e \<Rightarrow> Inl e
      | Inr None \<Rightarrow> Inr None
      | Inr (Some (JInt i)) \<Rightarrow> Inr (Some i)
      | Inr (Some _) \<Rightarrow> Inl (Msg ''accessor error: not an int64''))"

definition instance_readiness :: "k8s_object \<Rightarrow> go_err + (bool \<times> string)" where
  "instance_readiness kc =
     (case status_observed_generation (fields_of kc) of
        Inl e \<Rightarrow> Inl e
      | Inr observed_generation \<Rightarrow>
          if (case observed_generation of None \<Rightarrow> True | Some g \<Rightarrow> g < meta_generation (ob_meta kc))
          then Inr (False, ''waiting for Keycloak status to observe the latest generation'')
          else ready_condition_message (fields_of kc) ''Keycloak'')"

definition is_keycloak_ready :: "env \<Rightarrow> string \<Rightarrow> (bool \<times> string) fallible" where
  "is_keycloak_ready env ns =
     attempt (k8s_get env keycloak_gvk ns instance_name)
       (\<lambda>e. if is_not_found e then ok (False, ''waiting for Keycloak CR to be created'') else fail e)
       (\<lambda>kc. lift_result (instance_readiness kc))"

text \<open>A message of the resource itself wins over the generic one.\<close>

definition state_readiness :: "string \<Rightarrow> string \<Rightarrow> service_state \<times> string \<Rightarrow> bool \<times> string" where
  "state_readiness kind name st =
     (if fst st = ServiceReady then (True, [])
      else (False, if snd st = [] then ''waiting for '' @ kind @ '' '' @ quoted name @ '' to be ready'' else snd st))"

definition realm_state :: "k8s_object \<Rightarrow> service_state \<times> string" where
  "realm_state ob =
     (case ob_content ob of RealmContent spec st \<Rightarrow> (rst_status st, rst_message st) | _ \<Rightarrow> (OtherState [], []))"

definition user_state :: "k8s_object \<Rightarrow> service_state \<times> string" where
  "user_state ob =
     (case ob_content ob of UserContent spec st \<Rightarrow> (ust_status st, ust_message st) | _ \<Rightarrow> (OtherState [], []))"

definition is_realm_ready :: "env \<Rightarrow> string \<Rightarrow> string \<Rightarrow> (bool \<times> string) fallible" where
  "is_realm_ready env ns name =
     attempt (k8s_get env keycloak_realm_gvk ns name)
       (\<lambda>e. if is_not_found e
            then ok (False, ''waiting for KeycloakRealm '' @ quoted name @ '' to be created'')
            else fail (Wrap (''get keycloak realm '' @ quoted name) e))
       (\<lambda>ob. ok (state_readiness ''KeycloakRealm'' name (realm_state ob)))"

definition is_user_ready :: "env \<Rightarrow> string \<Rightarrow> string \<Rightarrow> (bool \<times> string) fallible" where
  "is_user_ready env ns name =
     attempt (k8s_get env keycloak_user_gvk ns name)
       (\<lambda>e. if is_not_found e
            then ok (False, ''waiting for KeycloakUser '' @ quoted name @ '' to be created'')
            else fail (Wrap (''get keycloak user '' @ quoted name) e))
       (\<lambda>ob. ok (state_readiness ''KeycloakUser'' name (user_state ob)))"

section \<open>The instance\<close>

definition kc_identity_telemetry_enabled :: "identity_spec \<Rightarrow> bool" where
  "kc_identity_telemetry_enabled identity \<longleftrightarrow>
     (case id_telemetry identity of None \<Rightarrow> False | Some t \<Rightarrow> logs_enabled t \<or> metrics_enabled t)"

definition keycloak_telemetry_features :: "identity_telemetry_spec \<Rightarrow> string list" where
  "keycloak_telemetry_features t =
     (if logs_enabled t then [feature_opentelemetry_logs] else []) @
     (if metrics_enabled t then [feature_opentelemetry_metrics] else [])"

definition keycloak_features :: "identity_spec \<Rightarrow> string list" where
  "keycloak_features identity =
     dedup_from []
       ((case id_telemetry identity of
           None \<Rightarrow> []
         | Some t \<Rightarrow> if kc_identity_telemetry_enabled identity then keycloak_telemetry_features t else []) @
        filter (\<lambda>f. \<not> is_managed_feature f) (id_enabled_features identity))"

definition name_value :: "string \<Rightarrow> string \<Rightarrow> json" where
  "name_value name v = JObj [(''name'', JStr name), (''value'', JStr v)]"

definition keycloak_env_vars :: "env_var list \<Rightarrow> json list" where
  "keycloak_env_vars vars = map (\<lambda>v. name_value (ev_name v) (ev_value v)) vars"

definition keycloak_additional_options ::
    "keycloak_option list \<Rightarrow> identity_telemetry_spec option \<Rightarrow> json list" where
  "keycloak_additional_options opts telemetry =
     map (\<lambda>m. name_value (mo_name m) (mo_value m)) (filter mo_emit_as_server_option managed_options) @
     map (\<lambda>v. name_value (ko_name v) (ko_value v)) (filter (\<lambda>v. \<not> is_managed_option (ko_name v)) opts) @
     (case telemetry of
        None \<Rightarrow> []
      | Some t \<Rightarrow>
          (if logs_enabled t then [name_value ''telemetry-logs-enabled'' ''true''] else []) @
          (if metrics_enabled t
           then [name_value ''telemetry-metrics-enabled'' ''true'', name_value ''metrics-enabled'' ''true'']
           else []))"

definition keycloak_telemetry_resource_attributes :: "(string \<times> string) list \<Rightarrow> representation" where
  "keycloak_telemetry_resource_attributes attributes =
     fold (\<lambda>(k, v) m. AList.update k (JStr v) m) attributes
       [(''data_stream.namespace'', JStr ''neteye_system_internal'')]"

definition keycloak_cilium_workload_labels :: json where
  "keycloak_cilium_workload_labels =
     JObj [(''k8s:app'', JStr ''keycloak''),
           (''k8s:app.kubernetes.io/instance'', JStr instance_name),
           (''k8s:app.kubernetes.io/managed-by'', JStr ''keycloak-operator'')]"

definition identity_replicas :: "identity_spec \<Rightarrow> int" where
  "identity_replicas identity = (if id_replicas identity = 0 then 1 else id_replicas identity)"

definition resource_uri :: "string \<Rightarrow> string" where
  "resource_uri hostname = ''https://'' @ hostname @ http_relative_path"

definition external_database_port :: "db_connection_spec \<Rightarrow> int" where
  "external_database_port database = (if db_port database = 0 then default_database_port else db_port database)"

text \<open>The shell script, line by line; a quote inside it is the character 0x27 or 0x22.\<close>

definition host_ca_bundle_command :: string where
  "host_ca_bundle_command =
     ''bundle=/work/ca-bundle.pem'' @ [CHR 0x0A] @
     ''sed -e '' @ [CHR 0x27] @ ''/^#/d'' @ [CHR 0x27] @ '' -e '' @ [CHR 0x27] @ ''/^[[:space:]]*$/d'' @ [CHR 0x27] @
     '' -e '' @ [CHR 0x27] @ ''s/TRUSTED //g'' @ [CHR 0x27] @
     '' /input/system/tls-ca-bundle.pem > '' @ [CHR 0x22] @ ''$bundle.tmp'' @ [CHR 0x22] @ [CHR 0x0A] @
     ''mv '' @ [CHR 0x22] @ ''$bundle.tmp'' @ [CHR 0x22] @ '' '' @ [CHR 0x22] @ ''$bundle'' @ [CHR 0x22]"

definition ca_bundle_security_context :: json where
  "ca_bundle_security_context =
     JObj [(''runAsNonRoot'', JBool True),
           (''runAsUser'', JInt keycloak_image_user),
           (''allowPrivilegeEscalation'', JBool False),
           (''readOnlyRootFilesystem'', JBool True),
           (''capabilities'', JObj [(''drop'', JArr [JStr ''ALL''])]),
           (''seccompProfile'', JObj [(''type'', JStr ''RuntimeDefault'')])]"

definition volume_mount :: "string \<Rightarrow> string \<Rightarrow> bool \<Rightarrow> json" where
  "volume_mount name path read_only =
     JObj ([(''name'', JStr name), (''mountPath'', JStr path)] @
           (if read_only then [(''readOnly'', JBool True)] else []))"

definition keycloak_pod_template :: "string \<Rightarrow> json" where
  "keycloak_pod_template ca_bundle_img =
     JObj [(''spec'', JObj
       [(''initContainers'', JArr [JObj
           [(''name'', JStr ca_bundle_container_name),
            (''image'', JStr ca_bundle_img),
            (''command'', JArr [JStr ''/bin/sh'', JStr ''-ec'', JStr host_ca_bundle_command]),
            (''securityContext'', ca_bundle_security_context),
            (''volumeMounts'', JArr
               [volume_mount trusted_ca_volume_name ''/work'' False,
                volume_mount host_ca_volume_name ''/input/system/tls-ca-bundle.pem'' True])]]),
        (''containers'', JArr [JObj
           [(''volumeMounts'', JArr [volume_mount trusted_ca_volume_name host_ca_truststore_path True])]]),
        (''volumes'', JArr
           [JObj [(''name'', JStr trusted_ca_volume_name), (''emptyDir'', JObj [])],
            JObj [(''name'', JStr host_ca_volume_name),
                  (''hostPath'', JObj [(''path'', JStr host_ca_bundle_path), (''type'', JStr ''File'')])]])])]"

definition keycloak_instance_spec :: "string \<Rightarrow> string \<Rightarrow> identity_spec \<Rightarrow> representation" where
  "keycloak_instance_spec img ca_bundle_img identity =
     (let database = id_db_connection identity;
          username_secret = effective_username_secret (Some database);
          password_secret = effective_password_secret (Some database);
          features = keycloak_features identity;
          variables = keycloak_env_vars (id_pod_extra_env_vars identity) in
      [(''instances'', JInt (identity_replicas identity)),
       (''image'', JStr img),
       (''db'', JObj
          [(''vendor'', JStr ''mariadb''),
           (''host'', JStr (db_host database)),
           (''port'', JInt (external_database_port database)),
           (''database'', JStr (effective_db_name (Some database))),
           (''usernameSecret'', JObj [(''name'', JStr (sel_name username_secret)), (''key'', JStr (sel_key username_secret))]),
           (''passwordSecret'', JObj [(''name'', JStr (sel_name password_secret)), (''key'', JStr (sel_key password_secret))])]),
       (''http'', JObj [(''httpEnabled'', JBool True)]),
       (''ingress'', JObj [(''enabled'', JBool False)]),
       (''networkPolicy'', JObj [(''enabled'', JBool False)]),
       (''startOptimized'', JBool False),
       (''hostname'', JObj
          [(''hostname'', JStr (resource_uri (id_hostname identity))),
           (''strict'', JBool True),
           (''backchannelDynamic'', JBool True)]),
       (''proxy'', JObj [(''headers'', JStr ''xforwarded'')]),
       (''additionalOptions'', JArr (keycloak_additional_options (id_additional_options identity) (id_telemetry identity))),
       (''unsupported'', JObj [(''podTemplate'', keycloak_pod_template ca_bundle_img)])] @
      (if features \<noteq> [] then [(''features'', JObj [(''enabled'', JArr (any_slice features))])] else []) @
      (case id_telemetry identity of
         None \<Rightarrow> []
       | Some t \<Rightarrow>
           if kc_identity_telemetry_enabled identity
           then [(''telemetry'', JObj
                   [(''endpoint'', JStr ''http://otel-edot-gateway:4317''),
                    (''protocol'', JStr ''grpc''),
                    (''serviceName'', JStr ''neteye-keycloak''),
                    (''resourceAttributes'', JObj (keycloak_telemetry_resource_attributes (resource_attributes t)))])]
           else []) @
      (if variables \<noteq> [] then [(''env'', JArr variables)] else []))"

definition ensure_keycloak_instance ::
    "env \<Rightarrow> string \<Rightarrow> string \<Rightarrow> string \<Rightarrow> identity_spec \<Rightarrow> owner_reference option \<Rightarrow> unit fallible" where
  "ensure_keycloak_instance env ns img ca_bundle_img identity owner =
     apply_only env \<lparr>od_gvk = keycloak_gvk, od_name = instance_name, od_namespace = ns,
       od_spec = keycloak_instance_spec img ca_bundle_img identity, od_owner = owner\<rparr>"

section \<open>Network policies\<close>

definition kc_namespace_selector :: "string \<Rightarrow> json" where
  "kc_namespace_selector ns = JObj [(''matchLabels'', JObj [(''k8s:io.kubernetes.pod.namespace'', JStr ns)])]"

definition kc_tcp_ports :: "string list \<Rightarrow> json" where
  "kc_tcp_ports ports =
     JObj [(''ports'', JArr (map (\<lambda>p. JObj [(''port'', JStr p), (''protocol'', JStr ''TCP'')]) ports))]"

definition keycloak_ingress_policy_spec :: representation where
  "keycloak_ingress_policy_spec =
     [(''endpointSelector'', JObj [(''matchLabels'', keycloak_cilium_workload_labels)]),
      (''ingress'', JArr
         [JObj [(''fromEndpoints'', JArr [JObj [(''matchLabels'', keycloak_cilium_workload_labels)]]),
                (''toPorts'', JArr [kc_tcp_ports [''7800'', ''57800'']])],
          JObj [(''fromEndpoints'', JArr [kc_namespace_selector operator_system_namespace]),
                (''toPorts'', JArr [kc_tcp_ports [format_int kc_http_port]])]])]"

definition keycloak_host_management_policy_spec :: representation where
  "keycloak_host_management_policy_spec =
     [(''endpointSelector'', JObj [(''matchLabels'', keycloak_cilium_workload_labels)]),
      (''ingress'', JArr
         [JObj [(''fromEntities'', JArr [JStr ''ingress'']),
                (''toPorts'', JArr [kc_tcp_ports [format_int kc_http_port]])],
          JObj [(''fromEntities'', JArr [JStr ''host'', JStr ''remote-node'']),
                (''toPorts'', JArr [kc_tcp_ports [''9000'']])]])]"

definition keycloak_egress_policy_spec :: representation where
  "keycloak_egress_policy_spec =
     [(''endpointSelector'', JObj [(''matchLabels'', keycloak_cilium_workload_labels)]),
      (''egress'', JArr [JObj [(''toEntities'', JArr [JStr ''all''])]])]"

definition ensure_kc_ingress_policy :: "env \<Rightarrow> string \<Rightarrow> owner_reference option \<Rightarrow> unit fallible" where
  "ensure_kc_ingress_policy env ns owner =
     apply_only env \<lparr>od_gvk = cilium_network_policy_gvk, od_name = kc_ingress_policy_name, od_namespace = ns,
       od_spec = keycloak_ingress_policy_spec, od_owner = owner\<rparr>"

definition ensure_kc_host_policy :: "env \<Rightarrow> string \<Rightarrow> owner_reference option \<Rightarrow> unit fallible" where
  "ensure_kc_host_policy env ns owner =
     apply_only env \<lparr>od_gvk = cilium_network_policy_gvk, od_name = kc_host_policy_name, od_namespace = ns,
       od_spec = keycloak_host_management_policy_spec, od_owner = owner\<rparr>"

definition ensure_kc_egress_policy :: "env \<Rightarrow> string \<Rightarrow> owner_reference option \<Rightarrow> unit fallible" where
  "ensure_kc_egress_policy env ns owner =
     apply_only env \<lparr>od_gvk = cilium_network_policy_gvk, od_name = kc_egress_policy_name, od_namespace = ns,
       od_spec = keycloak_egress_policy_spec, od_owner = owner\<rparr>"

text \<open>The identity resources: the route comes last, and only for an instance seen ready.\<close>

definition ensure_keycloak_route ::
    "env \<Rightarrow> string \<Rightarrow> string \<Rightarrow> string \<Rightarrow> owner_reference \<Rightarrow> (bool \<times> string) fallible" where
  "ensure_keycloak_route env ns gateway_ns gateway owner =
     try_wrap ''ensure http route''
       (ensure_http_route env ns kc_http_route_name gateway_ns gateway kc_listener_name [kc_route_hostname]
          kc_service_name kc_http_port (Some owner)) (\<lambda>_.
     ok (True, ''Keycloak is Ready''))"

definition ensure_keycloak_resources ::
    "env \<Rightarrow> string \<Rightarrow> string \<Rightarrow> string \<Rightarrow> identity_spec \<Rightarrow> string \<Rightarrow> string \<Rightarrow> string \<Rightarrow> owner_reference \<Rightarrow>
     (bool \<times> string) fallible" where
  "ensure_keycloak_resources env ns img ca_bundle_img identity gateway_ns gateway issuer owner =
     try_wrap ''ensure tls certificate''
       (ensure_certificate env ns kc_tls_certificate_name kc_tls_secret_name kc_route_hostname
          [kc_route_hostname] issuer (Some owner)) (\<lambda>_.
     try_wrap ''ensure keycloak workload network policy'' (ensure_kc_egress_policy env ns (Some owner)) (\<lambda>_.
     try_wrap ''ensure keycloak ingress network policy'' (ensure_kc_ingress_policy env ns (Some owner)) (\<lambda>_.
     try_wrap ''ensure keycloak host management policy'' (ensure_kc_host_policy env ns (Some owner)) (\<lambda>_.
     try_wrap ''check tls certificate readiness'' (is_certificate_ready env ns kc_tls_certificate_name)
       (\<lambda>(certificate_ready, certificate_message).
     if \<not> certificate_ready then ok (False, certificate_message)
     else
     try_wrap ''ensure keycloak instance''
       (ensure_keycloak_instance env ns img ca_bundle_img identity (Some owner)) (\<lambda>_.
     try_wrap ''check keycloak readiness'' (is_keycloak_ready env ns) (\<lambda>(ready, message).
     if \<not> ready then ok (False, message)
     else ensure_keycloak_route env ns gateway_ns gateway owner)))))))"

section \<open>Resources declared once\<close>

text \<open>
  The six functions that declare a resource differ in the object and in the text of their
  errors: a resource that is there is left as it is, and one that appears between the lookup
  and the creation counts as declared.
\<close>

definition declare_once :: "env \<Rightarrow> k8s_object \<Rightarrow> string \<Rightarrow> unit fallible" where
  "declare_once env ob what =
     attempt (k8s_get env (ob_gvk ob) (meta_namespace (ob_meta ob)) (meta_name (ob_meta ob)))
       (\<lambda>e. if \<not> is_not_found e then fail (Wrap (''get '' @ what) e)
            else attempt (k8s_create env ob)
                   (\<lambda>e. if is_already_exists e then ok () else fail (Wrap (''create '' @ what) e))
                   (\<lambda>_. ok ()))
       (\<lambda>_. ok ())"

definition new_user_status :: keycloak_user_status where
  "new_user_status = \<lparr>ust_status = OtherState [], ust_message = [], ust_user_id = [], ust_adopted = False,
     ust_credential_rotation = [], ust_observed_generation = 0\<rparr>"

definition new_realm_status :: keycloak_realm_status where
  "new_realm_status = \<lparr>rst_status = OtherState [], rst_message = [], rst_observed_generation = 0\<rparr>"

definition new_client_status :: keycloak_client_status where
  "new_client_status = \<lparr>cst_status = OtherState [], cst_message = [], cst_client_uuid = [],
     cst_observed_generation = 0\<rparr>"

definition new_flow_status :: keycloak_auth_flow_status where
  "new_flow_status = \<lparr>fst_status = OtherState [], fst_message = [], fst_observed_generation = 0\<rparr>"

subsection \<open>The internal admin and the root user\<close>

definition internal_admin_resource_name :: string where
  "internal_admin_resource_name = ''neteye-internal-keycloak-admin''"
definition internal_admin_realm_role :: string where "internal_admin_realm_role = ''admin''"
definition root_username :: string where "root_username = ''root''"
definition root_resource_name :: string where "root_resource_name = ''root''"
definition root_secret_name :: string where "root_secret_name = instance_name @ ''-root''"
definition root_secret_password_key :: string where "root_secret_password_key = ''password''"
definition root_realm_role :: string where "root_realm_role = ''admin''"

definition generated_credential :: "string \<Rightarrow> string \<Rightarrow> user_credential_spec" where
  "generated_credential secret key =
     \<lparr>uc_secret_ref = \<lparr>sel_name = secret, sel_key = key\<rparr>, uc_generate = True, uc_temporary = False,
      uc_rotation_token = []\<rparr>"

definition internal_admin_spec :: keycloak_user_spec where
  "internal_admin_spec =
     \<lparr>us_realm = master_realm, us_username = internal_admin_username, us_enabled = Some True,
      us_email = internal_admin_username @ ''@neteyelocal'', us_email_verified = True,
      us_first_name = [], us_last_name = [],
      us_realm_roles = Some [internal_admin_realm_role], us_groups = None,
      us_credential = Some (generated_credential internal_admin_secret_name internal_admin_secret_password_key),
      us_deletion_policy = PolicyOrphan\<rparr>"

definition root_user_spec :: keycloak_user_spec where
  "root_user_spec =
     \<lparr>us_realm = master_realm, us_username = root_username, us_enabled = Some True,
      us_email = root_username @ ''@neteyelocal'', us_email_verified = True,
      us_first_name = [], us_last_name = [],
      us_realm_roles = Some [root_realm_role], us_groups = None,
      us_credential = Some (generated_credential root_secret_name root_secret_password_key),
      us_deletion_policy = PolicyOrphan\<rparr>"

definition declared_user :: "string \<Rightarrow> string \<Rightarrow> keycloak_user_spec \<Rightarrow> k8s_object" where
  "declared_user ns name spec = new_object keycloak_user_gvk ns name (UserContent spec new_user_status)"

definition ensure_internal_admin_user :: "env \<Rightarrow> string \<Rightarrow> unit fallible" where
  "ensure_internal_admin_user env ns =
     declare_once env (declared_user ns internal_admin_resource_name internal_admin_spec)
       ''keycloak internal admin user''"

definition ensure_root_user :: "env \<Rightarrow> string \<Rightarrow> unit fallible" where
  "ensure_root_user env ns =
     declare_once env (declared_user ns root_resource_name root_user_spec) ''keycloak root user''"

subsection \<open>The master realm\<close>

definition master_realm_resource_name :: string where "master_realm_resource_name = master_realm"
definition master_realm_theme :: string where "master_realm_theme = ''neteye''"
definition master_realm_display_name :: string where "master_realm_display_name = ''NetEye''"
definition master_realm_password_policy :: string where
  "master_realm_password_policy =
     ''length(12) and digits(2) and upperCase(1) and lowerCase(1) and specialChars(1) and passwordAge(120)''"

definition no_events :: realm_events where
  "no_events = \<lparr>re_events_enabled = None, re_admin_events_enabled = None,
     re_admin_events_details_enabled = None, re_events_expiration = None, re_admin_events_expiration = None\<rparr>"

definition no_brute_force :: realm_brute_force_protection where
  "no_brute_force = \<lparr>bf_protected = None, bf_max_delta_time_seconds = None, bf_max_failure_wait_seconds = None,
     bf_minimum_quick_login_wait_seconds = None, bf_quick_login_check_milli_seconds = None,
     bf_failure_factor = None, bf_wait_increment_seconds = None\<rparr>"

definition master_realm_spec :: keycloak_realm_spec where
  "master_realm_spec =
     \<lparr>rs_realm = master_realm, rs_display_name = master_realm_display_name, rs_display_name_html = [],
      rs_password_policy = Some master_realm_password_policy, rs_enabled = None, rs_remember_me = None,
      rs_events = no_events, rs_brute_force_protection = no_brute_force,
      rs_theme = Some \<lparr>rt_login = master_realm_theme, rt_admin = master_realm_theme,
        rt_account = master_realm_theme, rt_email = master_realm_theme\<rparr>,
      rs_deletion_policy = PolicyOrphan\<rparr>"

definition ensure_master_realm :: "env \<Rightarrow> string \<Rightarrow> unit fallible" where
  "ensure_master_realm env ns =
     declare_once env
       (new_object keycloak_realm_gvk ns master_realm_resource_name (RealmContent master_realm_spec new_realm_status))
       ''master keycloak realm''"

subsection \<open>The NetEye client\<close>

definition neteye_client_id :: string where "neteye_client_id = ''neteye''"
definition neteye_client_resource_name :: string where "neteye_client_resource_name = ''neteye''"

definition neteye_client_spec :: keycloak_client_spec where
  "neteye_client_spec =
     \<lparr>cs_realm = master_realm, cs_client_id = neteye_client_id, cs_enabled = Some True,
      cs_name = [], cs_description = [], cs_root_url = [],
      cs_redirect_uris = Some [''/neteye/*''], cs_web_origins = None, cs_attributes = None,
      cs_public_client = False, cs_standard_flow = Some True, cs_direct_access = True,
      cs_allow_client_credentials_grant = True,
      cs_service_account = Some \<lparr>sa_client_roles =
        Some [(''master-realm'', [''view-users'', ''query-users'', ''query-groups''])]\<rparr>,
      cs_client_secret_ref = None,
      cs_protocol_mappers = Some [
        \<lparr>pm_name = ''groups membership'', pm_protocol = open_id_connect,
         pm_protocol_mapper = ''oidc-group-membership-mapper'',
         pm_config =
           [(''full.path'', ''true''), (''id.token.claim'', ''false''), (''access.token.claim'', ''true''),
            (''userinfo.token.claim'', ''true''), (''claim.name'', ''groups''), (''jsonType.label'', ''String''),
            (''multivalued'', ''true'')]\<rparr>],
      cs_default_client_scopes = None, cs_optional_client_scopes = None,
      cs_deletion_policy = PolicyOrphan\<rparr>"

definition ensure_neteye_client :: "env \<Rightarrow> string \<Rightarrow> unit fallible" where
  "ensure_neteye_client env ns =
     declare_once env
       (new_object keycloak_client_gvk ns neteye_client_resource_name (ClientContent neteye_client_spec new_client_status))
       ''neteye keycloak client''"

subsection \<open>The authentication flows\<close>

definition first_broker_login_flow_name :: string where
  "first_broker_login_flow_name = ''neteye-first-broker-login-flow''"
definition idp_discovery_flow_name :: string where "idp_discovery_flow_name = ''neteye-idp-discovery-flow''"

definition simple_execution :: "string \<Rightarrow> string \<Rightarrow> auth_flow_execution" where
  "simple_execution requirement authenticator =
     \<lparr>x1_alias = [], x1_requirement = requirement, x1_authenticator = authenticator,
      x1_config = None, x1_flow = None\<rparr>"

definition first_broker_login_flow_spec :: keycloak_auth_flow_spec where
  "first_broker_login_flow_spec =
     \<lparr>fs_realm = master_realm, fs_alias = first_broker_login_flow_name, fs_provider = [],
      fs_executions =
        [simple_execution ''REQUIRED'' ''idp-detect-existing-broker-user'',
         simple_execution ''REQUIRED'' ''idp-auto-link''],
      fs_deletion_policy = PolicyOrphan, fs_bindings = []\<rparr>"

definition idp_discovery_flow_spec :: keycloak_auth_flow_spec where
  "idp_discovery_flow_spec =
     \<lparr>fs_realm = master_realm, fs_alias = idp_discovery_flow_name, fs_provider = [],
      fs_executions =
        [simple_execution ''ALTERNATIVE'' ''auth-cookie'',
         simple_execution ''DISABLED'' ''identity-provider-redirector'',
         \<lparr>x1_alias = ''home-idp-discovery'', x1_requirement = ''ALTERNATIVE'',
          x1_authenticator = ''home-idp-discovery'',
          x1_config = Some \<lparr>afc_alias = ''home-idp-discovery'', afc_values =
            [(''default.reference.value'', []), (''default.reference.maxAge'', []),
             (''bypassLoginPage'', ''true''), (''forwardToFirstMatch'', ''true''), (''userAttribute'', ''email''),
             (''forwardUnverifiedEmail'', ''true''), (''forwardToLinkedIdp'', ''false'')]\<rparr>,
          x1_flow = None\<rparr>,
         \<lparr>x1_alias = [], x1_requirement = ''ALTERNATIVE'', x1_authenticator = [], x1_config = None,
          x1_flow = Some \<lparr>s2_alias = ''username-password'', s2_provider = ''basic-flow'', s2_executions =
            [\<lparr>x2_alias = [], x2_requirement = ''REQUIRED'', x2_authenticator = ''auth-username-password-form'',
              x2_config = None, x2_flow = None\<rparr>]\<rparr>\<rparr>],
      fs_deletion_policy = PolicyOrphan, fs_bindings = []\<rparr>"

definition ensure_auth_flow :: "env \<Rightarrow> string \<Rightarrow> string \<Rightarrow> keycloak_auth_flow_spec \<Rightarrow> unit fallible" where
  "ensure_auth_flow env ns name spec =
     declare_once env (new_object keycloak_auth_flow_gvk ns name (FlowContent spec new_flow_status))
       (''keycloak auth flow '' @ quoted name)"

definition ensure_first_broker_login_flow :: "env \<Rightarrow> string \<Rightarrow> unit fallible" where
  "ensure_first_broker_login_flow env ns =
     ensure_auth_flow env ns first_broker_login_flow_name first_broker_login_flow_spec"

definition ensure_idp_discovery_flow :: "env \<Rightarrow> string \<Rightarrow> unit fallible" where
  "ensure_idp_discovery_flow env ns =
     ensure_auth_flow env ns idp_discovery_flow_name idp_discovery_flow_spec"

section \<open>The bootstrap admin\<close>

definition disable_account :: "env \<Rightarrow> nat \<Rightarrow> string \<Rightarrow> unit fallible" where
  "disable_account env a username =
     try_wrap (''get keycloak bootstrap admin '' @ quoted username) (get_user env a master_realm username) (\<lambda>live.
     case live of
       None \<Rightarrow> ok ()
     | Some u \<Rightarrow>
         if map_of u ''enabled'' = Some (JBool False) then ok ()
         else try_wrap (''disable keycloak bootstrap admin '' @ quoted username)
                (update_user env a master_realm (string_value u ''id'')
                   (merge_representation u [(''enabled'', JBool False)])) ok)"

definition ensure_bootstrap_admin_disabled :: "env \<Rightarrow> string \<Rightarrow> unit fallible" where
  "ensure_bootstrap_admin_disabled env ns =
     State_Monad.bind (component_admin ns) (\<lambda>p.
     try_ok (get_admin_api env p) (\<lambda>(a, username).
     if username \<noteq> internal_admin_username then ok ()
     else attempt (bootstrap_admin_credentials env ns)
       (\<lambda>e. if is_not_found e then ok () else fail e)
       (\<lambda>bootstrap. disable_account env a (cred_username bootstrap))))"

section \<open>What the operator owns in the instance\<close>

definition option_name :: "json \<Rightarrow> string" where
  "option_name entry = (case entry of JObj m \<Rightarrow> string_value m ''name'' | _ \<Rightarrow> [])"

lemma option_name_value [simp]: "option_name (name_value n v) = n"
  by (simp add: option_name_def name_value_def string_value_def)

lemma managed_names_emitted:
  "m \<in> set managed_options \<Longrightarrow> is_managed_option (mo_name m)"
  by (auto simp: is_managed_option_def list_ex_iff)

lemma managed_telemetry_names [simp]:
  "is_managed_option ''telemetry-logs-enabled''" "is_managed_option ''telemetry-metrics-enabled''"
  "is_managed_option ''metrics-enabled''"
  by (simp_all add: is_managed_option_def managed_options_def named_option_def)

lemma managed_telemetry_features [simp]:
  "is_managed_feature feature_opentelemetry_logs" "is_managed_feature feature_opentelemetry_metrics"
  by (simp_all add: is_managed_feature_def managed_features_def)

text \<open>
  Whatever the NetEye resource asks for, the server options the operator owns are the
  operator's: they are those of an empty request, and next to them stand exactly the
  requested options with another name, in their order. The enabled features are listed
  once each, and the owned ones among them are those of the telemetry opt-in.
\<close>

theorem owned_options_never_requested:
  "filter (\<lambda>x. is_managed_option (option_name x)) (keycloak_additional_options opts telemetry)
     = keycloak_additional_options [] telemetry \<and>
   filter (\<lambda>x. \<not> is_managed_option (option_name x)) (keycloak_additional_options opts telemetry)
     = map (\<lambda>v. name_value (ko_name v) (ko_value v)) (filter (\<lambda>v. \<not> is_managed_option (ko_name v)) opts) \<and>
   distinct (keycloak_features identity) \<and>
   {f \<in> set (keycloak_features identity). is_managed_feature f}
     = (case id_telemetry identity of None \<Rightarrow> {} | Some t \<Rightarrow> set (keycloak_telemetry_features t))"
proof -
  let ?requested = "map (\<lambda>v. name_value (ko_name v) (ko_value v)) (filter (\<lambda>v. \<not> is_managed_option (ko_name v)) opts)"
  have requested: "\<forall>x \<in> set ?requested. \<not> is_managed_option (option_name x)" by auto
  have operator: "\<forall>x \<in> set (keycloak_additional_options [] telemetry). is_managed_option (option_name x)"
    by (auto simp: keycloak_additional_options_def managed_names_emitted split: option.splits if_splits)
  obtain before after where parts: "keycloak_additional_options opts telemetry = before @ ?requested @ after"
      "keycloak_additional_options [] telemetry = before @ after"
    unfolding keycloak_additional_options_def by auto
  then have options: "filter (\<lambda>x. is_managed_option (option_name x)) (keycloak_additional_options opts telemetry)
      = keycloak_additional_options [] telemetry \<and>
    filter (\<lambda>x. \<not> is_managed_option (option_name x)) (keycloak_additional_options opts telemetry) = ?requested"
    using requested operator by (auto simp: filter_id_conv filter_empty_conv)
  have features: "{f \<in> set (keycloak_features identity). is_managed_feature f}
      = (case id_telemetry identity of None \<Rightarrow> {} | Some t \<Rightarrow> set (keycloak_telemetry_features t))"
    by (auto simp: keycloak_features_def set_dedup_from kc_identity_telemetry_enabled_def
        keycloak_telemetry_features_def split: option.splits if_splits)
  show ?thesis
    using options features by (simp add: keycloak_features_def distinct_dedup_from)
qed

section \<open>The declared password policy\<close>

definition declared_policy :: password_policy where
  "declared_policy =
     \<lparr>pp_min_length = 12, pp_max_length = 0, pp_digits = 2, pp_upper_case = 1, pp_lower_case = 1,
      pp_special_chars = 1, pp_regex_patterns = []\<rparr>"

lemma master_realm_policy_parsed: "parse_password_policy master_realm_password_policy = declared_policy"
  by code_simp

text \<open>
  The password policy the platform declares for its own realm can be met: a password
  generated for it satisfies it, and only the random source can fail. So the accounts the
  platform declares in that realm can always be given a password.
\<close>

theorem declared_policy_generates:
  assumes "random_in_range env" and "walks_every_class env"
  shows "delivers
     (\<lambda>password. policy_accepts (parse_password_policy master_realm_password_policy) password \<and>
        fit_for_consumers (parse_password_policy master_realm_password_policy) password)
     random_failure (generate_password env (parse_password_policy master_realm_password_policy))"
  unfolding master_realm_policy_parsed
  by (rule generate_password_fits [OF assms])
     (simp_all add: wf_policy_def satisfiable_policy_def declared_policy_def required_lower_def max_int64_def)

theorem declared_policy_generates_witness:
  "random_in_range dice_env \<and> walks_every_class dice_env \<and>
   delivers
     (\<lambda>password. policy_accepts (parse_password_policy master_realm_password_policy) password \<and>
        fit_for_consumers (parse_password_policy master_realm_password_policy) password)
     random_failure (generate_password dice_env (parse_password_policy master_realm_password_policy))"
proof -
  have "random_in_range dice_env" and "walks_every_class dice_env"
    by (auto simp: random_in_range_def walks_every_class_def dice_env_def split: if_splits)
  then show ?thesis by (simp add: declared_policy_generates)
qed

section \<open>Declared once, never changed\<close>

text \<open>
  The contract the six functions share, for a function \<open>ensure\<close> that declares the object
  \<open>resource ns\<close>: a resource that is there is neither read twice nor written, a missing one is
  created exactly as given, and nothing else is ever called.
\<close>

definition reads_or_creates :: "k8s_object \<Rightarrow> call \<Rightarrow> bool" where
  "reads_or_creates ob c \<longleftrightarrow>
     c = K8sGet (ob_gvk ob) (meta_namespace (ob_meta ob)) (meta_name (ob_meta ob)) \<or> c = K8sCreate ob"

definition present_at :: "env \<Rightarrow> trace \<Rightarrow> k8s_object \<Rightarrow> bool" where
  "present_at env t ob \<longleftrightarrow>
     (\<exists>live. env_get env t (ob_gvk ob) (meta_namespace (ob_meta ob)) (meta_name (ob_meta ob)) = Inr live)"

definition get_call :: "k8s_object \<Rightarrow> call" where
  "get_call ob = K8sGet (ob_gvk ob) (meta_namespace (ob_meta ob)) (meta_name (ob_meta ob))"

locale declared_once =
  fixes ensure :: "env \<Rightarrow> string \<Rightarrow> unit fallible" and resource :: "string \<Rightarrow> k8s_object"
  assumes calls: "emits (reads_or_creates (resource ns)) (ensure env ns)"
    and kept: "present_at env (st_trace s) (resource ns) \<Longrightarrow>
      run_state (ensure env ns) s = (Inr (), record_call (get_call (resource ns)) s)"
    and settled: "run_state (ensure env ns) s = (Inr (), s') \<Longrightarrow>
      present_at env (st_trace s) (resource ns) \<or> K8sCreate (resource ns) \<in> set (st_trace s')"
begin

text \<open>The only write is the creation of the resource, and it happens at most where none was seen.\<close>

lemma writes_declared: "emits (\<lambda>c. is_write c \<longrightarrow> c = K8sCreate (resource ns)) (ensure env ns)"
  by (rule emits_mono [OF calls]) (auto simp: reads_or_creates_def)

lemma edits_survive:
  "present_at env (st_trace s) (resource ns) \<Longrightarrow> run_state (ensure env ns) s = (r, s') \<Longrightarrow>
     r = Inr () \<and> st_trace s' = st_trace s @ [get_call (resource ns)]"
  by (auto simp: kept)

text \<open>A server that keeps what was created sees no second creation.\<close>

lemma created_once:
  assumes "run_state (ensure env ns) s = (Inr (), s')"
    and "\<And>t t'. present_at env t (resource ns) \<Longrightarrow> present_at env (t @ t') (resource ns)"
    and "\<And>t. K8sCreate (resource ns) \<in> set t \<Longrightarrow> present_at env t (resource ns)"
  shows "run_state (ensure env ns) s' = (Inr (), record_call (get_call (resource ns)) s')"
proof -
  obtain new where "st_trace s' = st_trace s @ new" using calls assms(1) by (rule emitsD)
  then have "present_at env (st_trace s') (resource ns)"
    using settled [OF assms(1)] assms(2,3) by auto
  then show ?thesis by (rule kept)
qed

end

lemma declare_once_contract:
  "emits (reads_or_creates ob) (declare_once env ob what)"
  "present_at env (st_trace s) ob \<Longrightarrow> run_state (declare_once env ob what) s = (Inr (), record_call (get_call ob) s)"
  "run_state (declare_once env ob what) s = (Inr (), s') \<Longrightarrow>
     present_at env (st_trace s) ob \<or> K8sCreate ob \<in> set (st_trace s')"
  unfolding declare_once_def k8s_get_def k8s_create_def present_at_def get_call_def
  by (intro emits_intros; simp add: reads_or_creates_def)
     (auto split: sum.splits if_splits)

definition realm_resource :: "string \<Rightarrow> k8s_object" where
  "realm_resource ns =
     new_object keycloak_realm_gvk ns master_realm_resource_name (RealmContent master_realm_spec new_realm_status)"

definition client_resource :: "string \<Rightarrow> k8s_object" where
  "client_resource ns =
     new_object keycloak_client_gvk ns neteye_client_resource_name (ClientContent neteye_client_spec new_client_status)"

definition flow_resource :: "string \<Rightarrow> keycloak_auth_flow_spec \<Rightarrow> string \<Rightarrow> k8s_object" where
  "flow_resource name spec ns = new_object keycloak_auth_flow_gvk ns name (FlowContent spec new_flow_status)"

definition internal_admin_resource :: "string \<Rightarrow> k8s_object" where
  "internal_admin_resource ns = declared_user ns internal_admin_resource_name internal_admin_spec"

definition root_user_resource :: "string \<Rightarrow> k8s_object" where
  "root_user_resource ns = declared_user ns root_resource_name root_user_spec"

interpretation internal_admin: declared_once ensure_internal_admin_user internal_admin_resource
  unfolding ensure_internal_admin_user_def internal_admin_resource_def
  by unfold_locales (rule declare_once_contract; assumption)+

interpretation root_user: declared_once ensure_root_user root_user_resource
  unfolding ensure_root_user_def root_user_resource_def
  by unfold_locales (rule declare_once_contract; assumption)+

interpretation realm_declared: declared_once ensure_master_realm realm_resource
  unfolding ensure_master_realm_def realm_resource_def
  by unfold_locales (rule declare_once_contract; assumption)+

interpretation client_declared: declared_once ensure_neteye_client client_resource
  unfolding ensure_neteye_client_def client_resource_def
  by unfold_locales (rule declare_once_contract; assumption)+

interpretation broker_flow: declared_once ensure_first_broker_login_flow
    "flow_resource first_broker_login_flow_name first_broker_login_flow_spec"
  unfolding ensure_first_broker_login_flow_def ensure_auth_flow_def flow_resource_def
  by unfold_locales (rule declare_once_contract; assumption)+

interpretation discovery_flow: declared_once ensure_idp_discovery_flow
    "flow_resource idp_discovery_flow_name idp_discovery_flow_spec"
  unfolding ensure_idp_discovery_flow_def ensure_auth_flow_def flow_resource_def
  by unfold_locales (rule declare_once_contract; assumption)+

section \<open>The route waits for the instance\<close>

text \<open>Applying an object looks at no other object, so it does not look at the route.\<close>

definition route_lookup :: "string \<Rightarrow> call" where
  "route_lookup ns = K8sGet http_route_gvk ns kc_http_route_name"

lemma emits_apply_elsewhere:
  "od_gvk obj \<noteq> http_route_gvk \<Longrightarrow> emits (\<lambda>c. c \<noteq> route_lookup ns) (apply_only env obj)"
  unfolding apply_only_def route_lookup_def
  by (intro emits_intros emits_mono [OF emits_apply_object]) auto

lemmas kc_kinds = gvk_of_eq http_route_gvk_def certificate_gvk_def keycloak_gvk_def cilium_network_policy_gvk_def
  gateway_api_group_def cert_manager_group_def

lemma emits_before_route:
  "emits (\<lambda>c. c \<noteq> route_lookup ns') (ensure_certificate env ns name sn cn dns issuer owner)"
  "emits (\<lambda>c. c \<noteq> route_lookup ns') (ensure_kc_egress_policy env ns owner)"
  "emits (\<lambda>c. c \<noteq> route_lookup ns') (ensure_kc_ingress_policy env ns owner)"
  "emits (\<lambda>c. c \<noteq> route_lookup ns') (ensure_kc_host_policy env ns owner)"
  "emits (\<lambda>c. c \<noteq> route_lookup ns') (ensure_keycloak_instance env ns img ca identity owner)"
  unfolding ensure_certificate_def ensure_kc_egress_policy_def ensure_kc_ingress_policy_def
    ensure_kc_host_policy_def ensure_keycloak_instance_def
  by (intro emits_intros emits_apply_elsewhere; simp add: kc_kinds)+

text \<open>What makes a readiness test positive.\<close>

definition instance_current :: "k8s_object \<Rightarrow> bool" where
  "instance_current kc \<longleftrightarrow>
     (\<exists>g. status_observed_generation (fields_of kc) = Inr (Some g) \<and> meta_generation (ob_meta kc) \<le> g) \<and>
     ready_now (fields_of kc)"

definition certificate_current :: "k8s_object \<Rightarrow> bool" where
  "certificate_current cert \<longleftrightarrow> ready_now (fields_of cert)"

definition realm_current :: "k8s_object \<Rightarrow> bool" where
  "realm_current ob \<longleftrightarrow> fst (realm_state ob) = ServiceReady"

definition user_current :: "k8s_object \<Rightarrow> bool" where
  "user_current ob \<longleftrightarrow> fst (user_state ob) = ServiceReady"

lemma instance_readiness_iff: "(\<exists>m. instance_readiness kc = Inr (True, m)) \<longleftrightarrow> instance_current kc"
  unfolding instance_current_def ready_condition_message_iff [of "fields_of kc" "''Keycloak''", symmetric]
  by (auto simp: instance_readiness_def not_less split: sum.splits option.splits)

lemma state_readiness_iff [simp]: "state_readiness kind name st = (True, m) \<longleftrightarrow> fst st = ServiceReady \<and> m = []"
  by (auto simp: state_readiness_def)

interpretation certificate_test: readiness_test "is_certificate_ready env ns name" env certificate_gvk ns name
    certificate_current
  by unfold_locales
    (auto simp: is_certificate_ready_def k8s_get_def certificate_current_def
      ready_condition_message_iff [of _ "''TLS Certificate''", symmetric] split: sum.splits if_splits)

interpretation keycloak_test: readiness_test "is_keycloak_ready env ns" env keycloak_gvk ns instance_name
    instance_current
  by unfold_locales
    (auto simp: is_keycloak_ready_def k8s_get_def instance_readiness_iff [symmetric]
      split: sum.splits if_splits)

interpretation realm_test: readiness_test "is_realm_ready env ns name" env keycloak_realm_gvk ns name
    realm_current
  by unfold_locales
    (auto simp: is_realm_ready_def k8s_get_def realm_current_def split: sum.splits if_splits)

interpretation user_test: readiness_test "is_user_ready env ns name" env keycloak_user_gvk ns name
    user_current
  by unfold_locales
    (auto simp: is_user_ready_def k8s_get_def user_current_def split: sum.splits if_splits)

abbreviation before_route :: "string \<Rightarrow> trace \<Rightarrow> trace \<Rightarrow> bool" where
  "before_route ns \<equiv> only_since (\<lambda>c. c \<noteq> route_lookup ns)"

definition identity_seen :: "env \<Rightarrow> trace \<Rightarrow> string \<Rightarrow> trace \<Rightarrow> bool" where
  "identity_seen env t0 ns t \<longleftrightarrow>
     seen_since env t0 certificate_gvk ns kc_tls_certificate_name certificate_current t \<and>
     seen_since env t0 keycloak_gvk ns instance_name instance_current t"

lemma before_route_since: "before_route ns t0 t \<Longrightarrow> \<exists>new. t = t0 @ new"
  by (auto simp: only_since_def)

lemma lookups_not_route:
  "before_route ns t0 t \<Longrightarrow> before_route ns t0 (t @ [K8sGet certificate_gvk ns n])"
  "before_route ns t0 t \<Longrightarrow> before_route ns t0 (t @ [K8sGet keycloak_gvk ns n])"
  by (auto intro!: only_since_append simp: route_lookup_def kc_kinds)

lemma emits_ensure_route: "emits (\<lambda>c. True) (ensure_keycloak_route env ns gateway_ns gateway owner)"
  unfolding ensure_keycloak_route_def ensure_http_route_def ensure_http_route_spec_def apply_only_def
  by (intro emits_intros emits_mono [OF emits_apply_object]) simp

lemma triple_keycloak_resources:
  "triple (before_route ns t0)
     (ensure_keycloak_resources env ns img ca identity gateway_ns gateway issuer owner)
     (\<lambda>r t. (\<exists>new. t = t0 @ new) \<and> (before_route ns t0 t \<or> identity_seen env t0 ns t) \<and>
        (\<forall>m. r = Inr (True, m) \<longrightarrow> identity_seen env t0 ns t))"
  (is "triple _ _ ?Q")
proof -
  let ?P = "before_route ns t0"
  let ?cert = "seen_since env t0 certificate_gvk ns kc_tls_certificate_name certificate_current"
  let ?P1 = "\<lambda>t. ?P t \<and> ?cert t"
  let ?P2 = "\<lambda>t. (\<exists>new. t = t0 @ new) \<and> identity_seen env t0 ns t"
  have route: "triple (\<lambda>t. ?P t \<and> identity_seen env t0 ns t) (ensure_keycloak_route env ns gateway_ns gateway owner) ?Q"
    by (rule triple_mono [OF triple_calls [OF emits_ensure_route, of ?P2]])
      (auto simp: identity_seen_def intro: seen_since_append dest: before_route_since)
  have ready: "triple ?P1 (is_keycloak_ready env ns)
      (\<lambda>r t. ?P1 t \<and> (\<forall>m. r = Inr (True, m) \<longrightarrow> seen_since env t0 keycloak_gvk ns instance_name instance_current t))"
    by (rule keycloak_test.triple_test)
      (auto intro: lookups_not_route seen_since_append dest: before_route_since)
  have certificate: "triple ?P (is_certificate_ready env ns kc_tls_certificate_name)
      (\<lambda>r t. ?P t \<and> (\<forall>m. r = Inr (True, m) \<longrightarrow> ?cert t))"
    by (rule certificate_test.triple_test) (auto intro: lookups_not_route dest: before_route_since)
  have inst: "triple ?P1 (ensure_keycloak_instance env ns img ca identity (Some owner)) (\<lambda>r. ?P1)"
    by (rule triple_calls [OF emits_before_route(5)]) (auto intro: only_since_append seen_since_append)
  have after_cert: "triple ?P1
      (try_wrap ''ensure keycloak instance'' (ensure_keycloak_instance env ns img ca identity (Some owner)) (\<lambda>_.
       try_wrap ''check keycloak readiness'' (is_keycloak_ready env ns) (\<lambda>(ready, message).
       if \<not> ready then ok (False, message)
       else ensure_keycloak_route env ns gateway_ns gateway owner))) ?Q"
    by (rule triple_wrap [OF inst] triple_wrap [OF ready] triple_intros triple_mono [OF route] |
        force simp: identity_seen_def dest: before_route_since)+
  show ?thesis
    unfolding ensure_keycloak_resources_def
    by (rule triple_wrap [OF triple_only [OF emits_before_route(1)]]
        triple_wrap [OF triple_only [OF emits_before_route(2)]]
        triple_wrap [OF triple_only [OF emits_before_route(3)]]
        triple_wrap [OF triple_only [OF emits_before_route(4)]]
        triple_wrap [OF certificate] triple_intros triple_mono [OF after_cert] |
        force dest: before_route_since)+
qed

text \<open>
  The HTTP route of Keycloak is not even looked at before this very run has read the TLS
  certificate as ready and the instance as ready in its current generation: a route that
  points at a service the instance operator has not created yet is never declared. And the
  resources are reported ready only after both were read.
\<close>

theorem route_follows_ready_instance:
  assumes "run_state (ensure_keycloak_resources env ns img ca identity gateway_ns gateway issuer owner) s = (r, s')"
  shows "(only_since (\<lambda>c. c \<noteq> K8sGet http_route_gvk ns kc_http_route_name) (st_trace s) (st_trace s') \<or>
      identity_seen env (st_trace s) ns (st_trace s')) \<and>
    (\<forall>m. r = Inr (True, m) \<longrightarrow> identity_seen env (st_trace s) ns (st_trace s'))"
  using tripleD [OF triple_keycloak_resources _ assms, of "st_trace s"] by (simp add: route_lookup_def)

section \<open>A platform that is up\<close>

text \<open>Every certificate, instance, realm and user that is read is ready.\<close>

definition platform_up :: "env \<Rightarrow> bool" where
  "platform_up env \<longleftrightarrow>
     (\<forall>t ns n. \<exists>ob. env_get env t certificate_gvk ns n = Inr ob \<and> certificate_current ob) \<and>
     (\<forall>t ns n. \<exists>ob. env_get env t keycloak_gvk ns n = Inr ob \<and> instance_current ob) \<and>
     (\<forall>t ns n. \<exists>ob. env_get env t keycloak_realm_gvk ns n = Inr ob \<and> realm_current ob) \<and>
     (\<forall>t ns n. \<exists>ob. env_get env t keycloak_user_gvk ns n = Inr ob \<and> user_current ob)"

lemma keycloak_resources_live:
  assumes c: "cooperative env owner" and up: "platform_up env" and issuer: "issuer \<noteq> []"
  shows "\<exists>s'. run_state (ensure_keycloak_resources env ns img ca identity gateway_ns gateway issuer owner) s
           = (Inr (True, ''Keycloak is Ready''), s')"
proof -
  have applied: "\<And>s. \<exists>x s'. run_state m s = (Inr x, s')" if "succeeds m" for m :: "unit fallible"
    using that by (simp add: succeeds_def)
  have steps: "succeeds (ensure_certificate env ns kc_tls_certificate_name kc_tls_secret_name kc_route_hostname
        [kc_route_hostname] issuer (Some owner))"
      "succeeds (ensure_kc_egress_policy env ns (Some owner))" "succeeds (ensure_kc_ingress_policy env ns (Some owner))"
      "succeeds (ensure_kc_host_policy env ns (Some owner))"
      "succeeds (ensure_keycloak_instance env ns img ca identity (Some owner))"
      "succeeds (ensure_http_route env ns kc_http_route_name gateway_ns gateway kc_listener_name [kc_route_hostname]
          kc_service_name kc_http_port (Some owner))"
    using issuer
    by (simp_all add: ensure_certificate_def ensure_kc_egress_policy_def ensure_kc_ingress_policy_def
        ensure_kc_host_policy_def ensure_keycloak_instance_def ensure_http_route_def ensure_http_route_spec_def
        validate_issuer_ref_def succeeds_apply [OF c] lift_error_def)
  show ?thesis
    unfolding ensure_keycloak_resources_def ensure_keycloak_route_def
    by (rule wrap_continues [OF applied [OF steps(1)]] wrap_continues [OF applied [OF steps(2)]]
        wrap_continues [OF applied [OF steps(3)]] wrap_continues [OF applied [OF steps(4)]]
        wrap_continues [OF applied [OF steps(5)]] wrap_continues [OF applied [OF steps(6)]]
        certificate_test.continues keycloak_test.continues |
        simp only: prod.case not_True_eq_False if_False |
        simp add: up [unfolded platform_up_def])+
qed

section \<open>Who may disable the bootstrap admin\<close>

text \<open>The one request that disables an account: the live account of that name, with \<open>enabled\<close> off.\<close>

definition disables :: "string \<Rightarrow> http_method \<Rightarrow> string \<Rightarrow> json option \<Rightarrow> bool" where
  "disables username m path body \<longleftrightarrow>
     m = PUT \<and> (\<exists>u. path = user_path master_realm (string_value u ''id'') [] \<and>
       string_value u ''username'' \<in> {username, to_lower username} \<and>
       body = Some (JObj (merge_representation u [(''enabled'', JBool False)])))"

lemma emits_disable_account: "emits (sends (disables username)) (disable_account env a username)"
  unfolding disable_account_def update_user_def
  by (rule emits_wrap_delivers [OF emits_lookups(10) lookups_exact [THEN conjunct2, THEN conjunct2]])
    (auto intro!: emits_intros simp: disables_def split: option.split)

text \<open>Resolving a client reads Secrets and the clock, and sends Keycloak nothing but reads.\<close>

fun reads_cluster :: "call \<Rightarrow> bool" where
  "reads_cluster (K8sGet k ns n) = (k = secret_gvk)"
| "reads_cluster c = sends (\<lambda>m path body. False) c"

lemma reads_cluster_sends: "sends (\<lambda>m path body. False) c \<Longrightarrow> reads_cluster c"
  by (cases c) auto

lemma emits_verify_reads [emits_intros]: "emits reads_cluster (verify_api env a)"
  by (rule emits_mono [OF _ reads_cluster_sends]) (auto simp: verify_api_def intro!: emits_intros)

lemma emits_provider_reads: "emits reads_cluster (get_admin_api env p)"
  unfolding get_admin_api_def get_bootstrap_api_def adopt_bootstrap_def store_api_def build_api_def
    verify_internal_def postpone_internal_def internal_admin_credentials_def bootstrap_admin_credentials_def
    read_provider_def update_provider_def alloc_admin_api_def k8s_get_def read_clock_def Let_def
  by (intro emits_intros) auto

lemma emits_no_write_resolution: "emits (\<lambda>c. \<not> is_write c) (get_admin_api env p)"
  by (rule emits_mono [OF emits_provider_reads]) (auto elim: reads_cluster.elims dest: sends_nothing)

lemma bootstrap_credentials_calls:
  assumes "run_state (bootstrap_admin_credentials env ns) s = (r, s')"
  shows "st_trace s' = st_trace s @ [K8sGet secret_gvk ns admin_secret_name]"
  using assms
  by (auto simp: bootstrap_admin_credentials_def k8s_get_def Let_def split: sum.splits if_splits)

text \<open>
  C16. The last usable credential is never taken away. Let \<open>g\<close> be what this very pass got when
  it asked its provider \<open>p\<close> for a client. Getting it writes nothing; afterwards the pass writes
  only if \<open>g\<close> is a client, the credential that this client holds at that moment is the
  internal admin's, and the bootstrap Secret was read after it; then the only write is
  the one that disables the live account the Secret names. A pass that got a client of the
  bootstrap account, or none, writes nothing.
\<close>

theorem bootstrap_disabled_by_internal_admin:
  assumes "providers_sound s" and "pred_option (\<lambda>p. p < length (st_providers s)) (st_component_admin s)"
    and p: "run_state (component_admin ns) s = (p, s1)" and g: "run_state (get_admin_api env p) s1 = (g, s2)"
    and "run_state (ensure_bootstrap_admin_disabled env ns) s = (r, s')"
  shows "only_since (\<lambda>c. \<not> is_write c) (st_trace s) (st_trace s2) \<and>
    (only_since (\<lambda>c. \<not> is_write c) (st_trace s2) (st_trace s') \<or>
     (\<exists>a user creds bootstrap.
       g = Inr (a, user) \<and> authenticates s2 p a creds \<and> cred_username creds = internal_admin_username \<and>
       bootstrap_credential env (st_trace s2) (st_trace s') ns bootstrap \<and>
       only_since (\<lambda>c. is_write c \<longrightarrow> sends (disables (cred_username bootstrap)) c) (st_trace s2) (st_trace s')))"
proof -
  have t1: "st_trace s1 = st_trace s" and s1: "providers_sound s1" "p < length (st_providers s1)"
    using p assms(1,2)
    by (auto simp: component_admin_def providers_sound_def accounts_def split: option.splits)
  have safe: "\<forall>a user. g = Inr (a, user) \<longrightarrow> resolved env (st_trace s1) s2 p a user"
    using get_admin_api_safe [OF g s1] by simp
  have quiet: "only_since (\<lambda>c. \<not> is_write c) (st_trace s) (st_trace s2)"
    using tripleD [OF triple_only [OF emits_no_write_resolution] only_since_refl g] t1 by simp
  consider (idle) "s' = s2" | (work) a where "g = Inr (a, internal_admin_username)"
    using assms(5) p g
    by (cases g) (auto simp: ensure_bootstrap_admin_disabled_def run_state_bind split: if_splits)
  then show ?thesis
  proof cases
    case idle
    then show ?thesis using quiet by (simp add: only_since_def)
  next
    case work
    obtain b s3 where b: "run_state (bootstrap_admin_credentials env ns) s2 = (b, s3)" by force
    note t3 = bootstrap_credentials_calls [OF b]
    show ?thesis
    proof (cases b)
      case (Inl e)
      then have "s' = s3"
        using assms(5) p g work b by (auto simp: ensure_bootstrap_admin_disabled_def run_state_bind split: if_splits)
      then show ?thesis using quiet t3 by (auto simp: only_since_def)
    next
      case (Inr bootstrap)
      then have run: "run_state (disable_account env a (cred_username bootstrap)) s3 = (r, s')"
        using assms(5) p g work b by (simp add: ensure_bootstrap_admin_disabled_def run_state_bind)
      obtain new where new: "st_trace s' = st_trace s3 @ new"
          "\<forall>c \<in> set new. sends (disables (cred_username bootstrap)) c"
        using emits_disable_account run by (rule emitsD)
      have "bootstrap_credential env (st_trace s2) (st_trace s') ns bootstrap"
        using bootstrap_credentials_read [OF b [unfolded Inr]] new(1) by (simp add: credential_append)
      moreover obtain creds where "authenticates s2 p a creds" "cred_username creds = internal_admin_username"
        using safe work by (auto simp: resolved_def)
      moreover have "only_since (\<lambda>c. is_write c \<longrightarrow> sends (disables (cred_username bootstrap)) c)
          (st_trace s2) (st_trace s')"
        using new t3 by (auto simp: only_since_def)
      ultimately show ?thesis using quiet work by blast
    qed
  qed
qed

text \<open>
  C17. Without a bootstrap Secret the step fails, although the code means it to succeed: the
  lookup reports a missing Secret as missing credentials, which is not the not-found error
  the step is prepared to ignore. So a Keycloak that never had a bootstrap account is asked
  to disable it for ever.
\<close>

theorem missing_bootstrap_secret_fails:
  assumes "run_state (component_admin ns) s = (p, s1)"
    and "run_state (get_admin_api env p) s1 = (Inr (a, internal_admin_username), s2)"
    and "env_get env (st_trace s2) secret_gvk ns admin_secret_name = Inl e" and "is_not_found e"
  shows "\<exists>m. fst (run_state (ensure_bootstrap_admin_disabled env ns) s) = Inl (NoAdminCredentials m)"
  using assms
  by (simp add: ensure_bootstrap_admin_disabled_def run_state_bind bootstrap_admin_credentials_def k8s_get_def
      is_not_found_def)

section \<open>The declared resources\<close>

text \<open>
  \<open>declares ob m\<close>: the step \<open>m\<close> makes no write but the creation of \<open>ob\<close>, and where \<open>ob\<close> is
  present it makes no write at all and succeeds.
\<close>

definition declares :: "env \<Rightarrow> k8s_object \<Rightarrow> unit fallible \<Rightarrow> bool" where
  "declares env ob m \<longleftrightarrow>
     emits (\<lambda>c. is_write c \<longrightarrow> c = K8sCreate ob) m \<and>
     (\<forall>s. present_at env (st_trace s) ob \<longrightarrow> run_state m s = (Inr (), record_call (get_call ob) s))"

text \<open>
  The six resources the platform declares are created when they are missing and never
  touched again: an administrator's edits to the internal admin, the root user, the master
  realm, the client and the two flows survive every reconciliation.
\<close>

theorem declared_resources_kept:
  "declares env (internal_admin_resource ns) (ensure_internal_admin_user env ns) \<and>
   declares env (root_user_resource ns) (ensure_root_user env ns) \<and>
   declares env (realm_resource ns) (ensure_master_realm env ns) \<and>
   declares env (client_resource ns) (ensure_neteye_client env ns) \<and>
   declares env (flow_resource first_broker_login_flow_name first_broker_login_flow_spec ns)
     (ensure_first_broker_login_flow env ns) \<and>
   declares env (flow_resource idp_discovery_flow_name idp_discovery_flow_spec ns) (ensure_idp_discovery_flow env ns)"
  by (simp add: declares_def internal_admin.writes_declared internal_admin.kept root_user.writes_declared
      root_user.kept realm_declared.writes_declared realm_declared.kept client_declared.writes_declared
      client_declared.kept broker_flow.writes_declared broker_flow.kept discovery_flow.writes_declared
      discovery_flow.kept)

section \<open>A concrete platform\<close>

definition ready_status :: content where
  "ready_status = Unstructured [(''status'', JObj
     [(''observedGeneration'', JInt 1),
      (''conditions'', JArr [JObj [(''type'', JStr ''Ready''), (''status'', JStr ''True'')]])])]"

definition platform_credentials :: "(string \<times> string) list" where
  "platform_credentials =
     [(''username'', ''admin''), (''password'', ''pw''), (''tls.crt'', ''pem''), (''htpasswd'', ''line''), (''api_key'', ''key'')]"

definition platform_content :: "gvk \<Rightarrow> content" where
  "platform_content k =
     (if k = secret_gvk then SecretData (Some platform_credentials)
      else if k = keycloak_realm_gvk then RealmContent master_realm_spec (new_realm_status\<lparr>rst_status := ServiceReady\<rparr>)
      else if k = keycloak_user_gvk then UserContent root_user_spec (new_user_status\<lparr>ust_status := ServiceReady\<rparr>)
      else ready_status)"

definition bootstrap_account :: representation where
  "bootstrap_account = [(''id'', JStr ''1''), (''username'', JStr ''admin''), (''enabled'', JBool True)]"

text \<open>A Keycloak that answers everything, next to a cluster with one object of each kind.\<close>

definition platform_with :: "(gvk \<Rightarrow> k8s_object) \<Rightarrow> env" where
  "platform_with object_of = (keycloak_env (JArr [JObj bootstrap_account]))
     \<lparr>env_get := (\<lambda>t k ns n. Inr (object_of k))\<rparr>"

abbreviation platform_env :: env where
  "platform_env \<equiv> platform_with (\<lambda>k. owned_by_sample k (platform_content k))"

lemma platform_env_simps [simp]:
  "env_get (platform_with f) = (\<lambda>t k ns n. Inr (f k))"
  "env_admin (platform_with f) = constant_keycloak (JArr [JObj bootstrap_account])"
  "env_decode (platform_with f) = (\<lambda>raw. Inr (JArr [JObj bootstrap_account]))"
  "env_token (platform_with f) = (\<lambda>t base user pass. Answer 200 ''200 OK'' ''token'')"
  "env_decode_token (platform_with f) = (\<lambda>raw. Inr (''token'', 60))"
  "env_now (platform_with f) = (\<lambda>t. 0)"
  by (simp_all add: platform_with_def)

lemma content_owned_by_sample [simp]:
  "ob_content (owned_by_sample k c) = c" "meta_generation (ob_meta (owned_by_sample k c)) = 0"
  by (simp_all add: owned_by_sample_def set_owners_def new_object_def new_meta_def)

lemma platform_kinds [simp]:
  "keycloak_realm_gvk \<noteq> secret_gvk" "keycloak_user_gvk \<noteq> secret_gvk" "certificate_gvk \<noteq> secret_gvk"
  "keycloak_gvk \<noteq> secret_gvk" "keycloak_user_gvk \<noteq> keycloak_realm_gvk" "certificate_gvk \<noteq> keycloak_realm_gvk"
  "keycloak_gvk \<noteq> keycloak_realm_gvk" "certificate_gvk \<noteq> keycloak_user_gvk" "keycloak_gvk \<noteq> keycloak_user_gvk"
  by (simp_all add: keycloak_realm_gvk_def keycloak_user_gvk_def certificate_gvk_def keycloak_gvk_def
      secret_gvk_def neteye_group_def)

lemma ready_status_current: "ready_now (fields_of (owned_by_sample k ready_status))"
  by (simp add: ready_now_def fields_of_def ready_status_def nested_slice_def is_ready_condition_def
      condition_true_def string_value_def)

lemma platform_env_up: "platform_up platform_env"
  by (simp add: platform_up_def platform_content_def certificate_current_def instance_current_def
      ready_status_current realm_current_def realm_state_def user_current_def user_state_def)
    (simp add: fields_of_def ready_status_def status_observed_generation_def)

lemma platform_env_cooperative: "cooperative platform_env sample_owner"
  by (simp add: cooperative_def) (simp add: platform_with_def keycloak_env_def memory_env_def)

definition sample_identity :: identity_spec where
  "sample_identity =
     \<lparr>id_replicas = 0, id_hostname = ''neteye.example'', id_pod_extra_env_vars = [], id_additional_options = [],
      id_enabled_features = [], id_telemetry = None,
      id_db_connection = \<lparr>db_host = ''db'', db_port = 0, db_dbname = [], db_username_secret = None,
        db_password_secret = None\<rparr>\<rparr>"

theorem route_follows_ready_instance_witness:
  "\<exists>s'. run_state (ensure_keycloak_resources platform_env ''ns'' ''img'' ''ca'' sample_identity ''ns'' ''gw'' ''issuer''
       sample_owner) initial_state = (Inr (True, ''Keycloak is Ready''), s') \<and>
     identity_seen platform_env [] ''ns'' (st_trace s')"
proof -
  obtain s' where r: "run_state (ensure_keycloak_resources platform_env ''ns'' ''img'' ''ca'' sample_identity ''ns'' ''gw''
      ''issuer'' sample_owner) initial_state = (Inr (True, ''Keycloak is Ready''), s')"
    using keycloak_resources_live [OF platform_env_cooperative platform_env_up] by blast
  from route_follows_ready_instance [OF r] r show ?thesis by (auto simp: initial_state_def)
qed

text \<open>A fresh operator on such a platform authenticates as the internal admin.\<close>

lemma verify_runs:
  assumes "env_token env = env_token platform_env" and "env_decode_token env = env_decode_token platform_env"
    and "env_now env = env_now platform_env"
  shows "\<exists>s'. run_state (verify_api env a) s = (Inr (), s')"
  using assms
  by (simp add: verify_api_def authenticate_def fetch_token_def request_token_def accept_token_def store_token_def
      read_clock_def run_state_bind)

lemma internal_admin_resolves:
  assumes "env_token env = env_token platform_env" and "env_decode_token env = env_decode_token platform_env"
    and "env_now env = env_now platform_env"
    and "env_get env [] secret_gvk ns internal_admin_secret_name = Inr secret"
    and "secret_value secret internal_admin_secret_password_key \<noteq> []"
  shows "\<exists>s1 s2. run_state (component_admin ns) initial_state = (0, s1) \<and>
    run_state (get_admin_api env 0) s1 = (Inr (0, internal_admin_username), s2)"
proof -
  have "\<forall>s. \<exists>s'. run_state (verify_api env 0) s = (Inr (), s')"
    using verify_runs [OF assms(1-3)] by blast
  from choice [OF this] obtain f where "\<forall>s. run_state (verify_api env 0) s = (Inr (), f s)" ..
  then show ?thesis
    using assms
    by (simp add: component_admin_def initial_state_def get_admin_api_def run_state_bind new_admin_provider_def
        internal_admin_credentials_def k8s_get_def Let_def cached_api_def internal_admin_username_def
        verify_internal_def read_clock_def throttled_def build_api_def)
qed

lemma platform_secret:
  "secret_value (owned_by_sample k (SecretData (Some platform_credentials))) ''username'' = ''admin''"
  "secret_value (owned_by_sample k (SecretData (Some platform_credentials))) ''password'' = ''pw''"
  by (simp_all add: secret_value_def secret_data_def platform_credentials_def)

text \<open>The platform that never had a bootstrap account.\<close>

definition adopted_env :: env where
  "adopted_env = platform_env\<lparr>env_get := (\<lambda>t k ns n.
     if k = secret_gvk \<and> n = admin_secret_name then Inl (K8sErr NotFound ''not found'')
     else Inr (owned_by_sample k (platform_content k)))\<rparr>"

theorem missing_bootstrap_secret_fails_witness:
  "\<exists>m. fst (run_state (ensure_bootstrap_admin_disabled adopted_env ''ns'') initial_state) = Inl (NoAdminCredentials m)"
proof -
  have "\<exists>s1 s2. run_state (component_admin ''ns'') initial_state = (0, s1) \<and>
      run_state (get_admin_api adopted_env 0) s1 = (Inr (0, internal_admin_username), s2)"
    by (rule internal_admin_resolves [where secret = "owned_by_sample secret_gvk (platform_content secret_gvk)"])
      (simp_all add: adopted_env_def internal_admin_secret_name_def admin_secret_name_def platform_content_def
        platform_secret internal_admin_secret_password_key_def instance_name_def)
  then show ?thesis
    by (elim exE conjE) (erule (1) missing_bootstrap_secret_fails [where e = "K8sErr NotFound ''not found''"], simp_all add: adopted_env_def)
qed

lemma platform_request:
  "\<exists>s' base. run_state (do_request (platform_with f) a m path body) s = (Inr ''json'', s') \<and>
     AdminCall base m path body \<in> set (st_trace s')"
proof -
  have "\<exists>token s'. run_state (authenticate (platform_with f) a) s = (Inr token, s')" for s
    by (simp add: authenticate_def fetch_token_def request_token_def accept_token_def store_token_def
      read_clock_def run_state_bind)
  then obtain token s' where "run_state (authenticate (platform_with f) a) s = (Inr token, s')" by blast
  then show ?thesis
    by (auto simp: do_request_def run_state_bind admin_request_def constant_keycloak_def read_answer_def)
qed

lemma platform_disables:
  "\<exists>s' base path body. run_state (disable_account (platform_with f) a ''admin'') s = (Inr (), s') \<and>
     AdminCall base PUT path body \<in> set (st_trace s')"
proof -
  have "\<exists>s'. run_state (get_user (platform_with f) a master_realm ''admin'') s = (Inr (Some bootstrap_account), s')"
  proof -
    obtain t where "run_state (do_request (platform_with f) a GET
        (realm_path master_realm (''/users?username='' @ query_escape ''admin'' @ ''&exact=true'')) None) s
        = (Inr ''json'', t)" using platform_request by blast
    then show ?thesis
      by (simp add: get_user_def get_many_def do_read_def constant_body into_representations_def
          into_representation_def bootstrap_account_def string_value_def)
  qed
  then obtain t where t: "run_state (get_user (platform_with f) a master_realm ''admin'') s
      = (Inr (Some bootstrap_account), t)" ..
  obtain s' base where "run_state (do_request (platform_with f) a PUT (user_path master_realm ''1'' [])
      (Some (JObj (merge_representation bootstrap_account [(''enabled'', JBool False)])))) t = (Inr ''json'', s')"
      "AdminCall base PUT (user_path master_realm ''1'' [])
      (Some (JObj (merge_representation bootstrap_account [(''enabled'', JBool False)]))) \<in> set (st_trace s')"
    using platform_request by blast
  with t show ?thesis
    by (auto simp: disable_account_def update_user_def do_send_def bootstrap_account_def string_value_def)
qed

text \<open>The theorem at work: the write is made.\<close>

theorem bootstrap_disabled_by_internal_admin_witness:
  "\<exists>s1 s2 s' base path body a p user creds bootstrap.
     run_state (component_admin ''ns'') initial_state = (p, s1) \<and>
     run_state (get_admin_api platform_env p) s1 = (Inr (a, user), s2) \<and>
     run_state (ensure_bootstrap_admin_disabled platform_env ''ns'') initial_state = (Inr (), s') \<and>
     AdminCall base PUT path body \<in> set (st_trace s') \<and>
     authenticates s2 p a creds \<and> cred_username creds = internal_admin_username \<and>
     bootstrap_credential platform_env (st_trace s2) (st_trace s') ''ns'' bootstrap"
proof -
  have "\<exists>s1 s2. run_state (component_admin ''ns'') initial_state = (0, s1) \<and>
      run_state (get_admin_api platform_env 0) s1 = (Inr (0, internal_admin_username), s2)"
    by (rule internal_admin_resolves [where secret = "owned_by_sample secret_gvk (platform_content secret_gvk)"])
      (simp_all add: platform_content_def platform_secret internal_admin_secret_password_key_def)
  then obtain s1 s2 where start: "run_state (component_admin ''ns'') initial_state = (0, s1)"
      "run_state (get_admin_api platform_env 0) s1 = (Inr (0, internal_admin_username), s2)" by blast
  obtain s' base path body where fin: "run_state (disable_account platform_env 0 ''admin'')
        (record_call (K8sGet secret_gvk ''ns'' admin_secret_name) s2) = (Inr (), s')"
      "AdminCall base PUT path body \<in> set (st_trace s')"
    using platform_disables by blast
  have run: "run_state (ensure_bootstrap_admin_disabled platform_env ''ns'') initial_state = (Inr (), s')"
    using start fin(1)
    by (simp add: ensure_bootstrap_admin_disabled_def run_state_bind bootstrap_admin_credentials_def k8s_get_def
        platform_content_def platform_secret admin_secret_username_key_def admin_secret_password_key_def Let_def)
  have "providers_sound initial_state"
      "pred_option (\<lambda>p. p < length (st_providers initial_state)) (st_component_admin initial_state)"
    by (simp_all add: providers_sound_def initial_state_def)
  note pass = bootstrap_disabled_by_internal_admin [OF this start run]
  have "\<not> (only_since (\<lambda>c. \<not> is_write c) (st_trace initial_state) (st_trace s2) \<and>
      only_since (\<lambda>c. \<not> is_write c) (st_trace s2) (st_trace s'))"
    using fin(2) by (fastforce simp: only_since_def initial_state_def)
  with pass obtain creds bootstrap where "authenticates s2 0 0 creds" "cred_username creds = internal_admin_username"
      "bootstrap_credential platform_env (st_trace s2) (st_trace s') ''ns'' bootstrap" by auto
  with start run fin(2) show ?thesis by blast
qed

end
