(* ===== verification/NetEye_Controller.thy ===== *)
theory NetEye_Controller
  imports Keycloak_Component Component_Lifecycle
begin

text \<open>
  The controller of the NetEye resource (\<^verbatim>\<open>controllers/neteye_controller.go\<close>): one pass of
  \<^verbatim>\<open>Reconcile\<close> with its base resources, the cluster authority lease, the three component
  operations it hands to the lifecycle runner, and the status it reports at the end of every
  pass. The status under construction is the second half of the state of a pass.

  The lemmas show that the operations honour the contract of the runner, that a pass always
  comes back, that nothing is written without the authority, what a ready identity service
  has been seen to be, and how the reported phase follows from the components.
\<close>

section \<open>The reconciler\<close>

definition default_wait_requeue :: duration where "default_wait_requeue = 30 * second"
definition default_failure_requeue :: duration where "default_failure_requeue = 2 * minute"
definition default_reconciliation_requeue :: duration where "default_reconciliation_requeue = 10 * minute"
definition cluster_authority_lease_name :: string where
  "cluster_authority_lease_name = ''neteye-cluster-authority''"

text \<open>
  The dependencies and intervals of the reconciler, its environment included: the process
  environment of image overrides, the URL library, and the order in which a map of egress
  targets is walked. A nil component is False.
\<close>

record reconciler =
  rc_env :: env
  rc_getenv :: "string \<Rightarrow> string"
  rc_lib :: url_lib
  rc_iteration :: "egress_target list \<Rightarrow> egress_target list"
  rc_wait_requeue_after :: duration
  rc_failure_requeue_after :: duration
  rc_reconciliation_requeue_after :: duration
  rc_has_keycloak :: bool
  rc_has_admin_providers :: bool
  rc_has_otel_collector :: bool
  rc_has_edot_gateway :: bool

definition wait_requeue :: "reconciler \<Rightarrow> duration" where
  "wait_requeue rc = (if 0 < rc_wait_requeue_after rc then rc_wait_requeue_after rc else default_wait_requeue)"

definition failure_requeue :: "reconciler \<Rightarrow> duration" where
  "failure_requeue rc =
     (if 0 < rc_failure_requeue_after rc then rc_failure_requeue_after rc else default_failure_requeue)"

definition reconciliation_requeue :: "reconciler \<Rightarrow> duration" where
  "reconciliation_requeue rc =
     (if 0 < rc_reconciliation_requeue_after rc then rc_reconciliation_requeue_after rc
      else default_reconciliation_requeue)"

lemma requeue_positive [simp]:
  "0 < wait_requeue rc" "0 < failure_requeue rc" "0 < reconciliation_requeue rc"
  by (simp_all add: wait_requeue_def failure_requeue_def reconciliation_requeue_def default_wait_requeue_def
      default_failure_requeue_def default_reconciliation_requeue_def second_def minute_def)

section \<open>Status\<close>

definition phase_severity :: "neteye_phase \<Rightarrow> int" where
  "phase_severity phase =
     (case phase of PhaseFailed \<Rightarrow> 3 | PhaseNotReady \<Rightarrow> 2 | PhasePendingUpgrades \<Rightarrow> 2 | PhaseReady \<Rightarrow> 1
      | OtherPhase s \<Rightarrow> 0)"

definition set_phase :: "neteye_phase \<Rightarrow> string \<Rightarrow> neteye_status \<Rightarrow> neteye_status" where
  "set_phase phase message st =
     (if phase_severity phase < phase_severity (nst_phase st) then st
      else st\<lparr>nst_phase := phase, nst_message := message\<rparr>)"

definition service_status_of :: "service_state \<Rightarrow> string \<Rightarrow> string \<Rightarrow> service_status" where
  "service_status_of state message img =
     \<lparr>ss_status = state, ss_message = message, ss_resolved_image = img\<rparr>"

definition unknown_service :: service_status where
  "unknown_service = service_status_of ServiceUnknown [] []"

definition reset_status :: "neteye \<Rightarrow> neteye_status" where
  "reset_status ne =
     \<lparr>nst_phase = OtherPhase [], nst_message = [],
      nst_services =
        \<lparr>svc_identity = Some unknown_service,
         svc_elastic_stack = Some \<lparr>est_status = ServiceUnknown, est_message = [],
           est_otel_collector = Some unknown_service, est_edot_gateway = Some unknown_service\<rparr>\<rparr>,
      nst_observed_generation = meta_generation (ne_meta ne)\<rparr>"

definition set_identity :: "service_status \<Rightarrow> neteye_status \<Rightarrow> neteye_status" where
  "set_identity x st = st\<lparr>nst_services := (nst_services st)\<lparr>svc_identity := Some x\<rparr>\<rparr>"

definition update_elastic_stack ::
    "(elastic_stack_status \<Rightarrow> elastic_stack_status) \<Rightarrow> neteye_status \<Rightarrow> neteye_status" where
  "update_elastic_stack f st =
     st\<lparr>nst_services := (nst_services st)\<lparr>svc_elastic_stack := map_option f (svc_elastic_stack (nst_services st))\<rparr>\<rparr>"

definition set_otel_collector :: "service_status \<Rightarrow> neteye_status \<Rightarrow> neteye_status" where
  "set_otel_collector x = update_elastic_stack (\<lambda>es. es\<lparr>est_otel_collector := Some x\<rparr>)"

definition set_edot_gateway :: "service_status \<Rightarrow> neteye_status \<Rightarrow> neteye_status" where
  "set_edot_gateway x = update_elastic_stack (\<lambda>es. es\<lparr>est_edot_gateway := Some x\<rparr>)"

definition phase_to_service_state :: "telemetry_phase \<Rightarrow> service_state" where
  "phase_to_service_state phase =
     (case phase of TelReady \<Rightarrow> ServiceReady | TelProgressing \<Rightarrow> ServiceNotReady | _ \<Rightarrow> ServiceFailed)"

definition check_services :: string where "check_services = ''Check services status for details''"

definition service_states :: "service_status option \<Rightarrow> service_status option \<Rightarrow> service_state list" where
  "service_states collector edot =
     (case collector of None \<Rightarrow> [] | Some c \<Rightarrow> [ss_status c]) @ (case edot of None \<Rightarrow> [] | Some e \<Rightarrow> [ss_status e])"

definition aggregate_elastic_stack_status ::
    "service_status option \<Rightarrow> service_status option \<Rightarrow> service_state \<times> string" where
  "aggregate_elastic_stack_status collector edot =
     (let states = service_states collector edot in
      if states \<noteq> [] \<and> list_all (\<lambda>s. s = ServiceDisabled) states
      then (ServiceDisabled, ''Elastic Stack feature module is disabled'')
      else if list_ex (\<lambda>s. s = ServiceFailed) states then (ServiceFailed, check_services)
      else if list_ex (\<lambda>s. s \<noteq> ServiceReady) states then (ServiceNotReady, check_services)
      else (ServiceReady, ''Elastic Stack feature module is ready''))"

text \<open>The loop over the results returns at the first degraded one.\<close>

fun scan_component_phase :: "bool \<Rightarrow> component_result list \<Rightarrow> neteye_phase \<times> string" where
  "scan_component_phase has_progressing [] =
     (if has_progressing then (PhaseNotReady, check_services) else (PhaseReady, ''All components are ready''))"
| "scan_component_phase has_progressing (r # rs) =
     (case cr_state r of
        StateDegraded \<Rightarrow> (PhaseFailed, check_services)
      | StateProgressing \<Rightarrow> scan_component_phase True rs
      | StateBlocked \<Rightarrow> scan_component_phase True rs
      | _ \<Rightarrow> scan_component_phase has_progressing rs)"

definition aggregate_component_phase :: "(component_id \<times> component_result) list \<Rightarrow> neteye_phase \<times> string" where
  "aggregate_component_phase results = scan_component_phase False (map snd results)"

definition earlier_requeue :: "component_result \<Rightarrow> duration \<Rightarrow> duration" where
  "earlier_requeue r earliest =
     (if 0 < cr_requeue_after r \<and> (earliest = 0 \<or> cr_requeue_after r < earliest) then cr_requeue_after r
      else earliest)"

definition earliest_component_requeue :: "(component_id \<times> component_result) list \<Rightarrow> duration" where
  "earliest_component_requeue results = fold earlier_requeue (map snd results) 0"

section \<open>Names and references\<close>

definition neteye_gvk :: gvk where "neteye_gvk = gvk_of neteye_group neteye_version ''NetEye''"
definition lease_gvk :: gvk where "lease_gvk = gvk_of ''coordination.k8s.io'' ''v1'' ''Lease''"

definition owner_reference_for :: "neteye \<Rightarrow> owner_reference" where
  "owner_reference_for ne = make_owner_reference (neteye_group @ ''/'' @ neteye_version) ''NetEye'' (ne_meta ne)"

definition issuer_ref_for :: "neteye \<Rightarrow> string" where
  "issuer_ref_for ne = ne_issuer_ref (ne_spec ne)"

definition in_ticks :: "string \<Rightarrow> string" where
  "in_ticks s = [CHR 0x27] @ s @ [CHR 0x27]"

text \<open>A fetched object as the typed resource; the client only ever answers with one.\<close>

definition no_db :: db_connection_spec where
  "no_db = \<lparr>db_host = [], db_port = 0, db_dbname = [], db_username_secret = None, db_password_secret = None\<rparr>"

definition zero_neteye_spec :: neteye_spec where
  "zero_neteye_spec = \<lparr>ne_version = [], ne_gateway = \<lparr>gw_name = [], gw_class_name = [], gw_annotations = []\<rparr>,
     ne_issuer_ref = [], ne_identity = \<lparr>id_replicas = 0, id_hostname = [], id_pod_extra_env_vars = [],
       id_additional_options = [], id_enabled_features = [], id_telemetry = None, id_db_connection = no_db\<rparr>,
     ne_elastic_stack = None\<rparr>"

definition zero_neteye_status :: neteye_status where
  "zero_neteye_status = \<lparr>nst_phase = OtherPhase [], nst_message = [],
     nst_services = \<lparr>svc_identity = None, svc_elastic_stack = None\<rparr>, nst_observed_generation = 0\<rparr>"

definition neteye_of :: "k8s_object \<Rightarrow> neteye" where
  "neteye_of ob =
     (case ob_content ob of
        NetEyeContent spec st \<Rightarrow> \<lparr>ne_meta = ob_meta ob, ne_spec = spec, ne_status = st\<rparr>
      | _ \<Rightarrow> \<lparr>ne_meta = ob_meta ob, ne_spec = zero_neteye_spec, ne_status = zero_neteye_status\<rparr>)"

definition gateway_listeners :: "neteye \<Rightarrow> gateway_listener list" where
  "gateway_listeners ne =
     \<lparr>gl_name = kc_listener_name, gl_hostname = kc_route_hostname, gl_tls_secret = kc_tls_secret_name,
      gl_route_kind = route_kind_http\<rparr> #
     (case ne_elastic_stack (ne_spec ne) of
        None \<Rightarrow> []
      | Some es \<Rightarrow>
          if es_enabled es
          then [\<lparr>gl_name = grpc_listener_name, gl_hostname = grpc_route_hostname,
                 gl_tls_secret = grpc_tls_secret_name, gl_route_kind = route_kind_grpc\<rparr>,
                \<lparr>gl_name = cross_tenant_listener_name, gl_hostname = cross_tenant_route_hostname,
                 gl_tls_secret = cross_tenant_tls_secret_name, gl_route_kind = route_kind_http\<rparr>]
          else [])"

section \<open>The cluster authority\<close>

definition lease_holder :: "k8s_object \<Rightarrow> string option" where
  "lease_holder ob = (case ob_content ob of LeaseContent h \<Rightarrow> h | _ \<Rightarrow> None)"

definition new_lease :: "neteye \<Rightarrow> k8s_object" where
  "new_lease ne =
     set_owners [owner_reference_for ne]
       (new_object lease_gvk workload_namespace cluster_authority_lease_name (LeaseContent (Some (meta_uid (ne_meta ne)))))"

definition get_lease :: "env \<Rightarrow> k8s_object fallible" where
  "get_lease env = k8s_get env lease_gvk workload_namespace cluster_authority_lease_name"

definition obtain_lease :: "env \<Rightarrow> neteye \<Rightarrow> k8s_object fallible" where
  "obtain_lease env ne =
     attempt (get_lease env)
       (\<lambda>e. if \<not> is_not_found e then fail (Wrap ''get NetEye cluster authority lease'' e)
            else attempt (k8s_create env (new_lease ne))
              (\<lambda>e. if \<not> is_already_exists e then fail (Wrap ''create NetEye cluster authority lease'' e)
                   else try_wrap ''get NetEye cluster authority lease after create race'' (get_lease env) ok)
              ok)
       ok"

definition lease_controlled :: "neteye \<Rightarrow> k8s_object \<Rightarrow> bool" where
  "lease_controlled ne lease =
     (case controller_of lease of None \<Rightarrow> False | Some r \<Rightarrow> or_uid r = meta_uid (ne_meta ne))"

definition ensure_cluster_authority :: "env \<Rightarrow> neteye \<Rightarrow> unit fallible" where
  "ensure_cluster_authority env ne =
     try_ok (obtain_lease env ne) (\<lambda>lease.
     if lease_holder lease \<noteq> Some (meta_uid (ne_meta ne))
     then fail (Msg ''shared NetEye platform components are managed by another NetEye resource'')
     else if lease_controlled ne lease then ok ()
     else try_wrap ''set NetEye owner reference on cluster authority lease''
            (lift_result (env_controller env (ne_meta ne) (ob_meta lease))) (\<lambda>meta.
          try_wrap ''update cluster authority lease owner reference''
            (k8s_update env (lease\<lparr>ob_meta := meta\<rparr>)) (\<lambda>_. ok ())))"

section \<open>The identity component\<close>

text \<open>
  A component operation sets the status of its service right before it returns, on every
  path, so it is modelled as a step that yields both.
\<close>

type_synonym report = "service_status \<times> (go_err + component_result)"

definition identity_degraded :: "reconciler \<Rightarrow> string \<Rightarrow> string \<Rightarrow> string \<Rightarrow> go_err \<Rightarrow> report op" where
  "identity_degraded rc img reason message e =
     State_Monad.return (service_status_of ServiceFailed message img,
       degraded_result identity_component_id reason message (failure_requeue rc) (Some e))"

definition identity_progressing :: "reconciler \<Rightarrow> string \<Rightarrow> string \<Rightarrow> string \<Rightarrow> report op" where
  "identity_progressing rc img reason message =
     State_Monad.return (service_status_of ServiceNotReady message img,
       progressing_result identity_component_id reason message (wait_requeue rc))"

text \<open>\<^verbatim>\<open>if err := step; err != nil { Identity = Failed, text + err; return degraded }\<close>\<close>

definition identity_step ::
    "reconciler \<Rightarrow> string \<Rightarrow> string \<Rightarrow> string \<Rightarrow> 'a fallible \<Rightarrow> ('a \<Rightarrow> report op) \<Rightarrow> report op" where
  "identity_step rc img reason says m k =
     attempt m (\<lambda>e. identity_degraded rc img reason (says @ '': '' @ err_text e) e) k"

text \<open>The same for a readiness test; a negative answer is \<^verbatim>\<open>NotReady\<close> and progress.\<close>

definition identity_test ::
    "reconciler \<Rightarrow> string \<Rightarrow> string \<Rightarrow> string \<Rightarrow> string \<Rightarrow> (bool \<times> string) fallible \<Rightarrow> report op \<Rightarrow> report op" where
  "identity_test rc img reason says waiting_reason m k =
     identity_step rc img reason says m (\<lambda>(ready, message).
       if \<not> ready then identity_progressing rc img waiting_reason message else k)"

definition identity_issuer :: "reconciler \<Rightarrow> string \<Rightarrow> string \<Rightarrow> report op \<Rightarrow> report op" where
  "identity_issuer rc img issuer k =
     attempt (ensure_issuer_exists (rc_env rc) workload_namespace issuer)
       (\<lambda>e. if is_not_found e
            then identity_degraded rc img ''IssuerNotFound''
              (''cert-manager Issuer '' @ in_ticks (quoted issuer) @ '' was not found in namespace '' @
               quoted workload_namespace @
               ''; create it before creating or reconciling this NetEye resource'') e
            else identity_degraded rc img ''IssuerCheckFailed''
              (''failed to ensure cert-manager Issuer '' @ in_ticks (quoted issuer) @ '' exists in namespace '' @
               quoted workload_namespace @ '': '' @ err_text e) e)
       (\<lambda>_. k)"

definition retire_bootstrap_admin :: "reconciler \<Rightarrow> string \<Rightarrow> report op" where
  "retire_bootstrap_admin rc img =
     attempt (ensure_bootstrap_admin_disabled (rc_env rc) workload_namespace)
       (\<lambda>e. let message = ''Identity service is ready; bootstrap admin disable is pending'' in
          State_Monad.return (service_status_of ServiceReady message img,
            progressing_result identity_component_id ''BootstrapAdminDisablePending'' message (failure_requeue rc)))
       (\<lambda>_. let message = ''Identity service is ready'' in
          State_Monad.return (service_status_of ServiceReady message img,
            ready_result identity_component_id ''Available'' message))"

definition declare_accounts :: "reconciler \<Rightarrow> string \<Rightarrow> report op" where
  "declare_accounts rc img =
     (let env = rc_env rc; ns = workload_namespace in
     identity_step rc img ''EnsureAdminUserFailed'' ''failed to declare the Keycloak internal admin user''
       (ensure_internal_admin_user env ns) (\<lambda>_.
     identity_test rc img ''CheckAdminUserReadinessFailed''
       ''failed to check the Keycloak internal admin user readiness'' ''AdminUserNotReady''
       (is_user_ready env ns internal_admin_resource_name) (
     identity_step rc img ''EnsureRootUserFailed'' ''failed to declare the Keycloak root user''
       (ensure_root_user env ns) (\<lambda>_.
     identity_test rc img ''CheckRootUserReadinessFailed'' ''failed to check the Keycloak root user readiness''
       ''RootUserNotReady'' (is_user_ready env ns root_resource_name) (
     identity_step rc img ''EnsureClientFailed'' ''failed to declare the NetEye Keycloak client''
       (ensure_neteye_client env ns) (\<lambda>_.
     identity_step rc img ''EnsureFirstBrokerLoginFlowFailed''
       ''failed to declare the first-broker-login Keycloak auth flow''
       (ensure_first_broker_login_flow env ns) (\<lambda>_.
     identity_step rc img ''EnsureIdpDiscoveryFlowFailed''
       ''failed to declare the IdP-discovery Keycloak auth flow''
       (ensure_idp_discovery_flow env ns) (\<lambda>_.
     retire_bootstrap_admin rc img))))))))"

definition reconcile_keycloak :: "reconciler \<Rightarrow> neteye \<Rightarrow> string \<Rightarrow> string \<Rightarrow> report op" where
  "reconcile_keycloak rc ne img ca_bundle_img =
     (let env = rc_env rc; ns = workload_namespace; issuer = issuer_ref_for ne in
     identity_issuer rc img issuer (
     identity_test rc img ''EnsureResourcesFailed''
       (''failed to ensure keycloak resources in namespace '' @ quoted ns) ''ResourcesNotReady''
       (ensure_keycloak_resources env ns img ca_bundle_img (ne_identity (ne_spec ne)) ns
          (gw_name (ne_gateway (ne_spec ne))) issuer (owner_reference_for ne)) (
     identity_test rc img ''ReadinessCheckFailed'' ''failed to check keycloak readiness'' ''ServiceNotReady''
       (is_keycloak_ready env ns) (
     identity_step rc img ''EnsureMasterRealmFailed''
       ''failed to declare the master Keycloak realm configuration'' (ensure_master_realm env ns) (\<lambda>_.
     identity_test rc img ''CheckMasterRealmReadinessFailed''
       ''failed to check the master Keycloak realm readiness'' ''MasterRealmNotReady''
       (is_realm_ready env ns master_realm_resource_name) (
     declare_accounts rc img))))))"

section \<open>The telemetry components\<close>

definition phase_text :: "telemetry_phase \<Rightarrow> string" where
  "phase_text phase =
     (case phase of TelReady \<Rightarrow> ''Ready'' | TelProgressing \<Rightarrow> ''Progressing'' | TelDegraded \<Rightarrow> ''Degraded''
      | TelOther s \<Rightarrow> s)"

definition map_telemetry_outcome ::
    "component_id \<Rightarrow> telemetry_outcome \<Rightarrow> duration \<Rightarrow> duration \<Rightarrow> go_err + component_result" where
  "map_telemetry_outcome i out progressing_requeue failing_requeue =
     (case to_phase out of
        TelReady \<Rightarrow> ready_result i (to_reason out) (to_message out)
      | TelProgressing \<Rightarrow> progressing_result i (to_reason out) (to_message out) progressing_requeue
      | TelDegraded \<Rightarrow> degraded_result i (to_reason out) (to_message out) failing_requeue (to_err out)
      | TelOther s \<Rightarrow>
          Inl (Msg (''component '' @ quoted i @ '' returned invalid telemetry phase '' @ quoted (phase_text (to_phase out)))))"

text \<open>What both operations do when the feature module is off, and with an outcome when it is on.\<close>

definition disabled_report ::
    "reconciler \<Rightarrow> component_id \<Rightarrow> string \<Rightarrow> string \<Rightarrow> unit fallible \<Rightarrow> report op" where
  "disabled_report rc i title img cleanup =
     attempt cleanup
       (\<lambda>e. let message = ''failed to clean up '' @ title @ '' resources: '' @ err_text e in
          State_Monad.return (service_status_of ServiceFailed message img,
            degraded_result i ''CleanupFailed'' message (failure_requeue rc) (Some e)))
       (\<lambda>_. let message = title @ '' is disabled'' in
          State_Monad.return (service_status_of ServiceDisabled message img, ready_result i ''Disabled'' message))"

definition outcome_report :: "reconciler \<Rightarrow> component_id \<Rightarrow> string \<Rightarrow> telemetry_outcome op \<Rightarrow> report op" where
  "outcome_report rc i img m =
     State_Monad.bind m (\<lambda>out.
     State_Monad.return (service_status_of (phase_to_service_state (to_phase out)) (to_message out) img,
       map_telemetry_outcome i out (wait_requeue rc) (failure_requeue rc)))"

definition enabled_elastic_stack :: "neteye \<Rightarrow> elastic_stack_spec option" where
  "enabled_elastic_stack ne =
     (case ne_elastic_stack (ne_spec ne) of None \<Rightarrow> None | Some es \<Rightarrow> if es_enabled es then Some es else None)"

definition reconcile_otel_collector :: "reconciler \<Rightarrow> neteye \<Rightarrow> string \<Rightarrow> string \<Rightarrow> report op" where
  "reconcile_otel_collector rc ne img ca_bundle_img =
     (case enabled_elastic_stack ne of
        None \<Rightarrow> disabled_report rc otel_collector_component_id ''OpenTelemetry Collector'' img
                  (delete_otel_collector (rc_env rc) workload_namespace (owner_reference_for ne))
      | Some es \<Rightarrow> outcome_report rc otel_collector_component_id img
          (ensure_otel_collector (rc_env rc) (rc_lib rc) (rc_iteration rc) workload_namespace
             (case es_telemetry es of None \<Rightarrow> None | Some t \<Rightarrow> tel_otel_collector t)
             (es_endpoints es) (id_hostname (ne_identity (ne_spec ne))) workload_namespace
             (gw_name (ne_gateway (ne_spec ne))) img ca_bundle_img (issuer_ref_for ne) (owner_reference_for ne)))"

definition reconcile_edot_gateway :: "reconciler \<Rightarrow> neteye \<Rightarrow> string \<Rightarrow> string \<Rightarrow> report op" where
  "reconcile_edot_gateway rc ne img ca_bundle_img =
     (case enabled_elastic_stack ne of
        None \<Rightarrow> disabled_report rc edot_gateway_component_id ''EDOT Gateway'' img
                  (delete_edot_gateway (rc_env rc) workload_namespace (owner_reference_for ne))
      | Some es \<Rightarrow> outcome_report rc edot_gateway_component_id img
          (ensure_edot_gateway (rc_env rc) (rc_lib rc) (rc_iteration rc) workload_namespace
             (case es_telemetry es of None \<Rightarrow> None | Some t \<Rightarrow> tel_edot_gateway t)
             (es_endpoints es) img ca_bundle_img (kc_identity_telemetry_enabled (ne_identity (ne_spec ne)))
             (owner_reference_for ne)))"

section \<open>A pass of the controller\<close>

text \<open>The state of a pass: the operator's, and the status being built.\<close>

type_synonym pass_state = "op_state \<times> neteye_status"
type_synonym 'a pass = "(pass_state, 'a) state"

definition in_op :: "'a op \<Rightarrow> 'a pass" where
  "in_op m = State (\<lambda>(s, st). case run_state m s of (x, s') \<Rightarrow> (x, (s', st)))"

definition change_status :: "(neteye_status \<Rightarrow> neteye_status) \<Rightarrow> unit pass" where
  "change_status f = State (\<lambda>(s, st). ((), (s, f st)))"

definition read_status :: "neteye_status pass" where
  "read_status = State (\<lambda>(s, st). (st, (s, st)))"

definition reporting :: "(service_status \<Rightarrow> neteye_status \<Rightarrow> neteye_status) \<Rightarrow> report op \<Rightarrow> pass_state component_operation" where
  "reporting set_service m =
     State_Monad.bind (in_op m) (\<lambda>(service, result).
     State_Monad.bind (change_status (set_service service)) (\<lambda>_. State_Monad.return result))"

text \<open>\<^verbatim>\<open>ctrl.Result\<close> is its requeue delay.\<close>

type_synonym outcome = "duration \<times> go_err option"

definition fail_pass :: "reconciler \<Rightarrow> string \<Rightarrow> go_err option \<Rightarrow> outcome pass" where
  "fail_pass rc message err =
     State_Monad.bind (change_status (set_phase PhaseFailed message)) (\<lambda>_.
     State_Monad.return (failure_requeue rc, err))"

definition try_pass :: "'a fallible \<Rightarrow> (go_err \<Rightarrow> 'b pass) \<Rightarrow> ('a \<Rightarrow> 'b pass) \<Rightarrow> 'b pass" where
  "try_pass m handle k = State_Monad.bind (in_op m) (\<lambda>r. case r of Inl e \<Rightarrow> handle e | Inr x \<Rightarrow> k x)"

definition reconcile_base_resources :: "reconciler \<Rightarrow> neteye \<Rightarrow> outcome pass" where
  "reconcile_base_resources rc ne =
     (let env = rc_env rc; ns = workload_namespace; issuer = issuer_ref_for ne; owner = owner_reference_for ne;
          gateway = ne_gateway (ne_spec ne) in
     try_pass (ensure_issuer_exists env ns issuer)
       (\<lambda>e. if is_not_found e
            then fail_pass rc (''cert-manager Issuer '' @ in_ticks (quoted issuer) @ '' was not found in namespace ''
                   @ quoted ns @ ''; create it before creating or reconciling this NetEye resource'') None
            else fail_pass rc (''failed to ensure cert-manager Issuer '' @ in_ticks (quoted issuer) @
                   '' exists in namespace '' @ quoted ns @ '': '' @ err_text e) (Some (Wrap ''ensure issuer exists'' e))) (\<lambda>_.
     try_pass (ensure_gateway env ns (gw_name gateway) (gw_class_name gateway) (gw_annotations gateway)
                 (gateway_listeners ne) owner)
       (\<lambda>e. fail_pass rc (''failed to ensure gateway '' @ in_ticks (quoted (gw_name gateway)) @
              '' exists in namespace '' @ quoted ns @ '': '' @ err_text e) (Some (Wrap ''ensure gateway'' e))) (\<lambda>_.
     try_pass (ensure_redirect_route env ns (gw_name gateway) owner)
       (\<lambda>e. fail_pass rc (''failed to ensure HTTP to HTTPS redirect route exists for gateway '' @
              in_ticks (quoted (gw_name gateway)) @ '' in namespace '' @ quoted ns @ '': '' @ err_text e)
              (Some (Wrap ''ensure HTTP to HTTPS redirect route'' e))) (\<lambda>_.
     State_Monad.return (0, None)))))"

definition should_return :: "outcome \<Rightarrow> bool" where
  "should_return res \<longleftrightarrow> snd res \<noteq> None \<or> fst res \<noteq> 0"

definition component_nodes :: "lifecycle_node list" where
  "component_nodes =
     [\<lparr>ln_id = identity_component_id, ln_deps = []\<rparr>, \<lparr>ln_id = otel_collector_component_id, ln_deps = []\<rparr>,
      \<lparr>ln_id = edot_gateway_component_id, ln_deps = []\<rparr>]"

definition component_operations ::
    "reconciler \<Rightarrow> neteye \<Rightarrow> neteye_components \<Rightarrow> (component_id \<times> pass_state component_operation option) list" where
  "component_operations rc ne images =
     [(identity_component_id,
         Some (reporting set_identity (reconcile_keycloak rc ne (keycloak_image images) (ca_bundle_image images)))),
      (otel_collector_component_id,
         Some (reporting set_otel_collector
           (reconcile_otel_collector rc ne (otel_collector_image images) (ca_bundle_image images)))),
      (edot_gateway_component_id,
         Some (reporting set_edot_gateway
           (reconcile_edot_gateway rc ne (edot_gateway_image images) (ca_bundle_image images))))]"

definition aggregate_elastic_stack :: "neteye_status \<Rightarrow> neteye_status" where
  "aggregate_elastic_stack =
     update_elastic_stack (\<lambda>es.
       let (state, message) = aggregate_elastic_stack_status (est_otel_collector es) (est_edot_gateway es)
       in es\<lparr>est_status := state, est_message := message\<rparr>)"

definition report_components ::
    "reconciler \<Rightarrow> (component_id \<times> component_result) list \<Rightarrow> outcome pass" where
  "report_components rc results =
     State_Monad.bind (change_status aggregate_elastic_stack) (\<lambda>_.
     let (phase, message) = aggregate_component_phase results;
         requeue = earliest_component_requeue results in
     State_Monad.bind (change_status (set_phase phase message)) (\<lambda>_.
     State_Monad.return (if requeue = 0 then reconciliation_requeue rc else requeue, None)))"

definition reconcile_components :: "reconciler \<Rightarrow> neteye \<Rightarrow> neteye_components \<Rightarrow> outcome pass" where
  "reconcile_components rc ne images =
     (case new_lifecycle_graph component_nodes of
        Inl e \<Rightarrow> State_Monad.bind (change_status (set_phase PhaseFailed check_services)) (\<lambda>_.
                 State_Monad.return (0, Some (Wrap ''construct component lifecycle graph'' e)))
      | Inr graph \<Rightarrow>
          State_Monad.bind (run_component_operations graph (component_operations rc ne images)) (\<lambda>res.
          case res of
            Inl e \<Rightarrow> State_Monad.bind (change_status (set_phase PhaseFailed check_services)) (\<lambda>_.
                     State_Monad.return (0, Some e))
          | Inr results \<Rightarrow> report_components rc results))"

definition establish_authority :: "reconciler \<Rightarrow> neteye \<Rightarrow> outcome pass \<Rightarrow> outcome pass" where
  "establish_authority rc ne k =
     try_pass (ensure_cluster_authority (rc_env rc) ne)
       (\<lambda>e. fail_pass rc (err_text e) (Some (Wrap ''ensure NetEye cluster authority'' e))) (\<lambda>_. k)"

definition reconcile_platform :: "reconciler \<Rightarrow> neteye \<Rightarrow> neteye_components \<Rightarrow> outcome pass" where
  "reconcile_platform rc ne images =
     State_Monad.bind (reconcile_base_resources rc ne) (\<lambda>res.
     if should_return res then State_Monad.return res
     else try_pass (ensure_default_deny (rc_env rc) workload_namespace (owner_reference_for ne))
            (\<lambda>e. fail_pass rc check_services (Some (Wrap ''ensure shared default-deny network policy'' e))) (\<lambda>_.
          reconcile_components rc ne images))"

definition versions_text :: "string list \<Rightarrow> string" where
  "versions_text versions = ''['' @ join_string versions '' '' @ '']''"

definition pause_for_upgrade :: "reconciler \<Rightarrow> string \<Rightarrow> outcome pass" where
  "pause_for_upgrade rc version =
     State_Monad.bind (change_status (set_phase PhasePendingUpgrades
       (''NetEye version '' @ in_ticks version @ '' is not the latest; consider upgrading to '' @
        in_ticks current_neteye_version @ ''. Reconciliation will be paused until the upgrade is performed.''))) (\<lambda>_.
     State_Monad.return (failure_requeue rc, None))"

definition reconcile_spec :: "reconciler \<Rightarrow> neteye \<Rightarrow> outcome pass" where
  "reconcile_spec rc ne =
     (let version = ne_version (ne_spec ne) in
      if \<not> is_latest_version version \<and> is_previous_version version then pause_for_upgrade rc version
      else if \<not> is_latest_version version
      then fail_pass rc (''NetEye version '' @ in_ticks version @ '' is not the latest. Latest version is '' @
             in_ticks current_neteye_version @
             ''. Reconciliation will be paused until the mismatch has been resolved.'') None
      else (case components_for_version (rc_getenv rc) version of
        None \<Rightarrow> fail_pass rc (''unsupported NetEye version '' @ in_ticks version @ ''; supported versions are: '' @
                  versions_text supported_versions) None
      | Some images \<Rightarrow>
          if \<not> rc_has_keycloak rc
          then fail_pass rc ''keycloak component is not initialized''
                 (Some (Msg ''keycloak component is not initialized''))
          else if \<not> rc_has_otel_collector rc \<or> \<not> rc_has_edot_gateway rc
          then fail_pass rc ''telemetry components are not initialized''
                 (Some (Msg ''telemetry components are not initialized''))
          else establish_authority rc ne (reconcile_platform rc ne images)))"

definition with_neteye_status :: "neteye_status \<Rightarrow> k8s_object \<Rightarrow> k8s_object" where
  "with_neteye_status st ob =
     (case ob_content ob of NetEyeContent spec old \<Rightarrow> ob\<lparr>ob_content := NetEyeContent spec st\<rparr> | _ \<Rightarrow> ob)"

definition update_neteye_status :: "env \<Rightarrow> string \<Rightarrow> string \<Rightarrow> neteye_status \<Rightarrow> unit fallible" where
  "update_neteye_status env ns name st =
     retry_on_conflict (env_retries env)
       (attempt (k8s_get env neteye_gvk ns name)
          (\<lambda>e. if is_not_found e then ok () else fail e)
          (\<lambda>current. ignore_not_found (k8s_update_status env (with_neteye_status st current))))"

definition run_pass :: "neteye_status \<Rightarrow> 'a pass \<Rightarrow> ('a \<times> neteye_status) op" where
  "run_pass st m = State (\<lambda>s. case run_state m (s, st) of (x, (s', st')) \<Rightarrow> ((x, st'), s'))"

text \<open>\<^verbatim>\<open>errors.Join\<close> drops nil errors.\<close>

definition join_error :: "go_err option \<Rightarrow> go_err \<Rightarrow> go_err" where
  "join_error err e = (case err of None \<Rightarrow> e | Some f \<Rightarrow> Joined f e)"

definition report_status :: "reconciler \<Rightarrow> string \<Rightarrow> string \<Rightarrow> outcome \<times> neteye_status \<Rightarrow> outcome op" where
  "report_status rc ns name done_pass =
     (let ((requeue, err), st) = done_pass in
     attempt (update_neteye_status (rc_env rc) ns name st)
       (\<lambda>e. State_Monad.return (requeue, Some (join_error err (Wrap ''update NetEye status'' e))))
       (\<lambda>_. State_Monad.return (requeue, err)))"

definition reconcile_neteye :: "reconciler \<Rightarrow> string \<Rightarrow> string \<Rightarrow> outcome op" where
  "reconcile_neteye rc ns name =
     attempt (k8s_get (rc_env rc) neteye_gvk ns name)
       (\<lambda>e. if is_not_found e
            then (if rc_has_admin_providers rc
                  then State_Monad.bind (forget_provider ns) (\<lambda>_. State_Monad.return (0, None))
                  else State_Monad.return (0, None))
            else State_Monad.return (0, Some e))
       (\<lambda>ob. State_Monad.bind (run_pass (reset_status (neteye_of ob)) (reconcile_spec rc (neteye_of ob)))
              (report_status rc ns name))"

section \<open>The phase of a NetEye\<close>

lemma scan_component_phase_eq:
  "scan_component_phase p rs =
     (if list_ex (\<lambda>r. cr_state r = StateDegraded) rs then (PhaseFailed, check_services)
      else if p \<or> list_ex (\<lambda>r. cr_state r = StateProgressing \<or> cr_state r = StateBlocked) rs
      then (PhaseNotReady, check_services)
      else (PhaseReady, ''All components are ready''))"
  by (induction p rs rule: scan_component_phase.induct) (auto split: component_state.split)

definition positive_requeues :: "component_result list \<Rightarrow> duration set" where
  "positive_requeues rs = {d \<in> cr_requeue_after ` set rs. 0 < d}"

lemma positive_requeues_simps [simp]:
  "positive_requeues [] = {}"
  "positive_requeues (r # rs) = (if 0 < cr_requeue_after r then {cr_requeue_after r} else {}) \<union> positive_requeues rs"
  "finite (positive_requeues rs)"
  by (auto simp: positive_requeues_def)

lemma earlier_requeue_fold:
  assumes "0 \<le> d" and "e = fold earlier_requeue rs d"
  shows "0 \<le> e \<and> (e = d \<or> e \<in> positive_requeues rs) \<and> (0 < d \<longrightarrow> 0 < e \<and> e \<le> d) \<and>
    (\<forall>w \<in> positive_requeues rs. 0 < e \<and> e \<le> w)"
  using assms
proof (induction rs arbitrary: d)
  case (Cons r rs)
  have "0 \<le> earlier_requeue r d" using Cons.prems by (simp add: earlier_requeue_def)
  from Cons.IH [OF this] Cons.prems show ?case by (auto simp: earlier_requeue_def split: if_splits)
qed simp

lemma earliest_requeue_eq:
  "earliest_component_requeue results =
     (let waits = positive_requeues (map snd results) in if waits = {} then 0 else Min waits)"
proof -
  let ?e = "earliest_component_requeue results" and ?w = "positive_requeues (map snd results)"
  have fact: "0 \<le> ?e \<and> (?e = 0 \<or> ?e \<in> ?w) \<and> (\<forall>w \<in> ?w. 0 < ?e \<and> ?e \<le> w)"
    using earlier_requeue_fold [of 0 ?e "map snd results"] by (simp add: earliest_component_requeue_def)
  show ?thesis
  proof (cases "?w = {}")
    case False
    then have "?e = Min ?w" using fact by (intro Min_eqI [symmetric]) auto
    with False show ?thesis by simp
  qed (use fact in auto)
qed

text \<open>
  The phase and the delay of a pass follow from the component results alone, whatever the
  order in which the map of results is walked: Failed exactly when a component is degraded,
  else NotReady exactly when one progresses or is blocked, else Ready; and the delay is the
  least positive one asked for, or zero when none is.
\<close>

theorem component_results_aggregated:
  "aggregate_component_phase results =
     (if \<exists>r \<in> snd ` set results. cr_state r = StateDegraded then (PhaseFailed, check_services)
      else if \<exists>r \<in> snd ` set results. cr_state r = StateProgressing \<or> cr_state r = StateBlocked
      then (PhaseNotReady, check_services) else (PhaseReady, ''All components are ready'')) \<and>
   earliest_component_requeue results =
     (let waits = {d \<in> cr_requeue_after ` snd ` set results. 0 < d} in if waits = {} then 0 else Min waits)"
  unfolding earliest_requeue_eq aggregate_component_phase_def scan_component_phase_eq
  by (simp add: positive_requeues_def list_ex_iff)

section \<open>The operations honour their contract\<close>

definition valid_report :: "component_id \<Rightarrow> report \<Rightarrow> bool" where
  "valid_report i rep \<longleftrightarrow> (\<exists>r. snd rep = Inr r \<and> validate_operation_result i r = None)"

lemma component_ids_named [simp]:
  "identity_component_id \<noteq> []" "otel_collector_component_id \<noteq> []" "edot_gateway_component_id \<noteq> []"
  by (simp_all add: identity_component_id_def otel_collector_component_id_def edot_gateway_component_id_def)

lemma valid_reports:
  "i \<noteq> [] \<Longrightarrow> valid_report i (st, ready_result i reason m)"
  "i \<noteq> [] \<Longrightarrow> 0 \<le> d \<Longrightarrow> valid_report i (st, progressing_result i reason m d)"
  "i \<noteq> [] \<Longrightarrow> 0 \<le> d \<Longrightarrow> valid_report i (st, degraded_result i reason m d (Some e))"
  by (simp_all add: valid_report_def ready_result_def progressing_result_def degraded_result_def
      validate_component_id_def validate_operation_result_def)

lemmas requeue_nonneg = order_less_imp_le [OF requeue_positive(1)] order_less_imp_le [OF requeue_positive(2)]

lemmas identity_def =
  reconcile_keycloak_def identity_issuer_def identity_test_def identity_step_def identity_degraded_def
  identity_progressing_def declare_accounts_def retire_bootstrap_admin_def

lemma returns_reconcile_keycloak: "returns (valid_report identity_component_id) (reconcile_keycloak rc ne img ca)"
  unfolding identity_def Let_def
  by (intro returns_intros valid_reports; simp add: requeue_nonneg split: prod.split)

lemma returns_disabled_report: "i \<noteq> [] \<Longrightarrow> returns (valid_report i) (disabled_report rc i title img cleanup)"
  unfolding disabled_report_def Let_def
  by (intro returns_intros valid_reports; simp add: requeue_nonneg)

lemma valid_outcome:
  "i \<noteq> [] \<Longrightarrow> wf_outcome out \<Longrightarrow>
     valid_report i (st, map_telemetry_outcome i out (wait_requeue rc) (failure_requeue rc))"
  by (cases "to_phase out")
    (auto simp: map_telemetry_outcome_def wf_outcome_def valid_reports requeue_nonneg)

lemma returns_outcome_report:
  assumes "i \<noteq> []" and "returns wf_outcome m"
  shows "returns (valid_report i) (outcome_report rc i img m)"
  using assms(2) valid_outcome [OF assms(1)]
  by (auto simp: returns_def outcome_report_def run_state_bind split: prod.split) (metis fst_conv)

lemma returns_telemetry:
  "returns (valid_report otel_collector_component_id) (reconcile_otel_collector rc ne img ca)"
  "returns (valid_report edot_gateway_component_id) (reconcile_edot_gateway rc ne img ca)"
  unfolding reconcile_otel_collector_def reconcile_edot_gateway_def
  by (intro returns_case_option returns_disabled_report returns_outcome_report ensure_otel_collector_wf
      ensure_edot_gateway_wf component_ids_named)+

lemma run_in_op [simp]:
  "run_state (in_op m) ss = (fst (run_state m (fst ss)), (snd (run_state m (fst ss)), snd ss))"
  by (cases ss) (simp add: in_op_def split: prod.split)

lemma run_change_status [simp]: "run_state (change_status f) ss = ((), (fst ss, f (snd ss)))"
  by (cases ss) (simp add: change_status_def)

lemma run_reporting:
  "run_state (reporting set_service m) (s, st) =
     (case run_state m s of ((service, result), s') \<Rightarrow> (result, (s', set_service service st)))"
  by (simp add: reporting_def run_state_bind split: prod.split)

lemma reporting_operation:
  assumes "returns (valid_report i) m"
  shows "component_operation (reporting set_service m) i"
proof
  fix ss :: pass_state
  obtain s st where ss: "ss = (s, st)" by force
  obtain service result s' where run: "run_state m s = ((service, result), s')" by (metis surj_pair)
  from returnsD [OF assms run] obtain r where "result = Inr r" "validate_operation_result i r = None"
    by (auto simp: valid_report_def)
  with run ss show "\<exists>r s'. run_state (reporting set_service m) ss = (Inr r, s') \<and> validate_operation_result i r = None"
    by (simp add: run_reporting)
qed

interpretation identity_operation: component_operation
    "reporting set_identity (reconcile_keycloak rc ne img ca)" identity_component_id
  by (rule reporting_operation [OF returns_reconcile_keycloak])

interpretation collector_operation: component_operation
    "reporting set_otel_collector (reconcile_otel_collector rc ne img ca)" otel_collector_component_id
  by (rule reporting_operation [OF returns_telemetry(1)])

interpretation gateway_operation: component_operation
    "reporting set_edot_gateway (reconcile_edot_gateway rc ne img ca)" edot_gateway_component_id
  by (rule reporting_operation [OF returns_telemetry(2)])

definition component_graph :: lifecycle_graph where
  "component_graph =
     \<lparr>lg_nodes = map (\<lambda>n. (ln_id n, n)) component_nodes,
      lg_order = [edot_gateway_component_id, identity_component_id, otel_collector_component_id]\<rparr>"

lemma component_graph_built: "new_lifecycle_graph component_nodes = Inr component_graph"
  by code_simp

text \<open>No dependency, so nothing is blocked: every pass runs all three operations.\<close>

lemma component_order:
  "ordered_nodes component_graph =
     map (\<lambda>i. \<lparr>ln_id = i, ln_deps = []\<rparr>) [edot_gateway_component_id, identity_component_id, otel_collector_component_id]"
  by code_simp

lemma component_ids_distinct [simp]:
  "identity_component_id \<noteq> otel_collector_component_id" "identity_component_id \<noteq> edot_gateway_component_id"
  "otel_collector_component_id \<noteq> identity_component_id" "otel_collector_component_id \<noteq> edot_gateway_component_id"
  "edot_gateway_component_id \<noteq> identity_component_id" "edot_gateway_component_id \<noteq> otel_collector_component_id"
  by (simp_all add: identity_component_id_def otel_collector_component_id_def edot_gateway_component_id_def)

lemma run_components_total:
  "\<exists>results ss'. run_state (run_component_operations component_graph (component_operations rc ne images)) ss
     = (Inr results, ss')"
proof -
  have "\<exists>out s'. run_state (run_nodes (component_operations rc ne images) (ordered_nodes component_graph) []) ss
      = (Inr out, s')"
    by (rule run_nodes_total)
      (simp add: component_order component_operations_def identity_operation.component_operation_axioms
        collector_operation.component_operation_axioms gateway_operation.component_operation_axioms)
  moreover have "length (component_operations rc ne images) = length (lg_nodes component_graph)"
    by (simp add: component_operations_def component_graph_def component_nodes_def)
  moreover have "first_error
      (\<lambda>(i, operation).
         if map_of (lg_nodes component_graph) i = None \<or> operation = None
         then Some (Msg (''component operation '' @ quoted i @ '' does not match lifecycle graph''))
         else None) (component_operations rc ne images) = None"
    by (simp add: component_operations_def component_graph_def component_nodes_def)
  ultimately show ?thesis by (simp add: run_component_operations_def)
qed

section \<open>A pass comes back\<close>

lemma earliest_requeue_nonneg: "0 \<le> earliest_component_requeue results"
  using earlier_requeue_fold [of 0 _ "map snd results"] by (simp add: earliest_component_requeue_def)

lemma run_fail_pass [simp]:
  "run_state (fail_pass rc message err) ss = ((failure_requeue rc, err), (fst ss, set_phase PhaseFailed message (snd ss)))"
  by (simp add: fail_pass_def run_state_bind)

lemma run_try_pass:
  "run_state (try_pass m h k) ss =
     (case run_state m (fst ss) of (r, s') \<Rightarrow>
        (case r of Inl e \<Rightarrow> run_state (h e) (s', snd ss) | Inr x \<Rightarrow> run_state (k x) (s', snd ss)))"
  by (simp add: try_pass_def run_state_bind split: prod.split sum.split)

definition comes_back :: "outcome pass \<Rightarrow> bool" where
  "comes_back m \<longleftrightarrow> (\<forall>ss. 0 < fst (fst (run_state m ss)))"

lemma comes_back_fail [simp]: "comes_back (fail_pass rc message err)"
  by (simp add: comes_back_def)

lemma comes_back_try:
  "(\<And>e. comes_back (h e)) \<Longrightarrow> (\<And>x. comes_back (k x)) \<Longrightarrow> comes_back (try_pass m h k)"
  by (simp add: comes_back_def run_try_pass split: prod.split sum.split)

lemma comes_back_components: "comes_back (reconcile_components rc ne images)"
  unfolding comes_back_def
proof
  fix ss
  obtain results ss' where run: "run_state (run_component_operations component_graph
      (component_operations rc ne images)) ss = (Inr results, ss')" using run_components_total by blast
  have "0 < fst (fst (run_state (report_components rc results) ss'))"
    using earliest_requeue_nonneg [of results]
    by (simp add: report_components_def run_state_bind Let_def split: prod.split)
  then show "0 < fst (fst (run_state (reconcile_components rc ne images) ss))"
    by (simp add: reconcile_components_def component_graph_built run_state_bind run)
qed

text \<open>The base resources either let the pass go on or decide it with a positive delay.\<close>

lemma base_resources_result:
  "run_state (reconcile_base_resources rc ne) ss = ((d, err), ss') \<Longrightarrow> 0 < d \<or> (d = 0 \<and> err = None)"
  by (auto simp: reconcile_base_resources_def Let_def run_try_pass split: prod.splits sum.splits if_splits)

lemma comes_back_platform: "comes_back (reconcile_platform rc ne images)"
  unfolding comes_back_def
proof
  fix ss
  obtain d err ss' where run: "run_state (reconcile_base_resources rc ne) ss = ((d, err), ss')"
    by (metis surj_pair)
  have "comes_back (try_pass (ensure_default_deny (rc_env rc) workload_namespace (owner_reference_for ne))
      (\<lambda>e. fail_pass rc check_services (Some (Wrap ''ensure shared default-deny network policy'' e)))
      (\<lambda>_. reconcile_components rc ne images))"
    by (intro comes_back_try comes_back_fail comes_back_components)
  then show "0 < fst (fst (run_state (reconcile_platform rc ne images) ss))"
    using run base_resources_result [OF run]
    by (cases ss') (auto simp: reconcile_platform_def run_state_bind should_return_def comes_back_def)
qed

lemma comes_back_spec: "comes_back (reconcile_spec rc ne)"
proof -
  have "comes_back (pause_for_upgrade rc v)" for v
    by (simp add: comes_back_def pause_for_upgrade_def run_state_bind)
  then show ?thesis
    unfolding reconcile_spec_def establish_authority_def Let_def
    by (auto intro!: comes_back_try comes_back_platform split: option.split)
qed

lemma pass_comes_back:
  assumes "env_get (rc_env rc) (st_trace s) neteye_gvk ns name = Inr ob"
  shows "\<exists>requeue err s'. run_state (reconcile_neteye rc ns name) s = ((requeue, err), s') \<and> 0 < requeue"
proof -
  let ?s = "record_call (K8sGet neteye_gvk ns name) s"
  obtain d err s1 st where run: "run_state (reconcile_spec rc (neteye_of ob)) (?s, reset_status (neteye_of ob))
      = ((d, err), (s1, st))" by (metis surj_pair)
  have "0 < d" using comes_back_spec [of rc "neteye_of ob"] run unfolding comes_back_def by (metis fst_conv)
  then have "0 < fst (fst (run_state (reconcile_neteye rc ns name) s))"
    using assms run
    by (simp add: reconcile_neteye_def k8s_get_def run_state_bind run_pass_def report_status_def
        split: prod.split sum.split)
  then show ?thesis by (metis prod.collapse)
qed

text \<open>
  C8. A NetEye that exists is always looked at again: whatever happens in a pass (an old
  version, a missing component, a lost authority, a failing API server, degraded components
  or a status that cannot be written), it ends with a positive delay until the next one.
  In particular the lifecycle runner never refuses the three component operations.
\<close>

theorem every_pass_comes_back:
  assumes "env_get (rc_env rc) (st_trace s) neteye_gvk ns name = Inr ob"
  shows "\<exists>requeue err s'. run_state (reconcile_neteye rc ns name) s = ((requeue, err), s') \<and> 0 < requeue"
  using assms by (rule pass_comes_back)

section \<open>What a ready identity service was seen to be\<close>

fun creates_account :: "call \<Rightarrow> bool" where
  "creates_account (K8sCreate ob) = (ob_gvk ob = keycloak_user_gvk)"
| "creates_account c = False"

abbreviation no_account :: "trace \<Rightarrow> trace \<Rightarrow> bool" where
  "no_account \<equiv> only_since (\<lambda>c. \<not> creates_account c)"

definition realm_seen :: "env \<Rightarrow> trace \<Rightarrow> trace \<Rightarrow> bool" where
  "realm_seen env t0 t \<longleftrightarrow>
     seen_since env t0 keycloak_realm_gvk workload_namespace master_realm_resource_name realm_current t"

definition account_seen :: "env \<Rightarrow> trace \<Rightarrow> string \<Rightarrow> trace \<Rightarrow> bool" where
  "account_seen env t0 name t \<longleftrightarrow>
     seen_since env t0 keycloak_user_gvk workload_namespace name user_current t"

definition platform_seen :: "env \<Rightarrow> trace \<Rightarrow> trace \<Rightarrow> bool" where
  "platform_seen env t0 t \<longleftrightarrow>
     identity_seen env t0 workload_namespace t \<and> realm_seen env t0 t \<and>
     account_seen env t0 internal_admin_resource_name t \<and> account_seen env t0 root_resource_name t"

lemma platform_seen_append:
  "identity_seen env t0 ns t \<Longrightarrow> identity_seen env t0 ns (t @ new)"
  "realm_seen env t0 t \<Longrightarrow> realm_seen env t0 (t @ new)"
  "account_seen env t0 name t \<Longrightarrow> account_seen env t0 name (t @ new)"
  by (simp_all add: identity_seen_def realm_seen_def account_seen_def seen_since_append)

text \<open>The postcondition of the operation, and the rules of its two kinds of steps.\<close>

definition identity_post :: "env \<Rightarrow> trace \<Rightarrow> report \<Rightarrow> trace \<Rightarrow> bool" where
  "identity_post env t0 rep t \<longleftrightarrow>
     (no_account t0 t \<or> realm_seen env t0 t) \<and>
     (ss_status (fst rep) = ServiceReady \<longrightarrow> platform_seen env t0 t)"

definition settled_step :: "env \<Rightarrow> trace \<Rightarrow> (trace \<Rightarrow> bool) \<Rightarrow> bool" where
  "settled_step env t0 P \<longleftrightarrow> (\<forall>t. P t \<longrightarrow> (\<exists>new. t = t0 @ new) \<and> (no_account t0 t \<or> realm_seen env t0 t))"

lemma triple_identity_step:
  assumes "triple P m (\<lambda>r. P)" and "settled_step env t0 P" and "\<And>x. triple P (k x) (identity_post env t0)"
  shows "triple P (identity_step rc img reason says m k) (identity_post env t0)"
  unfolding identity_step_def identity_degraded_def
  by (rule triple_attempt [OF assms(1)])
    (use assms(2,3) in \<open>auto intro!: triple_return simp: identity_post_def settled_step_def service_status_of_def\<close>)

lemma triple_identity_test:
  assumes "triple P m (\<lambda>r t. P' t \<and> (\<forall>msg. r = Inr (True, msg) \<longrightarrow> G t))" and "settled_step env t0 P'"
    and "triple (\<lambda>t. P' t \<and> G t) k (identity_post env t0)"
  shows "triple P (identity_test rc img reason says wreason m k) (identity_post env t0)"
  unfolding identity_test_def identity_step_def identity_degraded_def identity_progressing_def
  apply (rule triple_attempt [OF assms(1)])
  subgoal using assms(2) by (auto intro!: triple_return simp: identity_post_def settled_step_def service_status_of_def)
  subgoal for x
    using assms(2) triple_mono [OF assms(3)]
    by (cases x) (auto intro!: triple_return simp: identity_post_def settled_step_def service_status_of_def)
  done

text \<open>Which steps declare no account: everything up to the realm.\<close>

lemma emits_apply_no_account:
  "od_gvk obj \<noteq> keycloak_user_gvk \<Longrightarrow> emits (\<lambda>c. \<not> creates_account c) (apply_only env obj)"
proof -
  assume kind: "od_gvk obj \<noteq> keycloak_user_gvk"
  have "apply_call obj c \<Longrightarrow> \<not> creates_account c" for c
    using kind by (cases c) (auto simp: created_object_def desired_object_def set_owners_def Let_def split: option.splits)
  then show ?thesis unfolding apply_only_def by (intro emits_intros emits_mono [OF emits_apply_object])
qed

lemmas account_kinds = kc_kinds keycloak_user_gvk_def keycloak_realm_gvk_def neteye_group_def neteye_version_def

lemma emits_resources_no_account:
  "emits (\<lambda>c. \<not> creates_account c) (ensure_keycloak_resources env ns img ca identity gns gw issuer owner)"
  unfolding ensure_keycloak_resources_def ensure_keycloak_route_def ensure_certificate_def
    ensure_kc_egress_policy_def ensure_kc_ingress_policy_def ensure_kc_host_policy_def
    ensure_keycloak_instance_def ensure_http_route_def ensure_http_route_spec_def
  by (intro emits_intros emits_apply_no_account certificate_test.emits_test keycloak_test.emits_test;
      simp add: account_kinds)

lemma emits_realm_no_account: "emits (\<lambda>c. \<not> creates_account c) (ensure_master_realm env ns)"
  by (rule emits_mono [OF realm_declared.calls])
    (auto simp: reads_or_creates_def realm_resource_def keycloak_realm_gvk_def keycloak_user_gvk_def)

lemma triple_accounts:
  "triple (\<lambda>t. (\<exists>new. t = t0 @ new) \<and> identity_seen env t0 workload_namespace t \<and> realm_seen env t0 t)
     (declare_accounts rc img) (identity_post env t0)" if "env = rc_env rc"
proof -
  let ?P2 = "\<lambda>t. (\<exists>new. t = t0 @ new) \<and> identity_seen env t0 workload_namespace t \<and> realm_seen env t0 t"
  let ?P3 = "\<lambda>t. ?P2 t \<and> account_seen env t0 internal_admin_resource_name t"
  let ?P4 = "\<lambda>t. ?P3 t \<and> account_seen env t0 root_resource_name t"
  have steady: "triple ?P2 m (\<lambda>r. ?P2)" "triple ?P3 m (\<lambda>r. ?P3)" "triple ?P4 m (\<lambda>r. ?P4)"
    if "emits (\<lambda>c. True) m" for m :: "'x op"
    using that by (rule triple_calls; auto intro: platform_seen_append)+
  have any: "emits (\<lambda>c. True) m" if "emits C m" for C and m :: "'x op"
    using that by (rule emits_mono) simp
  have fine: "settled_step env t0 ?P2" "settled_step env t0 ?P3" "settled_step env t0 ?P4"
    by (auto simp: settled_step_def)
  have tests: "triple ?P2 (is_user_ready env workload_namespace internal_admin_resource_name)
        (\<lambda>r t. ?P2 t \<and> (\<forall>m. r = Inr (True, m) \<longrightarrow> account_seen env t0 internal_admin_resource_name t))"
      "triple ?P3 (is_user_ready env workload_namespace root_resource_name)
        (\<lambda>r t. ?P3 t \<and> (\<forall>m. r = Inr (True, m) \<longrightarrow> account_seen env t0 root_resource_name t))"
    unfolding account_seen_def
    by (rule user_test.triple_test; auto intro: platform_seen_append seen_since_append)+
  have retire: "emits (\<lambda>c. True) (ensure_bootstrap_admin_disabled env ns)" for ns
    unfolding ensure_bootstrap_admin_disabled_def component_admin_def bootstrap_admin_credentials_def k8s_get_def Let_def
    by (intro emits_intros any [OF emits_no_write_resolution] any [OF emits_disable_account]) (auto split: option.split)
  have finish: "triple ?P4 (retire_bootstrap_admin rc img) (identity_post env t0)"
    unfolding retire_bootstrap_admin_def that [symmetric] Let_def
    by (rule triple_attempt [OF steady(3) [OF retire]])
      (auto intro!: triple_return simp: identity_post_def platform_seen_def service_status_of_def)
  show ?thesis
    unfolding declare_accounts_def that [symmetric] Let_def
    by (rule triple_identity_step [OF steady(1) [OF any [OF internal_admin.calls]] fine(1)]
        triple_identity_test [OF tests(1) fine(1)]
        triple_identity_step [OF steady(2) [OF any [OF root_user.calls]] fine(2)]
        triple_identity_test [OF tests(2) fine(2)]
        triple_identity_step [OF steady(3) [OF any [OF client_declared.calls]] fine(3)]
        triple_identity_step [OF steady(3) [OF any [OF broker_flow.calls]] fine(3)]
        triple_identity_step [OF steady(3) [OF any [OF discovery_flow.calls]] fine(3)] finish)+
qed

lemma triple_reconcile_keycloak:
  "triple (\<lambda>t. t = t0) (reconcile_keycloak rc ne img ca) (identity_post (rc_env rc) t0)"
proof -
  define env where "env = rc_env rc"
  let ?ns = workload_namespace
  let ?P0 = "\<lambda>t. before_route ?ns t0 t \<and> no_account t0 t"
  let ?P1 = "\<lambda>t. no_account t0 t \<and> identity_seen env t0 ?ns t"
  have fine: "settled_step env t0 ?P0" "settled_step env t0 ?P1"
    by (auto simp: settled_step_def dest: before_route_since) (auto simp: only_since_def)
  have issuer: "triple ?P0 (ensure_issuer_exists env ?ns i) (\<lambda>r. ?P0)" for i
  proof -
    have "emits (\<lambda>c. c \<noteq> route_lookup ?ns \<and> \<not> creates_account c) (ensure_issuer_exists env ?ns i)"
      unfolding ensure_issuer_exists_def k8s_get_def
      by (intro emits_intros) (simp add: route_lookup_def issuer_gvk_def kc_kinds)
    then show ?thesis by (rule triple_calls) (auto intro: only_since_append)
  qed
  have resources: "triple ?P0
      (ensure_keycloak_resources env ?ns img ca (ne_identity (ne_spec ne)) ?ns (gw_name (ne_gateway (ne_spec ne)))
         (issuer_ref_for ne) (owner_reference_for ne))
      (\<lambda>r t. no_account t0 t \<and> (\<forall>m. r = Inr (True, m) \<longrightarrow> identity_seen env t0 ?ns t))"
    by (rule triple_mono [OF triple_conj [OF triple_keycloak_resources triple_only [OF emits_resources_no_account]]])
      auto
  have quiet: "emits (\<lambda>c. \<not> creates_account c) (is_keycloak_ready env ?ns)"
    by (rule keycloak_test.emits_test) simp
  have "triple ?P1 (is_keycloak_ready env ?ns) (\<lambda>r. ?P1)"
    by (rule triple_calls [OF quiet]) (auto intro: only_since_append platform_seen_append)
  then have ready: "triple ?P1 (is_keycloak_ready env ?ns) (\<lambda>r t. ?P1 t \<and> (\<forall>m. r = Inr (True, m) \<longrightarrow> True))"
    by simp
  have realm: "triple ?P1 (ensure_master_realm env ?ns) (\<lambda>r. ?P1)"
    by (rule triple_calls [OF emits_realm_no_account]) (auto intro: only_since_append platform_seen_append)
  have realm_test: "triple ?P1 (is_realm_ready env ?ns master_realm_resource_name)
      (\<lambda>r t. ?P1 t \<and> (\<forall>m. r = Inr (True, m) \<longrightarrow> realm_seen env t0 t))"
    unfolding realm_seen_def
    by (rule realm_test.triple_test) (auto intro: only_since_append platform_seen_append, auto simp: only_since_def)
  have accounts: "triple (\<lambda>t. ?P1 t \<and> realm_seen env t0 t) (declare_accounts rc img) (identity_post env t0)"
    by (rule triple_mono [OF triple_accounts [OF env_def]]) (auto simp: only_since_def)
  have after_resources: "triple ?P1
      (identity_test rc img ''ReadinessCheckFailed'' ''failed to check keycloak readiness'' ''ServiceNotReady''
         (is_keycloak_ready env ?ns) (
       identity_step rc img ''EnsureMasterRealmFailed''
         ''failed to declare the master Keycloak realm configuration'' (ensure_master_realm env ?ns) (\<lambda>_.
       identity_test rc img ''CheckMasterRealmReadinessFailed''
         ''failed to check the master Keycloak realm readiness'' ''MasterRealmNotReady''
         (is_realm_ready env ?ns master_realm_resource_name) (declare_accounts rc img)))) (identity_post env t0)"
    by (rule triple_identity_test [OF ready fine(2)], simp,
        rule triple_identity_step [OF realm fine(2)], rule triple_identity_test [OF realm_test fine(2) accounts])
  have "triple ?P0 (reconcile_keycloak rc ne img ca) (identity_post env t0)"
    unfolding reconcile_keycloak_def identity_issuer_def identity_degraded_def env_def [symmetric] Let_def
    apply (rule triple_attempt [OF issuer])
    subgoal by (auto intro!: triple_intros simp: identity_post_def service_status_of_def)
    apply (rule triple_identity_test [OF resources _ after_resources])
    subgoal by (auto simp: settled_step_def only_since_def)
    done
  then show ?thesis unfolding env_def by (rule triple_mono) auto
qed

text \<open>
  C6. The identity service is reported Ready only when this very run has read the TLS
  certificate as ready, the Keycloak instance as ready in its current generation, and the
  master realm, the internal admin and the root user as Ready. And the two accounts are
  declared only after the realm was read as Ready, when its password policy is live: no
  password is generated under another policy.
\<close>

theorem identity_ready_sound:
  assumes "run_state (reconcile_keycloak rc ne img ca) s = ((service, result), s')"
  shows "(ss_status service = ServiceReady \<longrightarrow> platform_seen (rc_env rc) (st_trace s) (st_trace s')) \<and>
    (only_since (\<lambda>c. \<not> creates_account c) (st_trace s) (st_trace s') \<or>
     realm_seen (rc_env rc) (st_trace s) (st_trace s'))"
  using tripleD [OF triple_reconcile_keycloak refl assms] by (simp add: identity_post_def)

section \<open>A platform that is up is reported Ready\<close>

lemma step_continues:
  assumes "\<And>s. \<exists>x s'. run_state m s = (Inr x, s')" and "\<And>x s. \<exists>s'. run_state (k x) s = (out, s')"
  shows "\<exists>s'. run_state (identity_step rc img reason says m k) s = (out, s')"
  unfolding identity_step_def by (rule attempt_continues [OF assms])

lemma test_continues:
  assumes "\<And>s. \<exists>msg s'. run_state m s = (Inr (True, msg), s')" and "\<And>s. \<exists>s'. run_state k s = (out, s')"
  shows "\<exists>s'. run_state (identity_test rc img reason says wreason m k) s = (out, s')"
proof -
  obtain msg t where "run_state m s = (Inr (True, msg), t)" using assms(1) by blast
  with assms(2) [of t] show ?thesis by (simp add: identity_test_def identity_step_def)
qed

lemma answered:
  assumes "\<And>t. \<exists>ob. env_get env t k ns n = Inr ob \<and> good ob" and "readiness_test m env k ns n good"
  shows "\<exists>msg s'. run_state m s = (Inr (True, msg), s')"
  using assms(1) [of "st_trace s"] readiness_test.answers [OF assms(2)] by (metis prod.collapse)

definition identity_ready_report :: "string \<Rightarrow> report" where
  "identity_ready_report img =
     (service_status_of ServiceReady ''Identity service is ready'' img,
      ready_result identity_component_id ''Available'' ''Identity service is ready'')"

lemma identity_live:
  assumes c: "cooperative (rc_env rc) (owner_reference_for ne)" and up: "platform_up (rc_env rc)"
    and issuer: "issuer_ref_for ne \<noteq> []" and retired: "succeeds (ensure_bootstrap_admin_disabled (rc_env rc) workload_namespace)"
  shows "\<exists>s'. run_state (reconcile_keycloak rc ne img ca) s = (identity_ready_report img, s')"
proof -
  let ?env = "rc_env rc" and ?ns = workload_namespace
  have there: "present_at ?env t ob" for t ob using c unfolding cooperative_def present_at_def by blast
  have declared: "\<And>s. \<exists>x s'. run_state (ensure_internal_admin_user ?env ?ns) s = (Inr x, s')"
      "\<And>s. \<exists>x s'. run_state (ensure_root_user ?env ?ns) s = (Inr x, s')"
      "\<And>s. \<exists>x s'. run_state (ensure_master_realm ?env ?ns) s = (Inr x, s')"
      "\<And>s. \<exists>x s'. run_state (ensure_neteye_client ?env ?ns) s = (Inr x, s')"
      "\<And>s. \<exists>x s'. run_state (ensure_first_broker_login_flow ?env ?ns) s = (Inr x, s')"
      "\<And>s. \<exists>x s'. run_state (ensure_idp_discovery_flow ?env ?ns) s = (Inr x, s')"
    by (simp_all add: internal_admin.kept root_user.kept realm_declared.kept client_declared.kept broker_flow.kept
        discovery_flow.kept there)
  have issuer_found: "\<exists>s'. run_state (ensure_issuer_exists ?env ?ns (issuer_ref_for ne)) s = (Inr (), s')" for s
  proof -
    obtain ob where "env_get ?env (st_trace s) issuer_gvk ?ns (issuer_ref_for ne) = Inr ob"
      using c unfolding cooperative_def by blast
    then show ?thesis
      using issuer by (simp add: ensure_issuer_exists_def validate_issuer_ref_def lift_error_def k8s_get_def)
  qed
  have resources: "\<exists>msg s'. run_state (ensure_keycloak_resources ?env ?ns img ca identity ?ns gw
      (issuer_ref_for ne) (owner_reference_for ne)) s = (Inr (True, msg), s')" for identity gw s
    using keycloak_resources_live [OF c up issuer] by blast
  have instance_ready: "\<exists>msg s'. run_state (is_keycloak_ready ?env ?ns) s = (Inr (True, msg), s')" for s
    by (rule answered [OF _ keycloak_test.readiness_test_axioms]) (simp add: up [unfolded platform_up_def])
  have realm_ready: "\<exists>msg s'. run_state (is_realm_ready ?env ?ns n) s = (Inr (True, msg), s')" for n s
    by (rule answered [OF _ realm_test.readiness_test_axioms]) (simp add: up [unfolded platform_up_def])
  have user_ready: "\<exists>msg s'. run_state (is_user_ready ?env ?ns n) s = (Inr (True, msg), s')" for n s
    by (rule answered [OF _ user_test.readiness_test_axioms]) (simp add: up [unfolded platform_up_def])
  have "\<exists>s'. run_state (retire_bootstrap_admin rc img) s = (identity_ready_report img, s')" for s
    unfolding retire_bootstrap_admin_def identity_ready_report_def Let_def
    by (rule attempt_continues) (use retired in \<open>auto simp: succeeds_def\<close>)
  then have accounts: "\<exists>s'. run_state (declare_accounts rc img) s = (identity_ready_report img, s')" for s
    unfolding declare_accounts_def Let_def
    by (intro step_continues test_continues user_ready declared)
  obtain s1 where s1: "run_state (ensure_issuer_exists ?env ?ns (issuer_ref_for ne)) s = (Inr (), s1)"
    using issuer_found by blast
  show ?thesis
    unfolding reconcile_keycloak_def identity_issuer_def Let_def run_attempt s1 prod.case sum.case
    by (intro step_continues test_continues resources instance_ready realm_ready declared accounts)
qed

text \<open>
  On a platform that is up (every write accepted, the certificate, the instance, the realm
  and the accounts ready, the bootstrap account out of the way) the identity component runs
  through all its steps and is reported Ready.
\<close>

theorem identity_reaches_ready:
  assumes "cooperative (rc_env rc) (owner_reference_for ne)" and "platform_up (rc_env rc)"
    and "issuer_ref_for ne \<noteq> []" and "succeeds (ensure_bootstrap_admin_disabled (rc_env rc) workload_namespace)"
  shows "\<exists>s'. run_state (reconcile_keycloak rc ne img ca) s =
     ((service_status_of ServiceReady ''Identity service is ready'' img,
       ready_result identity_component_id ''Available'' ''Identity service is ready''), s')"
  using identity_live [OF assms] by (simp add: identity_ready_report_def)

section \<open>Nothing without the authority\<close>

definition status_only :: "call \<Rightarrow> bool" where
  "status_only c \<longleftrightarrow> (is_write c \<longrightarrow> (\<exists>ob. c = K8sUpdateStatus ob))"

lemma emits_status_update: "emits status_only (update_neteye_status env ns name st)"
  unfolding update_neteye_status_def k8s_get_def k8s_update_status_def
  by (intro emits_intros) (auto simp: status_only_def)

lemma foreign_authority_refused:
  assumes "env_get env (st_trace s) lease_gvk workload_namespace cluster_authority_lease_name = Inr lease"
    and "lease_holder lease \<noteq> Some (meta_uid (ne_meta ne))"
  shows "run_state (ensure_cluster_authority env ne) s =
    (Inl (Msg ''shared NetEye platform components are managed by another NetEye resource''),
     record_call (K8sGet lease_gvk workload_namespace cluster_authority_lease_name) s)"
  using assms by (simp add: ensure_cluster_authority_def obtain_lease_def get_lease_def k8s_get_def)

lemma foreign_spec:
  assumes "env_get (rc_env rc) (st_trace s) lease_gvk workload_namespace cluster_authority_lease_name = Inr lease"
    and "lease_holder lease \<noteq> Some (meta_uid (ne_meta ne))"
    and "run_state (reconcile_spec rc ne) (s, st) = ((d, err), (s', st'))"
  shows "s' = s \<or> s' = record_call (K8sGet lease_gvk workload_namespace cluster_authority_lease_name) s"
  using assms(3)
  by (auto simp: reconcile_spec_def establish_authority_def pause_for_upgrade_def Let_def run_state_bind run_try_pass
      foreign_authority_refused [OF assms(1,2)] split: if_splits option.splits)

text \<open>
  C7. One NetEye owns the shared platform: a pass for a NetEye that does not hold the cluster
  authority lease writes nothing but its own status, whatever else it finds. Since a lease
  has one holder, two NetEye resources never fight over the shared components.
\<close>

theorem foreign_authority_writes_nothing:
  assumes "env_get (rc_env rc) (st_trace s) neteye_gvk ns name = Inr ob"
    and "env_get (rc_env rc) (st_trace s @ [K8sGet neteye_gvk ns name]) lease_gvk workload_namespace
           cluster_authority_lease_name = Inr lease"
    and "lease_holder lease \<noteq> Some (meta_uid (ob_meta ob))"
    and "run_state (reconcile_neteye rc ns name) s = (res, s')"
  shows "only_since (\<lambda>c. is_write c \<longrightarrow> (\<exists>x. c = K8sUpdateStatus x)) (st_trace s) (st_trace s')"
proof -
  let ?s = "record_call (K8sGet neteye_gvk ns name) s"
  let ?ne = "neteye_of ob"
  obtain d err s1 st where run: "run_state (reconcile_spec rc ?ne) (?s, reset_status ?ne) = ((d, err), (s1, st))"
    by (metis surj_pair)
  have uid: "meta_uid (ne_meta ?ne) = meta_uid (ob_meta ob)"
    by (simp add: neteye_of_def split: content.split)
  have s1: "only_since status_only (st_trace s) (st_trace s1)"
    using foreign_spec [OF _ _ run, of lease] assms(2,3) uid by (auto simp: only_since_def status_only_def)
  have last: "run_state (report_status rc ns name ((d, err), st)) s1 = (res, s')"
    using assms(1,4) run by (simp add: reconcile_neteye_def k8s_get_def run_state_bind run_pass_def)
  have "emits status_only (report_status rc ns name ((d, err), st))"
    unfolding report_status_def Let_def prod.case by (intro emits_intros emits_status_update)
  then have "only_since status_only (st_trace s) (st_trace s')"
    using last s1 by (metis emitsD only_since_append)
  then show ?thesis by (rule only_since_mono) (simp add: status_only_def)
qed

section \<open>A concrete NetEye\<close>

definition sample_neteye_spec :: neteye_spec where
  "sample_neteye_spec =
     \<lparr>ne_version = current_neteye_version, ne_gateway = \<lparr>gw_name = ''gw'', gw_class_name = ''cilium'', gw_annotations = []\<rparr>,
      ne_issuer_ref = ''issuer'', ne_identity = sample_identity, ne_elastic_stack = None\<rparr>"

definition sample_neteye_meta :: "string \<Rightarrow> object_meta" where
  "sample_neteye_meta uid = (new_meta workload_namespace ''ne'')\<lparr>meta_uid := uid\<rparr>"

definition sample_neteye :: neteye where
  "sample_neteye = \<lparr>ne_meta = sample_neteye_meta (or_uid sample_owner), ne_spec = sample_neteye_spec,
     ne_status = zero_neteye_status\<rparr>"

text \<open>The platform of before with a NetEye and the lease another NetEye holds.\<close>

definition neteye_env :: env where
  "neteye_env = platform_env\<lparr>env_get := (\<lambda>t k ns n.
     if k = neteye_gvk
     then Inr \<lparr>ob_gvk = neteye_gvk, ob_meta = sample_neteye_meta ''mine'',
               ob_content = NetEyeContent sample_neteye_spec zero_neteye_status\<rparr>
     else if k = lease_gvk then Inr (new_object lease_gvk ns n (LeaseContent (Some ''other'')))
     else env_get platform_env t k ns n)\<rparr>"

definition sample_reconciler :: "env \<Rightarrow> reconciler" where
  "sample_reconciler env =
     \<lparr>rc_env = env, rc_getenv = (\<lambda>v. []), rc_lib = sample_url_lib, rc_iteration = id,
      rc_wait_requeue_after = 0, rc_failure_requeue_after = 0, rc_reconciliation_requeue_after = 0,
      rc_has_keycloak = True, rc_has_admin_providers = True, rc_has_otel_collector = True, rc_has_edot_gateway = True\<rparr>"

lemma sample_reconciler_env [simp]: "rc_env (sample_reconciler env) = env"
  by (simp add: sample_reconciler_def)

lemma neteye_kinds [simp]: "lease_gvk \<noteq> neteye_gvk"
  by (simp add: lease_gvk_def neteye_gvk_def neteye_group_def)

lemma neteye_env_get [simp]:
  "env_get neteye_env t neteye_gvk ns n =
     Inr \<lparr>ob_gvk = neteye_gvk, ob_meta = sample_neteye_meta ''mine'',
          ob_content = NetEyeContent sample_neteye_spec zero_neteye_status\<rparr>"
  "env_get neteye_env t lease_gvk ns n = Inr (new_object lease_gvk ns n (LeaseContent (Some ''other'')))"
  by (simp_all add: neteye_env_def)

theorem every_pass_comes_back_witness:
  "\<exists>requeue err s'. run_state (reconcile_neteye (sample_reconciler neteye_env) workload_namespace ''ne'') initial_state
     = ((requeue, err), s') \<and> 0 < requeue"
  by (rule every_pass_comes_back) (simp only: sample_reconciler_env neteye_env_get)

theorem foreign_authority_writes_nothing_witness:
  "\<exists>d err s'. run_state (reconcile_neteye (sample_reconciler neteye_env) workload_namespace ''ne'') initial_state
     = ((d, err), s') \<and> 0 < d \<and>
     only_since (\<lambda>c. is_write c \<longrightarrow> (\<exists>x. c = K8sUpdateStatus x)) (st_trace initial_state) (st_trace s')"
proof -
  obtain d err s' where run: "run_state (reconcile_neteye (sample_reconciler neteye_env) workload_namespace ''ne'')
      initial_state = ((d, err), s')" "0 < d"
    using pass_comes_back [of "sample_reconciler neteye_env" initial_state workload_namespace "''ne''"]
    by (simp only: sample_reconciler_env neteye_env_get) blast
  have "only_since (\<lambda>c. is_write c \<longrightarrow> (\<exists>x. c = K8sUpdateStatus x)) (st_trace initial_state) (st_trace s')"
    by (rule foreign_authority_writes_nothing [OF _ _ _ run(1)], simp only: sample_reconciler_env neteye_env_get,
        simp only: sample_reconciler_env neteye_env_get, simp add: lease_holder_def sample_neteye_meta_def)
  with run show ?thesis by blast
qed

text \<open>Retiring the bootstrap account succeeds from every state of the operator.\<close>

lemma platform_resolves:
  assumes "f secret_gvk = owned_by_sample secret_gvk (platform_content secret_gvk)"
  shows "\<exists>a user s'. run_state (get_admin_api (platform_with f) p) s = (Inr (a, user), s')"
proof -
  have "\<forall>q. \<exists>s'. run_state (verify_api (platform_with f) (fst q)) (snd q) = (Inr (), s')"
    by (intro allI verify_runs) simp_all
  from choice [OF this] obtain w where "\<forall>q. run_state (verify_api (platform_with f) (fst q)) (snd q) = (Inr (), w q)" ..
  then have verify [simp]: "run_state (verify_api (platform_with f) a) t = (Inr (), w (a, t))" for a t by simp
  note secret = assms platform_content_def platform_secret internal_admin_secret_password_key_def
    admin_secret_username_key_def admin_secret_password_key_def
  have bootstrap: "\<exists>a user s'. run_state (get_bootstrap_api (platform_with f) p) t = (Inr (a, user), s')" for t
    by (simp add: get_bootstrap_api_def run_state_bind bootstrap_admin_credentials_def k8s_get_def Let_def secret
        adopt_bootstrap_def build_api_def store_api_def split: option.split)
  show ?thesis
  proof (cases "pv_skip_internal (st_providers s ! p)")
    case False
    then show ?thesis
      using bootstrap
      by (auto simp: get_admin_api_def run_state_bind internal_admin_credentials_def k8s_get_def Let_def secret
          verify_internal_def read_clock_def build_api_def split: option.split)
  qed (simp add: get_admin_api_def run_state_bind bootstrap)
qed

lemma platform_retires:
  assumes "f secret_gvk = owned_by_sample secret_gvk (platform_content secret_gvk)"
  shows "succeeds (ensure_bootstrap_admin_disabled (platform_with f) ns)"
  unfolding succeeds_def
proof
  fix s :: op_state
  obtain p s1 where p: "run_state (component_admin ns) s = (p, s1)" by force
  obtain a user s2 where g: "run_state (get_admin_api (platform_with f) p) s1 = (Inr (a, user), s2)"
    using platform_resolves [where f = f, OF assms] by blast
  obtain s' where "run_state (disable_account (platform_with f) a ''admin'')
      (record_call (K8sGet secret_gvk ns admin_secret_name) s2) = (Inr (), s')" using platform_disables by blast
  with p g assms show "\<exists>x s'. run_state (ensure_bootstrap_admin_disabled (platform_with f) ns) s = (Inr x, s')"
    by (simp add: ensure_bootstrap_admin_disabled_def run_state_bind bootstrap_admin_credentials_def k8s_get_def
        platform_content_def platform_secret admin_secret_username_key_def admin_secret_password_key_def Let_def)
qed

lemma sample_neteye_facts:
  "cooperative platform_env (owner_reference_for sample_neteye)" "issuer_ref_for sample_neteye \<noteq> []"
proof -
  have "or_uid (owner_reference_for sample_neteye) = or_uid sample_owner"
    by (simp add: owner_reference_for_def make_owner_reference_def sample_neteye_def sample_neteye_meta_def)
  then show "cooperative platform_env (owner_reference_for sample_neteye)"
    using platform_env_cooperative by (simp add: cooperative_def managed_by_def)
qed (simp add: issuer_ref_for_def sample_neteye_def sample_neteye_spec_def)

theorem identity_reaches_ready_witness:
  "\<exists>s'. run_state (reconcile_keycloak (sample_reconciler platform_env) sample_neteye ''img'' ''ca'') initial_state =
     ((service_status_of ServiceReady ''Identity service is ready'' ''img'',
       ready_result identity_component_id ''Available'' ''Identity service is ready''), s')"
  by (rule identity_reaches_ready) (simp_all add: sample_neteye_facts platform_env_up platform_retires del: platform_env_simps)

theorem identity_ready_sound_witness:
  "\<exists>s'. run_state (reconcile_keycloak (sample_reconciler platform_env) sample_neteye ''img'' ''ca'') initial_state =
     (identity_ready_report ''img'', s') \<and> platform_seen platform_env (st_trace initial_state) (st_trace s')"
proof -
  obtain s' where run: "run_state (reconcile_keycloak (sample_reconciler platform_env) sample_neteye ''img'' ''ca'') initial_state =
     (identity_ready_report ''img'', s')"
    using identity_live [of "sample_reconciler platform_env" sample_neteye "''img''" "''ca''" initial_state]
      sample_neteye_facts platform_env_up platform_retires by auto
  from identity_ready_sound [OF run [unfolded identity_ready_report_def]] run show ?thesis
    by (auto simp: service_status_of_def)
qed

end
