(* ===== verification/Keycloak_Controllers.thy ===== *)
theory Keycloak_Controllers
  imports NetEye_Controller
begin

text \<open>
  The controllers of the Keycloak resources: what they share
  (\<^verbatim>\<open>controllers/keycloakapi_reconciler.go\<close>, \<^verbatim>\<open>predicates.go\<close>) and one \<^verbatim>\<open>Reconcile\<close> each for
  KeycloakUser, KeycloakClient, KeycloakRealm and KeycloakAuthFlow
  (\<^verbatim>\<open>keycloakuser_controller.go\<close>, \<^verbatim>\<open>keycloakclient_controller.go\<close>,
  \<^verbatim>\<open>keycloakrealm_controller.go\<close>, \<^verbatim>\<open>keycloakauthflow_controller.go\<close>). A pass yields its
  requeue delay and its error.

  The lemmas show what a deletion may do and when a finalizer goes, when a generated password
  is stored (and how one is lost), and that every pass over a living resource comes back.
\<close>

section \<open>What the controllers share\<close>

text \<open>The registry of admin providers is the operator's; the endpoint is where Keycloak runs.\<close>

record api_reconciler =
  ar_env :: env
  ar_keycloak_namespace :: string
  ar_failure_requeue_after :: duration
  ar_reconciliation_requeue_after :: duration

definition keycloak_namespace :: "api_reconciler \<Rightarrow> string" where
  "keycloak_namespace ar =
     (if ar_keycloak_namespace ar \<noteq> [] then ar_keycloak_namespace ar else workload_namespace)"

definition api_failure_requeue :: "api_reconciler \<Rightarrow> duration" where
  "api_failure_requeue ar =
     (if 0 < ar_failure_requeue_after ar then ar_failure_requeue_after ar else default_failure_requeue)"

definition api_reconciliation_requeue :: "api_reconciler \<Rightarrow> duration" where
  "api_reconciliation_requeue ar =
     (if 0 < ar_reconciliation_requeue_after ar then ar_reconciliation_requeue_after ar
      else default_reconciliation_requeue)"

lemma api_requeue_positive [simp]: "0 < api_failure_requeue ar" "0 < api_reconciliation_requeue ar"
  by (simp_all add: api_failure_requeue_def api_reconciliation_requeue_def default_failure_requeue_def
      default_reconciliation_requeue_def second_def minute_def)

definition resource_admin_api :: "api_reconciler \<Rightarrow> string \<Rightarrow> nat fallible" where
  "resource_admin_api ar credential_namespace =
     State_Monad.bind (provider_for (ar_env ar) (keycloak_namespace ar) credential_namespace) (\<lambda>p.
     try_ok (get_admin_api (ar_env ar) p) (\<lambda>(a, username). ok a))"

definition missing_credentials_message :: "string \<Rightarrow> string" where
  "missing_credentials_message ns =
     ''no Keycloak admin credentials found in namespace '' @ quoted ns @ ''; create a Secret named '' @
     quoted admin_secret_name @ '' with keys '' @ quoted admin_secret_username_key @ '' and '' @
     quoted admin_secret_password_key"

definition admin_api_failure :: "go_err \<Rightarrow> string \<Rightarrow> service_state \<times> string" where
  "admin_api_failure e ns =
     (if is_no_admin_credentials e then (ServiceFailed, missing_credentials_message ns)
      else (ServiceNotReady, err_text e))"

text \<open>A failed status write is only logged.\<close>

definition write_status ::
    "env \<Rightarrow> gvk \<Rightarrow> string \<Rightarrow> string \<Rightarrow> (k8s_object \<Rightarrow> k8s_object) \<Rightarrow> unit op" where
  "write_status env k ns name set_status =
     attempt
       (retry_on_conflict (env_retries env)
          (attempt (k8s_get env k ns name)
             (\<lambda>e. if is_not_found e then ok () else fail e)
             (\<lambda>current. try_ok (k8s_update_status env (set_status current)) (\<lambda>_. ok ()))))
       (\<lambda>e. State_Monad.return ()) (\<lambda>_. State_Monad.return ())"

text \<open>\<^verbatim>\<open>predicate.Or\<close> of a changed generation and a changed deletion mark, for an update event.\<close>

definition reconcile_on_change :: "object_meta \<Rightarrow> object_meta \<Rightarrow> bool" where
  "reconcile_on_change old new \<longleftrightarrow>
     meta_generation old \<noteq> meta_generation new \<or> meta_deleting old \<noteq> meta_deleting new"

subsection \<open>Finalizers\<close>

definition set_finalizers :: "string list \<Rightarrow> k8s_object \<Rightarrow> k8s_object" where
  "set_finalizers fs ob = ob\<lparr>ob_meta := (ob_meta ob)\<lparr>meta_finalizers := fs\<rparr>\<rparr>"

definition has_finalizer :: "string \<Rightarrow> k8s_object \<Rightarrow> bool" where
  "has_finalizer f ob \<longleftrightarrow> f \<in> set (meta_finalizers (ob_meta ob))"

definition with_finalizer :: "string \<Rightarrow> k8s_object \<Rightarrow> k8s_object" where
  "with_finalizer f ob = set_finalizers (meta_finalizers (ob_meta ob) @ [f]) ob"

definition without_finalizer :: "string \<Rightarrow> k8s_object \<Rightarrow> k8s_object" where
  "without_finalizer f ob = set_finalizers (filter (\<lambda>x. x \<noteq> f) (meta_finalizers (ob_meta ob))) ob"

definition is_deleting :: "k8s_object \<Rightarrow> bool" where
  "is_deleting ob \<longleftrightarrow> meta_deleting (ob_meta ob)"

text \<open>The update puts the server's answer into the object the pass goes on with.\<close>

definition ensure_finalizer ::
    "env \<Rightarrow> string \<Rightarrow> string \<Rightarrow> k8s_object \<Rightarrow> (k8s_object \<Rightarrow> outcome op) \<Rightarrow> outcome op" where
  "ensure_finalizer env title f ob k =
     (if has_finalizer f ob then k ob
      else attempt (k8s_update env (with_finalizer f ob))
             (\<lambda>e. State_Monad.return (0, Some (Wrap (''add '' @ title @ '' finalizer'') e))) k)"

definition release_finalizer :: "env \<Rightarrow> string \<Rightarrow> string \<Rightarrow> k8s_object \<Rightarrow> outcome op" where
  "release_finalizer env title f ob =
     attempt (k8s_update env (without_finalizer f ob))
       (\<lambda>e. State_Monad.return (0, Some (Wrap (''remove '' @ title @ '' finalizer'') e)))
       (\<lambda>_. State_Monad.return (0, None))"

definition retry_later :: "api_reconciler \<Rightarrow> outcome op" where
  "retry_later ar = State_Monad.return (api_failure_requeue ar, None)"

text \<open>\<^verbatim>\<open>reconcileDelete\<close> of users, clients and realms: the remote entity first, the finalizer last.\<close>

definition finish_deletion ::
    "api_reconciler \<Rightarrow> string \<Rightarrow> string \<Rightarrow> deletion_policy \<Rightarrow> unit fallible \<Rightarrow> k8s_object \<Rightarrow> outcome op" where
  "finish_deletion ar title f policy delete_remote ob =
     (if \<not> has_finalizer f ob then State_Monad.return (0, None)
      else if policy \<noteq> PolicyOrphan
      then attempt delete_remote (\<lambda>e. retry_later ar) (\<lambda>_. release_finalizer (ar_env ar) title f ob)
      else release_finalizer (ar_env ar) title f ob)"

text \<open>The head of the passes over users, clients and realms, up to the client they work with.\<close>

definition fetch_resource ::
    "env \<Rightarrow> gvk \<Rightarrow> string \<Rightarrow> string \<Rightarrow> (k8s_object \<Rightarrow> outcome op) \<Rightarrow> outcome op" where
  "fetch_resource env k ns name kont =
     attempt (k8s_get env k ns name)
       (\<lambda>e. if is_not_found e then State_Monad.return (0, None) else State_Monad.return (0, Some e)) kont"

definition with_admin_api ::
    "api_reconciler \<Rightarrow> string \<Rightarrow> string \<Rightarrow> (k8s_object \<Rightarrow> service_state \<Rightarrow> string \<Rightarrow> unit op) \<Rightarrow>
     (k8s_object \<Rightarrow> nat \<Rightarrow> outcome op) \<Rightarrow> k8s_object \<Rightarrow> outcome op" where
  "with_admin_api ar title f set_status kont ob =
     attempt (resource_admin_api ar (meta_namespace (ob_meta ob)))
       (\<lambda>e. if is_deleting ob
            then (if is_no_admin_credentials e then release_finalizer (ar_env ar) title f ob else retry_later ar)
            else (let (state, message) = admin_api_failure e (meta_namespace (ob_meta ob)) in
                  State_Monad.bind (set_status ob state message) (\<lambda>_. retry_later ar)))
       (kont ob)"

text \<open>\<^verbatim>\<open>if err != nil { setStatus(Failed, err); requeue }\<close>, and the positive end of a pass.\<close>

definition failing_step ::
    "api_reconciler \<Rightarrow> (service_state \<Rightarrow> string \<Rightarrow> unit op) \<Rightarrow> 'a fallible \<Rightarrow> ('a \<Rightarrow> outcome op) \<Rightarrow> outcome op" where
  "failing_step ar set_status m k =
     attempt m (\<lambda>e. State_Monad.bind (set_status ServiceFailed (err_text e)) (\<lambda>_. retry_later ar)) k"

definition ready_pass :: "api_reconciler \<Rightarrow> (service_state \<Rightarrow> string \<Rightarrow> unit op) \<Rightarrow> string \<Rightarrow> outcome op" where
  "ready_pass ar set_status message =
     State_Monad.bind (set_status ServiceReady message) (\<lambda>_.
     State_Monad.return (api_reconciliation_requeue ar, None))"

section \<open>KeycloakUser\<close>

definition keycloak_user_finalizer :: string where "keycloak_user_finalizer = ''neteye.cloud/keycloak-user''"

definition zero_user_spec :: keycloak_user_spec where
  "zero_user_spec = \<lparr>us_realm = [], us_username = [], us_enabled = None, us_email = [], us_email_verified = False,
     us_first_name = [], us_last_name = [], us_realm_roles = None, us_groups = None, us_credential = None,
     us_deletion_policy = OtherPolicy []\<rparr>"

definition user_spec_of :: "k8s_object \<Rightarrow> keycloak_user_spec" where
  "user_spec_of ob = (case ob_content ob of UserContent spec st \<Rightarrow> spec | _ \<Rightarrow> zero_user_spec)"

definition user_status_of :: "k8s_object \<Rightarrow> keycloak_user_status" where
  "user_status_of ob = (case ob_content ob of UserContent spec st \<Rightarrow> st | _ \<Rightarrow> new_user_status)"

definition with_user_status :: "keycloak_user_status \<Rightarrow> k8s_object \<Rightarrow> k8s_object" where
  "with_user_status st ob = ob\<lparr>ob_content := UserContent (user_spec_of ob) st\<rparr>"

definition set_user_status ::
    "env \<Rightarrow> string \<Rightarrow> string \<Rightarrow> object_meta \<Rightarrow> keycloak_user_status \<Rightarrow> service_state \<Rightarrow> string \<Rightarrow> unit op" where
  "set_user_status env ns name meta st state message =
     write_status env keycloak_user_gvk ns name
       (with_user_status (st\<lparr>ust_status := state, ust_message := message,
          ust_observed_generation := meta_generation meta\<rparr>))"

definition stored_password :: "env \<Rightarrow> string \<Rightarrow> secret_key_selector \<Rightarrow> string fallible" where
  "stored_password env ns ref =
     attempt (k8s_get env secret_gvk ns (sel_name ref))
       (\<lambda>e. if is_not_found e then ok []
            else fail (Wrap (''get credential secret '' @ quoted (sel_name ref) @ '' in namespace '' @ quoted ns) e))
       (\<lambda>secret. ok (secret_value secret (sel_key ref)))"

definition store_password :: "env \<Rightarrow> string \<Rightarrow> secret_key_selector \<Rightarrow> string \<Rightarrow> unit fallible" where
  "store_password env ns ref password =
     try_wrap (''store credential secret '' @ quoted (sel_name ref) @ '' in namespace '' @ quoted ns)
       (store_secret_key env ns (sel_name ref) (sel_key ref) password) ok"

definition wants_rotation :: "user_credential_spec \<Rightarrow> keycloak_user_status \<Rightarrow> bool" where
  "wants_rotation spec st \<longleftrightarrow>
     uc_rotation_token spec \<noteq> [] \<and> ust_credential_rotation st \<noteq> [] \<and>
     uc_rotation_token spec \<noteq> ust_credential_rotation st"

definition no_credential :: user_credential where
  "no_credential = \<lparr>uc_password = [], uc_temporary = False, uc_rotate = False\<rparr>"

text \<open>The credential to apply, and whether it was generated and still has to be stored.\<close>

definition user_credential_for ::
    "env \<Rightarrow> nat \<Rightarrow> string \<Rightarrow> keycloak_user_spec \<Rightarrow> keycloak_user_status \<Rightarrow> (user_credential \<times> bool) fallible" where
  "user_credential_for env a ns uspec st =
     (case us_credential uspec of
        None \<Rightarrow> ok (no_credential, False)
      | Some spec \<Rightarrow>
          (let ref = uc_secret_ref spec; rotate = wants_rotation spec st;
               cred = \<lparr>uc_password = [], uc_temporary = user_credential_spec.uc_temporary spec, uc_rotate = rotate\<rparr> in
           try_ok (stored_password env ns ref) (\<lambda>stored.
           if \<not> uc_generate spec
           then (if stored = []
                 then fail (Msg (''secret '' @ quoted (sel_name ref) @ '' in namespace '' @ quoted ns @
                        '' has no value for key '' @ quoted (sel_key ref)))
                 else ok (cred\<lparr>uc_password := stored\<rparr>, False))
           else if stored \<noteq> [] \<and> \<not> rotate then ok (cred\<lparr>uc_password := stored\<rparr>, False)
           else try_ok (user_password_policy env a uspec) (\<lambda>policy.
                try_ok (generate_password env policy) (\<lambda>password.
                ok (cred\<lparr>uc_password := password\<rparr>, True))))))"

definition adopted_status :: "keycloak_user_status \<Rightarrow> user_sync_result \<Rightarrow> keycloak_user_status" where
  "adopted_status st res =
     st\<lparr>ust_adopted := (if ust_user_id st = [] then ur_adopted res else ust_adopted st),
        ust_user_id := ur_user_id res\<rparr>"

definition rotated_status :: "keycloak_user_spec \<Rightarrow> keycloak_user_status \<Rightarrow> keycloak_user_status" where
  "rotated_status uspec st =
     (case us_credential uspec of
        None \<Rightarrow> st
      | Some spec \<Rightarrow> st\<lparr>ust_credential_rotation := uc_rotation_token spec\<rparr>)"

text \<open>What happens to a generated password once the account is reconciled.\<close>

definition store_generated ::
    "api_reconciler \<Rightarrow> string \<Rightarrow> keycloak_user_spec \<Rightarrow> user_credential \<Rightarrow> bool \<Rightarrow> user_sync_result \<Rightarrow>
     (service_state \<Rightarrow> string \<Rightarrow> unit op) \<Rightarrow> outcome op \<Rightarrow> outcome op" where
  "store_generated ar ns uspec cred generated res set_status k =
     (if generated \<and> \<not> ur_password_set res \<and> \<not> ur_created res \<and> \<not> uc_rotate cred then k
      else if generated
      then (if \<not> ur_password_set res
            then State_Monad.bind (set_status ServiceFailed
                   (''generated password was not applied to account '' @ quoted (us_username uspec))) (\<lambda>_. retry_later ar)
            else (case us_credential uspec of
                    None \<Rightarrow> k
                  | Some spec \<Rightarrow> failing_step ar set_status
                      (store_password (ar_env ar) ns (uc_secret_ref spec) (uc_password cred)) (\<lambda>_. k)))
      else k)"

definition reconcile_live_user :: "api_reconciler \<Rightarrow> string \<Rightarrow> string \<Rightarrow> nat \<Rightarrow> k8s_object \<Rightarrow> outcome op" where
  "reconcile_live_user ar ns name a ob =
     (let env = ar_env ar; meta = ob_meta ob; uspec = user_spec_of ob; st = user_status_of ob;
          own = meta_namespace meta in
     failing_step ar (set_user_status env ns name meta st) (user_credential_for env a own uspec st)
       (\<lambda>(cred, generated).
     failing_step ar (set_user_status env ns name meta st) (reconcile_user env a uspec cred) (\<lambda>res.
     let st1 = adopted_status st res in
     store_generated ar own uspec cred generated res (set_user_status env ns name meta st1)
       (ready_pass ar (set_user_status env ns name meta (rotated_status uspec st1))
          ''Keycloak user is reconciled''))))"

definition delete_user_resource :: "api_reconciler \<Rightarrow> nat \<Rightarrow> k8s_object \<Rightarrow> outcome op" where
  "delete_user_resource ar a ob =
     finish_deletion ar ''keycloak user'' keycloak_user_finalizer (us_deletion_policy (user_spec_of ob))
       (delete_declared_user (ar_env ar) a (user_spec_of ob)) ob"

definition reconcile_user_resource :: "api_reconciler \<Rightarrow> string \<Rightarrow> string \<Rightarrow> outcome op" where
  "reconcile_user_resource ar ns name =
     fetch_resource (ar_env ar) keycloak_user_gvk ns name
       (with_admin_api ar ''keycloak user'' keycloak_user_finalizer
          (\<lambda>ob. set_user_status (ar_env ar) ns name (ob_meta ob) (user_status_of ob))
          (\<lambda>ob a. if is_deleting ob then delete_user_resource ar a ob
                  else ensure_finalizer (ar_env ar) ''keycloak user'' keycloak_user_finalizer ob
                         (reconcile_live_user ar ns name a)))"

section \<open>KeycloakClient\<close>

definition keycloak_client_finalizer :: string where
  "keycloak_client_finalizer = ''neteye.cloud/keycloak-client''"

definition zero_client_spec :: keycloak_client_spec where
  "zero_client_spec = \<lparr>cs_realm = [], cs_client_id = [], cs_enabled = None, cs_name = [], cs_description = [],
     cs_root_url = [], cs_redirect_uris = None, cs_web_origins = None, cs_attributes = None,
     cs_public_client = False, cs_standard_flow = None, cs_direct_access = False,
     cs_allow_client_credentials_grant = False, cs_service_account = None, cs_client_secret_ref = None,
     cs_protocol_mappers = None, cs_default_client_scopes = None, cs_optional_client_scopes = None,
     cs_deletion_policy = OtherPolicy []\<rparr>"

definition client_spec_of :: "k8s_object \<Rightarrow> keycloak_client_spec" where
  "client_spec_of ob = (case ob_content ob of ClientContent spec st \<Rightarrow> spec | _ \<Rightarrow> zero_client_spec)"

definition client_status_of :: "k8s_object \<Rightarrow> keycloak_client_status" where
  "client_status_of ob = (case ob_content ob of ClientContent spec st \<Rightarrow> st | _ \<Rightarrow> new_client_status)"

definition with_client_status :: "keycloak_client_status \<Rightarrow> k8s_object \<Rightarrow> k8s_object" where
  "with_client_status st ob = ob\<lparr>ob_content := ClientContent (client_spec_of ob) st\<rparr>"

definition set_client_status ::
    "env \<Rightarrow> string \<Rightarrow> string \<Rightarrow> object_meta \<Rightarrow> string \<Rightarrow> service_state \<Rightarrow> string \<Rightarrow> unit op" where
  "set_client_status env ns name meta uuid state message =
     write_status env keycloak_client_gvk ns name
       (with_client_status \<lparr>cst_status = state, cst_message = message, cst_client_uuid = uuid,
          cst_observed_generation = meta_generation meta\<rparr>)"

definition client_secret :: "env \<Rightarrow> string \<Rightarrow> keycloak_client_spec \<Rightarrow> string fallible" where
  "client_secret env ns spec =
     (case cs_client_secret_ref spec of
        None \<Rightarrow> ok []
      | Some ref \<Rightarrow>
          try_wrap (''get client secret '' @ quoted (sel_name ref) @ '' in namespace '' @ quoted ns)
            (k8s_get env secret_gvk ns (sel_name ref)) (\<lambda>secret.
          if secret_value secret (sel_key ref) = []
          then fail (Msg (''secret '' @ quoted (sel_name ref) @ '' in namespace '' @ quoted ns @
                 '' has no value for key '' @ quoted (sel_key ref)))
          else ok (secret_value secret (sel_key ref))))"

definition client_ready_message :: "keycloak_client_spec \<Rightarrow> string" where
  "client_ready_message spec =
     (if \<not> cs_public_client spec \<and> cs_client_secret_ref spec = None
      then ''Keycloak client is reconciled; client secret is managed by Keycloak (no clientSecretRef)''
      else ''Keycloak client is reconciled'')"

definition reconcile_live_client :: "api_reconciler \<Rightarrow> string \<Rightarrow> string \<Rightarrow> nat \<Rightarrow> k8s_object \<Rightarrow> outcome op" where
  "reconcile_live_client ar ns name a ob =
     (let env = ar_env ar; meta = ob_meta ob; spec = client_spec_of ob;
          report = set_client_status env ns name meta in
     failing_step ar (report (cst_client_uuid (client_status_of ob)))
       (client_secret env (meta_namespace meta) spec) (\<lambda>secret.
     failing_step ar (report (cst_client_uuid (client_status_of ob)))
       (reconcile_client env a spec secret) (\<lambda>result.
     ready_pass ar (report (clr_uuid result)) (client_ready_message spec))))"

definition delete_client_resource :: "api_reconciler \<Rightarrow> nat \<Rightarrow> k8s_object \<Rightarrow> outcome op" where
  "delete_client_resource ar a ob =
     finish_deletion ar ''keycloak client'' keycloak_client_finalizer (cs_deletion_policy (client_spec_of ob))
       (delete_declared_client (ar_env ar) a (client_spec_of ob)) ob"

definition reconcile_client_resource :: "api_reconciler \<Rightarrow> string \<Rightarrow> string \<Rightarrow> outcome op" where
  "reconcile_client_resource ar ns name =
     fetch_resource (ar_env ar) keycloak_client_gvk ns name
       (with_admin_api ar ''keycloak client'' keycloak_client_finalizer
          (\<lambda>ob. set_client_status (ar_env ar) ns name (ob_meta ob) (cst_client_uuid (client_status_of ob)))
          (\<lambda>ob a. if is_deleting ob then delete_client_resource ar a ob
                  else ensure_finalizer (ar_env ar) ''keycloak client'' keycloak_client_finalizer ob
                         (reconcile_live_client ar ns name a)))"

section \<open>KeycloakRealm\<close>

definition keycloak_realm_finalizer :: string where
  "keycloak_realm_finalizer = ''neteye.cloud/keycloak-realm''"

definition zero_realm_spec :: keycloak_realm_spec where
  "zero_realm_spec = \<lparr>rs_realm = [], rs_display_name = [], rs_display_name_html = [], rs_password_policy = None,
     rs_enabled = None, rs_remember_me = None,
     rs_events = \<lparr>re_events_enabled = None, re_admin_events_enabled = None,
       re_admin_events_details_enabled = None, re_events_expiration = None,
       re_admin_events_expiration = None\<rparr>,
     rs_brute_force_protection = \<lparr>bf_protected = None, bf_max_delta_time_seconds = None,
       bf_max_failure_wait_seconds = None, bf_minimum_quick_login_wait_seconds = None,
       bf_quick_login_check_milli_seconds = None, bf_failure_factor = None, bf_wait_increment_seconds = None\<rparr>,
     rs_theme = None, rs_deletion_policy = OtherPolicy []\<rparr>"

definition realm_spec_of :: "k8s_object \<Rightarrow> keycloak_realm_spec" where
  "realm_spec_of ob = (case ob_content ob of RealmContent spec st \<Rightarrow> spec | _ \<Rightarrow> zero_realm_spec)"

definition with_realm_status :: "keycloak_realm_status \<Rightarrow> k8s_object \<Rightarrow> k8s_object" where
  "with_realm_status st ob = ob\<lparr>ob_content := RealmContent (realm_spec_of ob) st\<rparr>"

definition set_realm_status ::
    "env \<Rightarrow> string \<Rightarrow> string \<Rightarrow> object_meta \<Rightarrow> service_state \<Rightarrow> string \<Rightarrow> unit op" where
  "set_realm_status env ns name meta state message =
     write_status env keycloak_realm_gvk ns name
       (with_realm_status \<lparr>rst_status = state, rst_message = message,
          rst_observed_generation = meta_generation meta\<rparr>)"

definition reconcile_live_realm :: "api_reconciler \<Rightarrow> string \<Rightarrow> string \<Rightarrow> nat \<Rightarrow> k8s_object \<Rightarrow> outcome op" where
  "reconcile_live_realm ar ns name a ob =
     failing_step ar (set_realm_status (ar_env ar) ns name (ob_meta ob))
       (reconcile_realm (ar_env ar) a (realm_spec_of ob)) (\<lambda>result.
     ready_pass ar (set_realm_status (ar_env ar) ns name (ob_meta ob)) ''Keycloak realm is reconciled'')"

definition delete_realm_resource :: "api_reconciler \<Rightarrow> nat \<Rightarrow> k8s_object \<Rightarrow> outcome op" where
  "delete_realm_resource ar a ob =
     finish_deletion ar ''keycloak realm'' keycloak_realm_finalizer (rs_deletion_policy (realm_spec_of ob))
       (delete_declared_realm (ar_env ar) a (realm_spec_of ob)) ob"

definition reconcile_realm_resource :: "api_reconciler \<Rightarrow> string \<Rightarrow> string \<Rightarrow> outcome op" where
  "reconcile_realm_resource ar ns name =
     fetch_resource (ar_env ar) keycloak_realm_gvk ns name
       (with_admin_api ar ''keycloak realm'' keycloak_realm_finalizer
          (\<lambda>ob. set_realm_status (ar_env ar) ns name (ob_meta ob))
          (\<lambda>ob a. if is_deleting ob then delete_realm_resource ar a ob
                  else ensure_finalizer (ar_env ar) ''keycloak realm'' keycloak_realm_finalizer ob
                         (reconcile_live_realm ar ns name a)))"

section \<open>KeycloakAuthFlow\<close>

text \<open>A flow marked for deletion asks for the Admin API only when it has something to delete.\<close>

definition keycloak_auth_flow_finalizer :: string where
  "keycloak_auth_flow_finalizer = ''neteye.cloud/keycloak-auth-flow''"

definition zero_flow_spec :: keycloak_auth_flow_spec where
  "zero_flow_spec = \<lparr>fs_realm = [], fs_alias = [], fs_provider = [], fs_executions = [],
     fs_deletion_policy = OtherPolicy [], fs_bindings = []\<rparr>"

definition flow_spec_of :: "k8s_object \<Rightarrow> keycloak_auth_flow_spec" where
  "flow_spec_of ob = (case ob_content ob of FlowContent spec st \<Rightarrow> spec | _ \<Rightarrow> zero_flow_spec)"

definition with_flow_status :: "keycloak_auth_flow_status \<Rightarrow> k8s_object \<Rightarrow> k8s_object" where
  "with_flow_status st ob = ob\<lparr>ob_content := FlowContent (flow_spec_of ob) st\<rparr>"

definition set_flow_status ::
    "env \<Rightarrow> string \<Rightarrow> string \<Rightarrow> object_meta \<Rightarrow> service_state \<Rightarrow> string \<Rightarrow> unit op" where
  "set_flow_status env ns name meta state message =
     write_status env keycloak_auth_flow_gvk ns name
       (with_flow_status \<lparr>fst_status = state, fst_message = message,
          fst_observed_generation = meta_generation meta\<rparr>)"

definition flow_finalizer_title :: string where
  "flow_finalizer_title = ''keycloak authentication flow''"

definition delete_flow_resource :: "api_reconciler \<Rightarrow> k8s_object \<Rightarrow> outcome op" where
  "delete_flow_resource ar ob =
     (let spec = flow_spec_of ob;
          release = release_finalizer (ar_env ar) flow_finalizer_title keycloak_auth_flow_finalizer ob in
     if \<not> has_finalizer keycloak_auth_flow_finalizer ob then State_Monad.return (0, None)
     else if fs_deletion_policy spec \<noteq> PolicyOrphan
     then attempt (resource_admin_api ar (meta_namespace (ob_meta ob)))
            (\<lambda>e. if is_no_admin_credentials e then release else retry_later ar)
            (\<lambda>a. attempt (delete_declared_flow (ar_env ar) a spec)
                   (\<lambda>e. if is_permanent_delete e then release else retry_later ar) (\<lambda>_. release))
     else release)"

definition reconcile_live_flow :: "api_reconciler \<Rightarrow> string \<Rightarrow> string \<Rightarrow> nat \<Rightarrow> k8s_object \<Rightarrow> outcome op" where
  "reconcile_live_flow ar ns name a ob =
     failing_step ar (set_flow_status (ar_env ar) ns name (ob_meta ob))
       (reconcile_flow (ar_env ar) a (flow_spec_of ob)) (\<lambda>result.
     ready_pass ar (set_flow_status (ar_env ar) ns name (ob_meta ob))
       ''Keycloak authentication flow is reconciled'')"

definition reconcile_flow_resource :: "api_reconciler \<Rightarrow> string \<Rightarrow> string \<Rightarrow> outcome op" where
  "reconcile_flow_resource ar ns name =
     fetch_resource (ar_env ar) keycloak_auth_flow_gvk ns name (\<lambda>ob.
     if is_deleting ob then delete_flow_resource ar ob
     else attempt (resource_admin_api ar (meta_namespace (ob_meta ob)))
            (\<lambda>e. let (state, message) = admin_api_failure e (meta_namespace (ob_meta ob)) in
                 State_Monad.bind (set_flow_status (ar_env ar) ns name (ob_meta ob) state message)
                   (\<lambda>_. retry_later ar))
            (\<lambda>a. ensure_finalizer (ar_env ar) flow_finalizer_title keycloak_auth_flow_finalizer ob
                   (reconcile_live_flow ar ns name a)))"

section \<open>Living resources are looked at again\<close>

text \<open>A result the controller runtime queues again: a delay, or an error it backs off from.\<close>

definition queued_again :: "outcome \<Rightarrow> bool" where
  "queued_again out \<longleftrightarrow> 0 < fst out \<or> snd out \<noteq> None"

lemma queued_retry [returns_intros]: "returns queued_again (retry_later ar)"
  by (simp add: retry_later_def returns_def queued_again_def)

lemma queued_ready [returns_intros]: "returns queued_again (ready_pass ar set_status message)"
  unfolding ready_pass_def by (intro returns_intros) (simp add: queued_again_def)

lemma queued_failing [returns_intros]:
  "(\<And>x. returns queued_again (k x)) \<Longrightarrow> returns queued_again (failing_step ar set_status m k)"
  unfolding failing_step_def by (intro returns_intros)

lemma queued_ensure_finalizer [returns_intros]:
  "(\<And>x. returns queued_again (k x)) \<Longrightarrow> returns queued_again (ensure_finalizer env title f ob k)"
  unfolding ensure_finalizer_def by (intro returns_intros) (simp_all add: queued_again_def)

lemma queued_store_generated [returns_intros]:
  "returns queued_again k \<Longrightarrow> returns queued_again (store_generated ar ns uspec cred generated res set_status k)"
  unfolding store_generated_def by (intro returns_intros)

lemma queued_live [returns_intros]:
  "returns queued_again (reconcile_live_user ar ns name a ob)"
  "returns queued_again (reconcile_live_client ar ns name a ob)"
  "returns queued_again (reconcile_live_realm ar ns name a ob)"
  "returns queued_again (reconcile_live_flow ar ns name a ob)"
  unfolding reconcile_live_user_def reconcile_live_client_def reconcile_live_realm_def reconcile_live_flow_def
  by (intro returns_intros)+

lemma queued_with_admin_api:
  "\<not> is_deleting ob \<Longrightarrow> (\<And>a. returns queued_again (kont ob a)) \<Longrightarrow>
     returns queued_again (with_admin_api ar title f set_status kont ob)"
  unfolding with_admin_api_def by (intro returns_intros) simp_all

lemma run_fetched:
  "env_get env (st_trace s) k ns name = Inr ob \<Longrightarrow>
     run_state (fetch_resource env k ns name kont) s = run_state (kont ob) (record_call (K8sGet k ns name) s)"
  by (simp add: fetch_resource_def k8s_get_def)

lemma queued_fetched:
  "env_get env (st_trace s) k ns name = Inr ob \<Longrightarrow> returns queued_again (kont ob) \<Longrightarrow>
     queued_again (fst (run_state (fetch_resource env k ns name kont) s))"
  by (simp add: run_fetched returns_def)

lemma resource_passes_aux:
  assumes "env_get (ar_env ar) (st_trace s) k ns name = Inr ob" and "\<not> is_deleting ob"
    and "(k, pass) \<in> {(keycloak_user_gvk, reconcile_user_resource), (keycloak_client_gvk, reconcile_client_resource),
      (keycloak_realm_gvk, reconcile_realm_resource), (keycloak_auth_flow_gvk, reconcile_flow_resource)}"
  shows "queued_again (fst (run_state (pass ar ns name) s))"
proof -
  from assms(3) consider
      "k = keycloak_user_gvk" "pass = reconcile_user_resource"
    | "k = keycloak_client_gvk" "pass = reconcile_client_resource"
    | "k = keycloak_realm_gvk" "pass = reconcile_realm_resource"
    | "k = keycloak_auth_flow_gvk" "pass = reconcile_flow_resource"
    by blast
  then show ?thesis
    using assms(1,2)
    by cases (auto simp: reconcile_user_resource_def reconcile_client_resource_def reconcile_realm_resource_def
        reconcile_flow_resource_def intro!: queued_fetched queued_with_admin_api returns_intros)
qed

text \<open>
  A resource that is there and not being deleted is looked at again after every pass of
  its controller, whatever Keycloak, the Secrets or the API server answer: the pass ends with
  a positive delay or with an error. Keycloak offers no watch, so drift would otherwise go
  unnoticed.
\<close>

theorem resource_passes_come_back:
  assumes "env_get (ar_env ar) (st_trace s) k ns name = Inr ob" and "\<not> is_deleting ob"
    and "(k, pass) \<in> {(keycloak_user_gvk, reconcile_user_resource), (keycloak_client_gvk, reconcile_client_resource),
      (keycloak_realm_gvk, reconcile_realm_resource), (keycloak_auth_flow_gvk, reconcile_flow_resource)}"
  shows "queued_again (fst (run_state (pass ar ns name) s))"
  using assms by (rule resource_passes_aux)

text \<open>A KeycloakUser in a cluster whose Keycloak is not reachable and without admin Secrets.\<close>

definition sample_api_reconciler :: "k8s_object list \<Rightarrow> api_reconciler" where
  "sample_api_reconciler obs = \<lparr>ar_env = cluster_env obs, ar_keycloak_namespace = [],
     ar_failure_requeue_after = 0, ar_reconciliation_requeue_after = 0\<rparr>"

definition sample_user_object :: k8s_object where
  "sample_user_object = new_object keycloak_user_gvk ''team'' ''root'' (UserContent sample_user new_user_status)"

lemma sample_user_found [simp]:
  "memory_get [sample_user_object] [] keycloak_user_gvk ''team'' ''root'' = Inr sample_user_object"
  "\<not> is_deleting sample_user_object"
  by (simp_all add: memory_get_def sample_user_object_def has_key_def new_meta_def is_deleting_def)

theorem resource_passes_come_back_witness:
  "queued_again (fst (run_state (reconcile_user_resource (sample_api_reconciler [sample_user_object]) ''team'' ''root'')
     initial_state))"
  by (rule resource_passes_come_back [where k = keycloak_user_gvk and ob = sample_user_object])
     (simp_all add: sample_api_reconciler_def initial_state_def)

section \<open>An orphaned entity is not touched\<close>

text \<open>A call that leaves Keycloak as it is.\<close>

fun keycloak_untouched :: "call \<Rightarrow> bool" where
  "keycloak_untouched (AdminCall base m path body) = (m = GET)"
| "keycloak_untouched c = True"

lemma reads_untouched: "sends (\<lambda>m path body. False) c \<Longrightarrow> keycloak_untouched c"
  by (cases c) auto

lemma emits_verify_untouched [emits_intros]: "emits keycloak_untouched (verify_api env a)"
  by (rule emits_mono [OF _ reads_untouched]) (auto simp: verify_api_def intro!: emits_intros)

lemma emits_providers [emits_intros]:
  "emits P (alloc_provider pv)" "emits P (read_provider p)" "emits P (update_provider p f)"
  "emits P (alloc_admin_api base creds)" "emits P (evict_idle now max_age)" "emits P (lookup_provider ns)"
  "emits P (register_provider ns p now)"
  by (auto simp: alloc_provider_def read_provider_def update_provider_def alloc_admin_api_def evict_idle_def
      lookup_provider_def register_provider_def intro!: emits_intros)

lemma emits_resolution [emits_intros]:
  "emits keycloak_untouched (provider_for env endpoint ns)"
  "emits keycloak_untouched (get_bootstrap_api env p)"
  "emits keycloak_untouched (get_admin_api env p)"
  "emits keycloak_untouched (resource_admin_api ar ns)"
  unfolding provider_for_def get_bootstrap_api_def get_admin_api_def resource_admin_api_def
    internal_admin_credentials_def bootstrap_admin_credentials_def adopt_bootstrap_def store_api_def build_api_def
    verify_internal_def postpone_internal_def Let_def k8s_get_def read_clock_def
  by (auto intro!: emits_intros)

lemma emits_write_status [emits_intros]: "emits keycloak_untouched (write_status env k ns name set_status)"
  unfolding write_status_def k8s_get_def k8s_update_status_def by (auto intro!: emits_intros)

lemma emits_release [emits_intros]: "emits keycloak_untouched (release_finalizer env title f ob)"
  unfolding release_finalizer_def k8s_update_def by (auto intro!: emits_intros)

lemma emits_retry_later [emits_intros]: "emits P (retry_later ar)"
  unfolding retry_later_def by (intro emits_intros)

lemma emits_orphaned_deletion:
  "emits keycloak_untouched (finish_deletion ar title f PolicyOrphan delete_remote ob)"
  unfolding finish_deletion_def by (auto intro!: emits_intros)

lemma emits_orphaned_fetch:
  assumes "\<And>t ob. env_get env t k ns name = Inr ob \<Longrightarrow> good ob"
    and "\<And>ob. good ob \<Longrightarrow> emits keycloak_untouched (kont ob)"
  shows "emits keycloak_untouched (fetch_resource env k ns name kont)"
  unfolding emits_def
proof
  fix s
  show "\<exists>new. st_trace (snd (run_state (fetch_resource env k ns name kont) s)) = st_trace s @ new \<and>
      (\<forall>c \<in> set new. keycloak_untouched c)"
  proof (cases "env_get env (st_trace s) k ns name")
    case (Inl e)
    then show ?thesis by (auto simp: fetch_resource_def k8s_get_def)
  next
    case (Inr ob)
    obtain r s' where run: "run_state (kont ob) (record_call (K8sGet k ns name) s) = (r, s')" by fastforce
    with assms(2) [OF assms(1) [OF Inr]]
    obtain new where "st_trace s' = st_trace (record_call (K8sGet k ns name) s) @ new"
        "\<forall>c \<in> set new. keycloak_untouched c" by (rule emitsD)
    then show ?thesis using Inr run by (intro exI [of _ "K8sGet k ns name # new"]) (simp add: run_fetched)
  qed
qed

lemma emits_with_admin_api:
  assumes "is_deleting ob" and "\<And>a. emits keycloak_untouched (kont ob a)"
  shows "emits keycloak_untouched (with_admin_api ar title f set_status kont ob)"
  unfolding with_admin_api_def using assms by (auto intro!: emits_intros)

definition deletion_policy_of :: "gvk \<Rightarrow> k8s_object \<Rightarrow> deletion_policy" where
  "deletion_policy_of k ob =
     (if k = keycloak_user_gvk then us_deletion_policy (user_spec_of ob)
      else if k = keycloak_client_gvk then cs_deletion_policy (client_spec_of ob)
      else if k = keycloak_realm_gvk then rs_deletion_policy (realm_spec_of ob)
      else fs_deletion_policy (flow_spec_of ob))"

definition api_kinds :: "gvk set" where
  "api_kinds = {keycloak_user_gvk, keycloak_client_gvk, keycloak_realm_gvk, keycloak_auth_flow_gvk}"

lemma deletion_policies [simp]:
  "deletion_policy_of keycloak_user_gvk ob = us_deletion_policy (user_spec_of ob)"
  "deletion_policy_of keycloak_client_gvk ob = cs_deletion_policy (client_spec_of ob)"
  "deletion_policy_of keycloak_realm_gvk ob = rs_deletion_policy (realm_spec_of ob)"
  "deletion_policy_of keycloak_auth_flow_gvk ob = fs_deletion_policy (flow_spec_of ob)"
  by (simp_all add: deletion_policy_of_def keycloak_user_gvk_def keycloak_client_gvk_def keycloak_realm_gvk_def
      keycloak_auth_flow_gvk_def)

definition orphaned :: "gvk \<Rightarrow> k8s_object \<Rightarrow> bool" where
  "orphaned k ob \<longleftrightarrow> is_deleting ob \<and> deletion_policy_of k ob = PolicyOrphan"

text \<open>
  C15. Deleting a resource with the policy Orphan leaves Keycloak as it is: the pass of each
  of the four controllers sends it no request but reads, in particular no deletion, in
  whatever state the operator, the cluster and Keycloak are.
\<close>

theorem orphaned_entities_stay:
  assumes "\<forall>k \<in> api_kinds. \<forall>t ob. env_get (ar_env ar) t k ns name = Inr ob \<longrightarrow> orphaned k ob"
  shows "emits keycloak_untouched (reconcile_user_resource ar ns name) \<and>
    emits keycloak_untouched (reconcile_client_resource ar ns name) \<and>
    emits keycloak_untouched (reconcile_realm_resource ar ns name) \<and>
    emits keycloak_untouched (reconcile_flow_resource ar ns name)"
proof (intro conjI)
  have seen: "\<And>k t ob. k \<in> api_kinds \<Longrightarrow> env_get (ar_env ar) t k ns name = Inr ob \<Longrightarrow> orphaned k ob"
    using assms by blast
  note steps = emits_orphaned_fetch [OF seen] emits_with_admin_api emits_orphaned_deletion
  show "emits keycloak_untouched (reconcile_user_resource ar ns name)"
    unfolding reconcile_user_resource_def
    by (rule steps) (auto simp: api_kinds_def orphaned_def delete_user_resource_def intro!: steps)
  show "emits keycloak_untouched (reconcile_client_resource ar ns name)"
    unfolding reconcile_client_resource_def
    by (rule steps) (auto simp: api_kinds_def orphaned_def delete_client_resource_def intro!: steps)
  show "emits keycloak_untouched (reconcile_realm_resource ar ns name)"
    unfolding reconcile_realm_resource_def
    by (rule steps) (auto simp: api_kinds_def orphaned_def delete_realm_resource_def intro!: steps)
  show "emits keycloak_untouched (reconcile_flow_resource ar ns name)"
    unfolding reconcile_flow_resource_def
    by (rule steps) (auto simp: api_kinds_def orphaned_def delete_flow_resource_def Let_def intro!: emits_intros)
qed

text \<open>The four resources of one name, all of them orphaned and on their way out.\<close>

definition leaving :: "gvk \<Rightarrow> content \<Rightarrow> k8s_object" where
  "leaving k c = (new_object k ''team'' ''root'' c)\<lparr>ob_meta := (new_meta ''team'' ''root'')\<lparr>meta_deleting := True\<rparr>\<rparr>"

definition orphans :: "k8s_object list" where
  "orphans =
     [leaving keycloak_user_gvk (UserContent sample_user new_user_status),
      leaving keycloak_client_gvk (ClientContent (zero_client_spec\<lparr>cs_deletion_policy := PolicyOrphan\<rparr>) new_client_status),
      leaving keycloak_realm_gvk (RealmContent (zero_realm_spec\<lparr>rs_deletion_policy := PolicyOrphan\<rparr>) new_realm_status),
      leaving keycloak_auth_flow_gvk (FlowContent (zero_flow_spec\<lparr>fs_deletion_policy := PolicyOrphan\<rparr>) new_flow_status)]"

definition orphan_env :: env where
  "orphan_env = (cluster_env [])\<lparr>env_get := (\<lambda>t k ns n.
     case find (has_key k ns n) orphans of None \<Rightarrow> Inl (K8sErr NotFound ''not found'') | Some ob \<Rightarrow> Inr ob)\<rparr>"

lemma orphans_policies: "ob \<in> set orphans \<Longrightarrow> orphaned (ob_gvk ob) ob"
  by (auto simp: orphans_def leaving_def orphaned_def is_deleting_def user_spec_of_def client_spec_of_def
      realm_spec_of_def flow_spec_of_def sample_user_def)

theorem orphaned_entities_stay_witness:
  "emits keycloak_untouched (reconcile_realm_resource
     ((sample_api_reconciler [])\<lparr>ar_env := orphan_env\<rparr>) ''team'' ''root'') \<and>
   env_get orphan_env [] keycloak_realm_gvk ''team'' ''root'' = Inr (orphans ! 2)"
proof
  have "orphaned k ob" if "env_get orphan_env t k ''team'' ''root'' = Inr ob" for k t ob
    using that orphans_policies [of ob]
    by (auto simp: orphan_env_def has_key_def find_Some_iff split: option.splits) 
  then show "emits keycloak_untouched (reconcile_realm_resource
     ((sample_api_reconciler [])\<lparr>ar_env := orphan_env\<rparr>) ''team'' ''root'')"
    using orphaned_entities_stay [of "(sample_api_reconciler [])\<lparr>ar_env := orphan_env\<rparr>" "''team''" "''root''"]
    by simp
  show "env_get orphan_env [] keycloak_realm_gvk ''team'' ''root'' = Inr (orphans ! 2)"
    by (simp add: orphan_env_def orphans_def leaving_def has_key_def new_meta_def keycloak_user_gvk_def
        keycloak_client_gvk_def keycloak_realm_gvk_def)
qed

section \<open>A finalizer outlives its entity\<close>

text \<open>Keycloak accepted a request in this run: the call is in the trace and was answered with a 2xx.\<close>

definition acknowledged ::
    "env \<Rightarrow> trace \<Rightarrow> trace \<Rightarrow> http_method \<Rightarrow> string \<Rightarrow> json option \<Rightarrow> bool" where
  "acknowledged env t0 t m path body \<longleftrightarrow>
     (\<exists>before after base token code status raw.
        t = t0 @ before @ AdminCall base m path body # after \<and>
        env_admin env (t0 @ before) base m path token body = Answer code status raw \<and>
        200 \<le> code \<and> code \<le> 299)"

lemma acknowledged_append: "acknowledged env t0 t m path body \<Longrightarrow> acknowledged env t0 (t @ new) m path body"
  unfolding acknowledged_def by (metis append.assoc append_Cons)

lemma acknowledged_prefix:
  "acknowledged env (t0 @ x) t m path body \<Longrightarrow> acknowledged env t0 t m path body"
  unfolding acknowledged_def by (metis append.assoc)

lemma emitted: "emits P m \<Longrightarrow> run_state m s = (r, s') \<Longrightarrow> \<exists>new. st_trace s' = st_trace s @ new"
  by (erule (1) emitsD) blast

lemma read_answer_ok:
  "run_state (read_answer a m path answer) s = (Inr raw, s') \<Longrightarrow>
     s' = s \<and> (\<exists>code status. answer = Answer code status raw \<and> 200 \<le> code \<and> code \<le> 299)"
  by (cases answer) (auto simp: read_answer_def run_state_bind split: if_splits prod.splits)

lemma do_request_acknowledged:
  assumes "run_state (do_request env a m path body) s = (Inr raw, s')"
  shows "acknowledged env (st_trace s) (st_trace s') m path body"
proof -
  obtain token u where auth: "run_state (authenticate env a) s = (Inr token, u)"
    using assms by (auto simp: do_request_def split: prod.splits sum.splits)
  obtain before where before: "st_trace u = st_trace s @ before"
    using emitted [OF emits_authenticate auth] ..
  let ?base = "api_base_url (st_apis u ! a)"
  have "run_state (read_answer a m path (env_admin env (st_trace u) ?base m path token body))
      (record_call (AdminCall ?base m path body) u) = (Inr raw, s')"
    using assms auth by (simp add: do_request_def run_state_bind admin_request_def)
  from read_answer_ok [OF this] before show ?thesis
    unfolding acknowledged_def by (metis append.assoc record_call_simps(1))
qed

lemma do_send_acknowledged:
  "run_state (do_send env a m path body) s = (Inr u, s') \<Longrightarrow> acknowledged env (st_trace s) (st_trace s') m path body"
  by (auto simp: do_send_def split: prod.splits sum.splits dest: do_request_acknowledged)

text \<open>
  The contract of a deletion: it succeeds only when the lookup finds no entity, or Keycloak
  accepted the deletion of the one it found.
\<close>

definition remote_removed ::
    "env \<Rightarrow> op_state \<Rightarrow> op_state \<Rightarrow> representation option fallible \<Rightarrow> (representation \<Rightarrow> string) \<Rightarrow> bool" where
  "remote_removed env s s' lookup path_of \<longleftrightarrow>
     (case fst (run_state lookup s) of
        Inl e \<Rightarrow> False
      | Inr None \<Rightarrow> True
      | Inr (Some l) \<Rightarrow> acknowledged env (st_trace s) (st_trace s') DELETE (path_of l) None)"

lemma remote_removed_later:
  "remote_removed env s u lookup path_of \<Longrightarrow> st_trace s' = st_trace u @ new \<Longrightarrow>
     remote_removed env s s' lookup path_of"
  by (auto simp: remote_removed_def intro: acknowledged_append split: sum.splits option.splits)

definition new_calls :: "op_state \<Rightarrow> op_state \<Rightarrow> trace" where
  "new_calls s s' = drop (length (st_trace s)) (st_trace s')"

lemma new_calls_simps [simp]: "new_calls s s = []" "new_calls s (record_call c s) = [c]"
  by (simp_all add: new_calls_def)

lemma new_calls_emits:
  assumes "emits P m" and "run_state m s = (r, s')" and "c \<in> set (new_calls s s')"
  shows "P c"
  using assms(3) by (rule_tac emitsD [OF assms(1,2)]) (auto simp: new_calls_def)

locale deletable_entity =
  fixes env :: env and delete :: "unit fallible" and lookup :: "representation option fallible"
    and path_of :: "representation \<Rightarrow> string"
  assumes removes: "run_state delete s = (Inr (), s') \<Longrightarrow> remote_removed env s s' lookup path_of"
    and talks_to_keycloak: "emits (sends (\<lambda>m path body. True)) delete"
begin

text \<open>A deletion itself updates no Kubernetes object, so an update is the release.\<close>

lemma no_update: "run_state delete s = (r, u) \<Longrightarrow> K8sUpdate x \<notin> set (new_calls s u)"
  by (auto dest!: new_calls_emits [OF talks_to_keycloak])

lemma attempt_releases:
  assumes "run_state (attempt delete (\<lambda>e. retry_later ar) (\<lambda>_. release_finalizer env title f ob)) s = (r, s')"
    and "K8sUpdate x \<in> set (new_calls s s')"
  shows "x = without_finalizer f ob \<and> remote_removed env s s' lookup path_of"
proof -
  obtain out u where run: "run_state delete s = (out, u)" by fastforce
  obtain before where before: "st_trace u = st_trace s @ before" using emitted [OF talks_to_keycloak run] ..
  show ?thesis
  proof (cases out)
    case (Inl e)
    then show ?thesis using assms no_update [OF run] run by (simp add: retry_later_def)
  next
    case (Inr y)
    then have "st_trace s' = st_trace u @ [K8sUpdate (without_finalizer f ob)]"
      using assms(1) run by (auto simp: release_finalizer_def k8s_update_def split: sum.splits)
    then show ?thesis
      using assms(2) no_update [OF run] remote_removed_later [OF removes] run Inr before
      by (auto simp: new_calls_def)
  qed
qed

lemma finish_releases:
  assumes "run_state (finish_deletion ar title f policy delete ob) s = (r, s')" and "ar_env ar = env"
    and "K8sUpdate x \<in> set (new_calls s s')" and "policy \<noteq> PolicyOrphan"
  shows "x = without_finalizer f ob \<and> remote_removed env s s' lookup path_of"
  using assms attempt_releases [of ar title f ob s r s' x]
  by (auto simp: finish_deletion_def split: if_splits)

end

lemma lookup_then_delete:
  assumes "run_state (try_wrap t lookup (\<lambda>live. case live of None \<Rightarrow> ok ()
      | Some l \<Rightarrow> try_wrap t' (do_send env a DELETE (path_of l) None) ok)) s = (Inr (), s')"
    and "emits (sends (\<lambda>m path body. True)) lookup"
  shows "remote_removed env s s' lookup path_of"
proof -
  obtain live u where run: "run_state lookup s = (Inr live, u)"
    using assms(1) by (auto split: prod.splits sum.splits)
  obtain before where "st_trace u = st_trace s @ before" using emitted [OF assms(2) run] ..
  then show ?thesis
    using assms(1) run
    by (auto simp: remote_removed_def split: option.splits prod.splits sum.splits
        dest!: do_send_acknowledged acknowledged_prefix)
qed

interpretation account: deletable_entity env "delete_declared_user env a spec"
    "get_user env a (user_realm spec) (us_username spec)"
    "\<lambda>l. user_path (user_realm spec) (string_value l ''id'') []" for env a spec
  unfolding delete_declared_user_def delete_user_def Let_def
  by unfold_locales (erule lookup_then_delete, auto intro!: emits_intros)

interpretation remote_client: deletable_entity env "delete_declared_client env a spec"
    "get_client env a (client_realm spec) (cs_client_id spec)"
    "\<lambda>l. client_path (client_realm spec) (string_value l ''id'') []" for env a spec
  unfolding delete_declared_client_def delete_client_def Let_def
  by unfold_locales (erule lookup_then_delete, auto intro!: emits_intros)

text \<open>
  Resolving the client updates nothing either, so the release of a resource in its deletion
  pass has one of two reasons.
\<close>

definition released_soundly ::
    "api_reconciler \<Rightarrow> string \<Rightarrow> op_state \<Rightarrow> op_state \<Rightarrow> (nat \<Rightarrow> representation option fallible) \<Rightarrow>
     (representation \<Rightarrow> string) \<Rightarrow> bool" where
  "released_soundly ar own s s' lookup path_of \<longleftrightarrow>
     (case run_state (resource_admin_api ar own) s of
        (Inl e, u) \<Rightarrow> is_no_admin_credentials e
      | (Inr a, u) \<Rightarrow> remote_removed (ar_env ar) u s' (lookup a) path_of)"

lemma emits_resolution_reads:
  "emits reads_cluster (resource_admin_api ar ns)"
  unfolding provider_for_def get_bootstrap_api_def get_admin_api_def resource_admin_api_def
    internal_admin_credentials_def bootstrap_admin_credentials_def adopt_bootstrap_def store_api_def build_api_def
    verify_internal_def postpone_internal_def Let_def k8s_get_def read_clock_def
  by (auto intro!: emits_intros)

lemma resolution_updates_nothing:
  "run_state (resource_admin_api ar ns) s = (r, u) \<Longrightarrow> K8sUpdate x \<notin> set (new_calls s u)"
  by (auto dest!: new_calls_emits [OF emits_resolution_reads])

lemma new_calls_split:
  "run_state m s = (r, u) \<Longrightarrow> run_state n u = (r', s') \<Longrightarrow> emits P m \<Longrightarrow> emits Q n \<Longrightarrow>
     new_calls s s' = new_calls s u @ new_calls u s'"
  by (auto dest!: emitted simp: new_calls_def)

lemma emits_finish_any:
  "emits P delete_remote \<Longrightarrow> emits (\<lambda>c. True) (finish_deletion ar title f policy delete_remote ob)"
  unfolding finish_deletion_def release_finalizer_def k8s_update_def retry_later_def
  by (auto intro!: emits_intros intro: emits_mono)

lemma emits_release_any: "emits (\<lambda>c. True) (release_finalizer env title f ob)"
  unfolding release_finalizer_def k8s_update_def by (auto intro!: emits_intros)

lemma run_release:
  "run_state (release_finalizer env title f ob) s = (r, s') \<Longrightarrow>
     st_trace s' = st_trace s @ [K8sUpdate (without_finalizer f ob)]"
  by (auto simp: release_finalizer_def k8s_update_def split: sum.splits)

lemma resolved_release:
  assumes run: "run_state (with_admin_api ar title f set_status kont ob) s = (r, s')"
    and deleting: "is_deleting ob" and policy: "policy \<noteq> PolicyOrphan"
    and kont: "\<And>a. kont ob a = finish_deletion ar title f policy (delete a) ob"
    and entity: "\<And>a. deletable_entity (ar_env ar) (delete a) (lookup a) path_of"
    and update: "K8sUpdate x \<in> set (new_calls s s')"
  shows "x = without_finalizer f ob \<and>
    released_soundly ar (meta_namespace (ob_meta ob)) s s' lookup path_of"
proof -
  obtain res u where res: "run_state (resource_admin_api ar (meta_namespace (ob_meta ob))) s = (res, u)"
    by fastforce
  show ?thesis
  proof (cases res)
    case (Inl e)
    show ?thesis
    proof (cases "is_no_admin_credentials e")
      case True
      then have release: "run_state (release_finalizer (ar_env ar) title f ob) u = (r, s')"
        using run res Inl deleting by (simp add: with_admin_api_def)
      have "new_calls s s' = new_calls s u @ new_calls u s'"
        using res release emits_resolution_reads emits_release_any by (rule new_calls_split)
      moreover have "new_calls u s' = [K8sUpdate (without_finalizer f ob)]"
        using run_release [OF release] by (simp add: new_calls_def)
      ultimately show ?thesis
        using update resolution_updates_nothing [OF res] True Inl res by (auto simp: released_soundly_def)
    next
      case False
      then show ?thesis
        using run res Inl deleting update resolution_updates_nothing [OF res]
        by (simp add: with_admin_api_def retry_later_def)
    qed
  next
    case (Inr a)
    then have finish: "run_state (finish_deletion ar title f policy (delete a) ob) u = (r, s')"
      using run res kont by (simp add: with_admin_api_def)
    have "new_calls s s' = new_calls s u @ new_calls u s'"
      using res finish emits_resolution_reads emits_finish_any
        [OF deletable_entity.talks_to_keycloak [OF entity]] by (rule new_calls_split)
    then have "K8sUpdate x \<in> set (new_calls u s')" using update resolution_updates_nothing [OF res] by auto
    from deletable_entity.finish_releases [OF entity finish refl this policy] show ?thesis
      using res Inr by (simp add: released_soundly_def)
  qed
qed

lemma fetched_new_calls:
  assumes "env_get env (st_trace s) k ns name = Inr ob"
    and "run_state (fetch_resource env k ns name kont) s = (r, s')"
    and "emits P (kont ob)" and "K8sUpdate x \<in> set (new_calls s s')"
  shows "run_state (kont ob) (record_call (K8sGet k ns name) s) = (r, s') \<and>
    K8sUpdate x \<in> set (new_calls (record_call (K8sGet k ns name) s) s')"
proof -
  have run: "run_state (kont ob) (record_call (K8sGet k ns name) s) = (r, s')"
    using assms(1,2) by (simp add: run_fetched)
  with emitted [OF assms(3)] assms(4) show ?thesis by (fastforce simp: new_calls_def)
qed

lemma emits_deletion_pass:
  assumes "is_deleting ob" and "\<And>a. kont ob a = finish_deletion ar title f policy (delete a) ob"
    and "\<And>a. emits P (delete a)"
  shows "emits (\<lambda>c. True) (with_admin_api ar title f set_status kont ob)"
  unfolding with_admin_api_def retry_later_def
  using assms
  by (auto intro!: emits_attempt emits_return emits_release_any emits_finish_any
      intro: emits_mono [OF emits_resolution_reads] emits_if)

text \<open>A user on its way out in a namespace without admin Secrets.\<close>

definition doomed_user :: k8s_object where
  "doomed_user = with_finalizer keycloak_user_finalizer
     (leaving keycloak_user_gvk (UserContent (sample_user\<lparr>us_deletion_policy := PolicyDelete\<rparr>) new_user_status))"

definition doomed_env :: env where
  "doomed_env = (cluster_env [])\<lparr>env_get := (\<lambda>t k ns n.
     if k = keycloak_user_gvk then Inr doomed_user else Inl (K8sErr NotFound ''not found''))\<rparr>"

definition doomed_reconciler :: api_reconciler where
  "doomed_reconciler = (sample_api_reconciler [])\<lparr>ar_env := doomed_env\<rparr>"

lemma secret_is_no_user [simp]: "secret_gvk \<noteq> keycloak_user_gvk"
  by (simp add: secret_gvk_def keycloak_user_gvk_def)

lemma doomed_facts [simp]:
  "env_get doomed_env t keycloak_user_gvk ns n = Inr doomed_user"
  "env_get doomed_env t secret_gvk ns n = Inl (K8sErr NotFound ''not found'')"
  "env_now doomed_env t = 0" "env_update doomed_env t ob = Inr ob"
  "is_deleting doomed_user" "us_deletion_policy (user_spec_of doomed_user) = PolicyDelete"
  "meta_namespace (ob_meta doomed_user) = ''team''" "ar_env doomed_reconciler = doomed_env"
  "keycloak_namespace doomed_reconciler = workload_namespace"
  by (simp_all add: doomed_env_def doomed_user_def leaving_def with_finalizer_def set_finalizers_def new_meta_def
      is_deleting_def user_spec_of_def doomed_reconciler_def sample_api_reconciler_def keycloak_namespace_def)

lemma doomed_resolution:
  "\<exists>msg s'. run_state (resource_admin_api doomed_reconciler ''team'') (record_call c initial_state)
     = (Inl (NoAdminCredentials msg), s')"
  by (simp add: resource_admin_api_def provider_for_def get_admin_api_def get_bootstrap_api_def
      bootstrap_admin_credentials_def run_state_bind read_clock_def evict_idle_def lookup_provider_def
      alloc_provider_def register_provider_def k8s_get_def initial_state_def new_admin_provider_def
      workload_namespace_def)

lemma doomed_run:
  "\<exists>r s'. run_state (reconcile_user_resource doomed_reconciler ''team'' ''root'') initial_state = (r, s') \<and>
     K8sUpdate (without_finalizer keycloak_user_finalizer doomed_user) \<in> set (new_calls initial_state s')"
proof -
  let ?s = "record_call (K8sGet keycloak_user_gvk ''team'' ''root'') initial_state"
  obtain msg u where res: "run_state (resource_admin_api doomed_reconciler ''team'') ?s
      = (Inl (NoAdminCredentials msg), u)" using doomed_resolution by blast
  obtain before where before: "st_trace u = st_trace ?s @ before" using emitted [OF emits_resolution_reads res] ..
  let ?final = "record_call (K8sUpdate (without_finalizer keycloak_user_finalizer doomed_user)) u"
  have "run_state (reconcile_user_resource doomed_reconciler ''team'' ''root'') initial_state = ((0, None), ?final)"
    using res by (simp add: reconcile_user_resource_def run_fetched with_admin_api_def release_finalizer_def k8s_update_def)
  moreover have "K8sUpdate (without_finalizer keycloak_user_finalizer doomed_user) \<in> set (new_calls initial_state ?final)"
    using before by (simp add: new_calls_def)
  ultimately show ?thesis by blast
qed

section \<open>Status writes that go through\<close>

text \<open>A status write goes through where the resource is found and the update is taken.\<close>

definition takes_status :: "env \<Rightarrow> gvk \<Rightarrow> string \<Rightarrow> string \<Rightarrow> bool" where
  "takes_status env k ns nam \<longleftrightarrow>
     (\<forall>t. \<exists>ob. env_get env t k ns nam = Inr ob) \<and> (\<forall>t ob. \<not> isl (env_update_status env t ob))"

lemma retry_first: "run_state m s = (Inr x, s') \<Longrightarrow> run_state (retry_on_conflict n m) s = (Inr x, s')"
  by (cases n) simp_all

lemma status_written:
  assumes "takes_status env k ns nam"
  obtains ob s' where "run_state (write_status env k ns nam f) s = ((), s')"
    and "st_trace s' = st_trace s @ [K8sGet k ns nam, K8sUpdateStatus (f ob)]"
proof -
  obtain ob where ob: "env_get env (st_trace s) k ns nam = Inr ob" using assms unfolding takes_status_def by blast
  obtain x where x: "env_update_status env (st_trace s @ [K8sGet k ns nam]) (f ob) = Inr x"
    using assms unfolding takes_status_def isl_def by (metis sum.exhaust)
  let ?s' = "record_call (K8sUpdateStatus (f ob)) (record_call (K8sGet k ns nam) s)"
  have "run_state (attempt (k8s_get env k ns nam) (\<lambda>e. if is_not_found e then ok () else fail e)
      (\<lambda>current. try_ok (k8s_update_status env (f current)) (\<lambda>_. ok ()))) s = (Inr (), ?s')"
    using ob x by (simp add: k8s_get_def k8s_update_status_def)
  from retry_first [OF this] have "run_state (write_status env k ns nam f) s = ((), ?s')"
    by (simp add: write_status_def)
  then show thesis by (rule that) simp
qed

section \<open>What a status write sends\<close>

fun status_call :: "gvk \<Rightarrow> string \<Rightarrow> string \<Rightarrow> call \<Rightarrow> bool" where
  "status_call k ns name (K8sGet k' ns' n') = (k' = k \<and> ns' = ns \<and> n' = name)"
| "status_call k ns name (K8sUpdateStatus ob) = True"
| "status_call k ns name c = False"

text \<open>
  The calls \<open>new\<close> made from the trace \<open>t\<close> on write a status onto the live object: an update
  directly follows a read that succeeded and carries the object just read with its status
  set, so nothing else of it is sent back stale; only a conflict is followed by another call.
\<close>

definition update_is_fresh ::
    "env \<Rightarrow> gvk \<Rightarrow> string \<Rightarrow> string \<Rightarrow> (k8s_object \<Rightarrow> k8s_object) \<Rightarrow> trace \<Rightarrow> k8s_object \<Rightarrow> bool \<Rightarrow> bool" where
  "update_is_fresh env k ns name f t ob final \<longleftrightarrow>
     (\<exists>pre cur. t = pre @ [K8sGet k ns name] \<and> env_get env pre k ns name = Inr cur \<and> ob = f cur) \<and>
     (final \<or> (\<exists>e. env_update_status env t ob = Inl e \<and> is_conflict e))"

definition read_goes_on ::
    "env \<Rightarrow> gvk \<Rightarrow> string \<Rightarrow> string \<Rightarrow> (k8s_object \<Rightarrow> k8s_object) \<Rightarrow> trace \<Rightarrow> call list \<Rightarrow> bool" where
  "read_goes_on env k ns name f t rest \<longleftrightarrow>
     (case env_get env t k ns name of
        Inl e \<Rightarrow> rest = [] \<or> is_conflict e
      | Inr cur \<Rightarrow> rest \<noteq> [] \<and> hd rest = K8sUpdateStatus (f cur))"

definition fresh_writes ::
    "env \<Rightarrow> gvk \<Rightarrow> string \<Rightarrow> string \<Rightarrow> (k8s_object \<Rightarrow> k8s_object) \<Rightarrow> trace \<Rightarrow> call list \<Rightarrow> bool" where
  "fresh_writes env k ns name f t new \<longleftrightarrow>
     (\<forall>before c after. new = before @ c # after \<longrightarrow> status_call k ns name c \<and>
        (\<forall>ob. c = K8sUpdateStatus ob \<longrightarrow> update_is_fresh env k ns name f (t @ before) ob (after = [])) \<and>
        (c = K8sGet k ns name \<longrightarrow> read_goes_on env k ns name f (t @ before) after))"

lemma fresh_writes_read:
  assumes "env_get env t k ns name = Inl e" and "is_conflict e \<or> rest = []"
    and "fresh_writes env k ns name f (t @ [K8sGet k ns name]) rest"
  shows "fresh_writes env k ns name f t (K8sGet k ns name # rest)"
  using assms unfolding fresh_writes_def by (auto simp: Cons_eq_append_conv read_goes_on_def)

lemma fresh_writes_update:
  assumes "env_get env t k ns name = Inr cur"
    and "rest = [] \<or> (\<exists>e. env_update_status env (t @ [K8sGet k ns name]) (f cur) = Inl e \<and> is_conflict e)"
    and "fresh_writes env k ns name f (t @ [K8sGet k ns name, K8sUpdateStatus (f cur)]) rest"
  shows "fresh_writes env k ns name f t (K8sGet k ns name # K8sUpdateStatus (f cur) # rest)"
  using assms unfolding fresh_writes_def
  by (auto simp: Cons_eq_append_conv read_goes_on_def update_is_fresh_def)

lemma fresh_writes_Nil: "fresh_writes env k ns name f t []"
  by (simp add: fresh_writes_def)

definition status_round ::
    "env \<Rightarrow> gvk \<Rightarrow> string \<Rightarrow> string \<Rightarrow> (k8s_object \<Rightarrow> k8s_object) \<Rightarrow> unit fallible" where
  "status_round env k ns name f =
     attempt (k8s_get env k ns name) (\<lambda>e. if is_not_found e then ok () else fail e)
       (\<lambda>current. try_ok (k8s_update_status env (f current)) (\<lambda>_. ok ()))"

lemma status_round_calls:
  assumes "run_state (status_round env k ns name f) s = (r, u)"
  shows "\<exists>new. st_trace u = st_trace s @ K8sGet k ns name # new \<and>
    (\<forall>rest. rest = [] \<or> (\<exists>e. r = Inl e \<and> is_conflict e) \<longrightarrow> fresh_writes env k ns name f (st_trace u) rest \<longrightarrow>
       fresh_writes env k ns name f (st_trace s) (K8sGet k ns name # new @ rest))"
proof (cases "env_get env (st_trace s) k ns name")
  case (Inl e)
  with assms show ?thesis
    by (intro exI [of _ "[]"])
      (auto simp: status_round_def k8s_get_def is_not_found_def intro: fresh_writes_read split: if_splits)
next
  case (Inr cur)
  with assms show ?thesis
    by (intro exI [of _ "[K8sUpdateStatus (f cur)]"])
      (auto simp: status_round_def k8s_get_def k8s_update_status_def intro!: fresh_writes_update split: sum.splits)
qed

lemma status_retry_calls:
  "\<exists>new. st_trace (snd (run_state (retry_on_conflict n (status_round env k ns name f)) s)) = st_trace s @ K8sGet k ns name # new \<and>
    fresh_writes env k ns name f (st_trace s) (K8sGet k ns name # new)"
proof (induction n arbitrary: s)
  case 0
  obtain r u where run: "run_state (status_round env k ns name f) s = (r, u)" by force
  from status_round_calls [OF this] fresh_writes_Nil show ?case using run by force
next
  case (Suc n)
  obtain r u where run: "run_state (status_round env k ns name f) s = (r, u)" by force
  from status_round_calls [OF this] obtain new where new: "st_trace u = st_trace s @ K8sGet k ns name # new"
      "\<And>rest. rest = [] \<or> (\<exists>e. r = Inl e \<and> is_conflict e) \<Longrightarrow> fresh_writes env k ns name f (st_trace u) rest \<Longrightarrow>
         fresh_writes env k ns name f (st_trace s) (K8sGet k ns name # new @ rest)" by blast
  show ?case
  proof (cases "\<exists>e. r = Inl e \<and> is_conflict e")
    case True
    then have step: "run_state (retry_on_conflict (Suc n) (status_round env k ns name f)) s =
        run_state (retry_on_conflict n (status_round env k ns name f)) u" using run by auto
    obtain rest where "st_trace (snd (run_state (retry_on_conflict n (status_round env k ns name f)) u)) = st_trace u @ rest"
        "fresh_writes env k ns name f (st_trace u) rest" using Suc.IH by blast
    then show ?thesis unfolding step using new(1) new(2) [of rest] True by (intro exI [of _ "new @ rest"]) simp
  next
    case False
    then have "run_state (retry_on_conflict (Suc n) (status_round env k ns name f)) s = (r, u)"
      using run by (auto split: sum.split)
    then show ?thesis using new(1) new(2) [of "[]"] fresh_writes_Nil by force
  qed
qed

text \<open>
  C38. A controller never writes a stale object back. Writing a status reads the resource first
  and sends nothing but such reads and status updates; a read that succeeds is directly
  followed by an update that carries exactly the object just read with its status set, and
  there is no other update; an update is followed by another call only when the API server
  answered it with a conflict, and a read that failed without one, such as that of a resource
  that is gone, is the last call.
\<close>

theorem status_written_onto_live_object:
  "\<exists>new. st_trace (snd (run_state (write_status env k ns name f) s)) = st_trace s @ K8sGet k ns name # new \<and>
     fresh_writes env k ns name f (st_trace s) (K8sGet k ns name # new)"
  using status_retry_calls [of "env_retries env" env k ns name f s]
  unfolding write_status_def status_round_def [symmetric]
  by (cases "run_state (retry_on_conflict (env_retries env) (status_round env k ns name f)) s")
     (auto split: sum.split)

end
