(* ===== verification/User_Passwords.thy ===== *)
theory User_Passwords
  imports Keycloak_Controllers
begin

text \<open>
  What becomes of a generated password (\<^verbatim>\<open>controllers/keycloakuser_controller.go\<close>): it reaches
  the Secret only after Keycloak accepted it for the account, and it is lost for good when
  the Secret cannot be written after the account was created.
\<close>

section \<open>A stored password was accepted\<close>

definition carries_password :: "string \<Rightarrow> json \<Rightarrow> bool" where
  "carries_password v body \<longleftrightarrow>
     (case body of
        JObj m \<Rightarrow>
          map_of m ''value'' = Some (JStr v) \<or>
          (case map_of m ''credentials'' of
             Some (JArr [JObj c]) \<Rightarrow> map_of c ''value'' = Some (JStr v)
           | _ \<Rightarrow> False)
      | _ \<Rightarrow> False)"

definition accepted_password :: "env \<Rightarrow> trace \<Rightarrow> trace \<Rightarrow> string \<Rightarrow> bool" where
  "accepted_password env t0 t v \<longleftrightarrow>
     (\<exists>m path body. acknowledged env t0 t m path (Some body) \<and> carries_password v body)"

text \<open>Every password stored since \<open>t0\<close> was accepted between \<open>t0\<close> and its storing.\<close>

definition stores_accepted :: "env \<Rightarrow> trace \<Rightarrow> trace \<Rightarrow> bool" where
  "stores_accepted env t0 t \<longleftrightarrow>
     (\<exists>new. t = t0 @ new) \<and>
     (\<forall>before ns n key v after. t = t0 @ before @ StoreSecretKey ns n key v # after \<longrightarrow>
        accepted_password env t0 (t0 @ before) v)"

fun no_store :: "call \<Rightarrow> bool" where
  "no_store (StoreSecretKey ns n key v) = False"
| "no_store c = True"

lemma accepted_append: "accepted_password env t0 t v \<Longrightarrow> accepted_password env t0 (t @ new) v"
  unfolding accepted_password_def by (blast intro: acknowledged_append)

lemma stores_accepted_start [simp]: "stores_accepted env t t"
  by (simp add: stores_accepted_def)

lemma split_around:
  "xs @ c # ys = us @ vs \<Longrightarrow> c \<notin> set vs \<Longrightarrow> \<exists>ws. us = xs @ c # ws \<and> ys = ws @ vs"
  by (auto simp: append_eq_append_conv2 append_eq_Cons_conv Cons_eq_append_conv)

lemma stores_accepted_append:
  assumes "stores_accepted env t0 t" and "\<forall>c \<in> set new. no_store c"
  shows "stores_accepted env t0 (t @ new)"
  unfolding stores_accepted_def
proof (intro conjI allI impI)
  obtain past where past: "t = t0 @ past" using assms(1) unfolding stores_accepted_def by blast
  then show "\<exists>more_calls. t @ new = t0 @ more_calls" by simp
  fix before ns n key v after
  assume "t @ new = t0 @ before @ StoreSecretKey ns n key v # after"
  then have "before @ StoreSecretKey ns n key v # after = past @ new" using past by simp
  moreover have "StoreSecretKey ns n key v \<notin> set new" using assms(2) by auto
  ultimately obtain ws where "past = before @ StoreSecretKey ns n key v # ws" using split_around by metis
  then show "accepted_password env t0 (t0 @ before) v"
    using assms(1) past unfolding stores_accepted_def by blast
qed

lemma stores_accepted_store:
  assumes "stores_accepted env t0 t" and "accepted_password env t0 t v"
  shows "stores_accepted env t0 (t @ [StoreSecretKey ns n key v])"
  unfolding stores_accepted_def
proof (intro conjI allI impI)
  obtain past where past: "t = t0 @ past" using assms(1) unfolding stores_accepted_def by blast
  then show "\<exists>more_calls. t @ [StoreSecretKey ns n key v] = t0 @ more_calls" by simp
  fix before ns' n' key' v' after
  assume "t @ [StoreSecretKey ns n key v] = t0 @ before @ StoreSecretKey ns' n' key' v' # after"
  then have eq: "past @ [StoreSecretKey ns n key v] = before @ StoreSecretKey ns' n' key' v' # after"
    using past by simp
  show "accepted_password env t0 (t0 @ before) v'"
  proof (cases after rule: rev_cases)
    case Nil
    then show ?thesis using eq assms(2) past by simp
  next
    case (snoc ws c)
    then have "past = before @ StoreSecretKey ns' n' key' v' # ws" using eq by simp
    then show ?thesis using assms(1) past unfolding stores_accepted_def by blast
  qed
qed

subsection \<open>Steps that store nothing\<close>

lemma sends_no_store: "sends P c \<Longrightarrow> no_store c"
  by (cases c) auto

lemma emits_sends_no_store: "emits (sends (\<lambda>m path body. True)) m \<Longrightarrow> emits no_store m"
  by (erule emits_mono) (rule sends_no_store)

lemma reads_no_store: "reads_cluster c \<Longrightarrow> no_store c"
  by (cases c) auto

lemma emits_append_random: "emits (\<lambda>c. \<exists>n. c = DrawRandom n) (append_random env alphabet n password)"
  by (induction n arbitrary: password)
     (auto simp: random_character_def draw_random_def intro!: emits_intros)

lemma emits_shuffle_from: "emits (\<lambda>c. \<exists>n. c = DrawRandom n) (shuffle_from env n password)"
  by (induction n arbitrary: password) (auto simp: draw_random_def intro!: emits_intros)

text \<open>Generating a password draws random numbers and does nothing else.\<close>

lemma emits_generate: "emits (\<lambda>c. \<exists>n. c = DrawRandom n) (generate_password env policy)"
  unfolding generate_password_def walk_classes_def place_required_def shuffle_password_def
  by (auto intro!: emits_intros emits_append_random emits_shuffle_from)

lemma emits_no_store [emits_intros]:
  "emits no_store (resource_admin_api ar ns)"
  "emits no_store (write_status env k ns' name set_status)"
  "emits no_store (release_finalizer env title f ob)"
  "emits no_store (user_credential_for env a ns uspec st)"
  "emits no_store (reconcile_user env a uspec cred)"
  "emits no_store (delete_declared_user env a uspec)"
proof -
  show "emits no_store (resource_admin_api ar ns)"
    by (rule emits_mono [OF emits_resolution_reads reads_no_store])
  show "emits no_store (write_status env k ns' name set_status)"
    unfolding write_status_def k8s_get_def k8s_update_status_def by (auto intro!: emits_intros)
  show "emits no_store (release_finalizer env title f ob)"
    unfolding release_finalizer_def k8s_update_def by (auto intro!: emits_intros)
  show "emits no_store (reconcile_user env a uspec cred)"
    by (rule emits_mono [OF account_writes sends_no_store])
  show "emits no_store (delete_declared_user env a uspec)"
    by (rule emits_mono [OF account.talks_to_keycloak sends_no_store])
  have "emits no_store (user_password_policy env a uspec)"
    unfolding user_password_policy_def by (intro emits_sends_no_store emits_intros)
  moreover have "emits no_store (generate_password env policy)" for policy
    by (rule emits_mono [OF emits_generate]) auto
  ultimately show "emits no_store (user_credential_for env a ns uspec st)"
    unfolding user_credential_for_def stored_password_def k8s_get_def Let_def
    by (auto intro!: emits_intros)
qed

subsection \<open>Along the pass\<close>

text \<open>The two assertions of the proof: all stores were accepted, and so was this password.\<close>

abbreviation so_far :: "env \<Rightarrow> trace \<Rightarrow> trace \<Rightarrow> bool" where
  "so_far \<equiv> stores_accepted"

definition and_accepted :: "env \<Rightarrow> trace \<Rightarrow> string \<Rightarrow> trace \<Rightarrow> bool" where
  "and_accepted env t0 v t \<longleftrightarrow> stores_accepted env t0 t \<and> accepted_password env t0 t v"

lemma triple_so_far: "emits no_store m \<Longrightarrow> triple (so_far env t0) m (\<lambda>r. so_far env t0)"
  by (erule triple_calls) (rule stores_accepted_append)

lemma triple_and_accepted: "emits no_store m \<Longrightarrow> triple (and_accepted env t0 v) m (\<lambda>r. and_accepted env t0 v)"
  by (erule triple_calls) (simp add: and_accepted_def stores_accepted_append accepted_append)

lemma triple_sent_password:
  assumes "carries_password v body"
  shows "triple (so_far env t0) (do_send env a m path (Some body))
     (\<lambda>r t. so_far env t0 t \<and> (\<forall>u. r = Inr u \<longrightarrow> and_accepted env t0 v t))"
proof (unfold triple_def, intro allI impI)
  fix s r s'
  assume before: "so_far env t0 (st_trace s)" and run: "run_state (do_send env a m path (Some body)) s = (r, s')"
  have "emits no_store (do_send env a m path (Some body))"
    by (intro emits_sends_no_store emits_intros) simp
  then have after: "so_far env t0 (st_trace s')"
    using tripleD [OF triple_so_far before run] by blast
  have "accepted_password env t0 (st_trace s') v" if "r = Inr u" for u
    using do_send_acknowledged [of env a m path "Some body" s "()" s'] run that before assms
    unfolding accepted_password_def stores_accepted_def
    by (metis acknowledged_prefix old.unit.exhaust)
  with after show "so_far env t0 (st_trace s') \<and> (\<forall>u. r = Inr u \<longrightarrow> and_accepted env t0 v (st_trace s'))"
    by (simp add: and_accepted_def)
qed

text \<open>What a step guarantees about its result: a reported password was accepted.\<close>

definition password_post ::
    "env \<Rightarrow> trace \<Rightarrow> string \<Rightarrow> (go_err + user_sync_result) \<Rightarrow> trace \<Rightarrow> bool" where
  "password_post env t0 v r t \<longleftrightarrow>
     so_far env t0 t \<and>
     (case r of Inl e \<Rightarrow> True | Inr res \<Rightarrow> ur_password_set res \<longrightarrow> and_accepted env t0 v t)"

lemma password_post_intros:
  "so_far env t0 t \<Longrightarrow> password_post env t0 v (Inl e) t"
  "so_far env t0 t \<Longrightarrow> \<not> ur_password_set res \<Longrightarrow> password_post env t0 v (Inr res) t"
  "and_accepted env t0 v t \<Longrightarrow> password_post env t0 v (Inr res) t"
  by (simp_all add: password_post_def and_accepted_def)

lemma triple_password_post:
  "emits no_store m \<Longrightarrow> returns (\<lambda>r. \<forall>res. r = Inr res \<longrightarrow> \<not> ur_password_set res) m \<Longrightarrow>
     triple (so_far env t0) m (password_post env t0 v)"
  by (rule triple_mono [OF triple_returns [OF triple_so_far]])
     (auto simp: password_post_def split: sum.split)

lemma carries_credential: "uc_password cred \<noteq> [] \<Longrightarrow>
    carries_password (uc_password cred) (JObj (with_credential cred desired))"
  by (simp add: carries_password_def with_credential_def credential_json_def map_of_update)

lemma triple_create_user:
  assumes "uc_password cred \<noteq> []"
  shows "triple (so_far env t0) (create_user env a realm (with_credential cred desired))
     (\<lambda>r t. so_far env t0 t \<and> (\<forall>u. r = Inr u \<longrightarrow> and_accepted env t0 (uc_password cred) t))"
  unfolding create_user_def
proof (rule triple_try [OF triple_sent_password [OF carries_credential [OF assms]]], simp, goal_cases)
  case (1 u)
  let ?user = "with_credential cred desired"
  have "emits no_store (try_ok (get_user env a realm (string_value ?user ''username''))
      (identifier_of ''user'' (string_value ?user ''username'')))"
    by (intro emits_sends_no_store emits_intros)
  from triple_and_accepted [OF this] show ?case
    by (rule triple_mono) (auto simp: and_accepted_def)
qed

lemma triple_place_user:
  "triple (so_far env t0) (place_user env a uspec cred live) (password_post env t0 (uc_password cred))"
proof (cases live)
  case None
  have store: "emits no_store (create_user env a realm user)" for realm user
    unfolding create_user_def by (intro emits_sends_no_store emits_intros) simp
  show ?thesis
  proof (cases "uc_password cred = []")
    case True
    then show ?thesis
      unfolding place_user_def Let_def None option.case
      by (intro triple_password_post emits_binds emits_return store) 
         (auto simp: try_wrap_def intro!: returns_intros)
  next
    case False
    then show ?thesis
      unfolding place_user_def Let_def None option.case
      by (rule_tac triple_wrap [OF triple_create_user])
         (auto intro!: triple_return password_post_intros)
  qed
next
  case (Some l)
  show ?thesis
    unfolding place_user_def Let_def Some option.case
    by (rule triple_password_post)
       (auto simp: update_user_def try_wrap_def intro!: emits_sends_no_store emits_intros returns_intros)
qed

lemma triple_rotate_password:
  "triple (password_post env t0 (uc_password cred) (Inr res)) (rotate_password env a uspec cred res)
     (password_post env t0 (uc_password cred))"
proof -
  have "carries_password (uc_password cred) (JObj [(''type'', JStr ''password''),
      (''value'', JStr (uc_password cred)), (''temporary'', JBool (uc_temporary cred))])"
    by (simp add: carries_password_def)
  note sent = triple_sent_password [OF this]
  have sent: "triple (password_post env t0 (uc_password cred) (Inr res))
      (reset_user_password env a realm ident (uc_password cred) (uc_temporary cred))
      (\<lambda>r t. so_far env t0 t \<and> (\<forall>u. r = Inr u \<longrightarrow> and_accepted env t0 (uc_password cred) t))" for realm ident
    unfolding reset_user_password_def by (rule triple_mono [OF sent]) (auto simp: password_post_def)
  show ?thesis
    unfolding rotate_password_def
    by (intro triple_if triple_wrap [OF sent] triple_return) (auto simp: password_post_def)
qed

lemma triple_then_store_nothing:
  assumes "emits no_store m"
  shows "triple (password_post env t0 v (Inr res)) m (\<lambda>r. password_post env t0 v (Inr res))"
  by (rule triple_calls [OF assms])
     (simp add: password_post_def and_accepted_def stores_accepted_append accepted_append)

lemma triple_reconcile_user:
  "triple (so_far env t0) (reconcile_user env a uspec cred) (password_post env t0 (uc_password cred))"
proof -
  let ?post = "password_post env t0 (uc_password cred)"
  have quiet: "emits no_store (reconcile_realm_roles env a realm ident rs)"
      "emits no_store (reconcile_user_groups env a realm ident gs)" for realm ident rs gs
    by (rule emits_sends_no_store, rule reconcile_realm_roles_writes reconcile_user_groups_writes, simp)+
  have lookup: "emits no_store (get_user env a realm nam)" for realm nam
    by (intro emits_sends_no_store emits_intros)
  have last: "triple (?post (Inr res)) (ok (if changed then res\<lparr>ur_updated := True\<rparr> else res)) ?post"
    for res changed by (rule triple_return) (simp add: password_post_def)
  have failed: "?post (Inr res) t \<Longrightarrow> ?post (Inl e) t" for res t and e :: go_err
    by (simp add: password_post_def)
  have rest: "triple (?post (Inr res))
      (try_ok (reconcile_realm_roles env a realm (ur_user_id res) rs) (\<lambda>roles_changed.
       try_ok (reconcile_user_groups env a realm (ur_user_id res) gs) (\<lambda>groups_changed.
       ok (if roles_changed \<or> groups_changed then res\<lparr>ur_updated := True\<rparr> else res)))) ?post" for res realm rs gs
    by (rule triple_try [OF triple_then_store_nothing [OF quiet(1)]], erule failed,
        rule triple_try [OF triple_then_store_nothing [OF quiet(2)]], erule failed, rule last)
  show ?thesis
    unfolding reconcile_user_def Let_def
    apply (rule triple_wrap [OF triple_so_far [OF lookup]])
     apply (simp add: password_post_def)
    apply (rule triple_try [OF triple_place_user], assumption)
    apply (rule triple_try [OF triple_rotate_password], assumption)
    apply (rule rest)
    done
qed

lemma triple_store_password:
  "triple (and_accepted env t0 v) (store_password env ns ref v) (\<lambda>r. so_far env t0)"
  unfolding store_password_def try_wrap_def store_secret_key_def triple_def
  by (auto simp: and_accepted_def stores_accepted_store split: sum.splits)

lemma triple_failing_step:
  assumes "triple P m (\<lambda>r t. so_far env t0 t \<and> R r t)" and "\<And>st msg. emits no_store (set_status st msg)"
    and "\<And>x. triple (\<lambda>t. so_far env t0 t \<and> R (Inr x) t) (k x) (\<lambda>r. so_far env t0)"
  shows "triple P (failing_step ar set_status m k) (\<lambda>r. so_far env t0)"
  unfolding failing_step_def
proof (rule triple_attempt [OF assms(1)])
  have "emits no_store (State_Monad.bind (set_status ServiceFailed (err_text e)) (\<lambda>_. retry_later ar))" for e
    by (intro emits_binds emits_retry_later assms(2))
  from triple_so_far [OF this] show "triple (\<lambda>t. so_far env t0 t \<and> R (Inl e) t)
      (State_Monad.bind (set_status ServiceFailed (err_text e)) (\<lambda>_. retry_later ar)) (\<lambda>r. so_far env t0)" for e
    by (rule triple_mono) simp_all
qed (rule assms(3))

lemma triple_store_generated:
  assumes "\<And>st msg. emits no_store (set_status st msg)" and "emits no_store k"
  shows "triple (password_post (ar_env ar) t0 (uc_password cred) (Inr res))
     (store_generated ar ns uspec cred generated res set_status k) (\<lambda>r. so_far (ar_env ar) t0)"
proof -
  have weaken: "triple (so_far (ar_env ar) t0) m (\<lambda>r. so_far (ar_env ar) t0) \<Longrightarrow>
      triple (password_post (ar_env ar) t0 (uc_password cred) (Inr res)) m (\<lambda>r. so_far (ar_env ar) t0)"
    for m :: "outcome op"
    by (erule triple_mono) (simp_all add: password_post_def)
  have k: "triple (so_far (ar_env ar) t0) k (\<lambda>r. so_far (ar_env ar) t0)" by (rule triple_so_far [OF assms(2)])
  have report: "emits no_store (State_Monad.bind (set_status st msg) (\<lambda>_. retry_later ar))" for st msg
    by (intro emits_binds emits_retry_later assms(1))
  have "triple (and_accepted (ar_env ar) t0 (uc_password cred))
      (failing_step ar set_status (store_password (ar_env ar) ns ref (uc_password cred)) (\<lambda>_. k))
      (\<lambda>r. so_far (ar_env ar) t0)" for ref
    by (rule triple_failing_step [where R = "\<lambda>r t. True"])
       (use triple_store_password assms(1) k in simp_all)
  then have stored: "ur_password_set res \<Longrightarrow> triple (password_post (ar_env ar) t0 (uc_password cred) (Inr res))
      (failing_step ar set_status (store_password (ar_env ar) ns ref (uc_password cred)) (\<lambda>_. k))
      (\<lambda>r. so_far (ar_env ar) t0)" for ref
    by (rule triple_mono) (simp_all add: password_post_def)
  show ?thesis
    unfolding store_generated_def
    by (intro triple_if triple_case_option stored weaken k triple_so_far report) simp_all
qed

lemma set_user_status_quiet: "emits no_store (set_user_status env ns name meta st state msg)"
  unfolding set_user_status_def by (intro emits_intros)

lemma triple_live_user:
  "triple (so_far (ar_env ar) t0) (reconcile_live_user ar ns name a ob) (\<lambda>r. so_far (ar_env ar) t0)"
proof -
  let ?env = "ar_env ar"
  let ?uspec = "user_spec_of ob"
  have ready: "emits no_store (ready_pass ar (set_user_status ?env ns name meta st) msg)" for meta st msg
    unfolding ready_pass_def by (intro emits_binds emits_return set_user_status_quiet)
  have user: "triple (so_far ?env t0) (reconcile_user ?env a ?uspec cred)
      (\<lambda>r t. so_far ?env t0 t \<and> password_post ?env t0 (uc_password cred) r t)" for cred
    by (rule triple_mono [OF triple_reconcile_user]) (simp_all add: password_post_def)
  have stored: "triple (\<lambda>t. so_far ?env t0 t \<and> password_post ?env t0 (uc_password cred) (Inr res) t)
      (store_generated ar own ?uspec cred generated res (set_user_status ?env ns name meta st)
        (ready_pass ar (set_user_status ?env ns name meta st') msg)) (\<lambda>r. so_far ?env t0)"
    for own cred generated res meta st st' msg
    by (rule triple_mono [OF triple_store_generated]) (use set_user_status_quiet ready in simp_all)
  show ?thesis
    unfolding reconcile_live_user_def Let_def
    apply (rule triple_failing_step [where R = "\<lambda>r t. True"])
      apply (simp add: triple_so_far emits_no_store)
     apply (rule set_user_status_quiet)
    apply (simp split: prod.split)
    apply (intro allI impI)
    apply (rule triple_failing_step [OF user set_user_status_quiet stored])
    done
qed

lemma user_pass_stores_accepted:
  "triple (so_far (ar_env ar) t0) (reconcile_user_resource ar ns name) (\<lambda>r. so_far (ar_env ar) t0)"
proof -
  let ?env = "ar_env ar"
  let ?good = "\<lambda>m. triple (so_far ?env t0) m (\<lambda>r. so_far ?env t0)"
  have quiet: "?good m" if "emits no_store m" for m :: "outcome op"
    using that by (rule triple_so_far)
  have update: "emits no_store (k8s_update ?env x)" "emits no_store (k8s_get ?env k ns' n)" for x k ns' n
    by (simp_all add: k8s_update_def k8s_get_def emits_intros)
  have deletion: "?good (delete_user_resource ar a ob)" for a ob
    unfolding delete_user_resource_def finish_deletion_def
    by (intro quiet emits_intros emits_no_store)
  have live: "?good (ensure_finalizer ?env title f ob (reconcile_live_user ar ns name a))" for title f ob a
    unfolding ensure_finalizer_def
    by (intro triple_if triple_live_user triple_attempt [OF triple_so_far [OF update(1)]] quiet emits_return)
  have failed: "emits no_store (State_Monad.bind (set_user_status ?env ns name meta st state msg) (\<lambda>_. retry_later ar))"
    for meta st state msg by (intro emits_binds emits_retry_later set_user_status_quiet)
  show ?thesis
    unfolding reconcile_user_resource_def fetch_resource_def with_admin_api_def
    apply (rule triple_attempt [OF triple_so_far [OF update(2)]])
     apply (intro triple_if quiet emits_return)
    apply (rule triple_attempt [OF triple_so_far [OF emits_no_store(1)]])
     apply (simp split: prod.split)
     apply (intro conjI impI allI quiet emits_no_store emits_retry_later failed)
    apply (intro triple_if deletion live)
    done
qed

text \<open>
  C10. A generated password reaches its Secret only after Keycloak has accepted it: in every
  run of the user controller each write of a Secret is preceded, in that run, by a request
  that carries this password (a new account or a password reset) and that Keycloak answered
  with a 2xx. So a refused reset never leaves behind a value nobody can log in with.
\<close>

theorem stored_passwords_accepted:
  "triple (\<lambda>t. t = t0) (reconcile_user_resource ar ns name) (\<lambda>r t. stores_accepted (ar_env ar) t0 t)"
  by (rule triple_mono [OF user_pass_stores_accepted]) simp_all

section \<open>A lost password\<close>

lemma credential_rotation:
  assumes "us_credential uspec = Some spec"
  shows "delivers (\<lambda>(cred, generated). uc_rotate cred = wants_rotation spec st) (\<lambda>e. True)
     (user_credential_for env a ns uspec st)"
  unfolding user_credential_for_def assms Let_def option.case
  by (rule delivers_try [OF delivers_any]) (auto intro!: delivers_intros delivers_try [OF delivers_any])

text \<open>An account that is there, not created by the step and given no password.\<close>

definition as_found :: "user_sync_result \<Rightarrow> bool" where
  "as_found res \<longleftrightarrow> \<not> ur_created res \<and> \<not> ur_password_set res"

lemma existing_account_as_found:
  assumes "delivers (\<lambda>live. live \<noteq> None) (\<lambda>e. True) (get_user env a (user_realm uspec) (us_username uspec))"
    and "\<not> uc_rotate cred"
  shows "delivers as_found (\<lambda>e. True) (reconcile_user env a uspec cred)"
proof -
  have placed: "delivers as_found (\<lambda>e. True) (place_user env a uspec cred (Some l))" for l
    unfolding place_user_def Let_def option.case try_wrap_def
    by (auto intro!: delivers_intros delivers_attempt [OF delivers_any] simp: as_found_def)
  have roles: "delivers as_found (\<lambda>e. True) (ok (if changed then res\<lparr>ur_updated := True\<rparr> else res))"
    if "as_found res" for changed res using that by (intro delivers_ok) (simp add: as_found_def)
  have rest: "delivers as_found (\<lambda>e. True)
      (try_ok (rotate_password env a uspec cred res) (\<lambda>result.
       try_ok (reconcile_realm_roles env a realm (ur_user_id result) rs) (\<lambda>roles_changed.
       try_ok (reconcile_user_groups env a realm (ur_user_id result) gs) (\<lambda>groups_changed.
       ok (if roles_changed \<or> groups_changed then result\<lparr>ur_updated := True\<rparr> else result)))))"
    if "as_found res" for res realm rs gs
    using assms(2) that by (auto simp: rotate_password_skipped intro!: delivers_try [OF delivers_any] roles)
  show ?thesis
    unfolding reconcile_user_def Let_def try_wrap_def
    by (rule delivers_attempt [OF assms(1)])
       (auto intro!: delivers_fail delivers_try [OF placed] rest)
qed

lemma store_generated_skips:
  "as_found res \<Longrightarrow> \<not> uc_rotate cred \<Longrightarrow> store_generated ar ns uspec cred generated res set_status k = k"
  by (simp add: store_generated_def as_found_def)

lemma no_store_of_live:
  assumes "us_credential (user_spec_of ob) = Some spec"
    and "\<not> wants_rotation spec (user_status_of ob)"
    and "delivers (\<lambda>live. live \<noteq> None) (\<lambda>e. True)
      (get_user (ar_env ar) a (user_realm (user_spec_of ob)) (us_username (user_spec_of ob)))"
  shows "emits no_store (reconcile_live_user ar ns name a ob)"
proof -
  note found = existing_account_as_found [OF assms(3)]
  have failed: "emits no_store (State_Monad.bind (set_user_status (ar_env ar) ns name meta st state msg)
      (\<lambda>_. retry_later ar))" for meta st state msg
    by (intro emits_binds emits_retry_later set_user_status_quiet)
  have ready: "emits no_store (ready_pass ar (set_user_status (ar_env ar) ns name meta st) msg)" for meta st msg
    unfolding ready_pass_def by (intro emits_binds emits_return set_user_status_quiet)
  have step: "emits no_store (failing_step ar (set_user_status (ar_env ar) ns name meta st)
      (reconcile_user (ar_env ar) a (user_spec_of ob) cred)
      (\<lambda>res. store_generated ar own (user_spec_of ob) cred generated res (set_st res)
         (ready_pass ar (set_user_status (ar_env ar) ns name meta (st' res)) msg)))"
    if "\<not> uc_rotate cred" for meta st cred own generated set_st st' msg
    unfolding failing_step_def
    by (rule emits_attempt_delivers [OF _ found [OF that]])
       (use that in \<open>simp_all add: emits_no_store failed store_generated_skips ready\<close>)
  show ?thesis
    unfolding reconcile_live_user_def Let_def
    apply (subst failing_step_def)
    apply (rule emits_attempt_delivers [OF _ credential_rotation [OF assms(1)]])
    using assms(2) step by (auto simp: emits_no_store failed)
qed


text \<open>A user whose account is there and whose password is to be generated, and a Keycloak that serves both.\<close>

definition lost_credential :: user_credential_spec where
  "lost_credential = \<lparr>uc_secret_ref = \<lparr>sel_name = ''root-password'', sel_key = ''password''\<rparr>, uc_generate = True,
     uc_temporary = False, uc_rotation_token = []\<rparr>"

definition lost_spec :: keycloak_user_spec where
  "lost_spec = sample_user\<lparr>us_credential := Some lost_credential, us_realm_roles := None, us_groups := None\<rparr>"

definition lost_user :: k8s_object where
  "lost_user = new_object keycloak_user_gvk ''team'' ''root'' (UserContent lost_spec new_user_status)"

definition lost_search :: string where
  "lost_search = realm_path (user_realm lost_spec) (''/users?username='' @ query_escape ''root'' @ ''&exact=true'')"

definition lost_keycloak ::
    "trace \<Rightarrow> string \<Rightarrow> http_method \<Rightarrow> string \<Rightarrow> string \<Rightarrow> json option \<Rightarrow> http_answer" where
  "lost_keycloak t base m path token body =
     Answer 200 ''200 OK'' (if path = lost_search then ''users'' else ''realm'')"

definition lost_env :: env where
  "lost_env = (memory_env [] lost_keycloak
       (\<lambda>raw. Inr (if raw = ''users'' then JArr [JObj sample_account] else JObj [])))
     \<lparr>env_get := (\<lambda>t k ns n. if k = keycloak_user_gvk then Inr lost_user else Inl (K8sErr NotFound ''not found'')),
      env_random := (\<lambda>t n. if 0 < n then Inr 0 else Inl (Msg ''n''))\<rparr>"

definition lost_reconciler :: api_reconciler where
  "lost_reconciler = (sample_api_reconciler [])\<lparr>ar_env := lost_env\<rparr>"

lemma lost_env_simps [simp]:
  "env_admin lost_env = lost_keycloak"
  "env_decode lost_env = (\<lambda>raw. Inr (if raw = ''users'' then JArr [JObj sample_account] else JObj []))"
  "env_token lost_env = (\<lambda>t base user pass. Answer 200 ''200 OK'' ''token'')"
  "env_decode_token lost_env = (\<lambda>raw. Inr (''token'', 60))" "env_now lost_env = (\<lambda>t. 0)"
  "env_get lost_env t keycloak_user_gvk ns n = Inr lost_user"
  "env_get lost_env t secret_gvk ns n = Inl (K8sErr NotFound ''not found'')"
  "env_update_status lost_env = (\<lambda>t ob. Inr ob)"
  by (simp_all add: lost_env_def memory_env_def)

lemma lost_request:
  obtains s' where "run_state (do_request lost_env a m path body) s
    = (Inr (if path = lost_search then ''users'' else ''realm''), s')"
proof -
  have "\<exists>token u. run_state (authenticate lost_env a) s = (Inr token, u)" for s
    by (simp add: authenticate_def fetch_token_def request_token_def accept_token_def store_token_def
      read_clock_def run_state_bind)
  then obtain token u where "run_state (authenticate lost_env a) s = (Inr token, u)" by blast
  then show thesis using that
    by (simp add: do_request_def run_state_bind admin_request_def lost_keycloak_def read_answer_def)
qed

lemma lost_account:
  "\<exists>s'. run_state (get_user lost_env a (user_realm lost_spec) ''root'') s = (Inr (Some sample_account), s')"
proof -
  obtain s' where "run_state (do_request lost_env a GET lost_search None) s = (Inr ''users'', s')"
    using lost_request [of a GET lost_search None s] by auto
  moreover have "trim_space ''users'' = ''users''" by (simp add: trim_space_def trim_left_def is_space_def)
  ultimately show ?thesis
    by (simp add: get_user_def get_many_def do_read_def lost_search_def into_representations_def
        into_representation_def sample_account_def string_value_def)
qed

lemma lost_policy:
  "\<exists>s'. run_state (user_password_policy lost_env a lost_spec) s = (Inr zero_policy, s')"
proof -
  have other: "realm_path (user_realm lost_spec) [] \<noteq> lost_search"
    by (simp add: lost_search_def realm_path_def)
  obtain s' where "run_state (do_request lost_env a GET (realm_path (user_realm lost_spec) []) None) s = (Inr ''realm'', s')"
    using lost_request [of a GET "realm_path (user_realm lost_spec) []" None s] other by auto
  moreover have "trim_space ''realm'' = ''realm''" by (simp add: trim_space_def trim_left_def is_space_def)
  moreover have "parse_password_policy [] = zero_policy" by code_simp
  ultimately show ?thesis
    by (simp add: user_password_policy_def get_password_policy_def get_realm_def absent_on_404_def get_one_def
        do_read_def into_representation_def string_value_def)
qed

lemma lost_facts [simp]:
  "user_spec_of lost_user = lost_spec" "us_credential lost_spec = Some lost_credential"
  "us_username lost_spec = ''root''" "us_realm_roles lost_spec = None" "us_groups lost_spec = None"
  "\<not> wants_rotation lost_credential (user_status_of lost_user)" "ar_env lost_reconciler = lost_env"
  "meta_namespace (ob_meta lost_user) = ''team''" "takes_status lost_env keycloak_user_gvk ns nam"
  by (simp_all add: lost_user_def lost_spec_def user_spec_of_def user_status_of_def wants_rotation_def
      lost_credential_def sample_user_def lost_reconciler_def new_object_def new_meta_def takes_status_def)

lemma account_found:
  "delivers (\<lambda>live. live \<noteq> None) (\<lambda>e. True) (get_user lost_env a (user_realm lost_spec) ''root'')"
  unfolding delivers_def returns_def
proof
  fix s
  from lost_account [of a s] show "case fst (run_state (get_user lost_env a (user_realm lost_spec) ''root'') s) of
      Inl e \<Rightarrow> True | Inr live \<Rightarrow> live \<noteq> None" by auto
qed

lemma lost_generated:
  "\<exists>cred s'. run_state (user_credential_for lost_env a ''team'' lost_spec (user_status_of lost_user)) s = (Inr (cred, True), s')"
proof -
  let ?s = "record_call (K8sGet secret_gvk ''team'' ''root-password'') s"
  obtain u where u: "run_state (user_password_policy lost_env a lost_spec) ?s = (Inr zero_policy, u)"
    using lost_policy by blast
  have "random_works lost_env" "walks_every_class lost_env"
    by (auto simp: random_works_def random_in_range_def walks_every_class_def lost_env_def memory_env_def split: if_splits)
  moreover have "wf_policy zero_policy" "satisfiable_policy zero_policy"
    by (simp_all add: wf_policy_def satisfiable_policy_def zero_policy_def required_lower_def max_int64_def)
  ultimately obtain password v where "run_state (generate_password lost_env zero_policy) u = (Inr password, v)"
    by (rule generate_password_works)
  with u show ?thesis
    using lost_facts(6)
    by (simp add: user_credential_for_def stored_password_def k8s_get_def lost_credential_def Let_def is_not_found_def)
qed

lemma lost_reconciled:
  "\<exists>res s'. run_state (reconcile_user lost_env a lost_spec cred) s = (Inr res, s')"
proof -
  obtain u where u: "run_state (get_user lost_env a (user_realm lost_spec) ''root'') s = (Inr (Some sample_account), u)"
    using lost_account by blast
  have sent: "\<exists>v. run_state (do_send lost_env a m path body) t = (Inr (), v)" for m path body t
  proof -
    obtain v where "run_state (do_request lost_env a m path body) t
        = (Inr (if path = lost_search then ''users'' else ''realm''), v)" by (rule lost_request)
    then show ?thesis by (simp add: do_send_def)
  qed
  have "\<exists>placed v. run_state (place_user lost_env a lost_spec cred (Some sample_account)) u = (Inr placed, v)"
  proof (cases "unchanged sample_account (merge_representation sample_account (desired_user_representation lost_spec))")
    case True
    then show ?thesis by (simp add: place_user_def Let_def)
  next
    case False
    let ?merged = "merge_representation sample_account (desired_user_representation lost_spec)"
    obtain v where "run_state (update_user lost_env a (user_realm lost_spec) (string_value sample_account ''id'') ?merged) u = (Inr (), v)"
      using sent unfolding update_user_def by blast
    with False show ?thesis by (simp add: place_user_def Let_def)
  qed
  then obtain placed v where "run_state (place_user lost_env a lost_spec cred (Some sample_account)) u = (Inr placed, v)"
    by blast
  moreover have "\<exists>res w. run_state (rotate_password lost_env a lost_spec cred placed) v = (Inr res, w)"
  proof -
    obtain w where "run_state (reset_user_password lost_env a (user_realm lost_spec) (ur_user_id placed)
        (uc_password cred) (uc_temporary cred)) v = (Inr (), w)"
      using sent unfolding reset_user_password_def by blast
    then show ?thesis by (simp add: rotate_password_def)
  qed
  then obtain res w where "run_state (rotate_password lost_env a lost_spec cred placed) v = (Inr res, w)" by blast
  ultimately show ?thesis using u
    by (simp add: reconcile_user_def Let_def reconcile_realm_roles_def reconcile_user_groups_def)
qed


end
