(* ===== verification/Main_Config.thy ===== *)
theory Main_Config
  imports User_Passwords
begin

text \<open>
  The start of the program (\<^verbatim>\<open>main.go\<close>): the configuration read from the environment and
  the reconcilers built from it. \<^verbatim>\<open>time.ParseDuration\<close> is a parameter; logging is left out.
\<close>

section \<open>Log level\<close>

text \<open>Levels of zap; a verbosity \<^verbatim>\<open>vN\<close> is the level \<open>-N\<close>, an int8.\<close>

definition debug_level :: int where "debug_level = -1"
definition info_level :: int where "info_level = 0"
definition warn_level :: int where "warn_level = 1"
definition error_level :: int where "error_level = 2"

text \<open>\<^verbatim>\<open>strconv.ParseInt(s, 10, 8)\<close>\<close>

definition parse_int8 :: "string \<Rightarrow> int option" where
  "parse_int8 s =
     (case atoi s of
        None \<Rightarrow> None
      | Some v \<Rightarrow> if - 128 \<le> v \<and> v \<le> 127 then Some v else None)"

text \<open>The verbosity, whether the text is one, and the error.\<close>

definition parse_verbosity :: "string \<Rightarrow> int \<times> bool \<times> go_err option" where
  "parse_verbosity raw =
     (if \<not> has_prefix raw ''v'' then (0, False, None)
      else
        let value = drop 1 raw in
        if value = [] then (0, True, Some (Msg (''unsupported value '' @ quoted raw @ '', expected v<number>'')))
        else (case parse_int8 value of
                Some v \<Rightarrow>
                  if v < 0 then (0, True, Some (Msg (''unsupported value '' @ quoted raw @
                      '', expected v<number> with a non-negative integer'')))
                  else (v, True, None)
              | None \<Rightarrow> (0, True, Some (Msg (''unsupported value '' @ quoted raw @
                      '', expected v<number> with a non-negative integer'')))))"

definition log_level_from_env :: "(string \<Rightarrow> string) \<Rightarrow> int \<times> string \<times> bool \<times> go_err option" where
  "log_level_from_env getenv =
     (let raw = trim_space (to_lower (getenv ''LOG_LEVEL'')) in
      if raw = [] then (info_level, [], False, None)
      else case parse_verbosity raw of
        (verbosity, is_verbosity, err) \<Rightarrow>
          if is_verbosity \<or> err \<noteq> None
          then (case err of
                  Some e \<Rightarrow> (info_level, [], False, Some e)
                | None \<Rightarrow> (- verbosity, ''v'' @ format_int verbosity, True, None))
          else if raw = ''debug'' then (debug_level, ''debug/v1'', True, None)
          else if raw = ''info'' then (info_level, raw, True, None)
          else if raw = ''warn'' \<or> raw = ''warning'' then (warn_level, raw, True, None)
          else if raw = ''error'' then (error_level, raw, True, None)
          else (info_level, [], False, Some (Msg (''unsupported value '' @ quoted raw @
                 '', expected debug, info, warn, warning, error, or v<number>''))))"

section \<open>Intervals\<close>

definition duration_from_env ::
    "(string \<Rightarrow> go_err + duration) \<Rightarrow> (string \<Rightarrow> string) \<Rightarrow> string \<Rightarrow> duration \<Rightarrow> duration \<times> go_err option" where
  "duration_from_env parse_duration getenv var fallback =
     (let raw = trim_space (getenv var) in
      if raw = [] then (fallback, None)
      else case parse_duration raw of
        Inl e \<Rightarrow> (fallback, Some (Wrap (''unsupported value '' @ quoted raw @
                   '', expected a Go duration such as 30s or 5m'') e))
      | Inr d \<Rightarrow>
          if d \<le> 0 then (fallback, Some (Msg (''unsupported value '' @ quoted raw @ '', expected a positive duration'')))
          else (d, None))"

definition wait_interval :: "(string \<Rightarrow> go_err + duration) \<Rightarrow> (string \<Rightarrow> string) \<Rightarrow> duration" where
  "wait_interval parse getenv =
     fst (duration_from_env parse getenv ''WAIT_FOR_PROGRESSING_REQUEUE_AFTER'' default_wait_requeue)"

definition failure_interval :: "(string \<Rightarrow> go_err + duration) \<Rightarrow> (string \<Rightarrow> string) \<Rightarrow> duration" where
  "failure_interval parse getenv =
     fst (duration_from_env parse getenv ''FAILURE_REQUEUE_AFTER'' default_failure_requeue)"

definition reconciliation_interval :: "(string \<Rightarrow> go_err + duration) \<Rightarrow> (string \<Rightarrow> string) \<Rightarrow> duration" where
  "reconciliation_interval parse getenv =
     fst (duration_from_env parse getenv ''RECONCILIATION_REQUEUE_AFTER'' default_reconciliation_requeue)"

section \<open>The reconcilers\<close>

definition main_reconciler ::
    "env \<Rightarrow> url_lib \<Rightarrow> (egress_target list \<Rightarrow> egress_target list) \<Rightarrow> (string \<Rightarrow> go_err + duration) \<Rightarrow>
     (string \<Rightarrow> string) \<Rightarrow> reconciler" where
  "main_reconciler env lib iteration parse getenv =
     \<lparr>rc_env = env, rc_getenv = getenv, rc_lib = lib, rc_iteration = iteration,
      rc_wait_requeue_after = wait_interval parse getenv,
      rc_failure_requeue_after = failure_interval parse getenv,
      rc_reconciliation_requeue_after = reconciliation_interval parse getenv,
      rc_has_keycloak = True, rc_has_admin_providers = True, rc_has_otel_collector = True,
      rc_has_edot_gateway = True\<rparr>"

text \<open>The four Keycloak controllers are built alike; the namespace is left to its default.\<close>

definition main_api_reconciler ::
    "env \<Rightarrow> (string \<Rightarrow> go_err + duration) \<Rightarrow> (string \<Rightarrow> string) \<Rightarrow> api_reconciler" where
  "main_api_reconciler env parse getenv =
     \<lparr>ar_env = env, ar_keycloak_namespace = [],
      ar_failure_requeue_after = failure_interval parse getenv,
      ar_reconciliation_requeue_after = reconciliation_interval parse getenv\<rparr>"

section \<open>What the configuration guarantees\<close>

lemma verbosity_range: "parse_verbosity raw = (v, ok_flag, None) \<Longrightarrow> 0 \<le> v \<and> v \<le> 127"
  by (auto simp: parse_verbosity_def parse_int8_def Let_def split: if_splits option.splits)

text \<open>
  C39. The log level fits the int8 it is converted to, and no value of \<^verbatim>\<open>LOG_LEVEL\<close> silences
  errors or turns a typo into a level: levels lie between -127 and the error level, and a
  value that is rejected leaves the level alone and is reported.
\<close>

theorem log_level_bounded:
  "case log_level_from_env getenv of
     (level, nam, configured, err) \<Rightarrow>
       level \<in> {- 127..error_level} \<and> (configured \<longleftrightarrow> nam \<noteq> []) \<and> \<not> (configured \<and> err \<noteq> None) \<and>
       (configured \<or> level = info_level)"
proof -
  obtain v f err where parsed: "parse_verbosity (trim_space (to_lower (getenv ''LOG_LEVEL''))) = (v, f, err)"
    by (metis prod.exhaust)
  have "err = None \<Longrightarrow> 0 \<le> v \<and> v \<le> 127" using parsed verbosity_range by blast
  with parsed show ?thesis
    by (cases err) (auto simp: log_level_from_env_def Let_def info_level_def debug_level_def warn_level_def
        error_level_def)
qed

lemma duration_positive: "0 < fallback \<Longrightarrow> 0 < fst (duration_from_env parse getenv var fallback)"
  by (simp add: duration_from_env_def Let_def split: sum.split)

lemma intervals_positive [simp]:
  "0 < wait_interval parse getenv" "0 < failure_interval parse getenv" "0 < reconciliation_interval parse getenv"
  unfolding wait_interval_def failure_interval_def reconciliation_interval_def
  by (rule duration_positive, simp add: default_wait_requeue_def default_failure_requeue_def
      default_reconciliation_requeue_def second_def minute_def)+

lemma configured_delays_positive:
  "let rc = main_reconciler env lib iteration parse getenv; ar = main_api_reconciler env parse getenv
   in 0 < wait_requeue rc \<and> 0 < failure_requeue rc \<and> 0 < reconciliation_requeue rc \<and>
      0 < api_failure_requeue ar \<and> 0 < api_reconciliation_requeue ar"
  by (simp add: main_reconciler_def main_api_reconciler_def wait_requeue_def failure_requeue_def
      reconciliation_requeue_def api_failure_requeue_def api_reconciliation_requeue_def)

text \<open>
  Whatever the environment holds, the requeue intervals are positive, and the reconcilers
  of the program use exactly the configured values: the fall-back inside the reconcilers is
  never taken, so all five controllers agree on the intervals.
\<close>

theorem configured_intervals_used:
  "let rc = main_reconciler env lib iteration parse getenv; ar = main_api_reconciler env parse getenv
   in wait_requeue rc = wait_interval parse getenv \<and> 0 < wait_requeue rc \<and>
      failure_requeue rc = failure_interval parse getenv \<and> 0 < failure_requeue rc \<and>
      reconciliation_requeue rc = reconciliation_interval parse getenv \<and> 0 < reconciliation_requeue rc \<and>
      api_failure_requeue ar = failure_requeue rc \<and> api_reconciliation_requeue ar = reconciliation_requeue rc \<and>
      keycloak_namespace ar = workload_namespace"
  by (simp add: main_reconciler_def main_api_reconciler_def wait_requeue_def failure_requeue_def
      reconciliation_requeue_def api_failure_requeue_def api_reconciliation_requeue_def keycloak_namespace_def)

end
