(* ===== verification/Program_Start.thy ===== *)
theory Program_Start
  imports Main_Config
begin

text \<open>
  The function \<^verbatim>\<open>main\<close> (\<^verbatim>\<open>main.go\<close>) from the parsed flags to the start of the manager, with what the
  five \<^verbatim>\<open>SetupWithManager\<close> and \<^verbatim>\<open>SetupNetEyeWebhookWithManager\<close> register, and which events of a watched
  resource reach its controller. The manager of controller-runtime is a parameter: it answers
  each call, as any function of the calls made before, with an error or none.
\<close>

section \<open>Calls on the manager\<close>

record manager_options =
  mo_metrics_address :: string
  mo_probe_address :: string
  mo_leader_election :: bool
  mo_leader_election_id :: string
  mo_release_on_cancel :: bool

text \<open>
  A controller is registered with the kind it watches, the predicate its update events have to
  pass and the reconciler it calls; a runnable with whether it waits for leader election; the
  webhook with its path and the validation of a create and of an update.
\<close>

datatype handler =
    ReconcileNetEye reconciler
  | ReconcileClient api_reconciler
  | ReconcileUser api_reconciler
  | ReconcileFlow api_reconciler
  | ReconcileRealm api_reconciler

type_synonym update_filter = "object_meta \<Rightarrow> object_meta \<Rightarrow> bool"

datatype setup_call =
    GetConfig
  | NewManager manager_options
  | AddHealthzCheck string
  | AddReadyzCheck string
  | AddKeycloakComponent bool
  | NewController gvk update_filter handler
  | NewWebhook gvk string
  | StartManager

type_synonym manager_answers = "setup_call list \<Rightarrow> setup_call \<Rightarrow> go_err option"

text \<open>\<^verbatim>\<open>NeedLeaderElection\<close> of the Keycloak component\<close>

definition need_leader_election :: bool where "need_leader_election = True"

definition webhook_path :: string where
  "webhook_path = ''/validate-neteye-cloud-v1alpha1-neteye''"

definition setup_neteye :: "reconciler \<Rightarrow> setup_call" where
  "setup_neteye rc = NewController neteye_gvk reconcile_on_change (ReconcileNetEye rc)"

definition setup_client :: "api_reconciler \<Rightarrow> setup_call" where
  "setup_client ar = NewController keycloak_client_gvk reconcile_on_change (ReconcileClient ar)"

definition setup_user :: "api_reconciler \<Rightarrow> setup_call" where
  "setup_user ar = NewController keycloak_user_gvk reconcile_on_change (ReconcileUser ar)"

definition setup_flow :: "api_reconciler \<Rightarrow> setup_call" where
  "setup_flow ar = NewController keycloak_auth_flow_gvk reconcile_on_change (ReconcileFlow ar)"

definition setup_realm :: "api_reconciler \<Rightarrow> setup_call" where
  "setup_realm ar = NewController keycloak_realm_gvk reconcile_on_change (ReconcileRealm ar)"

definition setup_webhook :: setup_call where
  "setup_webhook = NewWebhook neteye_gvk webhook_path"

section \<open>The program\<close>

text \<open>The flags of the operator and their defaults; the parser of the flag package fills them in.\<close>

record program_flags =
  pf_metrics_address :: string
  pf_probe_address :: string
  pf_leader_elect :: bool

definition default_flags :: program_flags where
  "default_flags = \<lparr>pf_metrics_address = '':8080'', pf_probe_address = '':8081'', pf_leader_elect = True\<rparr>"

definition manager_options_of :: "program_flags \<Rightarrow> manager_options" where
  "manager_options_of flags =
     \<lparr>mo_metrics_address = pf_metrics_address flags, mo_probe_address = pf_probe_address flags,
      mo_leader_election = pf_leader_elect flags, mo_leader_election_id = ''neteye-operator.neteye.cloud'',
      mo_release_on_cancel = True\<rparr>"

text \<open>
  \<^verbatim>\<open>if err := call; err != nil { setupLog.Error(err, msg); os.Exit(1) }\<close>, and the rest of \<^verbatim>\<open>main\<close>.
  A run ends with the calls made and what it logged before it exited with status 1.
\<close>

type_synonym run_end = "setup_call list \<times> (string \<times> go_err) option"

definition must ::
    "manager_answers \<Rightarrow> setup_call \<Rightarrow> string \<Rightarrow> (setup_call list \<Rightarrow> run_end) \<Rightarrow> setup_call list \<Rightarrow> run_end" where
  "must answers c msg rest calls =
     (case answers calls c of Some e \<Rightarrow> (calls @ [c], Some (msg, e)) | None \<Rightarrow> rest (calls @ [c]))"

definition exit_code :: "run_end \<Rightarrow> int" where
  "exit_code r = (case snd r of None \<Rightarrow> 0 | Some _ \<Rightarrow> 1)"

text \<open>
  \<^verbatim>\<open>ctrl.GetConfigOrDie\<close> exits by itself and logs its own text, \<open>die_text\<close>. All controllers get the
  registry of providers and the client of the manager, which are the memory and the environment of
  the model; \<^verbatim>\<open>start\<close> returns when the process is asked to stop.
\<close>

definition main_setup ::
    "manager_answers \<Rightarrow> string \<Rightarrow> program_flags \<Rightarrow> reconciler \<Rightarrow> api_reconciler \<Rightarrow>
     setup_call list \<Rightarrow> run_end" where
  "main_setup answers die_text flags rc ar =
     must answers GetConfig die_text
     (must answers (NewManager (manager_options_of flags)) ''unable to create controller manager''
     (must answers (AddHealthzCheck ''healthz'') ''unable to set up health check''
     (must answers (AddReadyzCheck ''readyz'') ''unable to set up ready check''
     (must answers (AddKeycloakComponent need_leader_election) ''unable to add keycloak component''
     (must answers (setup_neteye rc) ''unable to create NetEye controller''
     (must answers (setup_client ar) ''unable to create KeycloakClient controller''
     (must answers (setup_user ar) ''unable to create KeycloakUser controller''
     (must answers (setup_flow ar) ''unable to create KeycloakAuthFlow controller''
     (must answers (setup_realm ar) ''unable to create KeycloakRealm controller''
     (must answers setup_webhook ''unable to create NetEye webhook''
     (must answers StartManager ''controller manager stopped with error''
     (\<lambda>calls. (calls, None)))))))))))))"

text \<open>With the configuration of the process environment.\<close>

definition operator_main ::
    "manager_answers \<Rightarrow> string \<Rightarrow> program_flags \<Rightarrow> env \<Rightarrow> url_lib \<Rightarrow>
     (egress_target list \<Rightarrow> egress_target list) \<Rightarrow> (string \<Rightarrow> go_err + duration) \<Rightarrow> (string \<Rightarrow> string) \<Rightarrow> run_end" where
  "operator_main answers die_text flags env lib iteration parse getenv =
     main_setup answers die_text flags
       (main_reconciler env lib iteration parse getenv) (main_api_reconciler env parse getenv) []"

section \<open>Which resources a running program serves\<close>

text \<open>The calls a list of calls that all succeed is a prefix of.\<close>

inductive setup_plan :: "manager_answers \<Rightarrow> (setup_call list \<Rightarrow> run_end) \<Rightarrow> setup_call list \<Rightarrow> bool"
  for answers where
  finish: "setup_plan answers (\<lambda>calls. (calls, None)) []"
| call: "setup_plan answers rest plan \<Longrightarrow> setup_plan answers (must answers c msg rest) (c # plan)"

text \<open>Every call of \<open>calls\<close>, but for the first \<open>n\<close>, was answered without an error.\<close>

definition all_accepted :: "manager_answers \<Rightarrow> nat \<Rightarrow> setup_call list \<Rightarrow> bool" where
  "all_accepted answers n calls \<longleftrightarrow> (\<forall>i. n \<le> i \<and> i < length calls \<longrightarrow> answers (take i calls) (calls ! i) = None)"

lemma all_accepted_none [simp]: "length calls \<le> n \<Longrightarrow> all_accepted answers n calls"
  unfolding all_accepted_def by auto

lemma all_accepted_next:
  assumes "answers calls c = None" and "all_accepted answers (Suc (length calls)) (calls @ c # tail)"
  shows "all_accepted answers (length calls) (calls @ c # tail)"
  unfolding all_accepted_def
proof (intro allI impI)
  fix i assume i: "length calls \<le> i \<and> i < length (calls @ c # tail)"
  show "answers (take i (calls @ c # tail)) ((calls @ c # tail) ! i) = None"
  proof (cases "i = length calls")
    case True then show ?thesis using assms(1) by simp
  next
    case False then show ?thesis using assms(2) i by (auto simp: all_accepted_def)
  qed
qed

text \<open>
  A run makes a prefix of the planned calls. It ends without an error exactly when all were
  made and accepted; with an error, only the last one was refused.
\<close>

lemma setup_prefix:
  assumes "setup_plan answers m plan"
  shows "\<exists>made. fst (m calls) = calls @ made \<and>
     (case snd (m calls) of
        None \<Rightarrow> made = plan \<and> all_accepted answers (length calls) (calls @ made)
      | Some (msg, e) \<Rightarrow> made \<noteq> [] \<and> (\<exists>tail. plan = made @ tail) \<and>
          all_accepted answers (length calls) (calls @ butlast made) \<and>
          answers (calls @ butlast made) (last made) = Some e)"
  using assms
proof (induction arbitrary: calls)
  case finish then show ?case by simp
next
  case (call rest plan c msg)
  show ?case
  proof (cases "answers calls c")
    case refused: (Some e)
    then show ?thesis by (simp add: must_def)
  next
    case accepted: None
    obtain made where made: "fst (rest (calls @ [c])) = (calls @ [c]) @ made"
      "case snd (rest (calls @ [c])) of
        None \<Rightarrow> made = plan \<and> all_accepted answers (length (calls @ [c])) ((calls @ [c]) @ made)
      | Some (msg, e) \<Rightarrow> made \<noteq> [] \<and> (\<exists>tail. plan = made @ tail) \<and>
          all_accepted answers (length (calls @ [c])) ((calls @ [c]) @ butlast made) \<and>
          answers ((calls @ [c]) @ butlast made) (last made) = Some e"
      using call.IH [of "calls @ [c]"] by blast
    show ?thesis
      using accepted made
      by (intro exI [of _ "c # made"])
         (auto simp: must_def all_accepted_next split: option.splits)
  qed
qed

definition startup_calls :: "program_flags \<Rightarrow> reconciler \<Rightarrow> api_reconciler \<Rightarrow> setup_call list" where
  "startup_calls flags rc ar =
     [GetConfig, NewManager (manager_options_of flags), AddHealthzCheck ''healthz'', AddReadyzCheck ''readyz'',
      AddKeycloakComponent need_leader_election, setup_neteye rc, setup_client ar, setup_user ar,
      setup_flow ar, setup_realm ar, setup_webhook, StartManager]"

lemma main_plan: "setup_plan answers (main_setup answers die_text flags rc ar) (startup_calls flags rc ar)"
  unfolding startup_calls_def main_setup_def by (intro setup_plan.intros)

lemma main_calls:
  assumes "main_setup answers die_text flags rc ar [] = (calls, failure)"
  shows "case failure of
        None \<Rightarrow> calls = startup_calls flags rc ar \<and> all_accepted answers 0 calls
      | Some (msg, e) \<Rightarrow> calls \<noteq> [] \<and> (\<exists>tail. startup_calls flags rc ar = calls @ tail) \<and>
          all_accepted answers 0 (butlast calls) \<and> answers (butlast calls) (last calls) = Some e"
  using setup_prefix [OF main_plan [where answers = answers and die_text = die_text and flags = flags and rc = rc and ar = ar],
      where calls = "[]"] assms
  by (auto split: option.splits)

lemma prefix_of_start:
  assumes "plan = before @ [StartManager]" and "StartManager \<notin> set before"
    and "plan = calls @ tail" and "StartManager \<in> set calls"
  shows "calls = plan"
  using assms by (induction calls rule: rev_induct) (auto simp: append_eq_append_conv2 append_eq_Cons_conv Cons_eq_append_conv)

fun served :: "setup_call \<Rightarrow> gvk list" where
  "served (NewController k f h) = [k]"
| "served c = []"

fun handler_delays :: "handler \<Rightarrow> duration list" where
  "handler_delays (ReconcileNetEye rc) = [wait_requeue rc, failure_requeue rc, reconciliation_requeue rc]"
| "handler_delays (ReconcileClient ar) = [api_failure_requeue ar, api_reconciliation_requeue ar]"
| "handler_delays (ReconcileUser ar) = [api_failure_requeue ar, api_reconciliation_requeue ar]"
| "handler_delays (ReconcileFlow ar) = [api_failure_requeue ar, api_reconciliation_requeue ar]"
| "handler_delays (ReconcileRealm ar) = [api_failure_requeue ar, api_reconciliation_requeue ar]"

lemma startup_split:
  "startup_calls flags rc ar = butlast (startup_calls flags rc ar) @ [StartManager]"
  "StartManager \<notin> set (butlast (startup_calls flags rc ar))"
  by (simp_all add: startup_calls_def setup_neteye_def setup_client_def setup_user_def setup_flow_def
      setup_realm_def setup_webhook_def)

lemma main_started:
  assumes run: "main_setup answers die_text flags rc ar [] = (calls, failure)"
    and started: "StartManager \<in> set calls"
  shows "calls = startup_calls flags rc ar" and "all_accepted answers 0 (butlast calls)"
proof -
  show plan: "calls = startup_calls flags rc ar"
    using main_calls [OF run] started prefix_of_start [OF startup_split]
    by (cases failure) (auto)
  show "all_accepted answers 0 (butlast calls)"
    using main_calls [OF run]
    by (cases failure) (auto simp: all_accepted_def nth_butlast take_butlast)
qed

lemma startup_serves:
  "concat (map served (startup_calls flags rc ar)) =
     [neteye_gvk, keycloak_client_gvk, keycloak_user_gvk, keycloak_auth_flow_gvk, keycloak_realm_gvk]"
  "{AddKeycloakComponent True, NewWebhook neteye_gvk webhook_path} \<subseteq> set (butlast (startup_calls flags rc ar))"
  by (simp_all add: startup_calls_def setup_neteye_def setup_client_def setup_user_def setup_flow_def
      setup_realm_def setup_webhook_def need_leader_election_def)

lemma startup_handlers:
  assumes "NewController k f h \<in> set (startup_calls flags rc ar)"
  shows "f = reconcile_on_change \<and>
    h \<in> {ReconcileNetEye rc, ReconcileClient ar, ReconcileUser ar, ReconcileFlow ar, ReconcileRealm ar}"
  using assms by (auto simp: startup_calls_def setup_neteye_def setup_client_def setup_user_def setup_flow_def
      setup_realm_def setup_webhook_def)

lemma configured_delays:
  assumes "h \<in> {ReconcileNetEye rc, ReconcileClient ar, ReconcileUser ar, ReconcileFlow ar, ReconcileRealm ar}"
    and "rc = main_reconciler env lib iteration parse getenv" and "ar = main_api_reconciler env parse getenv"
  shows "\<forall>d \<in> set (handler_delays h). 0 < d"
  using assms configured_delays_positive [of env lib iteration parse getenv] by (auto simp: Let_def)

lemma main_exit_zero:
  assumes run: "main_setup answers die_text flags rc ar [] = (calls, failure)"
  shows "failure = None \<longleftrightarrow> StartManager \<in> set calls \<and> answers (butlast calls) StartManager = None"
proof (cases failure)
  case None
  then have plan: "calls = startup_calls flags rc ar" "all_accepted answers 0 calls" using main_calls [OF run] by auto
  have "StartManager \<in> set calls" using startup_split [of flags rc ar] plan(1) by (metis in_set_conv_decomp)
  moreover have "calls = butlast calls @ [StartManager]" using startup_split(1) plan(1) by metis
  moreover from this have "answers (take (length (butlast calls)) calls) (calls ! length (butlast calls)) = None"
    using plan(2) unfolding all_accepted_def by (metis le0 length_append_singleton lessI)
  ultimately show ?thesis using None by (metis append_eq_conv_conj nth_append_length)
next
  case (Some p)
  then have refused: "calls \<noteq> []" "answers (butlast calls) (last calls) \<noteq> None"
    using main_calls [OF run] by auto
  have "StartManager \<in> set calls \<Longrightarrow> last calls = StartManager"
    using main_started(1) [OF run] startup_split(1) by (metis last_snoc)
  then show ?thesis using Some refused by auto
qed

text \<open>
  C37. The program serves all resources or none. Whatever the manager answers: when it is started,
  it has one controller for each of the five kinds, in this order, each woken by spec
  and deletion changes only and with positive delays for every requeue, and the admission webhook of
  the NetEye and the Keycloak component, which waits for leader election, are registered
  before the start. The program exits with 0 only after a started manager stopped without an
  error; otherwise it exits with 1, the last call is the one that was refused, and nothing
  was called after it.
\<close>

theorem program_serves_all_or_none:
  assumes "operator_main answers die_text flags env lib iteration parse getenv = (calls, failure)"
  shows "(StartManager \<in> set calls \<longrightarrow>
        concat (map served calls) =
          [neteye_gvk, keycloak_client_gvk, keycloak_user_gvk, keycloak_auth_flow_gvk, keycloak_realm_gvk] \<and>
        (\<forall>k f h. NewController k f h \<in> set calls \<longrightarrow> f = reconcile_on_change \<and> (\<forall>d \<in> set (handler_delays h). 0 < d)) \<and>
        {AddKeycloakComponent True, NewWebhook neteye_gvk webhook_path} \<subseteq> set (butlast calls) \<and>
        (\<forall>i < length calls - 1. answers (take i calls) (calls ! i) = None)) \<and>
     (exit_code (calls, failure) = 0 \<longleftrightarrow> StartManager \<in> set calls \<and> answers (butlast calls) StartManager = None) \<and>
     (\<forall>msg e. failure = Some (msg, e) \<longrightarrow>
        exit_code (calls, failure) = 1 \<and> answers (butlast calls) (last calls) = Some e)"
proof -
  let ?rc = "main_reconciler env lib iteration parse getenv" and ?ar = "main_api_reconciler env parse getenv"
  have run: "main_setup answers die_text flags ?rc ?ar [] = (calls, failure)"
    using assms by (simp add: operator_main_def)
  have handlers: "f = reconcile_on_change \<and> (\<forall>d \<in> set (handler_delays h). 0 < d)"
    if "StartManager \<in> set calls" and "NewController k f h \<in> set calls" for k f h
    using startup_handlers [of k f h flags ?rc ?ar] configured_delays [of h ?rc ?ar, OF _ refl refl] that
      main_started(1) [OF run that(1)] by simp
  have accepted: "\<forall>i < length calls - 1. answers (take i calls) (calls ! i) = None" if "StartManager \<in> set calls"
    using main_started(2) [OF run that] by (auto simp: all_accepted_def nth_butlast take_butlast)
  have served: "concat (map served calls) =
      [neteye_gvk, keycloak_client_gvk, keycloak_user_gvk, keycloak_auth_flow_gvk, keycloak_realm_gvk]"
    "{AddKeycloakComponent True, NewWebhook neteye_gvk webhook_path} \<subseteq> set (butlast calls)"
    if "StartManager \<in> set calls"
    unfolding main_started(1) [OF run that] by (rule startup_serves)+
  have status: "exit_code (calls, failure) = 0 \<longleftrightarrow> failure = None" "failure \<noteq> None \<Longrightarrow> exit_code (calls, failure) = 1"
    by (auto simp: exit_code_def split: option.splits)
  have refused: "answers (butlast calls) (last calls) = Some e" if "failure = Some (msg, e)" for msg e
    using main_calls [OF run] that by simp
  show ?thesis
    by (intro conjI impI allI) (use handlers accepted served status refused main_exit_zero [OF run] in simp_all)
qed

text \<open>A manager that accepts everything, and one whose webhook cannot be set up.\<close>

definition webhook_refused :: manager_answers where
  "webhook_refused calls c = (if c = setup_webhook then Some (Msg ''no certificate'') else None)"

lemma served_when_accepted:
  "StartManager \<in> set (fst (main_setup (\<lambda>calls c. None) die_text flags rc ar []))"
  by (simp add: main_setup_def must_def)

lemma refused_webhook:
  "StartManager \<notin> set (fst (main_setup webhook_refused die_text flags rc ar []))"
  by (simp add: main_setup_def must_def webhook_refused_def setup_neteye_def setup_client_def setup_user_def
      setup_flow_def setup_realm_def setup_webhook_def)

abbreviation sample_main :: "manager_answers \<Rightarrow> run_end" where
  "sample_main answers \<equiv> operator_main answers [] default_flags (cluster_env []) sample_url_lib id
     (\<lambda>s. Inl (Msg s)) (\<lambda>s. [])"

theorem program_serves_all_or_none_witness:
  "exit_code (sample_main (\<lambda>calls c. None)) = 0 \<and>
   length (concat (map served (fst (sample_main (\<lambda>calls c. None))))) = 5 \<and>
   exit_code (sample_main webhook_refused) \<noteq> 0"
  using program_serves_all_or_none [OF prod.collapse [symmetric], of "\<lambda>calls c. None" "[]" default_flags
      "cluster_env []" sample_url_lib id "\<lambda>s. Inl (Msg s)" "\<lambda>s. []"]
    program_serves_all_or_none [OF prod.collapse [symmetric], of webhook_refused "[]" default_flags
      "cluster_env []" sample_url_lib id "\<lambda>s. Inl (Msg s)" "\<lambda>s. []"]
    served_when_accepted refused_webhook
  by (simp add: operator_main_def)

end
