(* ===== verification/NetEye_Status.thy ===== *)
theory NetEye_Status
  imports NetEye_Controller
begin

text \<open>
  The status a pass of the NetEye controller publishes (\<^verbatim>\<open>controllers/neteye_controller.go\<close>):
  every pointer the code dereferences is set, the phase is one of the four of the API, and a
  NetEye that is Ready has services that are.
\<close>

section \<open>Results and service statuses agree\<close>

text \<open>A ready result of a component comes with a good status of its service.\<close>

definition unfinished :: "component_result \<Rightarrow> bool" where
  "unfinished r \<longleftrightarrow> cr_state r \<in> {StateProgressing, StateBlocked, StateDegraded}"

definition honest_report :: "(service_state \<Rightarrow> bool) \<Rightarrow> report \<Rightarrow> bool" where
  "honest_report good rep \<longleftrightarrow>
     (\<forall>r. snd rep = Inr r \<longrightarrow> unfinished r \<or> good (ss_status (fst rep)))"

lemma honest_reports:
  "good state \<Longrightarrow> honest_report good (service_status_of state m img, res)"
  "honest_report good (st, progressing_result i reason m d)"
  "honest_report good (st, degraded_result i reason m d e)"
  by (auto simp: honest_report_def unfinished_def service_status_of_def progressing_result_def degraded_result_def
      plain_result_def split: option.splits if_splits)

lemma honest_identity: "returns (honest_report (\<lambda>st. st = ServiceReady)) (reconcile_keycloak rc ne img ca)"
  unfolding identity_def Let_def
  by (intro returns_intros; simp add: honest_reports split: prod.split)

lemma honest_outcome:
  "honest_report (\<lambda>st. st = ServiceReady)
     (service_status_of (phase_to_service_state (to_phase out)) m img, map_telemetry_outcome i out d d')"
  by (cases "to_phase out")
     (simp_all add: map_telemetry_outcome_def phase_to_service_state_def honest_reports,
      simp add: honest_report_def)

definition telemetry_state :: "neteye \<Rightarrow> service_state" where
  "telemetry_state ne = (if enabled_elastic_stack ne = None then ServiceDisabled else ServiceReady)"

lemma honest_telemetry:
  "returns (honest_report (\<lambda>st. st = telemetry_state ne)) (reconcile_otel_collector rc ne img ca)"
  "returns (honest_report (\<lambda>st. st = telemetry_state ne)) (reconcile_edot_gateway rc ne img ca)"
  unfolding reconcile_otel_collector_def reconcile_edot_gateway_def disabled_report_def outcome_report_def Let_def
  by (intro returns_intros; simp add: honest_reports honest_outcome telemetry_state_def)+

section \<open>The status of a pass\<close>

definition complete_status :: "neteye_status \<Rightarrow> bool" where
  "complete_status st \<longleftrightarrow>
     svc_identity (nst_services st) \<noteq> None \<and>
     pred_option (\<lambda>es. est_otel_collector es \<noteq> None \<and> est_edot_gateway es \<noteq> None)
       (svc_elastic_stack (nst_services st)) \<and>
     svc_elastic_stack (nst_services st) \<noteq> None"

definition api_phase :: "neteye_phase \<Rightarrow> bool" where
  "api_phase phase \<longleftrightarrow> phase \<in> {PhaseReady, PhaseNotReady, PhaseFailed, PhasePendingUpgrades}"

definition service_is :: "service_state \<Rightarrow> service_status option \<Rightarrow> bool" where
  "service_is state st \<longleftrightarrow> map_option ss_status st = Some state"

text \<open>What a Ready phase promises about the services of the NetEye.\<close>

definition services_ready :: "neteye \<Rightarrow> neteye_status \<Rightarrow> bool" where
  "services_ready ne st \<longleftrightarrow>
     service_is ServiceReady (svc_identity (nst_services st)) \<and>
     pred_option (\<lambda>es. est_status es = telemetry_state ne \<and>
        service_is (telemetry_state ne) (est_otel_collector es) \<and>
        service_is (telemetry_state ne) (est_edot_gateway es)) (svc_elastic_stack (nst_services st))"

definition coherent_status :: "neteye \<Rightarrow> neteye_status \<Rightarrow> bool" where
  "coherent_status ne st \<longleftrightarrow>
     complete_status st \<and> api_phase (nst_phase st) \<and> (nst_phase st = PhaseReady \<longrightarrow> services_ready ne st)"

definition fresh_status :: "neteye_status \<Rightarrow> bool" where
  "fresh_status st \<longleftrightarrow> complete_status st \<and> nst_phase st = OtherPhase []"

lemma fresh_reset: "fresh_status (reset_status ne)"
  by (simp add: fresh_status_def complete_status_def reset_status_def)

lemma complete_set_phase [simp]: "complete_status (set_phase p m st) = complete_status st"
  by (simp add: complete_status_def set_phase_def)

lemma services_set_phase [simp]: "nst_services (set_phase p m st) = nst_services st"
  by (simp add: set_phase_def)

text \<open>
  Phases are ordered by their severity, as \<^verbatim>\<open>phaseSeverity\<close> ranks them; two phases of the same
  rank are equivalent, not equal. A pass can only raise the phase.
\<close>

instantiation neteye_phase :: preorder
begin

definition less_eq_neteye_phase :: "neteye_phase \<Rightarrow> neteye_phase \<Rightarrow> bool" where
  "less_eq_neteye_phase p q \<longleftrightarrow> phase_severity p \<le> phase_severity q"

definition less_neteye_phase :: "neteye_phase \<Rightarrow> neteye_phase \<Rightarrow> bool" where
  "less_neteye_phase p q \<longleftrightarrow> phase_severity p < phase_severity q"

instance
  by standard (auto simp: less_eq_neteye_phase_def less_neteye_phase_def)

end

lemma set_phase_latches: "nst_phase (set_phase p m st) = (if p < nst_phase st then nst_phase st else p)"
  by (simp add: set_phase_def less_neteye_phase_def)

lemma set_phase_raises: "nst_phase st \<le> nst_phase (set_phase p m st)" "p \<le> nst_phase (set_phase p m st)"
  by (auto simp: set_phase_latches less_eq_neteye_phase_def less_neteye_phase_def)

lemma unset_phase_least: "OtherPhase s \<le> p" "\<not> p < OtherPhase s"
  by (cases p; simp add: less_eq_neteye_phase_def less_neteye_phase_def phase_severity_def)+

lemma fresh_set_phase [simp]: "fresh_status st \<Longrightarrow> nst_phase (set_phase p m st) = p"
  by (simp add: fresh_status_def set_phase_latches unset_phase_least)

definition makes_coherent :: "neteye \<Rightarrow> 'a pass \<Rightarrow> bool" where
  "makes_coherent ne m \<longleftrightarrow>
     (\<forall>s st. fresh_status st \<longrightarrow> coherent_status ne (snd (snd (run_state m (s, st)))))"

lemma coherent_set_phase:
  "fresh_status st \<Longrightarrow> p \<in> {PhaseNotReady, PhaseFailed, PhasePendingUpgrades} \<Longrightarrow>
     coherent_status ne (set_phase p message st)"
  by (auto simp: coherent_status_def api_phase_def fresh_status_def
      dest: fresh_set_phase [unfolded fresh_status_def])

lemma coherent_fail [simp]: "makes_coherent ne (fail_pass rc message err)"
  by (simp add: makes_coherent_def coherent_set_phase)

lemma coherent_try:
  "(\<And>e. makes_coherent ne (h e)) \<Longrightarrow> (\<And>x. makes_coherent ne (k x)) \<Longrightarrow> makes_coherent ne (try_pass m h k)"
  by (simp add: makes_coherent_def run_try_pass split: prod.split sum.split)

section \<open>The three components\<close>

text \<open>One run of the three operations, in the order of the graph.\<close>

lemma run_three:
  assumes edot: "run_state (reconcile_edot_gateway rc ne (edot_gateway_image images) (ca_bundle_image images)) s
      = ((sv1, Inr r1), s1)"
    and identity: "run_state (reconcile_keycloak rc ne (keycloak_image images) (ca_bundle_image images)) s1
      = ((sv2, Inr r2), s2)"
    and otel: "run_state (reconcile_otel_collector rc ne (otel_collector_image images) (ca_bundle_image images)) s2
      = ((sv3, Inr r3), s3)"
    and valid: "validate_operation_result edot_gateway_component_id r1 = None"
      "validate_operation_result identity_component_id r2 = None"
      "validate_operation_result otel_collector_component_id r3 = None"
  shows "run_state (run_component_operations component_graph (component_operations rc ne images)) (s, st) =
     (Inr [(edot_gateway_component_id, r1), (identity_component_id, r2), (otel_collector_component_id, r3)],
      (s3, set_otel_collector sv3 (set_identity sv2 (set_edot_gateway sv1 st))))"
proof -
  have "length (component_operations rc ne images) = length (lg_nodes component_graph)"
    by (simp add: component_operations_def component_graph_def component_nodes_def)
  moreover have "first_error
      (\<lambda>(i, operation).
         if map_of (lg_nodes component_graph) i = None \<or> operation = None
         then Some (Msg (''component operation '' @ quoted i @ '' does not match lifecycle graph''))
         else None) (component_operations rc ne images) = None"
    by (simp add: component_operations_def component_graph_def component_nodes_def)
  moreover have "run_state (run_nodes (component_operations rc ne images) (ordered_nodes component_graph) []) (s, st) =
     (Inr [(edot_gateway_component_id, r1), (identity_component_id, r2), (otel_collector_component_id, r3)],
      (s3, set_otel_collector sv3 (set_identity sv2 (set_edot_gateway sv1 st))))"
    using assms
    by (simp add: run_nodes.simps component_order blocking_dependencies_for_node_def component_operations_def
        run_state_bind run_reporting Let_def)
  ultimately show ?thesis by (simp add: run_component_operations_def)
qed

lemma ready_reports:
  assumes "edot_ok \<or> unfinished r1" and "identity_ok \<or> unfinished r2"
    and "otel_ok \<or> unfinished r3"
    and "fst (aggregate_component_phase [(i, r1), (j, r2), (k, r3)]) = PhaseReady"
  shows "edot_ok \<and> identity_ok \<and> otel_ok"
  using assms
  by (cases "cr_state r1"; cases "cr_state r2"; cases "cr_state r3")
     (simp_all add: aggregate_component_phase_def scan_component_phase_eq unfinished_def)

lemma aggregate_phase_api: "api_phase (fst (aggregate_component_phase results))"
  by (simp add: aggregate_component_phase_def scan_component_phase_eq api_phase_def)

lemma aggregate_telemetry:
  "fst (aggregate_elastic_stack_status (Some (service_status_of (telemetry_state ne) m img))
     (Some (service_status_of (telemetry_state ne) m' img'))) = telemetry_state ne"
  by (simp add: aggregate_elastic_stack_status_def service_states_def service_status_of_def telemetry_state_def)

text \<open>What the three components answered in a pass, and what is made of it.\<close>

lemma components_run:
  obtains sv1 r1 s1 sv2 r2 s2 sv3 r3 s3 where
    "run_state (reconcile_edot_gateway rc ne (edot_gateway_image images) (ca_bundle_image images)) s = ((sv1, Inr r1), s1)"
    and "run_state (reconcile_keycloak rc ne (keycloak_image images) (ca_bundle_image images)) s1 = ((sv2, Inr r2), s2)"
    and "run_state (reconcile_otel_collector rc ne (otel_collector_image images) (ca_bundle_image images)) s2
      = ((sv3, Inr r3), s3)"
    and "run_state (reconcile_components rc ne images) (s, st) =
      run_state (report_components rc
        [(edot_gateway_component_id, r1), (identity_component_id, r2), (otel_collector_component_id, r3)])
        (s3, set_otel_collector sv3 (set_identity sv2 (set_edot_gateway sv1 st)))"
proof -
  obtain sv1 res1 s1 where edot: "run_state (reconcile_edot_gateway rc ne (edot_gateway_image images)
      (ca_bundle_image images)) s = ((sv1, res1), s1)" by (metis surj_pair)
  obtain sv2 res2 s2 where identity: "run_state (reconcile_keycloak rc ne (keycloak_image images)
      (ca_bundle_image images)) s1 = ((sv2, res2), s2)" by (metis surj_pair)
  obtain sv3 res3 s3 where otel: "run_state (reconcile_otel_collector rc ne (otel_collector_image images)
      (ca_bundle_image images)) s2 = ((sv3, res3), s3)" by (metis surj_pair)
  obtain r1 where r1: "res1 = Inr r1" "validate_operation_result edot_gateway_component_id r1 = None"
    using returnsD [OF returns_telemetry(2) edot] by (auto simp: valid_report_def)
  obtain r2 where r2: "res2 = Inr r2" "validate_operation_result identity_component_id r2 = None"
    using returnsD [OF returns_reconcile_keycloak identity] by (auto simp: valid_report_def)
  obtain r3 where r3: "res3 = Inr r3" "validate_operation_result otel_collector_component_id r3 = None"
    using returnsD [OF returns_telemetry(1) otel] by (auto simp: valid_report_def)
  note runs = edot [unfolded r1(1)] identity [unfolded r2(1)] otel [unfolded r3(1)]
  from run_three [OF runs r1(2) r2(2) r3(2)] have
    "run_state (reconcile_components rc ne images) (s, st) =
      run_state (report_components rc
        [(edot_gateway_component_id, r1), (identity_component_id, r2), (otel_collector_component_id, r3)])
        (s3, set_otel_collector sv3 (set_identity sv2 (set_edot_gateway sv1 st)))"
    by (simp add: reconcile_components_def component_graph_built run_state_bind)
  with runs show ?thesis by (rule that)
qed

lemma run_report_components:
  "run_state (report_components rc results) (s, st) =
     ((let requeue = earliest_component_requeue results in if requeue = 0 then reconciliation_requeue rc else requeue, None),
      (s, set_phase (fst (aggregate_component_phase results)) (snd (aggregate_component_phase results))
        (aggregate_elastic_stack st)))"
  by (simp add: report_components_def run_state_bind Let_def case_prod_beta)

lemma fresh_services:
  "fresh_status st \<Longrightarrow> fresh_status (aggregate_elastic_stack
     (set_otel_collector sv3 (set_identity sv2 (set_edot_gateway sv1 st))))"
  by (auto simp: fresh_status_def complete_status_def aggregate_elastic_stack_def update_elastic_stack_def
      set_otel_collector_def set_edot_gateway_def set_identity_def split: prod.split option.splits)

lemma coherent_components: "makes_coherent ne (reconcile_components rc ne images)"
  unfolding makes_coherent_def
proof (intro allI impI)
  fix s st
  assume fresh: "fresh_status st"
  obtain sv1 r1 s1 sv2 r2 s2 sv3 r3 s3 where
    edot: "run_state (reconcile_edot_gateway rc ne (edot_gateway_image images) (ca_bundle_image images)) s = ((sv1, Inr r1), s1)"
    and identity: "run_state (reconcile_keycloak rc ne (keycloak_image images) (ca_bundle_image images)) s1
      = ((sv2, Inr r2), s2)"
    and otel: "run_state (reconcile_otel_collector rc ne (otel_collector_image images) (ca_bundle_image images)) s2
      = ((sv3, Inr r3), s3)"
    and run: "run_state (reconcile_components rc ne images) (s, st) =
      run_state (report_components rc
        [(edot_gateway_component_id, r1), (identity_component_id, r2), (otel_collector_component_id, r3)])
        (s3, set_otel_collector sv3 (set_identity sv2 (set_edot_gateway sv1 st)))"
    by (rule components_run)
  let ?results = "[(edot_gateway_component_id, r1), (identity_component_id, r2), (otel_collector_component_id, r3)]"
  let ?st = "set_otel_collector sv3 (set_identity sv2 (set_edot_gateway sv1 st))"
  let ?phase = "fst (aggregate_component_phase ?results)"
  let ?final = "set_phase ?phase (snd (aggregate_component_phase ?results)) (aggregate_elastic_stack ?st)"
  obtain es where es: "svc_elastic_stack (nst_services st) = Some es"
    using fresh by (auto simp: fresh_status_def complete_status_def)
  have fresh': "fresh_status (aggregate_elastic_stack ?st)" using fresh by (rule fresh_services)
  have honest: "ss_status sv1 = telemetry_state ne \<or> unfinished r1" "ss_status sv2 = ServiceReady \<or> unfinished r2"
      "ss_status sv3 = telemetry_state ne \<or> unfinished r3"
    using returnsD [OF honest_telemetry(2) edot] returnsD [OF honest_identity identity]
      returnsD [OF honest_telemetry(1) otel] by (auto simp: honest_report_def)
  have ready: "services_ready ne ?final" if "?phase = PhaseReady"
    using ready_reports [OF honest that] es
    by (cases sv1; cases sv3)
       (auto simp: services_ready_def service_is_def aggregate_elastic_stack_def update_elastic_stack_def
        set_otel_collector_def set_edot_gateway_def set_identity_def
        aggregate_telemetry [unfolded service_status_of_def] split: prod.split dest: arg_cong [where f = fst])
  have "coherent_status ne ?final"
    using fresh' ready by (auto simp: coherent_status_def aggregate_phase_api fresh_status_def
        dest: fresh_set_phase [unfolded fresh_status_def])
  then show "coherent_status ne (snd (snd (run_state (reconcile_components rc ne images) (s, st))))"
    by (simp add: run run_report_components)
qed

lemma coherent_platform: "makes_coherent ne (reconcile_platform rc ne images)"
  unfolding makes_coherent_def
proof (intro allI impI)
  fix s st
  assume fresh: "fresh_status st"
  obtain d err s' st' where run: "run_state (reconcile_base_resources rc ne) (s, st) = ((d, err), (s', st'))"
    by (metis surj_pair)
  have "(0 < d \<and> coherent_status ne st') \<or> (d = 0 \<and> err = None \<and> st' = st)"
    using run fresh
    by (auto simp: reconcile_base_resources_def Let_def run_try_pass coherent_set_phase
        split: prod.splits sum.splits if_splits)
  moreover have "makes_coherent ne (try_pass (ensure_default_deny (rc_env rc) workload_namespace (owner_reference_for ne))
      (\<lambda>e. fail_pass rc check_services (Some (Wrap ''ensure shared default-deny network policy'' e)))
      (\<lambda>_. reconcile_components rc ne images))"
    by (intro coherent_try coherent_fail coherent_components)
  ultimately show "coherent_status ne (snd (snd (run_state (reconcile_platform rc ne images) (s, st))))"
    using run fresh by (auto simp: reconcile_platform_def run_state_bind makes_coherent_def should_return_def)
qed

lemma coherent_spec: "makes_coherent ne (reconcile_spec rc ne)"
proof -
  have "makes_coherent ne (pause_for_upgrade rc v)" for v
    by (simp add: makes_coherent_def pause_for_upgrade_def run_state_bind coherent_set_phase)
  then show ?thesis
    unfolding reconcile_spec_def establish_authority_def Let_def
    by (auto intro!: coherent_try coherent_platform split: option.split)
qed

text \<open>
  C9. The status a pass publishes is well formed and honest, on every path of the pass: the
  services the code dereferences are all set, the phase is one of the four of the API, and a
  NetEye reported Ready has a ready identity service and telemetry services that are ready,
  or disabled where the resource disables them, with an aggregate that says the same.
\<close>

theorem published_status_coherent:
  "coherent_status ne (snd (snd (run_state (reconcile_spec rc ne) (s, reset_status ne))))"
  using coherent_spec [of ne rc] fresh_reset unfolding makes_coherent_def by blast

end
