(* ===== verification/NetEye_Pass.thy ===== *)
theory NetEye_Pass
  imports NetEye_Status
begin

text \<open>
  A whole pass of the NetEye controller (\<^verbatim>\<open>controllers/neteye_controller.go\<close>), over all its
  components: what was seen when it publishes Ready, and that it publishes Ready on a platform
  that is up.
\<close>

section \<open>What a Ready NetEye was seen to be\<close>

text \<open>
  The NetEye holds the cluster authority: in this run the lease was read with its name on it,
  or created so.
\<close>

definition lease_names :: "neteye \<Rightarrow> k8s_object \<Rightarrow> bool" where
  "lease_names ne lease \<longleftrightarrow> lease_holder lease = Some (meta_uid (ne_meta ne))"

definition authority_seen :: "env \<Rightarrow> neteye \<Rightarrow> trace \<Rightarrow> trace \<Rightarrow> bool" where
  "authority_seen env ne t0 t \<longleftrightarrow>
     seen_since env t0 lease_gvk workload_namespace cluster_authority_lease_name (lease_names ne) t \<or>
     (\<exists>before after lease. t = t0 @ before @ K8sCreate (new_lease ne) # after \<and>
        env_create env (t0 @ before) (new_lease ne) = Inr lease \<and> lease_names ne lease)"

lemma seen_since_now:
  "env_get env t k ns n = Inr ob \<Longrightarrow> good ob \<Longrightarrow> seen_since env t k ns n good (t @ K8sGet k ns n # after)"
  unfolding seen_since_def read_since_def by (metis append.right_neutral append_Nil)

lemma seen_since_prefix: "seen_since env (t0 @ new) k ns n good t \<Longrightarrow> seen_since env t0 k ns n good t"
  unfolding seen_since_def by (blast intro: read_since_prefix)

lemma platform_seen_within:
  assumes "platform_seen env (t0 @ before) t"
  shows "platform_seen env t0 (t @ after)"
  using assms
  by (auto simp: platform_seen_def identity_seen_def realm_seen_def account_seen_def
      intro!: seen_since_append elim!: seen_since_prefix)

lemma authority_seen_append: "authority_seen env ne t0 t \<Longrightarrow> authority_seen env ne t0 (t @ new)"
  unfolding authority_seen_def by (metis append.assoc append_Cons seen_since_append)

lemma authority_created:
  "env_create env (t0 @ before) (new_lease ne) = Inr lease \<Longrightarrow> lease_names ne lease \<Longrightarrow>
     authority_seen env ne t0 (t0 @ before @ K8sCreate (new_lease ne) # after)"
  unfolding authority_seen_def by blast

lemma authority_granted:
  assumes "run_state (ensure_cluster_authority env ne) s = (Inr (), s')"
  shows "authority_seen env ne (st_trace s) (st_trace s')"
proof -
  let ?get = "K8sGet lease_gvk workload_namespace cluster_authority_lease_name"
  have granted: "authority_seen env ne (st_trace s) (st_trace u)"
    if "run_state (obtain_lease env ne) s = (Inr lease, u)" and holder: "lease_names ne lease" for lease u
  proof (cases "env_get env (st_trace s) lease_gvk workload_namespace cluster_authority_lease_name")
    case (Inr found)
    with that show ?thesis
      using seen_since_now [OF Inr, of "lease_names ne" "[]"]
      by (auto simp: obtain_lease_def get_lease_def k8s_get_def authority_seen_def)
  next
    case (Inl e)
    show ?thesis
    proof (cases "env_create env (st_trace s @ [?get]) (new_lease ne)")
      case (Inr made)
      with Inl that have "made = lease" "st_trace u = st_trace s @ [?get] @ [K8sCreate (new_lease ne)]"
        by (auto simp: obtain_lease_def get_lease_def k8s_get_def k8s_create_def split: if_splits)
      with authority_created [OF Inr, of "[]"] holder show ?thesis by simp
    next
      case failed: (Inl e')
      let ?t = "st_trace s @ [?get, K8sCreate (new_lease ne)]"
      have found: "env_get env ?t lease_gvk workload_namespace cluster_authority_lease_name = Inr lease"
        and u: "st_trace u = ?t @ [?get]"
        using Inl failed that(1)
        by (auto simp: obtain_lease_def get_lease_def k8s_get_def k8s_create_def split: if_splits sum.splits)
      from found have "seen_since env ?t lease_gvk workload_namespace cluster_authority_lease_name (lease_names ne)
          (?t @ [?get])" using holder by (rule seen_since_now)
      then have "seen_since env (st_trace s) lease_gvk workload_namespace cluster_authority_lease_name (lease_names ne)
          (?t @ [?get])" by (rule seen_since_prefix)
      then show ?thesis by (simp add: authority_seen_def u)
    qed
  qed
  obtain res u where lease: "run_state (obtain_lease env ne) s = (res, u)" by force
  with assms obtain ob where ob: "res = Inr ob" by (cases res) (simp_all add: ensure_cluster_authority_def)
  have held: "lease_names ne ob"
    using assms lease ob by (auto simp: ensure_cluster_authority_def lease_names_def split: if_splits)
  have "emits (\<lambda>c. True) (if lease_controlled ne ob then ok ()
      else try_wrap ''set NetEye owner reference on cluster authority lease''
        (lift_result (env_controller env (ne_meta ne) (ob_meta ob))) (\<lambda>meta.
      try_wrap ''update cluster authority lease owner reference''
        (k8s_update env (ob\<lparr>ob_meta := meta\<rparr>)) (\<lambda>_. ok ())))"
    unfolding k8s_update_def by (intro emits_intros) simp_all
  then obtain new where "st_trace s' = st_trace u @ new"
    using assms lease ob held unfolding ensure_cluster_authority_def
    by (auto simp: lease_names_def elim: emitsD)
  then show ?thesis using granted [OF lease [unfolded ob] held] by (simp add: authority_seen_append)
qed

text \<open>The steps of a pass only add to the calls made.\<close>

lemma emits_any: "emits C m \<Longrightarrow> emits (\<lambda>c. True) m"
  by (erule emits_mono) simp

lemma emits_base:
  "emits (\<lambda>c. True) (ensure_issuer_exists env ns issuer)"
  "emits (\<lambda>c. True) (ensure_gateway env ns g class_name annotations listeners owner)"
  "emits (\<lambda>c. True) (ensure_redirect_route env ns g owner)"
  "emits (\<lambda>c. True) (ensure_default_deny env ns owner)"
  unfolding ensure_issuer_exists_def ensure_gateway_def ensure_redirect_route_def ensure_http_route_spec_def
    ensure_default_deny_def delete_legacy_default_deny_def k8s_get_def k8s_delete_def apply_only_def
  by (intro emits_intros emits_any [OF emits_apply_object]; simp)+

lemma emits_authority: "emits (\<lambda>c. True) (ensure_cluster_authority env ne)"
  unfolding ensure_cluster_authority_def obtain_lease_def get_lease_def k8s_get_def k8s_create_def k8s_update_def
  by (intro emits_intros) simp_all

lemma emits_telemetry:
  "emits (\<lambda>c. True) (reconcile_otel_collector rc ne img ca)"
  "emits (\<lambda>c. True) (reconcile_edot_gateway rc ne img ca)"
  unfolding reconcile_otel_collector_def reconcile_edot_gateway_def disabled_report_def outcome_report_def
    delete_otel_collector_def delete_edot_gateway_def Let_def
  by (intro emits_intros emits_any [OF emits_deletes]
      emits_any [OF conjunct1 [OF telemetry_ensure_writes_owned]]
      emits_any [OF conjunct2 [OF telemetry_ensure_writes_owned]])+

text \<open>What holds of the calls of the steps holds of all calls of a pass over the platform.\<close>

locale pass_calls =
  fixes rc :: reconciler and ne :: neteye and C :: "call \<Rightarrow> bool"
  assumes issuer: "emits C (ensure_issuer_exists (rc_env rc) workload_namespace (issuer_ref_for ne))"
    and gateway: "emits C (ensure_gateway (rc_env rc) workload_namespace g class_name annotations listeners
      (owner_reference_for ne))"
    and redirect: "emits C (ensure_redirect_route (rc_env rc) workload_namespace g (owner_reference_for ne))"
    and default_deny: "emits C (ensure_default_deny (rc_env rc) workload_namespace (owner_reference_for ne))"
    and edot: "emits C (reconcile_edot_gateway rc ne img ca)"
    and identity: "emits C (reconcile_keycloak rc ne img ca)"
    and otel: "emits C (reconcile_otel_collector rc ne img ca)"
begin

lemma base_resources:
  "run_state (reconcile_base_resources rc ne) (s, st) = (res, (s', st')) \<Longrightarrow> only_since C (st_trace s) (st_trace s')"
  unfolding reconcile_base_resources_def Let_def
  by (auto simp: run_try_pass only_since_def elim!: emitsD [OF issuer] emitsD [OF gateway] emitsD [OF redirect]
      split: prod.splits sum.splits if_splits)

lemma components:
  assumes "run_state (reconcile_components rc ne images) (s, st) = (res, (s', st'))"
  shows "only_since C (st_trace s) (st_trace s')"
proof -
  obtain sv1 r1 s1 sv2 r2 s2 sv3 r3 s3 where
    runs: "run_state (reconcile_edot_gateway rc ne (edot_gateway_image images) (ca_bundle_image images)) s = ((sv1, Inr r1), s1)"
      "run_state (reconcile_keycloak rc ne (keycloak_image images) (ca_bundle_image images)) s1 = ((sv2, Inr r2), s2)"
      "run_state (reconcile_otel_collector rc ne (otel_collector_image images) (ca_bundle_image images)) s2
      = ((sv3, Inr r3), s3)"
    and report: "run_state (reconcile_components rc ne images) (s, st) =
      run_state (report_components rc
        [(edot_gateway_component_id, r1), (identity_component_id, r2), (otel_collector_component_id, r3)])
        (s3, set_otel_collector sv3 (set_identity sv2 (set_edot_gateway sv1 st)))"
    by (rule components_run)
  have "s' = s3" using assms unfolding report run_report_components by simp
  then show ?thesis
    using runs only_since_refl [of C "st_trace s"]
    by (metis edot identity otel emitsD only_since_append)
qed

lemma platform:
  assumes "run_state (reconcile_platform rc ne images) (s, st) = (res, (s', st'))"
  shows "only_since C (st_trace s) (st_trace s')"
proof -
  obtain res1 u st1 where base: "run_state (reconcile_base_resources rc ne) (s, st) = (res1, (u, st1))"
    by (metis surj_pair)
  obtain x v where deny: "run_state (ensure_default_deny (rc_env rc) workload_namespace (owner_reference_for ne)) u = (x, v)"
    by force
  have u: "only_since C (st_trace s) (st_trace u)" by (rule base_resources [OF base])
  then have v: "only_since C (st_trace s) (st_trace v)"
    using default_deny deny by (metis emitsD only_since_append)
  have "s' = u \<or> s' = v \<or> run_state (reconcile_components rc ne images) (v, st1) = (res, (s', st'))"
    using assms base deny
    by (auto simp: reconcile_platform_def run_state_bind run_try_pass split: sum.splits if_splits)
  then show ?thesis using u v components only_since_trans by blast
qed

end

lemma identity_extends: "emits (\<lambda>c. True) (reconcile_keycloak rc ne img ca)"
  unfolding emits_def
proof
  fix s
  obtain sv r s' where run: "run_state (reconcile_keycloak rc ne img ca) s = ((sv, r), s')" by (metis surj_pair)
  show "\<exists>new. st_trace (snd (run_state (reconcile_keycloak rc ne img ca) s)) = st_trace s @ new \<and> (\<forall>c \<in> set new. True)"
    using tripleD [OF triple_reconcile_keycloak refl run] run
    by (auto simp: identity_post_def only_since_def realm_seen_def seen_since_def read_since_def)
qed

interpretation any_calls: pass_calls rc ne "\<lambda>c. True" for rc ne
  by unfold_locales (rule emits_base emits_telemetry identity_extends)+

lemma base_resources_extend:
  "run_state (reconcile_base_resources rc ne) (s, st) = (res, (s', st')) \<Longrightarrow> \<exists>new. st_trace s' = st_trace s @ new"
  by (drule any_calls.base_resources) (auto simp: only_since_def)

lemma platform_extends:
  "run_state (reconcile_platform rc ne images) (s, st) = (res, (s', st')) \<Longrightarrow> \<exists>new. st_trace s' = st_trace s @ new"
  by (drule any_calls.platform) (auto simp: only_since_def)

text \<open>A Ready phase comes from the three components, and the identity service was seen ready.\<close>

lemma ready_components:
  assumes run: "run_state (reconcile_components rc ne images) (s, st) = ((d, err), (s', st'))"
    and fresh: "fresh_status st" and ready: "nst_phase st' = PhaseReady"
  shows "err = None \<and> platform_seen (rc_env rc) (st_trace s) (st_trace s')"
proof -
  obtain sv1 r1 s1 sv2 r2 s2 sv3 r3 s3 where
    edot: "run_state (reconcile_edot_gateway rc ne (edot_gateway_image images) (ca_bundle_image images)) s = ((sv1, Inr r1), s1)"
    and identity: "run_state (reconcile_keycloak rc ne (keycloak_image images) (ca_bundle_image images)) s1
      = ((sv2, Inr r2), s2)"
    and otel: "run_state (reconcile_otel_collector rc ne (otel_collector_image images) (ca_bundle_image images)) s2
      = ((sv3, Inr r3), s3)"
    and report: "run_state (reconcile_components rc ne images) (s, st) =
      run_state (report_components rc
        [(edot_gateway_component_id, r1), (identity_component_id, r2), (otel_collector_component_id, r3)])
        (s3, set_otel_collector sv3 (set_identity sv2 (set_edot_gateway sv1 st)))"
    by (rule components_run)
  let ?results = "[(edot_gateway_component_id, r1), (identity_component_id, r2), (otel_collector_component_id, r3)]"
  have phase: "fst (aggregate_component_phase ?results) = PhaseReady" and rest: "err = None" "s' = s3"
    using run ready fresh_services [OF fresh] unfolding report run_report_components by auto
  have "ss_status sv2 = ServiceReady"
  proof -
    have "ss_status sv2 = ServiceReady \<or> unfinished r2"
      using returnsD [OF honest_identity identity] by (auto simp: honest_report_def)
    from ready_reports [OF disjI1 [OF TrueI] this disjI1 [OF TrueI] phase] show ?thesis by simp
  qed
  then have seen: "platform_seen (rc_env rc) (st_trace s1) (st_trace s2)"
    using tripleD [OF triple_reconcile_keycloak refl identity] by (simp add: identity_post_def)
  obtain before where before: "st_trace s1 = st_trace s @ before" using emits_telemetry(2) edot by (rule emitsD)
  obtain after where after: "st_trace s3 = st_trace s2 @ after" using emits_telemetry(1) otel by (rule emitsD)
  show ?thesis using platform_seen_within [OF seen [unfolded before]] rest after by simp
qed

lemma base_status:
  assumes "run_state (reconcile_base_resources rc ne) (s, st) = (res, (u, st1))" and "fresh_status st"
  shows "st1 = st \<or> (should_return res \<and> nst_phase st1 = PhaseFailed)"
  using assms
  by (auto simp: reconcile_base_resources_def Let_def run_try_pass should_return_def
      less_imp_neq [OF requeue_positive(2), symmetric] split: prod.splits sum.splits if_splits)

lemma ready_platform:
  assumes run: "run_state (reconcile_platform rc ne images) (s, st) = ((d, err), (s', st'))"
    and fresh: "fresh_status st" and ready: "nst_phase st' = PhaseReady"
  shows "err = None \<and> platform_seen (rc_env rc) (st_trace s) (st_trace s')"
proof -
  obtain res u st1 where base: "run_state (reconcile_base_resources rc ne) (s, st) = (res, (u, st1))"
    by (metis surj_pair)
  have st1: "st1 = st \<or> (should_return res \<and> nst_phase st1 = PhaseFailed)"
    by (rule base_status [OF base fresh])
  obtain new where new: "st_trace u = st_trace s @ new" using base_resources_extend [OF base] by blast
  have go_on: "\<not> should_return res"
    using run base st1 ready fresh by (auto simp: reconcile_platform_def run_state_bind fresh_status_def)
  obtain x v where deny: "run_state (ensure_default_deny (rc_env rc) workload_namespace (owner_reference_for ne)) u = (x, v)"
    by force
  then obtain more_calls where more_calls: "st_trace v = st_trace u @ more_calls" by (rule emitsD [OF emits_base(4)])
  have "\<not> isl x" and comps: "run_state (reconcile_components rc ne images) (v, st) = ((d, err), (s', st'))"
    using run base st1 go_on deny ready fresh
    by (auto simp: reconcile_platform_def run_state_bind run_try_pass split: sum.splits)
  have seen: "platform_seen (rc_env rc) (st_trace v) (st_trace s')" and "err = None"
    using ready_components [OF comps fresh ready] by simp_all
  moreover have "platform_seen (rc_env rc) (st_trace s) (st_trace s')"
    using platform_seen_within [of "rc_env rc" "st_trace s" "new @ more_calls" "st_trace s'" "[]"] seen new more_calls by simp
  ultimately show ?thesis by simp
qed

lemma ready_reaches_platform:
  assumes "run_state (reconcile_spec rc ne) (s, reset_status ne) = ((d, err), (s', st))" and "nst_phase st = PhaseReady"
    and "run_state (ensure_cluster_authority (rc_env rc) ne) s = (x, u)"
  shows "\<exists>images. x = Inr () \<and> run_state (reconcile_platform rc ne images) (u, reset_status ne) = ((d, err), (s', st))"
  using assms fresh_reset [of ne]
  by (auto simp: reconcile_spec_def establish_authority_def pause_for_upgrade_def Let_def run_state_bind run_try_pass
      split: if_splits option.splits sum.splits)

text \<open>
  C4. When a pass publishes Ready, then in this very pass the NetEye was seen to hold the
  cluster authority, and the TLS certificate, the Keycloak instance, the master realm and both
  platform accounts were read as ready; and the pass reports no error.
\<close>

theorem ready_pass_sound:
  assumes "run_state (reconcile_spec rc ne) (s, reset_status ne) = ((d, err), (s', st))"
    and "nst_phase st = PhaseReady"
  shows "err = None \<and> authority_seen (rc_env rc) ne (st_trace s) (st_trace s') \<and>
    platform_seen (rc_env rc) (st_trace s) (st_trace s')"
proof -
  obtain x u where authority: "run_state (ensure_cluster_authority (rc_env rc) ne) s = (x, u)" by force
  obtain images where ok_x: "x = Inr ()"
      and platform: "run_state (reconcile_platform rc ne images) (u, reset_status ne) = ((d, err), (s', st))"
    using ready_reaches_platform [OF assms authority] by blast
  obtain before where before: "st_trace u = st_trace s @ before"
    using emits_authority authority by (rule emitsD)
  have seen: "platform_seen (rc_env rc) (st_trace u) (st_trace s')" and err: "err = None"
    using ready_platform [OF platform fresh_reset assms(2)] by simp_all
  obtain after where after: "st_trace s' = st_trace u @ after" using platform_extends [OF platform] ..
  show ?thesis
    using authority_granted [OF authority [unfolded ok_x]] platform_seen_within [OF seen [unfolded before], of "[]"] err
    by (simp add: after authority_seen_append)
qed

end
