(* ===== verification/Platform_Liveness.thy ===== *)
theory Platform_Liveness
  imports NetEye_Pass
begin

text \<open>
  A platform that is up is reported Ready: the OpenTelemetry Collector
  (\<^verbatim>\<open>internal/elasticstack/component.go\<close>), then the whole pass of the NetEye controller
  (\<^verbatim>\<open>controllers/neteye_controller.go\<close>) over its authority, its base resources and its three
  components, down to the status it writes.
\<close>

section \<open>The OpenTelemetry Collector\<close>

text \<open>A route whose gateway has accepted it, as \<^verbatim>\<open>routeReady\<close> reads its status.\<close>

definition route_attached :: "string \<Rightarrow> string \<Rightarrow> expected_parent \<Rightarrow> k8s_object \<Rightarrow> bool" where
  "route_attached kind route expected ob \<longleftrightarrow>
     (\<exists>parents. nested_slice (fields_of ob) [''status'', ''parents''] = Inr (Some parents) \<and> parents \<noteq> [] \<and>
        (\<exists>m. scan_parents kind route expected (meta_generation (ob_meta ob)) parents = Inr (True, m)))"

definition routes_attached :: "env \<Rightarrow> string \<Rightarrow> string \<Rightarrow> string \<Rightarrow> expected_parent \<Rightarrow> bool" where
  "routes_attached env ns route kind expected \<longleftrightarrow>
     (\<forall>t. \<exists>ob. env_get env t (gvk_of gateway_api_group ''v1'' kind) ns route = Inr ob \<and>
        route_attached kind route expected ob)"

lemma route_test_ready:
  assumes "routes_attached env ns route kind expected"
  shows "\<exists>m s'. run_state (route_ready env ns route kind expected) s = (Inr (True, m), s')"
proof -
  obtain ob parents m where "env_get env (st_trace s) (gvk_of gateway_api_group ''v1'' kind) ns route = Inr ob"
      "nested_slice (fields_of ob) [''status'', ''parents''] = Inr (Some parents)" "parents \<noteq> []"
      "scan_parents kind route expected (meta_generation (ob_meta ob)) parents = Inr (True, m)"
    using assms unfolding routes_attached_def route_attached_def by blast
  then show ?thesis by (auto simp: route_ready_def k8s_get_def)
qed

text \<open>Tests that are positive in every state let the code go on.\<close>

lemma all_ready_continues:
  assumes "\<forall>m \<in> set ms. \<forall>s. \<exists>x s'. run_state m s = (Inr (True, x), s')"
    and "\<And>s. \<exists>s'. run_state k s = (out, s')"
  shows "\<exists>s'. run_state (all_ready ms reason k) s = (out, s')"
  using assms(1)
proof (induction ms arbitrary: s)
  case (Cons m ms)
  obtain x t where "run_state m s = (Inr (True, x), t)" using Cons.prems by force
  moreover obtain s' where "run_state (all_ready ms reason k) t = (out, s')" using Cons by force
  ultimately show ?case by (simp add: reconcile_step_def)
qed (use assms(2) in simp)

text \<open>What has to be in place for the collector of a configuration.\<close>

definition collector_up ::
    "env \<Rightarrow> url_lib \<Rightarrow> string \<Rightarrow> otel_collector_spec \<Rightarrow> string list \<Rightarrow> string \<Rightarrow> string \<Rightarrow> bool" where
  "collector_up env lib ns spec urls host gateway \<longleftrightarrow>
     0 \<le> oc_replicas spec \<and> validate_dns_name host ''identity hostname'' = None \<and> endpoints_ok lib urls \<and>
     ul_parse lib (''https://'' @ host @ ''/auth/realms/master'') \<noteq> None \<and>
     secrets_present env ns (collector_effective_basic_auth (Some spec)) ''htpasswd'' \<and>
     secrets_present env ns (collector_effective_root_ca (Some spec)) ''tls.crt'' \<and>
     secrets_present env ns (sel_name (collector_effective_api_key (Some spec)))
       (sel_key (collector_effective_api_key (Some spec))) \<and>
     deployments_current env ns es_deployment_name \<and>
     routes_attached env ns grpc_route_name ''GRPCRoute'' (collector_parent ns gateway grpc_listener_name) \<and>
     routes_attached env ns es_http_route_name ''HTTPRoute'' (collector_parent ns gateway cross_tenant_listener_name)"

lemma otel_collector_live:
  assumes c: "cooperative env owner" and up: "platform_up env" and issuer: "issuer \<noteq> []" and img: "img \<noteq> []"
    and cu: "collector_up env lib ns spec urls host gateway"
  shows "\<exists>s'. run_state (ensure_otel_collector env lib iteration ns (Some spec) urls host ns gateway img ca_image
           issuer owner) s = (ready_outcome ''OpenTelemetry Collector is ready'', s')"
proof -
  obtain endpoints targets where v: "validated_endpoints lib iteration urls = Inr (endpoints, targets)"
    using cu validated_endpoints_Inr [of lib iteration urls] unfolding collector_up_def by (metis surj_pair)
  have versions: "succeeds (collector_input_versions env ns a b d)" for a b d
    unfolding collector_input_versions_def config_map_resource_version_def
    by (intro succeeds_try_ok succeeds_read(2) [OF c]) auto
  have certificates: "succeeds (ensure_certificate env ns n secret cn dns issuer (Some owner))" for n secret cn dns
    using issuer by (simp add: ensure_certificate_def validate_issuer_ref_def succeeds_apply [OF c] lift_error_def)
  have routes: "succeeds (ensure_grpc_route env ns n ns gateway sec h svc port (Some owner))"
      "succeeds (ensure_http_route env ns n ns gateway sec hs svc port (Some owner))" for n sec h hs svc port
    by (simp_all add: ensure_grpc_route_def ensure_http_route_def ensure_http_route_spec_def succeeds_apply [OF c])
  have policies: "succeeds (ensure_collector_policies env lib ns host targets owner)"
    unfolding ensure_collector_policies_def
    by (intro succeeds_try_ok succeeds_apply [OF c]) (simp_all add: cilium_policy_def)
  have certificate_tests: "\<forall>m \<in> set (map (is_certificate_ready env ns) names). \<forall>s. \<exists>x s'.
      run_state m s = (Inr (True, x), s')" for names
    by (auto intro!: answered [OF _ certificate_test.readiness_test_axioms] simp: up [unfolded platform_up_def])
  have parse: "(ul_parse lib (''https://'' @ host @ ''/auth/realms/master'') = None) = False"
    using cu unfolding collector_up_def by blast
  have route_tests: "\<forall>m \<in> set [route_ready env ns grpc_route_name ''GRPCRoute''
          (collector_parent ns gateway grpc_listener_name),
        route_ready env ns es_http_route_name ''HTTPRoute'' (collector_parent ns gateway cross_tenant_listener_name)].
      \<forall>s. \<exists>x s'. run_state m s = (Inr (True, x), s')"
    using cu unfolding collector_up_def by (simp only: list.set insert_iff empty_iff) (blast intro: route_test_ready)
  have current: "deployments_current env ns es_deployment_name" using cu unfolding collector_up_def by blast
  have deploy: "\<exists>s'. run_state (deploy_otel_collector env lib ns spec endpoints targets host ns gateway img ca_image
      issuer (a, b, d) owner) s = (ready_outcome ''OpenTelemetry Collector is ready'', s')" for a b d s
    unfolding deploy_otel_collector_def prod.case Let_def parse if_False
    by (intro reconcile_step_succeeds succeeds_typed [OF c] versions succeeds_delete_owned [OF c] certificates
        routes policies all_ready_continues [OF certificate_tests] all_ready_continues [OF route_tests]
        deployment_test_succeeds [OF c current])
  show ?thesis
    unfolding ensure_otel_collector_def option.case v sum.case prod.case
    using cu img deploy
    by (simp add: collector_up_def) (intro reconcile_step_succeeds succeeds_secret [OF c]; simp)
qed

section \<open>The components of a NetEye\<close>

definition gateway_up :: "env \<Rightarrow> url_lib \<Rightarrow> string \<Rightarrow> edot_gateway_spec \<Rightarrow> string list \<Rightarrow> bool" where
  "gateway_up env lib ns spec urls \<longleftrightarrow>
     0 \<le> eg_replicas spec \<and> endpoints_ok lib urls \<and>
     secrets_present env ns (sel_name (gateway_effective_api_key (Some spec)))
       (sel_key (gateway_effective_api_key (Some spec))) \<and>
     secrets_present env ns (gateway_effective_root_ca (Some spec)) ''tls.crt'' \<and>
     deployments_current env ns edot_deployment_name"

text \<open>Telemetry is off, or configured with everything it needs.\<close>

definition telemetry_up :: "reconciler \<Rightarrow> neteye \<Rightarrow> neteye_components \<Rightarrow> bool" where
  "telemetry_up rc ne images \<longleftrightarrow>
     (case enabled_elastic_stack ne of
        None \<Rightarrow> True
      | Some es \<Rightarrow>
          (\<exists>t collector gateway. es_telemetry es = Some t \<and> tel_otel_collector t = Some collector \<and>
             tel_edot_gateway t = Some gateway \<and>
             otel_collector_image images \<noteq> [] \<and> edot_gateway_image images \<noteq> [] \<and>
             collector_up (rc_env rc) (rc_lib rc) workload_namespace collector (es_endpoints es)
               (id_hostname (ne_identity (ne_spec ne))) (gw_name (ne_gateway (ne_spec ne))) \<and>
             gateway_up (rc_env rc) (rc_lib rc) workload_namespace gateway (es_endpoints es)))"

definition ready_component :: "component_result \<Rightarrow> bool" where
  "ready_component r \<longleftrightarrow> cr_state r = StateReady \<and> cr_requeue_after r = 0"

lemma ready_result_component: "ready_result i reason m = Inr r \<Longrightarrow> ready_component r"
  by (auto simp: ready_result_def ready_component_def plain_result_def split: option.splits)

lemma ready_outcome_component:
  "map_telemetry_outcome i (ready_outcome m) d d' = Inr r \<Longrightarrow> ready_component r"
  by (simp add: map_telemetry_outcome_def ready_outcome_def ready_result_component)

lemma disabled_component:
  assumes "succeeds m" and "run_state (disabled_report rc i title img m) s = ((sv, Inr r), s')"
  shows "ready_component r"
proof -
  obtain x t where "run_state m s = (Inr x, t)" using assms(1) by (rule succeedsE)
  with assms(2) show ?thesis by (auto simp: disabled_report_def Let_def intro: ready_result_component)
qed

lemma outcome_component:
  assumes "\<exists>t. run_state m s = (ready_outcome says, t)" and "run_state (outcome_report rc i img m) s = ((sv, Inr r), s')"
  shows "ready_component r"
  using assms by (auto simp: outcome_report_def run_state_bind intro: ready_outcome_component)

lemma telemetry_components:
  assumes c: "cooperative (rc_env rc) (owner_reference_for ne)" and up: "platform_up (rc_env rc)"
    and issuer: "issuer_ref_for ne \<noteq> []" and telemetry: "telemetry_up rc ne images"
  shows "run_state (reconcile_otel_collector rc ne (otel_collector_image images) ca) s = ((sv, Inr r), s')
      \<Longrightarrow> ready_component r"
    and "run_state (reconcile_edot_gateway rc ne (edot_gateway_image images) ca) s = ((sv, Inr r), s')
      \<Longrightarrow> ready_component r"
proof -
  assume otel: "run_state (reconcile_otel_collector rc ne (otel_collector_image images) ca) s = ((sv, Inr r), s')"
  show "ready_component r"
  proof (cases "enabled_elastic_stack ne")
    case None
    with otel show ?thesis
      by (auto simp: reconcile_otel_collector_def delete_otel_collector_def intro: disabled_component [OF succeeds_delete_owned [OF c]])
  next
    case (Some es)
    with telemetry obtain t collector where es: "es_telemetry es = Some t" "tel_otel_collector t = Some collector"
        and img: "otel_collector_image images \<noteq> []"
        and cu: "collector_up (rc_env rc) (rc_lib rc) workload_namespace collector (es_endpoints es)
          (id_hostname (ne_identity (ne_spec ne))) (gw_name (ne_gateway (ne_spec ne)))"
      by (auto simp: telemetry_up_def)
    from otel Some es show ?thesis
      by (auto simp: reconcile_otel_collector_def intro: outcome_component [OF otel_collector_live [OF c up issuer img cu]])
  qed
next
  assume edot: "run_state (reconcile_edot_gateway rc ne (edot_gateway_image images) ca) s = ((sv, Inr r), s')"
  show "ready_component r"
  proof (cases "enabled_elastic_stack ne")
    case None
    with edot show ?thesis
      by (auto simp: reconcile_edot_gateway_def delete_edot_gateway_def intro: disabled_component [OF succeeds_delete_owned [OF c]])
  next
    case (Some es)
    with telemetry obtain t gateway where es: "es_telemetry es = Some t" "tel_edot_gateway t = Some gateway"
        and img: "edot_gateway_image images \<noteq> []"
        and gu: "gateway_up (rc_env rc) (rc_lib rc) workload_namespace gateway (es_endpoints es)"
      by (auto simp: telemetry_up_def)
    note live = gu [unfolded gateway_up_def]
    from edot Some es live show ?thesis
      by (auto simp: reconcile_edot_gateway_def intro: outcome_component [OF edot_gateway_live [OF c _ img]])
  qed
qed

section \<open>The pass of a NetEye\<close>

text \<open>
  A NetEye of the latest version whose platform is up: it holds the authority lease, its
  cluster cooperates, and what its components wait for is there.
\<close>

definition neteye_up :: "reconciler \<Rightarrow> neteye \<Rightarrow> bool" where
  "neteye_up rc ne \<longleftrightarrow>
     is_latest_version (ne_version (ne_spec ne)) \<and>
     rc_has_keycloak rc \<and> rc_has_otel_collector rc \<and> rc_has_edot_gateway rc \<and>
     cooperative (rc_env rc) (owner_reference_for ne) \<and> platform_up (rc_env rc) \<and> issuer_ref_for ne \<noteq> [] \<and>
     succeeds (ensure_bootstrap_admin_disabled (rc_env rc) workload_namespace) \<and>
     (\<forall>t. \<exists>lease. env_get (rc_env rc) t lease_gvk workload_namespace cluster_authority_lease_name = Inr lease \<and>
        lease_names ne lease) \<and>
     (\<forall>images. components_for_version (rc_getenv rc) (ne_version (ne_spec ne)) = Some images \<longrightarrow>
        telemetry_up rc ne images)"

lemma authority_live:
  assumes c: "cooperative (rc_env rc) (owner_reference_for ne)"
    and "\<forall>t. \<exists>lease. env_get (rc_env rc) t lease_gvk workload_namespace cluster_authority_lease_name = Inr lease \<and>
        lease_names ne lease"
  shows "\<exists>s'. run_state (ensure_cluster_authority (rc_env rc) ne) s = (Inr (), s')"
proof -
  obtain lease where lease: "env_get (rc_env rc) (st_trace s) lease_gvk workload_namespace cluster_authority_lease_name
      = Inr lease" "lease_names ne lease" using assms(2) by blast
  have "managed_by (owner_reference_for ne) lease" using c lease(1) unfolding cooperative_def by (metis sum.inject(2))
  then have "lease_controlled ne lease"
    by (auto simp: managed_by_def lease_controlled_def owner_reference_for_def make_owner_reference_def)
  with lease show ?thesis
    by (simp add: ensure_cluster_authority_def obtain_lease_def get_lease_def k8s_get_def lease_names_def)
qed

lemma succeeds_unit: "succeeds m \<Longrightarrow> \<exists>s'. run_state m s = (Inr (), s')"
  for m :: "unit fallible"
  by (simp add: succeeds_def)

lemma base_resources_live:
  assumes c: "cooperative (rc_env rc) (owner_reference_for ne)" and issuer: "issuer_ref_for ne \<noteq> []"
  shows "\<exists>s'. run_state (reconcile_base_resources rc ne) (s, st) = ((0, None), (s', st))"
proof -
  have found: "succeeds (ensure_issuer_exists (rc_env rc) workload_namespace (issuer_ref_for ne))"
    using issuer unfolding ensure_issuer_exists_def validate_issuer_ref_def lift_error_def
    by (simp add: succeeds_read(2) [OF c])
  have applied: "succeeds (ensure_gateway (rc_env rc) ns g class_name an ls (owner_reference_for ne))"
      "succeeds (ensure_redirect_route (rc_env rc) ns g (owner_reference_for ne))" for ns g class_name an ls
    by (simp_all add: ensure_gateway_def ensure_redirect_route_def ensure_http_route_spec_def succeeds_apply [OF c])
  obtain s1 where 1: "run_state (ensure_issuer_exists (rc_env rc) workload_namespace (issuer_ref_for ne)) s = (Inr (), s1)"
    using succeeds_unit [OF found] by blast
  obtain s2 where 2: "run_state (ensure_gateway (rc_env rc) workload_namespace (gw_name (ne_gateway (ne_spec ne)))
      (gw_class_name (ne_gateway (ne_spec ne))) (gw_annotations (ne_gateway (ne_spec ne))) (gateway_listeners ne)
      (owner_reference_for ne)) s1 = (Inr (), s2)"
    using succeeds_unit [OF applied(1)] by blast
  obtain s3 where 3: "run_state (ensure_redirect_route (rc_env rc) workload_namespace (gw_name (ne_gateway (ne_spec ne)))
      (owner_reference_for ne)) s2 = (Inr (), s3)"
    using succeeds_unit [OF applied(2)] by blast
  show ?thesis by (simp add: reconcile_base_resources_def Let_def run_try_pass 1 2 3)
qed

lemma components_live:
  assumes c: "cooperative (rc_env rc) (owner_reference_for ne)" and up: "platform_up (rc_env rc)"
    and issuer: "issuer_ref_for ne \<noteq> []"
    and retired: "succeeds (ensure_bootstrap_admin_disabled (rc_env rc) workload_namespace)"
    and telemetry: "telemetry_up rc ne images" and fresh: "fresh_status st"
  shows "\<exists>s' st'. run_state (reconcile_components rc ne images) (s, st) = ((reconciliation_requeue rc, None), (s', st')) \<and>
    nst_phase st' = PhaseReady"
proof -
  obtain sv1 r1 s1 sv2 r2 s2 sv3 r3 s3 where
    edot: "run_state (reconcile_edot_gateway rc ne (edot_gateway_image images) (ca_bundle_image images)) s = ((sv1, Inr r1), s1)"
    and identity: "run_state (reconcile_keycloak rc ne (keycloak_image images) (ca_bundle_image images)) s1
      = ((sv2, Inr r2), s2)"
    and otel: "run_state (reconcile_otel_collector rc ne (otel_collector_image images) (ca_bundle_image images)) s2
      = ((sv3, Inr r3), s3)"
    and report: "run_state (reconcile_components rc ne images) (s, st) =
      run_state (report_components rc
        [(edot_gateway_component_id, r1), (identity_component_id, r2), (otel_collector_component_id, r3)])
        (s3, set_otel_collector sv3 (set_identity sv2 (set_edot_gateway sv1 st)))"
    by (rule components_run)
  let ?results = "[(edot_gateway_component_id, r1), (identity_component_id, r2), (otel_collector_component_id, r3)]"
  have "ready_component r2"
    using identity_live [OF c up issuer retired, of "keycloak_image images" "ca_bundle_image images" s1] identity
    by (auto simp: identity_ready_report_def intro: ready_result_component)
  then have "ready_component r1" "ready_component r2" "ready_component r3"
    using telemetry_components [OF c up issuer telemetry] edot otel by blast+
  then have "fst (aggregate_component_phase ?results) = PhaseReady" "earliest_component_requeue ?results = 0"
    by (simp_all add: ready_component_def aggregate_component_phase_def scan_component_phase_eq earliest_requeue_eq
        positive_requeues_def)
  then show ?thesis
    unfolding report run_report_components using fresh_services [OF fresh] by (simp add: Let_def)
qed

lemma spec_live:
  assumes up: "neteye_up rc ne"
  shows "\<exists>s' st. run_state (reconcile_spec rc ne) (s, reset_status ne) = ((reconciliation_requeue rc, None), (s', st)) \<and>
    nst_phase st = PhaseReady"
proof -
  note facts = up [unfolded neteye_up_def]
  have c: "cooperative (rc_env rc) (owner_reference_for ne)" using facts by blast
  obtain images where images: "components_for_version (rc_getenv rc) (ne_version (ne_spec ne)) = Some images"
    using facts latest_has_components by blast
  obtain s1 where authority: "run_state (ensure_cluster_authority (rc_env rc) ne) s = (Inr (), s1)"
    using authority_live [OF c] facts by blast
  obtain s2 where base: "run_state (reconcile_base_resources rc ne) (s1, reset_status ne) = ((0, None), (s2, reset_status ne))"
    using base_resources_live [OF c] facts by blast
  have "succeeds (ensure_default_deny (rc_env rc) workload_namespace (owner_reference_for ne))"
    unfolding ensure_default_deny_def delete_legacy_default_deny_def
    by (intro succeeds_try_ok succeeds_read(1) [OF c] succeeds_delete [OF c] succeeds_apply [OF c]) simp_all
  then obtain s3 where deny: "run_state (ensure_default_deny (rc_env rc) workload_namespace (owner_reference_for ne)) s2
      = (Inr (), s3)" using succeeds_unit by blast
  have "\<exists>s' st. run_state (reconcile_components rc ne images) (s3, reset_status ne)
      = ((reconciliation_requeue rc, None), (s', st)) \<and> nst_phase st = PhaseReady"
    by (rule components_live [OF c]) (use facts images fresh_reset in blast)+
  then show ?thesis
    using facts images authority base deny
    by (simp add: reconcile_spec_def establish_authority_def reconcile_platform_def run_state_bind run_try_pass Let_def
        should_return_def latest_not_previous)
qed

text \<open>
  C5. A platform that is up is published Ready: the pass for a NetEye that holds the cluster
  authority, in a cluster that accepts every write, with the certificate, the Keycloak
  instance, the realm, the accounts and the telemetry workloads and routes ready, runs through
  all three components, writes a Ready status as its last call, reports no error and comes
  back after the reconciliation interval.
\<close>

theorem neteye_reaches_ready:
  assumes "neteye_up rc (neteye_of ob)"
    and "\<forall>t. env_get (rc_env rc) t neteye_gvk ns name = Inr ob" and "ob_content ob = NetEyeContent spec old"
    and "\<forall>t x. \<not> isl (env_update_status (rc_env rc) t x)"
  shows "\<exists>s' st calls. run_state (reconcile_neteye rc ns name) s = ((reconciliation_requeue rc, None), s') \<and>
    st_trace s' = calls @ [K8sUpdateStatus (ob\<lparr>ob_content := NetEyeContent spec st\<rparr>)] \<and> nst_phase st = PhaseReady"
proof -
  let ?s = "record_call (K8sGet neteye_gvk ns name) s"
  obtain s1 st where spec: "run_state (reconcile_spec rc (neteye_of ob)) (?s, reset_status (neteye_of ob))
      = ((reconciliation_requeue rc, None), (s1, st))" and ready: "nst_phase st = PhaseReady"
    using spec_live [OF assms(1)] by blast
  let ?new = "ob\<lparr>ob_content := NetEyeContent spec st\<rparr>"
  let ?s2 = "record_call (K8sGet neteye_gvk ns name) s1"
  have accepted: "\<exists>x. env_update_status (rc_env rc) (st_trace ?s2) ?new = Inr x"
    using assms(4) by (metis isl_def sum.exhaust)
  let ?round = "attempt (k8s_get (rc_env rc) neteye_gvk ns name) (\<lambda>e. if is_not_found e then ok () else fail e)
      (\<lambda>current. ignore_not_found (k8s_update_status (rc_env rc) (with_neteye_status st current)))"
  have "run_state ?round s1 = (Inr (), record_call (K8sUpdateStatus ?new) ?s2)"
    using assms(2,3) accepted
    by (auto simp: k8s_get_def k8s_update_status_def with_neteye_status_def ignore_not_found_def)
  then have "run_state (update_neteye_status (rc_env rc) ns name st) s1 = (Inr (), record_call (K8sUpdateStatus ?new) ?s2)"
    unfolding update_neteye_status_def by (rule run_retry_no_conflict) simp
  with assms(2) spec ready show ?thesis
    by (auto simp: reconcile_neteye_def k8s_get_def run_state_bind run_pass_def report_status_def)
qed

section \<open>A platform that is up\<close>

text \<open>The NetEye with everything enabled, in a cluster where everything is ready.\<close>

definition full_neteye_spec :: neteye_spec where
  "full_neteye_spec = sample_neteye_spec\<lparr>ne_elastic_stack := Some
     \<lparr>es_enabled = True, es_endpoints = [''https://10.0.0.11:443''],
      es_telemetry = Some \<lparr>tel_otel_collector = Some \<lparr>oc_replicas = 1, oc_basic_auth_secret_name = [],
          oc_root_ca_secret_name = [], oc_api_key_secret = None\<rparr>,
        tel_edot_gateway = Some sample_gateway\<rparr>\<rparr>\<rparr>"

definition route_parent :: "string \<Rightarrow> json" where
  "route_parent listener = JObj
     [(''parentRef'', JObj [(''namespace'', JStr workload_namespace), (''name'', JStr ''gw''), (''sectionName'', JStr listener)]),
      (''conditions'', JArr [JObj [(''type'', JStr ''Accepted''), (''status'', JStr ''True'')],
         JObj [(''type'', JStr ''ResolvedRefs''), (''status'', JStr ''True'')]])]"

definition full_object :: "gvk \<Rightarrow> k8s_object" where
  "full_object k =
     (if k = neteye_gvk
      then set_owners [sample_owner] \<lparr>ob_gvk = neteye_gvk, ob_meta = sample_neteye_meta ''u1'',
             ob_content = NetEyeContent full_neteye_spec zero_neteye_status\<rparr>
      else owned_by_sample k
        (if k = lease_gvk then LeaseContent (Some ''u1'')
         else if k = deployment_gvk
         then DeploymentContent [] \<lparr>ds_observed_generation = 1, ds_ready_replicas = 1, ds_updated_replicas = 1\<rparr>
         else if k = grpc_route_gvk
         then Unstructured [(''status'', JObj [(''parents'', JArr [route_parent grpc_listener_name])])]
         else if k = http_route_gvk
         then Unstructured [(''status'', JObj [(''parents'', JArr [route_parent cross_tenant_listener_name])])]
         else platform_content k))"

definition full_url_lib :: url_lib where
  "full_url_lib = sample_url_lib\<lparr>ul_parse := (\<lambda>v. Some (sample_url ''10.0.0.11'' ''443''))\<rparr>"

definition full_reconciler :: reconciler where
  "full_reconciler = (sample_reconciler (platform_with full_object))\<lparr>rc_lib := full_url_lib\<rparr>"

lemmas full_kinds = neteye_gvk_def lease_gvk_def deployment_gvk_def grpc_route_gvk_def http_route_gvk_def secret_gvk_def
  certificate_gvk_def keycloak_gvk_def keycloak_realm_gvk_def keycloak_user_gvk_def neteye_group_def
  gateway_api_group_def cert_manager_group_def

lemma full_object_simps [simp]:
  "full_object secret_gvk = owned_by_sample secret_gvk (platform_content secret_gvk)"
  "full_object certificate_gvk = owned_by_sample certificate_gvk (platform_content certificate_gvk)"
  "full_object keycloak_gvk = owned_by_sample keycloak_gvk (platform_content keycloak_gvk)"
  "full_object keycloak_realm_gvk = owned_by_sample keycloak_realm_gvk (platform_content keycloak_realm_gvk)"
  "full_object keycloak_user_gvk = owned_by_sample keycloak_user_gvk (platform_content keycloak_user_gvk)"
  "full_object lease_gvk = owned_by_sample lease_gvk (LeaseContent (Some ''u1''))"
  "full_object deployment_gvk = owned_by_sample deployment_gvk
     (DeploymentContent [] \<lparr>ds_observed_generation = 1, ds_ready_replicas = 1, ds_updated_replicas = 1\<rparr>)"
  "full_object (gvk_of gateway_api_group ''v1'' ''GRPCRoute'') = owned_by_sample grpc_route_gvk
     (Unstructured [(''status'', JObj [(''parents'', JArr [route_parent grpc_listener_name])])])"
  "full_object (gvk_of gateway_api_group ''v1'' ''HTTPRoute'') = owned_by_sample http_route_gvk
     (Unstructured [(''status'', JObj [(''parents'', JArr [route_parent cross_tenant_listener_name])])])"
  by (simp_all add: full_object_def full_kinds)

lemma full_cooperative:
  assumes "or_uid owner = ''u1''"
  shows "cooperative (platform_with full_object) owner"
proof -
  have "managed_by owner (full_object k)" for k
    using assms
    by (simp add: full_object_def managed_by_def controller_of_def owned_by_sample_def is_controller_ref_def
        sample_owner_def make_owner_reference_def owners_set_owners)
  then show ?thesis by (simp add: cooperative_def) (simp add: platform_with_def keycloak_env_def memory_env_def)
qed

lemma full_platform_up: "platform_up (platform_with full_object)"
  using platform_env_up by (simp add: platform_up_def)

lemma full_routes:
  "routes_attached (platform_with full_object) workload_namespace grpc_route_name ''GRPCRoute''
     (collector_parent workload_namespace ''gw'' grpc_listener_name)"
  "routes_attached (platform_with full_object) workload_namespace es_http_route_name ''HTTPRoute''
     (collector_parent workload_namespace ''gw'' cross_tenant_listener_name)"
  by (simp_all add: routes_attached_def route_attached_def fields_of_def nested_slice_def route_parent_def
      parent_matches_def collector_parent_def or_default_def nested_string_def string_value_def route_condition_def find_condition_def
      nested_int64_def)

lemma full_secrets:
  "validate_dns_name name ''Secret name'' = None \<Longrightarrow> key \<in> {''tls.crt'', ''htpasswd'', ''api_key''} \<Longrightarrow>
     secrets_present (platform_with full_object) ns name key"
  by (auto simp: secrets_present_def platform_content_def secret_value_def secret_data_def platform_credentials_def
      trim_space_def trim_left_def is_space_def has_blank_def)

lemma full_secret_names:
  "validate_dns_name ''otel-collector-basicauth'' ''Secret name'' = None"
  "validate_dns_name ''otel-collector-icinga-api-key-secret'' ''Secret name'' = None"
  "validate_dns_name ''neteye.example'' ''identity hostname'' = None"
  by code_simp+

lemma full_deployments: "deployments_current (platform_with full_object) ns name"
  by (simp add: deployments_current_def deployment_behind_def deployment_status_of_def desired_replicas_def
      deployment_spec_def Let_def)

lemma full_endpoints: "endpoints_ok full_url_lib [''https://10.0.0.11:443'']"
  using sample_targets(1)
  by (simp add: endpoints_ok_def endpoint_target_def full_url_lib_def sample_url_lib_def is_supported_endpoint_host_def)

lemma full_parses: "\<exists>y. ul_parse full_url_lib v = Some y"
  by (simp add: full_url_lib_def)

lemma full_neteye: "neteye_of (full_object neteye_gvk) =
  \<lparr>ne_meta = (sample_neteye_meta ''u1'')\<lparr>meta_owners := [sample_owner]\<rparr>, ne_spec = full_neteye_spec, ne_status = zero_neteye_status\<rparr>"
  by (simp add: full_object_def neteye_of_def set_owners_def)

lemma full_telemetry:
  assumes "components_for_version (\<lambda>v. []) current_neteye_version = Some images"
  shows "telemetry_up full_reconciler (neteye_of (full_object neteye_gvk)) images"
proof -
  have "otel_collector_image images \<noteq> []" "edot_gateway_image images \<noteq> []"
    using assms by (auto simp: components_for_version_def neteye_version_map_def image_override_def trim_space_def
        trim_left_def Let_def)
  then show ?thesis
    using full_routes full_secrets full_secret_names sample_secret_names full_deployments full_endpoints full_parses
    by (simp add: telemetry_up_def sample_neteye_spec_def sample_identity_def collector_effective_basic_auth_def
        collector_effective_root_ca_def collector_effective_api_key_def gateway_effective_api_key_def
        gateway_effective_root_ca_def default_collector_basic_auth_def default_collector_api_key_name_def
        default_gateway_api_key_name_def default_root_ca_def default_api_key_key_def sample_gateway_def enabled_elastic_stack_def full_neteye full_neteye_spec_def full_reconciler_def
        sample_reconciler_def collector_up_def gateway_up_def)
qed

lemma full_neteye_up: "neteye_up full_reconciler (neteye_of (full_object neteye_gvk))"
proof -
  have "cooperative (platform_with full_object) (owner_reference_for (neteye_of (full_object neteye_gvk)))"
    by (rule full_cooperative) (simp add: full_neteye owner_reference_for_def make_owner_reference_def sample_neteye_meta_def)
  moreover have "succeeds (ensure_bootstrap_admin_disabled (platform_with full_object) workload_namespace)"
    by (rule platform_retires) simp
  moreover have "\<forall>images. components_for_version (\<lambda>v. []) current_neteye_version = Some images \<longrightarrow>
      telemetry_up full_reconciler (neteye_of (full_object neteye_gvk)) images"
    using full_telemetry by blast
  ultimately show ?thesis
    using full_platform_up
    by (simp add: neteye_up_def full_neteye full_neteye_spec_def sample_neteye_spec_def issuer_ref_for_def
        is_latest_version_def full_reconciler_def sample_reconciler_def lease_names_def lease_holder_def
        sample_neteye_meta_def)
qed

lemma platform_updates: "\<not> isl (env_update_status (platform_with f) t x)"
  by (simp add: platform_with_def keycloak_env_def memory_env_def)

theorem neteye_reaches_ready_witness:
  "\<exists>s' st calls. run_state (reconcile_neteye full_reconciler workload_namespace ''ne'') initial_state
       = ((reconciliation_requeue full_reconciler, None), s') \<and>
     st_trace s' = calls @ [K8sUpdateStatus ((full_object neteye_gvk)\<lparr>ob_content := NetEyeContent full_neteye_spec st\<rparr>)] \<and>
     nst_phase st = PhaseReady"
  by (rule neteye_reaches_ready [OF full_neteye_up, where old = zero_neteye_status])
    (simp_all add: full_reconciler_def sample_reconciler_def full_object_def set_owners_def platform_updates)

theorem ready_pass_sound_witness:
  "\<exists>s' st. run_state (reconcile_spec full_reconciler (neteye_of (full_object neteye_gvk)))
       (initial_state, reset_status (neteye_of (full_object neteye_gvk))) = ((reconciliation_requeue full_reconciler, None), (s', st)) \<and>
     authority_seen (rc_env full_reconciler) (neteye_of (full_object neteye_gvk)) (st_trace initial_state) (st_trace s') \<and>
     platform_seen (rc_env full_reconciler) (st_trace initial_state) (st_trace s')"
proof -
  obtain s' st where run: "run_state (reconcile_spec full_reconciler (neteye_of (full_object neteye_gvk)))
       (initial_state, reset_status (neteye_of (full_object neteye_gvk))) = ((reconciliation_requeue full_reconciler, None), (s', st))"
    and ready: "nst_phase st = PhaseReady" using spec_live [OF full_neteye_up] by blast
  from ready_pass_sound [OF run ready] run show ?thesis by blast
qed

end
