(* ===== verification/Call_Kinds.thy ===== *)
theory Call_Kinds
  imports NetEye_Pass User_Passwords
begin

text \<open>
  Which kinds of Kubernetes objects the operator touches, and how: a table of the rights its
  code needs, and that every call of every component and controller stays within it. The rules a
  cluster grants the operator are compared with the table in \<^verbatim>\<open>Cluster_Permissions\<close>; that the table
  has no right over leases, but for the authority itself, is what \<^verbatim>\<open>Cluster_Authority\<close> rests on.
\<close>

section \<open>Rights\<close>

datatype verb = VGet | VCreate | VUpdate | VUpdateStatus | VDelete

type_synonym need = "gvk \<times> verb"

text \<open>The rights a call needs; \<^verbatim>\<open>CreateOrUpdate\<close> reads, then creates or updates.\<close>

fun call_needs :: "call \<Rightarrow> need list" where
  "call_needs (K8sGet k ns n) = [(k, VGet)]"
| "call_needs (K8sCreate ob) = [(ob_gvk ob, VCreate)]"
| "call_needs (K8sUpdate ob) = [(ob_gvk ob, VUpdate)]"
| "call_needs (K8sUpdateStatus ob) = [(ob_gvk ob, VUpdateStatus)]"
| "call_needs (K8sDelete k ns n) = [(k, VDelete)]"
| "call_needs (StoreSecretKey ns n key v) = [(secret_gvk, VGet), (secret_gvk, VCreate), (secret_gvk, VUpdate)]"
| "call_needs c = []"

definition in_table :: "need list \<Rightarrow> call \<Rightarrow> bool" where
  "in_table table c \<longleftrightarrow> set (call_needs c) \<subseteq> set table"

lemma in_table_mono: "in_table table c \<Longrightarrow> set table \<subseteq> set table' \<Longrightarrow> in_table table' c"
  by (auto simp: in_table_def)

definition needs_of :: "gvk \<Rightarrow> verb list \<Rightarrow> need list" where
  "needs_of k vs = List.map (Pair k) vs"

lemma needs_of_mem [simp]: "(k, v) \<in> set (needs_of k' vs) \<longleftrightarrow> k = k' \<and> v \<in> set vs"
  by (auto simp: needs_of_def)

text \<open>What the components and the controllers need, the authority lease apart.\<close>

definition platform_needs :: "need list" where
  "platform_needs = concat
     [needs_of issuer_gvk [VGet],
      needs_of certificate_gvk [VGet, VCreate, VUpdate, VDelete],
      needs_of gateway_gvk [VGet, VCreate, VUpdate],
      needs_of http_route_gvk [VGet, VCreate, VUpdate, VDelete],
      needs_of grpc_route_gvk [VGet, VCreate, VUpdate, VDelete],
      needs_of cilium_network_policy_gvk [VGet, VCreate, VUpdate, VDelete],
      needs_of native_network_policy_gvk [VGet, VDelete],
      needs_of config_map_gvk [VGet, VCreate, VUpdate, VDelete],
      needs_of deployment_gvk [VGet, VCreate, VUpdate, VDelete],
      needs_of service_gvk [VGet, VCreate, VUpdate, VDelete],
      needs_of secret_gvk [VGet, VCreate, VUpdate],
      needs_of keycloak_gvk [VGet, VCreate, VUpdate],
      needs_of cluster_extension_gvk [VGet, VCreate, VUpdate],
      needs_of neteye_gvk [VGet, VUpdateStatus],
      needs_of keycloak_user_gvk [VGet, VCreate, VUpdate, VUpdateStatus],
      needs_of keycloak_client_gvk [VGet, VCreate, VUpdate, VUpdateStatus],
      needs_of keycloak_realm_gvk [VGet, VCreate, VUpdate, VUpdateStatus],
      needs_of keycloak_auth_flow_gvk [VGet, VCreate, VUpdate, VUpdateStatus]]"

definition lease_needs :: "need list" where
  "lease_needs = needs_of lease_gvk [VGet, VCreate, VUpdate]"

definition operator_needs :: "need list" where
  "operator_needs = platform_needs @ lease_needs"

abbreviation needed :: "call \<Rightarrow> bool" where
  "needed \<equiv> in_table platform_needs"

lemma needed_calls [simp]:
  "needed (K8sGet k ns n) \<longleftrightarrow> (k, VGet) \<in> set platform_needs"
  "needed (K8sCreate ob) \<longleftrightarrow> (ob_gvk ob, VCreate) \<in> set platform_needs"
  "needed (K8sUpdate ob) \<longleftrightarrow> (ob_gvk ob, VUpdate) \<in> set platform_needs"
  "needed (K8sUpdateStatus ob) \<longleftrightarrow> (ob_gvk ob, VUpdateStatus) \<in> set platform_needs"
  "needed (K8sDelete k ns n) \<longleftrightarrow> (k, VDelete) \<in> set platform_needs"
  "needed (TokenCall b u p)" "needed (AdminCall b m path body)" "needed ReadClock" "needed (DrawRandom i)"
  by (simp_all add: in_table_def)

lemma needed_store [simp]: "needed (StoreSecretKey ns n key v)"
  by (simp add: in_table_def platform_needs_def)

text \<open>The kinds \<^verbatim>\<open>Apply\<close> is used with, and those of the Keycloak resources.\<close>

definition applied_kinds :: "gvk set" where
  "applied_kinds = {certificate_gvk, gateway_gvk, http_route_gvk, grpc_route_gvk, cilium_network_policy_gvk,
     config_map_gvk, deployment_gvk, service_gvk, keycloak_gvk, cluster_extension_gvk}"

definition resource_kinds :: "gvk set" where
  "resource_kinds = {keycloak_user_gvk, keycloak_client_gvk, keycloak_realm_gvk, keycloak_auth_flow_gvk}"

lemma kinds [simp]:
  "certificate_gvk \<in> applied_kinds" "gateway_gvk \<in> applied_kinds" "http_route_gvk \<in> applied_kinds"
  "grpc_route_gvk \<in> applied_kinds" "cilium_network_policy_gvk \<in> applied_kinds" "config_map_gvk \<in> applied_kinds"
  "deployment_gvk \<in> applied_kinds" "service_gvk \<in> applied_kinds" "keycloak_gvk \<in> applied_kinds"
  "cluster_extension_gvk \<in> applied_kinds" "keycloak_user_gvk \<in> resource_kinds" "keycloak_client_gvk \<in> resource_kinds"
  "keycloak_realm_gvk \<in> resource_kinds" "keycloak_auth_flow_gvk \<in> resource_kinds"
  by (simp_all add: applied_kinds_def resource_kinds_def)

lemma applied_needs [simp]:
  "k \<in> applied_kinds \<Longrightarrow> (k, VGet) \<in> set platform_needs"
  "k \<in> applied_kinds \<Longrightarrow> (k, VCreate) \<in> set platform_needs"
  "k \<in> applied_kinds \<Longrightarrow> (k, VUpdate) \<in> set platform_needs"
  by (auto simp: platform_needs_def applied_kinds_def)

lemma resource_needs [simp]:
  "k \<in> resource_kinds \<Longrightarrow> (k, VGet) \<in> set platform_needs"
  "k \<in> resource_kinds \<Longrightarrow> (k, VCreate) \<in> set platform_needs"
  "k \<in> resource_kinds \<Longrightarrow> (k, VUpdate) \<in> set platform_needs"
  "k \<in> resource_kinds \<Longrightarrow> (k, VUpdateStatus) \<in> set platform_needs"
  by (auto simp: platform_needs_def resource_kinds_def)

lemma other_needs [simp]:
  "(secret_gvk, VGet) \<in> set platform_needs" "(issuer_gvk, VGet) \<in> set platform_needs"
  "(native_network_policy_gvk, VGet) \<in> set platform_needs" "(native_network_policy_gvk, VDelete) \<in> set platform_needs"
  "(neteye_gvk, VGet) \<in> set platform_needs" "(neteye_gvk, VUpdateStatus) \<in> set platform_needs"
  by (simp_all add: platform_needs_def)

lemma sends_needs: "sends P c \<Longrightarrow> needed c"
  by (cases c) auto

lemma emits_sends_needs: "emits (sends P) m \<Longrightarrow> emits needed m"
  by (erule emits_mono) (rule sends_needs)

lemma reads_needs: "reads_cluster c \<Longrightarrow> needed c"
  by (cases c) auto

section \<open>The components\<close>

text \<open>
  An API server that answers a read with an object of the kind it was asked for. What the
  operator updates it has read, so its updates stay with the kinds it reads.
\<close>

locale kinded_server =
  fixes env :: env
  assumes kinds: "env_get env t k ns n = Inr ob \<Longrightarrow> ob_gvk ob = k"
begin

lemma delivers_get: "delivers (\<lambda>ob. ob_gvk ob = k) (\<lambda>e. True) (k8s_get env k ns n)"
  unfolding k8s_get_def by (rule delivers_perform) (auto split: sum.split dest: kinds)

lemma emits_get: "(k, VGet) \<in> set platform_needs \<Longrightarrow> emits needed (k8s_get env k ns n)"
  unfolding k8s_get_def by (intro emits_intros) simp

lemma get_then:
  "(k, VGet) \<in> set platform_needs \<Longrightarrow> (\<And>e. emits needed (h e)) \<Longrightarrow>
     (\<And>ob. ob_gvk ob = k \<Longrightarrow> emits needed (kont ob)) \<Longrightarrow> emits needed (attempt (k8s_get env k ns n) h kont)"
  by (rule emits_attempt_delivers [OF emits_get delivers_get])

lemma get_try:
  "(k, VGet) \<in> set platform_needs \<Longrightarrow> (\<And>ob. ob_gvk ob = k \<Longrightarrow> emits needed (kont ob)) \<Longrightarrow>
     emits needed (try_ok (k8s_get env k ns n) kont)"
  unfolding try_ok_def by (intro get_then emits_return)

lemma needs_apply:
  assumes kind: "od_gvk obj \<in> applied_kinds"
  shows "emits needed (apply_only env obj)"
proof -
  have once: "emits needed (reconcile_once env obj)"
    unfolding reconcile_once_def get_object_def k8s_update_def
    by (intro get_try emits_intros) (use kind in simp_all)
  have "ob_gvk (created_object obj) = od_gvk obj"
    using created_object_facts(1) by (auto simp: has_key_def)
  then show ?thesis
    unfolding apply_only_def apply_object_def create_object_def owned_object_eq try_ok_return sum.case
      reconcile_existing_eq get_object_def k8s_get_def k8s_create_def
    by (intro emits_intros once) (use kind in simp_all)
qed

lemma needs_typed:
  "emits needed (ensure_config_map env ns name data owner)"
  "ob_gvk desired = deployment_gvk \<Longrightarrow> emits needed (ensure_deployment env desired owner)"
  "ob_gvk desired = service_gvk \<Longrightarrow> emits needed (ensure_service env desired owner)"
  unfolding ensure_config_map_def ensure_deployment_def ensure_service_def k8s_create_def k8s_update_def
    set_controller_owner_reference_eq try_ok_return Let_def
  by (intro get_then emits_intros; auto simp: set_owners_def split: if_splits)+

end

text \<open>The telemetry components write through the helpers, and delete nothing but their inventories.\<close>

definition telemetry_inventory :: "managed_resource list" where
  "telemetry_inventory = collector_resource_inventory @ collector_legacy_inventory @
     edot_gateway_resource_inventory @ edot_gateway_legacy_inventory"

lemma inventory_needs:
  "(k, n) \<in> set telemetry_inventory \<Longrightarrow> k \<in> applied_kinds \<and> (k, VDelete) \<in> set platform_needs"
  by (auto simp: telemetry_inventory_def collector_resource_inventory_def collector_legacy_inventory_def
      edot_gateway_resource_inventory_def edot_gateway_legacy_inventory_def platform_needs_def)

lemma telemetry_needs: "k \<in> telemetry_kinds \<Longrightarrow> k \<in> applied_kinds"
  by (auto simp: telemetry_kinds_def)

sublocale kinded_server \<subseteq> needed_writer: resource_writer env owner telemetry_inventory needed
  for owner
  by unfold_locales (auto intro: needs_typed needs_apply dest: telemetry_needs inventory_needs)

context kinded_server
begin

lemma needs_base:
  "emits needed (ensure_issuer_exists env ns issuer)"
  "emits needed (ensure_gateway env ns g class_name annotations listeners owner)"
  "emits needed (ensure_redirect_route env ns g owner)"
  "emits needed (ensure_default_deny env ns owner)"
  unfolding ensure_issuer_exists_def ensure_gateway_def ensure_redirect_route_def ensure_http_route_spec_def
    ensure_default_deny_def delete_legacy_default_deny_def k8s_delete_def
  by (intro emits_intros needs_apply emits_get; simp)+

lemma needs_resources: "emits needed (ensure_keycloak_resources env ns img ca identity gns gw issuer owner)"
  unfolding ensure_keycloak_resources_def ensure_certificate_def ensure_kc_egress_policy_def ensure_kc_ingress_policy_def
    ensure_kc_host_policy_def ensure_keycloak_instance_def ensure_keycloak_route_def ensure_http_route_def
    ensure_http_route_spec_def
  by (intro emits_intros needs_apply certificate_test.emits_test keycloak_test.emits_test; simp)

lemma needs_declared:
  "emits needed (ensure_master_realm env ns)"
  "emits needed (ensure_internal_admin_user env ns)"
  "emits needed (ensure_root_user env ns)"
  "emits needed (ensure_neteye_client env ns)"
  "emits needed (ensure_first_broker_login_flow env ns)"
  "emits needed (ensure_idp_discovery_flow env ns)"
  by (rule emits_mono [OF realm_declared.calls] emits_mono [OF internal_admin.calls]
      emits_mono [OF root_user.calls] emits_mono [OF client_declared.calls] emits_mono [OF broker_flow.calls]
      emits_mono [OF discovery_flow.calls],
      auto simp: reads_or_creates_def realm_resource_def internal_admin_resource_def root_user_resource_def
        client_resource_def flow_resource_def declared_user_def)+

lemma needs_retired: "emits needed (ensure_bootstrap_admin_disabled env ns)"
  unfolding ensure_bootstrap_admin_disabled_def component_admin_def bootstrap_admin_credentials_def
  by (intro emits_intros emits_get emits_mono [OF emits_provider_reads reads_needs]
      emits_sends_needs [OF emits_disable_account]) (simp_all split: option.split)

lemma needs_identity:
  "rc_env rc = env \<Longrightarrow> emits needed (reconcile_keycloak rc ne img ca)"
  unfolding reconcile_keycloak_def identity_issuer_def identity_test_def identity_step_def identity_degraded_def
    identity_progressing_def declare_accounts_def retire_bootstrap_admin_def Let_def
  by (intro emits_intros needs_base needs_resources needs_declared keycloak_test.emits_test
      realm_test.emits_test user_test.emits_test; simp add: needs_base needs_resources needs_declared needs_retired)

lemma needs_telemetry:
  assumes "rc_env rc = env"
  shows "emits needed (reconcile_otel_collector rc ne img ca)"
    and "emits needed (reconcile_edot_gateway rc ne img ca)"
  unfolding reconcile_otel_collector_def reconcile_edot_gateway_def disabled_report_def outcome_report_def Let_def assms
  by (intro emits_intros needed_writer.ensures needed_writer.removes; auto simp: telemetry_inventory_def)+

lemma needs_platform:
  assumes "rc_env rc = env" and "run_state (reconcile_platform rc ne images) (s, st) = (res, (s', st'))"
  shows "only_since needed (st_trace s) (st_trace s')"
proof -
  have "pass_calls rc ne needed"
    unfolding pass_calls_def
    by (intro conjI allI needs_identity needs_telemetry) (simp_all add: assms(1) needs_base)
  then show ?thesis using assms(2) by (rule pass_calls.platform)
qed

text \<open>The controllers of the Keycloak resources: finalizers, status, Secrets, and Keycloak itself.\<close>

lemma needs_status: "k \<in> resource_kinds \<Longrightarrow> (\<And>ob. ob_gvk (f ob) = ob_gvk ob) \<Longrightarrow> emits needed (write_status env k ns name f)"
  unfolding write_status_def k8s_update_status_def by (intro emits_intros get_then) simp_all

lemma needs_release: "ob_gvk ob \<in> resource_kinds \<Longrightarrow> emits needed (release_finalizer env title f ob)"
  unfolding release_finalizer_def k8s_update_def without_finalizer_def set_finalizers_def
  by (intro emits_intros) simp

lemma needs_finalizer:
  "ob_gvk ob \<in> resource_kinds \<Longrightarrow> (\<And>x. emits needed (kont x)) \<Longrightarrow>
     emits needed (ensure_finalizer env title f ob kont)"
  unfolding ensure_finalizer_def k8s_update_def with_finalizer_def set_finalizers_def
  by (intro emits_intros) simp_all

lemma needs_finish:
  "ar_env ar = env \<Longrightarrow> ob_gvk ob \<in> resource_kinds \<Longrightarrow> emits needed delete_remote \<Longrightarrow>
     emits needed (finish_deletion ar title f policy delete_remote ob)"
  unfolding finish_deletion_def by (intro emits_intros) (simp_all add: needs_release)

lemma needs_resolution: "emits needed (resource_admin_api ar ns)"
  by (rule emits_mono [OF emits_resolution_reads]) (rule reads_needs)

lemma needs_failing:
  "(\<And>state message. emits needed (report state message)) \<Longrightarrow> emits needed m \<Longrightarrow>
     (\<And>x. emits needed (kont x)) \<Longrightarrow> emits needed (failing_step ar report m kont)"
  unfolding failing_step_def by (intro emits_intros)

lemma needs_ready_pass:
  "(\<And>state message. emits needed (report state message)) \<Longrightarrow> emits needed (ready_pass ar report message)"
  unfolding ready_pass_def by (intro emits_intros)

lemma needs_with_admin_api:
  assumes "ar_env ar = env" and "ob_gvk ob \<in> resource_kinds"
    and "\<And>state message. emits needed (report ob state message)" and "\<And>a. emits needed (kont ob a)"
  shows "emits needed (with_admin_api ar title f report kont ob)"
  unfolding with_admin_api_def assms(1)
  using assms(2-4) by (intro emits_intros needs_resolution) (auto intro: needs_release emits_intros)

lemma needs_fetch:
  "(k, VGet) \<in> set platform_needs \<Longrightarrow> (\<And>ob. ob_gvk ob = k \<Longrightarrow> emits needed (kont ob)) \<Longrightarrow>
     emits needed (fetch_resource env k ns name kont)"
  unfolding fetch_resource_def by (rule get_then) (auto intro: emits_intros)

lemma needs_set_status:
  "emits needed (set_user_status env ns name meta ust state message)"
  "emits needed (set_client_status env ns name meta uuid state message)"
  "emits needed (set_realm_status env ns name meta state message)"
  "emits needed (set_flow_status env ns name meta state message)"
  unfolding set_user_status_def set_client_status_def set_realm_status_def set_flow_status_def
  by (rule needs_status; simp add: with_user_status_def with_client_status_def
      with_realm_status_def with_flow_status_def)+

lemma needs_live_user:
  assumes "ar_env ar = env"
  shows "emits needed (reconcile_live_user ar ns name a ob)"
proof -
  have credential: "emits needed (user_credential_for env a own uspec st)" for own uspec st
  proof -
    have "emits needed (user_password_policy env a uspec)"
      unfolding user_password_policy_def by (rule emits_sends_needs [OF emits_lookups(18)])
    moreover have "emits needed (generate_password env policy)" for policy
      by (rule emits_mono [OF emits_generate]) auto
    ultimately show ?thesis
      unfolding user_credential_for_def stored_password_def Let_def
      by (auto intro!: emits_intros emits_get)
  qed
  have sync: "emits needed (reconcile_user env a uspec cred)" for uspec cred
    by (rule emits_sends_needs [OF account_writes])
  have store: "emits needed (store_password env own ref password)" for own ref password
    unfolding store_password_def store_secret_key_def by (intro emits_intros) simp
  show ?thesis
    unfolding reconcile_live_user_def store_generated_def Let_def assms
    by (intro emits_intros needs_failing needs_ready_pass needs_set_status credential sync store)
qed

lemma needs_live:
  assumes "ar_env ar = env"
  shows "emits needed (reconcile_live_client ar ns name a ob)"
    and "emits needed (reconcile_live_realm ar ns name a ob)"
    and "emits needed (reconcile_live_flow ar ns name a ob)"
  unfolding reconcile_live_client_def reconcile_live_realm_def reconcile_live_flow_def client_secret_def Let_def assms
  by (intro needs_failing needs_ready_pass needs_set_status emits_intros emits_get other_needs
      emits_sends_needs [OF client_writes] emits_sends_needs [OF reconcile_realm_writes]
      emits_sends_needs [OF flow_writes])+

lemma needs_remote_deletion:
  "emits needed (delete_declared_user env a user)"
  "emits needed (delete_declared_client env a client)"
  "emits needed (delete_declared_realm env a realm)"
  "emits needed (delete_declared_flow env a flow)"
proof -
  have "emits (sends (\<lambda>m path body. True)) (delete_declared_realm env a realm)"
    "emits (sends (\<lambda>m path body. True)) (delete_declared_flow env a flow)"
    unfolding delete_declared_realm_def delete_realm_def delete_declared_flow_def delete_auth_flow_def Let_def
    by (intro emits_intros; simp)+
  then show "emits needed (delete_declared_realm env a realm)"
    "emits needed (delete_declared_flow env a flow)" by (simp_all only: emits_sends_needs)
  show "emits needed (delete_declared_user env a user)"
    by (rule emits_sends_needs [OF account.talks_to_keycloak])
  show "emits needed (delete_declared_client env a client)"
    by (rule emits_sends_needs [OF remote_client.talks_to_keycloak])
qed

lemma needs_api_controllers:
  assumes "ar_env ar = env"
  shows "emits needed (reconcile_user_resource ar ns name)"
    and "emits needed (reconcile_client_resource ar ns name)"
    and "emits needed (reconcile_realm_resource ar ns name)"
    and "emits needed (reconcile_flow_resource ar ns name)"
proof -
  note steps = needs_finish [OF assms] needs_remote_deletion needs_live_user [OF assms] needs_live [OF assms]
    needs_set_status needs_finalizer needs_with_admin_api [OF assms]
  note defs = reconcile_user_resource_def reconcile_client_resource_def reconcile_realm_resource_def
    reconcile_flow_resource_def delete_user_resource_def delete_client_resource_def delete_realm_resource_def assms
  show "emits needed (reconcile_user_resource ar ns name)"
    unfolding defs by (intro needs_fetch steps emits_intros) (simp_all add:)
  show "emits needed (reconcile_client_resource ar ns name)"
    unfolding defs by (intro needs_fetch steps emits_intros) (simp_all add:)
  show "emits needed (reconcile_realm_resource ar ns name)"
    unfolding defs by (intro needs_fetch steps emits_intros) (simp_all add:)
  have "emits needed (delete_flow_resource ar ob)" if "ob_gvk ob \<in> resource_kinds" for ob
    unfolding delete_flow_resource_def retry_later_def Let_def assms
    using that by (intro emits_intros needs_resolution needs_release steps) 
  then show "emits needed (reconcile_flow_resource ar ns name)"
    unfolding defs by (intro needs_fetch emits_intros needs_resolution steps) (simp_all add:)
qed

lemma needs_report:
  assumes "rc_env rc = env"
  shows "emits needed (report_status rc ns name p)"
proof -
  obtain d err st where p: "p = ((d, err), st)" by (metis surj_pair)
  have "emits needed (update_neteye_status env ns name st)" for st
    unfolding update_neteye_status_def k8s_update_status_def
    by (intro emits_intros get_then) (auto simp: with_neteye_status_def split: content.split)
  then show ?thesis
    unfolding report_status_def Let_def assms p prod.case by (intro emits_intros)
qed

lemma needs_start: "emits needed (start_component env evs)"
proof -
  have install: "emits needed (install_operator env)"
    unfolding install_operator_def ensure_operator_extension_def by (intro emits_intros needs_apply) simp
  have attempt: "emits needed (start_attempt env n)" for n
    unfolding start_attempt_def by (intro emits_intros install)
  have step: "emits needed (start_on env ph ev)" for ph ev
    by (cases "(env, ph, ev)" rule: start_on.cases) (auto intro!: emits_intros install attempt)
  have "emits needed (start_loop env ph evs)" for ph
    by (induction evs arbitrary: ph) (auto intro!: emits_intros step)
  then show ?thesis unfolding start_component_def by (intro emits_intros attempt)
qed

end

text \<open>
  A typed client also answers a creation with an object of its kind. The authority lease is
  updated as the client returned it.
\<close>

locale typed_server = kinded_server env for env +
  assumes created: "env_create env t ob = Inr x \<Longrightarrow> ob_gvk x = ob_gvk ob"
begin

lemma delivers_create: "ob_gvk ob = k \<Longrightarrow> delivers (\<lambda>x. ob_gvk x = k) (\<lambda>e. True) (k8s_create env ob)"
  unfolding k8s_create_def by (rule delivers_perform) (auto split: sum.split dest: created)

lemma delivers_lease: "delivers (\<lambda>ob. ob_gvk ob = lease_gvk) (\<lambda>e. True) (obtain_lease env ne)"
  unfolding obtain_lease_def get_lease_def try_wrap_def
  by (rule delivers_attempt [OF delivers_get])
    (auto intro!: delivers_attempt [OF delivers_get] delivers_attempt [OF delivers_create] delivers_intros
      simp: new_lease_def set_owners_def)

lemma needs_authority: "emits (in_table lease_needs) (ensure_cluster_authority env ne)"
proof -
  have "emits (in_table lease_needs) (obtain_lease env ne)"
    unfolding obtain_lease_def get_lease_def k8s_get_def k8s_create_def
    by (intro emits_intros) (simp_all add: in_table_def lease_needs_def new_lease_def set_owners_def)
  then show ?thesis
    unfolding ensure_cluster_authority_def try_ok_def [of "obtain_lease env ne"] k8s_update_def
    by (rule emits_attempt_delivers [OF _ delivers_lease]; intro emits_intros)
      (simp_all add: in_table_def lease_needs_def)
qed

text \<open>A whole pass over a NetEye.\<close>

lemma operator_needs_mono:
  "needed c \<Longrightarrow> in_table operator_needs c" "in_table lease_needs c \<Longrightarrow> in_table operator_needs c"
  by (auto simp: in_table_def operator_needs_def)

lemma needs_spec:
  assumes rc: "rc_env rc = env" and run: "run_state (reconcile_spec rc ne) (s, st) = (res, (s', st'))"
  shows "only_since (in_table operator_needs) (st_trace s) (st_trace s')"
proof -
  obtain r u where authority: "run_state (ensure_cluster_authority env ne) s = (r, u)" by force
  have u: "only_since (in_table operator_needs) (st_trace s) (st_trace u)"
    using needs_authority authority
    by (metis emits_mono operator_needs_mono(2) emitsD only_since_append only_since_refl)
  have "s' = s \<or> s' = u \<or> (\<exists>images. run_state (reconcile_platform rc ne images) (u, st) = (res, (s', st')))"
    using run authority
    by (auto simp: reconcile_spec_def establish_authority_def pause_for_upgrade_def Let_def run_state_bind run_try_pass rc
        split: if_splits option.splits sum.splits)
  moreover have "only_since (in_table operator_needs) (st_trace u) (st_trace s')"
    if "run_state (reconcile_platform rc ne images) (u, st) = (res, (s', st'))" for images
    using needs_platform [OF rc that] by (rule only_since_mono) (rule operator_needs_mono)
  ultimately show ?thesis using u only_since_trans only_since_refl by blast
qed

lemma needs_neteye:
  assumes rc: "rc_env rc = env"
  shows "emits (in_table operator_needs) (reconcile_neteye rc ns name)"
proof -
  have "emits (in_table operator_needs) (run_pass st (reconcile_spec rc ne))" for st ne
    unfolding emits_def run_pass_def
  proof
    fix s
    obtain res s' st' where run: "run_state (reconcile_spec rc ne) (s, st) = (res, (s', st'))" by (metis surj_pair)
    show "\<exists>new. st_trace (snd (run_state (State (\<lambda>s. case run_state (reconcile_spec rc ne) (s, st) of
        (x, s', st') \<Rightarrow> ((x, st'), s'))) s)) = st_trace s @ new \<and> (\<forall>c \<in> set new. in_table operator_needs c)"
      using needs_spec [OF rc run] run by (auto simp: only_since_def)
  qed
  moreover have "(neteye_gvk, VGet) \<in> set operator_needs" by (simp add: operator_needs_def)
  ultimately show ?thesis
    unfolding reconcile_neteye_def k8s_get_def
    by (intro emits_intros emits_mono [OF needs_report [OF rc] operator_needs_mono(1)])
      (simp_all add: in_table_def forget_provider_def emits_def)
qed

end

interpretation memory_cluster: typed_server "cluster_env obs" for obs
  by unfold_locales (auto dest: memory_get_keeps_key simp: has_key_def)

end
