(* ===== verification/Cluster_Authority.thy ===== *)
theory Cluster_Authority
  imports Call_Kinds
begin

text \<open>
  One owner of the shared platform, over any number of passes of all controllers
  (\<^verbatim>\<open>ensureClusterAuthority\<close> of \<^verbatim>\<open>controllers/neteye_controller.go\<close> together with everything else the
  operator calls). First, no operation but that one writes the authority lease; then, on an
  API server that creates an object only where there is none and returns only what it once
  stored, the holder of the lease never changes; finally, the passes that wrote the platform all
  worked for one NetEye.
\<close>

section \<open>Calls that leave the lease alone\<close>

fun spares_lease :: "call \<Rightarrow> bool" where
  "spares_lease (K8sCreate ob) = (ob_gvk ob \<noteq> lease_gvk)"
| "spares_lease (K8sUpdate ob) = (ob_gvk ob \<noteq> lease_gvk)"
| "spares_lease (K8sUpdateStatus ob) = (ob_gvk ob \<noteq> lease_gvk)"
| "spares_lease (K8sDelete k ns n) = (k \<noteq> lease_gvk)"
| "spares_lease c = True"

lemma lease_kind:
  "certificate_gvk \<noteq> lease_gvk" "http_route_gvk \<noteq> lease_gvk" "grpc_route_gvk \<noteq> lease_gvk"
  "cilium_network_policy_gvk \<noteq> lease_gvk" "native_network_policy_gvk \<noteq> lease_gvk" "gateway_gvk \<noteq> lease_gvk"
  "config_map_gvk \<noteq> lease_gvk" "deployment_gvk \<noteq> lease_gvk" "service_gvk \<noteq> lease_gvk" "keycloak_gvk \<noteq> lease_gvk"
  "keycloak_user_gvk \<noteq> lease_gvk" "keycloak_client_gvk \<noteq> lease_gvk" "keycloak_realm_gvk \<noteq> lease_gvk"
  "keycloak_auth_flow_gvk \<noteq> lease_gvk" "neteye_gvk \<noteq> lease_gvk" "issuer_gvk \<noteq> lease_gvk" "secret_gvk \<noteq> lease_gvk"
  "cluster_extension_gvk \<noteq> lease_gvk"
  by (simp_all add: lease_gvk_def certificate_gvk_def http_route_gvk_def grpc_route_gvk_def gateway_api_group_def
      cilium_network_policy_gvk_def native_network_policy_gvk_def gateway_gvk_def config_map_gvk_def
      deployment_gvk_def service_gvk_def keycloak_gvk_def keycloak_user_gvk_def keycloak_client_gvk_def
      keycloak_realm_gvk_def keycloak_auth_flow_gvk_def neteye_gvk_def neteye_group_def issuer_gvk_def
      cert_manager_group_def secret_gvk_def cluster_extension_gvk_def)

lemma needed_kinds: "(k, v) \<in> set platform_needs \<Longrightarrow> k \<noteq> lease_gvk"
  unfolding platform_needs_def using lease_kind by auto

lemma needed_spares: "needed c \<Longrightarrow> spares_lease c"
  by (cases c) (auto dest: needed_kinds)

context kinded_server
begin

lemma spares_platform:
  "rc_env rc = env \<Longrightarrow> run_state (reconcile_platform rc ne images) (s, st) = (res, (s', st')) \<Longrightarrow>
     only_since spares_lease (st_trace s) (st_trace s')"
  by (rule only_since_mono [OF needs_platform needed_spares])

lemmas spares_api_controllers = needs_api_controllers [THEN emits_mono, OF _ needed_spares]

end

section \<open>The lease on the API server\<close>

text \<open>
  The stored lease after a run: the accepted creations, updates and deletions of its key. A
  lease has no status to update.
\<close>

definition is_authority_lease :: "k8s_object \<Rightarrow> bool" where
  "is_authority_lease ob \<longleftrightarrow> has_key lease_gvk workload_namespace cluster_authority_lease_name ob"

fun lease_after_call :: "env \<Rightarrow> trace \<Rightarrow> call \<Rightarrow> k8s_object option \<Rightarrow> k8s_object option" where
  "lease_after_call env t (K8sCreate ob) l =
     (case env_create env t ob of Inl e \<Rightarrow> l | Inr x \<Rightarrow> if is_authority_lease ob then Some x else l)"
| "lease_after_call env t (K8sUpdate ob) l =
     (case env_update env t ob of Inl e \<Rightarrow> l | Inr x \<Rightarrow> if is_authority_lease ob then Some x else l)"
| "lease_after_call env t (K8sDelete k ns n) l =
     (if k = lease_gvk \<and> ns = workload_namespace \<and> n = cluster_authority_lease_name \<and> env_delete env t k ns n = None
      then None else l)"
| "lease_after_call env t c l = l"

definition lease_after :: "env \<Rightarrow> k8s_object option \<Rightarrow> trace \<Rightarrow> k8s_object option" where
  "lease_after env l0 t = snd (fold (\<lambda>c (past, l). (past @ [c], lease_after_call env past c l)) t ([], l0))"

lemma lease_after_simps [simp]:
  "lease_after env l0 [] = l0"
  "lease_after env l0 (t @ [c]) = lease_after_call env t c (lease_after env l0 t)"
proof -
  have "fst (fold (\<lambda>c (past, l). (past @ [c], lease_after_call env past c l)) t p) = fst p @ t" for p
    by (induction t arbitrary: p) (auto split: prod.split)
  then show "lease_after env l0 (t @ [c]) = lease_after_call env t c (lease_after env l0 t)"
    by (simp add: lease_after_def case_prod_beta)
qed (simp add: lease_after_def)

lemma spared_call: "spares_lease c \<Longrightarrow> lease_after_call env t c l = l"
  by (cases c) (auto simp: is_authority_lease_def has_key_def split: sum.split)

text \<open>The uid in the stored lease.\<close>

definition authority_holder :: "env \<Rightarrow> k8s_object option \<Rightarrow> trace \<Rightarrow> string option" where
  "authority_holder env l0 t = (case lease_after env l0 t of None \<Rightarrow> None | Some ob \<Rightarrow> lease_holder ob)"

text \<open>Once there is a lease there always is one, with the holder it began with.\<close>

definition holder_kept :: "env \<Rightarrow> k8s_object option \<Rightarrow> trace \<Rightarrow> bool" where
  "holder_kept env l0 t \<longleftrightarrow>
     (\<forall>past later ob. t = past @ later \<longrightarrow> lease_after env l0 past = Some ob \<longrightarrow>
        (\<exists>now. lease_after env l0 t = Some now \<and> lease_holder now = lease_holder ob))"

lemma holder_kept_start: "holder_kept env l0 []"
  by (simp add: holder_kept_def)

lemma holder_kept_snoc:
  assumes kept: "holder_kept env l0 t"
    and step: "\<And>ob. lease_after env l0 t = Some ob \<Longrightarrow>
      \<exists>now. lease_after env l0 (t @ [c]) = Some now \<and> lease_holder now = lease_holder ob"
  shows "holder_kept env l0 (t @ [c])"
  unfolding holder_kept_def
proof (intro allI impI)
  fix past later ob
  assume split: "t @ [c] = past @ later" and past: "lease_after env l0 past = Some ob"
  show "\<exists>now. lease_after env l0 (t @ [c]) = Some now \<and> lease_holder now = lease_holder ob"
  proof (cases later rule: rev_cases)
    case Nil
    then show ?thesis using split past by auto
  next
    case (snoc ws d)
    then obtain live where "lease_after env l0 t = Some live" "lease_holder live = lease_holder ob"
      using kept split past unfolding holder_kept_def by (metis append_assoc butlast_snoc)
    with step show ?thesis by force
  qed
qed

lemma spared_calls:
  assumes "only_since spares_lease t0 t"
  shows "lease_after env l0 t = lease_after env l0 t0" and "holder_kept env l0 t0 \<Longrightarrow> holder_kept env l0 t"
proof -
  obtain new where t: "t = t0 @ new" and new: "\<forall>c \<in> set new. spares_lease c"
    using assms unfolding only_since_def by blast
  have "lease_after env l0 (t0 @ new) = lease_after env l0 t0 \<and>
      (holder_kept env l0 t0 \<longrightarrow> holder_kept env l0 (t0 @ new))"
    using new
  proof (induction new rule: rev_induct)
    case (snoc c new)
    then have "lease_after env l0 ((t0 @ new) @ [c]) = lease_after env l0 (t0 @ new)"
      by (simp add: spared_call del: append_assoc)
    with snoc holder_kept_snoc [of env l0 "t0 @ new" c] show ?case by simp
  qed simp
  then show "lease_after env l0 t = lease_after env l0 t0" "holder_kept env l0 t0 \<Longrightarrow> holder_kept env l0 t"
    using t by simp_all
qed

text \<open>
  Writes to the platform: everything but the status of a resource and the attempt to create the
  lease itself.
\<close>

fun platform_write :: "call \<Rightarrow> bool" where
  "platform_write (K8sCreate ob) = (ob_gvk ob \<noteq> lease_gvk)"
| "platform_write (K8sUpdateStatus ob) = False"
| "platform_write c = is_write c"

text \<open>The NetEye a pass wrote the platform for, when it did.\<close>

definition worked_for :: "reconciler \<Rightarrow> string \<Rightarrow> string \<Rightarrow> op_state \<Rightarrow> op_state \<Rightarrow> string list" where
  "worked_for rc ns name s s' =
     (case env_get (rc_env rc) (st_trace s) neteye_gvk ns name of
        Inl e \<Rightarrow> []
      | Inr ob \<Rightarrow> if \<exists>c \<in> set (new_calls s s'). platform_write c then [meta_uid (ob_meta ob)] else [])"

text \<open>
  A run of the operator: passes of the five controllers one after the other, from the start of
  the process, with the owners the platform was written for, the latest first.
\<close>

inductive operator_run :: "reconciler \<Rightarrow> api_reconciler \<Rightarrow> op_state \<Rightarrow> string list \<Rightarrow> bool"
  for rc :: reconciler and ar :: api_reconciler where
  start: "operator_run rc ar initial_state []"
| neteye: "operator_run rc ar s owners \<Longrightarrow> run_state (reconcile_neteye rc ns name) s = (r, s') \<Longrightarrow>
    operator_run rc ar s' (worked_for rc ns name s s' @ owners)"
| user: "operator_run rc ar s owners \<Longrightarrow> run_state (reconcile_user_resource ar ns name) s = (r, s') \<Longrightarrow>
    operator_run rc ar s' owners"
| client: "operator_run rc ar s owners \<Longrightarrow> run_state (reconcile_client_resource ar ns name) s = (r, s') \<Longrightarrow>
    operator_run rc ar s' owners"
| realm: "operator_run rc ar s owners \<Longrightarrow> run_state (reconcile_realm_resource ar ns name) s = (r, s') \<Longrightarrow>
    operator_run rc ar s' owners"
| flow: "operator_run rc ar s owners \<Longrightarrow> run_state (reconcile_flow_resource ar ns name) s = (r, s') \<Longrightarrow>
    operator_run rc ar s' owners"

text \<open>
  The API server as the lease relies on it. An object is created only where there is none; what
  is stored has the content that was sent; a read returns what was stored at some time, so the
  operator's cache may miss the lease or answer with an older version of it.
\<close>

locale lease_server = kinded_server env for env +
  fixes l0 :: "k8s_object option"
  assumes creates: "env_create env t ob = Inr x \<Longrightarrow> is_authority_lease ob \<Longrightarrow>
      lease_after env l0 t = None \<and> ob_content x = ob_content ob"
    and updates: "env_update env t ob = Inr x \<Longrightarrow> is_authority_lease ob \<Longrightarrow> ob_content x = ob_content ob"
    and reads: "env_get env t lease_gvk workload_namespace cluster_authority_lease_name = Inr ob \<Longrightarrow>
      \<exists>past later. t = past @ later \<and> lease_after env l0 past = Some ob"
begin

lemma read_holder:
  assumes "holder_kept env l0 t" and "env_get env t lease_gvk workload_namespace cluster_authority_lease_name = Inr ob"
  shows "authority_holder env l0 t = lease_holder ob" and "lease_after env l0 t \<noteq> None"
proof -
  obtain past later where "t = past @ later" "lease_after env l0 past = Some ob" using reads [OF assms(2)] by blast
  then obtain now where "lease_after env l0 t = Some now" "lease_holder now = lease_holder ob"
    using assms(1) unfolding holder_kept_def by blast
  then show "authority_holder env l0 t = lease_holder ob" "lease_after env l0 t \<noteq> None"
    by (simp_all add: authority_holder_def)
qed

lemma holder_kept_get: "holder_kept env l0 t \<Longrightarrow> holder_kept env l0 (t @ [K8sGet k ns n])"
  by (rule holder_kept_snoc) simp_all

lemma holder_kept_create: "holder_kept env l0 t \<Longrightarrow> holder_kept env l0 (t @ [K8sCreate ob])"
  by (rule holder_kept_snoc) (auto dest: creates split: sum.split)

lemma holder_kept_update:
  assumes "holder_kept env l0 t" and "lease_after env l0 t \<noteq> None"
    and "authority_holder env l0 t = lease_holder ob"
  shows "holder_kept env l0 (t @ [K8sUpdate ob]) \<and>
    authority_holder env l0 (t @ [K8sUpdate ob]) = authority_holder env l0 t"
proof -
  have same: "lease_holder x = lease_holder ob" if "env_update env t ob = Inr x" "is_authority_lease ob" for x
    using updates [OF that] by (simp add: lease_holder_def)
  have "\<exists>now. lease_after env l0 (t @ [K8sUpdate ob]) = Some now \<and> lease_holder now = lease_holder live"
    if "lease_after env l0 t = Some live" for live
    using that same assms(3) by (auto simp: authority_holder_def split: sum.split)
  then show ?thesis
    using holder_kept_snoc [OF assms(1), of "K8sUpdate ob"] assms(2)
    by (fastforce simp: authority_holder_def simp del: lease_after_call.simps)
qed

text \<open>What is obtained is the stored lease, or one with its holder.\<close>

lemma obtain_holder:
  assumes kept: "holder_kept env l0 (st_trace s)" and run: "run_state (obtain_lease env ne) s = (res, s')"
  shows "holder_kept env l0 (st_trace s')" and "only_since (\<lambda>c. \<not> platform_write c) (st_trace s) (st_trace s')"
    and "res = Inr lease \<Longrightarrow>
      authority_holder env l0 (st_trace s') = lease_holder lease \<and> lease_after env l0 (st_trace s') \<noteq> None"
proof -
  let ?get = "K8sGet lease_gvk workload_namespace cluster_authority_lease_name"
  let ?t = "st_trace s @ [?get]"
  let ?made = "?t @ [K8sCreate (new_lease ne)]"
  have kept_all: "holder_kept env l0 ?t" "holder_kept env l0 ?made" "holder_kept env l0 (?made @ [?get])"
    by (intro holder_kept_get holder_kept_create kept)+
  have trace: "st_trace s' \<in> {?t, ?made, ?made @ [?get]}"
    using run by (auto simp: obtain_lease_def get_lease_def k8s_get_def k8s_create_def split: sum.splits if_splits)
  then show "holder_kept env l0 (st_trace s')" using kept_all by (elim insertE) simp_all
  have "ob_gvk (new_lease ne) = lease_gvk" by (simp add: new_lease_def set_owners_def)
  then show "only_since (\<lambda>c. \<not> platform_write c) (st_trace s) (st_trace s')"
    using trace by (auto simp: only_since_def)
  assume res: "res = Inr lease"
  have key: "is_authority_lease (new_lease ne)"
    by (simp add: is_authority_lease_def has_key_def new_lease_def set_owners_def new_meta_def)
  have "(env_get env (st_trace s) lease_gvk workload_namespace cluster_authority_lease_name = Inr lease \<and> st_trace s' = ?t) \<or>
      (env_create env ?t (new_lease ne) = Inr lease \<and> st_trace s' = ?made) \<or>
      (env_get env ?made lease_gvk workload_namespace cluster_authority_lease_name = Inr lease \<and> st_trace s' = ?made @ [?get])"
    using run res by (auto simp: obtain_lease_def get_lease_def k8s_get_def k8s_create_def split: sum.splits if_splits)
  then show "authority_holder env l0 (st_trace s') = lease_holder lease \<and> lease_after env l0 (st_trace s') \<noteq> None"
  proof (elim disjE conjE)
    assume "env_get env (st_trace s) lease_gvk workload_namespace cluster_authority_lease_name = Inr lease" and t: "st_trace s' = ?t"
    from read_holder [OF kept this(1)] show ?thesis by (simp add: t authority_holder_def)
  next
    assume "env_create env ?t (new_lease ne) = Inr lease" and t: "st_trace s' = ?made"
    with key show ?thesis unfolding t lease_after_simps authority_holder_def by simp
  next
    assume "env_get env ?made lease_gvk workload_namespace cluster_authority_lease_name = Inr lease" and t: "st_trace s' = ?made @ [?get]"
    from read_holder [OF kept_all(2) this(1)] show ?thesis
      unfolding t lease_after_simps(2) [of env l0 ?made] authority_holder_def by simp
  qed
qed

text \<open>
  Only the holder gets past this step, and only the holder writes in it (the owner reference of
  the lease).
\<close>

lemma authority_step:
  assumes kept: "holder_kept env l0 (st_trace s)" and run: "run_state (ensure_cluster_authority env ne) s = (r, s')"
  shows "holder_kept env l0 (st_trace s') \<and>
    (authority_holder env l0 (st_trace s') = Some (meta_uid (ne_meta ne)) \<or>
     r \<noteq> Inr () \<and> only_since (\<lambda>c. \<not> platform_write c) (st_trace s) (st_trace s'))"
proof -
  obtain res u where obtained: "run_state (obtain_lease env ne) s = (res, u)" by force
  note facts = obtain_holder [OF kept obtained]
  show ?thesis
  proof (cases res)
    case (Inl e)
    then have "s' = u" "r = Inl e" using run obtained by (simp_all add: ensure_cluster_authority_def)
    then show ?thesis using facts(1,2) by simp
  next
    case (Inr lease)
    have held: "authority_holder env l0 (st_trace u) = lease_holder lease" "lease_after env l0 (st_trace u) \<noteq> None"
      using facts(3) [OF Inr] by simp_all
    show ?thesis
    proof (cases "lease_holder lease = Some (meta_uid (ne_meta ne))")
      case False
      then have "s' = u" "r \<noteq> Inr ()" using run obtained Inr by (auto simp: ensure_cluster_authority_def)
      then show ?thesis using facts(1,2) by simp
    next
      case True
      have "s' = u \<or> (\<exists>m. s' = record_call (K8sUpdate (lease\<lparr>ob_meta := m\<rparr>)) u)"
        using run obtained Inr True
        by (auto simp: ensure_cluster_authority_def k8s_update_def split: if_splits sum.splits)
      then show ?thesis
      proof (elim disjE exE)
        fix m assume s': "s' = record_call (K8sUpdate (lease\<lparr>ob_meta := m\<rparr>)) u"
        have "lease_holder (lease\<lparr>ob_meta := m\<rparr>) = lease_holder lease" by (simp add: lease_holder_def)
        with holder_kept_update [OF facts(1) held(2), of "lease\<lparr>ob_meta := m\<rparr>"] held(1) True s'
        show ?thesis by simp
      qed (use facts(1) held True in simp)
    qed
  qed
qed

text \<open>Whatever a pass of the NetEye controller does, it keeps the holder, and what it writes it writes for it.\<close>

lemma spec_pass:
  assumes kept: "holder_kept env l0 (st_trace s)" and rc: "rc_env rc = env"
    and run: "run_state (reconcile_spec rc ne) (s, st) = (res, (s', st'))"
  shows "holder_kept env l0 (st_trace s') \<and> only_since (\<lambda>c. True) (st_trace s) (st_trace s') \<and>
    (authority_holder env l0 (st_trace s') = Some (meta_uid (ne_meta ne)) \<or>
     only_since (\<lambda>c. \<not> platform_write c) (st_trace s) (st_trace s'))"
proof -
  obtain r u where authority: "run_state (ensure_cluster_authority env ne) s = (r, u)" by force
  have u: "only_since (\<lambda>c. True) (st_trace s) (st_trace u)"
    using emitsD [OF emits_authority authority] by (auto simp: only_since_def)
  have "s' = s \<or> (r \<noteq> Inr () \<and> s' = u) \<or>
      (\<exists>images. r = Inr () \<and> run_state (reconcile_platform rc ne images) (u, st) = (res, (s', st')))"
    using run authority
    by (auto simp: reconcile_spec_def establish_authority_def pause_for_upgrade_def Let_def run_state_bind run_try_pass rc
        split: if_splits option.splits sum.splits)
  then show ?thesis
  proof (elim disjE conjE exE)
    fix images
    assume "r = Inr ()" and platform: "run_state (reconcile_platform rc ne images) (u, st) = (res, (s', st'))"
    then have "holder_kept env l0 (st_trace u)" "authority_holder env l0 (st_trace u) = Some (meta_uid (ne_meta ne))"
      using authority_step [OF kept authority] by auto
    moreover have "only_since (\<lambda>c. True) (st_trace u) (st_trace s')"
      by (rule only_since_mono [OF spares_platform [OF rc platform]]) simp
    ultimately show ?thesis
      using spared_calls [OF spares_platform [OF rc platform]] only_since_trans [OF u]
      by (simp add: authority_holder_def)
  qed (use kept u authority_step [OF kept authority] in auto)
qed

lemma report_pass:
  assumes "rc_env rc = env"
  shows "emits spares_lease (report_status rc ns name p)" and "emits (\<lambda>c. \<not> platform_write c) (report_status rc ns name p)"
proof -
  obtain d err st where p: "p = ((d, err), st)" by (metis surj_pair)
  show "emits spares_lease (report_status rc ns name p)"
    by (rule emits_mono [OF needs_report [OF assms] needed_spares])
  show "emits (\<lambda>c. \<not> platform_write c) (report_status rc ns name p)"
    unfolding report_status_def update_neteye_status_def k8s_get_def k8s_update_status_def Let_def p
      prod.case
    by (intro emits_intros) simp_all
qed

lemma neteye_pass:
  assumes kept: "holder_kept env l0 (st_trace s)" and rc: "rc_env rc = env"
    and run: "run_state (reconcile_neteye rc ns name) s = (r, s')"
  shows "holder_kept env l0 (st_trace s') \<and> only_since (\<lambda>c. True) (st_trace s) (st_trace s') \<and>
    (\<forall>uid \<in> set (worked_for rc ns name s s'). authority_holder env l0 (st_trace s') = Some uid)"
proof (cases "env_get env (st_trace s) neteye_gvk ns name")
  case (Inl e)
  then have "st_trace s' = st_trace s @ [K8sGet neteye_gvk ns name]"
    using run by (auto simp: reconcile_neteye_def k8s_get_def rc forget_provider_def run_state_bind
        split: if_splits prod.splits)
  then show ?thesis using holder_kept_get [OF kept] Inl by (auto simp: worked_for_def rc only_since_def)
next
  case (Inr ob)
  let ?s = "record_call (K8sGet neteye_gvk ns name) s"
  let ?uid = "meta_uid (ob_meta ob)"
  obtain d s1 st where spec: "run_state (reconcile_spec rc (neteye_of ob)) (?s, reset_status (neteye_of ob)) = (d, (s1, st))"
    by (metis surj_pair)
  have last: "run_state (report_status rc ns name (d, st)) s1 = (r, s')"
    using run Inr spec by (simp add: reconcile_neteye_def k8s_get_def run_state_bind run_pass_def rc)
  have uid: "meta_uid (ne_meta (neteye_of ob)) = ?uid"
    by (simp add: neteye_of_def split: content.split)
  have s1: "holder_kept env l0 (st_trace s1)" "only_since (\<lambda>c. True) (st_trace ?s) (st_trace s1)" "authority_holder env l0 (st_trace s1) = Some ?uid \<or>
      only_since (\<lambda>c. \<not> platform_write c) (st_trace ?s) (st_trace s1)"
    using spec_pass [OF _ rc spec] holder_kept_get [OF kept] uid by simp_all
  have report: "only_since spares_lease (st_trace s1) (st_trace s')"
      "only_since (\<lambda>c. \<not> platform_write c) (st_trace s1) (st_trace s')"
    using report_pass [OF rc] last by (metis emitsD only_since_append only_since_refl)+
  have "authority_holder env l0 (st_trace s') = Some ?uid \<or> only_since (\<lambda>c. \<not> platform_write c) (st_trace s) (st_trace s')"
    using s1(3)
  proof
    assume "only_since (\<lambda>c. \<not> platform_write c) (st_trace ?s) (st_trace s1)"
    then have "only_since (\<lambda>c. \<not> platform_write c) (st_trace ?s) (st_trace s')"
      using report(2) by (rule only_since_trans)
    moreover have "only_since (\<lambda>c. \<not> platform_write c) (st_trace s) (st_trace ?s)"
      by (auto simp: only_since_def)
    ultimately show ?thesis using only_since_trans by blast
  qed (simp add: authority_holder_def spared_calls(1) [OF report(1)])
  moreover have "only_since (\<lambda>c. True) (st_trace s) (st_trace s')"
    using s1(2) report(1) by (auto simp: only_since_def)
  ultimately show ?thesis
    using spared_calls(2) [OF report(1) s1(1)] Inr
    by (auto simp: worked_for_def rc only_since_def new_calls_def split: if_splits)
qed

lemma holder_stays:
  assumes "holder_kept env l0 t'" and "only_since C t t'" and "authority_holder env l0 t = Some uid"
  shows "authority_holder env l0 t' = Some uid"
  using assms unfolding holder_kept_def only_since_def authority_holder_def
  by (fastforce split: option.splits)

lemma api_pass:
  assumes "holder_kept env l0 (st_trace s)" and "emits spares_lease m" and "run_state m s = (r, s')"
  shows "holder_kept env l0 (st_trace s') \<and> authority_holder env l0 (st_trace s') = authority_holder env l0 (st_trace s)"
proof -
  have "only_since spares_lease (st_trace s) (st_trace s')"
    using assms(2,3) by (metis emitsD only_since_append only_since_refl)
  from spared_calls [OF this] assms(1) show ?thesis by (simp add: authority_holder_def)
qed

lemma run_invariant:
  assumes "operator_run rc ar s owners" and rc: "rc_env rc = env" and ar: "ar_env ar = env"
  shows "holder_kept env l0 (st_trace s) \<and> (\<forall>uid \<in> set owners. authority_holder env l0 (st_trace s) = Some uid)"
  using assms(1)
proof induction
  case start
  then show ?case by (simp add: initial_state_def holder_kept_start)
next
  case (neteye s owners ns name r s')
  then show ?case using neteye_pass [OF _ rc neteye.hyps(2)] holder_stays by fastforce
next
  case (user s owners ns name r s')
  then show ?case using api_pass [OF _ spares_api_controllers(1) [OF ar] user.hyps(2)] by simp
next
  case (client s owners ns name r s')
  then show ?case using api_pass [OF _ spares_api_controllers(2) [OF ar] client.hyps(2)] by simp
next
  case (realm s owners ns name r s')
  then show ?case using api_pass [OF _ spares_api_controllers(3) [OF ar] realm.hyps(2)] by simp
next
  case (flow s owners ns name r s')
  then show ?case using api_pass [OF _ spares_api_controllers(4) [OF ar] flow.hyps(2)] by simp
qed

end

section \<open>One owner of the platform\<close>

text \<open>
  C3. The shared platform has one owner over the whole life of the operator: in any sequence of
  passes of all five controllers, over any NetEye and Keycloak resources and whatever the calls
  answer, every pass that wrote the platform worked for the NetEye whose uid the authority lease
  holds, so all of them for the same one, as long as nobody else removes the lease.
\<close>

theorem authority_exclusive:
  assumes "lease_server (rc_env rc) l0" and "ar_env ar = rc_env rc" and "operator_run rc ar s owners"
  shows "(\<forall>uid \<in> set owners. authority_holder (rc_env rc) l0 (st_trace s) = Some uid) \<and>
    (\<forall>uid \<in> set owners. \<forall>uid' \<in> set owners. uid = uid')"
  using lease_server.run_invariant [OF assms(1,3) refl assms(2)] by (metis option.inject)

section \<open>Two NetEyes in one cluster\<close>

text \<open>
  An API server with a NetEye of every name, the uid its name, and no lease at first: the first
  creation of the lease is accepted, and every other write is refused.
\<close>

fun claim :: "call \<Rightarrow> k8s_object option" where
  "claim (K8sCreate ob) = (if is_authority_lease ob then Some ob else None)"
| "claim c = None"

fun claimed :: "trace \<Rightarrow> k8s_object option" where
  "claimed [] = None"
| "claimed (c # cs) = (case claim c of None \<Rightarrow> claimed cs | Some ob \<Rightarrow> Some ob)"

lemma claimed_append: "claimed (t @ u) = (case claimed t of None \<Rightarrow> claimed u | Some ob \<Rightarrow> Some ob)"
  by (induction t) (simp_all split: option.split)

lemma claimed_lease: "claimed t = Some ob \<Longrightarrow> is_authority_lease ob"
proof (induction t)
  case (Cons c t)
  then show ?case by (cases c) (auto split: if_splits option.splits)
qed simp

definition contested_get :: "trace \<Rightarrow> gvk \<Rightarrow> string \<Rightarrow> string \<Rightarrow> go_err + k8s_object" where
  "contested_get t k ns n =
     (if k = neteye_gvk
      then Inr \<lparr>ob_gvk = neteye_gvk, ob_meta = sample_neteye_meta n,
                ob_content = NetEyeContent sample_neteye_spec zero_neteye_status\<rparr>
      else if k = issuer_gvk then Inr (new_object issuer_gvk ns n NoContent)
      else if k = lease_gvk
      then (case claimed t of None \<Rightarrow> Inl (K8sErr NotFound ''not found'') | Some ob \<Rightarrow> Inr ob)
      else Inl (K8sErr NotFound ''not found''))"

definition contested_env :: env where
  "contested_env = (cluster_env [])\<lparr>env_get := contested_get,
     env_create := (\<lambda>t ob. if is_authority_lease ob \<and> claimed t = None then Inr ob else Inl (Msg ''refused'')),
     env_update := (\<lambda>t ob. Inl (Msg ''refused'')),
     env_delete := (\<lambda>t k ns n. Some (Msg ''refused''))\<rparr>"

lemma contested_env_simps [simp]:
  "env_get contested_env = contested_get"
  "env_create contested_env t ob = (if is_authority_lease ob \<and> claimed t = None then Inr ob else Inl (Msg ''refused''))"
  "env_update contested_env t ob = Inl (Msg ''refused'')" "env_delete contested_env t k ns n = Some (Msg ''refused'')"
  by (simp_all add: contested_env_def)

lemma claimed_stored: "lease_after contested_env None t = claimed t"
proof (induction t rule: rev_induct)
  case (snoc c t)
  have "lease_after_call contested_env t c (claimed t) = claimed (t @ [c])"
    by (cases "claimed t"; cases c) (simp_all add: claimed_append)
  with snoc show ?case by (simp del: lease_after_call.simps)
qed simp

lemma contested_kinds:
  assumes "contested_get t k ns n = Inr ob"
  shows "ob_gvk ob = k"
proof -
  have "k = neteye_gvk \<and> ob_gvk ob = neteye_gvk \<or> k = issuer_gvk \<and> ob_gvk ob = issuer_gvk \<or>
      k = lease_gvk \<and> claimed t = Some ob"
    using assms unfolding contested_get_def by (auto split: if_splits option.splits)
  moreover have "claimed t = Some ob \<Longrightarrow> ob_gvk ob = lease_gvk"
    by (drule claimed_lease) (simp add: is_authority_lease_def has_key_def)
  ultimately show ?thesis by metis
qed

interpretation contested: lease_server contested_env None
proof unfold_locales
  show "ob_gvk ob = k" if "env_get contested_env t k ns n = Inr ob" for t k ns n ob
    using that contested_kinds by simp
  show "\<exists>past later. t = past @ later \<and> lease_after contested_env None past = Some ob"
    if "env_get contested_env t lease_gvk workload_namespace cluster_authority_lease_name = Inr ob" for t ob
    using that
    by (intro exI [of _ t] exI [of _ "[]"])
      (simp add: claimed_stored contested_get_def issuer_gvk_def lease_gvk_def cert_manager_group_def neteye_gvk_def
        neteye_group_def split: option.splits)
qed (auto simp: claimed_stored split: if_splits)

definition contested_neteye :: "string \<Rightarrow> neteye" where
  "contested_neteye n = \<lparr>ne_meta = sample_neteye_meta n, ne_spec = sample_neteye_spec, ne_status = zero_neteye_status\<rparr>"

lemma contested_reads:
  "contested_get t neteye_gvk ns n = Inr \<lparr>ob_gvk = neteye_gvk, ob_meta = sample_neteye_meta n,
     ob_content = NetEyeContent sample_neteye_spec zero_neteye_status\<rparr>"
  "contested_get t issuer_gvk ns n = Inr (new_object issuer_gvk ns n NoContent)"
  "contested_get t gateway_gvk ns n = Inl (K8sErr NotFound ''not found'')"
  "contested_get t lease_gvk ns n = (case claimed t of None \<Rightarrow> Inl (K8sErr NotFound ''not found'') | Some ob \<Rightarrow> Inr ob)"
  by (simp_all add: contested_get_def neteye_gvk_def issuer_gvk_def gateway_gvk_def lease_gvk_def neteye_group_def
      cert_manager_group_def gateway_api_group_def)

lemma contested_authority:
  assumes "claimed (st_trace s) = None"
  shows "run_state (ensure_cluster_authority contested_env (contested_neteye n)) s =
    (Inr (), record_call (K8sCreate (new_lease (contested_neteye n)))
       (record_call (K8sGet lease_gvk workload_namespace cluster_authority_lease_name) s))"
proof -
  have "is_authority_lease (new_lease (contested_neteye n))"
    by (simp add: is_authority_lease_def has_key_def new_lease_def set_owners_def new_meta_def)
  moreover have "lease_controlled (contested_neteye n) (new_lease (contested_neteye n))"
    by (simp add: lease_controlled_def controller_of_def new_lease_def owner_reference_for_def
        make_owner_reference_def is_controller_ref_def)
  moreover have "lease_holder (new_lease (contested_neteye n)) = Some (meta_uid (ne_meta (contested_neteye n)))"
    by (simp add: new_lease_def lease_holder_def set_owners_def)
  ultimately show ?thesis
    using assms
    by (simp add: ensure_cluster_authority_def obtain_lease_def get_lease_def k8s_get_def k8s_create_def
        contested_reads claimed_append)
qed

definition contested_gateway :: "string \<Rightarrow> object_definition" where
  "contested_gateway n = \<lparr>od_gvk = gateway_gvk, od_name = ''gw'', od_namespace = workload_namespace,
     od_spec = gateway_spec_of ''cilium'' [] (gateway_listeners (contested_neteye n)),
     od_owner = Some (owner_reference_for (contested_neteye n))\<rparr>"

lemma contested_base:
  "\<exists>e s' st'. run_state (reconcile_base_resources (sample_reconciler contested_env) (contested_neteye n)) (s, st)
     = ((failure_requeue (sample_reconciler contested_env), Some e), (s', st')) \<and>
     st_trace s' = st_trace s @ [K8sGet issuer_gvk workload_namespace ''issuer'',
       K8sGet gateway_gvk workload_namespace ''gw'', K8sCreate (created_object (contested_gateway n))]"
proof -
  have "validate_issuer_ref ''issuer'' = None" by code_simp
  then have issuer: "run_state (ensure_issuer_exists contested_env workload_namespace ''issuer'') s =
      (Inr (), record_call (K8sGet issuer_gvk workload_namespace ''issuer'') s)" for s
    by (simp add: ensure_issuer_exists_def k8s_get_def contested_reads)
  have "\<not> is_authority_lease (created_object (contested_gateway n))"
    using created_object_facts(1) [of "contested_gateway n"]
    by (auto simp: is_authority_lease_def has_key_def contested_gateway_def lease_kind)
  then have gateway: "\<exists>e. run_state (apply_only contested_env (contested_gateway n)) s =
      (Inl e, record_call (K8sCreate (created_object (contested_gateway n)))
        (record_call (K8sGet gateway_gvk workload_namespace ''gw'') s))" for s
    by (simp add: apply_only_def apply_object_def get_object_def create_object_def owned_object_eq k8s_get_def
        k8s_create_def contested_reads contested_gateway_def)
  obtain e where "run_state (ensure_gateway contested_env workload_namespace ''gw'' ''cilium'' []
      (gateway_listeners (contested_neteye n)) (owner_reference_for (contested_neteye n)))
      (record_call (K8sGet issuer_gvk workload_namespace ''issuer'') s) =
    (Inl e, record_call (K8sCreate (created_object (contested_gateway n)))
        (record_call (K8sGet gateway_gvk workload_namespace ''gw'')
          (record_call (K8sGet issuer_gvk workload_namespace ''issuer'') s)))"
    using gateway unfolding ensure_gateway_def contested_gateway_def by blast
  moreover have "issuer_ref_for (contested_neteye n) = ''issuer''"
    "ne_gateway (ne_spec (contested_neteye n)) = \<lparr>gw_name = ''gw'', gw_class_name = ''cilium'', gw_annotations = []\<rparr>"
    by (simp_all add: issuer_ref_for_def contested_neteye_def sample_neteye_spec_def)
  ultimately show ?thesis
    using issuer by (simp add: reconcile_base_resources_def run_try_pass Let_def)
qed

lemma contested_first_pass:
  assumes "claimed (st_trace s) = None"
    and run: "run_state (reconcile_neteye (sample_reconciler contested_env) ns n) s = (r, s')"
  shows "worked_for (sample_reconciler contested_env) ns n s s' = [n]"
proof -
  let ?rc = "sample_reconciler contested_env"
  let ?ob = "\<lparr>ob_gvk = neteye_gvk, ob_meta = sample_neteye_meta n,
     ob_content = NetEyeContent sample_neteye_spec zero_neteye_status\<rparr>"
  let ?s = "record_call (K8sGet neteye_gvk ns n) s"
  have ne: "neteye_of ?ob = contested_neteye n" by (simp add: neteye_of_def contested_neteye_def)
  obtain d s1 st where spec: "run_state (reconcile_spec ?rc (contested_neteye n)) (?s, reset_status (contested_neteye n))
      = (d, (s1, st))" by (metis surj_pair)
  have last: "run_state (report_status ?rc ns n (d, st)) s1 = (r, s')"
    using run spec by (simp add: reconcile_neteye_def k8s_get_def run_state_bind run_pass_def contested_reads ne)
  have claim: "claimed (st_trace ?s) = None" using assms(1) by (simp add: claimed_append)
  obtain images where "components_for_version (rc_getenv ?rc) current_neteye_version = Some images"
    using latest_has_components [of current_neteye_version] by (auto simp: is_latest_version_def)
  then have spec': "reconcile_spec ?rc (contested_neteye n) =
      establish_authority ?rc (contested_neteye n) (reconcile_platform ?rc (contested_neteye n) images)"
    by (simp add: reconcile_spec_def contested_neteye_def sample_neteye_spec_def is_latest_version_def Let_def)
      (simp add: sample_reconciler_def)
  let ?u = "record_call (K8sCreate (new_lease (contested_neteye n)))
       (record_call (K8sGet lease_gvk workload_namespace cluster_authority_lease_name) ?s)"
  obtain e v st' where base: "run_state (reconcile_base_resources ?rc (contested_neteye n)) (?u, reset_status (contested_neteye n))
      = ((failure_requeue ?rc, Some e), (v, st'))"
    and trace: "st_trace v = st_trace ?u @ [K8sGet issuer_gvk workload_namespace ''issuer'',
       K8sGet gateway_gvk workload_namespace ''gw'', K8sCreate (created_object (contested_gateway n))]"
    using contested_base by blast
  have "s1 = v"
    using spec base contested_authority [OF claim, of n] unfolding spec'
    by (simp add: establish_authority_def run_try_pass reconcile_platform_def run_state_bind should_return_def)
  moreover obtain new where "st_trace s' = st_trace s1 @ new"
    using contested.report_pass(1) last by (rule emitsD) simp
  ultimately have "K8sCreate (created_object (contested_gateway n)) \<in> set (new_calls s s')"
    using trace by (simp add: new_calls_def)
  moreover have "platform_write (K8sCreate (created_object (contested_gateway n)))"
    using created_object_facts(1) [of "contested_gateway n"] by (simp add: has_key_def contested_gateway_def lease_kind)
  ultimately show ?thesis
    unfolding worked_for_def by (force simp: contested_reads sample_neteye_meta_def)
qed

text \<open>The first NetEye gets the platform; the pass of the second one writes nothing to it.\<close>

theorem authority_exclusive_witness:
  "\<exists>s s'. operator_run (sample_reconciler contested_env) ((sample_api_reconciler [])\<lparr>ar_env := contested_env\<rparr>) s [''one''] \<and>
     s' = snd (run_state (reconcile_neteye (sample_reconciler contested_env) workload_namespace ''two'') s) \<and>
     worked_for (sample_reconciler contested_env) workload_namespace ''two'' s s' = []"
proof -
  let ?rc = "sample_reconciler contested_env" and ?ar = "(sample_api_reconciler [])\<lparr>ar_env := contested_env\<rparr>"
  obtain r s where one: "run_state (reconcile_neteye ?rc workload_namespace ''one'') initial_state = (r, s)" by (metis surj_pair)
  obtain r' s' where two: "run_state (reconcile_neteye ?rc workload_namespace ''two'') s = (r', s')" by (metis surj_pair)
  have first: "operator_run ?rc ?ar s [''one'']"
    using operator_run.neteye [OF operator_run.start one] contested_first_pass [OF _ one]
    by (simp add: initial_state_def)
  then have "operator_run ?rc ?ar s' (worked_for ?rc workload_namespace ''two'' s s' @ [''one''])"
    using two by (rule operator_run.neteye)
  then have "\<forall>uid \<in> set (worked_for ?rc workload_namespace ''two'' s s' @ [''one'']).
      \<forall>uid' \<in> set (worked_for ?rc workload_namespace ''two'' s s' @ [''one'']). uid = uid'"
    using authority_exclusive [of ?rc None ?ar] contested.lease_server_axioms by simp
  then have "set (worked_for ?rc workload_namespace ''two'' s s') \<subseteq> {''one''}" by auto
  moreover have "set (worked_for ?rc workload_namespace ''two'' s s') \<subseteq> {''two''}"
    by (auto simp: worked_for_def contested_reads sample_neteye_meta_def split: if_splits)
  ultimately have "worked_for ?rc workload_namespace ''two'' s s' = []"
    by (cases "worked_for ?rc workload_namespace ''two'' s s'") simp_all
  with first two show ?thesis by (metis snd_conv)
qed

end
