(* ===== verification/Cluster_Permissions.thy ===== *)
theory Cluster_Permissions
  imports Call_Kinds Platform_Liveness
begin

text \<open>
  The permissions the operator is deployed with (\<^verbatim>\<open>config/manifests/patches/deployment.yaml\<close>, which the
  release bundle carries), against the rights its code needs. They cover every call of every
  pass but two deletions, and an API server that enforces them keeps a NetEye that has come to
  such a deletion from ever being Ready.
\<close>

section \<open>Rules\<close>

record rule =
  ru_groups :: "string list"
  ru_resources :: "string list"
  ru_verbs :: "string list"

definition rule_of :: "string \<Rightarrow> string list \<Rightarrow> string list \<Rightarrow> rule" where
  "rule_of g rs vs = \<lparr>ru_groups = [g], ru_resources = rs, ru_verbs = vs\<rparr>"

definition change_verbs :: "string list" where
  "change_verbs = [''create'', ''delete'', ''get'', ''list'', ''patch'', ''update'', ''watch'']"

definition kept_verbs :: "string list" where
  "kept_verbs = [''create'', ''get'', ''list'', ''update'', ''watch'']"

definition managed_verbs :: "string list" where
  "managed_verbs = [''create'', ''delete'', ''get'', ''list'', ''update'', ''watch'']"

definition view_verbs :: "string list" where
  "view_verbs = [''get'', ''list'', ''watch'']"

text \<open>The rules of a resource type of the API group of the operator.\<close>

definition own_rules :: "string \<Rightarrow> string list \<Rightarrow> rule list" where
  "own_rules plural verbs =
     [rule_of ''neteye.cloud'' [plural] verbs,
      rule_of ''neteye.cloud'' [plural @ ''/status''] [''get'', ''patch'', ''update''],
      rule_of ''neteye.cloud'' [plural @ ''/finalizers''] [''update'']]"

definition cluster_rules :: "rule list" where
  "cluster_rules =
     [rule_of [] [''configmaps'', ''services'', ''serviceaccounts'', ''endpoints''] change_verbs,
      rule_of [] [''secrets''] kept_verbs,
      rule_of [] [''pods'', ''pods/log''] view_verbs,
      rule_of [] [''namespaces''] [''create'', ''delete'', ''get'', ''list'', ''watch''],
      rule_of ''storage.k8s.io'' [''storageclasses''] view_verbs,
      rule_of ''apps'' [''deployments'', ''statefulsets''] change_verbs,
      rule_of ''rbac.authorization.k8s.io'' [''clusterroles'', ''clusterrolebindings'', ''roles'', ''rolebindings'']
        change_verbs,
      rule_of ''apiextensions.k8s.io'' [''customresourcedefinitions''] view_verbs,
      rule_of ''k8s.keycloak.org'' [''keycloaks''] managed_verbs,
      rule_of ''olm.operatorframework.io'' [''clusterextensions''] kept_verbs,
      rule_of ''cert-manager.io'' [''certificates''] kept_verbs,
      rule_of ''cert-manager.io'' [''issuers''] view_verbs,
      rule_of ''gateway.networking.k8s.io'' [''gateways'', ''httproutes'', ''grpcroutes''] managed_verbs,
      rule_of ''cilium.io'' [''ciliumnetworkpolicies''] managed_verbs,
      rule_of ''networking.k8s.io'' [''networkpolicies''] kept_verbs] @
     own_rules ''neteyes'' change_verbs @
     own_rules ''keycloakclients'' (kept_verbs @ [''patch'']) @
     own_rules ''keycloakusers'' (kept_verbs @ [''patch'']) @
     own_rules ''keycloakauthflows'' (kept_verbs @ [''patch'']) @
     own_rules ''keycloakrealms'' (kept_verbs @ [''patch''])"

text \<open>
  The rules listed as \<^verbatim>\<open>permissions\<close>. The operator watches all namespaces, where the
  lifecycle manager grants these like the others, in every namespace.
\<close>

definition namespace_rules :: "rule list" where
  "namespace_rules =
     [rule_of [] [''configmaps''] change_verbs,
      rule_of ''coordination.k8s.io'' [''leases''] (kept_verbs @ [''patch'']),
      rule_of [] [''events''] [''create'', ''patch'']]"

definition deployed_rules :: "rule list" where
  "deployed_rules = cluster_rules @ namespace_rules"

text \<open>
  The rules the Go sources declare as markers (\<^verbatim>\<open>+kubebuilder:rbac\<close>): of the NetEye controller,
  and of the four Keycloak controllers.
\<close>

definition neteye_markers :: "rule list" where
  "neteye_markers =
     [rule_of ''neteye.cloud'' [''neteyes''] (kept_verbs @ [''patch'', ''delete'']),
      rule_of ''neteye.cloud'' [''neteyes/status''] [''get'', ''update'', ''patch''],
      rule_of ''neteye.cloud'' [''neteyes/finalizers''] [''update''],
      rule_of ''cert-manager.io'' [''issuers''] view_verbs,
      rule_of ''cert-manager.io'' [''certificates''] kept_verbs,
      rule_of ''gateway.networking.k8s.io'' [''gateways''] kept_verbs,
      rule_of ''gateway.networking.k8s.io'' [''httproutes'', ''grpcroutes''] managed_verbs,
      rule_of [] [''configmaps'', ''services''] managed_verbs,
      rule_of [] [''secrets''] view_verbs,
      rule_of ''apps'' [''deployments''] managed_verbs,
      rule_of ''k8s.keycloak.org'' [''keycloaks''] kept_verbs,
      rule_of ''olm.operatorframework.io'' [''clusterextensions''] kept_verbs,
      rule_of ''coordination.k8s.io'' [''leases''] [''get'', ''create''],
      rule_of ''networking.k8s.io'' [''networkpolicies''] managed_verbs,
      rule_of ''cilium.io'' [''ciliumnetworkpolicies''] managed_verbs]"

definition user_markers :: "rule list" where
  "user_markers = own_rules ''keycloakusers'' (kept_verbs @ [''patch'']) @ [rule_of [] [''secrets''] kept_verbs]"

definition client_markers :: "rule list" where
  "client_markers = own_rules ''keycloakclients'' (kept_verbs @ [''patch''])"

definition realm_markers :: "rule list" where
  "realm_markers = own_rules ''keycloakrealms'' (kept_verbs @ [''patch''])"

definition flow_markers :: "rule list" where
  "flow_markers = own_rules ''keycloakauthflows'' (kept_verbs @ [''patch''])"

definition marker_rules :: "rule list" where
  "marker_rules = neteye_markers @ user_markers @ client_markers @ realm_markers @ flow_markers"

section \<open>Granting a right\<close>

text \<open>The resource type of a kind, as the API server names it.\<close>

definition plurals :: "(string \<times> string) list" where
  "plurals =
     [(''Issuer'', ''issuers''), (''Certificate'', ''certificates''), (''Gateway'', ''gateways''),
      (''HTTPRoute'', ''httproutes''), (''GRPCRoute'', ''grpcroutes''),
      (''CiliumNetworkPolicy'', ''ciliumnetworkpolicies''), (''NetworkPolicy'', ''networkpolicies''),
      (''ConfigMap'', ''configmaps''), (''Deployment'', ''deployments''), (''Service'', ''services''),
      (''Secret'', ''secrets''), (''Keycloak'', ''keycloaks''), (''ClusterExtension'', ''clusterextensions''),
      (''NetEye'', ''neteyes''), (''KeycloakUser'', ''keycloakusers''), (''KeycloakClient'', ''keycloakclients''),
      (''KeycloakRealm'', ''keycloakrealms''), (''KeycloakAuthFlow'', ''keycloakauthflows''), (''Lease'', ''leases'')]"

fun verb_text :: "verb \<Rightarrow> string" where
  "verb_text VGet = ''get''"
| "verb_text VCreate = ''create''"
| "verb_text VUpdate = ''update''"
| "verb_text VUpdateStatus = ''update''"
| "verb_text VDelete = ''delete''"

definition resource_type :: "need \<Rightarrow> string option" where
  "resource_type d =
     map_option (\<lambda>plural. if snd d = VUpdateStatus then plural @ ''/status'' else plural)
       (map_of plurals (gvk_kind (fst d)))"

definition granted :: "rule list \<Rightarrow> need \<Rightarrow> bool" where
  "granted rules d \<longleftrightarrow>
     (case resource_type d of
        None \<Rightarrow> False
      | Some resource \<Rightarrow>
          list_ex (\<lambda>r. List.member (ru_groups r) (gvk_group (fst d)) \<and> List.member (ru_resources r) resource \<and>
            List.member (ru_verbs r) (verb_text (snd d))) rules)"

definition missing_rights :: "rule list \<Rightarrow> need list" where
  "missing_rights rules = filter (\<lambda>d. \<not> granted rules d) operator_needs"

lemma deployed_missing:
  "missing_rights deployed_rules = [(certificate_gvk, VDelete), (native_network_policy_gvk, VDelete)]"
  by code_simp

lemma marker_missing:
  "missing_rights marker_rules = [(certificate_gvk, VDelete), (lease_gvk, VUpdate)]"
  by code_simp

section \<open>What the permissions cover\<close>

definition covered :: "rule list \<Rightarrow> call \<Rightarrow> bool" where
  "covered rules c \<longleftrightarrow> list_all (granted rules) (call_needs c)"

definition refused_deletion :: "call \<Rightarrow> bool" where
  "refused_deletion c =
     (case c of K8sDelete k ns n \<Rightarrow> k = certificate_gvk \<or> k = native_network_policy_gvk | _ \<Rightarrow> False)"

lemma operator_right:
  assumes "d \<in> set operator_needs"
  shows "granted deployed_rules d \<or> d = (certificate_gvk, VDelete) \<or> d = (native_network_policy_gvk, VDelete)"
proof (cases "granted deployed_rules d")
  case False
  then have "d \<in> set (missing_rights deployed_rules)" using assms by (simp add: missing_rights_def)
  then show ?thesis unfolding deployed_missing by simp
qed simp

lemma secret_rights:
  "granted deployed_rules (secret_gvk, VGet)" "granted deployed_rules (secret_gvk, VCreate)"
  "granted deployed_rules (secret_gvk, VUpdate)"
  by code_simp+

definition permitted :: "call \<Rightarrow> bool" where
  "permitted c \<longleftrightarrow> covered deployed_rules c \<or> refused_deletion c"

lemma operator_permitted: "in_table operator_needs c \<Longrightarrow> permitted c"
  by (cases c) (auto simp: in_table_def permitted_def covered_def refused_deletion_def secret_rights dest: operator_right)

lemma platform_permitted: "needed c \<Longrightarrow> permitted c"
  by (rule operator_permitted) (auto simp: in_table_def operator_needs_def)

lemma refused_rights:
  "\<not> granted deployed_rules (certificate_gvk, VDelete)" "\<not> granted deployed_rules (native_network_policy_gvk, VDelete)"
  by code_simp+

lemma refused_not_covered: "refused_deletion c \<Longrightarrow> \<not> covered deployed_rules c"
  by (cases c) (auto simp: refused_deletion_def covered_def refused_rights)

text \<open>
  C12. The permissions the operator is deployed with are enough for everything it calls but two
  deletions: on an API server that answers a read or a creation with an object of the kind asked
  for, every call of every pass of the five controllers and of the Keycloak component is covered
  by the rules, or deletes a Certificate or a native NetworkPolicy; and these deletions are not
  covered.
\<close>

theorem permissions_cover_calls:
  assumes "\<And>t k ns n ob. env_get env t k ns n = Inr ob \<Longrightarrow> ob_gvk ob = k"
    and "\<And>t ob x. env_create env t ob = Inr x \<Longrightarrow> ob_gvk x = ob_gvk ob"
    and "rc_env rc = env" and "ar_env ar = env"
  shows "emits permitted (reconcile_neteye rc ns name) \<and>
    emits permitted (reconcile_user_resource ar ns name) \<and>
    emits permitted (reconcile_client_resource ar ns name) \<and>
    emits permitted (reconcile_realm_resource ar ns name) \<and>
    emits permitted (reconcile_flow_resource ar ns name) \<and>
    emits permitted (start_component env evs) \<and>
    \<not> covered deployed_rules (K8sDelete certificate_gvk ns name) \<and>
    \<not> covered deployed_rules (K8sDelete native_network_policy_gvk ns name)"
proof -
  have server: "typed_server env" using assms(1,2) by unfold_locales
  have kinded: "kinded_server env" using assms(1) by unfold_locales
  note controllers = kinded_server.needs_api_controllers [OF kinded assms(4), THEN emits_mono, OF platform_permitted]
  show ?thesis
    by (intro conjI controllers emits_mono [OF typed_server.needs_neteye [OF server assms(3)] operator_permitted]
        emits_mono [OF kinded_server.needs_start [OF kinded] platform_permitted] refused_not_covered)
      (simp_all add: refused_deletion_def)
qed

theorem permissions_cover_calls_witness:
  "emits permitted (reconcile_neteye (sample_reconciler (cluster_env [])) workload_namespace ''neteye'') \<and>
   emits permitted (reconcile_user_resource (sample_api_reconciler []) workload_namespace ''root'')"
proof -
  have rc: "rc_env (sample_reconciler (cluster_env [])) = cluster_env []" by (simp add: sample_reconciler_def)
  have ar: "ar_env (sample_api_reconciler []) = cluster_env []" by (simp add: sample_api_reconciler_def)
  note here = permissions_cover_calls [OF memory_cluster.kinds memory_cluster.created rc ar]
  show ?thesis
    by (rule conjI [OF here [THEN conjunct1] here [THEN conjunct2, THEN conjunct1]])
qed

section \<open>A deletion that is refused\<close>

text \<open>An API server that enforces rules answers a deletion they do not grant with an error.\<close>

definition enforces :: "env \<Rightarrow> rule list \<Rightarrow> bool" where
  "enforces env rules \<longleftrightarrow>
     (\<forall>t k ns n. \<not> granted rules (k, VDelete) \<longrightarrow> (\<exists>e. env_delete env t k ns n = Some e \<and> \<not> is_not_found e))"

text \<open>
  A NetEye that has come to a refused deletion: its Elastic Stack is off and a certificate of the
  collector is still there, or the native policy of an earlier release is.
\<close>

definition certificate_left :: "env \<Rightarrow> neteye \<Rightarrow> bool" where
  "certificate_left env ne \<longleftrightarrow> enabled_elastic_stack ne = None \<and>
     (\<forall>t. \<exists>ob. env_get env t certificate_gvk workload_namespace grpc_tls_cert_name = Inr ob \<and>
        controlled_by (owner_reference_for ne) ob)"

definition legacy_policy_left :: "env \<Rightarrow> bool" where
  "legacy_policy_left env \<longleftrightarrow>
     (\<forall>t. \<exists>ob. env_get env t native_network_policy_gvk workload_namespace default_deny_policy_name = Inr ob)"

lemma for_each_fails:
  assumes "x \<in> set xs" and "\<And>acc s. isl (fst (run_state (body x acc) s))"
  shows "isl (fst (run_state (for_each body xs acc) s))"
  using assms(1)
proof (induction xs arbitrary: acc s)
  case (Cons y ys)
  show ?case
  proof (cases "y = x")
    case True
    then show ?thesis using assms(2) [of acc s] by (auto split: prod.split sum.split)
  next
    case False
    then have "x \<in> set ys" using Cons.prems by simp
    then show ?thesis using Cons.IH by (auto split: prod.split sum.split)
  qed
qed simp

lemma enforced:
  assumes "enforces env deployed_rules"
  shows "\<exists>e. env_delete env t certificate_gvk ns n = Some e \<and> \<not> is_not_found e"
    and "\<exists>e. env_delete env t native_network_policy_gvk ns n = Some e \<and> \<not> is_not_found e"
  using assms refused_rights unfolding enforces_def by blast+

lemma collector_not_removed:
  assumes "enforces env deployed_rules" and "certificate_left env ne"
  shows "isl (fst (run_state (delete_otel_collector env workload_namespace (owner_reference_for ne)) s))"
  unfolding delete_otel_collector_def delete_owned_resources_def
proof (rule for_each_fails)
  show "(certificate_gvk, grpc_tls_cert_name) \<in> set (collector_resource_inventory @ collector_legacy_inventory)"
    by (simp add: collector_resource_inventory_def)
  fix acc and s :: op_state
  obtain ob where "env_get env (st_trace s) certificate_gvk workload_namespace grpc_tls_cert_name = Inr ob"
      "controlled_by (owner_reference_for ne) ob"
    using assms(2) unfolding certificate_left_def by blast
  moreover obtain e where "env_delete env (st_trace s @ [K8sGet certificate_gvk workload_namespace grpc_tls_cert_name])
      certificate_gvk workload_namespace grpc_tls_cert_name = Some e" "\<not> is_not_found e"
    using enforced(1) [OF assms(1)] by blast
  ultimately show "isl (fst (run_state (delete_owned_resource env workload_namespace (owner_reference_for ne)
      (certificate_gvk, grpc_tls_cert_name)) s))"
    by (simp add: delete_owned_resource_exact Let_def)
qed

lemma policy_not_removed:
  assumes "enforces env deployed_rules" and "legacy_policy_left env"
  shows "isl (fst (run_state (ensure_default_deny env workload_namespace owner) s))"
proof -
  let ?read = "K8sGet native_network_policy_gvk workload_namespace default_deny_policy_name"
  obtain ob where "env_get env (st_trace s) native_network_policy_gvk workload_namespace default_deny_policy_name = Inr ob"
    using assms(2) unfolding legacy_policy_left_def by blast
  moreover obtain e where "env_delete env (st_trace s @ [?read])
      native_network_policy_gvk workload_namespace default_deny_policy_name = Some e" "\<not> is_not_found e"
    using enforced(2) [OF assms(1)] by blast
  ultimately show ?thesis
    by (simp add: ensure_default_deny_def delete_legacy_default_deny_def ignore_not_found_def k8s_get_def k8s_delete_def)
qed

text \<open>The collector is then degraded, and a pass with a degraded component is not Ready.\<close>

lemma degraded_unfinished: "degraded_result i reason m d e = Inr r \<Longrightarrow> unfinished r"
  using honest_reports(3) [of "\<lambda>state. False" undefined i reason m d e] by (simp add: honest_report_def)

lemma collector_degraded:
  assumes "enforces (rc_env rc) deployed_rules" and "certificate_left (rc_env rc) ne"
    and "run_state (reconcile_otel_collector rc ne img ca) s = ((sv, Inr r), s')"
  shows "unfinished r"
proof -
  have off: "enabled_elastic_stack ne = None" using assms(2) by (simp add: certificate_left_def)
  obtain res u where cleanup: "run_state (delete_otel_collector (rc_env rc) workload_namespace (owner_reference_for ne)) s = (res, u)"
    by (metis surj_pair)
  then have "isl res" using collector_not_removed [OF assms(1,2), of s] by simp
  then obtain e where "res = Inl e" by (auto simp: isl_def)
  then show ?thesis
    using assms(3) cleanup off
    by (auto simp: reconcile_otel_collector_def disabled_report_def Let_def dest: degraded_unfinished)
qed

lemma components_not_ready:
  assumes "enforces (rc_env rc) deployed_rules" and "certificate_left (rc_env rc) ne"
    and run: "run_state (reconcile_components rc ne images) (s, st) = (res, (s', st'))"
    and fresh: "fresh_status st"
  shows "nst_phase st' \<noteq> PhaseReady"
proof
  assume ready: "nst_phase st' = PhaseReady"
  obtain sv1 r1 s1 sv2 r2 s2 sv3 r3 s3 where
    otel: "run_state (reconcile_otel_collector rc ne (otel_collector_image images) (ca_bundle_image images)) s2
      = ((sv3, Inr r3), s3)"
    and report: "run_state (reconcile_components rc ne images) (s, st) =
      run_state (report_components rc
        [(edot_gateway_component_id, r1), (identity_component_id, r2), (otel_collector_component_id, r3)])
        (s3, set_otel_collector sv3 (set_identity sv2 (set_edot_gateway sv1 st)))"
    by (rule components_run)
  let ?results = "[(edot_gateway_component_id, r1), (identity_component_id, r2), (otel_collector_component_id, r3)]"
  have "fst (aggregate_component_phase ?results) = PhaseReady"
    using run ready fresh_services [OF fresh] unfolding report run_report_components by auto
  from ready_reports [OF disjI1 [OF TrueI] disjI1 [OF TrueI] disjI2 this]
  show False using collector_degraded [OF assms(1,2) otel] by blast
qed

lemma platform_not_ready:
  assumes "enforces (rc_env rc) deployed_rules"
    and left: "certificate_left (rc_env rc) ne \<or> legacy_policy_left (rc_env rc)"
    and run: "run_state (reconcile_platform rc ne images) (s, st) = ((d, err), (s', st'))" and fresh: "fresh_status st"
  shows "nst_phase st' \<noteq> PhaseReady"
proof
  assume ready: "nst_phase st' = PhaseReady"
  obtain res u st1 where base: "run_state (reconcile_base_resources rc ne) (s, st) = (res, (u, st1))"
    by (metis surj_pair)
  have st1: "st1 = st \<or> (should_return res \<and> nst_phase st1 = PhaseFailed)"
    by (rule base_status [OF base fresh])
  then have go_on: "\<not> should_return res"
    using run base ready fresh by (auto simp: reconcile_platform_def run_state_bind fresh_status_def)
  obtain x v where deny: "run_state (ensure_default_deny (rc_env rc) workload_namespace (owner_reference_for ne)) u = (x, v)"
    by force
  have "\<not> isl x" and comps: "run_state (reconcile_components rc ne images) (v, st) = ((d, err), (s', st'))"
    using run base st1 go_on deny ready fresh
    by (auto simp: reconcile_platform_def run_state_bind run_try_pass split: sum.splits)
  then show False
    using left policy_not_removed [OF assms(1), of "owner_reference_for ne" u] deny
      components_not_ready [OF assms(1) _ comps fresh] ready by auto
qed

text \<open>
  C13. A NetEye that comes to a deletion its operator is not permitted never becomes Ready: on an
  API server that enforces the deployed rules, no pass over a NetEye whose Elastic Stack was
  turned off, while a certificate of the collector is still there, publishes Ready, and no
  pass at all does while the native default-deny policy of an earlier release is there.
\<close>

theorem refused_deletion_never_ready:
  assumes "enforces (rc_env rc) deployed_rules"
    and "certificate_left (rc_env rc) ne \<or> legacy_policy_left (rc_env rc)"
    and "run_state (reconcile_spec rc ne) (s, reset_status ne) = ((d, err), (s', st))"
  shows "nst_phase st \<noteq> PhaseReady"
proof
  assume ready: "nst_phase st = PhaseReady"
  obtain x u where authority: "run_state (ensure_cluster_authority (rc_env rc) ne) s = (x, u)" by force
  obtain images where "run_state (reconcile_platform rc ne images) (u, reset_status ne) = ((d, err), (s', st))"
    using ready_reaches_platform [OF assms(3) ready authority] by blast
  from platform_not_ready [OF assms(1,2) this fresh_reset] ready show False by simp
qed

text \<open>The platform on which a NetEye reaches Ready, with the deployed rules enforced.\<close>

definition enforcing_env :: env where
  "enforcing_env = (platform_with full_object)
     \<lparr>env_delete := (\<lambda>t k ns n. if granted deployed_rules (k, VDelete) then None else Some (K8sErr OtherReason ''forbidden''))\<rparr>"

lemma enforcing: "enforces enforcing_env deployed_rules"
  by (simp add: enforces_def enforcing_env_def)

lemma enforcing_left: "certificate_left enforcing_env sample_neteye" "legacy_policy_left enforcing_env"
  by (auto simp: certificate_left_def legacy_policy_left_def enforcing_env_def controlled_by_def is_controller_ref_def
      sample_owner_def make_owner_reference_def owners_set_owners owned_by_sample_def owner_reference_for_def
      sample_neteye_def sample_neteye_meta_def sample_neteye_spec_def enabled_elastic_stack_def)

theorem refused_deletion_never_ready_witness:
  "certificate_left enforcing_env sample_neteye \<and>
   nst_phase (snd (snd (run_state (reconcile_spec (sample_reconciler enforcing_env) sample_neteye)
     (initial_state, reset_status sample_neteye)))) \<noteq> PhaseReady"
proof -
  obtain d err s' st where run: "run_state (reconcile_spec (sample_reconciler enforcing_env) sample_neteye)
     (initial_state, reset_status sample_neteye) = ((d, err), (s', st))" by (metis surj_pair)
  have "nst_phase st \<noteq> PhaseReady"
    by (rule refused_deletion_never_ready [OF _ _ run]) (simp_all add: enforcing enforcing_left)
  with run enforcing_left show ?thesis by simp
qed

end
