(* ===== verification/Resource_Deletion.thy ===== *)
theory Resource_Deletion
  imports Keycloak_Controllers
begin

text \<open>
  Finalizers of all four Keycloak resources (\<^verbatim>\<open>reconcileDelete\<close> and \<^verbatim>\<open>reconcile\<close> of the files
  \<^verbatim>\<open>controllers/keycloak*_controller.go\<close>): what must have happened in the pass that takes one
  away. The deletions of realms and flows join those of users and clients as interpretations of
  \<open>deletable_entity\<close>; the passes over users, clients and realms share their proof.
\<close>

section \<open>Deleting realms and flows\<close>

lemma realm_deletable:
  assumes "rs_realm spec \<noteq> master_realm"
  shows "deletable_entity env (delete_declared_realm env a spec) (get_realm env a (rs_realm spec))
    (\<lambda>l. realm_path (rs_realm spec) [])"
  unfolding delete_declared_realm_def delete_realm_def Let_def if_not_P [OF assms]
  by unfold_locales (erule lookup_then_delete, auto intro!: emits_intros)

lemma flow_removed:
  assumes "run_state (delete_declared_flow env a spec) s = (Inr (), s')"
  shows "remote_removed env s s' (get_auth_flow env a (flow_realm spec) (fs_alias spec))
    (\<lambda>l. auth_path (flow_realm spec) (''flows/'' @ path_escape (string_value l ''id'')))"
proof -
  let ?lookup = "get_auth_flow env a (flow_realm spec) (fs_alias spec)"
  obtain res u where res: "run_state ?lookup s = (res, u)" by (metis surj_pair)
  have "res \<noteq> Inl e" for e
    using assms res by (auto simp: delete_declared_flow_def)
  then obtain live where "res = Inr live" by (cases res) blast+
  with res have run: "run_state ?lookup s = (Inr live, u)" by simp
  have "emits (sends (\<lambda>m path body. True)) ?lookup" by (intro emits_intros)
  from emitted [OF this run] obtain before where before: "st_trace u = st_trace s @ before" ..
  show ?thesis
  proof (cases live)
    case None
    then show ?thesis using run by (simp add: remote_removed_def)
  next
    case (Some l)
    let ?path = "auth_path (flow_realm spec) (''flows/'' @ path_escape (string_value l ''id''))"
    have "run_state (do_send env a DELETE ?path None) u = (Inr (), s')"
      using assms run Some by (simp add: delete_declared_flow_def delete_auth_flow_def split: if_splits)
    from do_send_acknowledged [OF this] have "acknowledged env (st_trace s) (st_trace s') DELETE ?path None"
      unfolding before by (rule acknowledged_prefix)
    then show ?thesis using run Some by (simp add: remote_removed_def)
  qed
qed

interpretation remote_flow: deletable_entity env "delete_declared_flow env a spec"
    "get_auth_flow env a (flow_realm spec) (fs_alias spec)"
    "\<lambda>l. auth_path (flow_realm spec) (''flows/'' @ path_escape (string_value l ''id''))" for env a spec
proof unfold_locales
  show "emits (sends (\<lambda>m path body. True)) (delete_declared_flow env a spec)"
    unfolding delete_declared_flow_def delete_auth_flow_def by (intro emits_intros) simp
qed (rule flow_removed)

section \<open>The entity a resource stands for\<close>

definition finalizer_of :: "gvk \<Rightarrow> string" where
  "finalizer_of k =
     (if k = keycloak_user_gvk then keycloak_user_finalizer
      else if k = keycloak_client_gvk then keycloak_client_finalizer
      else if k = keycloak_realm_gvk then keycloak_realm_finalizer
      else keycloak_auth_flow_finalizer)"

definition entity_lookup :: "env \<Rightarrow> gvk \<Rightarrow> k8s_object \<Rightarrow> nat \<Rightarrow> representation option fallible" where
  "entity_lookup env k ob a =
     (if k = keycloak_user_gvk
      then get_user env a (user_realm (user_spec_of ob)) (us_username (user_spec_of ob))
      else if k = keycloak_client_gvk
      then get_client env a (client_realm (client_spec_of ob)) (cs_client_id (client_spec_of ob))
      else if k = keycloak_realm_gvk then get_realm env a (rs_realm (realm_spec_of ob))
      else get_auth_flow env a (flow_realm (flow_spec_of ob)) (fs_alias (flow_spec_of ob)))"

definition entity_path :: "gvk \<Rightarrow> k8s_object \<Rightarrow> representation \<Rightarrow> string" where
  "entity_path k ob l =
     (if k = keycloak_user_gvk then user_path (user_realm (user_spec_of ob)) (string_value l ''id'') []
      else if k = keycloak_client_gvk then client_path (client_realm (client_spec_of ob)) (string_value l ''id'') []
      else if k = keycloak_realm_gvk then realm_path (rs_realm (realm_spec_of ob)) []
      else auth_path (flow_realm (flow_spec_of ob)) (''flows/'' @ path_escape (string_value l ''id'')))"

lemma api_kinds_distinct [simp]:
  "keycloak_client_gvk \<noteq> keycloak_user_gvk" "keycloak_realm_gvk \<noteq> keycloak_user_gvk"
  "keycloak_auth_flow_gvk \<noteq> keycloak_user_gvk" "keycloak_realm_gvk \<noteq> keycloak_client_gvk"
  "keycloak_auth_flow_gvk \<noteq> keycloak_client_gvk" "keycloak_auth_flow_gvk \<noteq> keycloak_realm_gvk"
  by (simp_all add: keycloak_user_gvk_def keycloak_client_gvk_def keycloak_realm_gvk_def keycloak_auth_flow_gvk_def)

lemma entity_simps [simp]:
  "entity_path keycloak_user_gvk ob = (\<lambda>l. user_path (user_realm (user_spec_of ob)) (string_value l ''id'') [])"
  "entity_path keycloak_client_gvk ob = (\<lambda>l. client_path (client_realm (client_spec_of ob)) (string_value l ''id'') [])"
  "entity_path keycloak_realm_gvk ob = (\<lambda>l. realm_path (rs_realm (realm_spec_of ob)) [])"
  "entity_path keycloak_auth_flow_gvk ob =
     (\<lambda>l. auth_path (flow_realm (flow_spec_of ob)) (''flows/'' @ path_escape (string_value l ''id'')))"
  "finalizer_of keycloak_user_gvk = keycloak_user_finalizer" "finalizer_of keycloak_client_gvk = keycloak_client_finalizer"
  "finalizer_of keycloak_realm_gvk = keycloak_realm_finalizer"
  "finalizer_of keycloak_auth_flow_gvk = keycloak_auth_flow_finalizer"
  by (auto simp: entity_path_def finalizer_of_def)

text \<open>
  Why a finalizer may go: there is no admin credential any more, the entity was seen absent or
  its deletion accepted, or Keycloak showed in this pass that the flow can never be deleted: it
  answered the lookup with a flow that is built in, or that has no identifier.
\<close>

definition undeletable :: "env \<Rightarrow> gvk \<Rightarrow> k8s_object \<Rightarrow> nat \<Rightarrow> op_state \<Rightarrow> bool" where
  "undeletable env k ob a s \<longleftrightarrow> k = keycloak_auth_flow_gvk \<and>
     (case fst (run_state (entity_lookup env k ob a) s) of
        Inr (Some flow) \<Rightarrow> map_of flow ''builtIn'' = Some (JBool True) \<or> string_value flow ''id'' = []
      | _ \<Rightarrow> False)"

definition entity_released :: "api_reconciler \<Rightarrow> gvk \<Rightarrow> k8s_object \<Rightarrow> op_state \<Rightarrow> op_state \<Rightarrow> bool" where
  "entity_released ar k ob s s' \<longleftrightarrow>
     (case run_state (resource_admin_api ar (meta_namespace (ob_meta ob))) s of
        (Inl e, u) \<Rightarrow> is_no_admin_credentials e
      | (Inr a, u) \<Rightarrow> undeletable (ar_env ar) k ob a u \<or>
          remote_removed (ar_env ar) u s' (entity_lookup (ar_env ar) k ob a) (entity_path k ob))"

lemma released_entity:
  assumes "released_soundly ar (meta_namespace (ob_meta ob)) s s' lookup path_of"
    and "\<And>a. lookup a = entity_lookup (ar_env ar) k ob a" and "path_of = entity_path k ob"
  shows "entity_released ar k ob s s'"
  using assms by (auto simp: released_soundly_def entity_released_def split: prod.splits sum.splits)

section \<open>Errors that are not the operator's own\<close>

text \<open>
  The HTTP client and the JSON decoder fail with errors of their own packages, none of which
  is the operator's \<^verbatim>\<open>PermanentDeleteError\<close>; that one is made in \<^verbatim>\<open>authflowsync.go\<close> only.
\<close>

fun plain_answer :: "http_answer \<Rightarrow> bool" where
  "plain_answer (BadRequest e) = (\<not> is_permanent_delete e)"
| "plain_answer (SendFailed e) = (\<not> is_permanent_delete e)"
| "plain_answer (ReadFailed e) = (\<not> is_permanent_delete e)"
| "plain_answer (Answer code status raw) = True"

definition plain_transport :: "env \<Rightarrow> bool" where
  "plain_transport env \<longleftrightarrow>
     (\<forall>t base user pass. plain_answer (env_token env t base user pass)) \<and>
     (\<forall>t base m path token body. plain_answer (env_admin env t base m path token body)) \<and>
     (\<forall>raw e. env_decode env raw = Inl e \<longrightarrow> \<not> is_permanent_delete e) \<and>
     (\<forall>raw e. env_decode_token env raw = Inl e \<longrightarrow> \<not> is_permanent_delete e)"

definition never_permanent :: "'a fallible \<Rightarrow> bool" where
  "never_permanent m \<longleftrightarrow> delivers (\<lambda>x. True) (\<lambda>e. \<not> is_permanent_delete e) m"

lemma never_permanentD:
  "never_permanent m \<Longrightarrow> run_state m s = (Inl e, s') \<Longrightarrow> \<not> is_permanent_delete e"
  unfolding never_permanent_def by (erule (1) delivers_Inl)

lemma returns_anything: "returns (\<lambda>x. True) m"
  by (simp add: returns_def)

lemma never_permanent_intros:
  "never_permanent (ok x)" "\<not> is_permanent_delete e \<Longrightarrow> never_permanent (fail e)"
  "never_permanent m \<Longrightarrow> (\<And>x. never_permanent (k x)) \<Longrightarrow> never_permanent (try_ok m k)"
  "returns A n \<Longrightarrow> (\<And>y. A y \<Longrightarrow> never_permanent (k' y)) \<Longrightarrow> never_permanent (State_Monad.bind n k')"
  unfolding never_permanent_def
  by (auto intro: delivers_ok delivers_fail delivers_try delivers_bind)

lemmas never_permanent_seq = never_permanent_intros(1-3) never_permanent_intros(4) [OF returns_anything]

lemma returns_plain:
  assumes "plain_transport env"
  shows "returns plain_answer (request_token env base user pass)"
    and "returns plain_answer (admin_request env base m path token body)"
  using assms by (simp_all add: returns_def request_token_def admin_request_def plain_transport_def)

lemma token_never_permanent:
  assumes "plain_transport env" and "plain_answer answer"
  shows "never_permanent (accept_token env a answer)"
  using assms
  by (cases answer)
    (auto simp: accept_token_def store_token_def plain_transport_def intro!: never_permanent_seq split: sum.split)

lemma answer_never_permanent: "plain_answer answer \<Longrightarrow> never_permanent (read_answer a m path answer)"
  by (cases answer) (auto simp: read_answer_def intro!: never_permanent_seq)

lemma request_never_permanent:
  assumes "plain_transport env"
  shows "never_permanent (do_request env a m path body)"
proof -
  have fetch: "never_permanent (fetch_token env a api)" for api
    unfolding fetch_token_def
    by (rule never_permanent_intros(4) [OF returns_plain(1) [OF assms] token_never_permanent [OF assms]])
  have "never_permanent (authenticate env a)"
    unfolding authenticate_def by (auto intro!: never_permanent_seq fetch)
  moreover have "never_permanent (State_Monad.bind (admin_request env base m path token body) (read_answer a m path))"
    for base token
    by (rule never_permanent_intros(4) [OF returns_plain(2) [OF assms] answer_never_permanent])
  ultimately show ?thesis
    unfolding do_request_def by (blast intro: never_permanent_intros(3) never_permanent_seq(4))
qed

lemma into_representations_plain:
  "into_representations j = Inl e \<Longrightarrow> \<not> is_permanent_delete e"
proof -
  have one: "into_representation j = Inl e \<Longrightarrow> \<not> is_permanent_delete e" for j e
    by (auto simp: into_representation_def type_mismatch_def split: json.splits)
  have "into_elements xs = Inl e \<Longrightarrow> \<not> is_permanent_delete e" for xs
    by (induction xs) (auto split: sum.splits dest: one simp: map_sum_def)
  then show "into_representations j = Inl e \<Longrightarrow> \<not> is_permanent_delete e"
    by (auto simp: into_representations_def type_mismatch_def split: json.splits)
qed

lemma flow_lookup_never_permanent:
  assumes "plain_transport env"
  shows "never_permanent (get_auth_flow env a realm nam)"
proof -
  have decoded: "\<not> is_permanent_delete e" if "env_decode env raw = Inl e" for raw e
    using assms that by (auto simp: plain_transport_def)
  have "never_permanent (get_many env a path)" for path
    using request_never_permanent [OF assms] unfolding get_many_def do_read_def
    by (intro never_permanent_seq) (auto intro!: never_permanent_seq split: sum.split
        dest: decoded into_representations_plain)
  then show ?thesis unfolding get_auth_flow_def by (intro never_permanent_seq)
qed

text \<open>So a permanent error of a deletion comes from a flow that the lookup found.\<close>

lemma permanent_undeletable:
  assumes "plain_transport env" and run: "run_state (delete_declared_flow env a (flow_spec_of ob)) s = (Inl e, s')"
    and "is_permanent_delete e"
  shows "undeletable env keycloak_auth_flow_gvk ob a s"
proof -
  let ?spec = "flow_spec_of ob"
  obtain res u where res: "run_state (get_auth_flow env a (flow_realm ?spec) (fs_alias ?spec)) s = (res, u)"
    by (metis surj_pair)
  have "res \<noteq> Inl e" for e
    using never_permanentD [OF flow_lookup_never_permanent [OF assms(1)], of a "flow_realm ?spec" "fs_alias ?spec" s e u]
      assms(2,3) res by (auto simp: delete_declared_flow_def)
  then obtain found where found: "res = Inr found" by (cases res) blast+
  then obtain flow where flow: "found = Some flow"
    using run res by (cases found) (auto simp: delete_declared_flow_def)
  have "never_permanent (delete_auth_flow env a realm ident)" for realm ident
    using assms(1) unfolding delete_auth_flow_def do_send_def
    by (intro never_permanent_seq request_never_permanent)
  from never_permanentD [OF this] run res found flow assms(3)
  have "bool_field flow ''builtIn'' \<or> string_value flow ''id'' = []"
    by (auto simp: delete_declared_flow_def split: if_splits)
  then show ?thesis
    using res found flow
    by (auto simp: undeletable_def entity_lookup_def bool_field_def split: option.splits json.splits)
qed

section \<open>The one write of a deletion\<close>

definition releases_only :: "string \<Rightarrow> k8s_object \<Rightarrow> call \<Rightarrow> bool" where
  "releases_only f ob c \<longleftrightarrow> (\<forall>x. c = K8sUpdate x \<longrightarrow> x = without_finalizer f ob)"

lemma emits_release_only: "emits (releases_only f ob) (release_finalizer env title f ob)"
  unfolding release_finalizer_def k8s_update_def by (intro emits_intros) (simp add: releases_only_def)

lemma emits_resolution_quiet: "emits (releases_only f ob) (resource_admin_api ar ns)"
  by (rule emits_mono [OF emits_resolution_reads]) (auto simp: releases_only_def)

lemma emits_talk_quiet:
  "emits (sends (\<lambda>m path body. True)) delete \<Longrightarrow> emits (releases_only f ob) delete"
  by (erule emits_mono) (auto simp: releases_only_def)

lemma emits_finish_release:
  assumes "emits (sends (\<lambda>m path body. True)) delete"
  shows "emits (releases_only f ob) (finish_deletion ar title f policy delete ob)"
  unfolding finish_deletion_def retry_later_def
  by (intro emits_attempt emits_return emits_if emits_release_only emits_talk_quiet [OF assms])

lemma emits_user_release:
  assumes "is_deleting ob" and "\<And>a. kont ob a = finish_deletion ar title f policy (delete a) ob"
    and "\<And>a. emits (sends (\<lambda>m path body. True)) (delete a)"
  shows "emits (releases_only f ob) (with_admin_api ar title f set_status kont ob)"
  unfolding with_admin_api_def retry_later_def assms(2)
  by (intro emits_attempt emits_if emits_return emits_release_only emits_resolution_quiet
      emits_finish_release assms(3)) (simp add: assms(1))

lemma emits_flow_release:
  "emits (releases_only keycloak_auth_flow_finalizer ob) (delete_flow_resource ar ob)"
  unfolding delete_flow_resource_def retry_later_def Let_def
  by (intro emits_attempt emits_return emits_if emits_release_only emits_resolution_quiet emits_talk_quiet remote_flow.talks_to_keycloak)

section \<open>What a finalizer outlives\<close>

text \<open>Users, clients and realms: fetch the resource, resolve the client, finish the deletion.\<close>

lemma fetched_release:
  assumes found: "env_get (ar_env ar) (st_trace s) k ns name = Inr ob"
    and deleting: "is_deleting ob" and policy: "policy \<noteq> PolicyOrphan"
    and kont: "\<And>a. kont ob a = finish_deletion ar title f policy (delete a) ob"
    and entity: "\<And>a. deletable_entity (ar_env ar) (delete a) (lookup a) path_of"
    and run: "run_state (fetch_resource (ar_env ar) k ns name (with_admin_api ar title f report kont)) s = (r, s')"
    and update: "K8sUpdate x \<in> set (new_calls s s')"
  shows "x = without_finalizer f ob \<and>
    released_soundly ar (meta_namespace (ob_meta ob)) (record_call (K8sGet k ns name) s) s' lookup path_of"
proof -
  have "emits (\<lambda>c. True) (with_admin_api ar title f report kont ob)"
    by (rule emits_deletion_pass [where kont = kont and delete = delete,
        OF deleting kont deletable_entity.talks_to_keycloak [OF entity]])
  from fetched_new_calls [OF found run this update] show ?thesis
    using resolved_release [where kont = kont and delete = delete and lookup = lookup, OF _ deleting policy kont entity]
    by blast
qed

text \<open>
  A KeycloakUser outlives its account: in the pass over a user marked for deletion
  (with any policy but Orphan) the finalizer is taken away only when no admin credential
  exists any more, or when this very pass found no such account in Keycloak or saw Keycloak
  accept the deletion of the account it found; and nothing else of the resource is written.
\<close>

theorem finalizer_outlives_account:
  assumes "env_get (ar_env ar) (st_trace s) keycloak_user_gvk ns name = Inr ob"
    and "is_deleting ob" and "us_deletion_policy (user_spec_of ob) \<noteq> PolicyOrphan"
    and "run_state (reconcile_user_resource ar ns name) s = (r, s')"
    and "K8sUpdate x \<in> set (new_calls s s')"
  shows "x = without_finalizer keycloak_user_finalizer ob \<and>
    released_soundly ar (meta_namespace (ob_meta ob)) (record_call (K8sGet keycloak_user_gvk ns name) s) s'
      (\<lambda>a. get_user (ar_env ar) a (user_realm (user_spec_of ob)) (us_username (user_spec_of ob)))
      (\<lambda>l. user_path (user_realm (user_spec_of ob)) (string_value l ''id'') [])"
  by (rule fetched_release [where delete = "\<lambda>a. delete_declared_user (ar_env ar) a (user_spec_of ob)",
      OF assms(1-3) _ _ assms(4) [unfolded reconcile_user_resource_def] assms(5)])
    (simp_all add: assms(2) delete_user_resource_def account.deletable_entity_axioms)

lemma emits_flow_deletion: "emits (\<lambda>c. True) (delete_flow_resource ar ob)"
  unfolding delete_flow_resource_def retry_later_def Let_def
  by (intro emits_intros emits_release_any emits_mono [OF emits_resolution_reads]
      emits_mono [OF remote_flow.talks_to_keycloak]) simp_all

lemma flow_release:
  assumes transport: "plain_transport (ar_env ar)" and run: "run_state (delete_flow_resource ar ob) s = (r, s')"
    and policy: "fs_deletion_policy (flow_spec_of ob) \<noteq> PolicyOrphan"
    and update: "K8sUpdate x \<in> set (new_calls s s')"
  shows "x = without_finalizer keycloak_auth_flow_finalizer ob \<and> entity_released ar keycloak_auth_flow_gvk ob s s'"
proof -
  let ?release = "release_finalizer (ar_env ar) flow_finalizer_title keycloak_auth_flow_finalizer ob"
  let ?x = "K8sUpdate (without_finalizer keycloak_auth_flow_finalizer ob)"
  have guarded: "has_finalizer keycloak_auth_flow_finalizer ob"
  proof (rule ccontr)
    assume "\<not> has_finalizer keycloak_auth_flow_finalizer ob"
    then have "s' = s" using run by (simp add: delete_flow_resource_def Let_def)
    then show False using update by simp
  qed
  obtain res u where res: "run_state (resource_admin_api ar (meta_namespace (ob_meta ob))) s = (res, u)" by force
  obtain before where u: "st_trace u = st_trace s @ before" using emitted [OF emits_resolution_reads res] ..
  show ?thesis
  proof (cases res)
    case (Inl e)
    show ?thesis
    proof (cases "is_no_admin_credentials e")
      case True
      then have "run_state ?release u = (r, s')"
        using run guarded policy res Inl by (simp add: delete_flow_resource_def Let_def)
      from run_release [OF this] update u True res Inl resolution_updates_nothing [OF res] show ?thesis
        by (auto simp: entity_released_def new_calls_def)
    next
      case False
      then have "s' = u" using run guarded policy res Inl by (simp add: delete_flow_resource_def Let_def retry_later_def)
      then show ?thesis using update resolution_updates_nothing [OF res] by simp
    qed
  next
    case (Inr a)
    let ?delete = "delete_declared_flow (ar_env ar) a (flow_spec_of ob)"
    obtain out v where out: "run_state ?delete u = (out, v)" by force
    obtain more_calls where v: "st_trace v = st_trace u @ more_calls"
      using emitted [OF remote_flow.talks_to_keycloak out] ..
    have quiet: "K8sUpdate x \<notin> set (before @ more_calls)"
      using resolution_updates_nothing [OF res] remote_flow.no_update [OF out] u v by (simp add: new_calls_def)
    have after: "s' = v \<or> run_state ?release v = (r, s')"
      using run guarded policy res Inr out
      by (cases out) (auto simp: delete_flow_resource_def Let_def retry_later_def split: if_splits)
    have released: "run_state ?release v = (r, s')" using after quiet update u v by (auto simp: new_calls_def)
    then have trace: "st_trace s' = st_trace v @ [?x]" by (rule run_release)
    have "undeletable (ar_env ar) keycloak_auth_flow_gvk ob a u \<or>
        remote_removed (ar_env ar) u s' (entity_lookup (ar_env ar) keycloak_auth_flow_gvk ob a)
          (entity_path keycloak_auth_flow_gvk ob)"
    proof (cases out)
      case e: (Inl e)
      have "is_permanent_delete e"
      proof (rule ccontr)
        assume "\<not> is_permanent_delete e"
        then have "s' = v" using run guarded policy res Inr out e
          by (simp add: delete_flow_resource_def Let_def retry_later_def)
        then show False using trace by simp
      qed
      then show ?thesis using permanent_undeletable [OF transport] out e by simp
    next
      case y: (Inr y)
      then have "run_state ?delete u = (Inr (), v)" using out by simp
      from remote_flow.removes [OF this] have "remote_removed (ar_env ar) u v
          (entity_lookup (ar_env ar) keycloak_auth_flow_gvk ob a) (entity_path keycloak_auth_flow_gvk ob)"
        by (simp add: entity_lookup_def)
      then show ?thesis using trace by (blast intro: remote_removed_later)
    qed
    then show ?thesis using res Inr trace quiet update u v by (auto simp: entity_released_def new_calls_def)
  qed
qed

text \<open>A deletion pass that may take the entity away: the finalizer waits for it.\<close>

lemma released_after_removal:
  assumes "env_get (ar_env ar) (st_trace s) k ns name = Inr ob"
    and "is_deleting ob" and "deletion_policy_of k ob \<noteq> PolicyOrphan"
    and "(k, pass) \<in> {(keycloak_user_gvk, reconcile_user_resource), (keycloak_client_gvk, reconcile_client_resource),
      (keycloak_realm_gvk, reconcile_realm_resource), (keycloak_auth_flow_gvk, reconcile_flow_resource)}"
    and "k = keycloak_realm_gvk \<Longrightarrow> rs_realm (realm_spec_of ob) \<noteq> master_realm"
    and "run_state (pass ar ns name) s = (r, s')" and "K8sUpdate x \<in> set (new_calls s s')"
    and transport: "plain_transport (ar_env ar)"
  shows "x = without_finalizer (finalizer_of k) ob \<and> entity_released ar k ob (record_call (K8sGet k ns name) s) s'"
proof -
  from assms(4) consider
      "k = keycloak_user_gvk" "pass = reconcile_user_resource"
    | "k = keycloak_client_gvk" "pass = reconcile_client_resource"
    | "k = keycloak_realm_gvk" "pass = reconcile_realm_resource"
    | "k = keycloak_auth_flow_gvk" "pass = reconcile_flow_resource"
    by blast
  then show ?thesis
  proof cases
    case 1
    then show ?thesis
      using finalizer_outlives_account [of ar s ns name ob r s' x] assms(1,2,3,6,7) released_entity
      by (auto simp: entity_lookup_def)
  next
    case 2
    have policy: "cs_deletion_policy (client_spec_of ob) \<noteq> PolicyOrphan" using assms(3) 2 by simp
    have "x = without_finalizer keycloak_client_finalizer ob \<and> released_soundly ar (meta_namespace (ob_meta ob))
        (record_call (K8sGet k ns name) s) s' (entity_lookup (ar_env ar) k ob) (entity_path k ob)"
      by (rule fetched_release [where delete = "\<lambda>a. delete_declared_client (ar_env ar) a (client_spec_of ob)",
          OF assms(1,2) policy _ _ assms(6) [unfolded 2(2) reconcile_client_resource_def, folded 2(1)] assms(7)])
        (simp_all add: assms(2) delete_client_resource_def entity_lookup_def 2 remote_client.deletable_entity_axioms)
    then show ?thesis using released_entity 2 by auto
  next
    case 3
    have policy: "rs_deletion_policy (realm_spec_of ob) \<noteq> PolicyOrphan" using assms(3) 3 by simp
    have "x = without_finalizer keycloak_realm_finalizer ob \<and> released_soundly ar (meta_namespace (ob_meta ob))
        (record_call (K8sGet k ns name) s) s' (entity_lookup (ar_env ar) k ob) (entity_path k ob)"
      by (rule fetched_release [where delete = "\<lambda>a. delete_declared_realm (ar_env ar) a (realm_spec_of ob)",
          OF assms(1,2) policy _ _ assms(6) [unfolded 3(2) reconcile_realm_resource_def, folded 3(1)] assms(7)])
        (simp_all add: assms(2) delete_realm_resource_def entity_lookup_def 3 realm_deletable assms(5))
    then show ?thesis using released_entity 3 by auto
  next
    case 4
    have "run_state (delete_flow_resource ar ob) (record_call (K8sGet k ns name) s) = (r, s') \<and>
        K8sUpdate x \<in> set (new_calls (record_call (K8sGet k ns name) s) s')"
      using fetched_new_calls [where P = "\<lambda>c. True", OF assms(1) assms(6) [unfolded 4(2) reconcile_flow_resource_def, folded 4(1)] _ assms(7)]
        assms(2) emits_flow_deletion 4 by simp
    moreover have "fs_deletion_policy (flow_spec_of ob) \<noteq> PolicyOrphan" using assms(3) 4 by simp
    ultimately have "x = without_finalizer keycloak_auth_flow_finalizer ob \<and>
        entity_released ar keycloak_auth_flow_gvk ob (record_call (K8sGet k ns name) s) s'"
      using flow_release [OF transport] by blast
    then show ?thesis using 4 by simp
  qed
qed

text \<open>Whatever the policy, the one update of a deletion pass is the release.\<close>

lemma deletion_pass_releases:
  assumes found: "env_get (ar_env ar) (st_trace s) k ns name = Inr ob" and deleting: "is_deleting ob"
    and "(k, pass) \<in> {(keycloak_user_gvk, reconcile_user_resource), (keycloak_client_gvk, reconcile_client_resource),
      (keycloak_realm_gvk, reconcile_realm_resource), (keycloak_auth_flow_gvk, reconcile_flow_resource)}"
    and run: "run_state (pass ar ns name) s = (r, s')" and update: "K8sUpdate x \<in> set (new_calls s s')"
  shows "x = without_finalizer (finalizer_of k) ob"
proof -
  have release: "x = without_finalizer f ob"
    if "pass ar ns name = fetch_resource (ar_env ar) k ns name kont" and "emits (releases_only f ob) (kont ob)"
    for f kont
  proof -
    note u = fetched_new_calls [OF found run [unfolded that(1)] that(2) update]
    from new_calls_emits [OF that(2) conjunct1 [OF u] conjunct2 [OF u]] show ?thesis
      by (simp add: releases_only_def)
  qed
  from assms(3) consider
      "k = keycloak_user_gvk" "pass = reconcile_user_resource"
    | "k = keycloak_client_gvk" "pass = reconcile_client_resource"
    | "k = keycloak_realm_gvk" "pass = reconcile_realm_resource"
    | "k = keycloak_auth_flow_gvk" "pass = reconcile_flow_resource"
    by blast
  then show ?thesis
  proof cases
    case 1
    then show ?thesis
      by (simp, intro release, simp add: reconcile_user_resource_def)
        (rule emits_user_release [OF deleting], auto simp: deleting delete_user_resource_def
          intro: account.talks_to_keycloak)
  next
    case 2
    then show ?thesis
      by (simp, intro release, simp add: reconcile_client_resource_def)
        (rule emits_user_release [OF deleting], auto simp: deleting delete_client_resource_def
          intro: remote_client.talks_to_keycloak)
  next
    case 3
    have "emits (sends (\<lambda>m path body. True)) (delete_declared_realm (ar_env ar) a spec)" for a spec
      unfolding delete_declared_realm_def delete_realm_def Let_def by (auto intro!: emits_intros)
    with 3 show ?thesis
      by (simp, intro release, simp add: reconcile_realm_resource_def)
        (rule emits_user_release [OF deleting], auto simp: deleting delete_realm_resource_def)
  next
    case 4
    then show ?thesis
      by (simp, intro release, simp add: reconcile_flow_resource_def) (simp add: deleting emits_flow_release)
  qed
qed


lemma doomed_plain: "plain_transport doomed_env"
  by (simp add: plain_transport_def doomed_env_def memory_env_def cluster_env_def no_keycloak_def)


end
