(* ===== verification/Keycloak_Store.thy ===== *)
theory Keycloak_Store
  imports Keycloak_Controllers Trace_Logic "HOL-Library.Countable"
begin

text \<open>
  What Keycloak holds. So far a request was a call with any answer; here the answers are those of
  a server that keeps what it accepts. The theory has the order-insensitive comparison of
  representations, the locale of a view of a remote store under the requests of the Admin API
  (\<^verbatim>\<open>internal/keycloak/admin.go\<close>), and the rules for steps that always go through.
\<close>

section \<open>A representation that shows what is wanted\<close>

text \<open>
  \<open>holds_value v w\<close>: \<open>w\<close> has the value of \<open>v\<close>, where an object may have further keys, at every depth, and
  the order of keys does not matter.
\<close>

fun holds_value :: "json \<Rightarrow> json \<Rightarrow> bool" where
  "holds_value (JObj m) (JObj n) =
     list_all (\<lambda>p. case map_of n (fst p) of None \<Rightarrow> False | Some w \<Rightarrow> holds_value (snd p) w) m"
| "holds_value v w = deep_equal v w"

definition holds :: "representation \<Rightarrow> representation \<Rightarrow> bool" where
  "holds desired live \<longleftrightarrow> holds_value (JObj desired) (JObj live)"

lemma all_fields:
  "list_all (\<lambda>p. case map_of n (fst p) of None \<Rightarrow> False | Some w \<Rightarrow> R (snd p) w) m \<longleftrightarrow>
     (\<forall>k v. (k, v) \<in> set m \<longrightarrow> (\<exists>w. map_of n k = Some w \<and> R v w))"
  by (fastforce simp: list_all_iff split: option.splits)

lemma holds_object:
  "holds_value (JObj m) (JObj n) \<longleftrightarrow> (\<forall>k v. (k, v) \<in> set m \<longrightarrow> (\<exists>w. map_of n k = Some w \<and> holds_value v w))"
  by (simp add: all_fields)

lemma deep_equal_object:
  "deep_equal (JObj m) (JObj n) \<longleftrightarrow>
     length m = length n \<and> (\<forall>k v. (k, v) \<in> set m \<longrightarrow> (\<exists>w. map_of n k = Some w \<and> deep_equal v w))"
  by (simp add: all_fields)

lemma holds_field:
  "holds_value (JObj m) (JObj n) \<Longrightarrow> (k, v) \<in> set m \<Longrightarrow> \<exists>w. map_of n k = Some w \<and> (k, w) \<in> set n \<and> holds_value v w"
  unfolding holds_object by (blast dest: map_of_SomeD)

lemma deep_equal_field:
  "deep_equal (JObj m) (JObj n) \<Longrightarrow> (k, v) \<in> set m \<Longrightarrow> \<exists>w. map_of n k = Some w \<and> (k, w) \<in> set n \<and> deep_equal v w"
  unfolding deep_equal_object by (blast dest: map_of_SomeD)

lemma holds_iff: "holds desired live \<longleftrightarrow> (\<forall>k v. (k, v) \<in> set desired \<longrightarrow> (\<exists>w. map_of live k = Some w \<and> holds_value v w))"
  by (simp add: holds_def all_fields)

declare holds_value.simps(1) [simp del] deep_equal.simps(7) [simp del]

lemma deep_equal_trans: "deep_equal u v \<Longrightarrow> deep_equal v w \<Longrightarrow> deep_equal u w"
proof (induction u v arbitrary: w rule: deep_equal.induct)
  case (6 xs ys)
  from 6 obtain zs where w: "w = JArr zs" by (cases w) auto
  with 6 show ?case by (auto simp: list_all2_conv_all_nth) (metis nth_mem)
next
  case (7 m n)
  from 7 obtain p where w: "w = JObj p" by (cases w) auto
  note mn = 7(2) and np = 7(3) [unfolded w]
  have "\<exists>y. map_of p k = Some y \<and> deep_equal v y" if kv: "(k, v) \<in> set m" for k v
  proof -
    obtain x where x: "map_of n k = Some x" "(k, x) \<in> set n" "deep_equal v x" using deep_equal_field [OF mn kv] by blast
    obtain y where y: "map_of p k = Some y" "deep_equal x y" using deep_equal_field [OF np x(2)] by blast
    show ?thesis using 7(1) [OF kv, of x y] x y by simp
  qed
  with w mn np show ?case by (simp add: deep_equal_object)
qed auto

lemma deep_equal_holds: "deep_equal v w \<Longrightarrow> holds_value v w"
proof (induction v w rule: holds_value.induct)
  case (1 m n)
  then show ?case unfolding holds_object deep_equal_object by fastforce
qed auto

lemma holds_value_trans: "holds_value u v \<Longrightarrow> holds_value v w \<Longrightarrow> holds_value u w"
proof (induction u arbitrary: v w)
  case (JObj m)
  then show ?case
  proof (cases v)
    case v: (JObj n)
    with JObj.prems obtain p where w: "w = JObj p" by (cases w) auto
    note mn = JObj.prems(1) [unfolded v] and np = JObj.prems(2) [unfolded v w]
    have "\<exists>y. map_of p k = Some y \<and> holds_value x y" if kx: "(k, x) \<in> set m" for k x
    proof -
      obtain x' where x': "(k, x') \<in> set n" "holds_value x x'" using holds_field [OF mn kx] by blast
      obtain y where y: "map_of p k = Some y" "holds_value x' y" using holds_field [OF np x'(1)] by blast
      show ?thesis using JObj.IH [OF kx, of x x' y] x' y by auto
    qed
    with w show ?thesis by (simp add: holds_object)
  qed auto
next
  case (JArr xs)
  then show ?case by (cases v) (auto intro: deep_equal_trans [OF deep_equal.simps(6) [THEN iffD2]])
next
  case JNull
  then show ?case by (cases v) auto
next
  case (JBool b)
  then show ?case by (cases v) auto
next
  case (JInt i)
  then show ?case by (cases v) auto
next
  case (JFloat r)
  then show ?case by (cases v) auto
next
  case (JStr s)
  then show ?case by (cases v) auto
qed

lemma holds_trans: "holds a b \<Longrightarrow> holds b c \<Longrightarrow> holds a c"
  unfolding holds_def by (rule holds_value_trans)

text \<open>Symmetry needs maps without repeated keys: they are equal when one is in the other and the sizes agree.\<close>

lemma deep_equal_sym: "deep_equal v w \<Longrightarrow> wf_json v \<Longrightarrow> wf_json w \<Longrightarrow> deep_equal w v"
proof (induction v w rule: deep_equal.induct)
  case (6 xs ys)
  then show ?case by (fastforce simp: list_all2_conv_all_nth list_all_length)
next
  case (7 m n)
  have wf: "wf_rep m" "wf_rep n" using 7(3,4) by simp_all
  have "\<exists>v. map_of m k = Some v \<and> deep_equal w v" if kw: "(k, w) \<in> set n" for k w
  proof -
    obtain v where v: "map_of m k = Some v" "deep_equal v w"
      using deep_equal_lookup [OF 7(2) wf_rep_map_of [OF wf(2) kw] wf] by blast
    then have "(k, v) \<in> set m" by (rule_tac map_of_SomeD)
    then show ?thesis
      using 7(1) [of "(k, v)" w] v wf_rep_map_of [OF wf(2) kw] wf_rep_lookup [OF wf(1) v(1)]
        wf_rep_lookup [OF wf(2) wf_rep_map_of [OF wf(2) kw]] by simp
  qed
  with 7(2) show ?case by (simp add: deep_equal_object)
qed auto

lemma holds_refl: "wf_rep m \<Longrightarrow> holds m m"
  by (simp add: holds_def deep_equal_holds deep_equal_rep_refl)

lemma covered_holds: "covered desired live \<Longrightarrow> wf_rep desired \<Longrightarrow> holds desired live"
proof (induction desired live rule: covered.induct)
  case (2 k v desired live)
  then obtain w where w: "map_of live k = Some w" by (auto split: option.splits)
  have "deep_equal v v" using 2(4) by (simp add: deep_equal_refl)
  then have "holds_value v w"
    using 2 w by (cases v; cases w) (auto simp: holds_def)
  with 2 w show ?case by (auto simp: holds_iff)
qed (simp add: holds_iff)

text \<open>
  \<open>other_fields desired live\<close>: what \<open>live\<close> has that \<open>desired\<close> does not declare, at every depth. Of an
  object that both have, such as the attributes of a client or the configuration of a mapper,
  the entries stay that \<open>desired\<close> does not name.
\<close>

fun other_fields :: "representation \<Rightarrow> representation \<Rightarrow> representation" where
  "other_fields desired [] = []"
| "other_fields desired ((k, v) # live) =
     (case map_of desired k of
        None \<Rightarrow> [(k, v)]
      | Some w \<Rightarrow>
          (case v of
             JObj current \<Rightarrow>
               (case w of JObj nested \<Rightarrow> [(k, JObj (other_fields nested current))] | _ \<Rightarrow> [])
           | _ \<Rightarrow> [])) @ other_fields desired live"

lemma in_other_fields:
  "(k, x) \<in> set (other_fields desired live) \<Longrightarrow>
     map_of desired k = None \<and> (k, x) \<in> set live \<or>
     (\<exists>nested current. map_of desired k = Some (JObj nested) \<and> (k, JObj current) \<in> set live \<and>
        x = JObj (other_fields nested current))"
proof (induction live)
  case (Cons p live)
  obtain a v where p: "p = (a, v)" by (cases p)
  show ?case
  proof (cases "(k, x) \<in> set (other_fields desired live)")
    case True
    then show ?thesis using Cons.IH by (meson list.set_intros(2))
  next
    case False
    with Cons.prems p have "k = a"
      "map_of desired k = None \<and> x = v \<or>
       (\<exists>nested current. map_of desired k = Some (JObj nested) \<and> v = JObj current \<and> x = JObj (other_fields nested current))"
      by (auto split: option.splits json.splits)
    then show ?thesis using p by (metis list.set_intros(1))
  qed
qed simp

lemma other_fields_filtered:
  "other_fields desired (filter (\<lambda>p. P (fst p)) live) = filter (\<lambda>p. P (fst p)) (other_fields desired live)"
  by (induction live) (auto split: option.splits json.splits)

text \<open>
  \<open>declared_over desired old new\<close>: the new representation has everything that is wanted, and
  everything the old one had besides, at every depth.
\<close>

definition declared_over :: "representation \<Rightarrow> representation option \<Rightarrow> representation \<Rightarrow> bool" where
  "declared_over desired old new \<longleftrightarrow>
     holds desired new \<and> pred_option (\<lambda>live. holds (other_fields desired live) new) old"

lemma merge_other_value:
  "wf_json v \<Longrightarrow> v = JObj live \<Longrightarrow> wf_rep desired \<Longrightarrow>
     holds_value (JObj (other_fields desired live)) (JObj (merge_representation live desired))"
proof (induction v arbitrary: live desired)
  case (JObj m)
  have wf: "wf_rep live" using JObj.prems by simp
  have "\<exists>w. map_of (merge_representation live desired) k = Some w \<and> holds_value x w"
    if kx: "(k, x) \<in> set (other_fields desired live)" for k x
  proof -
    obtain v where kv: "(k, v) \<in> set live" and parts: "map_of desired k = None \<and> x = v \<or>
        (\<exists>nested current. map_of desired k = Some (JObj nested) \<and> v = JObj current \<and> x = JObj (other_fields nested current))"
      using in_other_fields [OF kx] by blast
    have v: "map_of live k = Some v" "wf_json v" using wf kv wf_rep_map_of wf_rep_lookup by blast+
    note merged = merge_lookup [of desired live k]
    from parts show ?thesis
    proof (elim disjE exE conjE)
      assume "map_of desired k = None" "x = v"
      then show ?thesis using v merged JObj.prems(3) deep_equal_holds [OF deep_equal_refl [OF v(2)]] by (simp add: wf_rep_iff)
    next
      fix nested current
      assume n: "map_of desired k = Some (JObj nested)" "v = JObj current" "x = JObj (other_fields nested current)"
      have "wf_rep nested" using wf_rep_lookup [OF JObj.prems(3) n(1)] by simp
      then have "holds_value x (JObj (merge_representation current nested))"
        using JObj.IH [of "(k, v)" v current nested] kv JObj.prems(2) v(2) n by simp
      then show ?thesis using v merged JObj.prems(3) n by (simp add: wf_rep_iff merge_value_def)
    qed
  qed
  then show ?case by (simp add: holds_object)
qed simp_all

lemma merge_other_fields:
  assumes "wf_rep live" and "wf_rep desired"
  shows "holds (other_fields desired live) (merge_representation live desired)"
  using merge_other_value [of "JObj live" live desired] assms by (simp add: holds_def)

lemma merged_declared_over:
  assumes "wf_rep live" and "wf_rep desired" and "holds (merge_representation live desired) new"
  shows "declared_over desired (Some live) new"
  using holds_trans [OF covered_holds [OF merge_covers] assms(3)] holds_trans [OF merge_other_fields assms(3)] assms
  by (simp add: declared_over_def)

text \<open>What is left alone already has what is wanted.\<close>

lemma unchanged_declared_over:
  assumes "unchanged live (merge_representation live desired)" and "wf_rep live" and "wf_rep desired"
  shows "declared_over desired (Some live) live"
proof (rule merged_declared_over [OF assms(2,3)])
  show "holds (merge_representation live desired) live"
    using deep_equal_sym [OF assms(1) [unfolded unchanged_def]] assms(2,3) wf_merge
    by (simp add: holds_def deep_equal_holds)
qed

section \<open>A store behind the Admin API\<close>

text \<open>
  A view of what a server holds, as a function of the calls made so far. Only a request to
  Keycloak that is not a read can change it.
\<close>

fun quiet :: "call \<Rightarrow> bool" where
  "quiet (AdminCall base m path body) = (m = GET)"
| "quiet c = True"

lemma sends_quiet: "sends (\<lambda>m path body. False) c \<Longrightarrow> quiet c"
  by (cases c) auto

text \<open>A request that is accepted, with the body of the answer.\<close>

definition replied :: "env \<Rightarrow> trace \<Rightarrow> string \<Rightarrow> http_method \<Rightarrow> string \<Rightarrow> json option \<Rightarrow> string \<Rightarrow> bool" where
  "replied env t base m path body raw \<longleftrightarrow>
     (\<exists>token code status. env_admin env t base m path token body = Answer code status raw \<and> 200 \<le> code \<and> code \<le> 299)"

lemma repliedI:
  "env_admin env t base m path token body = Answer code status raw \<Longrightarrow> \<not> code < 200 \<Longrightarrow> \<not> 299 < code \<Longrightarrow>
     replied env t base m path body raw"
  unfolding replied_def by (metis linorder_not_less)

text \<open>A request that succeeded was the last call, made where the view was \<open>v\<close>.\<close>

definition after_request ::
    "env \<Rightarrow> (trace \<Rightarrow> 'v) \<Rightarrow> 'v \<Rightarrow> http_method \<Rightarrow> string \<Rightarrow> json option \<Rightarrow> (string \<Rightarrow> bool) \<Rightarrow> trace \<Rightarrow> bool" where
  "after_request env view v m path body good t \<longleftrightarrow>
     (\<exists>before base raw. t = before @ [AdminCall base m path body] \<and> view before = v \<and>
        replied env before base m path body raw \<and> good raw)"

locale kept_view =
  fixes env :: env and view :: "trace \<Rightarrow> 'v"
  assumes kept: "quiet c \<Longrightarrow> view (t @ [c]) = view t"
begin

lemma kept_calls: "\<forall>c \<in> set new. quiet c \<Longrightarrow> view (t @ new) = view t"
  by (induction new rule: rev_induct) (simp_all add: kept flip: append_assoc)

lemma triple_quiet: "emits quiet m \<Longrightarrow> triple (\<lambda>t. view t = v) m (\<lambda>r t. view t = v)"
  by (erule triple_calls) (simp add: kept_calls)

lemma triple_request:
  "triple (\<lambda>t. view t = v) (do_request env a m path body)
     (\<lambda>r t. \<forall>x. r = Inr x \<longrightarrow> after_request env view v m path body (\<lambda>raw. raw = x) t)"
  unfolding triple_def
proof (intro allI impI)
  fix s r s' x
  assume start: "view (st_trace s) = v" and run: "run_state (do_request env a m path body) s = (r, s')" and r: "r = Inr x"
  obtain y u where auth: "run_state (authenticate env a) s = (y, u)" by (metis surj_pair)
  have "emits quiet (authenticate env a)" by (rule emits_mono [OF emits_authenticate]) (rule sends_quiet)
  then have u: "view (st_trace u) = v" using start auth kept_calls by (metis emitsD)
  obtain token where y: "y = Inr token" using run auth r by (cases y) (auto simp: do_request_def)
  let ?base = "api_base_url (st_apis u ! a)"
  have "run_state (read_answer a m path (env_admin env (st_trace u) ?base m path token body))
      (record_call (AdminCall ?base m path body) u) = (Inr x, s')"
    using run auth r y by (simp add: do_request_def admin_request_def run_state_bind)
  then have "replied env (st_trace u) ?base m path body x" "st_trace s' = st_trace u @ [AdminCall ?base m path body]"
    by (auto simp: read_answer_def run_state_bind drop_token_def update_api_def intro: repliedI split: http_answer.splits if_splits)
  with u show "after_request env view v m path body (\<lambda>raw. raw = x) (st_trace s')"
    unfolding after_request_def by blast
qed

lemma triple_send:
  "triple (\<lambda>t. view t = v) (do_send env a m path body)
     (\<lambda>r t. \<forall>x. r = Inr x \<longrightarrow> after_request env view v m path body (\<lambda>raw. True) t)"
  unfolding do_send_def
  by (rule triple_try [OF triple_request]) (auto intro!: triple_return simp: after_request_def)

text \<open>A read leaves the view as it was.\<close>

lemma triple_read:
  "triple (\<lambda>t. view t = v) (do_read env a path fallback into)
     (\<lambda>r t. view t = v \<and> (\<forall>x. r = Inr x \<longrightarrow> after_request env view v GET path None (\<lambda>raw.
        if trim_space raw = [] then x = fallback else \<exists>j. env_decode env raw = Inr j \<and> into j = Inr x) t))"
proof -
  have "emits quiet (do_read env a path fallback into)"
    by (rule emits_mono [OF _ sends_quiet]) (auto intro!: emits_intros simp: do_read_def)
  then have "triple (\<lambda>t. view t = v) (do_read env a path fallback into) (\<lambda>r t. view t = v)" by (rule triple_quiet)
  moreover have "triple (\<lambda>t. view t = v) (do_read env a path fallback into)
     (\<lambda>r t. \<forall>x. r = Inr x \<longrightarrow> after_request env view v GET path None (\<lambda>raw.
        if trim_space raw = [] then x = fallback else \<exists>j. env_decode env raw = Inr j \<and> into j = Inr x) t)"
    unfolding do_read_def
    by (rule triple_try [OF triple_request])
      (auto intro!: triple_intros simp: after_request_def)
  ultimately show ?thesis unfolding triple_def by blast
qed

end

section \<open>Answers that list and answers that show\<close>

lemma map_of_filtered: "map_of (filter (\<lambda>p. P (fst p)) m) k = (if P k then map_of m k else None)"
  by (induction m) auto

text \<open>A list answer of objects.\<close>

definition lists_objects :: "env \<Rightarrow> string \<Rightarrow> representation list \<Rightarrow> bool" where
  "lists_objects env raw ms \<longleftrightarrow> trim_space raw \<noteq> [] \<and> env_decode env raw = Inr (JArr (map JObj ms))"

definition shows_one :: "env \<Rightarrow> string \<Rightarrow> representation \<Rightarrow> bool" where
  "shows_one env raw m \<longleftrightarrow> trim_space raw \<noteq> [] \<and> env_decode env raw = Inr (JObj m)"

lemma into_objects: "into_elements (map JObj ms) = Inr ms"
  by (induction ms) (simp_all add: into_representation_def)

lemma listed: "lists_objects env raw ms \<Longrightarrow> env_decode env raw = Inr j \<Longrightarrow> into_representations j = Inr xs \<Longrightarrow> xs = ms"
  by (auto simp: lists_objects_def into_representations_def into_objects)

lemma shown_one: "shows_one env raw m \<Longrightarrow> env_decode env raw = Inr j \<Longrightarrow> into_representation j = Inr x \<Longrightarrow> x = Some m"
  by (auto simp: shows_one_def into_representation_def)

lemma keyed_by_keys: "fst ` set (keyed_by key val reps) = (\<lambda>m. string_value m key) ` set reps"
proof -
  have "fst ` set (fold (\<lambda>rep m. AList.update (string_value rep key) (val rep) m) reps acc)
      = fst ` set acc \<union> (\<lambda>m. string_value m key) ` set reps" for acc
    by (induction reps arbitrary: acc) (simp_all add: dom_update)
  then show ?thesis by (simp add: keyed_by_def)
qed

lemma triple_given: "(Q \<Longrightarrow> triple P m R) \<Longrightarrow> triple (\<lambda>t. P t \<and> Q) m R"
  unfolding triple_def by blast

text \<open>A loop keeps an assertion over the elements it has passed.\<close>

lemma triple_for_each:
  assumes "\<And>x ds acc. x \<in> set xs \<Longrightarrow> triple (I ds acc) (body x acc) (\<lambda>r t. \<forall>y. r = Inr y \<longrightarrow> I (ds @ [x]) y t)"
  shows "triple (I ds acc) (for_each body xs acc) (\<lambda>r t. \<forall>y. r = Inr y \<longrightarrow> I (ds @ xs) y t)"
  using assms
proof (induction xs arbitrary: ds acc)
  case (Cons x xs)
  have "triple (I (ds @ [x]) y) (for_each body xs y) (\<lambda>r t. \<forall>z. r = Inr z \<longrightarrow> I (ds @ x # xs) z t)" for y
    using Cons.IH [of "ds @ [x]" y] Cons.prems by simp
  then show ?case
    unfolding for_each.simps
    by (intro triple_try [OF Cons.prems]) (auto intro: triple_mono)
qed (auto intro: triple_return)

text \<open>The same where the place of an element in the list matters.\<close>

lemma triple_for_each_at:
  assumes "\<And>ds x rest acc. xs = ds @ x # rest \<Longrightarrow>
    triple (I ds acc) (body x acc) (\<lambda>r t. \<forall>y. r = Inr y \<longrightarrow> I (ds @ [x]) y t)"
  shows "triple (I [] acc) (for_each body xs acc) (\<lambda>r t. \<forall>y. r = Inr y \<longrightarrow> I xs y t)"
proof -
  have "triple (\<lambda>t. I ds acc t \<and> ds @ xs' = xs) (for_each body xs' acc)
      (\<lambda>r t. \<forall>y. r = Inr y \<longrightarrow> I (ds @ xs') y t)" for ds xs' acc
  proof (induction xs' arbitrary: ds acc)
    case (Cons x xs')
    show ?case
    proof (rule triple_given)
      assume e: "ds @ x # xs' = xs"
      have "triple (I (ds @ [x]) y) (for_each body xs' y) (\<lambda>r t. \<forall>z. r = Inr z \<longrightarrow> I (ds @ x # xs') z t)" for y
        by (rule triple_mono [OF Cons.IH [of "ds @ [x]" y]]) (simp_all add: e)
      then show "triple (I ds acc) (for_each body (x # xs') acc) (\<lambda>r t. \<forall>z. r = Inr z \<longrightarrow> I (ds @ x # xs') z t)"
        unfolding for_each.simps
        by (intro triple_try [OF assms [OF e [symmetric]]]) (auto intro: triple_mono)
    qed
  qed (auto intro: triple_return)
  from this [where ds = "[]" and xs' = xs and acc = acc] show ?thesis by simp
qed

lemma triple_map:
  "triple P m (\<lambda>r t. P t \<and> (\<forall>x. r = Inr x \<longrightarrow> Q x)) \<Longrightarrow> (\<And>x. Q x \<Longrightarrow> R (f x)) \<Longrightarrow>
     triple P (try_ok m (\<lambda>x. ok (f x))) (\<lambda>r t. P t \<and> (\<forall>y. r = Inr y \<longrightarrow> R y))"
  by (erule triple_try) (auto intro: triple_return)

definition declared_list :: "'a list option \<Rightarrow> 'a list" where
  "declared_list d = (case d of None \<Rightarrow> [] | Some xs \<Rightarrow> xs)"

abbreviation names_of :: "representation list \<Rightarrow> string set" where
  "names_of ms \<equiv> (\<lambda>m. string_value m ''name'') ` set ms"

context kept_view
begin

text \<open>Where the server answers a lookup as the view says, the code works with what it says.\<close>

lemma triple_many:
  assumes "\<And>t base raw. replied env t base GET path None raw \<Longrightarrow> view t = h \<Longrightarrow> \<exists>ms. lists_objects env raw ms \<and> Q ms"
  shows "triple (\<lambda>t. view t = h) (get_many env a path) (\<lambda>r t. view t = h \<and> (\<forall>ms. r = Inr ms \<longrightarrow> Q ms))"
  unfolding get_many_def
proof (rule triple_mono [OF triple_read])
  fix r t
  assume "view t = h \<and> (\<forall>x. r = Inr x \<longrightarrow> after_request env view h GET path None (\<lambda>raw.
      if trim_space raw = [] then x = [] else \<exists>j. env_decode env raw = Inr j \<and> into_representations j = Inr x) t)"
  then show "view t = h \<and> (\<forall>ms. r = Inr ms \<longrightarrow> Q ms)"
    unfolding after_request_def by (metis assms listed lists_objects_def)
qed

lemma triple_one:
  assumes "\<And>t base raw. replied env t base GET path None raw \<Longrightarrow> view t = h \<Longrightarrow> \<exists>m. shows_one env raw m \<and> Q m"
  shows "triple (\<lambda>t. view t = h) (absent_on_404 (get_one env a path))
    (\<lambda>r t. view t = h \<and> (\<forall>m. r = Inr (Some m) \<longrightarrow> Q m))"
proof -
  have "triple (\<lambda>t. view t = h) (get_one env a path) (\<lambda>r t. view t = h \<and> (\<forall>m. r = Inr (Some m) \<longrightarrow> Q m))"
    unfolding get_one_def
  proof (rule triple_mono [OF triple_read])
    fix r t
    assume "view t = h \<and> (\<forall>x. r = Inr x \<longrightarrow> after_request env view h GET path None (\<lambda>raw.
        if trim_space raw = [] then x = None else \<exists>j. env_decode env raw = Inr j \<and> into_representation j = Inr x) t)"
    then show "view t = h \<and> (\<forall>m. r = Inr (Some m) \<longrightarrow> Q m)"
      unfolding after_request_def by (metis assms option.inject shown_one shows_one_def)
  qed
  then show ?thesis
    unfolding absent_on_404_def by (rule triple_attempt) (auto intro!: triple_intros)
qed

lemma triple_at: "(\<And>h. R h \<Longrightarrow> triple (\<lambda>t. view t = h) m Q) \<Longrightarrow> triple (\<lambda>t. R (view t)) m Q"
  unfolding triple_def by blast

end

section \<open>Steps that succeed\<close>

text \<open>Steps that go through for every answer of the outside world they meet.\<close>

named_theorems succeeds_intros

declare succeeds_ok [succeeds_intros] succeeds_try_ok [succeeds_intros]

lemma succeeds_bind [succeeds_intros]: "(\<And>x. succeeds (k x)) \<Longrightarrow> succeeds (State_Monad.bind m k)"
  by (simp add: succeeds_def run_state_bind split: prod.split)

lemma succeeds_wrap [succeeds_intros]: "succeeds m \<Longrightarrow> (\<And>x. succeeds (k x)) \<Longrightarrow> succeeds (try_wrap msg m k)"
  unfolding succeeds_def
proof
  fix s assume "\<forall>s. \<exists>x s'. run_state m s = (Inr x, s')"
  then obtain x t where "run_state m s = (Inr x, t)" by blast
  moreover assume "\<And>x. \<forall>s. \<exists>y s'. run_state (k x) s = (Inr y, s')"
  then obtain y u where "run_state (k x) t = (Inr y, u)" by blast
  ultimately show "\<exists>y s'. run_state (try_wrap msg m k) s = (Inr y, s')" by simp
qed

lemma succeeds_if_cases [succeeds_intros]: "(b \<Longrightarrow> succeeds m) \<Longrightarrow> (\<not> b \<Longrightarrow> succeeds n) \<Longrightarrow> succeeds (if b then m else n)"
  by simp

lemma succeeds_option [succeeds_intros]:
  "(v = None \<Longrightarrow> succeeds m) \<Longrightarrow> (\<And>x. v = Some x \<Longrightarrow> succeeds (k x)) \<Longrightarrow>
     succeeds (case v of None \<Rightarrow> m | Some x \<Rightarrow> k x)"
  by (simp split: option.split)

lemma succeeds_pair [succeeds_intros]:
  "(\<And>x y. v = (x, y) \<Longrightarrow> succeeds (k x y)) \<Longrightarrow> succeeds (case v of (x, y) \<Rightarrow> k x y)"
  by (simp split: prod.split)

text \<open>
  A namespace with a complete admin Secret, in a cluster that answers: looking for the Secret of
  the internal account, which comes first, finds it or finds none.
\<close>

definition has_admin_secret :: "env \<Rightarrow> string \<Rightarrow> bool" where
  "has_admin_secret env ns \<longleftrightarrow>
     (\<forall>t. \<exists>secret. env_get env t secret_gvk ns admin_secret_name = Inr secret \<and>
        secret_value secret admin_secret_username_key \<noteq> [] \<and> secret_value secret admin_secret_password_key \<noteq> []) \<and>
     (\<forall>t e. env_get env t secret_gvk ns internal_admin_secret_name = Inl e \<longrightarrow> is_not_found e)"

lemma bootstrap_credentials_found: "has_admin_secret env ns \<Longrightarrow> succeeds (bootstrap_admin_credentials env ns)"
  unfolding succeeds_def
proof
  fix s :: op_state assume "has_admin_secret env ns"
  then obtain secret where "env_get env (st_trace s) secret_gvk ns admin_secret_name = Inr secret"
    "secret_value secret admin_secret_username_key \<noteq> []" "secret_value secret admin_secret_password_key \<noteq> []"
    unfolding has_admin_secret_def by blast
  then show "\<exists>x s'. run_state (bootstrap_admin_credentials env ns) s = (Inr x, s')"
    by (simp add: bootstrap_admin_credentials_def k8s_get_def Let_def)
qed

lemma internal_credentials_found: "has_admin_secret env ns \<Longrightarrow> succeeds (internal_admin_credentials env ns)"
  unfolding succeeds_def internal_admin_credentials_def k8s_get_def Let_def has_admin_secret_def
  by (auto split: sum.split)

text \<open>Where every login works, the client for a namespace with its Secret is always resolved.\<close>

lemma adopted: "(\<And>a. succeeds (verify_api env a)) \<Longrightarrow> succeeds (adopt_bootstrap env p creds)"
  unfolding adopt_bootstrap_def by (intro succeeds_intros)

lemma bootstrap_resolved:
  assumes "\<And>a. succeeds (verify_api env a)" and "has_admin_secret env (pv_credential_namespace (st_providers s ! p))"
  shows "\<exists>x s'. run_state (get_bootstrap_api env p) s = (Inr x, s')"
proof -
  have "succeeds (try_ok (bootstrap_admin_credentials env (pv_credential_namespace (st_providers s ! p)))
      (\<lambda>creds. case cached_api (st_providers s ! p) creds of
         Some a \<Rightarrow> ok (a, cred_username creds) | None \<Rightarrow> adopt_bootstrap env p creds))"
    by (intro succeeds_intros bootstrap_credentials_found [OF assms(2)] adopted assms(1))
  then show ?thesis by (simp add: get_bootstrap_api_def run_state_bind succeeds_def del: run_try_ok)
qed

lemma client_resolved:
  assumes verified: "\<And>a. succeeds (verify_api env a)"
    and "admin_sound (keycloak_namespace ar) s" and "ar_env ar = env" and "has_admin_secret env ns"
  shows "\<exists>a s'. run_state (resource_admin_api ar ns) s = (Inr a, s')"
proof -
  obtain p u where p: "run_state (provider_for env (keycloak_namespace ar) ns) s = (p, u)" by (metis surj_pair)
  note own = provider_for_own [OF p assms(2)]
  then have ns: "pv_credential_namespace (st_providers u ! p) = ns" by (simp add: config_of_def)
  have sound: "providers_sound u" "p < length (st_providers u)" using own by (simp_all add: admin_sound_def)
  have boot: "\<exists>x s'. run_state (get_bootstrap_api env p) v = (Inr x, s')"
    if "pv_credential_namespace (st_providers v ! p) = ns" for v
    using bootstrap_resolved [OF verified] assms(4) that by simp
  have "\<exists>x s'. run_state (get_admin_api env p) u = (Inr x, s')"
  proof (cases "pv_skip_internal (st_providers u ! p)")
    case True
    then show ?thesis using boot [OF ns] by (simp add: get_admin_api_def run_state_bind)
  next
    case False
    obtain found v where found: "run_state (internal_admin_credentials env ns) u = (Inr found, v)"
      using internal_credentials_found [OF assms(4)] by (rule succeedsE)
    then have v: "st_providers v = st_providers u" "providers_sound v"
      using read_secret_safe [OF disjI1 [OF found] sound(1)] clients_determine [of v u] by (auto simp: step_safe_def)
    show ?thesis
    proof (cases found)
      case None
      then show ?thesis using boot [of v] v ns found False by (simp add: get_admin_api_def run_state_bind)
    next
      case (Some creds)
      obtain answer w where verify: "run_state (verify_internal env p creds) v = (answer, w)" by (metis surj_pair)
      then have "pv_credential_namespace (st_providers w ! p) = ns"
        using verify_internal_safe [OF verify v(2)] sound(2) v(1) ns config_nth [of w v p]
        by (simp add: step_safe_def config_of_def)
      then show ?thesis
        using boot [of w] found Some False ns v verify
        by (cases "cached_api (st_providers u ! p) creds"; cases answer) (simp_all add: get_admin_api_def run_state_bind)
    qed
  qed
  then obtain x s' where "run_state (get_admin_api env p) u = (Inr x, s')" by blast
  with p assms(3) show ?thesis by (cases x) (simp add: resource_admin_api_def run_state_bind)
qed

section \<open>A text form of JSON values\<close>

text \<open>For servers in examples: any text that can be read back.\<close>

instance json :: countable
  by countable_datatype

definition json_text :: "json \<Rightarrow> string" where
  "json_text j = replicate (Suc (to_nat j)) CHR ''x''"

definition text_json :: "string \<Rightarrow> go_err + json" where
  "text_json raw = Inr (from_nat (length raw - 1))"

lemma text_json_text [simp]: "text_json (json_text j) = Inr j"
  by (simp add: text_json_def json_text_def)

lemma json_text_nonempty [simp]: "trim_space (json_text j) \<noteq> []"
  by (simp add: json_text_def trim_space_def trim_left_def is_space_def dropWhile_eq_Nil_conv)

end
