(* ===== verification/Truthful_Status.thy ===== *)
theory Truthful_Status
  imports Keycloak_Store
begin

text \<open>
  What a published status says of Keycloak. The passes over users, clients and realms
  (\<^verbatim>\<open>controllers/keycloakapi_reconciler.go\<close> and the controllers) share their head, the addition of the
  finalizer and the end that publishes Ready. For any view of what Keycloak holds the theory shows
  once that a pass that writes the status Ready leaves the view as its own steps establish it.
\<close>

text \<open>The object a pass works with: the one it read, with the finalizer added when it was missing.\<close>

definition worked_on :: "env \<Rightarrow> string \<Rightarrow> k8s_object \<Rightarrow> k8s_object \<Rightarrow> bool" where
  "worked_on env f found ob \<longleftrightarrow>
     (if has_finalizer f found then ob = found else \<exists>t. env_update env t (with_finalizer f found) = Inr ob)"

text \<open>A status Ready, and the generation a status is about, for the four kinds of resources.\<close>

fun status_of :: "content \<Rightarrow> (service_state \<times> int) option" where
  "status_of (UserContent spec st) = Some (ust_status st, ust_observed_generation st)"
| "status_of (ClientContent spec st) = Some (cst_status st, cst_observed_generation st)"
| "status_of (RealmContent spec st) = Some (rst_status st, rst_observed_generation st)"
| "status_of (FlowContent spec st) = Some (fst_status st, fst_observed_generation st)"
| "status_of c = None"

definition publishes_ready :: "call \<Rightarrow> bool" where
  "publishes_ready c \<longleftrightarrow> (\<exists>ob g. c = K8sUpdateStatus ob \<and> status_of (ob_content ob) = Some (ServiceReady, g))"

definition publishes_ready_for :: "int \<Rightarrow> call \<Rightarrow> bool" where
  "publishes_ready_for g c \<longleftrightarrow> (\<exists>ob. c = K8sUpdateStatus ob \<and> status_of (ob_content ob) = Some (ServiceReady, g))"

abbreviation silent :: "call \<Rightarrow> bool" where
  "silent c \<equiv> \<not> publishes_ready c"

lemma silent_calls [simp]:
  "silent (K8sGet k ns n)" "silent (K8sUpdate ob)" "silent (StoreSecretKey ns n key v)" "silent (DrawRandom m)"
  "silent (AdminCall base m' path body)"
  by (simp_all add: publishes_ready_def)

lemma sends_silent: "sends P c \<Longrightarrow> silent c"
  by (cases c) (auto simp: publishes_ready_def)

lemma reads_quiet: "reads_cluster c \<Longrightarrow> quiet c \<and> silent c"
  by (cases c) (auto simp: publishes_ready_def)

lemma emits_release_silent: "emits silent (release_finalizer env title f ob)"
  unfolding release_finalizer_def k8s_update_def by (auto intro!: emits_intros)

text \<open>The calls of a pass once Keycloak holds what it should: no further write to Keycloak, and Ready for one generation.\<close>

definition closing :: "int \<Rightarrow> call \<Rightarrow> bool" where
  "closing g c \<longleftrightarrow> quiet c \<and> (publishes_ready c \<longrightarrow> publishes_ready_for g c)"

text \<open>A status write of one of the controllers.\<close>

lemma emits_status_write:
  assumes "\<And>ob. status_of (ob_content (f ob)) = Some (state, g)"
  shows "emits (closing g) (write_status env k ns nam f)"
    and "state \<noteq> ServiceReady \<Longrightarrow> emits silent (write_status env k ns nam f)"
  unfolding write_status_def k8s_get_def k8s_update_status_def
  by (auto intro!: emits_intros simp: assms closing_def publishes_ready_def publishes_ready_for_def)

text \<open>What a pass leaves: no positive status, or one that tells the truth.\<close>

definition truthful ::
    "env \<Rightarrow> string \<Rightarrow> k8s_object \<Rightarrow> (k8s_object \<Rightarrow> trace \<Rightarrow> bool) \<Rightarrow> trace \<Rightarrow> trace \<Rightarrow> bool" where
  "truthful env f found established t0 t \<longleftrightarrow>
     only_since silent t0 t \<or>
     (\<exists>ob. worked_on env f found ob \<and>
        only_since (\<lambda>c. publishes_ready c \<longrightarrow> publishes_ready_for (meta_generation (ob_meta ob)) c) t0 t \<and> established ob t)"

lemma truthful_silent: "only_since silent t0 t \<Longrightarrow> truthful env f found established t0 t"
  by (simp add: truthful_def)

lemma triple_silent:
  assumes "emits silent m" and "\<And>t. P t \<Longrightarrow> only_since silent t0 t"
  shows "triple P m (\<lambda>r. truthful env f found established t0)"
  using triple_only [OF assms(1), of t0] assms(2) unfolding triple_def by (blast intro: truthful_silent)

context kept_view
begin

text \<open>Once the view is as it should be, what closes the pass keeps it so.\<close>

lemma triple_closing_kept:
  assumes "worked_on env f found ob" and "emits (closing (meta_generation (ob_meta ob))) m"
    and stays: "\<And>t new. \<forall>c \<in> set new. quiet c \<Longrightarrow> established ob t \<Longrightarrow> established ob (t @ new)"
  shows "triple (\<lambda>t. only_since silent t0 t \<and> established ob t) m (\<lambda>r. truthful env f found established t0)"
  unfolding triple_def
proof (intro allI impI)
  let ?ready = "\<lambda>c. publishes_ready c \<longrightarrow> publishes_ready_for (meta_generation (ob_meta ob)) c"
  fix s r s' assume good: "only_since silent t0 (st_trace s) \<and> established ob (st_trace s)" and run: "run_state m s = (r, s')"
  from emitsD [OF assms(2) run] obtain new where calls: "st_trace s' = st_trace s @ new"
    "\<forall>c \<in> set new. closing (meta_generation (ob_meta ob)) c" .
  then have new: "st_trace s' = st_trace s @ new" "\<forall>c \<in> set new. ?ready c \<and> quiet c" by (simp_all add: closing_def)
  have "only_since ?ready t0 (st_trace s')"
    unfolding new(1) by (rule only_since_append [OF only_since_mono [where C = silent]]) (use good new(2) in auto)
  moreover have "established ob (st_trace s')" unfolding new(1) by (rule stays) (use good new(2) in auto)
  ultimately show "truthful env f found established t0 (st_trace s')"
    using assms(1) unfolding truthful_def by metis
qed

lemma triple_closing:
  assumes "worked_on env f found ob" and "emits (closing (meta_generation (ob_meta ob))) m"
  shows "triple (\<lambda>t. only_since silent t0 t \<and> established ob (view t)) m (\<lambda>r. truthful env f found (\<lambda>ob t. established ob (view t)) t0)"
  by (rule triple_closing_kept [OF assms]) (simp add: kept_calls)

text \<open>\<open>failing_step\<close>: an error is published as Failed, otherwise the pass goes on.\<close>

lemma triple_failing:
  assumes "triple P m R" and "\<And>e t. R (Inl e) t \<Longrightarrow> only_since silent t0 t" and "\<And>msg. emits silent (report ServiceFailed msg)"
    and "\<And>x. triple (R (Inr x)) (k x) (\<lambda>r. truthful env f found established t0)"
  shows "triple P (failing_step ar report m k) (\<lambda>r. truthful env f found established t0)"
  unfolding failing_step_def
  by (rule triple_attempt [OF assms(1)]) (auto intro!: assms triple_silent emits_intros)

lemma triple_ensure:
  assumes "\<And>ob. worked_on env f found ob \<Longrightarrow>
    triple (\<lambda>t. only_since silent t0 t \<and> view t = h) (live ob) (\<lambda>r. truthful env f found established t0)"
  shows "triple (\<lambda>t. only_since silent t0 t \<and> view t = h) (ensure_finalizer env title f found live)
    (\<lambda>r. truthful env f found established t0)"
proof (cases "has_finalizer f found")
  case True
  then show ?thesis using assms by (simp add: ensure_finalizer_def worked_on_def)
next
  case False
  let ?P = "\<lambda>t. only_since silent t0 t \<and> view t = h"
  have "triple ?P (k8s_update env (with_finalizer f found))
      (\<lambda>r t. ?P t \<and> (\<forall>ob. r = Inr ob \<longrightarrow> worked_on env f found ob))"
    unfolding triple_def k8s_update_def
    by (auto simp: kept worked_on_def False intro!: only_since_append)
  then show ?thesis
    unfolding ensure_finalizer_def if_not_P [OF False]
  proof (rule triple_attempt)
    fix ob
    show "triple (\<lambda>t. ?P t \<and> (\<forall>ob'. Inr ob = Inr ob' \<longrightarrow> worked_on env f found ob')) (live ob)
        (\<lambda>r. truthful env f found established t0)"
      using assms [of ob] by (auto simp: triple_def)
  qed (auto intro!: triple_return truthful_silent)
qed

lemma triple_pass:
  assumes "\<And>a ob. worked_on env f found ob \<Longrightarrow>
      triple (\<lambda>t. only_since silent t0 t \<and> view t = h) (live a ob) (\<lambda>r. truthful env f found established t0)"
    and "\<And>a. emits silent (delete a found)"
    and "\<And>state msg. state \<noteq> ServiceReady \<Longrightarrow> emits silent (report found state msg)"
  shows "triple (\<lambda>t. only_since silent t0 t \<and> view t = h)
    (with_admin_api ar title f report
       (\<lambda>ob a. if is_deleting ob then delete a ob else ensure_finalizer env title f ob (live a)) found)
    (\<lambda>r. truthful env f found established t0)"
proof -
  let ?P = "\<lambda>t. only_since silent t0 t \<and> view t = h"
  have "emits (\<lambda>c. quiet c \<and> silent c) (resource_admin_api ar ns')" for ns'
    by (rule emits_mono [OF emits_resolution_reads reads_quiet])
  then have find: "triple ?P (resource_admin_api ar ns') (\<lambda>r. ?P)" for ns'
    by (rule triple_calls) (auto simp: kept_calls intro: only_since_append)
  have failure: "admin_api_failure e ns' = (st, msg) \<Longrightarrow> st \<noteq> ServiceReady" for e ns' st msg
    by (auto simp: admin_api_failure_def split: if_splits)
  show ?thesis
    unfolding with_admin_api_def
    by (rule triple_attempt [OF find])
      (auto intro!: triple_if triple_ensure assms triple_silent emits_intros emits_release_silent dest: failure)
qed

text \<open>From the read of the resource on.\<close>

lemma pass_truthful:
  assumes "env_get env (st_trace s) k ns nam = Inr found"
    and "run_state (fetch_resource env k ns nam (with_admin_api ar title f report
       (\<lambda>ob a. if is_deleting ob then delete a ob else ensure_finalizer env title f ob (live a)))) s = (r, s')"
    and "\<And>a ob. worked_on env f found ob \<Longrightarrow>
      triple (\<lambda>t. only_since silent (st_trace s) t \<and> view t = view (st_trace s)) (live a ob)
        (\<lambda>r. truthful env f found established (st_trace s))"
    and "\<And>a. emits silent (delete a found)"
    and "\<And>state msg. state \<noteq> ServiceReady \<Longrightarrow> emits silent (report found state msg)"
    and "K8sUpdateStatus published \<in> set (new_calls s s')"
    and "status_of (ob_content published) = Some (ServiceReady, g)"
  shows "\<exists>ob. worked_on env f found ob \<and> g = meta_generation (ob_meta ob) \<and> established ob (st_trace s')"
proof -
  let ?t = "st_trace s @ [K8sGet k ns nam]"
  have start: "only_since silent (st_trace s) ?t" "view ?t = view (st_trace s)"
    by (auto simp: kept intro: only_since_append)
  note run = assms(2) [unfolded run_fetched [OF assms(1)]]
  have "truthful env f found established (st_trace s) (st_trace s')"
    by (rule tripleD [OF triple_pass _ run]) (use assms(3-5) start in simp_all)
  moreover from calculation obtain new where new: "st_trace s' = st_trace s @ new" "K8sUpdateStatus published \<in> set new"
    using assms(6) by (auto simp: truthful_def only_since_def new_calls_def)
  ultimately show ?thesis
    using assms(7) unfolding truthful_def only_since_def publishes_ready_def publishes_ready_for_def by fastforce
qed

end

end
