(* ===== verification/Realm_Store.thy ===== *)
theory Realm_Store
  imports Truthful_Status
begin

text \<open>
  The contract of a Keycloak that keeps its realms, against which the synchronisation of a realm
  (\<^verbatim>\<open>internal/keycloak/realmsync.go\<close>) and the controller of KeycloakRealms
  (\<^verbatim>\<open>controllers/keycloakrealm_controller.go\<close>) are shown to implement an update of the store, and
  a server in memory that satisfies it.
\<close>

section \<open>A store of realms\<close>

text \<open>
  What the synchronisation of a realm relies on. A realm that is read is the one that is held; a
  realm that is posted was not held before; and of a realm that is posted or put everything that was
  sent is held afterwards, next to whatever the server adds, and the other realms are as they were.
\<close>

text \<open>The update of the store that a KeycloakRealm asks for, and what the synchronisation reports of it.\<close>

definition realm_declared ::
    "keycloak_realm_spec \<Rightarrow> (string \<Rightarrow> representation option) \<Rightarrow> realm_sync_result \<Rightarrow>
     (string \<Rightarrow> representation option) \<Rightarrow> bool" where
  "realm_declared spec before res after \<longleftrightarrow>
     (\<exists>new. after = before(rs_realm spec \<mapsto> new) \<and>
        declared_over (desired_realm_representation spec) (before (rs_realm spec)) new) \<and>
     (rr_created res \<longleftrightarrow> before (rs_realm spec) = None) \<and> (res = unchanged_realm \<longrightarrow> after = before)"

lemma nonempty_other: "k \<noteq> x \<Longrightarrow> map_of (set_nonempty k v m) x = map_of m x"
  by (simp add: set_nonempty_def map_of_update)

lemma realm_kept_by_events: "map_of (apply_events ev m) ''realm'' = map_of m ''realm''"
  unfolding apply_events_def by (simp add: map_of_update)

lemma realm_kept_by_protection: "map_of (apply_brute_force_protection bf m) ''realm'' = map_of m ''realm''"
  unfolding apply_brute_force_protection_def by (simp add: map_of_update)

lemma realm_kept_by_theme: "map_of (apply_theme t m) ''realm'' = map_of m ''realm''"
  by (cases t) (simp_all add: apply_theme_def nonempty_other)

lemma desired_realm_name: "map_of (desired_realm_representation spec) ''realm'' = Some (JStr (rs_realm spec))"
  by (cases "rs_password_policy spec")
    (simp_all add: desired_realm_representation_def Let_def realm_kept_by_theme realm_kept_by_protection
      realm_kept_by_events nonempty_other map_of_update)

lemma merged_realm_name:
  "string_value (merge_representation live (desired_realm_representation spec)) ''realm'' = rs_realm spec"
  using wf_desired_realm [of spec]
  by (simp add: string_value_def merge_lookup wf_rep_iff desired_realm_name merge_value_def)

locale realm_store = kept_view env held for env and held :: "trace \<Rightarrow> string \<Rightarrow> representation option" +
  assumes read_realm: "replied env t base GET (realm_path nam []) None raw \<Longrightarrow>
      \<exists>m. held t nam = Some m \<and> wf_rep m \<and> trim_space raw \<noteq> [] \<and> env_decode env raw = Inr (JObj m)"
    and put_realm: "replied env t base PUT (realm_path nam []) (Some (JObj m)) raw \<Longrightarrow> string_value m ''realm'' = nam \<Longrightarrow>
      \<exists>new. held (t @ [AdminCall base PUT (realm_path nam []) (Some (JObj m))]) = (held t)(nam \<mapsto> new) \<and> holds m new"
    and post_realm: "replied env t base POST ''/admin/realms'' (Some (JObj m)) raw \<Longrightarrow> string_value m ''realm'' = nam \<Longrightarrow>
      held t nam = None \<and>
      (\<exists>new. held (t @ [AdminCall base POST ''/admin/realms'' (Some (JObj m))]) = (held t)(nam \<mapsto> new) \<and> holds m new)"
begin

lemma triple_get_realm:
  "triple (\<lambda>t. held t = h) (get_realm env a nam)
     (\<lambda>r t. held t = h \<and> (\<forall>live. r = Inr (Some live) \<longrightarrow> h nam = Some live \<and> wf_rep live))"
proof -
  have "triple (\<lambda>t. held t = h) (get_one env a (realm_path nam []))
     (\<lambda>r t. held t = h \<and> (\<forall>live. r = Inr (Some live) \<longrightarrow> h nam = Some live \<and> wf_rep live))"
    unfolding get_one_def
    by (rule triple_mono [OF triple_read])
      (auto simp: after_request_def into_representation_def dest!: read_realm split: if_splits)
  then show ?thesis
    unfolding get_realm_def absent_on_404_def
    by (rule triple_attempt) (auto intro!: triple_intros)
qed

lemma triple_create_realm:
  assumes "string_value m ''realm'' = nam"
  shows "triple (\<lambda>t. held t = h) (create_realm env a m)
    (\<lambda>r t. r = Inr () \<longrightarrow> h nam = None \<and> (\<exists>new. held t = h(nam \<mapsto> new) \<and> holds m new))"
  unfolding create_realm_def
  by (rule triple_mono [OF triple_send]) (auto simp: after_request_def dest!: post_realm [OF _ assms])

lemma triple_update_realm:
  assumes "string_value m ''realm'' = nam"
  shows "triple (\<lambda>t. held t = h) (update_realm env a nam m)
    (\<lambda>r t. r = Inr () \<longrightarrow> (\<exists>new. held t = h(nam \<mapsto> new) \<and> holds m new))"
  unfolding update_realm_def
  by (rule triple_mono [OF triple_send]) (auto simp: after_request_def dest!: put_realm [OF _ assms])

lemma triple_reconcile_realm:
  "triple (\<lambda>t. held t = h) (reconcile_realm env a spec) (\<lambda>r t. \<forall>res. r = Inr res \<longrightarrow> realm_declared spec h res (held t))"
  (is "triple _ _ ?Q")
proof -
  let ?d = "desired_realm_representation spec"
  have create: "triple (\<lambda>t. held t = h) (try_wrap msg (create_realm env a ?d) (\<lambda>_. ok (unchanged_realm\<lparr>rr_created := True\<rparr>))) ?Q" for msg
    by (rule triple_wrap [OF triple_create_realm [where nam = "rs_realm spec"]])
      (auto intro!: triple_return simp: string_value_def desired_realm_name realm_declared_def declared_over_def unchanged_realm_def)
  have update: "triple (\<lambda>t. held t = h) (try_wrap msg (update_realm env a (rs_realm spec) (merge_representation l ?d))
      (\<lambda>_. ok (unchanged_realm\<lparr>rr_updated := True\<rparr>))) ?Q" if "h (rs_realm spec) = Some l" and "wf_rep l" for msg l
    using that
    by (intro triple_wrap [OF triple_update_realm [OF merged_realm_name]])
      (auto intro!: triple_return simp: realm_declared_def unchanged_realm_def
        dest: merged_declared_over [OF _ wf_desired_realm])
  have leave: "triple (\<lambda>t. held t = h) (ok unchanged_realm) ?Q"
    if "h (rs_realm spec) = Some l" and "wf_rep l" and "unchanged l (merge_representation l ?d)" for l
    using unchanged_declared_over [OF that(3,2) wf_desired_realm] that(1)
    by (auto intro!: triple_return exI [of _ l] simp: realm_declared_def unchanged_realm_def fun_upd_idem)
  have found: "triple (\<lambda>t. held t = h \<and> h (rs_realm spec) = Some l \<and> wf_rep l) m ?Q"
    if "h (rs_realm spec) = Some l \<Longrightarrow> wf_rep l \<Longrightarrow> triple (\<lambda>t. held t = h) m ?Q" for l m
    using that by (auto simp: triple_def)
  show ?thesis
    unfolding reconcile_realm_def Let_def
    by (rule triple_wrap [OF triple_get_realm])
      (auto intro!: triple_case_option triple_if create found update leave)
qed

end

text \<open>
  C24. Synchronising a realm implements an update of the store. Against a Keycloak that keeps what it
  accepts, whenever the reconciliation succeeds, the realm of the resource has every declared
  field, at every depth, next to every field it had before that is not declared; no other realm
  has changed; the result says that the realm was created exactly when there was none before; and
  when it reports no change the store is as it was.
\<close>

theorem reconcile_realm_refines:
  assumes "realm_store env held" and "run_state (reconcile_realm env a spec) s = (Inr res, s')"
  shows "realm_declared spec (held (st_trace s)) res (held (st_trace s'))"
  using tripleD [OF realm_store.triple_reconcile_realm [OF assms(1)] refl assms(2)] by blast

section \<open>A Keycloak in memory\<close>

text \<open>
  A server that satisfies the contract: it starts with any realms, creates and changes them as the
  Admin API does, and keeps the fields a change does not mention.
\<close>

type_synonym realms = "string \<Rightarrow> representation option"

definition realm_of_path :: "string \<Rightarrow> string" where
  "realm_of_path path = path_unescape (drop (length ''/admin/realms/'') path)"

lemma realm_of_realm_path [simp]: "realm_of_path (realm_path nam []) = nam"
  by (simp add: realm_of_path_def realm_path_def path_unescape_escape)

text \<open>The realms after a request, if the server accepts it.\<close>

fun accept_realm :: "realms \<Rightarrow> http_method \<Rightarrow> string \<Rightarrow> json option \<Rightarrow> realms option" where
  "accept_realm h PUT path (Some (JObj m)) =
     (let nam = realm_of_path path in
      if path = realm_path nam [] \<and> wf_rep m
      then map_option (\<lambda>live. h(nam \<mapsto> merge_representation live m)) (h nam) else None)"
| "accept_realm h POST path (Some (JObj m)) =
     (let nam = string_value m ''realm'' in
      if path = ''/admin/realms'' \<and> wf_rep m \<and> h nam = None then Some (h(nam \<mapsto> m)) else None)"
| "accept_realm h DELETE path None =
     (let nam = realm_of_path path in
      if path = realm_path nam [] \<and> h nam \<noteq> None then Some (h(nam := None)) else None)"
| "accept_realm h m path body = None"

fun realms_step :: "call \<Rightarrow> realms \<Rightarrow> realms" where
  "realms_step (AdminCall base m path body) h = case_option h id (accept_realm h m path body)"
| "realms_step c h = h"

definition realms_after :: "realms \<Rightarrow> trace \<Rightarrow> realms" where
  "realms_after h t = fold realms_step t h"

definition memory_keycloak ::
    "realms \<Rightarrow> trace \<Rightarrow> string \<Rightarrow> http_method \<Rightarrow> string \<Rightarrow> string \<Rightarrow> json option \<Rightarrow> http_answer" where
  "memory_keycloak h t base m path token body =
     (if m = GET
      then (case realms_after h t (realm_of_path path) of
              None \<Rightarrow> Answer 404 ''404 Not Found'' []
            | Some live \<Rightarrow> if path = realm_path (realm_of_path path) [] then Answer 200 ''200 OK'' (json_text (JObj live))
                          else Answer 404 ''404 Not Found'' [])
      else if accept_realm (realms_after h t) m path body = None then Answer 409 ''409 Conflict'' []
      else Answer 204 ''204 No Content'' [])"

lemma accept_wf:
  "accept_realm h m path body = Some h' \<Longrightarrow> (\<And>n live. h n = Some live \<Longrightarrow> wf_rep live) \<Longrightarrow> h' n = Some live \<Longrightarrow> wf_rep live"
  by (induction h m path body rule: accept_realm.induct)
    (auto simp: Let_def wf_merge split: if_splits option.splits)

lemma realms_wf:
  assumes "\<And>n live. h n = Some live \<Longrightarrow> wf_rep live" and "realms_after h t n = Some live"
  shows "wf_rep live"
proof -
  have "\<forall>n live. realms_after h t n = Some live \<longrightarrow> wf_rep live"
  proof (induction t rule: rev_induct)
    case (snoc c t)
    then show ?case
      by (cases c) (auto simp: realms_after_def split: option.splits dest: accept_wf)
  qed (simp add: realms_after_def assms(1))
  with assms(2) show ?thesis by blast
qed

lemma memory_realm_store:
  assumes "\<And>n live. h n = Some live \<Longrightarrow> wf_rep live"
    and "env_admin env = memory_keycloak h" and "env_decode env = text_json"
  shows "realm_store env (realms_after h)"
proof
  show "realms_after h (t @ [c]) = realms_after h t" if "quiet c" for c t
    using that by (cases c) (auto simp: realms_after_def split: option.split)
  show "\<exists>m. realms_after h t nam = Some m \<and> wf_rep m \<and> trim_space raw \<noteq> [] \<and> env_decode env raw = Inr (JObj m)"
    if "replied env t base GET (realm_path nam []) None raw" for t base nam raw
    using that assms realms_wf [OF assms(1)]
    by (auto simp: replied_def memory_keycloak_def split: option.splits)
next
  fix t base nam m raw
  assume "replied env t base PUT (realm_path nam []) (Some (JObj m)) raw"
  then obtain live where live: "realms_after h t nam = Some live" "wf_rep m"
    using assms(2) by (auto simp: replied_def memory_keycloak_def split: if_splits)
  have "holds m (merge_representation live m)"
    by (rule covered_holds [OF merge_covers [OF live(2)] live(2)])
  with live show "\<exists>new. realms_after h (t @ [AdminCall base PUT (realm_path nam []) (Some (JObj m))])
      = (realms_after h t)(nam \<mapsto> new) \<and> holds m new"
    by (auto simp: realms_after_def)
next
  fix t base nam m raw
  assume "replied env t base POST ''/admin/realms'' (Some (JObj m)) raw" and nam: "string_value m ''realm'' = nam"
  then have "realms_after h t nam = None" "wf_rep m"
    using assms(2) by (auto simp: replied_def memory_keycloak_def split: if_splits)
  with nam show "realms_after h t nam = None \<and>
      (\<exists>new. realms_after h (t @ [AdminCall base POST ''/admin/realms'' (Some (JObj m))])
         = (realms_after h t)(nam \<mapsto> new) \<and> holds m new)"
    by (auto simp: realms_after_def holds_refl)
qed

section \<open>What the status of a KeycloakRealm says of Keycloak\<close>

lemma emits_realm_status:
  "emits (closing (meta_generation meta)) (set_realm_status env ns nam meta st msg)"
  "st \<noteq> ServiceReady \<Longrightarrow> emits silent (set_realm_status env ns nam meta st msg)"
  unfolding set_realm_status_def
  by (rule emits_status_write [where state = st], simp add: with_realm_status_def,
      rule emits_status_write [where state = st], simp_all add: with_realm_status_def)

lemma emits_realm_deletion: "emits silent (delete_realm_resource ar a ob)"
proof -
  have "emits (sends (\<lambda>m path body. True)) (delete_declared_realm env a spec)" for env spec
    unfolding delete_declared_realm_def delete_realm_def Let_def by (auto intro!: emits_intros)
  then have "emits silent (delete_declared_realm env a spec)" for env spec
    by (rule emits_mono) (rule sends_silent)
  then show ?thesis
    unfolding delete_realm_resource_def finish_deletion_def
    by (auto intro!: emits_intros emits_release_silent)
qed

lemma triple_live_realm:
  assumes "realm_store (ar_env ar) held" and "worked_on (ar_env ar) f found ob"
  shows "triple (\<lambda>t. only_since silent t0 t \<and> held t = h) (reconcile_live_realm ar ns nam a ob)
    (\<lambda>r. truthful (ar_env ar) f found (\<lambda>ob t. \<exists>res. realm_declared (realm_spec_of ob) h res (held t)) t0)"
proof -
  have view: "kept_view held" using assms(1) by (rule realm_store.axioms(1))
  have "emits silent (reconcile_realm (ar_env ar) a (realm_spec_of ob))"
    by (rule emits_mono [OF reconcile_realm_writes]) (rule sends_silent)
  note work = triple_conj [OF triple_only [OF this] realm_store.triple_reconcile_realm [OF assms(1)]]
  have "emits (closing (meta_generation (ob_meta ob)))
      (ready_pass ar (set_realm_status (ar_env ar) ns nam (ob_meta ob)) msg)" for msg
    unfolding ready_pass_def by (intro emits_intros emits_realm_status)
  note ready = kept_view.triple_closing [where established = "\<lambda>ob v. \<exists>res. realm_declared (realm_spec_of ob) h res v",
      OF view assms(2) this]
  show ?thesis
    unfolding reconcile_live_realm_def
    by (rule kept_view.triple_failing [OF view work])
      (auto intro!: emits_realm_status triple_mono [OF ready])
qed

text \<open>
  C18. A KeycloakRealm that is published Ready describes the Keycloak behind it. In a pass of the
  controller over a realm resource, whatever the API server, the clock and the Secrets answer,
  when a status Ready is written then the realm in Keycloak now holds every field declared by the
  resource the pass worked with (the one it read, with the finalizer added), its
  undeclared fields and all other realms are as the pass found them, and the status names the
  generation of that resource.
\<close>

theorem ready_realm_is_held:
  assumes "realm_store (ar_env ar) held"
    and "env_get (ar_env ar) (st_trace s) keycloak_realm_gvk ns nam = Inr found"
    and "run_state (reconcile_realm_resource ar ns nam) s = (r, s')"
    and "K8sUpdateStatus published \<in> set (new_calls s s')"
    and "ob_content published = RealmContent spec st" and "rst_status st = ServiceReady"
  shows "\<exists>ob res. worked_on (ar_env ar) keycloak_realm_finalizer found ob \<and>
    rst_observed_generation st = meta_generation (ob_meta ob) \<and>
    realm_declared (realm_spec_of ob) (held (st_trace s)) res (held (st_trace s'))"
proof -
  have view: "kept_view held" using assms(1) by (rule realm_store.axioms(1))
  have ready: "status_of (ob_content published) = Some (ServiceReady, rst_observed_generation st)"
    using assms(5,6) by simp
  show ?thesis
    using kept_view.pass_truthful [OF view assms(2) assms(3) [unfolded reconcile_realm_resource_def]
        triple_live_realm [OF assms(1)] emits_realm_deletion emits_realm_status(2) assms(4) ready]
    by blast
qed

section \<open>A realm becomes Ready\<close>

text \<open>The server answers, and accepts what a client with a token may ask of it.\<close>

definition accepts :: "http_answer \<Rightarrow> bool" where
  "accepts answer \<longleftrightarrow> (\<exists>code status raw. answer = Answer code status raw \<and> 200 \<le> code \<and> code \<le> 299)"

locale serving_store = realm_store +
  assumes gives_token: "\<exists>status raw token expires. env_token env t base user pass = Answer 200 status raw \<and>
      env_decode_token env raw = Inr (token, expires) \<and> token \<noteq> []"
    and answers_absent: "held t nam = None \<Longrightarrow>
      \<exists>status raw. env_admin env t base GET (realm_path nam []) token None = Answer 404 status raw"
    and answers_present: "held t nam = Some live \<Longrightarrow> accepts (env_admin env t base GET (realm_path nam []) token None)"
    and accepts_put: "held t nam = Some live \<Longrightarrow> wf_rep m \<Longrightarrow> string_value m ''realm'' = nam \<Longrightarrow>
      accepts (env_admin env t base PUT (realm_path nam []) token (Some (JObj m)))"
    and accepts_post: "held t nam = None \<Longrightarrow> wf_rep m \<Longrightarrow> string_value m ''realm'' = nam \<Longrightarrow>
      accepts (env_admin env t base POST ''/admin/realms'' token (Some (JObj m)))"
begin

lemma authenticated:
  "\<exists>token u. run_state (authenticate env a) s = (Inr token, u) \<and> held (st_trace u) = held (st_trace s)"
proof -
  have fetch: "\<exists>token u. run_state (fetch_token env a api) v = (Inr token, u)" for api v
    using gives_token [of "st_trace v" "api_base_url api" "api_username api" "api_password api"]
    by (auto simp: fetch_token_def request_token_def accept_token_def store_token_def read_clock_def update_api_def
        run_state_bind)
  have "\<exists>token u. run_state (authenticate env a) s = (Inr token, u)"
    using fetch by (simp add: authenticate_def run_state_bind read_clock_def)
  moreover have "emits quiet (authenticate env a)" by (rule emits_mono [OF emits_authenticate sends_quiet])
  ultimately show ?thesis by (metis emitsD kept_calls)
qed

text \<open>A request goes out where the store is as it was, and its answer decides.\<close>

lemma requested:
  obtains u base token where "held (st_trace u) = held (st_trace s)"
    and "run_state (do_request env a m path body) s =
      run_state (read_answer a m path (env_admin env (st_trace u) base m path token body))
        (record_call (AdminCall base m path body) u)"
proof -
  obtain token u where "run_state (authenticate env a) s = (Inr token, u)" "held (st_trace u) = held (st_trace s)"
    using authenticated by blast
  then show thesis
    by (intro that [of u "api_base_url (st_apis u ! a)" token])
      (simp_all add: do_request_def admin_request_def run_state_bind)
qed

lemma accepted_request:
  assumes "\<And>t base token. held t = held (st_trace s) \<Longrightarrow> accepts (env_admin env t base m path token body)"
  shows "\<exists>raw s'. run_state (do_request env a m path body) s = (Inr raw, s')"
proof -
  obtain u base token where u: "held (st_trace u) = held (st_trace s)"
    and run: "run_state (do_request env a m path body) s =
      run_state (read_answer a m path (env_admin env (st_trace u) base m path token body))
        (record_call (AdminCall base m path body) u)" by (rule requested)
  show ?thesis using assms [OF u, of base token] run by (auto simp: accepts_def read_answer_def)
qed

lemma accepted_send:
  "(\<And>t base token. held t = held (st_trace s) \<Longrightarrow> accepts (env_admin env t base m path token body)) \<Longrightarrow>
     \<exists>s'. run_state (do_send env a m path body) s = (Inr (), s')"
  unfolding do_send_def using accepted_request [of s m path body a] by fastforce

lemma realm_found:
  "\<exists>s'. run_state (get_realm env a nam) s = (Inr (held (st_trace s) nam), s') \<and> held (st_trace s') = held (st_trace s)"
proof (cases "held (st_trace s) nam")
  case None
  obtain u base token where u: "held (st_trace u) = held (st_trace s)"
    and run: "run_state (do_request env a GET (realm_path nam []) None) s =
      run_state (read_answer a GET (realm_path nam []) (env_admin env (st_trace u) base GET (realm_path nam []) token None))
        (record_call (AdminCall base GET (realm_path nam []) None) u)" by (rule requested)
  obtain status raw where "env_admin env (st_trace u) base GET (realm_path nam []) token None = Answer 404 status raw"
    using answers_absent None u by metis
  with run u None show ?thesis
    by (simp add: get_realm_def absent_on_404_def get_one_def do_read_def read_answer_def is_api_not_found_def
        kept)
next
  case (Some live)
  then have "accepts (env_admin env t base GET (realm_path nam []) token None)" if "held t = held (st_trace s)" for t base token
    using that answers_present by simp
  then obtain raw s' where run: "run_state (do_request env a GET (realm_path nam []) None) s = (Inr raw, s')"
    using accepted_request by blast
  have "after_request env held (held (st_trace s)) GET (realm_path nam []) None (\<lambda>x. x = raw) (st_trace s')"
    using tripleD [OF triple_request refl run] by blast
  then have "held (st_trace s') = held (st_trace s)" "env_decode env raw = Inr (JObj live)" "trim_space raw \<noteq> []"
    using Some by (auto simp: after_request_def kept dest!: read_realm)
  with run Some show ?thesis
    by (simp add: get_realm_def absent_on_404_def get_one_def do_read_def into_representation_def)
qed

lemma realm_reconciled: "\<exists>res s'. run_state (reconcile_realm env a spec) s = (Inr res, s')"
proof -
  let ?d = "desired_realm_representation spec" and ?nam = "rs_realm spec"
  obtain u where get: "run_state (get_realm env a ?nam) s = (Inr (held (st_trace s) ?nam), u)"
    and u: "held (st_trace u) = held (st_trace s)" using realm_found by blast
  show ?thesis
  proof (cases "held (st_trace s) ?nam")
    case None
    have "\<exists>s'. run_state (create_realm env a ?d) u = (Inr (), s')"
      unfolding create_realm_def
      by (rule accepted_send) (rule accepts_post, simp_all add: u None wf_desired_realm string_value_def desired_realm_name)
    then obtain s' where "run_state (create_realm env a ?d) u = (Inr (), s')" ..
    with get [unfolded None] show ?thesis by (simp add: reconcile_realm_def Let_def)
  next
    case (Some live)
    have "wf_rep live" using tripleD [OF triple_get_realm refl get] Some by simp
    then have "\<exists>s'. run_state (update_realm env a ?nam (merge_representation live ?d)) u = (Inr (), s')"
      unfolding update_realm_def
      by (intro accepted_send accepts_put [of _ _ live])
        (simp_all add: u Some wf_merge wf_desired_realm merged_realm_name)
    then obtain s' where "run_state (update_realm env a ?nam (merge_representation live ?d)) u = (Inr (), s')" ..
    with get [unfolded Some] show ?thesis by (simp add: reconcile_realm_def Let_def)
  qed
qed

lemma verified: "succeeds (verify_api env a)"
  unfolding verify_api_def by (intro succeeds_intros) (use authenticated in \<open>fastforce simp: succeeds_def\<close>)

end

text \<open>
  An API server that takes the finalizer, and answers with the object it stored: its content is
  the one that was sent, and a change of metadata does not count as a new generation.
\<close>

definition takes_finalizer :: "env \<Rightarrow> string \<Rightarrow> k8s_object \<Rightarrow> bool" where
  "takes_finalizer env f ob \<longleftrightarrow>
     (\<forall>t. \<exists>w. env_update env t (with_finalizer f ob) = Inr w \<and> ob_content w = ob_content ob \<and>
        meta_generation (ob_meta w) = meta_generation (ob_meta ob))"

lemma finalizer_ensured:
  assumes "\<not> has_finalizer f ob \<Longrightarrow> takes_finalizer env f ob"
  obtains w u' fin where "\<forall>title k. run_state (ensure_finalizer env title f ob k) u = run_state (k w) u'"
    and "st_trace u' = st_trace u @ fin"
    and "fin = (if has_finalizer f ob then [] else [K8sUpdate (with_finalizer f ob)])"
    and "ob_content w = ob_content ob" and "meta_generation (ob_meta w) = meta_generation (ob_meta ob)"
proof (cases "has_finalizer f ob")
  case True
  then show thesis by (intro that [of ob u "[]"]) (simp_all add: ensure_finalizer_def)
next
  case False
  then obtain w where w: "env_update env (st_trace u) (with_finalizer f ob) = Inr w" "ob_content w = ob_content ob"
      "meta_generation (ob_meta w) = meta_generation (ob_meta ob)"
    using assms unfolding takes_finalizer_def by blast
  with False show thesis
    by (intro that [of w "record_call (K8sUpdate (with_finalizer f ob)) u" "[K8sUpdate (with_finalizer f ob)]"])
      (simp_all add: ensure_finalizer_def k8s_update_def)
qed

lemma realm_publishes_ready:
  assumes "serving_store (ar_env ar) held" and "admin_reachable (ar_env ar) (keycloak_namespace ar) s"
    and "env_get (ar_env ar) (st_trace s) keycloak_realm_gvk ns nam = Inr ob" and "\<not> is_deleting ob"
    and "\<not> has_finalizer keycloak_realm_finalizer ob \<Longrightarrow> takes_finalizer (ar_env ar) keycloak_realm_finalizer ob"
    and "has_admin_secret (ar_env ar) (meta_namespace (ob_meta ob))"
    and "takes_status (ar_env ar) keycloak_realm_gvk ns nam"
  shows "\<exists>s' published spec st res.
    run_state (reconcile_realm_resource ar ns nam) s = ((api_reconciliation_requeue ar, None), s') \<and>
    (has_finalizer keycloak_realm_finalizer ob \<or>
     K8sUpdate (with_finalizer keycloak_realm_finalizer ob) \<in> set (new_calls s s')) \<and>
    K8sUpdateStatus published \<in> set (new_calls s s') \<and>
    ob_content published = RealmContent spec st \<and> rst_status st = ServiceReady \<and>
    rst_observed_generation st = meta_generation (ob_meta ob) \<and>
    realm_declared (realm_spec_of ob) (held (st_trace s)) res (held (st_trace s'))"
proof -
  let ?env = "ar_env ar" and ?s = "record_call (K8sGet keycloak_realm_gvk ns nam) s"
  have store: "realm_store ?env held" using assms(1) by (rule serving_store.axioms(1))
  note kept = kept_view.kept_calls [OF realm_store.axioms(1) [OF store]]
  have "admin_sound (keycloak_namespace ar) ?s"
    using admin_reachable_sound_aux [OF assms(2)] by (rule admin_sound_clients) simp
  then obtain a u where a: "run_state (resource_admin_api ar (meta_namespace (ob_meta ob))) ?s = (Inr a, u)"
    using client_resolved [OF serving_store.verified [OF assms(1)] _ refl assms(6)] by blast
  obtain before where before: "st_trace u = st_trace ?s @ before" "\<forall>c \<in> set before. reads_cluster c"
    using emitsD [OF emits_resolution_reads a] by blast
  obtain w u' fin where w: "\<forall>title k. run_state (ensure_finalizer ?env title keycloak_realm_finalizer ob k) u = run_state (k w) u'"
    and fin: "st_trace u' = st_trace u @ fin"
      "fin = (if has_finalizer keycloak_realm_finalizer ob then [] else [K8sUpdate (with_finalizer keycloak_realm_finalizer ob)])"
    and same: "ob_content w = ob_content ob" "meta_generation (ob_meta w) = meta_generation (ob_meta ob)"
    by (rule finalizer_ensured [OF assms(5), where u = u])
  have spec: "realm_spec_of w = realm_spec_of ob" using same(1) by (simp add: realm_spec_of_def)
  have u: "held (st_trace u') = held (st_trace s)"
    using kept [of "K8sGet keycloak_realm_gvk ns nam # before @ fin" "st_trace s"] before fin reads_quiet by auto
  obtain res v where v: "run_state (reconcile_realm ?env a (realm_spec_of ob)) u' = (Inr res, v)"
    using serving_store.realm_reconciled [OF assms(1)] by blast
  have declared: "realm_declared (realm_spec_of ob) (held (st_trace s)) res (held (st_trace v))"
    using tripleD [OF realm_store.triple_reconcile_realm [OF store] u v] by blast
  obtain later where later: "st_trace v = st_trace u' @ later" using emitted [OF reconcile_realm_writes v] ..
  let ?status = "with_realm_status \<lparr>rst_status = ServiceReady, rst_message = ''Keycloak realm is reconciled'',
      rst_observed_generation = meta_generation (ob_meta ob)\<rparr>"
  obtain current s' where s': "run_state (write_status ?env keycloak_realm_gvk ns nam ?status) v = ((), s')"
    "st_trace s' = st_trace v @ [K8sGet keycloak_realm_gvk ns nam, K8sUpdateStatus (?status current)]"
    by (rule status_written [OF assms(7)])
  have "run_state (reconcile_live_realm ar ns nam a w) u' = ((api_reconciliation_requeue ar, None), s')"
    using v s'(1) same(2)
    by (simp add: spec reconcile_live_realm_def failing_step_def ready_pass_def set_realm_status_def run_state_bind)
  then have "run_state (reconcile_realm_resource ar ns nam) s = ((api_reconciliation_requeue ar, None), s')"
    using a assms(4)
    by (simp add: reconcile_realm_resource_def run_fetched [OF assms(3)] with_admin_api_def w [rule_format])
  moreover have "held (st_trace s') = held (st_trace v)"
    unfolding s'(2) by (rule kept) simp
  moreover have "K8sUpdateStatus (?status current) \<in> set (new_calls s s')"
    using before(1) later fin(1) s'(2) by (simp add: new_calls_def)
  moreover have "has_finalizer keycloak_realm_finalizer ob \<or>
      K8sUpdate (with_finalizer keycloak_realm_finalizer ob) \<in> set (new_calls s s')"
    using before(1) later fin s'(2) by (simp add: new_calls_def)
  moreover have "ob_content (?status current) = RealmContent (realm_spec_of current)
      \<lparr>rst_status = ServiceReady, rst_message = ''Keycloak realm is reconciled'',
       rst_observed_generation = meta_generation (ob_meta ob)\<rparr>"
    by (simp add: with_realm_status_def)
  ultimately show ?thesis using declared by (metis keycloak_realm_status.select_convs(1,3))
qed

text \<open>
  C19. A KeycloakRealm becomes Ready, in its first pass already. With a Keycloak that serves the
  Admin API and keeps what it accepts, an admin Secret in the namespace of the resource and an API
  server that answers and takes the finalizer where it is missing, a pass over a living realm
  resource, in any state the program can reach, ends without an error and comes back after the
  regular interval, has put its finalizer on a resource without one, has written the status
  Ready for the generation it found, and leaves in Keycloak a realm with everything the resource
  declares.
\<close>

theorem realm_reaches_ready:
  assumes "serving_store (ar_env ar) held" and "admin_reachable (ar_env ar) (keycloak_namespace ar) s"
    and "env_get (ar_env ar) (st_trace s) keycloak_realm_gvk ns nam = Inr ob" and "\<not> is_deleting ob"
    and "\<not> has_finalizer keycloak_realm_finalizer ob \<Longrightarrow> takes_finalizer (ar_env ar) keycloak_realm_finalizer ob"
    and "has_admin_secret (ar_env ar) (meta_namespace (ob_meta ob))"
    and "takes_status (ar_env ar) keycloak_realm_gvk ns nam"
  shows "\<exists>s' published spec st res.
    run_state (reconcile_realm_resource ar ns nam) s = ((api_reconciliation_requeue ar, None), s') \<and>
    (has_finalizer keycloak_realm_finalizer ob \<or>
     K8sUpdate (with_finalizer keycloak_realm_finalizer ob) \<in> set (new_calls s s')) \<and>
    K8sUpdateStatus published \<in> set (new_calls s s') \<and>
    ob_content published = RealmContent spec st \<and> rst_status st = ServiceReady \<and>
    rst_observed_generation st = meta_generation (ob_meta ob) \<and>
    realm_declared (realm_spec_of ob) (held (st_trace s)) res (held (st_trace s'))"
  by (rule realm_publishes_ready [OF assms(1-4) _ assms(6,7)]) (rule assms(5))

section \<open>Examples\<close>

lemma memory_serving_store:
  assumes "\<And>n live. h n = Some live \<Longrightarrow> wf_rep live"
    and "env_admin env = memory_keycloak h" and "env_decode env = text_json"
    and "env_token env = (\<lambda>t base user pass. Answer 200 ''200 OK'' ''token'')"
    and "env_decode_token env = (\<lambda>raw. Inr (''token'', 60))"
  shows "serving_store env (realms_after h)"
proof (intro serving_store.intro memory_realm_store serving_store_axioms.intro)
  show "accepts (env_admin env t base POST ''/admin/realms'' token (Some (JObj m)))"
    if "realms_after h t nam = None" "wf_rep m" "string_value m ''realm'' = nam" for t nam m base token
    using that assms(2) by (simp add: accepts_def memory_keycloak_def)
qed (simp_all add: assms accepts_def memory_keycloak_def)

text \<open>A Keycloak that has no realm yet, in a cluster with given objects.\<close>

definition fresh_keycloak :: "(gvk \<Rightarrow> string \<Rightarrow> string \<Rightarrow> go_err + k8s_object) \<Rightarrow> env" where
  "fresh_keycloak cluster = (memory_env [] (memory_keycloak Map.empty) text_json)\<lparr>env_get := (\<lambda>t. cluster)\<rparr>"

interpretation fresh: serving_store "fresh_keycloak cluster" "realms_after Map.empty" for cluster
  by (rule memory_serving_store) (simp_all add: fresh_keycloak_def memory_env_def)

definition team_secret :: k8s_object where
  "team_secret = new_object secret_gvk ''team'' admin_secret_name
     (SecretData (Some [(''username'', ''alice''), (''password'', ''pw'')]))"

definition team_realm :: k8s_object where
  "team_realm = with_finalizer keycloak_realm_finalizer
     (new_object keycloak_realm_gvk ''team'' ''main'' (RealmContent sample_realm new_realm_status))"

fun team_cluster :: "gvk \<Rightarrow> string \<Rightarrow> string \<Rightarrow> go_err + k8s_object" where
  "team_cluster k ns n =
     (if k = keycloak_realm_gvk then Inr team_realm
      else if k = secret_gvk \<and> n = admin_secret_name then Inr team_secret
      else Inl (K8sErr NotFound ''not found''))"

definition team_reconciler :: api_reconciler where
  "team_reconciler = (sample_api_reconciler [])\<lparr>ar_env := fresh_keycloak team_cluster\<rparr>"

lemma team_facts [simp]:
  "ar_env team_reconciler = fresh_keycloak team_cluster"
  "env_get (fresh_keycloak cluster) t = cluster"
  "env_update_status (fresh_keycloak cluster) t ob = Inr ob"
  "has_finalizer keycloak_realm_finalizer team_realm" "\<not> is_deleting team_realm"
  "realm_spec_of team_realm = sample_realm" "meta_namespace (ob_meta team_realm) = ''team''"
  by (simp_all add: team_reconciler_def fresh_keycloak_def memory_env_def team_realm_def with_finalizer_def
      set_finalizers_def has_finalizer_def is_deleting_def new_meta_def realm_spec_of_def)

lemma team_secret_readable: "has_admin_secret (fresh_keycloak team_cluster) ns"
  by (auto simp: has_admin_secret_def team_secret_def secret_value_def secret_data_def admin_secret_username_key_def
      admin_secret_password_key_def admin_secret_name_def internal_admin_secret_name_def secret_gvk_def
      keycloak_realm_gvk_def)

lemma team_takes_status: "takes_status (fresh_keycloak team_cluster) keycloak_realm_gvk ns nam"
  by (simp add: takes_status_def)

theorem reconcile_realm_refines_witness:
  "\<exists>res s'. run_state (reconcile_realm (fresh_keycloak team_cluster) 0 sample_realm) one_api = (Inr res, s') \<and>
     realm_declared sample_realm (realms_after Map.empty (st_trace one_api)) res (realms_after Map.empty (st_trace s'))"
proof -
  obtain res s' where run: "run_state (reconcile_realm (fresh_keycloak team_cluster) 0 sample_realm) one_api = (Inr res, s')"
    using fresh.realm_reconciled by blast
  with reconcile_realm_refines [OF fresh.realm_store_axioms run] show ?thesis by blast
qed

text \<open>A resource that was just created: no pass has put the finalizer on it yet.\<close>

definition new_team_realm :: k8s_object where
  "new_team_realm = new_object keycloak_realm_gvk ''team'' ''main'' (RealmContent sample_realm new_realm_status)"

definition new_team_reconciler :: api_reconciler where
  "new_team_reconciler = (sample_api_reconciler [])\<lparr>ar_env := fresh_keycloak
     (\<lambda>k ns n. if k = keycloak_realm_gvk then Inr new_team_realm else team_cluster k ns n)\<rparr>"

theorem realm_reaches_ready_witness:
  "\<exists>s' published spec st res.
     run_state (reconcile_realm_resource new_team_reconciler ''team'' ''main'') initial_state
       = ((api_reconciliation_requeue new_team_reconciler, None), s') \<and>
     K8sUpdate (with_finalizer keycloak_realm_finalizer new_team_realm) \<in> set (new_calls initial_state s') \<and>
     K8sUpdateStatus published \<in> set (new_calls initial_state s') \<and>
     ob_content published = RealmContent spec st \<and> rst_status st = ServiceReady \<and>
     realm_declared sample_realm Map.empty res (realms_after Map.empty (st_trace s'))"
proof -
  let ?cluster = "\<lambda>k ns n. if k = keycloak_realm_gvk then Inr new_team_realm else team_cluster k ns n"
  have env: "ar_env new_team_reconciler = fresh_keycloak ?cluster" by (simp add: new_team_reconciler_def)
  have serving: "serving_store (ar_env new_team_reconciler) (realms_after Map.empty)"
    unfolding env by (rule fresh.serving_store_axioms)
  have found: "env_get (ar_env new_team_reconciler) (st_trace initial_state) keycloak_realm_gvk ''team'' ''main'' = Inr new_team_realm"
    by (simp add: env)
  have plain: "\<not> is_deleting new_team_realm" "\<not> has_finalizer keycloak_realm_finalizer new_team_realm"
      "realm_spec_of new_team_realm = sample_realm"
    by (simp_all add: new_team_realm_def is_deleting_def has_finalizer_def new_object_def new_meta_def realm_spec_of_def)
  have "takes_finalizer (ar_env new_team_reconciler) keycloak_realm_finalizer new_team_realm"
    by (simp add: env takes_finalizer_def fresh_keycloak_def memory_env_def with_finalizer_def set_finalizers_def)
  moreover have "has_admin_secret (ar_env new_team_reconciler) ns" for ns
    using team_secret_readable [of ns] by (auto simp: env has_admin_secret_def secret_gvk_def keycloak_realm_gvk_def)
  moreover have "takes_status (ar_env new_team_reconciler) keycloak_realm_gvk ns nam" for ns nam
    by (simp add: env takes_status_def)
  ultimately obtain s' published spec st res where
    "run_state (reconcile_realm_resource new_team_reconciler ''team'' ''main'') initial_state
       = ((api_reconciliation_requeue new_team_reconciler, None), s')"
    "has_finalizer keycloak_realm_finalizer new_team_realm \<or>
       K8sUpdate (with_finalizer keycloak_realm_finalizer new_team_realm) \<in> set (new_calls initial_state s')"
    "K8sUpdateStatus published \<in> set (new_calls initial_state s')"
    "ob_content published = RealmContent spec st" "rst_status st = ServiceReady"
    "realm_declared (realm_spec_of new_team_realm) (realms_after Map.empty (st_trace initial_state)) res
       (realms_after Map.empty (st_trace s'))"
    using realm_reaches_ready [OF serving admin_reachable.start found plain(1)] by blast
  moreover have "realms_after Map.empty (st_trace initial_state) = Map.empty"
    by (simp add: realms_after_def initial_state_def)
  ultimately show ?thesis using plain by auto
qed

text \<open>The same pass shows that a positive status occurs, so what it says is not empty.\<close>

theorem ready_realm_is_held_witness:
  "\<exists>s' published spec st ob res.
     K8sUpdateStatus published \<in> set (new_calls initial_state s') \<and> ob_content published = RealmContent spec st \<and>
     rst_status st = ServiceReady \<and> worked_on (fresh_keycloak team_cluster) keycloak_realm_finalizer team_realm ob \<and>
     rst_observed_generation st = meta_generation (ob_meta ob) \<and>
     realm_declared (realm_spec_of ob) Map.empty res (realms_after Map.empty (st_trace s'))"
proof -
  have start: "realms_after Map.empty (st_trace initial_state) = Map.empty"
    by (simp add: realms_after_def initial_state_def)
  have serving: "serving_store (ar_env team_reconciler) (realms_after Map.empty)"
    using fresh.serving_store_axioms by simp
  have store: "realm_store (ar_env team_reconciler) (realms_after Map.empty)"
    using fresh.realm_store_axioms by simp
  have found: "env_get (ar_env team_reconciler) (st_trace initial_state) keycloak_realm_gvk ''team'' ''main'' = Inr team_realm"
    by simp
  obtain s' published spec st where run: "run_state (reconcile_realm_resource team_reconciler ''team'' ''main'') initial_state
        = ((api_reconciliation_requeue team_reconciler, None), s')"
    and ready: "K8sUpdateStatus published \<in> set (new_calls initial_state s')"
      "ob_content published = RealmContent spec st" "rst_status st = ServiceReady"
    using realm_publishes_ready [OF serving admin_reachable.start found] team_secret_readable team_takes_status
    by (metis team_facts(1,4,5))
  from ready_realm_is_held [OF store found run ready] ready show ?thesis
    unfolding start team_facts(1) by metis
qed

end
