(* ===== verification/Memory_Server.thy ===== *)
theory Memory_Server
  imports Keycloak_Store
begin

text \<open>
  Servers in memory, for examples: a state, what it shows under a path, and the writes it accepts.
  The theory has the Admin API of such a server, and what the requests of the operator
  (\<^verbatim>\<open>internal/keycloak/admin.go\<close>) do to it.
\<close>

record 's server =
  sv_start :: 's
  sv_read :: "'s \<Rightarrow> string \<Rightarrow> json option"
  sv_accept :: "'s \<Rightarrow> http_method \<Rightarrow> string \<Rightarrow> json option \<Rightarrow> 's option"

fun serve :: "'s server \<Rightarrow> call \<Rightarrow> 's \<Rightarrow> 's" where
  "serve sv (AdminCall base m path body) st =
     (if m = GET then st else (case sv_accept sv st m path body of None \<Rightarrow> st | Some st' \<Rightarrow> st'))"
| "serve sv c st = st"

definition state_after :: "'s server \<Rightarrow> trace \<Rightarrow> 's" where
  "state_after sv t = fold (serve sv) t (sv_start sv)"

definition server_answer ::
    "'s server \<Rightarrow> trace \<Rightarrow> string \<Rightarrow> http_method \<Rightarrow> string \<Rightarrow> string \<Rightarrow> json option \<Rightarrow> http_answer" where
  "server_answer sv t base m path token body =
     (if m = GET
      then (case sv_read sv (state_after sv t) path of
              None \<Rightarrow> Answer 404 ''404 Not Found'' [] | Some j \<Rightarrow> Answer 200 ''200 OK'' (json_text j))
      else if sv_accept sv (state_after sv t) m path body = None then Answer 409 ''409 Conflict'' []
      else Answer 204 ''204 No Content'' [])"

definition served_env :: "'s server \<Rightarrow> (gvk \<Rightarrow> string \<Rightarrow> string \<Rightarrow> go_err + k8s_object) \<Rightarrow> env" where
  "served_env sv cluster = (memory_env [] (server_answer sv) text_json)\<lparr>env_get := (\<lambda>t. cluster)\<rparr>"

definition state_in :: "'s server \<Rightarrow> op_state \<Rightarrow> 's" where
  "state_in sv s = state_after sv (st_trace s)"

lemma served_env_simps [simp]:
  "env_admin (served_env sv cluster) = server_answer sv" "env_decode (served_env sv cluster) = text_json"
  "env_token (served_env sv cluster) = (\<lambda>t base user pass. Answer 200 ''200 OK'' ''token'')"
  "env_decode_token (served_env sv cluster) = (\<lambda>raw. Inr (''token'', 60))"
  "env_get (served_env sv cluster) t = cluster" "env_update_status (served_env sv cluster) t ob = Inr ob"
  by (simp_all add: served_env_def memory_env_def)

definition objects :: "representation list \<Rightarrow> json" where
  "objects ms = JArr (map JObj ms)"

lemma state_start [simp]: "state_after sv [] = sv_start sv"
  by (simp add: state_after_def)

text \<open>An invariant of the states.\<close>

lemma state_invariant:
  assumes "P (sv_start sv)" and "\<And>st m path body st'. P st \<Longrightarrow> sv_accept sv st m path body = Some st' \<Longrightarrow> P st'"
  shows "P (state_after sv t)"
proof (induction t rule: rev_induct)
  case (snoc c t)
  then show ?case by (cases c) (auto simp: state_after_def split: option.split intro: assms(2))
qed (simp add: assms(1))

lemma state_quiet: "quiet c \<Longrightarrow> state_after sv (t @ [c]) = state_after sv t"
  by (cases c) (auto simp: state_after_def)

text \<open>An accepted request is the last step of the server.\<close>

lemma served_written:
  assumes "replied (served_env sv cluster) t base m path body raw" and "m \<noteq> GET"
  shows "sv_accept sv (state_after sv t) m path body = Some (state_after sv (t @ [AdminCall base m path body]))"
  using assms by (auto simp: replied_def server_answer_def state_after_def split: if_splits)

lemma served_shown:
  assumes "replied (served_env sv cluster) t base GET path None raw"
  shows "\<exists>j. sv_read sv (state_after sv t) path = Some j \<and> raw = json_text j"
  using assms by (auto simp: replied_def server_answer_def split: option.splits)

lemma shown_lists:
  "lists_objects (served_env sv cluster) (json_text (objects ms)) ms"
  "shows_one (served_env sv cluster) (json_text (JObj m)) m"
  by (simp_all add: lists_objects_def shows_one_def objects_def)

lemma reads_quiet_only: "reads_cluster c \<Longrightarrow> quiet c"
  by (cases c) auto

section \<open>Requests to a server in memory\<close>

lemma states_quiet: "\<forall>c \<in> set new. quiet c \<Longrightarrow> state_after sv (t @ new) = state_after sv t"
  by (induction new rule: rev_induct) (simp_all add: state_quiet flip: append_assoc)

lemma served_authenticated:
  "\<exists>token u. run_state (authenticate (served_env sv cluster) a) s = (Inr token, u) \<and> state_in sv u = state_in sv s"
proof -
  let ?env = "served_env sv cluster"
  have "\<exists>token u. run_state (authenticate ?env a) s = (Inr token, u)"
    by (simp add: authenticate_def fetch_token_def request_token_def accept_token_def store_token_def read_clock_def
        run_state_bind)
  then obtain token u where run: "run_state (authenticate ?env a) s = (Inr token, u)" by blast
  have "emits quiet (authenticate ?env a)" by (rule emits_mono [OF emits_authenticate]) (rule sends_quiet)
  from emitsD [OF this run] obtain new where new: "st_trace u = st_trace s @ new" "\<forall>c \<in> set new. quiet c" by blast
  with run states_quiet [OF new(2)] show ?thesis by (simp add: state_in_def)
qed

lemma served_requested:
  "\<exists>u base token. state_in sv u = state_in sv s \<and>
     run_state (do_request (served_env sv cluster) a m path body) s =
       run_state (read_answer a m path (server_answer sv (st_trace u) base m path token body))
         (record_call (AdminCall base m path body) u)"
proof -
  obtain token u where "run_state (authenticate (served_env sv cluster) a) s = (Inr token, u)"
    "state_in sv u = state_in sv s" using served_authenticated by blast
  then show ?thesis
    by (intro exI [of _ u] exI [of _ "api_base_url (st_apis u ! a)"] exI [of _ token])
      (simp add: do_request_def admin_request_def run_state_bind)
qed

lemma served_reads:
  assumes "state_in sv s = st" and "sv_read sv st path = Some j"
  shows "\<exists>s'. run_state (do_request (served_env sv cluster) a GET path None) s = (Inr (json_text j), s') \<and>
    state_in sv s' = st"
  using served_requested [of sv s cluster a GET path None] assms
  by (auto simp: server_answer_def read_answer_def state_in_def state_after_def)

lemma served_sends:
  assumes "state_in sv s = st" and "sv_accept sv st m path body = Some st'" and "m \<noteq> GET"
  shows "\<exists>s'. run_state (do_send (served_env sv cluster) a m path body) s = (Inr (), s') \<and> state_in sv s' = st'"
  using served_requested [of sv s cluster a m path body] assms
  by (auto simp: do_send_def server_answer_def read_answer_def state_in_def state_after_def)

lemma served_many:
  assumes "state_in sv s = st" and "sv_read sv st path = Some (objects ms)"
  shows "\<exists>s'. run_state (get_many (served_env sv cluster) a path) s = (Inr ms, s') \<and> state_in sv s' = st"
  using served_reads [OF assms, of cluster a]
  by (auto simp: get_many_def do_read_def objects_def into_representations_def into_objects)

lemma served_one:
  assumes "state_in sv s = st" and "sv_read sv st path = Some (JObj m)"
  shows "\<exists>s'. run_state (absent_on_404 (get_one (served_env sv cluster) a path)) s = (Inr (Some m), s') \<and> state_in sv s' = st"
  using served_reads [OF assms, of cluster a]
  by (auto simp: get_one_def do_read_def into_representation_def absent_on_404_def)

lemma served_verified: "succeeds (verify_api (served_env sv cluster) a)"
  unfolding verify_api_def succeeds_def
proof
  fix s :: op_state
  obtain token u where "run_state (authenticate (served_env sv cluster) a) s = (Inr token, u)"
    using served_authenticated by blast
  then show "\<exists>x s'. run_state (try_ok (authenticate (served_env sv cluster) a) (\<lambda>_. ok ())) s = (Inr x, s')" by simp
qed

text \<open>From the first state of the program the client is found, and the server is as it was.\<close>

lemma served_resolved:
  assumes "ar_env ar = served_env sv cluster" and "has_admin_secret (served_env sv cluster) ns"
  shows "\<exists>a u before.
    run_state (resource_admin_api ar ns) (record_call (K8sGet k own nam) initial_state) = (Inr a, u) \<and>
    state_in sv u = sv_start sv \<and> st_trace u = st_trace (record_call (K8sGet k own nam) initial_state) @ before"
proof -
  let ?s = "record_call (K8sGet k own nam) initial_state"
  have "admin_sound (keycloak_namespace ar) ?s"
    using admin_reachable_sound_aux [OF admin_reachable.start] by (rule admin_sound_clients) simp
  then obtain a u where a: "run_state (resource_admin_api ar ns) ?s = (Inr a, u)"
    using client_resolved [OF served_verified _ assms] by blast
  obtain before where before: "st_trace u = st_trace ?s @ before" "\<forall>c \<in> set before. reads_cluster c"
    using emitsD [OF emits_resolution_reads a] by blast
  then have "\<forall>c \<in> set (K8sGet k own nam # before). quiet c" by (simp add: reads_quiet_only)
  from states_quiet [OF this, of sv "[]"] before(1) have "state_in sv u = sv_start sv"
    by (simp add: state_in_def initial_state_def)
  with a before(1) show ?thesis by blast
qed

end
