(* ===== verification/User_Store.thy ===== *)
theory User_Store
  imports Realm_Store User_Passwords Memory_Server
begin

text \<open>
  The contract of a Keycloak that keeps accounts with their realm roles and groups, against which the
  synchronisation of an account (\<^verbatim>\<open>internal/keycloak/usersync.go\<close>) is shown to implement an update
  of the store, and a server in memory that satisfies it. Keycloak keeps user names in lower case.
\<close>

section \<open>Accounts\<close>

record account =
  ac_fields :: representation
  ac_roles :: "string set"
  ac_groups :: "string set"

text \<open>Accounts by realm and identifier; groups are held by identifier.\<close>

type_synonym accounts = "string \<times> string \<Rightarrow> account option"

definition login :: "representation \<Rightarrow> string" where
  "login m = to_lower (string_value m ''username'')"

text \<open>The fields that are kept as they are sent. A password can be sent and not read.\<close>

definition profile :: "representation \<Rightarrow> representation" where
  "profile m = filter (\<lambda>p. fst p \<notin> {''username'', ''credentials''}) m"

definition canonical_group :: "string \<Rightarrow> string" where
  "canonical_group p = CHR ''/'' # trim_char CHR ''/'' p"

definition search_path :: "string \<Rightarrow> string \<Rightarrow> string" where
  "search_path realm nam = realm_path realm (''/users?username='' @ query_escape nam @ ''&exact=true'')"

definition group_lookup_path :: "string \<Rightarrow> string \<Rightarrow> string" where
  "group_lookup_path realm p = realm_path realm (''/group-by-path/'' @
     join_string (map path_escape (split_string (trim_char CHR ''/'' p) ''/'')) ''/'')"

lemma lower_char_idem: "lower_char (lower_char c) = lower_char c"
  by (cases "of_char c \<in> {65..90 :: nat}") (auto simp: lower_char_def)

lemma to_lower_idem [simp]: "to_lower (to_lower s) = to_lower s"
  by (simp add: to_lower_def lower_char_idem)

lemma holds_profile: "holds m n \<Longrightarrow> holds (profile m) n"
  by (auto simp: holds_iff profile_def)

lemma holds_profiles: "holds m n \<Longrightarrow> holds (profile m) (profile n)"
  unfolding holds_iff profile_def map_of_filtered [where P = "\<lambda>k. k \<notin> {''username'', ''credentials''}"] by auto

lemma set_update_other: "k' \<noteq> k \<Longrightarrow> (k', v') \<in> set (AList.update k v m) \<longleftrightarrow> (k', v') \<in> set m"
  by (induction m) auto

lemma holds_without_credential: "holds (profile (with_credential cred m)) n \<Longrightarrow> holds (profile m) n"
  by (auto simp: holds_iff profile_def with_credential_def set_update_other split: if_splits)

lemma desired_username: "map_of (desired_user_representation spec) ''username'' = Some (JStr (us_username spec))"
  by (simp add: desired_user_representation_def Let_def nonempty_other map_of_update)

lemma login_desired:
  "login (with_credential cred (desired_user_representation spec)) = to_lower (us_username spec)"
  "login (merge_representation l (desired_user_representation spec)) = to_lower (us_username spec)"
  using wf_desired_user [of spec]
  by (simp_all add: login_def string_value_def with_credential_def map_of_update desired_username merge_lookup
      wf_rep_iff merge_value_def)

lemma holds_parts:
  "wf_rep live \<Longrightarrow> wf_rep desired \<Longrightarrow> holds (profile (merge_representation live desired)) new \<Longrightarrow>
     holds (profile desired) new \<and> holds (profile (other_fields desired live)) new"
  by (meson holds_profiles holds_trans covered_holds merge_covers merge_other_fields)

lemma unchanged_parts:
  "unchanged live (merge_representation live desired) \<Longrightarrow> wf_rep live \<Longrightarrow> wf_rep desired \<Longrightarrow>
     holds (profile desired) live \<and> holds (profile (other_fields desired live)) live"
  using unchanged_declared_over [of live desired] by (simp add: declared_over_def holds_profile)

section \<open>A store of accounts\<close>

text \<open>
  What the synchronisation of an account relies on. Every account that is found is held under its
  identifier; user names are unique in a realm up to case; a created account is a new one; a change of
  the fields leaves roles and groups alone and adding roles or a group leaves the fields alone.
\<close>

definition is_account :: "string \<Rightarrow> accounts \<Rightarrow> representation \<Rightarrow> bool" where
  "is_account realm h l \<longleftrightarrow> wf_rep l \<and> map_option ac_fields (h (realm, id_of l)) = Some l"

definition user_account :: "string \<Rightarrow> string \<Rightarrow> accounts \<Rightarrow> representation \<Rightarrow> bool" where
  "user_account realm nam h l \<longleftrightarrow> is_account realm h l \<and> login l = to_lower nam"

locale user_store = kept_view env held for env and held :: "trace \<Rightarrow> accounts" +
  fixes group_path :: "string \<Rightarrow> string \<Rightarrow> string"
  assumes search: "replied env t base GET (search_path realm nam) None raw \<Longrightarrow>
      \<exists>ms. lists_objects env raw ms \<and> (\<forall>m \<in> set ms. is_account realm (held t) m)"
    and one_login: "held t (realm, i) = Some x \<Longrightarrow> held t (realm, j) = Some y \<Longrightarrow>
      login (ac_fields x) = login (ac_fields y) \<Longrightarrow> i = j"
    and post_user: "replied env t base POST (realm_path realm ''/users'') (Some (JObj m)) raw \<Longrightarrow>
      \<exists>i ac. held t (realm, i) = None \<and>
        held (t @ [AdminCall base POST (realm_path realm ''/users'') (Some (JObj m))]) = (held t)((realm, i) \<mapsto> ac) \<and>
        holds (profile m) (ac_fields ac) \<and> login (ac_fields ac) = login m"
    and put_user: "replied env t base PUT (user_path realm i []) (Some (JObj m)) raw \<Longrightarrow> held t (realm, i) = Some ac \<Longrightarrow>
      \<exists>new. held (t @ [AdminCall base PUT (user_path realm i []) (Some (JObj m))])
          = (held t)((realm, i) \<mapsto> ac\<lparr>ac_fields := new\<rparr>) \<and>
        holds (profile m) new \<and> login new = login m"
    and reset_password: "replied env t base PUT (user_path realm i ''/reset-password'') body raw \<Longrightarrow>
      held (t @ [AdminCall base PUT (user_path realm i ''/reset-password'') body]) = held t"
    and list_roles: "replied env t base GET (realm_roles_path realm i) None raw \<Longrightarrow> held t (realm, i) = Some ac \<Longrightarrow>
      \<exists>ms. lists_objects env raw ms \<and> (\<lambda>m. string_value m ''name'') ` set ms = ac_roles ac"
    and read_role: "replied env t base GET (realm_path realm (''/roles/'' @ path_escape nam)) None raw \<Longrightarrow>
      \<exists>m. shows_one env raw m \<and> string_value m ''name'' = nam"
    and add_roles: "replied env t base POST (realm_roles_path realm i) (Some (JArr (map JObj ms))) raw \<Longrightarrow>
      held t (realm, i) = Some ac \<Longrightarrow>
      held (t @ [AdminCall base POST (realm_roles_path realm i) (Some (JArr (map JObj ms)))])
        = (held t)((realm, i) \<mapsto> ac\<lparr>ac_roles := ac_roles ac \<union> (\<lambda>m. string_value m ''name'') ` set ms\<rparr>)"
    and list_groups: "replied env t base GET (user_path realm i ''/groups'') None raw \<Longrightarrow> held t (realm, i) = Some ac \<Longrightarrow>
      \<exists>ms. lists_objects env raw ms \<and> (\<forall>m \<in> set ms. id_of m \<in> ac_groups ac \<and> string_value m ''path'' = group_path realm (id_of m))"
    and read_group: "replied env t base GET (group_lookup_path realm p) None raw \<Longrightarrow>
      \<exists>m. shows_one env raw m \<and> group_path realm (id_of m) = canonical_group p"
    and canonical: "canonical_group (group_path realm g) = group_path realm g"
    and add_group: "replied env t base PUT (user_path realm i (''/groups/'' @ path_escape g)) None raw \<Longrightarrow>
      held t (realm, i) = Some ac \<Longrightarrow>
      held (t @ [AdminCall base PUT (user_path realm i (''/groups/'' @ path_escape g)) None])
        = (held t)((realm, i) \<mapsto> ac\<lparr>ac_groups := insert g (ac_groups ac)\<rparr>)"

text \<open>What the first step makes of the account: an account that was there keeps its roles and groups.\<close>

definition account_placed ::
    "keycloak_user_spec \<Rightarrow> account option \<Rightarrow> user_sync_result \<Rightarrow> account \<Rightarrow> bool" where
  "account_placed spec old res ac \<longleftrightarrow>
     login (ac_fields ac) = to_lower (us_username spec) \<and>
     holds (profile (desired_user_representation spec)) (ac_fields ac) \<and>
     (case old of
        None \<Rightarrow> ur_created res
      | Some b \<Rightarrow> \<not> ur_created res \<and> login (ac_fields b) = to_lower (us_username spec) \<and>
          holds (profile (other_fields (desired_user_representation spec) (ac_fields b))) (ac_fields ac) \<and>
          ac_roles ac = ac_roles b \<and> ac_groups ac = ac_groups b \<and> (\<not> ur_updated res \<longrightarrow> ac = b))"

definition account_key :: "keycloak_user_spec \<Rightarrow> user_sync_result \<Rightarrow> string \<times> string" where
  "account_key spec res = (user_realm spec, ur_user_id res)"

definition user_placed :: "keycloak_user_spec \<Rightarrow> accounts \<Rightarrow> user_sync_result \<Rightarrow> accounts \<Rightarrow> bool" where
  "user_placed spec h res h' \<longleftrightarrow>
     (\<exists>ac. h' = h(account_key spec res \<mapsto> ac) \<and> account_placed spec (h (account_key spec res)) res ac)"

text \<open>The groups that were added so far belong to declared paths, and every path so far is a group of the account.\<close>

definition joined :: "(string \<Rightarrow> string) \<Rightarrow> account \<Rightarrow> string list \<Rightarrow> bool \<Rightarrow> account \<Rightarrow> bool" where
  "joined path_of b ps changed ac \<longleftrightarrow>
     (\<exists>gs. ac = b\<lparr>ac_groups := ac_groups b \<union> gs\<rparr> \<and> path_of ` gs \<subseteq> canonical_group ` set ps \<and>
        canonical_group ` set ps \<subseteq> path_of ` (ac_groups b \<union> gs) \<and> (\<not> changed \<longrightarrow> gs = {}))"

lemma joined_start: "joined path_of b [] False b"
  by (simp add: joined_def)

lemma joined_present:
  assumes "joined path_of b ps changed ac" and "path_of g = canonical_group p" and "g \<in> ac_groups b"
  shows "joined path_of b (ps @ [p]) changed ac"
proof -
  obtain gs where "ac = b\<lparr>ac_groups := ac_groups b \<union> gs\<rparr>" "path_of ` gs \<subseteq> canonical_group ` set ps"
    "canonical_group ` set ps \<subseteq> path_of ` (ac_groups b \<union> gs)" "\<not> changed \<longrightarrow> gs = {}"
    using assms(1) unfolding joined_def by blast
  moreover have "canonical_group p \<in> path_of ` (ac_groups b \<union> gs)" using assms(2,3) by (metis UnI1 imageI)
  ultimately show ?thesis unfolding joined_def by (intro exI [of _ gs]) auto
qed

lemma joined_add:
  assumes "joined path_of b ps changed ac" and "path_of g = canonical_group p"
  shows "joined path_of b (ps @ [p]) True (ac\<lparr>ac_groups := insert g (ac_groups ac)\<rparr>)"
proof -
  obtain gs where "ac = b\<lparr>ac_groups := ac_groups b \<union> gs\<rparr>" "path_of ` gs \<subseteq> canonical_group ` set ps"
    "canonical_group ` set ps \<subseteq> path_of ` (ac_groups b \<union> gs)"
    using assms(1) unfolding joined_def by blast
  then show ?thesis using assms(2) unfolding joined_def by (intro exI [of _ "insert g gs"]) auto
qed

text \<open>
  The update of the store that a KeycloakUser asks for: the account of that name has the declared
  fields, roles and groups, an account that was there keeps what it has besides, and no role or
  group is added that is not declared.
\<close>

definition account_declared ::
    "(string \<Rightarrow> string) \<Rightarrow> keycloak_user_spec \<Rightarrow> account option \<Rightarrow> user_sync_result \<Rightarrow> account \<Rightarrow> bool" where
  "account_declared path_of spec old res ac \<longleftrightarrow>
     login (ac_fields ac) = to_lower (us_username spec) \<and>
     holds (profile (desired_user_representation spec)) (ac_fields ac) \<and>
     set (declared_list (us_realm_roles spec)) \<subseteq> ac_roles ac \<and>
     canonical_group ` set (declared_list (us_groups spec)) \<subseteq> path_of ` ac_groups ac \<and>
     (case old of
        None \<Rightarrow> ur_created res
      | Some b \<Rightarrow> \<not> ur_created res \<and> login (ac_fields b) = to_lower (us_username spec) \<and>
          holds (profile (other_fields (desired_user_representation spec) (ac_fields b))) (ac_fields ac) \<and>
          ac_roles ac = ac_roles b \<union> set (declared_list (us_realm_roles spec)) \<and> ac_groups b \<subseteq> ac_groups ac \<and>
          path_of ` (ac_groups ac - ac_groups b) \<subseteq> canonical_group ` set (declared_list (us_groups spec)) \<and>
          (\<not> ur_updated res \<longrightarrow> ac = b))"

definition user_declared ::
    "(string \<Rightarrow> string \<Rightarrow> string) \<Rightarrow> keycloak_user_spec \<Rightarrow> accounts \<Rightarrow> user_sync_result \<Rightarrow> accounts \<Rightarrow> bool" where
  "user_declared path_of spec h res h' \<longleftrightarrow>
     (\<exists>ac. h' = h(account_key spec res \<mapsto> ac) \<and>
        account_declared (path_of (user_realm spec)) spec (h (account_key spec res)) res ac)"

lemma account_composed:
  assumes "account_placed spec old res b"
    and "joined path_of (b\<lparr>ac_roles := ac_roles b \<union> set (declared_list (us_realm_roles spec))\<rparr>)
      (declared_list (us_groups spec)) groups_changed ac"
    and "\<not> roles_changed \<longrightarrow> b\<lparr>ac_roles := ac_roles b \<union> set (declared_list (us_realm_roles spec))\<rparr> = b"
    and "res' = (if roles_changed \<or> groups_changed then res\<lparr>ur_updated := True\<rparr> else res)"
  shows "account_declared path_of spec old res' ac"
proof -
  let ?b = "b\<lparr>ac_roles := ac_roles b \<union> set (declared_list (us_realm_roles spec))\<rparr>"
  obtain gs where gs: "ac = ?b\<lparr>ac_groups := ac_groups b \<union> gs\<rparr>"
    "path_of ` gs \<subseteq> canonical_group ` set (declared_list (us_groups spec))"
    "canonical_group ` set (declared_list (us_groups spec)) \<subseteq> path_of ` (ac_groups b \<union> gs)"
    "\<not> groups_changed \<longrightarrow> gs = {}"
    using assms(2) unfolding joined_def by auto
  have "ac = b" if "\<not> roles_changed" "\<not> groups_changed" using that gs(1,4) assms(3) by simp
  with gs assms(1,4) show ?thesis
    by (cases old) (auto simp: account_declared_def account_placed_def)
qed

context user_store
begin

lemma triple_get_user:
  "triple (\<lambda>t. held t = h) (get_user env a realm nam)
     (\<lambda>r t. held t = h \<and> (\<forall>l. r = Inr (Some l) \<longrightarrow> user_account realm nam h l))"
proof -
  have found: "user_account realm nam h l"
    if "find (\<lambda>u. string_value u ''username'' = to_lower nam \<or> string_value u ''username'' = nam) ms = Some l"
      and "\<forall>m \<in> set ms. is_account realm h m" for ms l
    using that by (auto simp: find_Some_iff user_account_def login_def)
  have "triple (\<lambda>t. held t = h) (get_many env a (search_path realm nam))
      (\<lambda>r t. held t = h \<and> (\<forall>ms. r = Inr ms \<longrightarrow> (\<forall>m \<in> set ms. is_account realm h m)))"
    by (rule triple_many) (use search in blast)
  then show ?thesis
    unfolding get_user_def search_path_def
    by (rule triple_try) (simp, rule triple_return, simp add: found)
qed

lemma held_create_user:
  "triple (\<lambda>t. held t = h) (create_user env a realm m)
     (\<lambda>r t. \<forall>i. r = Inr i \<longrightarrow> h (realm, i) = None \<and>
        (\<exists>ac. held t = h((realm, i) \<mapsto> ac) \<and> holds (profile m) (ac_fields ac) \<and> login (ac_fields ac) = login m))"
proof -
  let ?new = "\<lambda>i h'. h (realm, i) = None \<and>
      (\<exists>ac. h' = h((realm, i) \<mapsto> ac) \<and> holds (profile m) (ac_fields ac) \<and> login (ac_fields ac) = login m)"
  have post: "triple (\<lambda>t. held t = h) (do_send env a POST (realm_path realm ''/users'') (Some (JObj m)))
      (\<lambda>r t. \<forall>x. r = Inr x \<longrightarrow> (\<exists>i. ?new i (held t)))"
    by (rule triple_mono [OF triple_send [of h]]) (fastforce simp: after_request_def dest!: post_user)+
  have lookup: "triple (\<lambda>t. \<exists>i. ?new i (held t))
      (try_ok (get_user env a realm (string_value m ''username'')) (identifier_of ''user'' (string_value m ''username'')))
      (\<lambda>r t. \<forall>i. r = Inr i \<longrightarrow> ?new i (held t))"
  proof (rule triple_at)
    fix h' assume "\<exists>i. ?new i h'"
    then obtain i where i: "?new i h'" by blast
    have same: "id_of l = i" if l: "user_account realm (string_value m ''username'') h' l" and t: "held t = h'" for l t
    proof -
      obtain x y where "held t (realm, id_of l) = Some x" "held t (realm, i) = Some y"
        "login (ac_fields x) = login (ac_fields y)"
        using l i unfolding t user_account_def is_account_def login_def by auto
      then show ?thesis by (rule one_login)
    qed
    show "triple (\<lambda>t. held t = h')
        (try_ok (get_user env a realm (string_value m ''username'')) (identifier_of ''user'' (string_value m ''username'')))
        (\<lambda>r t. \<forall>i. r = Inr i \<longrightarrow> ?new i (held t))"
      by (rule triple_try [OF triple_get_user])
        (use i same in \<open>auto simp: identifier_of_def id_of_def intro!: triple_return triple_case_option\<close>)
  qed
  show ?thesis
    unfolding create_user_def by (rule triple_try [OF post]) (auto intro: triple_mono [OF lookup])
qed

lemma triple_update_user:
  assumes "h (realm, i) = Some ac"
  shows "triple (\<lambda>t. held t = h) (update_user env a realm i m)
    (\<lambda>r t. \<forall>x. r = Inr x \<longrightarrow> (\<exists>new. held t = h((realm, i) \<mapsto> ac\<lparr>ac_fields := new\<rparr>) \<and>
       holds (profile m) new \<and> login new = login m))"
  unfolding update_user_def
  by (rule triple_mono [OF triple_send [of h]]) (use assms in \<open>auto simp: after_request_def dest!: put_user\<close>)

lemma triple_place_new:
  "triple (\<lambda>t. held t = h) (place_user env a spec cred None)
     (\<lambda>r t. \<forall>res. r = Inr res \<longrightarrow> user_placed spec h res (held t))"
  unfolding place_user_def Let_def option.case
  by (rule triple_wrap [OF held_create_user])
    (auto intro!: triple_return simp: user_placed_def account_key_def account_placed_def login_desired
      dest: holds_without_credential)

lemma triple_place_live:
  assumes "user_account (user_realm spec) (us_username spec) h l"
  shows "triple (\<lambda>t. held t = h) (place_user env a spec cred (Some l))
    (\<lambda>r t. \<forall>res. r = Inr res \<longrightarrow> user_placed spec h res (held t))"
proof -
  let ?d = "desired_user_representation spec"
  obtain ac where ac: "h (user_realm spec, string_value l ''id'') = Some ac" "ac_fields ac = l"
    and l: "wf_rep l" "login l = to_lower (us_username spec)"
    using assms by (auto simp: user_account_def is_account_def id_of_def)
  show ?thesis
  proof (cases "unchanged l (merge_representation l ?d)")
    case True
    then show ?thesis
      using unchanged_parts [OF True l(1) wf_desired_user] ac l
      by (auto intro!: triple_return simp: place_user_def Let_def user_placed_def account_key_def account_placed_def fun_upd_idem)
  next
    case False
    then show ?thesis
      unfolding place_user_def Let_def option.case
      by (simp, intro triple_wrap [OF triple_update_user [where h = h and ac = ac, OF ac(1)]])
        (auto intro!: triple_return simp: user_placed_def account_key_def account_placed_def ac l login_desired
          dest!: holds_parts [OF l(1) wf_desired_user])
  qed
qed

text \<open>Resetting a password keeps what is held.\<close>

lemma triple_rotate:
  "triple (\<lambda>t. held t = h) (rotate_password env a spec cred res)
     (\<lambda>r t. \<forall>res'. r = Inr res' \<longrightarrow> held t = h \<and> res' = res\<lparr>ur_password_set := ur_password_set res'\<rparr>)"
proof -
  have "triple (\<lambda>t. held t = h) (reset_user_password env a realm i pass tmp) (\<lambda>r t. \<forall>x. r = Inr x \<longrightarrow> held t = h)"
    for realm i pass tmp
    unfolding reset_user_password_def
    by (rule triple_mono [OF triple_send [of h]]) (auto simp: after_request_def dest!: reset_password)
  then show ?thesis
    unfolding rotate_password_def
    by (intro triple_if) (auto intro!: triple_return triple_wrap)
qed

lemma triple_missing_role:
  "triple (\<lambda>t. held t = h \<and> names_of missing = set ds - fst ` set assigned) (missing_role env a realm assigned nam missing)
     (\<lambda>r t. \<forall>y. r = Inr y \<longrightarrow> held t = h \<and> names_of y = set (ds @ [nam]) - fst ` set assigned)"
proof -
  let ?post = "\<lambda>r t. \<forall>y. r = Inr y \<longrightarrow> held t = h \<and> names_of y = set (ds @ [nam]) - fst ` set assigned"
  have role: "triple (\<lambda>t. held t = h) (get_realm_role env a realm nam)
      (\<lambda>r t. held t = h \<and> (\<forall>m. r = Inr (Some m) \<longrightarrow> string_value m ''name'' = nam))"
    unfolding get_realm_role_def by (rule triple_one) (rule read_role)
  have entry: "string_value [(''id'', j), (''name'', JStr n)] ''name'' = n" for j n
    by (simp add: string_value_def)
  show ?thesis
  proof (rule triple_given, cases "nam \<in> fst ` set assigned")
    assume names: "names_of missing = set ds - fst ` set assigned"
    assume "nam \<in> fst ` set assigned"
    then show "triple (\<lambda>t. held t = h) (missing_role env a realm assigned nam missing) ?post"
      using names by (simp add: missing_role_def insert_Diff_if triple_return)
  next
    assume names: "names_of missing = set ds - fst ` set assigned" and False: "nam \<notin> fst ` set assigned"
    have "triple (\<lambda>t. held t = h \<and> string_value m ''name'' = nam)
        (ok (missing @ [[(''id'', JStr (string_value m ''id'')), (''name'', JStr (string_value m ''name''))]])) ?post" for m
      by (rule triple_return) (use False names in \<open>simp add: entry insert_Diff_if\<close>)
    then show "triple (\<lambda>t. held t = h) (missing_role env a realm assigned nam missing) ?post"
      unfolding missing_role_def set_map if_not_P [OF False]
      by (intro triple_wrap [OF role] triple_case_option) (auto intro!: triple_return)
  qed
qed

lemma triple_roles:
  assumes "h (realm, i) = Some ac"
  shows "triple (\<lambda>t. held t = h) (reconcile_realm_roles env a realm i desired)
    (\<lambda>r t. \<forall>ch. r = Inr ch \<longrightarrow>
       held t = h((realm, i) \<mapsto> ac\<lparr>ac_roles := ac_roles ac \<union> set (declared_list desired)\<rparr>) \<and>
       (\<not> ch \<longrightarrow> held t = h))"
proof (cases desired)
  case None
  then show ?thesis
    using assms by (auto intro!: triple_return simp: reconcile_realm_roles_def declared_list_def fun_upd_idem)
next
  case (Some names)
  let ?post = "\<lambda>r t. \<forall>ch. r = Inr ch \<longrightarrow> held t = h((realm, i) \<mapsto> ac\<lparr>ac_roles := ac_roles ac \<union> set names\<rparr>) \<and>
      (\<not> ch \<longrightarrow> held t = h)"
  have roles: "triple (\<lambda>t. held t = h) (get_many env a (realm_roles_path realm i))
      (\<lambda>r t. held t = h \<and> (\<forall>ms. r = Inr ms \<longrightarrow> names_of ms = ac_roles ac))"
    by (rule triple_many) (use list_roles assms in blast)
  have listed: "triple (\<lambda>t. held t = h) (list_user_realm_roles env a realm i)
      (\<lambda>r t. held t = h \<and> (\<forall>assigned. r = Inr assigned \<longrightarrow> fst ` set assigned = ac_roles ac))"
    unfolding list_user_realm_roles_def
    by (rule triple_map [OF roles]) (simp add: keyed_by_keys)
  have missing: "triple (\<lambda>t. held t = h \<and> fst ` set assigned = ac_roles ac)
      (for_each (missing_role env a realm assigned) names [])
      (\<lambda>r t. \<forall>y. r = Inr y \<longrightarrow> held t = h \<and> names_of y = set names - ac_roles ac)" for assigned
  proof (rule triple_given)
    assume "fst ` set assigned = ac_roles ac"
    with triple_for_each [where I = "\<lambda>ds y t. held t = h \<and> names_of y = set ds - fst ` set assigned"
        and xs = names and ds = "[]" and acc = "[]", OF triple_missing_role]
    show "triple (\<lambda>t. held t = h) (for_each (missing_role env a realm assigned) names [])
        (\<lambda>r t. \<forall>y. r = Inr y \<longrightarrow> held t = h \<and> names_of y = set names - ac_roles ac)" by simp
  qed
  have add: "triple (\<lambda>t. held t = h \<and> names_of ms = set names - ac_roles ac)
      (if ms = [] then ok False
       else try_wrap msg (add_user_realm_roles env a realm i ms) (\<lambda>_. ok True)) ?post" for ms msg
  proof -
    have "triple (\<lambda>t. held t = h) (add_user_realm_roles env a realm i ms)
        (\<lambda>r t. \<forall>x. r = Inr x \<longrightarrow> held t = h((realm, i) \<mapsto> ac\<lparr>ac_roles := ac_roles ac \<union> names_of ms\<rparr>))"
      unfolding add_user_realm_roles_def
      by (rule triple_mono [OF triple_send [of h]]) (use assms in \<open>auto simp: after_request_def dest!: add_roles\<close>)
    note sent = this
    show ?thesis
    proof (rule triple_given, rule triple_if)
      assume "names_of ms = set names - ac_roles ac" and "ms = []"
      then have "ac_roles ac \<union> set names = ac_roles ac" by auto
      then show "triple (\<lambda>t. held t = h) (ok False) ?post"
        using assms by (auto intro!: triple_return simp: fun_upd_idem)
    next
      assume names: "names_of ms = set names - ac_roles ac"
      show "triple (\<lambda>t. held t = h) (try_wrap msg (add_user_realm_roles env a realm i ms) (\<lambda>_. ok True)) ?post"
        by (rule triple_wrap [OF sent]) (simp, rule triple_return, simp add: names)
    qed
  qed
  show ?thesis
    unfolding reconcile_realm_roles_def Some option.case declared_list_def
    by (rule triple_wrap [OF listed], simp, simp, rule triple_try [OF missing], simp, rule triple_mono [OF add], simp)
qed

lemma triple_join:
  assumes "h (realm, i) = Some b" and "\<forall>p \<in> fst ` set assigned. \<exists>g \<in> ac_groups b. group_path realm g = p"
  shows "triple (\<lambda>t. \<exists>ac. held t = h((realm, i) \<mapsto> ac) \<and> joined (group_path realm) b ps changed ac)
    (join_group env a realm i assigned p changed)
    (\<lambda>r t. \<forall>ch. r = Inr ch \<longrightarrow>
       (\<exists>ac. held t = h((realm, i) \<mapsto> ac) \<and> joined (group_path realm) b (ps @ [p]) ch ac))"
proof (rule triple_at)
  let ?post = "\<lambda>r t. \<forall>ch. r = Inr ch \<longrightarrow>
      (\<exists>ac. held t = h((realm, i) \<mapsto> ac) \<and> joined (group_path realm) b (ps @ [p]) ch ac)"
  fix h'
  assume "\<exists>ac. h' = h((realm, i) \<mapsto> ac) \<and> joined (group_path realm) b ps changed ac"
  then obtain ac where h': "h' = h((realm, i) \<mapsto> ac)" and before: "joined (group_path realm) b ps changed ac" by blast
  show "triple (\<lambda>t. held t = h') (join_group env a realm i assigned p changed) ?post"
  proof (cases "p \<in> fst ` set assigned")
    case True
    then obtain g where "g \<in> ac_groups b" "group_path realm g = canonical_group p" using assms(2) canonical by metis
    then have "joined (group_path realm) b (ps @ [p]) changed ac" using joined_present [OF before] by blast
    with True h' show ?thesis by (auto intro!: triple_return simp: join_group_def)
  next
    case False
    have group: "triple (\<lambda>t. held t = h') (get_group_by_path env a realm p)
        (\<lambda>r t. held t = h' \<and> (\<forall>m. r = Inr (Some m) \<longrightarrow> group_path realm (id_of m) = canonical_group p))"
      unfolding get_group_by_path_def Let_def group_lookup_path_def [symmetric]
      by (rule triple_one) (rule read_group)
    have add: "triple (\<lambda>t. held t = h' \<and> group_path realm (id_of m) = canonical_group p)
        (try_wrap msg (add_user_to_group env a realm i (string_value m ''id'')) (\<lambda>_. ok True)) ?post" for m msg
    proof (rule triple_given)
      assume m: "group_path realm (id_of m) = canonical_group p"
      have "triple (\<lambda>t. held t = h') (add_user_to_group env a realm i (string_value m ''id''))
          (\<lambda>r t. \<forall>x. r = Inr x \<longrightarrow> held t = h((realm, i) \<mapsto> ac\<lparr>ac_groups := insert (id_of m) (ac_groups ac)\<rparr>))"
        unfolding add_user_to_group_def
        by (rule triple_mono [OF triple_send [of h']])
          (auto simp: after_request_def h' id_of_def dest!: add_group [simplified])
      then show "triple (\<lambda>t. held t = h')
          (try_wrap msg (add_user_to_group env a realm i (string_value m ''id'')) (\<lambda>_. ok True)) ?post"
        by (rule triple_wrap) (simp, rule triple_return, use joined_add [OF before m] in auto)
    qed
    show ?thesis
      unfolding join_group_def set_map if_not_P [OF False]
      by (intro triple_wrap [OF group] triple_case_option) (auto intro!: triple_return add)
  qed
qed

lemma triple_groups:
  assumes "h (realm, i) = Some b"
  shows "triple (\<lambda>t. held t = h) (reconcile_user_groups env a realm i desired)
    (\<lambda>r t. \<forall>ch. r = Inr ch \<longrightarrow>
       (\<exists>ac. held t = h((realm, i) \<mapsto> ac) \<and> joined (group_path realm) b (declared_list desired) ch ac))"
proof (cases desired)
  case None
  then show ?thesis
    using assms joined_start [of _ b]
    by (auto intro!: triple_return exI [of _ b] simp: reconcile_user_groups_def declared_list_def fun_upd_idem)
next
  case (Some paths)
  have listed: "triple (\<lambda>t. held t = h) (list_user_groups env a realm i)
      (\<lambda>r t. held t = h \<and> (\<forall>assigned. r = Inr assigned \<longrightarrow>
         (\<forall>p \<in> fst ` set assigned. \<exists>g \<in> ac_groups b. group_path realm g = p)))"
  proof -
    have "triple (\<lambda>t. held t = h) (get_many env a (user_path realm i ''/groups''))
        (\<lambda>r t. held t = h \<and> (\<forall>ms. r = Inr ms \<longrightarrow>
           (\<forall>m \<in> set ms. id_of m \<in> ac_groups b \<and> string_value m ''path'' = group_path realm (id_of m))))"
      by (rule triple_many) (use list_groups assms in blast)
    then show ?thesis
      unfolding list_user_groups_def
      by (rule triple_map) (simp only: keyed_by_keys ball_simps, auto)
  qed
  have join: "triple (\<lambda>t. held t = h \<and> (\<forall>p \<in> fst ` set assigned. \<exists>g \<in> ac_groups b. group_path realm g = p))
      (for_each (join_group env a realm i assigned) paths False)
      (\<lambda>r t. \<forall>ch. r = Inr ch \<longrightarrow>
         (\<exists>ac. held t = h((realm, i) \<mapsto> ac) \<and> joined (group_path realm) b paths ch ac))" for assigned
  proof (rule triple_given)
    assume "\<forall>p \<in> fst ` set assigned. \<exists>g \<in> ac_groups b. group_path realm g = p"
    note step = triple_join [where h = h and assigned = assigned, OF assms this]
    have "triple (\<lambda>t. \<exists>ac. held t = h((realm, i) \<mapsto> ac) \<and> joined (group_path realm) b [] False ac)
        (for_each (join_group env a realm i assigned) paths False)
        (\<lambda>r t. \<forall>ch. r = Inr ch \<longrightarrow>
           (\<exists>ac. held t = h((realm, i) \<mapsto> ac) \<and> joined (group_path realm) b paths ch ac))"
      using triple_for_each [where I = "\<lambda>ps ch t. \<exists>ac. held t = h((realm, i) \<mapsto> ac) \<and>
          joined (group_path realm) b ps ch ac" and xs = paths and ds = "[]" and acc = False, OF step] by simp
    then show "triple (\<lambda>t. held t = h) (for_each (join_group env a realm i assigned) paths False)
        (\<lambda>r t. \<forall>ch. r = Inr ch \<longrightarrow>
           (\<exists>ac. held t = h((realm, i) \<mapsto> ac) \<and> joined (group_path realm) b paths ch ac))"
      by (rule triple_mono) (use assms joined_start [of _ b] in \<open>auto intro!: exI [of _ b] simp: fun_upd_idem\<close>)
  qed
  show ?thesis
    unfolding reconcile_user_groups_def Some option.case declared_list_def
    by (rule triple_wrap [OF listed], simp, rule triple_mono [OF join], simp)
qed

lemma triple_entries:
  assumes "user_placed spec h res h1"
  shows "triple (\<lambda>t. held t = h1)
    (try_ok (reconcile_realm_roles env a (user_realm spec) (ur_user_id res) (us_realm_roles spec)) (\<lambda>roles_changed.
     try_ok (reconcile_user_groups env a (user_realm spec) (ur_user_id res) (us_groups spec)) (\<lambda>groups_changed.
     ok (if roles_changed \<or> groups_changed then res\<lparr>ur_updated := True\<rparr> else res))))
    (\<lambda>r t. \<forall>res'. r = Inr res' \<longrightarrow> user_declared group_path spec h res' (held t))"
proof -
  let ?key = "(user_realm spec, ur_user_id res)"
  obtain b where h1: "h1 = h(?key \<mapsto> b)" and b: "account_placed spec (h ?key) res b"
    using assms unfolding user_placed_def account_key_def by blast
  let ?b = "b\<lparr>ac_roles := ac_roles b \<union> set (declared_list (us_realm_roles spec))\<rparr>"
  have roles: "triple (\<lambda>t. held t = h1)
      (reconcile_realm_roles env a (user_realm spec) (ur_user_id res) (us_realm_roles spec))
      (\<lambda>r t. \<forall>ch. r = Inr ch \<longrightarrow> held t = h(?key \<mapsto> ?b) \<and> (\<not> ch \<longrightarrow> ?b = b))"
  proof (rule triple_mono [OF triple_roles [where h = h1 and ac = b]])
    fix r t
    assume "\<forall>ch. r = Inr ch \<longrightarrow> held t = h1(?key \<mapsto> ?b) \<and> (\<not> ch \<longrightarrow> held t = h1)"
    then show "\<forall>ch. r = Inr ch \<longrightarrow> held t = h(?key \<mapsto> ?b) \<and> (\<not> ch \<longrightarrow> ?b = b)"
      unfolding h1 fun_upd_upd by (metis map_upd_eqD1)
  qed (simp_all add: h1)
  have groups: "triple (\<lambda>t. held t = h(?key \<mapsto> ?b) \<and> (\<not> roles_changed \<longrightarrow> ?b = b))
      (try_ok (reconcile_user_groups env a (user_realm spec) (ur_user_id res) (us_groups spec)) (\<lambda>groups_changed.
         ok (if roles_changed \<or> groups_changed then res\<lparr>ur_updated := True\<rparr> else res)))
      (\<lambda>r t. \<forall>res'. r = Inr res' \<longrightarrow> user_declared group_path spec h res' (held t))" for roles_changed
  proof (rule triple_given)
    assume same: "\<not> roles_changed \<longrightarrow> ?b = b"
    have declared: "user_declared group_path spec h (if roles_changed \<or> ch then res\<lparr>ur_updated := True\<rparr> else res) (h(?key \<mapsto> ac))"
      if "joined (group_path (user_realm spec)) ?b (declared_list (us_groups spec)) ch ac" for ch ac
      using account_composed [OF b that same refl] by (auto simp: user_declared_def account_key_def)
    show "triple (\<lambda>t. held t = h(?key \<mapsto> ?b))
      (try_ok (reconcile_user_groups env a (user_realm spec) (ur_user_id res) (us_groups spec)) (\<lambda>groups_changed.
         ok (if roles_changed \<or> groups_changed then res\<lparr>ur_updated := True\<rparr> else res)))
      (\<lambda>r t. \<forall>res'. r = Inr res' \<longrightarrow> user_declared group_path spec h res' (held t))"
      by (rule triple_try [OF triple_groups [where h = "h(?key \<mapsto> ?b)" and b = ?b]])
        (auto intro!: triple_return dest: declared)
  qed
  show ?thesis
    by (rule triple_try [OF roles]) (auto intro: triple_mono [OF groups])
qed

lemma held_reconcile_user:
  "triple (\<lambda>t. held t = h) (reconcile_user env a spec cred)
     (\<lambda>r t. \<forall>res. r = Inr res \<longrightarrow> user_declared group_path spec h res (held t))"
proof -
  have place: "triple (\<lambda>t. held t = h \<and> (\<forall>l. (Inr live :: go_err + representation option) = Inr (Some l) \<longrightarrow> user_account (user_realm spec) (us_username spec) h l))
      (place_user env a spec cred live) (\<lambda>r t. \<forall>res. r = Inr res \<longrightarrow> user_placed spec h res (held t))" for live
    by (rule triple_given, cases live) (simp_all add: triple_place_new triple_place_live)
  have rest: "triple (\<lambda>t. user_placed spec h res (held t))
      (try_ok (rotate_password env a spec cred res) (\<lambda>result.
       try_ok (reconcile_realm_roles env a (user_realm spec) (ur_user_id result) (us_realm_roles spec)) (\<lambda>roles_changed.
       try_ok (reconcile_user_groups env a (user_realm spec) (ur_user_id result) (us_groups spec)) (\<lambda>groups_changed.
       ok (if roles_changed \<or> groups_changed then result\<lparr>ur_updated := True\<rparr> else result)))))
      (\<lambda>r t. \<forall>res'. r = Inr res' \<longrightarrow> user_declared group_path spec h res' (held t))" for res
  proof (rule triple_at)
    fix h1 assume placed: "user_placed spec h res h1"
    have same: "user_placed spec h (res\<lparr>ur_password_set := b\<rparr>) h1" for b
      using placed by (simp add: user_placed_def account_key_def account_placed_def cong: option.case_cong)
    show "triple (\<lambda>t. held t = h1)
      (try_ok (rotate_password env a spec cred res) (\<lambda>result.
       try_ok (reconcile_realm_roles env a (user_realm spec) (ur_user_id result) (us_realm_roles spec)) (\<lambda>roles_changed.
       try_ok (reconcile_user_groups env a (user_realm spec) (ur_user_id result) (us_groups spec)) (\<lambda>groups_changed.
       ok (if roles_changed \<or> groups_changed then result\<lparr>ur_updated := True\<rparr> else result)))))
      (\<lambda>r t. \<forall>res'. r = Inr res' \<longrightarrow> user_declared group_path spec h res' (held t))"
    proof (rule triple_try [OF triple_rotate])
      fix res'
      show "triple (\<lambda>t. \<forall>x. Inr res' = Inr x \<longrightarrow> held t = h1 \<and> x = res\<lparr>ur_password_set := ur_password_set x\<rparr>)
        (try_ok (reconcile_realm_roles env a (user_realm spec) (ur_user_id res') (us_realm_roles spec)) (\<lambda>roles_changed.
         try_ok (reconcile_user_groups env a (user_realm spec) (ur_user_id res') (us_groups spec)) (\<lambda>groups_changed.
         ok (if roles_changed \<or> groups_changed then res'\<lparr>ur_updated := True\<rparr> else res'))))
        (\<lambda>r t. \<forall>res'. r = Inr res' \<longrightarrow> user_declared group_path spec h res' (held t))"
      proof (rule triple_mono [OF triple_given [where Q = "res' = res\<lparr>ur_password_set := ur_password_set res'\<rparr>", OF triple_entries]])
        assume e: "res' = res\<lparr>ur_password_set := ur_password_set res'\<rparr>"
        show "user_placed spec h res' h1" by (rule back_subst [of "\<lambda>r. user_placed spec h r h1", OF same e [symmetric]])
      qed simp_all
    qed simp
  qed
  show ?thesis
    unfolding reconcile_user_def Let_def
    by (rule triple_wrap [OF triple_get_user], simp, rule triple_try [OF place], simp, rule triple_mono [OF rest], simp)
qed

end

text \<open>
  C22. Synchronising an account implements an update of the store. Against a Keycloak that keeps what
  it accepts, whenever the reconciliation succeeds, exactly the account it reports has changed: it
  goes by the declared name and has the declared fields, every declared role and a group for every
  declared path; an account that was there keeps its other fields, roles and groups, and nothing
  undeclared is added to it; the account is reported as created exactly when there was none, and is
  as it was when no change is reported.
\<close>

theorem reconcile_user_refines:
  assumes "user_store env held group_path" and "run_state (reconcile_user env a spec cred) s = (Inr res, s')"
  shows "user_declared group_path spec (held (st_trace s)) res (held (st_trace s'))"
  using tripleD [OF user_store.held_reconcile_user [OF assms(1)] refl assms(2)] by blast

section \<open>What the status of a KeycloakUser says of Keycloak\<close>

lemma emits_user_status:
  "emits (closing (meta_generation meta)) (set_user_status env ns nam meta ust st msg)"
  "st \<noteq> ServiceReady \<Longrightarrow> emits silent (set_user_status env ns nam meta ust st msg)"
  unfolding set_user_status_def
  by (rule emits_status_write [where state = st], simp add: with_user_status_def,
      rule emits_status_write [where state = st], simp_all add: with_user_status_def)

lemma emits_user_deletion: "emits silent (delete_user_resource ar a ob)"
proof -
  have "emits silent (delete_declared_user env a spec)" for env spec
    by (rule emits_mono [OF account.talks_to_keycloak]) (rule sends_silent)
  then show ?thesis
    unfolding delete_user_resource_def finish_deletion_def by (auto intro!: emits_intros emits_release_silent)
qed

text \<open>Choosing the credential reads and draws, and writes nothing.\<close>

lemma emits_credential: "emits (\<lambda>c. quiet c \<and> silent c) (user_credential_for env a ns uspec st)"
proof -
  have "emits (sends (\<lambda>m path body. False)) (user_password_policy env a uspec)"
    unfolding user_password_policy_def by (intro emits_intros)
  then have policy: "emits (\<lambda>c. quiet c \<and> silent c) (user_password_policy env a uspec)"
    by (rule emits_mono) (simp add: sends_quiet sends_silent)
  have password: "emits (\<lambda>c. quiet c \<and> silent c) (generate_password env policy)" for policy
    by (rule emits_mono [OF emits_generate]) auto
  show ?thesis
    unfolding user_credential_for_def stored_password_def k8s_get_def Let_def
    by (auto intro!: emits_intros policy password)
qed

lemma emits_store_generated:
  assumes "\<And>state msg. emits (closing g) (report state msg)" and "emits (closing g) k"
  shows "emits (closing g) (store_generated ar ns uspec cred generated res report k)"
  unfolding store_generated_def failing_step_def store_password_def store_secret_key_def
  by (auto intro!: emits_intros assms simp: closing_def)

lemma held_live_user:
  assumes "user_store (ar_env ar) held group_path" and "worked_on (ar_env ar) f found ob"
  shows "triple (\<lambda>t. only_since silent t0 t \<and> held t = h) (reconcile_live_user ar ns nam a ob)
    (\<lambda>r. truthful (ar_env ar) f found
       (\<lambda>ob t. \<exists>res. user_declared group_path (user_spec_of ob) h res (held t)) t0)"
proof -
  let ?P = "\<lambda>t. only_since silent t0 t \<and> held t = h"
  have view: "kept_view held" using assms(1) by (rule user_store.axioms(1))
  have credential: "triple ?P (user_credential_for (ar_env ar) a own uspec st) (\<lambda>r. ?P)" for own uspec st
    by (rule triple_calls [OF emits_credential]) (auto simp: kept_view.kept_calls [OF view] intro: only_since_append)
  have "emits silent (reconcile_user (ar_env ar) a (user_spec_of ob) cred)" for cred
    by (rule emits_mono [OF account_writes]) (rule sends_silent)
  note work = triple_conj [OF triple_only [OF this] user_store.held_reconcile_user [OF assms(1)]]
  have "emits (closing (meta_generation (ob_meta ob)))
      (store_generated ar own uspec cred generated res (set_user_status (ar_env ar) ns nam (ob_meta ob) st1)
         (ready_pass ar (set_user_status (ar_env ar) ns nam (ob_meta ob) st2) msg))"
    for own uspec cred generated res st1 st2 msg
    unfolding ready_pass_def by (intro emits_store_generated emits_intros emits_user_status)
  note ready = kept_view.triple_closing [where established = "\<lambda>ob v. \<exists>res. user_declared group_path (user_spec_of ob) h res v",
      OF view assms(2) this]
  show ?thesis
    unfolding reconcile_live_user_def Let_def
    apply (rule kept_view.triple_failing [OF view credential])
      apply simp
     apply (simp add: emits_user_status)
    apply (rule triple_case_prod)
    apply (rule kept_view.triple_failing [OF view work])
      apply simp
     apply (simp add: emits_user_status)
    apply (rule triple_mono [OF ready])
     apply auto
    done
qed

text \<open>
  C20. A KeycloakUser that is published Ready describes the account in Keycloak. In a pass of the
  controller over a user resource, whatever the API server, the clock, the random source and the
  Secrets answer, when a status Ready is written then the account the resource names now has the
  declared fields, roles and groups, with the rest of it and all other accounts as the pass found
  them, and the status names the generation of the resource the pass worked with.
\<close>

theorem ready_user_is_held:
  assumes "user_store (ar_env ar) held group_path"
    and "env_get (ar_env ar) (st_trace s) keycloak_user_gvk ns nam = Inr found"
    and "run_state (reconcile_user_resource ar ns nam) s = (r, s')"
    and "K8sUpdateStatus published \<in> set (new_calls s s')"
    and "ob_content published = UserContent spec st" and "ust_status st = ServiceReady"
  shows "\<exists>ob res. worked_on (ar_env ar) keycloak_user_finalizer found ob \<and>
    ust_observed_generation st = meta_generation (ob_meta ob) \<and>
    user_declared group_path (user_spec_of ob) (held (st_trace s)) res (held (st_trace s'))"
proof -
  have view: "kept_view held" using assms(1) by (rule user_store.axioms(1))
  have ready: "status_of (ob_content published) = Some (ServiceReady, ust_observed_generation st)"
    using assms(5,6) by simp
  show ?thesis
    using kept_view.pass_truthful [OF view assms(2) assms(3) [unfolded reconcile_user_resource_def]
        held_live_user [OF assms(1)] emits_user_deletion emits_user_status(2) assms(4) ready]
    by blast
qed

section \<open>A name with capital letters\<close>

lemma capital_is_drift:
  assumes "string_value l ''username'' = to_lower (us_username spec)" and "to_lower (us_username spec) \<noteq> us_username spec"
  shows "\<not> unchanged l (merge_representation l (desired_user_representation spec))"
proof
  assume "unchanged l (merge_representation l (desired_user_representation spec))"
  then have same: "deep_equal (JObj l) (JObj (merge_representation l (desired_user_representation spec)))"
    by (simp add: unchanged_def)
  have "to_lower (us_username spec) \<noteq> []" using assms(2) by (auto simp: to_lower_def)
  then have "map_of l ''username'' = Some (JStr (to_lower (us_username spec)))"
    using assms(1) by (auto simp: string_value_def split: option.splits json.splits)
  from deep_equal_field [OF same map_of_SomeD [OF this]] show False
    using assms(2) wf_desired_user [of spec] by (auto simp: merge_lookup wf_rep_iff desired_username merge_value_def)
qed


definition capital_user :: keycloak_user_spec where
  "capital_user = sample_user\<lparr>us_username := ''Root''\<rparr>"

lemma capital_lower: "to_lower ''Root'' = ''root''"
  by code_simp

lemma capital_found:
  "delivers (\<lambda>live. \<exists>l. live = Some l \<and> string_value l ''username'' = to_lower (us_username capital_user)) (\<lambda>e. True)
     (get_user (keycloak_env (JArr [JObj sample_account])) a (user_realm capital_user) (us_username capital_user))"
  unfolding delivers_def returns_def
proof
  fix s
  obtain s' where "run_state (get_many (keycloak_env (JArr [JObj sample_account])) a
      (realm_path (user_realm capital_user) (''/users?username='' @ query_escape ''Root'' @ ''&exact=true''))) s
      = (Inr [sample_account], s')" by (rule run_constant_get_many)
  then show "case fst (run_state (get_user (keycloak_env (JArr [JObj sample_account])) a (user_realm capital_user)
        (us_username capital_user)) s) of
      Inl e \<Rightarrow> True | Inr live \<Rightarrow> \<exists>l. live = Some l \<and> string_value l ''username'' = to_lower (us_username capital_user)"
    by (simp add: get_user_def sample_account_def string_value_def capital_user_def capital_lower)
qed


section \<open>Paths that name different things\<close>

lemma escape_no_slash: "CHR ''/'' \<notin> set (path_escape s)"
  using path_escape_chars [of "CHR ''/''" s] by (auto simp: path_keeps_def is_unreserved_def)

lemma before_slash: "CHR ''/'' \<notin> set u \<Longrightarrow> takeWhile ((\<noteq>) CHR ''/'') (u @ CHR ''/'' # x) = u"
  by (induction u) auto

lemma segment_eq [simp]:
  "path_escape i @ CHR ''/'' # x = path_escape j @ CHR ''/'' # y \<longleftrightarrow> i = j \<and> x = y"
proof
  assume e: "path_escape i @ CHR ''/'' # x = path_escape j @ CHR ''/'' # y"
  have "path_escape i = path_escape j"
    using arg_cong [OF e, of "takeWhile ((\<noteq>) CHR ''/'')"] by (simp only: before_slash [OF escape_no_slash])
  with e show "i = j \<and> x = y" by (simp add: path_escape_inj)
qed auto

lemma segment_end [simp]:
  "path_escape i \<noteq> path_escape j @ CHR ''/'' # y" "path_escape j @ CHR ''/'' # y \<noteq> path_escape i"
  using escape_no_slash [of i] by (metis in_set_conv_decomp)+

lemma realm_path_slash [simp]:
  "realm_path r (CHR ''/'' # x) = realm_path r' (CHR ''/'' # y) \<longleftrightarrow> r = r' \<and> x = y"
  by (simp add: realm_path_def)

text \<open>A path of groups is read back by undoing the escapes.\<close>

definition escape_path :: "string \<Rightarrow> string" where
  "escape_path s = concat (map (\<lambda>c. if c = CHR ''/'' then [c] else path_escape [c]) s)"

lemma escape_append: "path_escape (s @ t) = path_escape s @ path_escape t"
  by (simp add: path_escape_def)

lemma join_escaped:
  "join_string (map path_escape (split_from ''/'' acc s)) ''/'' = path_escape (rev acc) @ escape_path s"
proof (induction s arbitrary: acc)
  case (Cons c s)
  have ne: "split_from ''/'' x s \<noteq> []" for x by (rule split_from_nonempty)
  have j: "join_string (u # us) ''/'' = u @ CHR ''/'' # join_string us ''/''" if "us \<noteq> []" for u us
    using that by (cases us) auto
  show ?case
    using Cons.IH ne
    by (auto simp: has_prefix_def j escape_path_def escape_append path_escape_def [of "[]"])
qed (simp add: escape_path_def)

lemma unescape_path: "path_unescape (escape_path s) = s"
proof (induction s)
  case (Cons c s)
  then show ?case
    using kept_not_percent [of c]
    by (auto simp: escape_path_def path_escape_def percent_unescape unescape_kept)
qed (simp add: escape_path_def)

lemma group_lookup_inj [simp]:
  "group_lookup_path r p = group_lookup_path r' p' \<longleftrightarrow> r = r' \<and> canonical_group p = canonical_group p'"
proof -
  have "escape_path u = escape_path v \<longleftrightarrow> u = v" for u v by (metis unescape_path)
  then show ?thesis
    by (auto simp: group_lookup_path_def canonical_group_def split_string_def join_escaped path_escape_def [of "[]"])
qed

section \<open>Accounts in memory\<close>

text \<open>
  A Keycloak that keeps the accounts of the master realm, with given roles and groups. An account is
  identified by its user name in lower case; passwords are taken and not shown.
\<close>

record stored_user =
  su_fields :: representation
  su_roles :: "string list"
  su_groups :: "string list"

abbreviation uid :: "stored_user \<Rightarrow> string" where
  "uid u \<equiv> login (su_fields u)"

definition to_account :: "stored_user \<Rightarrow> account" where
  "to_account u = \<lparr>ac_fields = su_fields u, ac_roles = set (su_roles u), ac_groups = set (su_groups u)\<rparr>"

definition accounts_of :: "stored_user list \<Rightarrow> accounts" where
  "accounts_of us key = (if fst key = master_realm then map_option to_account (find (\<lambda>u. uid u = snd key) us) else None)"

definition stored_fields :: "representation \<Rightarrow> representation" where
  "stored_fields m = set_key ''username'' (JStr (login m)) (map_delete ''credentials'' m)"

text \<open>Change the account with an identifier.\<close>

definition change_user :: "string \<Rightarrow> (stored_user \<Rightarrow> stored_user) \<Rightarrow> stored_user list \<Rightarrow> stored_user list" where
  "change_user i f us = map (\<lambda>u. if uid u = i then f u else u) us"

definition member_path :: "stored_user \<Rightarrow> string \<Rightarrow> string" where
  "member_path u rest = user_path master_realm (uid u) rest"

text \<open>A request that writes, with the accounts after it, if the server accepts it.\<close>

definition accept_fields :: "stored_user list \<Rightarrow> string \<Rightarrow> representation \<Rightarrow> stored_user list option" where
  "accept_fields us path m =
     map_option (\<lambda>u. change_user (uid u) (su_fields_update (\<lambda>_. stored_fields m)) us)
       (find (\<lambda>u. path = member_path u [] \<and> wf_rep m \<and> login m = uid u \<and> id_of m = uid u) us)"

definition accept_new :: "stored_user list \<Rightarrow> string \<Rightarrow> representation \<Rightarrow> stored_user list option" where
  "accept_new us path m =
     (if path = realm_path master_realm ''/users'' \<and> wf_rep m \<and> map_of m ''id'' = None \<and> login m \<notin> uid ` set us
      then Some (us @ [\<lparr>su_fields = set_key ''id'' (JStr (login m)) (stored_fields m), su_roles = [], su_groups = []\<rparr>])
      else None)"

definition accept_roles :: "string list \<Rightarrow> stored_user list \<Rightarrow> string \<Rightarrow> representation list \<Rightarrow> stored_user list option" where
  "accept_roles roles us path ms =
     (if names_of ms \<subseteq> set roles
      then map_option (\<lambda>u. change_user (uid u) (su_roles_update (\<lambda>rs. rs @ map (\<lambda>m. string_value m ''name'') ms)) us)
             (find (\<lambda>u. path = member_path u ''/role-mappings/realm'') us)
      else None)"

definition accept_member :: "(string \<times> string) list \<Rightarrow> stored_user list \<Rightarrow> string \<Rightarrow> stored_user list option" where
  "accept_member groups us path =
     map_option (\<lambda>(u, g). change_user (uid u) (su_groups_update (\<lambda>gs. g # gs)) us)
       (find (\<lambda>(u, g). path = member_path u (''/groups/'' @ path_escape g)) (List.product us (keys_of groups)))"

fun accept_user ::
    "string list \<Rightarrow> (string \<times> string) list \<Rightarrow> stored_user list \<Rightarrow> http_method \<Rightarrow> string \<Rightarrow> json option \<Rightarrow>
     stored_user list option" where
  "accept_user roles groups us PUT path (Some (JObj m)) =
     (if path \<in> (\<lambda>u. member_path u ''/reset-password'') ` set us then Some us else accept_fields us path m)"
| "accept_user roles groups us POST path (Some (JObj m)) = accept_new us path m"
| "accept_user roles groups us POST path (Some (JArr js)) =
     (case into_elements js of Inl e \<Rightarrow> None | Inr ms \<Rightarrow> accept_roles roles us path ms)"
| "accept_user roles groups us PUT path None = accept_member groups us path"
| "accept_user roles groups us m path body = None"

definition group_path_of :: "(string \<times> string) list \<Rightarrow> string \<Rightarrow> string \<Rightarrow> string" where
  "group_path_of groups realm g = canonical_group (case map_of groups g of None \<Rightarrow> [] | Some p \<Rightarrow> p)"

text \<open>A request that reads.\<close>

definition role_rep :: "string \<Rightarrow> representation" where
  "role_rep n = [(''id'', JStr n), (''name'', JStr n)]"

definition group_rep :: "(string \<times> string) list \<Rightarrow> string \<Rightarrow> representation" where
  "group_rep groups g = [(''id'', JStr g), (''path'', JStr (group_path_of groups master_realm g))]"

definition read_users :: "string list \<Rightarrow> (string \<times> string) list \<Rightarrow> stored_user list \<Rightarrow> string \<Rightarrow> json option" where
  "read_users roles groups us path =
     (case find (\<lambda>u. path = member_path u ''/role-mappings/realm'') us of
        Some u \<Rightarrow> Some (objects (map role_rep (su_roles u)))
      | None \<Rightarrow>
     (case find (\<lambda>u. path = member_path u ''/groups'') us of
        Some u \<Rightarrow> Some (objects (map (group_rep groups) (su_groups u)))
      | None \<Rightarrow>
     (case find (\<lambda>n. path = realm_path master_realm (''/roles/'' @ path_escape n)) roles of
        Some n \<Rightarrow> Some (JObj (role_rep n))
      | None \<Rightarrow>
     (case find (\<lambda>g. path = group_lookup_path master_realm (group_path_of groups master_realm g)) (keys_of groups) of
        Some g \<Rightarrow> Some (JObj (group_rep groups g))
      | None \<Rightarrow>
        (if has_prefix path (realm_path master_realm ''/users?'')
         then Some (objects (map su_fields (filter (\<lambda>u. path = search_path master_realm (uid u)) us)))
         else None)))))"

definition user_server :: "string list \<Rightarrow> (string \<times> string) list \<Rightarrow> stored_user list server" where
  "user_server roles groups = \<lparr>sv_start = [], sv_read = read_users roles groups, sv_accept = accept_user roles groups\<rparr>"

abbreviation users_after :: "string list \<Rightarrow> (string \<times> string) list \<Rightarrow> trace \<Rightarrow> stored_user list" where
  "users_after roles groups \<equiv> state_after (user_server roles groups)"

abbreviation users_in :: "string list \<Rightarrow> (string \<times> string) list \<Rightarrow> op_state \<Rightarrow> stored_user list" where
  "users_in roles groups \<equiv> state_in (user_server roles groups)"

abbreviation user_env ::
    "string list \<Rightarrow> (string \<times> string) list \<Rightarrow> (gvk \<Rightarrow> string \<Rightarrow> string \<Rightarrow> go_err + k8s_object) \<Rightarrow> env" where
  "user_env roles groups cluster \<equiv> served_env (user_server roles groups) cluster"

lemma user_server_simps [simp]:
  "sv_start (user_server roles groups) = []" "sv_read (user_server roles groups) = read_users roles groups"
  "sv_accept (user_server roles groups) = accept_user roles groups"
  by (simp_all add: user_server_def)

lemma user_path_eq [simp]:
  "user_path r i [] = user_path r' j [] \<longleftrightarrow> r = r' \<and> i = j"
  "user_path r i (CHR ''/'' # x) = user_path r' j (CHR ''/'' # y) \<longleftrightarrow> r = r' \<and> i = j \<and> x = y"
  "user_path r i [] \<noteq> user_path r' j (CHR ''/'' # y)" "user_path r i (CHR ''/'' # x) \<noteq> user_path r' j []"
  by (auto simp: user_path_def path_escape_inj)

text \<open>What is stored of a representation.\<close>

lemma stored_fields_facts:
  assumes "wf_rep m"
  shows "wf_rep (stored_fields m)" "login (stored_fields m) = login m" "id_of (stored_fields m) = id_of m"
    "holds (profile m) (stored_fields m)" "map_of (stored_fields m) ''id'' = map_of m ''id''"
proof -
  have "wf_rep (map_delete ''credentials'' m)"
    using assms distinct_map_delete [of m "''credentials''"] by (simp add: wf_rep_iff) (auto simp: list_all_iff map_delete_def)
  then show "wf_rep (stored_fields m)" by (simp add: stored_fields_def wf_rep_update)
  show "login (stored_fields m) = login m"
    by (simp add: login_def string_value_def stored_fields_def map_of_update)
  show "id_of (stored_fields m) = id_of m" "map_of (stored_fields m) ''id'' = map_of m ''id''"
    by (simp_all add: id_of_def string_value_def stored_fields_def map_of_update map_of_map_delete)
  have "map_of (stored_fields m) k = map_of m k" if "k \<notin> {''username'', ''credentials''}" for k
    using that by (simp add: stored_fields_def map_of_update map_of_map_delete)
  then show "holds (profile m) (stored_fields m)"
    using assms holds_refl [OF assms]
    by (auto simp: holds_iff profile_def)
qed

definition users_ok :: "stored_user list \<Rightarrow> bool" where
  "users_ok us \<longleftrightarrow> distinct (map uid us) \<and> list_all (\<lambda>u. wf_rep (su_fields u) \<and> id_of (su_fields u) = uid u) us"

lemma find_changed:
  assumes "\<And>u. uid u = i \<Longrightarrow> uid (f u) = i"
  shows "find (\<lambda>u. uid u = j) (change_user i f us) =
    (if j = i then map_option f (find (\<lambda>u. uid u = i) us) else find (\<lambda>u. uid u = j) us)"
  using assms by (induction us) (auto simp: change_user_def)

lemma accounts_changed:
  assumes "\<And>u. uid u = i \<Longrightarrow> uid (f u) = i" and "find (\<lambda>u. uid u = i) us = Some u"
  shows "accounts_of (change_user i f us) = (accounts_of us)((master_realm, i) \<mapsto> to_account (f u))"
proof
  fix key
  show "accounts_of (change_user i f us) key = ((accounts_of us)((master_realm, i) \<mapsto> to_account (f u))) key"
    using assms(2) by (cases key) (simp add: accounts_of_def find_changed [OF assms(1)])
qed

lemma changed_ids: "(\<And>u. u \<in> set us \<Longrightarrow> uid u = i \<Longrightarrow> uid (f u) = i) \<Longrightarrow> map uid (change_user i f us) = map uid us"
  by (induction us) (auto simp: change_user_def)

lemma users_ok_changed:
  assumes "users_ok us"
    and "\<And>u. u \<in> set us \<Longrightarrow> uid u = i \<Longrightarrow> wf_rep (su_fields (f u)) \<and> id_of (su_fields (f u)) = i \<and> uid (f u) = i"
  shows "users_ok (change_user i f us)"
proof -
  have "map uid (change_user i f us) = map uid us" by (rule changed_ids) (use assms(2) in blast)
  then have "distinct (map uid (change_user i f us))" using assms(1) by (simp only: users_ok_def)
  moreover have "list_all (\<lambda>u. wf_rep (su_fields u) \<and> id_of (su_fields u) = uid u) (change_user i f us)"
    using assms by (auto simp: users_ok_def change_user_def list_all_iff)
  ultimately show ?thesis unfolding users_ok_def by blast
qed

lemma users_okD: "users_ok us \<Longrightarrow> u \<in> set us \<Longrightarrow> wf_rep (su_fields u) \<and> id_of (su_fields u) = uid u"
  by (simp add: users_ok_def list_all_iff)

lemma users_ok_ids: "users_ok us \<Longrightarrow> distinct (map uid us)"
  by (simp add: users_ok_def)

lemma users_ok_same: "users_ok us \<Longrightarrow> (\<And>u. su_fields (f u) = su_fields u) \<Longrightarrow> users_ok (change_user i f us)"
  by (rule users_ok_changed) (auto dest: users_okD)

lemma find_uid: "find (\<lambda>u. P u) us = Some u \<Longrightarrow> P u \<and> u \<in> set us"
  by (auto simp: find_Some_iff)

lemma accept_ok: "accept_user roles groups us m path body = Some us' \<Longrightarrow> users_ok us \<Longrightarrow> users_ok us'"
proof (induction roles groups us m path body rule: accept_user.induct)
  case (1 roles groups us path m)
  then show ?case
    by (auto simp: accept_fields_def stored_fields_facts intro!: users_ok_changed split: if_splits dest!: find_uid)
next
  case (2 roles groups us path m)
  then show ?case
    by (auto simp: accept_new_def users_ok_def id_of_def login_def string_value_def map_of_update wf_rep_update
        stored_fields_facts [unfolded login_def string_value_def] split: if_splits)
next
  case (3 roles groups us path js)
  then show ?case
    by (auto simp: accept_roles_def intro!: users_ok_same split: if_splits sum.splits dest!: find_uid)
next
  case (4 roles groups us path)
  then show ?case
    by (auto simp: accept_member_def intro!: users_ok_same dest!: find_uid)
qed auto

lemma users_after_ok: "users_ok (users_after roles groups t)"
  by (rule state_invariant) (auto simp: users_ok_def [of "[]"] intro: accept_ok)

lemma member_path_eq [simp]:
  "member_path u [] = user_path r i [] \<longleftrightarrow> r = master_realm \<and> i = uid u"
  "member_path u (CHR ''/'' # x) = user_path r i (CHR ''/'' # y) \<longleftrightarrow> r = master_realm \<and> i = uid u \<and> x = y"
  "member_path u [] \<noteq> user_path r j (CHR ''/'' # y)" "member_path u (CHR ''/'' # x) \<noteq> user_path r j []"
  by (auto simp: member_path_def)

lemma find_member:
  "find (\<lambda>u. user_path r i [] = member_path u []) us = (if r = master_realm then find (\<lambda>u. uid u = i) us else None)"
  "find (\<lambda>u. user_path r i (CHR ''/'' # x) = member_path u (CHR ''/'' # y)) us =
     (if r = master_realm \<and> x = y then find (\<lambda>u. uid u = i) us else None)"
  by (induction us) (auto simp: eq_commute [of "user_path r i _"])

lemma accounts_of_find: "accounts_of us (r, i) = Some ac \<longleftrightarrow>
    r = master_realm \<and> (\<exists>u. find (\<lambda>u. uid u = i) us = Some u \<and> ac = to_account u)"
  by (auto simp: accounts_of_def)

lemmas user_written = served_written [of "user_server roles groups" for roles groups, simplified]
lemmas user_shown = served_shown [of "user_server roles groups" for roles groups, simplified]

lemma trim_char_idem: "trim_char b (b # trim_char b s) = trim_char b s"
proof -
  let ?y = "dropWhile ((=) b) s" and ?x = "trim_char b s"
  have x: "rev ?x = dropWhile ((=) b) (rev ?y)" by (simp add: trim_char_def)
  have y: "?y = ?x @ rev (takeWhile ((=) b) (rev ?y))"
    using arg_cong [OF takeWhile_dropWhile_id [of "(=) b" "rev ?y"], of rev] by (simp add: x [symmetric])
  show ?thesis
  proof (cases "?x = []")
    case False
    then have "hd ?x = hd ?y" using y by (metis hd_append2)
    moreover have "?y \<noteq> []" using False y by (metis append_is_Nil_conv)
    ultimately have "hd ?x \<noteq> b" using hd_dropWhile [of "(=) b" s] by auto
    then have front: "dropWhile ((=) b) (b # ?x) = ?x" using False by (cases ?x) auto
    have "hd (rev ?x) \<noteq> b" using hd_dropWhile [of "(=) b" "rev ?y"] False unfolding x by (metis rev_is_Nil_conv x)
    then have "dropWhile ((=) b) (rev ?x) = rev ?x" using False by (cases "rev ?x") auto
    with front show ?thesis by (simp add: trim_char_def [of b "b # ?x"])
  next
    case True
    show ?thesis unfolding True by (simp add: trim_char_def)
  qed
qed

lemma canonical_idem [simp]: "canonical_group (canonical_group p) = canonical_group p"
  by (simp add: canonical_group_def trim_char_idem)

lemma rep_values [simp]:
  "string_value (role_rep n) ''name'' = n" "id_of (group_rep groups g) = g"
  "string_value (group_rep groups g) ''path'' = group_path_of groups master_realm g"
  by (simp_all add: role_rep_def group_rep_def string_value_def id_of_def)

lemma read_roles:
  assumes "read_users roles groups us (realm_roles_path realm i) = Some j" and "accounts_of us (realm, i) = Some ac"
  shows "\<exists>ms. j = objects ms \<and> names_of ms = ac_roles ac"
proof -
  obtain u where u: "realm = master_realm" "find (\<lambda>u. uid u = i) us = Some u" "ac = to_account u"
    using assms(2) by (auto simp: accounts_of_find)
  with assms(1) have "j = objects (map role_rep (su_roles u))"
    by (simp add: read_users_def realm_roles_path_def find_member)
  with u(3) show ?thesis by (intro exI [of _ "map role_rep (su_roles u)"]) (simp add: to_account_def image_image)
qed

lemma read_groups:
  assumes "read_users roles groups us (user_path realm i ''/groups'') = Some j" and "accounts_of us (realm, i) = Some ac"
  shows "\<exists>ms. j = objects ms \<and>
    (\<forall>m \<in> set ms. id_of m \<in> ac_groups ac \<and> string_value m ''path'' = group_path_of groups realm (id_of m))"
proof -
  obtain u where u: "realm = master_realm" "find (\<lambda>u. uid u = i) us = Some u" "ac = to_account u"
    using assms(2) by (auto simp: accounts_of_find)
  with assms(1) have "j = objects (map (group_rep groups) (su_groups u))"
    by (simp add: read_users_def find_member)
  with u show ?thesis by (intro exI [of _ "map (group_rep groups) (su_groups u)"]) (simp add: to_account_def)
qed

text \<open>The paths of the other reads are none of a member.\<close>

lemma find_none: "(\<And>x. x \<in> set xs \<Longrightarrow> \<not> P x) \<Longrightarrow> find P xs = None"
  by (simp add: find_None_iff)

lemma not_member_path [simp]:
  "realm_path r (CHR ''/'' # CHR ''r'' # x) \<noteq> member_path u y"
  "group_lookup_path r p \<noteq> member_path u y"
  "search_path r n \<noteq> member_path u y"
  by (simp_all add: member_path_def user_path_def group_lookup_path_def search_path_def)

lemma not_role_path [simp]:
  "group_lookup_path r p \<noteq> realm_path r' (CHR ''/'' # CHR ''r'' # x)"
  "search_path r n \<noteq> realm_path r' (CHR ''/'' # CHR ''r'' # x)"
  "search_path r n \<noteq> group_lookup_path r' p"
  by (simp_all add: group_lookup_path_def search_path_def)

lemma search_prefix: "has_prefix path (realm_path master_realm ''/users?'') \<Longrightarrow>
    \<exists>z. path = realm_path master_realm (''/users?'' @ z)"
  unfolding has_prefix_def
  by (rule exI [of _ "drop (length (realm_path master_realm ''/users?'')) path"])
    (metis append.assoc append_take_drop_id realm_path_def)

lemma no_search [simp]:
  "\<not> has_prefix (realm_path r (CHR ''/'' # CHR ''r'' # x)) (realm_path master_realm ''/users?'')"
  "\<not> has_prefix (group_lookup_path r p) (realm_path master_realm ''/users?'')"
  by (auto dest!: search_prefix simp: group_lookup_path_def)

lemma searched: "has_prefix (search_path r n) (realm_path r ''/users?'')"
  by (simp add: has_prefix_def search_path_def realm_path_def)

lemma read_one_role:
  "read_users roles groups us (realm_path realm (''/roles/'' @ path_escape nam)) = Some j \<Longrightarrow> j = JObj (role_rep nam)"
  by (auto simp: read_users_def find_none path_escape_inj not_role_path [symmetric]
      split: option.splits dest!: find_uid)

lemma read_one_group:
  "read_users roles groups us (group_lookup_path realm p) = Some j \<Longrightarrow>
     \<exists>g. j = JObj (group_rep groups g) \<and> group_path_of groups realm g = canonical_group p"
  by (auto simp: read_users_def find_none group_path_of_def split: option.splits if_splits dest!: find_uid)

lemma find_distinct: "distinct (map uid us) \<Longrightarrow> u \<in> set us \<Longrightarrow> find (\<lambda>v. uid v = uid u) us = Some u"
  by (induction us) auto

lemma read_search:
  assumes "read_users roles groups us (search_path realm nam) = Some j" and "users_ok us"
  shows "\<exists>ms. j = objects ms \<and> (\<forall>m \<in> set ms. is_account realm (accounts_of us) m)"
proof -
  let ?found = "filter (\<lambda>u. search_path realm nam = search_path master_realm (uid u)) us"
  have j: "j = objects (map su_fields ?found)"
    using assms(1) by (auto simp: read_users_def find_none split: if_splits option.splits dest!: find_uid)
  have "is_account realm (accounts_of us) (su_fields u)"
    if u: "u \<in> set us" "search_path realm nam = search_path master_realm (uid u)" for u
  proof -
    have "find (\<lambda>v. uid v = uid u) us = Some u" using find_distinct [OF users_ok_ids [OF assms(2)] u(1)] .
    moreover have "realm = master_realm" using u(2) by (simp add: search_path_def)
    ultimately show ?thesis
      using users_okD [OF assms(2) u(1)] by (simp add: is_account_def accounts_of_def to_account_def)
  qed
  then show ?thesis unfolding j by (intro exI [of _ "map su_fields ?found"]) auto
qed

text \<open>The writes, as updates of the accounts.\<close>

lemma write_fields:
  assumes "accept_user roles groups us PUT (user_path realm i []) (Some (JObj m)) = Some us'"
    and "accounts_of us (realm, i) = Some ac"
  shows "\<exists>new. accounts_of us' = (accounts_of us)((realm, i) \<mapsto> ac\<lparr>ac_fields := new\<rparr>) \<and>
    holds (profile m) new \<and> login new = login m"
proof -
  obtain u where u: "realm = master_realm" "find (\<lambda>u. uid u = i) us = Some u" "ac = to_account u"
    using assms(2) by (auto simp: accounts_of_find)
  have "user_path realm i [] \<notin> (\<lambda>u. member_path u ''/reset-password'') ` set us" by (auto simp: member_path_def)
  with assms(1) obtain v where v: "us' = change_user (uid v) (su_fields_update (\<lambda>_. stored_fields m)) us"
    "user_path realm i [] = member_path v []" "wf_rep m" "login m = uid v"
    by (auto simp: accept_fields_def dest!: find_uid)
  then have i: "uid v = i" by (simp add: member_path_def)
  have "accounts_of us' = (accounts_of us)((master_realm, i) \<mapsto> to_account (su_fields_update (\<lambda>_. stored_fields m) u))"
    unfolding v(1) i by (rule accounts_changed [OF _ u(2)]) (use v i in \<open>simp add: stored_fields_facts\<close>)
  with u v(3) show ?thesis
    by (intro exI [of _ "stored_fields m"]) (simp add: to_account_def stored_fields_facts)
qed

lemma write_roles:
  assumes "accept_user roles groups us POST (realm_roles_path realm i) (Some (JArr (map JObj ms))) = Some us'"
    and "accounts_of us (realm, i) = Some ac"
  shows "accounts_of us' = (accounts_of us)((realm, i) \<mapsto> ac\<lparr>ac_roles := ac_roles ac \<union> names_of ms\<rparr>)"
proof -
  obtain u where u: "realm = master_realm" "find (\<lambda>u. uid u = i) us = Some u" "ac = to_account u"
    using assms(2) by (auto simp: accounts_of_find)
  have "us' = change_user (uid u) (su_roles_update (\<lambda>rs. rs @ map (\<lambda>m. string_value m ''name'') ms)) us"
    using assms(1) u by (auto simp: into_objects accept_roles_def realm_roles_path_def find_member split: if_splits)
  moreover have "uid u = i" using u(2) by (auto dest: find_uid)
  ultimately show ?thesis
    using accounts_changed [OF _ u(2), of "su_roles_update (\<lambda>rs. rs @ map (\<lambda>m. string_value m ''name'') ms)"] u
    by (simp add: to_account_def)
qed

lemma write_member:
  assumes "accept_user roles groups us PUT (user_path realm i (''/groups/'' @ path_escape g)) None = Some us'"
    and "accounts_of us (realm, i) = Some ac"
  shows "accounts_of us' = (accounts_of us)((realm, i) \<mapsto> ac\<lparr>ac_groups := insert g (ac_groups ac)\<rparr>)"
proof -
  obtain u where u: "realm = master_realm" "find (\<lambda>u. uid u = i) us = Some u" "ac = to_account u"
    using assms(2) by (auto simp: accounts_of_find)
  have "us' = change_user i (su_groups_update (\<lambda>gs. g # gs)) us"
    using assms(1) by (auto simp: accept_member_def member_path_def path_escape_inj dest!: find_uid)
  then show ?thesis
    using accounts_changed [OF _ u(2), of "su_groups_update (\<lambda>gs. g # gs)"] u by (simp add: to_account_def)
qed

lemma find_appended: "find P (xs @ [x]) = (case find P xs of None \<Rightarrow> if P x then Some x else None | Some y \<Rightarrow> Some y)"
  by (induction xs) auto

lemma write_new:
  assumes "accept_user roles groups us POST (realm_path realm ''/users'') (Some (JObj m)) = Some us'"
  shows "\<exists>i ac. accounts_of us (realm, i) = None \<and> accounts_of us' = (accounts_of us)((realm, i) \<mapsto> ac) \<and>
    holds (profile m) (ac_fields ac) \<and> login (ac_fields ac) = login m"
proof -
  let ?fields = "set_key ''id'' (JStr (login m)) (stored_fields m)"
  let ?u = "\<lparr>su_fields = ?fields, su_roles = [], su_groups = []\<rparr>"
  have m: "wf_rep m" "map_of m ''id'' = None" "login m \<notin> uid ` set us" "us' = us @ [?u]" "realm = master_realm"
    using assms by (simp_all add: accept_new_def split: if_splits)
  have u: "uid ?u = login m" using stored_fields_facts(2) [OF m(1)] by (simp add: login_def string_value_def map_of_update)
  have none: "find (\<lambda>u. uid u = login m) us = None" using m(3) by (force simp: find_None_iff)
  have "accounts_of us' = (accounts_of us)((master_realm, login m) \<mapsto> to_account ?u)"
  proof
    fix key
    show "accounts_of us' key = ((accounts_of us)((master_realm, login m) \<mapsto> to_account ?u)) key"
      using none u by (cases key) (auto simp: accounts_of_def m(4) find_appended split: option.split)
  qed
  moreover have "holds (profile m) ?fields"
    using stored_fields_facts(4) [OF m(1)] m(2)
    by (force simp: holds_iff map_of_update profile_def map_of_eq_None_iff)
  ultimately show ?thesis
    using m(5) none u by (intro exI [of _ "login m"] exI [of _ "to_account ?u"]) (simp add: accounts_of_def to_account_def)
qed

lemma write_password:
  assumes "accept_user roles groups us PUT (user_path realm i ''/reset-password'') body = Some us'"
  shows "us' = us"
proof (cases body)
  case None
  then show ?thesis
    using assms by (auto simp: accept_member_def member_path_def dest!: find_uid)
next
  case (Some j)
  then obtain m where "j = JObj m" using assms by (cases j) auto
  then show ?thesis
    using assms Some by (auto simp: accept_fields_def member_path_def dest!: find_uid split: if_splits)
qed

interpretation memory: user_store "user_env roles groups cluster" "\<lambda>t. accounts_of (users_after roles groups t)"
    "group_path_of groups" for roles groups cluster
proof unfold_locales
  let ?env = "user_env roles groups cluster" and ?us = "users_after roles groups"
  show "accounts_of (?us (t @ [c])) = accounts_of (?us t)" if "quiet c" for c t
    using that by (simp add: state_quiet)
  show "\<exists>ms. lists_objects ?env raw ms \<and> (\<forall>m \<in> set ms. is_account realm (accounts_of (?us t)) m)"
    if "replied ?env t base GET (search_path realm nam) None raw" for t base realm nam raw
    using user_shown [OF that] read_search [OF _ users_after_ok] shown_lists(1) by metis
  show "i = j" if "accounts_of (?us t) (realm, i) = Some x" "accounts_of (?us t) (realm, j) = Some y"
      "login (ac_fields x) = login (ac_fields y)" for t realm i x j y
    using that by (auto simp: accounts_of_find to_account_def dest!: find_uid)
  show "\<exists>i ac. accounts_of (?us t) (realm, i) = None \<and>
      accounts_of (?us (t @ [AdminCall base POST (realm_path realm ''/users'') (Some (JObj m))]))
        = (accounts_of (?us t))((realm, i) \<mapsto> ac) \<and> holds (profile m) (ac_fields ac) \<and> login (ac_fields ac) = login m"
    if "replied ?env t base POST (realm_path realm ''/users'') (Some (JObj m)) raw" for t base realm m raw
    by (rule write_new [OF user_written [OF that]]) simp
  show "\<exists>new. accounts_of (?us (t @ [AdminCall base PUT (user_path realm i []) (Some (JObj m))]))
      = (accounts_of (?us t))((realm, i) \<mapsto> ac\<lparr>ac_fields := new\<rparr>) \<and> holds (profile m) new \<and> login new = login m"
    if "replied ?env t base PUT (user_path realm i []) (Some (JObj m)) raw" "accounts_of (?us t) (realm, i) = Some ac"
    for t base realm i m raw ac
    by (rule write_fields [OF user_written [OF that(1)] that(2)]) simp
  show "accounts_of (?us (t @ [AdminCall base PUT (user_path realm i ''/reset-password'') body])) = accounts_of (?us t)"
    if "replied ?env t base PUT (user_path realm i ''/reset-password'') body raw" for t base realm i body raw
    using write_password [OF user_written [OF that]] by simp
  show "\<exists>ms. lists_objects ?env raw ms \<and> names_of ms = ac_roles ac"
    if "replied ?env t base GET (realm_roles_path realm i) None raw" "accounts_of (?us t) (realm, i) = Some ac"
    for t base realm i raw ac
    using user_shown [OF that(1)] read_roles [OF _ that(2)] shown_lists(1) by metis
  show "\<exists>m. shows_one ?env raw m \<and> string_value m ''name'' = nam"
    if "replied ?env t base GET (realm_path realm (''/roles/'' @ path_escape nam)) None raw" for t base realm nam raw
    using user_shown [OF that] read_one_role shown_lists(2) rep_values(1) by metis
  show "accounts_of (?us (t @ [AdminCall base POST (realm_roles_path realm i) (Some (JArr (map JObj ms)))]))
      = (accounts_of (?us t))((realm, i) \<mapsto> ac\<lparr>ac_roles := ac_roles ac \<union> names_of ms\<rparr>)"
    if "replied ?env t base POST (realm_roles_path realm i) (Some (JArr (map JObj ms))) raw"
      "accounts_of (?us t) (realm, i) = Some ac" for t base realm i ms raw ac
    by (rule write_roles [OF user_written [OF that(1)] that(2)]) simp
  show "\<exists>ms. lists_objects ?env raw ms \<and>
      (\<forall>m \<in> set ms. id_of m \<in> ac_groups ac \<and> string_value m ''path'' = group_path_of groups realm (id_of m))"
    if "replied ?env t base GET (user_path realm i ''/groups'') None raw" "accounts_of (?us t) (realm, i) = Some ac"
    for t base realm i raw ac
    using user_shown [OF that(1)] read_groups [OF _ that(2)] shown_lists(1) by metis
  show "\<exists>m. shows_one ?env raw m \<and> group_path_of groups realm (id_of m) = canonical_group p"
    if "replied ?env t base GET (group_lookup_path realm p) None raw" for t base realm p raw
    using user_shown [OF that] read_one_group shown_lists(2) rep_values(2) by metis
  show "canonical_group (group_path_of groups realm g) = group_path_of groups realm g" for realm g
    by (simp add: group_path_of_def)
  show "accounts_of (?us (t @ [AdminCall base PUT (user_path realm i (''/groups/'' @ path_escape g)) None]))
      = (accounts_of (?us t))((realm, i) \<mapsto> ac\<lparr>ac_groups := insert g (ac_groups ac)\<rparr>)"
    if "replied ?env t base PUT (user_path realm i (''/groups/'' @ path_escape g)) None raw"
      "accounts_of (?us t) (realm, i) = Some ac" for t base realm i g raw ac
    by (rule write_member [OF user_written [OF that(1)] that(2)]) simp
qed

section \<open>A synchronisation in memory\<close>

lemmas user_sends = served_sends [of "user_server roles groups" for roles groups, simplified]
lemmas user_many = served_many [of "user_server roles groups" for roles groups, simplified]
lemmas user_one = served_one [of "user_server roles groups" for roles groups, simplified]

text \<open>A new account with a role and a group.\<close>

definition root_fields :: representation where
  "root_fields = [(''username'', JStr ''root''), (''enabled'', JBool True), (''id'', JStr ''root'')]"

definition root_user :: "string list \<Rightarrow> string list \<Rightarrow> stored_user" where
  "root_user rs gs = \<lparr>su_fields = root_fields, su_roles = rs, su_groups = gs\<rparr>"

abbreviation root_roles :: "string list" where
  "root_roles \<equiv> [''admin'']"

abbreviation root_groups :: "(string \<times> string) list" where
  "root_groups \<equiv> [(''g1'', ''/ops'')]"

lemma lower_root: "to_lower ''root'' = ''root''"
  by (simp add: to_lower_def lower_char_def)

lemma root_sent:
  "with_credential cred (desired_user_representation sample_user) =
     [(''username'', JStr ''root''), (''enabled'', JBool True)] @
     (if uc_password cred = [] then [] else [(''credentials'', credential_json cred)])"
  by (simp add: with_credential_def desired_user_representation_def sample_user_def set_nonempty_def Let_def bool_value_def)

lemma root_stored:
  "set_key ''id'' (JStr ''root'') (stored_fields (with_credential cred (desired_user_representation sample_user))) = root_fields"
  "wf_rep (with_credential cred (desired_user_representation sample_user))"
  "login (with_credential cred (desired_user_representation sample_user)) = ''root''"
  "map_of (with_credential cred (desired_user_representation sample_user)) ''id'' = None"
  "string_value (with_credential cred (desired_user_representation sample_user)) ''username'' = ''root''"
  by (simp_all add: root_sent root_fields_def stored_fields_def login_def string_value_def lower_root map_delete_def
      wf_rep_iff credential_json_def)

lemma root_facts [simp]:
  "login root_fields = ''root''" "string_value root_fields ''id'' = ''root''" "string_value root_fields ''username'' = ''root''"
  "su_fields (root_user rs gs) = root_fields" "su_roles (root_user rs gs) = rs" "su_groups (root_user rs gs) = gs"
  "user_realm sample_user = master_realm" "us_username sample_user = ''root''"
  "us_realm_roles sample_user = Some root_roles" "us_groups sample_user = Some [''/ops'']"
  "canonical_group ''/ops'' = ''/ops''"
  by (simp_all add: root_fields_def login_def string_value_def lower_root root_user_def user_realm_def sample_user_def
      canonical_group_def trim_char_def)

lemma root_reads:
  "read_users root_roles root_groups [] (search_path master_realm ''root'') = Some (objects [])"
  "read_users root_roles root_groups [root_user [] []] (search_path master_realm ''root'') = Some (objects [root_fields])"
  "read_users root_roles root_groups [root_user [] []] (realm_roles_path master_realm ''root'') = Some (objects [])"
  "read_users root_roles root_groups [root_user [] []] (realm_path master_realm (''/roles/'' @ path_escape ''admin''))
     = Some (JObj (role_rep ''admin''))"
  "read_users root_roles root_groups [root_user root_roles []] (user_path master_realm ''root'' ''/groups'') = Some (objects [])"
  "read_users root_roles root_groups [root_user root_roles []] (group_lookup_path master_realm ''/ops'')
     = Some (JObj (group_rep root_groups ''g1''))"
  by (simp_all add: read_users_def find_none not_member_path [unfolded member_path_def] member_path_def realm_roles_path_def
      group_path_of_def searched)

lemma root_writes:
  "accept_user root_roles root_groups [] POST (realm_path master_realm ''/users'')
     (Some (JObj (with_credential cred (desired_user_representation sample_user)))) = Some [root_user [] []]"
  "accept_user root_roles root_groups [root_user [] []] POST (realm_roles_path master_realm ''root'')
     (Some (JArr (map JObj [[(''id'', JStr ''admin''), (''name'', JStr ''admin'')]]))) = Some [root_user root_roles []]"
  "accept_user root_roles root_groups [root_user root_roles []] PUT
     (user_path master_realm ''root'' (''/groups/'' @ path_escape ''g1'')) None = Some [root_user root_roles [''g1'']]"
proof -
  show "accept_user root_roles root_groups [] POST (realm_path master_realm ''/users'')
     (Some (JObj (with_credential cred (desired_user_representation sample_user)))) = Some [root_user [] []]"
    by (simp add: accept_new_def root_user_def root_stored)
  show "accept_user root_roles root_groups [root_user [] []] POST (realm_roles_path master_realm ''root'')
     (Some (JArr (map JObj [[(''id'', JStr ''admin''), (''name'', JStr ''admin'')]]))) = Some [root_user root_roles []]"
    by (simp add: into_representation_def accept_roles_def string_value_def member_path_def realm_roles_path_def change_user_def
        root_user_def root_fields_def login_def lower_root)
  show "accept_user root_roles root_groups [root_user root_roles []] PUT
     (user_path master_realm ''root'' (''/groups/'' @ path_escape ''g1'')) None = Some [root_user root_roles [''g1'']]"
    by (simp add: accept_member_def member_path_def change_user_def root_user_def root_fields_def login_def string_value_def lower_root)
qed

lemma root_search:
  assumes "users_in roles groups s = us"
    and "read_users roles groups us (search_path master_realm ''root'') = Some (objects ms)"
  shows "\<exists>s'. run_state (get_user (user_env roles groups cluster) a master_realm ''root'') s =
      (Inr (find (\<lambda>u. string_value u ''username'' = ''root'') ms), s') \<and> users_in roles groups s' = us"
  using user_many [OF assms, of cluster a] by (auto simp: get_user_def search_path_def lower_root)

lemma root_synchronised:
  assumes start: "users_in root_roles root_groups s = []"
  shows "\<exists>res s'. run_state (reconcile_user (user_env root_roles root_groups cluster) a sample_user cred) s
      = (Inr res, s') \<and> ur_user_id res = ''root'' \<and> users_in root_roles root_groups s' = [root_user root_roles [''g1'']]"
proof -
  let ?env = "user_env root_roles root_groups cluster" and ?us = "users_in root_roles root_groups"
  let ?new = "with_credential cred (desired_user_representation sample_user)"
  let ?role = "[(''id'', JStr ''admin''), (''name'', JStr ''admin'')]"
  obtain s1 where s1: "run_state (get_user ?env a master_realm ''root'') s = (Inr None, s1)" "?us s1 = []"
    using root_search [OF start root_reads(1), of cluster a] by auto
  obtain s2 where s2: "run_state (do_send ?env a POST (realm_path master_realm ''/users'') (Some (JObj ?new))) s1 = (Inr (), s2)"
    "?us s2 = [root_user [] []]" using user_sends [OF s1(2) root_writes(1), of cluster a] by blast
  obtain s3 where s3: "run_state (get_user ?env a master_realm ''root'') s2 = (Inr (Some root_fields), s3)"
    "?us s3 = [root_user [] []]" using root_search [OF s2(2) root_reads(2), of cluster a] by auto
  obtain s4 where s4: "run_state (get_many ?env a (realm_roles_path master_realm ''root'')) s3 = (Inr [], s4)"
    "?us s4 = [root_user [] []]" using user_many [OF s3(2) root_reads(3), of cluster a] by blast
  obtain s5 where s5: "run_state (get_realm_role ?env a master_realm ''admin'') s4 = (Inr (Some (role_rep ''admin'')), s5)"
    "?us s5 = [root_user [] []]" using user_one [OF s4(2) root_reads(4), of cluster a] unfolding get_realm_role_def by blast
  obtain s6 where s6: "run_state (do_send ?env a POST (realm_roles_path master_realm ''root'') (Some (JArr (map JObj [?role])))) s5
      = (Inr (), s6)" "?us s6 = [root_user root_roles []]"
    using user_sends [OF s5(2) root_writes(2), of cluster a] by blast
  obtain s7 where s7: "run_state (get_many ?env a (user_path master_realm ''root'' ''/groups'')) s6 = (Inr [], s7)"
    "?us s7 = [root_user root_roles []]" using user_many [OF s6(2) root_reads(5), of cluster a] by blast
  obtain s8 where s8: "run_state (get_group_by_path ?env a master_realm ''/ops'') s7 = (Inr (Some (group_rep root_groups ''g1'')), s8)"
    "?us s8 = [root_user root_roles []]"
    using user_one [OF s7(2) root_reads(6), of cluster a]
    unfolding get_group_by_path_def Let_def group_lookup_path_def by blast
  obtain s9 where s9: "run_state (do_send ?env a PUT (user_path master_realm ''root'' (''/groups/'' @ path_escape ''g1'')) None) s8
      = (Inr (), s9)" "?us s9 = [root_user root_roles [''g1'']]"
    using user_sends [OF s8(2) root_writes(3), of cluster a] by blast
  have group: "string_value (group_rep root_groups ''g1'') ''id'' = ''g1''" using rep_values(2) by (simp add: id_of_def)
  have role: "string_value (role_rep ''admin'') ''id'' = ''admin''" by (simp add: role_rep_def string_value_def)
  have name: "string_value ?new ''username'' = ''root''" by (rule root_stored)
  let ?res = "\<lparr>ur_user_id = ''root'', ur_created = True, ur_adopted = False, ur_updated = False,
      ur_password_set = (uc_password cred \<noteq> [])\<rparr>"
  have place: "run_state (place_user ?env a sample_user cred None) s1 = (Inr ?res, s3)"
    using s2(1) s3(1) name by (simp add: place_user_def create_user_def identifier_of_def Let_def)
  have roles: "run_state (reconcile_realm_roles ?env a master_realm ''root'' (Some root_roles)) s3 = (Inr True, s6)"
    using s4(1) s5(1) s6(1) role
    by (simp add: reconcile_realm_roles_def list_user_realm_roles_def keyed_by_def missing_role_def add_user_realm_roles_def)
  have groups: "run_state (reconcile_user_groups ?env a master_realm ''root'' (Some [''/ops''])) s6 = (Inr True, s9)"
    using s7(1) s8(1) s9(1) group
    by (simp add: reconcile_user_groups_def list_user_groups_def keyed_by_def join_group_def add_user_to_group_def)
  have "run_state (reconcile_user ?env a sample_user cred) s = (Inr (?res\<lparr>ur_updated := True\<rparr>), s9)"
    using s1(1) place roles groups by (simp add: reconcile_user_def Let_def rotate_password_def)
  with s9(2) show ?thesis by auto
qed

definition root_password :: user_credential where
  "root_password = \<lparr>uc_password = ''pw'', uc_temporary = False, uc_rotate = False\<rparr>"

theorem reconcile_user_refines_witness:
  "\<exists>res s'. run_state (reconcile_user (user_env root_roles root_groups team_cluster) 0 sample_user root_password) one_api
       = (Inr res, s') \<and>
     user_declared (group_path_of root_groups) sample_user Map.empty res
       (accounts_of (users_after root_roles root_groups (st_trace s')))"
proof -
  have start: "users_after root_roles root_groups (st_trace one_api) = []"
    by (simp add: one_api_def initial_state_def)
  have none: "accounts_of [] = Map.empty" by (rule ext) (simp add: accounts_of_def)
  obtain res s' where run: "run_state (reconcile_user (user_env root_roles root_groups team_cluster) 0 sample_user root_password)
      one_api = (Inr res, s')"
    using root_synchronised [of one_api team_cluster 0 root_password] start by (auto simp: state_in_def)
  from reconcile_user_refines [OF memory.user_store_axioms run] run show ?thesis unfolding start none by blast
qed

text \<open>The pass over the resource of that account, from the first state of the program.\<close>

definition team_user :: k8s_object where
  "team_user = with_finalizer keycloak_user_finalizer
     (new_object keycloak_user_gvk ''team'' ''root'' (UserContent sample_user new_user_status))"

fun user_cluster :: "gvk \<Rightarrow> string \<Rightarrow> string \<Rightarrow> go_err + k8s_object" where
  "user_cluster k ns n =
     (if k = keycloak_user_gvk then Inr team_user
      else if k = secret_gvk \<and> n = admin_secret_name then Inr team_secret
      else Inl (K8sErr NotFound ''not found''))"

abbreviation user_world :: env where
  "user_world \<equiv> user_env root_roles root_groups user_cluster"

definition user_reconciler :: api_reconciler where
  "user_reconciler = (sample_api_reconciler [])\<lparr>ar_env := user_world\<rparr>"

lemma user_world_facts [simp]:
  "ar_env user_reconciler = user_world"
  "has_finalizer keycloak_user_finalizer team_user" "\<not> is_deleting team_user"
  "user_spec_of team_user = sample_user" "meta_namespace (ob_meta team_user) = ''team''"
  by (simp_all add: user_reconciler_def team_user_def with_finalizer_def
      set_finalizers_def has_finalizer_def is_deleting_def new_meta_def user_spec_of_def)

lemma user_secret_readable: "has_admin_secret user_world ns"
  by (auto simp: has_admin_secret_def team_secret_def secret_value_def secret_data_def admin_secret_username_key_def
      admin_secret_password_key_def admin_secret_name_def internal_admin_secret_name_def secret_gvk_def
      keycloak_user_gvk_def)

lemma user_takes_status: "takes_status user_world keycloak_user_gvk ns nam"
  by (simp add: takes_status_def)

lemma user_published:
  "\<exists>r s' published spec st. run_state (reconcile_user_resource user_reconciler ''team'' ''root'') initial_state = (r, s') \<and>
     K8sUpdateStatus published \<in> set (new_calls initial_state s') \<and>
     ob_content published = UserContent spec st \<and> ust_status st = ServiceReady"
proof -
  let ?s = "record_call (K8sGet keycloak_user_gvk ''team'' ''root'') initial_state"
  have found: "env_get user_world (st_trace initial_state) keycloak_user_gvk ''team'' ''root'' = Inr team_user" by simp
  obtain a u before where a: "run_state (resource_admin_api user_reconciler ''team'') ?s = (Inr a, u)"
    and fresh: "users_in root_roles root_groups u = []" and before: "st_trace u = st_trace ?s @ before"
    using served_resolved [OF user_world_facts(1) user_secret_readable] by (metis user_server_simps(1))
  obtain res v where v: "run_state (reconcile_user user_world a sample_user no_credential) u = (Inr res, v)"
    using root_synchronised [OF fresh, of user_cluster a no_credential] by blast
  obtain later where later: "st_trace v = st_trace u @ later" using emitted [OF account_writes v] ..
  define status where "status = with_user_status ((rotated_status sample_user (adopted_status (user_status_of team_user) res))
      \<lparr>ust_status := ServiceReady, ust_message := ''Keycloak user is reconciled'',
       ust_observed_generation := meta_generation (ob_meta team_user)\<rparr>)"
  obtain current s' where s': "run_state (write_status user_world keycloak_user_gvk ''team'' ''root'' status) v = ((), s')"
    "st_trace s' = st_trace v @ [K8sGet keycloak_user_gvk ''team'' ''root'', K8sUpdateStatus (status current)]"
    by (rule status_written [OF user_takes_status])
  have none: "us_credential sample_user = None" by (simp add: sample_user_def)
  have "\<exists>r. run_state (reconcile_user_resource user_reconciler ''team'' ''root'') initial_state = (r, s')"
    using a v s'(1) none found
    by (simp add: reconcile_user_resource_def run_fetched with_admin_api_def ensure_finalizer_def
        reconcile_live_user_def failing_step_def ready_pass_def set_user_status_def run_state_bind Let_def
        user_credential_for_def store_generated_def status_def)
  moreover have "K8sUpdateStatus (status current) \<in> set (new_calls initial_state s')"
    using before later s'(2) by (simp add: new_calls_def)
  moreover have "\<exists>spec st. ob_content (status current) = UserContent spec st \<and> ust_status st = ServiceReady"
    by (simp add: status_def with_user_status_def)
  ultimately show ?thesis by blast
qed

theorem ready_user_is_held_witness:
  "\<exists>s' published spec st ob res.
     K8sUpdateStatus published \<in> set (new_calls initial_state s') \<and> ob_content published = UserContent spec st \<and>
     ust_status st = ServiceReady \<and> worked_on user_world keycloak_user_finalizer team_user ob \<and>
     ust_observed_generation st = meta_generation (ob_meta ob) \<and>
     user_declared (group_path_of root_groups) (user_spec_of ob) Map.empty res
       (accounts_of (users_after root_roles root_groups (st_trace s')))"
proof -
  have start: "accounts_of (users_after root_roles root_groups (st_trace initial_state)) = Map.empty"
    by (rule ext) (simp add: initial_state_def accounts_of_def)
  have store: "user_store (ar_env user_reconciler) (\<lambda>t. accounts_of (users_after root_roles root_groups t))
      (group_path_of root_groups)" using memory.user_store_axioms by simp
  have found: "env_get (ar_env user_reconciler) (st_trace initial_state) keycloak_user_gvk ''team'' ''root'' = Inr team_user"
    by simp
  obtain r s' published spec st where run: "run_state (reconcile_user_resource user_reconciler ''team'' ''root'') initial_state = (r, s')"
    and ready: "K8sUpdateStatus published \<in> set (new_calls initial_state s')"
      "ob_content published = UserContent spec st" "ust_status st = ServiceReady"
    using user_published by blast
  from ready_user_is_held [OF store found run ready] ready show ?thesis
    unfolding start user_world_facts(1) by metis
qed

end
