(* ===== verification/Client_Store.thy ===== *)
theory Client_Store
  imports Realm_Store Memory_Server
begin

text \<open>
  The contract of a Keycloak that keeps clients with their protocol mappers, client scopes and the
  roles of their service accounts, against which the synchronisation of a client
  (\<^verbatim>\<open>internal/keycloak/clientsync.go\<close>) and the controller of KeycloakClients
  (\<^verbatim>\<open>controllers/keycloakclient_controller.go\<close>) are shown to implement an update of the store, and a
  server in memory that satisfies it.
\<close>

section \<open>The fields of a client\<close>

text \<open>A list among the fields of a client, such as its redirect URIs, is kept as a set.\<close>

definition same_items :: "json list \<Rightarrow> json list \<Rightarrow> bool" where
  "same_items xs ys \<longleftrightarrow>
     list_all (\<lambda>x. list_ex (\<lambda>y. deep_equal x y) ys) xs \<and> list_all (\<lambda>y. list_ex (\<lambda>x. deep_equal x y) xs) ys"

fun kept_value :: "json \<Rightarrow> json \<Rightarrow> bool" where
  "kept_value (JArr xs) (JArr ys) = same_items xs ys"
| "kept_value v w = holds_value v w"

definition kept_fields :: "representation \<Rightarrow> representation \<Rightarrow> bool" where
  "kept_fields m n \<longleftrightarrow>
     list_all (\<lambda>p. case map_of n (fst p) of None \<Rightarrow> False | Some w \<Rightarrow> kept_value (snd p) w) m"

lemma kept_fields_iff: "kept_fields m n \<longleftrightarrow> (\<forall>k v. (k, v) \<in> set m \<longrightarrow> (\<exists>w. map_of n k = Some w \<and> kept_value v w))"
  by (simp add: kept_fields_def all_fields)

lemma same_items_iff:
  "same_items xs ys \<longleftrightarrow> (\<forall>x \<in> set xs. \<exists>y \<in> set ys. deep_equal x y) \<and> (\<forall>y \<in> set ys. \<exists>x \<in> set xs. deep_equal x y)"
  by (simp add: same_items_def list_all_iff list_ex_iff)

lemma deep_equal_items: "list_all2 deep_equal xs ys \<Longrightarrow> same_items xs ys"
  unfolding same_items_iff by (metis in_set_conv_nth list_all2_conv_all_nth)

lemma holds_kept: "holds_value v w \<Longrightarrow> kept_value v w"
  by (cases v; cases w) (auto simp: deep_equal_items)

lemma same_items_trans: "same_items xs ys \<Longrightarrow> same_items ys zs \<Longrightarrow> same_items xs zs"
  unfolding same_items_iff by (meson deep_equal_trans)

lemma holds_kept_trans: "holds_value u v \<Longrightarrow> kept_value v w \<Longrightarrow> kept_value u w"
proof (cases u)
  case (JArr xs)
  assume "holds_value u v" and vw: "kept_value v w"
  then obtain ys where v: "v = JArr ys" "same_items xs ys"
    using JArr deep_equal_items by (cases v) auto
  with vw JArr show ?thesis by (cases w) (auto intro: same_items_trans)
next
  case (JObj m)
  assume uv: "holds_value u v" and vw: "kept_value v w"
  then have "holds_value v w" using JObj by (cases v; cases w) auto
  with uv show ?thesis by (intro holds_kept) (rule holds_value_trans)
qed (cases v; cases w; auto)+

lemma holds_kept_fields: "holds m n \<Longrightarrow> kept_fields m n"
  unfolding holds_iff kept_fields_iff by (meson holds_kept)

lemma kept_fields_trans: "holds l m \<Longrightarrow> kept_fields m n \<Longrightarrow> kept_fields l n"
  unfolding holds_iff kept_fields_iff by (meson holds_kept_trans map_of_SomeD)

lemma kept_text: "kept_fields m n \<Longrightarrow> map_of m k = Some (JStr s) \<Longrightarrow> map_of n k = Some (JStr s)"
proof -
  assume "kept_fields m n" and "map_of m k = Some (JStr s)"
  then obtain w where w: "map_of n k = Some w" "kept_value (JStr s) w"
    unfolding kept_fields_iff by (meson map_of_SomeD)
  then show ?thesis by (cases w) auto
qed

text \<open>
  A client is shown with its mappers and scopes, which are held next to the fields. A change of the
  client sends back the ones it was shown.
\<close>

definition attached :: "string list" where
  "attached = [''protocolMappers'', ''defaultClientScopes'', ''optionalClientScopes'']"

definition settings :: "representation \<Rightarrow> representation" where
  "settings m = filter (\<lambda>p. fst p \<notin> set attached) m"

definition shown_back :: "representation \<Rightarrow> representation \<Rightarrow> bool" where
  "shown_back m l \<longleftrightarrow> map (map_of m) attached = map (map_of l) attached"

lemma settings_lookup: "map_of (settings m) k = (if k \<in> set attached then None else map_of m k)"
  by (simp add: settings_def map_of_filtered [where P = "\<lambda>k. k \<notin> set attached"])

lemma holds_settings: "holds m n \<Longrightarrow> holds (settings m) (settings n)"
  unfolding holds_iff settings_lookup by (auto simp: settings_def)

lemma settings_value [simp]: "k \<notin> set attached \<Longrightarrow> string_value (settings m) k = string_value m k"
  by (simp add: string_value_def settings_lookup)

lemma settings_same: "set (keys_of m) \<inter> set attached = {} \<Longrightarrow> settings m = m"
  by (auto simp: settings_def filter_id_conv)

lemma client_id_not_attached [simp]: "''clientId'' \<notin> set attached" "''serviceAccountsEnabled'' \<notin> set attached" "''id'' \<notin> set attached"
  by (simp_all add: attached_def)

section \<open>What is wanted of a client\<close>

text \<open>Go maps name every key once, and the names of the declared mappers are taken to differ.\<close>

definition client_spec_ok :: "keycloak_client_spec \<Rightarrow> bool" where
  "client_spec_ok spec \<longleftrightarrow>
     pred_option (\<lambda>m. distinct (keys_of m)) (cs_attributes spec) \<and>
     list_all (\<lambda>p. distinct (keys_of (pm_config p))) (declared_list (cs_protocol_mappers spec)) \<and>
     distinct (map pm_name (declared_list (cs_protocol_mappers spec)))"

lemma desired_client_lookup:
  "map_of (desired_client_representation spec secret) ''clientId'' = Some (JStr (cs_client_id spec))"
  "map_of (desired_client_representation spec secret) ''serviceAccountsEnabled'' =
     Some (JBool (cs_allow_client_credentials_grant spec))"
  by (simp_all add: desired_client_representation_def Let_def map_of_update map_of_set_other)

lemma desired_client_no_attached: "k \<in> set attached \<Longrightarrow> map_of (desired_client_representation spec secret) k = None"
  by (auto simp: attached_def desired_client_representation_def Let_def map_of_update map_of_set_other)

lemma desired_client_settings [simp]:
  "settings (desired_client_representation spec secret) = desired_client_representation spec secret"
proof (rule settings_same)
  show "set (keys_of (desired_client_representation spec secret)) \<inter> set attached = {}"
    using desired_client_no_attached [of _ spec secret] by (auto simp: map_of_eq_None_iff)
qed

lemma wf_desired_mapper: "distinct (keys_of (pm_config p)) \<Longrightarrow> wf_rep (desired_mapper_representation p)"
  by (simp add: desired_mapper_representation_def wf_string_map)

lemma desired_mapper_name: "map_of (desired_mapper_representation p) ''name'' = Some (JStr (pm_name p))"
  by (simp add: desired_mapper_representation_def)

lemma merged_client:
  assumes "wf_rep (desired_client_representation spec secret)"
  shows "shown_back (merge_representation l (desired_client_representation spec secret)) l"
    and "map_of (merge_representation l (desired_client_representation spec secret)) ''serviceAccountsEnabled'' =
      Some (JBool (cs_allow_client_credentials_grant spec))"
  using assms desired_client_no_attached [of _ spec secret]
  by (simp_all add: shown_back_def merge_lookup_other map_of_eq_None_iff
      merge_lookup wf_rep_iff desired_client_lookup merge_value_def)

section \<open>A store of clients\<close>

abbreviation scope_kinds :: "string set" where
  "scope_kinds \<equiv> {default_scope_kind, optional_scope_kind}"

text \<open>
  Clients by realm and identifier. Mappers are held by name; a scope is assigned under one kind, by
  name; the service account of a client, when it has one, has roles of other clients, by the identifier
  of the client that owns them.
\<close>

record held_client =
  hc_fields :: representation
  hc_mappers :: "string \<Rightarrow> representation option"
  hc_scopes :: "string \<Rightarrow> string option"
  hc_account :: "string option"
  hc_roles :: "(string \<times> string) set"

type_synonym held_clients = "string \<times> string \<Rightarrow> held_client option"

definition clients_search :: "string \<Rightarrow> string \<Rightarrow> string" where
  "clients_search realm cid = realm_path realm (''/clients?clientId='' @ query_escape cid)"

definition shows_client :: "string \<Rightarrow> held_clients \<Rightarrow> representation \<Rightarrow> bool" where
  "shows_client realm h l \<longleftrightarrow> wf_rep l \<and> map_option hc_fields (h (realm, id_of l)) = Some (settings l)"

definition client_named :: "held_clients \<Rightarrow> string \<Rightarrow> string \<Rightarrow> string \<Rightarrow> bool" where
  "client_named h realm cid i \<longleftrightarrow>
     pred_option (\<lambda>c. string_value (hc_fields c) ''clientId'' = cid) (h (realm, i)) \<and> h (realm, i) \<noteq> None"

text \<open>
  What a change of the fields does to the rest: switching the service account on can add mappers and
  scopes, switching it off drops the account.
\<close>

definition client_put :: "representation \<Rightarrow> held_client \<Rightarrow> held_client \<Rightarrow> bool" where
  "client_put m c c' \<longleftrightarrow> kept_fields (settings m) (hc_fields c') \<and>
     map_le (hc_mappers c) (hc_mappers c') \<and> map_le (hc_scopes c) (hc_scopes c') \<and>
     (map_of m ''serviceAccountsEnabled'' = Some (JBool True) \<and> hc_account c \<noteq> None \<longrightarrow>
        hc_account c' = hc_account c \<and> hc_roles c' = hc_roles c)"

text \<open>
  What the synchronisation of a client relies on. A client that is found is held under its identifier
  and client ids are unique in a realm; a created client is a new one; mappers have unique names;
  adding a scope assigns it under the kind of the request unless it has the other one; roles
  are added to the service account they are posted for.
\<close>

locale client_store = kept_view env held for env and held :: "trace \<Rightarrow> held_clients" +
  fixes scope_name :: "string \<Rightarrow> string \<Rightarrow> string"
  assumes search_clients: "replied env t base GET (clients_search realm cid) None raw \<Longrightarrow>
      \<exists>ms. lists_objects env raw ms \<and> (\<forall>m \<in> set ms. shows_client realm (held t) m)"
    and one_client: "client_named (held t) realm cid i \<Longrightarrow> client_named (held t) realm cid j \<Longrightarrow> i = j"
    and post_client: "replied env t base POST (realm_path realm ''/clients'') (Some (JObj m)) raw \<Longrightarrow>
      \<exists>i c. held t (realm, i) = None \<and>
        held (t @ [AdminCall base POST (realm_path realm ''/clients'') (Some (JObj m))]) = (held t)((realm, i) \<mapsto> c) \<and>
        kept_fields (settings m) (hc_fields c)"
    and put_client: "replied env t base PUT (client_path realm i []) (Some (JObj m)) raw \<Longrightarrow> held t (realm, i) = Some c \<Longrightarrow>
      shows_client realm (held t) l \<Longrightarrow> id_of l = i \<Longrightarrow> shown_back m l \<Longrightarrow>
      \<exists>c'. held (t @ [AdminCall base PUT (client_path realm i []) (Some (JObj m))]) = (held t)((realm, i) \<mapsto> c') \<and>
        client_put m c c'"
    and get_mappers: "replied env t base GET (mappers_path realm i) None raw \<Longrightarrow> held t (realm, i) = Some c \<Longrightarrow>
      \<exists>ms. lists_objects env raw ms \<and> (\<forall>m \<in> set ms. wf_rep m \<and> hc_mappers c (string_value m ''name'') = Some m) \<and>
        dom (hc_mappers c) \<subseteq> (\<lambda>m. string_value m ''name'') ` set ms"
    and post_mapper: "replied env t base POST (mappers_path realm i) (Some (JObj m)) raw \<Longrightarrow> held t (realm, i) = Some c \<Longrightarrow>
      string_value m ''name'' = n \<Longrightarrow> hc_mappers c n = None \<Longrightarrow>
      \<exists>new. held (t @ [AdminCall base POST (mappers_path realm i) (Some (JObj m))])
          = (held t)((realm, i) \<mapsto> c\<lparr>hc_mappers := (hc_mappers c)(n \<mapsto> new)\<rparr>) \<and> holds m new"
    and put_mapper: "replied env t base PUT (mappers_path realm i @ ''/'' @ path_escape (id_of x)) (Some (JObj m)) raw \<Longrightarrow>
      held t (realm, i) = Some c \<Longrightarrow> string_value m ''name'' = n \<Longrightarrow> hc_mappers c n = Some x \<Longrightarrow>
      \<exists>new. held (t @ [AdminCall base PUT (mappers_path realm i @ ''/'' @ path_escape (id_of x)) (Some (JObj m))])
          = (held t)((realm, i) \<mapsto> c\<lparr>hc_mappers := (hc_mappers c)(n \<mapsto> new)\<rparr>) \<and> holds m new"
    and get_scopes: "replied env t base GET (scopes_path realm i kind) None raw \<Longrightarrow> kind \<in> scope_kinds \<Longrightarrow> held t (realm, i) = Some c \<Longrightarrow>
      \<exists>ms. lists_objects env raw ms \<and> (\<lambda>m. string_value m ''name'') ` set ms = {n. hc_scopes c n = Some kind}"
    and realm_scopes: "replied env t base GET (realm_path realm ''/client-scopes'') None raw \<Longrightarrow>
      \<exists>ms. lists_objects env raw ms \<and> (\<forall>m \<in> set ms. scope_name realm (id_of m) = string_value m ''name'')"
    and put_scope: "replied env t base PUT (scopes_path realm i kind @ ''/'' @ path_escape j) None raw \<Longrightarrow>
      kind \<in> scope_kinds \<Longrightarrow> held t (realm, i) = Some c \<Longrightarrow> scope_name realm j = n \<Longrightarrow>
      \<exists>k. held (t @ [AdminCall base PUT (scopes_path realm i kind @ ''/'' @ path_escape j) None])
          = (held t)((realm, i) \<mapsto> c\<lparr>hc_scopes := (hc_scopes c)(n \<mapsto> k)\<rparr>) \<and>
        (hc_scopes c n \<in> {None, Some kind} \<longrightarrow> k = kind)"
    and read_account: "replied env t base GET (client_path realm i ''/service-account-user'') None raw \<Longrightarrow>
      held t (realm, i) = Some c \<Longrightarrow> \<exists>m. shows_one env raw m \<and> hc_account c = Some (id_of m)"
    and get_account_roles: "replied env t base GET (client_roles_path realm j own) None raw \<Longrightarrow>
      held t (realm, i) = Some c \<Longrightarrow> hc_account c = Some j \<Longrightarrow>
      \<exists>ms. lists_objects env raw ms \<and> (\<lambda>m. string_value m ''name'') ` set ms = {n. (own, n) \<in> hc_roles c}"
    and read_client_role: "replied env t base GET (client_path realm own (''/roles/'' @ path_escape n)) None raw \<Longrightarrow>
      \<exists>m. shows_one env raw m \<and> string_value m ''name'' = n"
    and post_account_roles: "replied env t base POST (client_roles_path realm j own) (Some (JArr (map JObj ms))) raw \<Longrightarrow>
      held t (realm, i) = Some c \<Longrightarrow> hc_account c = Some j \<Longrightarrow>
      held (t @ [AdminCall base POST (client_roles_path realm j own) (Some (JArr (map JObj ms)))])
        = (held t)((realm, i) \<mapsto> c\<lparr>hc_roles := hc_roles c \<union> {own} \<times> (\<lambda>m. string_value m ''name'') ` set ms\<rparr>)"

section \<open>The update a KeycloakClient asks for\<close>

text \<open>The client has the declared fields; one that was there keeps its other fields, mappers, scopes and roles.\<close>

definition client_placed ::
    "keycloak_client_spec \<Rightarrow> string \<Rightarrow> held_client option \<Rightarrow> client_sync_result \<Rightarrow> held_client \<Rightarrow> bool" where
  "client_placed spec secret old res c \<longleftrightarrow>
     kept_fields (desired_client_representation spec secret) (hc_fields c) \<and>
     (case old of
        None \<Rightarrow> clr_created res
      | Some b \<Rightarrow> \<not> clr_created res \<and>
          kept_fields (other_fields (desired_client_representation spec secret) (hc_fields b)) (hc_fields c) \<and>
          map_le (hc_mappers b) (hc_mappers c) \<and> map_le (hc_scopes b) (hc_scopes c) \<and>
          (cs_allow_client_credentials_grant spec \<and> hc_account b \<noteq> None \<longrightarrow>
             hc_account c = hc_account b \<and> hc_roles c = hc_roles b) \<and>
          (\<not> clr_updated res \<longrightarrow> c = b))"

text \<open>Exactly the declared mappers have changed, each to what is declared over what it was.\<close>

definition mappers_declared ::
    "protocol_mapper list \<Rightarrow> (string \<Rightarrow> representation option) \<Rightarrow> (string \<Rightarrow> representation option) \<Rightarrow> bool" where
  "mappers_declared ps old new \<longleftrightarrow>
     (\<forall>n. n \<notin> pm_name ` set ps \<longrightarrow> new n = old n) \<and>
     (\<forall>p \<in> set ps. \<exists>x. new (pm_name p) = Some x \<and> declared_over (desired_mapper_representation p) (old (pm_name p)) x)"

text \<open>Exactly the named scopes are assigned, under the kind unless they had the other one.\<close>

definition scopes_assigned ::
    "string \<Rightarrow> string list \<Rightarrow> (string \<Rightarrow> string option) \<Rightarrow> (string \<Rightarrow> string option) \<Rightarrow> bool" where
  "scopes_assigned kind ns old new \<longleftrightarrow>
     (\<forall>n. n \<notin> set ns \<longrightarrow> new n = old n) \<and>
     (\<forall>n \<in> set ns. new n \<noteq> None \<and> (old n \<in> {None, Some kind} \<longrightarrow> new n = Some kind))"

text \<open>The service account has every declared role of the named clients and no new role besides.\<close>

definition roles_granted ::
    "(string \<Rightarrow> string \<Rightarrow> bool) \<Rightarrow> (string \<times> string list) list \<Rightarrow> (string \<times> string) set \<Rightarrow> (string \<times> string) set \<Rightarrow> bool" where
  "roles_granted named entries old new \<longleftrightarrow> old \<subseteq> new \<and>
     (\<forall>cid rs. (cid, rs) \<in> set entries \<longrightarrow> (\<exists>own. named cid own \<and> {own} \<times> set rs \<subseteq> new)) \<and>
     (\<forall>own n. (own, n) \<in> new - old \<longrightarrow> (\<exists>cid rs. (cid, rs) \<in> set entries \<and> named cid own \<and> n \<in> set rs))"

definition client_key :: "keycloak_client_spec \<Rightarrow> client_sync_result \<Rightarrow> string \<times> string" where
  "client_key spec res = (client_realm spec, clr_uuid res)"

text \<open>The entries of a client after some have been worked on: roles, mappers, default and optional scopes.\<close>

definition with_entries ::
    "(string \<Rightarrow> string \<Rightarrow> bool) \<Rightarrow> (string \<times> string list) list \<Rightarrow> protocol_mapper list \<Rightarrow> string list \<Rightarrow> string list \<Rightarrow>
     held_client \<Rightarrow> held_client \<Rightarrow> bool" where
  "with_entries named rs ms ds os b c \<longleftrightarrow> hc_fields c = hc_fields b \<and> hc_account c = hc_account b \<and>
     roles_granted named rs (hc_roles b) (hc_roles c) \<and> mappers_declared ms (hc_mappers b) (hc_mappers c) \<and>
     (\<exists>between. scopes_assigned default_scope_kind ds (hc_scopes b) between \<and>
        scopes_assigned optional_scope_kind os between (hc_scopes c))"

lemma no_entries [simp]:
  "mappers_declared [] old new \<longleftrightarrow> new = old" "scopes_assigned kind [] old' new' \<longleftrightarrow> new' = old'"
  "roles_granted named [] old'' new'' \<longleftrightarrow> new'' = old''"
  by (auto simp: mappers_declared_def scopes_assigned_def roles_granted_def)

lemma entries_extended:
  "roles_granted named rs (hc_roles b) cur \<Longrightarrow> with_entries named rs [] [] [] b (b\<lparr>hc_roles := cur\<rparr>)"
  "with_entries named rs [] [] [] b c \<Longrightarrow> mappers_declared ms (hc_mappers c) maps \<Longrightarrow>
     with_entries named rs ms [] [] b (c\<lparr>hc_mappers := maps\<rparr>)"
  "with_entries named rs ms [] [] b c \<Longrightarrow> scopes_assigned default_scope_kind ds (hc_scopes c) scopes \<Longrightarrow>
     with_entries named rs ms ds [] b (c\<lparr>hc_scopes := scopes\<rparr>)"
  "with_entries named rs ms ds [] b c \<Longrightarrow> scopes_assigned optional_scope_kind os (hc_scopes c) scopes \<Longrightarrow>
     with_entries named rs ms ds os b (c\<lparr>hc_scopes := scopes\<rparr>)"
  by (auto simp: with_entries_def)

definition entries_added ::
    "(string \<Rightarrow> string \<Rightarrow> bool) \<Rightarrow> keycloak_client_spec \<Rightarrow> held_client \<Rightarrow> held_client \<Rightarrow> bool" where
  "entries_added named spec =
     with_entries named (declared_list (declared_client_roles spec)) (declared_list (cs_protocol_mappers spec))
       (declared_list (cs_default_client_scopes spec)) (declared_list (cs_optional_client_scopes spec))"

definition client_declared ::
    "keycloak_client_spec \<Rightarrow> string \<Rightarrow> held_clients \<Rightarrow> client_sync_result \<Rightarrow> held_clients \<Rightarrow> bool" where
  "client_declared spec secret h res h' \<longleftrightarrow>
     (\<exists>b c. h' = h(client_key spec res \<mapsto> c) \<and> client_placed spec secret (h (client_key spec res)) res b \<and>
        entries_added (client_named h' (client_realm spec)) spec b c \<and> (\<not> clr_updated res \<longrightarrow> c = b))"

text \<open>A step that changes one client and reports whether it did.\<close>

definition changes_client ::
    "(trace \<Rightarrow> held_clients) \<Rightarrow> string \<times> string \<Rightarrow> (held_clients \<Rightarrow> held_client \<Rightarrow> held_client \<Rightarrow> bool) \<Rightarrow>
     bool fallible \<Rightarrow> bool" where
  "changes_client held key R m \<longleftrightarrow> (\<forall>h b. h key = Some b \<longrightarrow>
     triple (\<lambda>t. held t = h) m
       (\<lambda>r t. \<forall>ch. r = Inr ch \<longrightarrow> (\<exists>c. held t = h(key \<mapsto> c) \<and> R h b c \<and> (\<not> ch \<longrightarrow> c = b))))"

lemma changes_triple:
  assumes "changes_client held key R m"
  shows "triple (\<lambda>t. \<exists>b. held t = h(key \<mapsto> b) \<and> P b) m
    (\<lambda>r t. \<forall>ch. r = Inr ch \<longrightarrow> (\<exists>b c. held t = h(key \<mapsto> c) \<and> P b \<and> R (h(key \<mapsto> b)) b c \<and> (\<not> ch \<longrightarrow> c = b)))"
  unfolding triple_def
proof (intro allI impI)
  fix s r s' ch
  assume "\<exists>b. held (st_trace s) = h(key \<mapsto> b) \<and> P b" and run: "run_state m s = (r, s')" and r: "r = Inr ch"
  then obtain b where b: "held (st_trace s) = h(key \<mapsto> b)" "P b" by blast
  have "triple (\<lambda>t. held t = h(key \<mapsto> b)) m (\<lambda>r t. \<forall>ch. r = Inr ch \<longrightarrow>
      (\<exists>c. held t = (h(key \<mapsto> b))(key \<mapsto> c) \<and> R (h(key \<mapsto> b)) b c \<and> (\<not> ch \<longrightarrow> c = b)))"
    by (rule assms [unfolded changes_client_def, rule_format]) simp
  from tripleD [OF this b(1) run] r b(2)
  show "\<exists>b c. held (st_trace s') = h(key \<mapsto> c) \<and> P b \<and> R (h(key \<mapsto> b)) b c \<and> (\<not> ch \<longrightarrow> c = b)" by auto
qed

lemma named_with_fields:
  "hc_fields c = hc_fields b \<Longrightarrow> client_named (h(key \<mapsto> c)) realm cid own \<longleftrightarrow> client_named (h(key \<mapsto> b)) realm cid own"
  by (simp add: client_named_def)

lemma keyed_by_lookup:
  assumes "map_of (keyed_by key val reps) n = Some v"
  shows "\<exists>m \<in> set reps. string_value m key = n \<and> val m = v"
proof -
  have "map_of (fold (\<lambda>rep m. AList.update (string_value rep key) (val rep) m) reps acc) n = Some v \<Longrightarrow>
      (\<exists>m \<in> set reps. string_value m key = n \<and> val m = v) \<or> map_of acc n = Some v" for acc
    by (induction reps arbitrary: acc) (fastforce simp: map_of_update split: if_splits)+
  from this [of "[]"] assms show ?thesis by (simp add: keyed_by_def)
qed

definition placed_in :: "keycloak_client_spec \<Rightarrow> string \<Rightarrow> held_clients \<Rightarrow> client_sync_result \<Rightarrow> held_clients \<Rightarrow> bool" where
  "placed_in spec secret h res h' \<longleftrightarrow>
     (\<exists>c. h' = h(client_key spec res \<mapsto> c) \<and> client_placed spec secret (h (client_key spec res)) res c)"

section \<open>The synchronisation implements the update\<close>

context client_store
begin

lemma triple_get_client:
  "triple (\<lambda>t. held t = h) (get_client env a realm cid)
     (\<lambda>r t. held t = h \<and> (\<forall>l. r = Inr (Some l) \<longrightarrow> shows_client realm h l \<and> string_value l ''clientId'' = cid))"
proof -
  have found: "shows_client realm h l \<and> string_value l ''clientId'' = cid"
    if "find (\<lambda>c. string_value c ''clientId'' = cid) ms = Some l" and "\<forall>m \<in> set ms. shows_client realm h m" for ms l
    using that by (auto simp: find_Some_iff)
  have "triple (\<lambda>t. held t = h) (get_many env a (clients_search realm cid))
      (\<lambda>r t. held t = h \<and> (\<forall>ms. r = Inr ms \<longrightarrow> (\<forall>m \<in> set ms. shows_client realm h m)))"
    by (rule triple_many) (use search_clients in blast)
  then show ?thesis
    unfolding get_client_def clients_search_def
    by (rule triple_try) (simp, rule triple_return, simp add: found)
qed

lemma shown_named: "shows_client realm h l \<Longrightarrow> client_named h realm (string_value l ''clientId'') (id_of l)"
  by (auto simp: shows_client_def client_named_def)

lemma held_create_client:
  assumes "map_of m ''clientId'' = Some (JStr cid)"
  shows "triple (\<lambda>t. held t = h) (create_client env a realm m)
    (\<lambda>r t. \<forall>i. r = Inr i \<longrightarrow> h (realm, i) = None \<and>
       (\<exists>c. held t = h((realm, i) \<mapsto> c) \<and> kept_fields (settings m) (hc_fields c)))"
proof -
  let ?new = "\<lambda>i h'. h (realm, i) = None \<and> (\<exists>c. h' = h((realm, i) \<mapsto> c) \<and> kept_fields (settings m) (hc_fields c))"
  have cid: "string_value m ''clientId'' = cid" using assms by (simp add: string_value_def)
  have post: "triple (\<lambda>t. held t = h) (do_send env a POST (realm_path realm ''/clients'') (Some (JObj m)))
      (\<lambda>r t. \<forall>x. r = Inr x \<longrightarrow> (\<exists>i. ?new i (held t)))"
    by (rule triple_mono [OF triple_send [of h]]) (fastforce simp: after_request_def dest!: post_client)+
  have lookup: "triple (\<lambda>t. \<exists>i. ?new i (held t))
      (try_ok (get_client env a realm cid) (identifier_of ''client'' cid))
      (\<lambda>r t. \<forall>i. r = Inr i \<longrightarrow> ?new i (held t))"
  proof (rule triple_at)
    fix h' assume "\<exists>i. ?new i h'"
    then obtain i where i: "?new i h'" by blast
    then have named: "client_named h' realm cid i"
      using kept_text [of "settings m" _ "''clientId''" cid] assms
      by (auto simp: client_named_def settings_lookup string_value_def)
    have same: "id_of l = i" if l: "shows_client realm h' l" "string_value l ''clientId'' = cid" and t: "held t = h'" for l t
      using one_client [of t realm cid] shown_named [OF l(1)] l(2) named t by metis
    show "triple (\<lambda>t. held t = h') (try_ok (get_client env a realm cid) (identifier_of ''client'' cid))
        (\<lambda>r t. \<forall>i. r = Inr i \<longrightarrow> ?new i (held t))"
      by (rule triple_try [OF triple_get_client])
        (use i same in \<open>auto simp: identifier_of_def id_of_def intro!: triple_return triple_case_option\<close>)
  qed
  show ?thesis
    unfolding create_client_def cid by (rule triple_try [OF post]) (auto intro: triple_mono [OF lookup])
qed

lemma triple_update_client:
  assumes "h (realm, i) = Some c" and "shows_client realm h l" and "id_of l = i" and "shown_back m l"
  shows "triple (\<lambda>t. held t = h) (update_client env a realm i m)
    (\<lambda>r t. \<forall>x. r = Inr x \<longrightarrow> (\<exists>c'. held t = h((realm, i) \<mapsto> c') \<and> client_put m c c'))"
  unfolding update_client_def
  by (rule triple_mono [OF triple_send [of h]]) (use assms put_client in \<open>fastforce simp: after_request_def\<close>)+

lemma triple_place_new_client:
  "triple (\<lambda>t. held t = h) (place_client env a spec secret None)
     (\<lambda>r t. \<forall>res. r = Inr res \<longrightarrow> placed_in spec secret h res (held t))"
  unfolding place_client_def Let_def option.case
  by (rule triple_wrap [OF held_create_client [OF desired_client_lookup(1)]])
    (auto intro!: triple_return simp: placed_in_def client_key_def client_placed_def)

lemma triple_place_live_client:
  assumes "shows_client (client_realm spec) h l" and d: "wf_rep (desired_client_representation spec secret)"
  shows "triple (\<lambda>t. held t = h) (place_client env a spec secret (Some l))
    (\<lambda>r t. \<forall>res. r = Inr res \<longrightarrow> placed_in spec secret h res (held t))"
proof -
  let ?d = "desired_client_representation spec secret"
  let ?m = "merge_representation l ?d"
  obtain c where c: "h (client_realm spec, string_value l ''id'') = Some c" "hc_fields c = settings l" and l: "wf_rep l"
    using assms(1) by (auto simp: shows_client_def id_of_def)
  have other: "other_fields ?d (settings l) = settings (other_fields ?d l)"
    unfolding settings_def by (rule other_fields_filtered)
  have parts: "kept_fields ?d new \<and> kept_fields (other_fields ?d (settings l)) new" if "kept_fields (settings ?m) new" for new
    using that kept_fields_trans [OF holds_settings [OF covered_holds [OF merge_covers [OF d] d]]]
      kept_fields_trans [OF holds_settings [OF merge_other_fields [OF l d]]] by (simp add: other)
  show ?thesis
  proof (cases "unchanged l ?m")
    case True
    then have "holds ?m l"
      using deep_equal_sym [of "JObj l" "JObj ?m"] l d wf_merge by (simp add: unchanged_def holds_def deep_equal_holds)
    then have "kept_fields (settings ?m) (settings l)" by (intro holds_kept_fields holds_settings)
    with True show ?thesis
      using parts c
      by (auto intro!: triple_return simp: place_client_def Let_def placed_in_def client_key_def client_placed_def fun_upd_idem)
  next
    case False
    have sent: "triple (\<lambda>t. held t = h) (update_client env a (client_realm spec) (string_value l ''id'') ?m)
        (\<lambda>r t. \<forall>x. r = Inr x \<longrightarrow> (\<exists>c'. held t = h((client_realm spec, string_value l ''id'') \<mapsto> c') \<and> client_put ?m c c'))"
      by (rule triple_update_client [OF c(1) assms(1)]) (simp_all add: id_of_def merged_client [OF d])
    have placed: "placed_in spec secret h \<lparr>clr_uuid = string_value l ''id'', clr_created = False, clr_updated = True\<rparr>
        (h((client_realm spec, string_value l ''id'') \<mapsto> c'))" if "client_put ?m c c'" for c'
      using that c parts [of "hc_fields c'"] merged_client(2) [OF d, of l]
      by (auto simp: placed_in_def client_key_def client_placed_def client_put_def)
    show ?thesis
      unfolding place_client_def Let_def option.case if_not_P [OF False]
      by (rule triple_wrap [OF sent]) (auto intro!: triple_return placed)
  qed
qed

text \<open>Protocol mappers.\<close>

lemma mappers_next:
  assumes "mappers_declared ds b cur" and "pm_name p \<notin> pm_name ` set ds"
    and "declared_over (desired_mapper_representation p) (b (pm_name p)) x"
  shows "mappers_declared (ds @ [p]) b (cur(pm_name p \<mapsto> x))"
  using assms by (auto simp: mappers_declared_def) (metis imageI)

lemma triple_place_mapper:
  assumes h: "h (realm, i) = Some b" and p: "wf_rep (desired_mapper_representation p)" "pm_name p \<notin> pm_name ` set ds"
    and known: "\<And>n. case map_of known n of None \<Rightarrow> hc_mappers b n = None
      | Some x \<Rightarrow> hc_mappers b n = Some x \<and> wf_rep x"
  shows "triple (\<lambda>t. \<exists>cur. held t = h((realm, i) \<mapsto> b\<lparr>hc_mappers := cur\<rparr>) \<and> mappers_declared ds (hc_mappers b) cur \<and>
      (\<not> changed \<longrightarrow> cur = hc_mappers b))
    (place_mapper env a realm i known p changed)
    (\<lambda>r t. \<forall>ch. r = Inr ch \<longrightarrow> (\<exists>cur. held t = h((realm, i) \<mapsto> b\<lparr>hc_mappers := cur\<rparr>) \<and>
      mappers_declared (ds @ [p]) (hc_mappers b) cur \<and> (\<not> ch \<longrightarrow> cur = hc_mappers b)))"
proof (rule triple_at)
  let ?n = "pm_name p" and ?d = "desired_mapper_representation p"
  let ?post = "\<lambda>r t. \<forall>ch. r = Inr ch \<longrightarrow> (\<exists>cur. held t = h((realm, i) \<mapsto> b\<lparr>hc_mappers := cur\<rparr>) \<and>
      mappers_declared (ds @ [p]) (hc_mappers b) cur \<and> (\<not> ch \<longrightarrow> cur = hc_mappers b))"
  fix h'
  assume "\<exists>cur. h' = h((realm, i) \<mapsto> b\<lparr>hc_mappers := cur\<rparr>) \<and> mappers_declared ds (hc_mappers b) cur \<and>
      (\<not> changed \<longrightarrow> cur = hc_mappers b)"
  then obtain cur where h': "h' = h((realm, i) \<mapsto> b\<lparr>hc_mappers := cur\<rparr>)" "mappers_declared ds (hc_mappers b) cur"
    and same: "\<not> changed \<longrightarrow> cur = hc_mappers b" by blast
  have cur: "cur ?n = hc_mappers b ?n" using h'(2) p(2) by (simp add: mappers_declared_def)
  have nam: "string_value (merge_representation x ?d) ''name'' = ?n" "string_value ?d ''name'' = ?n" for x
    using p(1) by (simp_all add: string_value_def merge_lookup wf_rep_iff desired_mapper_name merge_value_def)
  note step = mappers_next [OF h'(2) p(2)]
  show "triple (\<lambda>t. held t = h') (place_mapper env a realm i known p changed) ?post"
  proof (cases "map_of known ?n")
    case None
    then have none: "hc_mappers b ?n = None" using known [of ?n] by simp
    have "triple (\<lambda>t. held t = h') (create_protocol_mapper env a realm i ?d)
        (\<lambda>r t. \<forall>u. r = Inr u \<longrightarrow> (\<exists>x. held t = h((realm, i) \<mapsto> b\<lparr>hc_mappers := cur(?n \<mapsto> x)\<rparr>) \<and> holds ?d x))"
      unfolding create_protocol_mapper_def
      by (rule triple_mono [OF triple_send [of h']])
        (auto simp: after_request_def h' cur none nam dest!: post_mapper [where n = ?n and c = "b\<lparr>hc_mappers := cur\<rparr>"])
    then show ?thesis
      unfolding place_mapper_def Let_def None option.case
      by (rule triple_wrap) (auto intro!: triple_return exI [of _ "cur(?n \<mapsto> _)"] step simp: none declared_over_def)
  next
    case (Some x)
    then have x: "hc_mappers b ?n = Some x" "wf_rep x" using known [of ?n] by simp_all
    let ?m = "merge_representation x ?d"
    show ?thesis
    proof (cases "unchanged x ?m")
      case True
      have "mappers_declared (ds @ [p]) (hc_mappers b) cur"
        using step [of x] unchanged_declared_over [OF True x(2) p(1)] cur x(1) by (simp add: fun_upd_idem)
      with True Some same h' show ?thesis
        by (auto intro!: triple_return simp: place_mapper_def Let_def)
    next
      case False
      have "triple (\<lambda>t. held t = h') (update_protocol_mapper env a realm i (string_value x ''id'') ?m)
          (\<lambda>r t. \<forall>u. r = Inr u \<longrightarrow> (\<exists>y. held t = h((realm, i) \<mapsto> b\<lparr>hc_mappers := cur(?n \<mapsto> y)\<rparr>) \<and> holds ?m y))"
        unfolding update_protocol_mapper_def id_of_def [symmetric]
        by (rule triple_mono [OF triple_send [of h']])
          (auto simp: after_request_def h' cur x nam
            dest!: put_mapper [where n = ?n and c = "b\<lparr>hc_mappers := cur\<rparr>", simplified])
      then show ?thesis
        unfolding place_mapper_def Let_def Some option.case if_not_P [OF False]
        by (rule triple_wrap)
          (auto intro!: triple_return exI [of _ "cur(?n \<mapsto> _)"] step simp: x dest: merged_declared_over [OF x(2) p(1)])
    qed
  qed
qed

lemma changes_mappers:
  assumes "list_all (\<lambda>p. distinct (keys_of (pm_config p))) (declared_list desired)"
    and "distinct (map pm_name (declared_list desired))"
  shows "changes_client held (realm, i)
    (\<lambda>h b c. \<exists>cur. c = b\<lparr>hc_mappers := cur\<rparr> \<and> mappers_declared (declared_list desired) (hc_mappers b) cur)
    (reconcile_protocol_mappers env a realm i desired)"
  unfolding changes_client_def
proof (intro allI impI)
  fix h :: held_clients and b :: held_client assume h: "h (realm, i) = Some b"
  let ?I = "\<lambda>ds ch t. \<exists>cur. held t = h((realm, i) \<mapsto> b\<lparr>hc_mappers := cur\<rparr>) \<and>
      mappers_declared ds (hc_mappers b) cur \<and> (\<not> ch \<longrightarrow> cur = hc_mappers b)"
  have start: "?I [] False t" if "held t = h" for t
    using that h by (intro exI [of _ "hc_mappers b"]) (simp add: mappers_declared_def fun_upd_idem)
  have all: "triple (\<lambda>t. held t = h) (reconcile_protocol_mappers env a realm i desired)
      (\<lambda>r t. \<forall>ch. r = Inr ch \<longrightarrow> ?I (declared_list desired) ch t)"
  proof (cases desired)
    case None
    then show ?thesis using start by (auto intro!: triple_return simp: reconcile_protocol_mappers_def declared_list_def)
  next
    case (Some ps)
    let ?good = "\<lambda>ms. (\<forall>m \<in> set ms. wf_rep m \<and> hc_mappers b (string_value m ''name'') = Some m) \<and>
        dom (hc_mappers b) \<subseteq> names_of ms"
    have shown: "triple (\<lambda>t. held t = h) (list_protocol_mappers env a realm i)
        (\<lambda>r t. held t = h \<and> (\<forall>ms. r = Inr ms \<longrightarrow> ?good ms))"
      unfolding list_protocol_mappers_def by (rule triple_many) (use get_mappers h in blast)
    have place: "triple (\<lambda>t. held t = h \<and> ?good ms)
        (for_each (place_mapper env a realm i (keyed_by ''name'' id ms)) ps False)
        (\<lambda>r t. \<forall>ch. r = Inr ch \<longrightarrow> ?I ps ch t)" for ms
    proof (rule triple_given)
      assume good: "?good ms"
      have known: "case map_of (keyed_by ''name'' id ms) n of None \<Rightarrow> hc_mappers b n = None
          | Some x \<Rightarrow> hc_mappers b n = Some x \<and> wf_rep x" for n
        using good keyed_by_keys [of "''name''" id ms] keyed_by_lookup [of "''name''" id ms n]
        by (auto simp: map_of_eq_None_iff id_def split: option.split)
      have "triple (?I [] False) (for_each (place_mapper env a realm i (keyed_by ''name'' id ms)) ps False)
          (\<lambda>r t. \<forall>ch. r = Inr ch \<longrightarrow> ?I ps ch t)"
      proof (rule triple_for_each_at)
        fix ds p rest acc assume "ps = ds @ p # rest"
        then have "wf_rep (desired_mapper_representation p)" "pm_name p \<notin> pm_name ` set ds"
          using assms Some by (auto simp: declared_list_def wf_desired_mapper)
        then show "triple (?I ds acc) (place_mapper env a realm i (keyed_by ''name'' id ms) p acc)
            (\<lambda>r t. \<forall>ch. r = Inr ch \<longrightarrow> ?I (ds @ [p]) ch t)"
          by (rule triple_place_mapper [where h = h, OF h]) (rule known)
      qed
      then show "triple (\<lambda>t. held t = h) (for_each (place_mapper env a realm i (keyed_by ''name'' id ms)) ps False)
          (\<lambda>r t. \<forall>ch. r = Inr ch \<longrightarrow> ?I ps ch t)"
        by (rule triple_mono) (use start in blast)+
    qed
    show ?thesis
      unfolding reconcile_protocol_mappers_def Some option.case declared_list_def
      by (rule triple_wrap [OF shown], simp, rule triple_mono [OF place], simp)
  qed
  show "triple (\<lambda>t. held t = h) (reconcile_protocol_mappers env a realm i desired)
      (\<lambda>r t. \<forall>ch. r = Inr ch \<longrightarrow> (\<exists>c. held t = h((realm, i) \<mapsto> c) \<and>
         (\<exists>cur. c = b\<lparr>hc_mappers := cur\<rparr> \<and> mappers_declared (declared_list desired) (hc_mappers b) cur) \<and>
         (\<not> ch \<longrightarrow> c = b)))"
    by (rule triple_mono [OF all]) (simp, force)
qed

text \<open>Client scopes.\<close>

lemma scopes_kept:
  "scopes_assigned kind ds b cur \<Longrightarrow> b n = Some kind \<Longrightarrow> scopes_assigned kind (ds @ [n]) b cur"
  unfolding scopes_assigned_def by auto

lemma scopes_next:
  "scopes_assigned kind ds b cur \<Longrightarrow> (cur n \<in> {None, Some kind} \<Longrightarrow> k = kind) \<Longrightarrow>
     scopes_assigned kind (ds @ [n]) b (cur(n \<mapsto> k))"
  unfolding scopes_assigned_def by (cases "n \<in> set ds") auto

lemma triple_assign_scope:
  assumes h: "h (realm, i) = Some b" and kind: "kind \<in> scope_kinds" and assigned: "fst ` set assigned = {n. hc_scopes b n = Some kind}"
    and known: "\<And>n j. map_of known n = Some j \<Longrightarrow> scope_name realm j = n"
  shows "triple (\<lambda>t. \<exists>cur. held t = h((realm, i) \<mapsto> b\<lparr>hc_scopes := cur\<rparr>) \<and> scopes_assigned kind ds (hc_scopes b) cur \<and>
      (\<not> changed \<longrightarrow> cur = hc_scopes b))
    (assign_scope env a realm i kind assigned known n changed)
    (\<lambda>r t. \<forall>ch. r = Inr ch \<longrightarrow> (\<exists>cur. held t = h((realm, i) \<mapsto> b\<lparr>hc_scopes := cur\<rparr>) \<and>
      scopes_assigned kind (ds @ [n]) (hc_scopes b) cur \<and> (\<not> ch \<longrightarrow> cur = hc_scopes b)))"
proof (rule triple_at)
  let ?post = "\<lambda>r t. \<forall>ch. r = Inr ch \<longrightarrow> (\<exists>cur. held t = h((realm, i) \<mapsto> b\<lparr>hc_scopes := cur\<rparr>) \<and>
      scopes_assigned kind (ds @ [n]) (hc_scopes b) cur \<and> (\<not> ch \<longrightarrow> cur = hc_scopes b))"
  fix h'
  assume "\<exists>cur. h' = h((realm, i) \<mapsto> b\<lparr>hc_scopes := cur\<rparr>) \<and> scopes_assigned kind ds (hc_scopes b) cur \<and>
      (\<not> changed \<longrightarrow> cur = hc_scopes b)"
  then obtain cur where h': "h' = h((realm, i) \<mapsto> b\<lparr>hc_scopes := cur\<rparr>)" "scopes_assigned kind ds (hc_scopes b) cur"
    and same: "\<not> changed \<longrightarrow> cur = hc_scopes b" by blast
  show "triple (\<lambda>t. held t = h') (assign_scope env a realm i kind assigned known n changed) ?post"
  proof (cases "n \<in> fst ` set assigned")
    case True
    then have "scopes_assigned kind (ds @ [n]) (hc_scopes b) cur" using scopes_kept [OF h'(2)] assigned by simp
    with True h' same show ?thesis by (auto intro!: triple_return simp: assign_scope_def)
  next
    case False
    have put: "triple (\<lambda>t. held t = h') (try_wrap msg (add_client_scope env a realm i kind j) (\<lambda>_. ok True)) ?post"
      if j: "scope_name realm j = n" for j msg
    proof -
      have "triple (\<lambda>t. held t = h') (add_client_scope env a realm i kind j)
          (\<lambda>r t. \<forall>u. r = Inr u \<longrightarrow> (\<exists>k. held t = h((realm, i) \<mapsto> b\<lparr>hc_scopes := cur(n \<mapsto> k)\<rparr>) \<and>
             (cur n \<in> {None, Some kind} \<longrightarrow> k = kind)))"
        unfolding add_client_scope_def
        by (rule triple_mono [OF triple_send [of h']])
          (auto simp: after_request_def h' dest!: put_scope [where n = n and c = "b\<lparr>hc_scopes := cur\<rparr>", OF _ kind _ j, simplified])
      then show ?thesis
        by (rule triple_wrap) (auto intro!: triple_return exI [of _ "cur(n \<mapsto> _)"] scopes_next [OF h'(2)])
    qed
    show ?thesis
      unfolding assign_scope_def set_map if_not_P [OF False]
      by (rule triple_case_option) (auto intro!: triple_return put dest: known)
  qed
qed

lemma changes_scopes:
  assumes kind: "kind \<in> scope_kinds"
  shows "changes_client held (realm, i)
    (\<lambda>h b c. \<exists>cur. c = b\<lparr>hc_scopes := cur\<rparr> \<and> scopes_assigned kind (declared_list desired) (hc_scopes b) cur)
    (reconcile_client_scopes env a realm i kind desired)"
  unfolding changes_client_def
proof (intro allI impI)
  fix h :: held_clients and b :: held_client assume h: "h (realm, i) = Some b"
  let ?I = "\<lambda>ds ch t. \<exists>cur. held t = h((realm, i) \<mapsto> b\<lparr>hc_scopes := cur\<rparr>) \<and>
      scopes_assigned kind ds (hc_scopes b) cur \<and> (\<not> ch \<longrightarrow> cur = hc_scopes b)"
  have start: "?I [] False t" if "held t = h" for t
    using that h by (intro exI [of _ "hc_scopes b"]) (simp add: scopes_assigned_def fun_upd_idem)
  have all: "triple (\<lambda>t. held t = h) (reconcile_client_scopes env a realm i kind desired)
      (\<lambda>r t. \<forall>ch. r = Inr ch \<longrightarrow> ?I (declared_list desired) ch t)"
  proof (cases desired)
    case None
    then show ?thesis using start by (auto intro!: triple_return simp: reconcile_client_scopes_def declared_list_def)
  next
    case (Some ns)
    have held_ones: "triple (\<lambda>t. held t = h) (get_many env a (scopes_path realm i kind))
        (\<lambda>r t. held t = h \<and> (\<forall>ms. r = Inr ms \<longrightarrow> names_of ms = {n. hc_scopes b n = Some kind}))"
      by (rule triple_many) (use get_scopes [OF _ kind] h in blast)
    have assigned: "triple (\<lambda>t. held t = h) (list_client_scopes env a realm i kind)
        (\<lambda>r t. held t = h \<and> (\<forall>as. r = Inr as \<longrightarrow> fst ` set as = {n. hc_scopes b n = Some kind}))"
      unfolding list_client_scopes_def by (rule triple_map [OF held_ones]) (simp add: keyed_by_keys)
    have all_scopes: "triple (\<lambda>t. held t = h) (get_many env a (realm_path realm ''/client-scopes''))
        (\<lambda>r t. held t = h \<and> (\<forall>ms. r = Inr ms \<longrightarrow> (\<forall>m \<in> set ms. scope_name realm (id_of m) = string_value m ''name'')))"
      by (rule triple_many) (use realm_scopes in blast)
    have known: "triple (\<lambda>t. held t = h) (list_realm_client_scopes env a realm)
        (\<lambda>r t. held t = h \<and> (\<forall>ks. r = Inr ks \<longrightarrow> (\<forall>n j. map_of ks n = Some j \<longrightarrow> scope_name realm j = n)))"
      unfolding list_realm_client_scopes_def
      by (rule triple_map [OF all_scopes]) (auto dest!: keyed_by_lookup)
    have loop: "triple (\<lambda>t. held t = h \<and> (\<forall>n j. map_of ks n = Some j \<longrightarrow> scope_name realm j = n))
        (for_each (assign_scope env a realm i kind as ks) ns False) (\<lambda>r t. \<forall>ch. r = Inr ch \<longrightarrow> ?I ns ch t)"
      if as: "fst ` set as = {n. hc_scopes b n = Some kind}" for as ks
    proof (rule triple_given)
      assume ks: "\<forall>n j. map_of ks n = Some j \<longrightarrow> scope_name realm j = n"
      have "triple (?I [] False) (for_each (assign_scope env a realm i kind as ks) ns False)
          (\<lambda>r t. \<forall>ch. r = Inr ch \<longrightarrow> ?I ns ch t)"
        by (rule triple_for_each_at) (rule triple_assign_scope [where h = h, OF h kind as], use ks in blast)
      then show "triple (\<lambda>t. held t = h) (for_each (assign_scope env a realm i kind as ks) ns False)
          (\<lambda>r t. \<forall>ch. r = Inr ch \<longrightarrow> ?I ns ch t)"
        by (rule triple_mono) (use start in blast)+
    qed
    have rest: "triple (\<lambda>t. held t = h \<and> fst ` set as = {n. hc_scopes b n = Some kind})
        (try_wrap msg (list_realm_client_scopes env a realm) (\<lambda>ks. for_each (assign_scope env a realm i kind as ks) ns False))
        (\<lambda>r t. \<forall>ch. r = Inr ch \<longrightarrow> ?I ns ch t)" for as msg
      by (rule triple_given, rule triple_wrap [OF known], simp, rule triple_mono [OF loop], simp_all)
    show ?thesis
      unfolding reconcile_client_scopes_def Some option.case declared_list_def
      by (rule triple_wrap [OF assigned], simp, rule triple_mono [OF rest], simp)
  qed
  show "triple (\<lambda>t. held t = h) (reconcile_client_scopes env a realm i kind desired)
      (\<lambda>r t. \<forall>ch. r = Inr ch \<longrightarrow> (\<exists>c. held t = h((realm, i) \<mapsto> c) \<and>
         (\<exists>cur. c = b\<lparr>hc_scopes := cur\<rparr> \<and> scopes_assigned kind (declared_list desired) (hc_scopes b) cur) \<and>
         (\<not> ch \<longrightarrow> c = b)))"
    by (rule triple_mono [OF all]) (simp, force)
qed

text \<open>Roles of the service account.\<close>

lemma triple_missing_client_role:
  "triple (\<lambda>t. held t = h \<and> names_of missing = set ds - fst ` set assigned)
     (missing_client_role env a realm cid own assigned n missing)
     (\<lambda>r t. \<forall>y. r = Inr y \<longrightarrow> held t = h \<and> names_of y = set (ds @ [n]) - fst ` set assigned)"
proof (rule triple_given)
  let ?post = "\<lambda>r t. \<forall>y. r = Inr y \<longrightarrow> held t = h \<and> names_of y = set (ds @ [n]) - fst ` set assigned"
  assume names: "names_of missing = set ds - fst ` set assigned"
  have role: "triple (\<lambda>t. held t = h) (get_client_role env a realm own n)
      (\<lambda>r t. held t = h \<and> (\<forall>m. r = Inr (Some m) \<longrightarrow> string_value m ''name'' = n))"
    unfolding get_client_role_def by (rule triple_one) (rule read_client_role)
  have entry: "string_value [(''id'', j), (''name'', JStr k)] ''name'' = k" for j k
    by (simp add: string_value_def)
  show "triple (\<lambda>t. held t = h) (missing_client_role env a realm cid own assigned n missing) ?post"
  proof (cases "n \<in> fst ` set assigned")
    case True
    then show ?thesis using names by (simp add: missing_client_role_def insert_Diff_if triple_return)
  next
    case False
    have "triple (\<lambda>t. held t = h \<and> string_value m ''name'' = n)
        (ok (missing @ [[(''id'', JStr (string_value m ''id'')), (''name'', JStr (string_value m ''name''))]])) ?post" for m
      by (rule triple_return) (use False names in \<open>simp add: entry insert_Diff_if\<close>)
    then show ?thesis
      unfolding missing_client_role_def set_map if_not_P [OF False]
      by (intro triple_wrap [OF role] triple_case_option) (auto intro!: triple_return)
  qed
qed

lemma granted_next:
  assumes "roles_granted named ds old cur" and "named cid own" and "ns \<subseteq> set rs" and "set rs \<subseteq> ns \<union> {n. (own, n) \<in> cur}"
  shows "roles_granted named (ds @ [(cid, rs)]) old (cur \<union> {own} \<times> ns)"
proof -
  note before = assms(1) [unfolded roles_granted_def]
  let ?new = "cur \<union> {own} \<times> ns"
  have "\<exists>o'. named cid' o' \<and> {o'} \<times> set rs' \<subseteq> ?new" if "(cid', rs') \<in> set (ds @ [(cid, rs)])" for cid' rs'
  proof (cases "(cid', rs') = (cid, rs)")
    case True
    then show ?thesis using assms(2,4) by blast
  next
    case False
    then have "(cid', rs') \<in> set ds" using that by auto
    then obtain o' where "named cid' o'" "{o'} \<times> set rs' \<subseteq> cur" using before by blast
    then show ?thesis by (intro exI [of _ o']) auto
  qed
  moreover have "\<exists>cid' rs'. (cid', rs') \<in> set (ds @ [(cid, rs)]) \<and> named cid' o' \<and> n \<in> set rs'"
    if "(o', n) \<in> ?new - old" for o' n
  proof (cases "(o', n) \<in> cur")
    case True
    then have "(o', n) \<in> cur - old" using that by simp
    then obtain cid' rs' where "(cid', rs') \<in> set ds" "named cid' o'" "n \<in> set rs'" using before by blast
    then show ?thesis by auto
  next
    case False
    then show ?thesis using that assms(2,3) by auto
  qed
  ultimately show ?thesis
    using before unfolding roles_granted_def by blast
qed

lemma triple_grant:
  assumes h: "h (realm, i) = Some b" and acc: "hc_account b = Some j"
  shows "triple (\<lambda>t. \<exists>cur. held t = h((realm, i) \<mapsto> b\<lparr>hc_roles := cur\<rparr>) \<and>
      roles_granted (client_named h realm) ds (hc_roles b) cur \<and> (\<not> changed \<longrightarrow> cur = hc_roles b))
    (grant_client_roles env a realm j entry changed)
    (\<lambda>r t. \<forall>ch. r = Inr ch \<longrightarrow> (\<exists>cur. held t = h((realm, i) \<mapsto> b\<lparr>hc_roles := cur\<rparr>) \<and>
      roles_granted (client_named h realm) (ds @ [entry]) (hc_roles b) cur \<and> (\<not> ch \<longrightarrow> cur = hc_roles b)))"
proof (rule triple_at)
  let ?post = "\<lambda>r t. \<forall>ch. r = Inr ch \<longrightarrow> (\<exists>cur. held t = h((realm, i) \<mapsto> b\<lparr>hc_roles := cur\<rparr>) \<and>
      roles_granted (client_named h realm) (ds @ [entry]) (hc_roles b) cur \<and> (\<not> ch \<longrightarrow> cur = hc_roles b))"
  obtain cid rs where entry: "entry = (cid, rs)" by (cases entry)
  fix h'
  assume "\<exists>cur. h' = h((realm, i) \<mapsto> b\<lparr>hc_roles := cur\<rparr>) \<and>
      roles_granted (client_named h realm) ds (hc_roles b) cur \<and> (\<not> changed \<longrightarrow> cur = hc_roles b)"
  then obtain cur where h': "h' = h((realm, i) \<mapsto> b\<lparr>hc_roles := cur\<rparr>)"
    and before: "roles_granted (client_named h realm) ds (hc_roles b) cur" and same: "\<not> changed \<longrightarrow> cur = hc_roles b" by blast
  have named: "client_named h realm cid own" if "client_named h' realm cid own" for own
    using that named_with_fields [of "b\<lparr>hc_roles := cur\<rparr>" b h "(realm, i)"] h by (simp add: h' fun_upd_idem)
  have work: "triple (\<lambda>t. held t = h')
      (try_wrap m1 (list_user_client_roles env a realm j own) (\<lambda>assigned.
       try_ok (for_each (missing_client_role env a realm cid own assigned) rs []) (\<lambda>missing.
       if missing = [] then ok changed
       else try_wrap m2 (add_user_client_roles env a realm j own missing) (\<lambda>_. ok True)))) ?post"
    if own: "client_named h realm cid own" for own m1 m2
  proof -
    let ?here = "{n. (own, n) \<in> cur}"
    have roles: "triple (\<lambda>t. held t = h') (get_many env a (client_roles_path realm j own))
        (\<lambda>r t. held t = h' \<and> (\<forall>ms. r = Inr ms \<longrightarrow> names_of ms = ?here))"
      by (rule triple_many)
        (use get_account_roles [of _ _ realm j own _ i "b\<lparr>hc_roles := cur\<rparr>"] acc in \<open>simp add: h'\<close>)
    have listed: "triple (\<lambda>t. held t = h') (list_user_client_roles env a realm j own)
        (\<lambda>r t. held t = h' \<and> (\<forall>as. r = Inr as \<longrightarrow> fst ` set as = ?here))"
      unfolding list_user_client_roles_def by (rule triple_map [OF roles]) (simp add: keyed_by_keys)
    have missing: "triple (\<lambda>t. held t = h' \<and> fst ` set as = ?here)
        (for_each (missing_client_role env a realm cid own as) rs [])
        (\<lambda>r t. \<forall>y. r = Inr y \<longrightarrow> held t = h' \<and> names_of y = set rs - ?here)" for as
    proof (rule triple_given)
      assume "fst ` set as = ?here"
      with triple_for_each [where I = "\<lambda>ds y t. held t = h' \<and> names_of y = set ds - fst ` set as"
          and xs = rs and ds = "[]" and acc = "[]", OF triple_missing_client_role]
      show "triple (\<lambda>t. held t = h') (for_each (missing_client_role env a realm cid own as) rs [])
          (\<lambda>r t. \<forall>y. r = Inr y \<longrightarrow> held t = h' \<and> names_of y = set rs - ?here)" by simp
    qed
    have add: "triple (\<lambda>t. held t = h' \<and> names_of ms = set rs - ?here)
        (if ms = [] then ok changed else try_wrap m2 (add_user_client_roles env a realm j own ms) (\<lambda>_. ok True)) ?post" for ms
    proof (rule triple_given)
      assume names: "names_of ms = set rs - ?here"
      have next_roles: "roles_granted (client_named h realm) (ds @ [entry]) (hc_roles b) (cur \<union> {own} \<times> names_of ms)"
        unfolding entry by (rule granted_next [OF before own]) (use names in auto)
      have "triple (\<lambda>t. held t = h') (add_user_client_roles env a realm j own ms)
          (\<lambda>r t. \<forall>u. r = Inr u \<longrightarrow> held t = h((realm, i) \<mapsto> b\<lparr>hc_roles := cur \<union> {own} \<times> names_of ms\<rparr>))"
        unfolding add_user_client_roles_def
        by (rule triple_mono [OF triple_send [of h']])
          (auto simp: after_request_def h' acc dest!: post_account_roles [where i = i and c = "b\<lparr>hc_roles := cur\<rparr>"])
      then have send: "triple (\<lambda>t. held t = h') (try_wrap m2 (add_user_client_roles env a realm j own ms) (\<lambda>_. ok True)) ?post"
        by (rule triple_wrap) (auto intro!: triple_return next_roles)
      have "triple (\<lambda>t. held t = h') (ok changed) ?post" if "ms = []"
        using next_roles same h' that by (auto intro!: triple_return)
      with send show "triple (\<lambda>t. held t = h')
          (if ms = [] then ok changed else try_wrap m2 (add_user_client_roles env a realm j own ms) (\<lambda>_. ok True)) ?post"
        by simp
    qed
    show ?thesis
      by (rule triple_wrap [OF listed], simp, rule triple_try, rule triple_mono [OF missing], simp, assumption, simp,
          rule triple_mono [OF add], simp_all)
  qed
  have go_on: "triple (\<lambda>t. held t = h' \<and> shows_client realm h' l \<and> string_value l ''clientId'' = cid)
      (let own = string_value l ''id'' in
       try_wrap m1 (list_user_client_roles env a realm j own) (\<lambda>assigned.
       try_ok (for_each (missing_client_role env a realm cid own assigned) rs []) (\<lambda>missing.
       if missing = [] then ok changed
       else try_wrap m2 (add_user_client_roles env a realm j own missing) (\<lambda>_. ok True)))) ?post" for l m1 m2
    unfolding Let_def
    by (rule triple_given, rule work, rule named) (use shown_named in \<open>fastforce simp: id_of_def\<close>)
  show "triple (\<lambda>t. held t = h') (grant_client_roles env a realm j entry changed) ?post"
    unfolding grant_client_roles_def entry fst_conv snd_conv
    unfolding Let_def [of cid] Let_def [of rs]
    apply (rule triple_wrap [OF triple_get_client], simp, rule triple_case_option)
     apply (rule triple_return, simp)
    apply (rule triple_mono [OF go_on [unfolded entry]])
     apply simp_all
    done
qed

lemma changes_roles:
  "changes_client held (realm, i)
    (\<lambda>h b c. \<exists>cur. c = b\<lparr>hc_roles := cur\<rparr> \<and>
       roles_granted (client_named h realm) (declared_list (declared_client_roles spec)) (hc_roles b) cur)
    (reconcile_service_account_roles env a realm i spec)"
  unfolding changes_client_def
proof (intro allI impI)
  fix h :: held_clients and b :: held_client assume h: "h (realm, i) = Some b"
  let ?I = "\<lambda>ds ch t. \<exists>cur. held t = h((realm, i) \<mapsto> b\<lparr>hc_roles := cur\<rparr>) \<and>
      roles_granted (client_named h realm) ds (hc_roles b) cur \<and> (\<not> ch \<longrightarrow> cur = hc_roles b)"
  have start: "?I [] False t" if "held t = h" for t
    using that h by (intro exI [of _ "hc_roles b"]) (simp add: roles_granted_def fun_upd_idem)
  have all: "triple (\<lambda>t. held t = h) (reconcile_service_account_roles env a realm i spec)
      (\<lambda>r t. \<forall>ch. r = Inr ch \<longrightarrow> ?I (declared_list (declared_client_roles spec)) ch t)"
  proof (cases "declared_client_roles spec")
    case None
    then show ?thesis using start by (auto intro!: triple_return simp: reconcile_service_account_roles_def declared_list_def)
  next
    case (Some entries)
    have account: "triple (\<lambda>t. held t = h) (get_service_account_user env a realm i)
        (\<lambda>r t. held t = h \<and> (\<forall>m. r = Inr (Some m) \<longrightarrow> hc_account b = Some (id_of m)))"
      unfolding get_service_account_user_def by (rule triple_one) (use read_account h in blast)
    have loop: "triple (\<lambda>t. held t = h \<and> hc_account b = Some j)
        (for_each (grant_client_roles env a realm j) entries False) (\<lambda>r t. \<forall>ch. r = Inr ch \<longrightarrow> ?I entries ch t)" for j
    proof (rule triple_given)
      assume j: "hc_account b = Some j"
      have "triple (?I [] False) (for_each (grant_client_roles env a realm j) entries False)
          (\<lambda>r t. \<forall>ch. r = Inr ch \<longrightarrow> ?I entries ch t)"
        by (rule triple_for_each_at) (rule triple_grant [where h = h, OF h j])
      then show "triple (\<lambda>t. held t = h) (for_each (grant_client_roles env a realm j) entries False)
          (\<lambda>r t. \<forall>ch. r = Inr ch \<longrightarrow> ?I entries ch t)"
        by (rule triple_mono) (use start in blast)+
    qed
    show ?thesis
      unfolding reconcile_service_account_roles_def Some option.case declared_list_def
      apply (rule triple_if)
       apply (rule triple_return, simp)
      apply (rule triple_wrap [OF account], simp, rule triple_case_option)
       apply (rule triple_return, simp)
      apply (rule triple_mono [OF loop], simp_all add: id_of_def)
      done
  qed
  show "triple (\<lambda>t. held t = h) (reconcile_service_account_roles env a realm i spec)
      (\<lambda>r t. \<forall>ch. r = Inr ch \<longrightarrow> (\<exists>c. held t = h((realm, i) \<mapsto> c) \<and>
         (\<exists>cur. c = b\<lparr>hc_roles := cur\<rparr> \<and>
            roles_granted (client_named h realm) (declared_list (declared_client_roles spec)) (hc_roles b) cur) \<and>
         (\<not> ch \<longrightarrow> c = b)))"
    by (rule triple_mono [OF all]) (simp, force)
qed

lemma then_changes:
  assumes "changes_client held key R m" and "\<And>e t. Q (Inl e) t"
    and "\<And>ch c c'. P c \<Longrightarrow> R (h(key \<mapsto> c)) c c' \<Longrightarrow> (\<not> ch \<Longrightarrow> c' = c) \<Longrightarrow> P' ch c'"
    and "\<And>ch. triple (\<lambda>t. \<exists>c. held t = h(key \<mapsto> c) \<and> P' ch c) (k ch) Q"
  shows "triple (\<lambda>t. \<exists>c. held t = h(key \<mapsto> c) \<and> P c) (try_ok m k) Q"
proof (rule triple_try [OF changes_triple [OF assms(1)]])
  fix ch
  show "triple (\<lambda>t. \<forall>ch'. Inr ch = Inr ch' \<longrightarrow>
      (\<exists>b c. held t = h(key \<mapsto> c) \<and> P b \<and> R (h(key \<mapsto> b)) b c \<and> (\<not> ch' \<longrightarrow> c = b))) (k ch) Q"
    by (rule triple_mono [OF assms(4)]) (use assms(3) in \<open>simp, blast\<close>)+
qed (rule assms(2))

lemma client_composed:
  assumes "client_placed spec secret (h key) res b" and "key = client_key spec res"
    and "entries_added (client_named (h(key \<mapsto> b)) (client_realm spec)) spec b c" and "\<not> changed \<longrightarrow> c = b"
  shows "client_declared spec secret h (if changed then res\<lparr>clr_updated := True\<rparr> else res) (h(key \<mapsto> c))"
proof -
  let ?res = "if changed then res\<lparr>clr_updated := True\<rparr> else res"
  have same: "client_key spec ?res = key" using assms(2) by (simp add: client_key_def)
  have "client_placed spec secret (h key) ?res b"
    using assms(1) by (auto simp: client_placed_def split: option.splits)
  moreover have "hc_fields c = hc_fields b" using assms(3) by (simp add: entries_added_def with_entries_def)
  then have "client_named (h(key \<mapsto> c)) (client_realm spec) = client_named (h(key \<mapsto> b)) (client_realm spec)"
    by (intro ext) (rule named_with_fields)
  ultimately show ?thesis
    unfolding client_declared_def same using assms by (intro exI [of _ b] exI [of _ c]) auto
qed

lemma triple_client_entries:
  assumes placed: "client_placed spec secret (h (client_key spec res)) res b" and ok: "client_spec_ok spec"
  shows "triple (\<lambda>t. held t = h(client_key spec res \<mapsto> b))
    (try_ok (reconcile_service_account_roles env a (client_realm spec) (clr_uuid res) spec) (\<lambda>account_changed.
     try_ok (reconcile_protocol_mappers env a (client_realm spec) (clr_uuid res) (cs_protocol_mappers spec)) (\<lambda>mappers_changed.
     try_ok (reconcile_client_scopes env a (client_realm spec) (clr_uuid res) default_scope_kind
               (cs_default_client_scopes spec)) (\<lambda>defaults_changed.
     try_ok (reconcile_client_scopes env a (client_realm spec) (clr_uuid res) optional_scope_kind
               (cs_optional_client_scopes spec)) (\<lambda>optionals_changed.
     ok (if account_changed \<or> mappers_changed \<or> defaults_changed \<or> optionals_changed
         then res\<lparr>clr_updated := True\<rparr> else res))))))
    (\<lambda>r t. \<forall>res'. r = Inr res' \<longrightarrow> client_declared spec secret h res' (held t))"
  (is "triple ?start ?work ?post")
proof -
  let ?key = "client_key spec res"
  let ?E = "with_entries (client_named (h(?key \<mapsto> b)) (client_realm spec)) (declared_list (declared_client_roles spec))"
  let ?ms = "declared_list (cs_protocol_mappers spec)" and ?ds = "declared_list (cs_default_client_scopes spec)"
  have mappers: "list_all (\<lambda>p. distinct (keys_of (pm_config p))) ?ms" "distinct (map pm_name ?ms)"
    using ok by (simp_all add: client_spec_ok_def)
  note key = client_key_def [of spec res, symmetric]
  note steps = changes_roles [of "client_realm spec" "clr_uuid res" spec a, unfolded key]
    changes_mappers [OF mappers, of "client_realm spec" "clr_uuid res" a, unfolded key]
    changes_scopes [OF insertI1, of "client_realm spec" "clr_uuid res" _ a, unfolded key]
    changes_scopes [OF insertI2 [OF insertI1], of "client_realm spec" "clr_uuid res" _ a, unfolded key]
  note composed = client_composed [where h = h and key = ?key and b = b, OF placed refl]
  have "triple (\<lambda>t. \<exists>c. held t = h(?key \<mapsto> c) \<and> c = b) ?work ?post"
  proof (rule then_changes [OF steps(1), where P' = "\<lambda>ch c. ?E [] [] [] b c \<and> (\<not> ch \<longrightarrow> c = b)"])
    fix ch1
    show "triple (\<lambda>t. \<exists>c. held t = h(?key \<mapsto> c) \<and> ?E [] [] [] b c \<and> (\<not> ch1 \<longrightarrow> c = b)) 
     (try_ok (reconcile_protocol_mappers env a (client_realm spec) (clr_uuid res) (cs_protocol_mappers spec)) (\<lambda>mappers_changed.
      try_ok (reconcile_client_scopes env a (client_realm spec) (clr_uuid res) default_scope_kind
               (cs_default_client_scopes spec)) (\<lambda>defaults_changed.
      try_ok (reconcile_client_scopes env a (client_realm spec) (clr_uuid res) optional_scope_kind
               (cs_optional_client_scopes spec)) (\<lambda>optionals_changed.
      ok (if ch1 \<or> mappers_changed \<or> defaults_changed \<or> optionals_changed then res\<lparr>clr_updated := True\<rparr> else res))))) ?post"
      apply (rule then_changes [OF steps(2), where P' = "\<lambda>ch c. ?E ?ms [] [] b c \<and> (\<not> ch1 \<and> \<not> ch \<longrightarrow> c = b)"])
        apply simp
       apply (auto intro: entries_extended(2)) []
      subgoal for ch2
        apply (rule then_changes [OF steps(3), where P' = "\<lambda>ch c. ?E ?ms ?ds [] b c \<and> (\<not> ch1 \<and> \<not> ch2 \<and> \<not> ch \<longrightarrow> c = b)"])
          apply simp
         apply (auto intro: entries_extended(3)) []
        subgoal for ch3
          apply (rule then_changes [OF steps(4), where P' = "\<lambda>ch c. entries_added (client_named (h(?key \<mapsto> b)) (client_realm spec)) spec b c \<and>
              (\<not> (ch1 \<or> ch2 \<or> ch3 \<or> ch) \<longrightarrow> c = b)"])
            apply simp
           apply (auto intro: entries_extended(4) simp: entries_added_def) []
          apply (rule triple_return)
          apply (use composed in fastforce)
          done
        done
      done
  qed (auto intro: entries_extended(1))
  then show ?thesis by (rule triple_mono) simp_all
qed

lemma held_reconcile_client:
  assumes "client_spec_ok spec"
  shows "triple (\<lambda>t. held t = h) (reconcile_client env a spec secret)
    (\<lambda>r t. \<forall>res. r = Inr res \<longrightarrow> client_declared spec secret h res (held t))"
proof -
  have d: "wf_rep (desired_client_representation spec secret)"
    by (rule wf_desired_client) (use assms in \<open>simp add: client_spec_ok_def\<close>)
  have place: "triple (\<lambda>t. held t = h \<and> (\<forall>l. (Inr live :: go_err + representation option) = Inr (Some l) \<longrightarrow>
        shows_client (client_realm spec) h l \<and> string_value l ''clientId'' = cs_client_id spec))
      (place_client env a spec secret live) (\<lambda>r t. \<forall>res. r = Inr res \<longrightarrow> placed_in spec secret h res (held t))" for live
    by (rule triple_given, cases live) (simp_all add: triple_place_new_client triple_place_live_client d)
  show ?thesis
    unfolding reconcile_client_def Let_def
    apply (rule triple_wrap [OF triple_get_client], simp)
    apply (rule triple_try [OF place], simp)
    apply (rule triple_mono [where P = "\<lambda>t. placed_in spec secret h _ (held t)"], rule triple_at)
      apply (auto simp: placed_in_def intro: triple_client_entries [OF _ assms])
    done
qed

end

text \<open>
  C23. Synchronising a client implements an update of the store. Against a Keycloak that keeps what it
  accepts, whenever the reconciliation of a resource whose mappers have different names succeeds,
  exactly the client it reports has changed: it has the declared fields; exactly the declared
  mappers are created or merged into what they were; exactly the declared scopes are assigned; the
  service account has the declared roles and no other new one. A client that was there keeps its
  other mappers, scopes and roles and its other fields; within an object both have (the attributes
  of the client, the configuration of a mapper) it keeps the entries the resource does not name,
  at every depth. The client is reported as created exactly when there was none, and is as it was
  when no change is reported. (\<open>client_spec_ok\<close> also has the keys of the resource's own maps
  distinct, as those of every Go map are.)
\<close>

theorem reconcile_client_refines:
  assumes "client_store env held scope_name" and "client_spec_ok spec"
    and "run_state (reconcile_client env a spec secret) s = (Inr res, s')"
  shows "client_declared spec secret (held (st_trace s)) res (held (st_trace s'))"
  using tripleD [OF client_store.held_reconcile_client [OF assms(1,2)] refl assms(3)] by blast

section \<open>What the status of a KeycloakClient says of Keycloak\<close>

lemma emits_client_status:
  "emits (closing (meta_generation meta)) (set_client_status env ns nam meta uuid st msg)"
  "st \<noteq> ServiceReady \<Longrightarrow> emits silent (set_client_status env ns nam meta uuid st msg)"
  unfolding set_client_status_def
  by (rule emits_status_write [where state = st], simp add: with_client_status_def,
      rule emits_status_write [where state = st], simp_all add: with_client_status_def)

lemma emits_client_deletion: "emits silent (delete_client_resource ar a ob)"
proof -
  have "emits (sends (\<lambda>m path body. True)) (delete_declared_client env a spec)" for env spec
    unfolding delete_declared_client_def delete_client_def Let_def by (auto intro!: emits_intros)
  then have "emits silent (delete_declared_client env a spec)" for env spec
    by (rule emits_mono) (rule sends_silent)
  then show ?thesis
    unfolding delete_client_resource_def finish_deletion_def by (auto intro!: emits_intros emits_release_silent)
qed

text \<open>
  The secret of a pass that began at \<open>t0\<close>: none without a reference; otherwise the value, not empty, of
  the named key of the named Secret, as the API server answered a read of it within the calls of
  the pass.
\<close>

definition secret_read :: "env \<Rightarrow> trace \<Rightarrow> trace \<Rightarrow> string \<Rightarrow> keycloak_client_spec \<Rightarrow> string \<Rightarrow> bool" where
  "secret_read env t0 t own spec secret \<longleftrightarrow>
     (case cs_client_secret_ref spec of
        None \<Rightarrow> secret = []
      | Some ref \<Rightarrow> secret \<noteq> [] \<and>
          (\<exists>before after stored. t = t0 @ before @ K8sGet secret_gvk own (sel_name ref) # after \<and>
             env_get env (t0 @ before) secret_gvk own (sel_name ref) = Inr stored \<and>
             secret = secret_value stored (sel_key ref)))"

lemma secret_read_append: "secret_read env t0 t own spec secret \<Longrightarrow> secret_read env t0 (t @ new) own spec secret"
  unfolding secret_read_def by (fastforce split: option.splits)

lemma triple_client_secret:
  assumes "kept_view held"
  shows "triple (\<lambda>t. only_since silent t0 t \<and> held t = h) (client_secret env own spec)
    (\<lambda>r t. only_since silent t0 t \<and> held t = h \<and> (\<forall>secret. r = Inr secret \<longrightarrow> secret_read env t0 t own spec secret))"
proof (cases "cs_client_secret_ref spec")
  case None
  then show ?thesis by (auto simp: client_secret_def secret_read_def intro!: triple_return)
next
  case (Some ref)
  show ?thesis
    unfolding triple_def
  proof (intro allI impI)
    fix s r s'
    assume start: "only_since silent t0 (st_trace s) \<and> held (st_trace s) = h"
      and run: "run_state (client_secret env own spec) s = (r, s')"
    let ?get = "K8sGet secret_gvk own (sel_name ref)"
    have t: "st_trace s' = st_trace s @ [?get]"
      using run Some by (auto simp: client_secret_def k8s_get_def split: sum.splits if_splits)
    have "secret_read env t0 (st_trace s') own spec secret" if "r = Inr secret" for secret
    proof -
      obtain before where before: "st_trace s = t0 @ before" using start by (auto simp: only_since_def)
      have run': "run_state (client_secret env own spec) s = (Inr secret, s')" using run that by simp
      obtain stored where "env_get env (st_trace s) secret_gvk own (sel_name ref) = Inr stored"
        using run' Some by (cases "env_get env (st_trace s) secret_gvk own (sel_name ref)")
          (auto simp: client_secret_def k8s_get_def)
      moreover from this have "secret = secret_value stored (sel_key ref)" "secret \<noteq> []"
        using run' Some by (auto simp: client_secret_def k8s_get_def split: if_splits)
      ultimately show ?thesis using before t Some by (auto simp: secret_read_def)
    qed
    then show "only_since silent t0 (st_trace s') \<and> held (st_trace s') = h \<and>
        (\<forall>secret. r = Inr secret \<longrightarrow> secret_read env t0 (st_trace s') own spec secret)"
      using start t kept_view.kept_calls [OF assms, of "[?get]" "st_trace s"]
      by (auto intro: only_since_append)
  qed
qed

definition client_served ::
    "env \<Rightarrow> (trace \<Rightarrow> held_clients) \<Rightarrow> trace \<Rightarrow> held_clients \<Rightarrow> k8s_object \<Rightarrow> trace \<Rightarrow> bool" where
  "client_served env held t0 h ob t \<longleftrightarrow>
     (\<exists>secret res. secret_read env t0 t (meta_namespace (ob_meta ob)) (client_spec_of ob) secret \<and>
        client_declared (client_spec_of ob) secret h res (held t))"

lemma held_live_client:
  assumes "client_store (ar_env ar) held scope_name" and "worked_on (ar_env ar) f found ob"
    and "\<And>ob. worked_on (ar_env ar) f found ob \<Longrightarrow> client_spec_ok (client_spec_of ob)"
  shows "triple (\<lambda>t. only_since silent t0 t \<and> held t = h) (reconcile_live_client ar ns nam a ob)
    (\<lambda>r. truthful (ar_env ar) f found (client_served (ar_env ar) held t0 h) t0)"
proof -
  let ?env = "ar_env ar" and ?own = "meta_namespace (ob_meta ob)" and ?spec = "client_spec_of ob"
  have view: "kept_view held" using assms(1) by (rule client_store.axioms(1))
  note secret = triple_client_secret [OF view, of t0 h ?env ?own ?spec]
  have "emits silent (reconcile_client ?env a ?spec secret)" for secret
    by (rule emits_mono [OF client_writes]) (rule sends_silent)
  note work = triple_conj [OF triple_only [OF this] client_store.held_reconcile_client [OF assms(1) assms(3) [OF assms(2)]]]
  have read: "triple (\<lambda>t. secret_read ?env t0 t ?own ?spec secret) (reconcile_client ?env a ?spec secret)
      (\<lambda>r t. secret_read ?env t0 t ?own ?spec secret)" for secret
    by (rule triple_calls [OF client_writes]) (simp add: secret_read_append)
  have pushed: "triple (\<lambda>t. only_since silent t0 t \<and> held t = h \<and> (\<forall>x. (Inr secret :: go_err + string) = Inr x \<longrightarrow>
        secret_read ?env t0 t ?own ?spec x)) (reconcile_client ?env a ?spec secret)
      (\<lambda>r t. only_since silent t0 t \<and> (\<forall>res. r = Inr res \<longrightarrow> client_served ?env held t0 h ob t))" for secret
    by (rule triple_mono [OF triple_conj [OF work read]]) (auto simp: client_served_def)
  have "emits (closing (meta_generation (ob_meta ob)))
      (ready_pass ar (set_client_status ?env ns nam (ob_meta ob) uuid) msg)" for uuid msg
    unfolding ready_pass_def by (intro emits_intros emits_client_status)
  note ready = kept_view.triple_closing_kept [where established = "client_served ?env held t0 h", OF view assms(2) this]
  have stays: "client_served ?env held t0 h ob (t @ new)" if "\<forall>c \<in> set new. quiet c" "client_served ?env held t0 h ob t" for t new
    using that kept_view.kept_calls [OF view that(1)] secret_read_append unfolding client_served_def by metis
  show ?thesis
    unfolding reconcile_live_client_def Let_def
    apply (rule kept_view.triple_failing [OF view secret])
      apply simp
     apply (simp add: emits_client_status)
    apply (rule kept_view.triple_failing [OF view pushed])
      apply simp
     apply (simp add: emits_client_status)
    apply (rule triple_mono [OF ready])
      apply (auto intro: stays)
    done
qed

text \<open>
  C21. A KeycloakClient that is published Ready describes the client in Keycloak. In a pass of the
  controller over a client resource with differently named mappers, whatever the API server, the
  clock and the Secrets answer, when a status Ready is written then the client the resource names now
  has the declared fields, mappers, scopes and service account roles, with the rest of it and
  all other clients as the pass found them. Its secret is the value of the referenced key, not
  empty, that this pass read from the Secret in the namespace of the resource, or none without
  a reference. The status names the generation of the resource the pass worked with.
\<close>

theorem ready_client_is_held:
  assumes "client_store (ar_env ar) held scope_name"
    and "env_get (ar_env ar) (st_trace s) keycloak_client_gvk ns nam = Inr found"
    and "\<And>ob. worked_on (ar_env ar) keycloak_client_finalizer found ob \<Longrightarrow> client_spec_ok (client_spec_of ob)"
    and "run_state (reconcile_client_resource ar ns nam) s = (r, s')"
    and "K8sUpdateStatus published \<in> set (new_calls s s')"
    and "ob_content published = ClientContent spec st" and "cst_status st = ServiceReady"
  shows "\<exists>ob secret res. worked_on (ar_env ar) keycloak_client_finalizer found ob \<and>
    cst_observed_generation st = meta_generation (ob_meta ob) \<and>
    secret_read (ar_env ar) (st_trace s) (st_trace s') (meta_namespace (ob_meta ob)) (client_spec_of ob) secret \<and>
    client_declared (client_spec_of ob) secret (held (st_trace s)) res (held (st_trace s'))"
proof -
  have view: "kept_view held" using assms(1) by (rule client_store.axioms(1))
  have ready: "status_of (ob_content published) = Some (ServiceReady, cst_observed_generation st)"
    using assms(6,7) by simp
  show ?thesis
    using kept_view.pass_truthful [OF view assms(2) assms(4) [unfolded reconcile_client_resource_def]
        held_live_client [OF assms(1) _ assms(3)] emits_client_deletion emits_client_status(2) assms(5) ready]
    unfolding client_served_def by blast
qed

section \<open>Requests by their paths\<close>

text \<open>The endpoints the synchronisation of a client talks to.\<close>

datatype endpoint =
    AllClients string
  | ClientSearch string
  | RealmScopes string
  | OneClient string string
  | ServiceAccount string string
  | ScopesOf string string string
  | OneScope string string string string
  | MappersOf string string
  | OneMapper string string string
  | RoleOf string string string
  | RolesGranted string string string
  | NoEndpoint

definition kind_of_scopes :: "string \<Rightarrow> string option" where
  "kind_of_scopes x =
     (if x = ''default-client-scopes'' then Some default_scope_kind
      else if x = ''optional-client-scopes'' then Some optional_scope_kind else None)"

definition endpoint_of :: "string \<Rightarrow> endpoint" where
  "endpoint_of path =
     (case split_string path ''/'' of
        [_, _, _, r, c] \<Rightarrow>
          let r = path_unescape r in
          if c = ''clients'' then AllClients r
          else if c = ''client-scopes'' then RealmScopes r
          else if has_prefix c ''clients?'' then ClientSearch r else NoEndpoint
      | [_, _, _, r, c, u] \<Rightarrow> if c = ''clients'' then OneClient (path_unescape r) (path_unescape u) else NoEndpoint
      | [_, _, _, r, c, u, x] \<Rightarrow>
          let r = path_unescape r; u = path_unescape u in
          if c \<noteq> ''clients'' then NoEndpoint
          else if x = ''service-account-user'' then ServiceAccount r u
          else (case kind_of_scopes x of None \<Rightarrow> NoEndpoint | Some k \<Rightarrow> ScopesOf r u k)
      | [_, _, _, r, c, u, x, y] \<Rightarrow>
          let r = path_unescape r; u = path_unescape u in
          if c \<noteq> ''clients'' then NoEndpoint
          else if x = ''roles'' then RoleOf r u (path_unescape y)
          else if x = ''protocol-mappers'' \<and> y = ''models'' then MappersOf r u
          else (case kind_of_scopes x of None \<Rightarrow> NoEndpoint | Some k \<Rightarrow> OneScope r u k (path_unescape y))
      | [_, _, _, r, c, u, x, y, z] \<Rightarrow>
          let r = path_unescape r; u = path_unescape u; z = path_unescape z in
          if c = ''clients'' \<and> x = ''protocol-mappers'' \<and> y = ''models'' then OneMapper r u z
          else if c = ''users'' \<and> x = ''role-mappings'' \<and> y = ''clients'' then RolesGranted r u z else NoEndpoint
      | _ \<Rightarrow> NoEndpoint)"

lemma split_from_segment:
  "CHR ''/'' \<notin> set u \<Longrightarrow> split_from ''/'' acc u = [rev acc @ u]"
  "CHR ''/'' \<notin> set u \<Longrightarrow> split_from ''/'' acc (u @ CHR ''/'' # x) = (rev acc @ u) # split_from ''/'' [] x"
  by (induction u arbitrary: acc) (auto simp: has_prefix_def)

lemma split_escaped [simp]:
  "split_from ''/'' acc (path_escape u) = [rev acc @ path_escape u]"
  "split_from ''/'' acc (path_escape u @ CHR ''/'' # x) = (rev acc @ path_escape u) # split_from ''/'' [] x"
  using path_escape_chars [of "CHR ''/''" u]
  by (auto intro!: split_from_segment simp: path_keeps_def is_unreserved_def)

lemma split_query [simp]: "split_from ''/'' acc (query_escape u) = [rev acc @ query_escape u]"
proof (rule split_from_segment)
  show "CHR ''/'' \<notin> set (query_escape u)"
    by (auto simp: query_escape_def is_unreserved_def dest!: percent_chars split: if_splits)
qed

lemma endpoints [simp]:
  "endpoint_of (realm_path r ''/clients'') = AllClients r"
  "endpoint_of (clients_search r cid) = ClientSearch r"
  "endpoint_of (realm_path r ''/client-scopes'') = RealmScopes r"
  "endpoint_of (client_path r u []) = OneClient r u"
  "endpoint_of (client_path r u ''/service-account-user'') = ServiceAccount r u"
  "endpoint_of (client_path r u (''/roles/'' @ path_escape n)) = RoleOf r u n"
  "endpoint_of (mappers_path r u) = MappersOf r u"
  "endpoint_of (mappers_path r u @ ''/'' @ path_escape n) = OneMapper r u n"
  "endpoint_of (client_roles_path r j u) = RolesGranted r j u"
  "kind \<in> scope_kinds \<Longrightarrow> endpoint_of (scopes_path r u kind) = ScopesOf r u kind"
  "kind \<in> scope_kinds \<Longrightarrow> endpoint_of (scopes_path r u kind @ ''/'' @ path_escape n) = OneScope r u kind n"
  by (auto simp: endpoint_of_def split_string_def realm_path_def client_path_def clients_search_def mappers_path_def
      client_roles_path_def user_path_def scopes_path_def has_prefix_def path_unescape_escape kind_of_scopes_def
      default_scope_kind_def optional_scope_kind_def)

section \<open>Clients in memory\<close>

text \<open>
  A Keycloak that keeps clients, with the client scopes of its realms and the roles of its clients given.
  Clients are identified by their client id, mappers and scopes by their name, a service account by
  its client.
\<close>

record kept_client =
  kc_fields :: representation
  kc_mappers :: "(string \<times> representation) list"
  kc_scopes :: "(string \<times> string) list"
  kc_roles :: "(string \<times> string) list"

type_synonym kept_clients = "((string \<times> string) \<times> kept_client) list"

definition has_account :: "representation \<Rightarrow> bool" where
  "has_account m \<longleftrightarrow> map_of m ''serviceAccountsEnabled'' = Some (JBool True)"

definition to_held :: "string \<Rightarrow> kept_client \<Rightarrow> held_client" where
  "to_held i c = \<lparr>hc_fields = settings (kc_fields c), hc_mappers = map_of (kc_mappers c), hc_scopes = map_of (kc_scopes c),
     hc_account = (if has_account (kc_fields c) then Some i else None), hc_roles = set (kc_roles c)\<rparr>"

definition clients_of :: "kept_clients \<Rightarrow> held_clients" where
  "clients_of st key = map_option (to_held (snd key)) (map_of st key)"

definition named_rep :: "string \<Rightarrow> representation" where
  "named_rep n = [(''id'', JStr n), (''name'', JStr n)]"

definition change_client ::
    "string \<times> string \<Rightarrow> (kept_client \<Rightarrow> kept_client option) \<Rightarrow> kept_clients \<Rightarrow> kept_clients option" where
  "change_client key f st =
     (case map_of st key of None \<Rightarrow> None | Some c \<Rightarrow> map_option (\<lambda>c'. AList.update key c' st) (f c))"

definition put_fields :: "string \<Rightarrow> representation \<Rightarrow> kept_client \<Rightarrow> kept_client option" where
  "put_fields i m c =
     (if wf_rep m \<and> id_of m = i \<and> string_value m ''clientId'' = i
      then Some (c\<lparr>kc_fields := m, kc_roles := if has_account m then kc_roles c else []\<rparr>) else None)"

definition add_mapper :: "representation \<Rightarrow> kept_client \<Rightarrow> kept_client option" where
  "add_mapper m c =
     (let n = string_value m ''name'' in
      if wf_rep m \<and> map_of m ''id'' = None \<and> map_of (kc_mappers c) n = None
      then Some (c\<lparr>kc_mappers := AList.update n (set_key ''id'' (JStr n) m) (kc_mappers c)\<rparr>) else None)"

definition change_mapper :: "string \<Rightarrow> representation \<Rightarrow> kept_client \<Rightarrow> kept_client option" where
  "change_mapper n m c =
     (if wf_rep m \<and> id_of m = n \<and> string_value m ''name'' = n \<and> map_of (kc_mappers c) n \<noteq> None
      then Some (c\<lparr>kc_mappers := AList.update n m (kc_mappers c)\<rparr>) else None)"

definition add_scope :: "string \<Rightarrow> string \<Rightarrow> kept_client \<Rightarrow> kept_client" where
  "add_scope n kind c =
     (if map_of (kc_scopes c) n = None then c\<lparr>kc_scopes := AList.update n kind (kc_scopes c)\<rparr> else c)"

definition add_roles :: "string \<Rightarrow> representation list \<Rightarrow> kept_client \<Rightarrow> kept_client option" where
  "add_roles own ms c =
     (if has_account (kc_fields c)
      then Some (c\<lparr>kc_roles := kc_roles c @ map (\<lambda>m. (own, string_value m ''name'')) ms\<rparr>) else None)"

definition new_client :: "representation \<Rightarrow> kept_client" where
  "new_client m = \<lparr>kc_fields = set_key ''id'' (JStr (string_value m ''clientId'')) m, kc_mappers = [], kc_scopes = [], kc_roles = []\<rparr>"

definition post_to :: "kept_clients \<Rightarrow> endpoint \<Rightarrow> json option \<Rightarrow> kept_clients option" where
  "post_to st e body =
     (case (e, body) of
        (AllClients r, Some (JObj m)) \<Rightarrow>
          (let i = string_value m ''clientId'' in
           if wf_rep m \<and> map_of m ''id'' = None \<and> map_of st (r, i) = None
           then Some (AList.update (r, i) (new_client m) st) else None)
      | (MappersOf r i, Some (JObj m)) \<Rightarrow> change_client (r, i) (add_mapper m) st
      | (RolesGranted r i own, Some (JArr js)) \<Rightarrow>
          (case into_elements js of Inl err \<Rightarrow> None | Inr ms \<Rightarrow> change_client (r, i) (add_roles own ms) st)
      | _ \<Rightarrow> None)"

definition put_to :: "string list \<Rightarrow> kept_clients \<Rightarrow> endpoint \<Rightarrow> json option \<Rightarrow> kept_clients option" where
  "put_to scopes st e body =
     (case (e, body) of
        (OneClient r i, Some (JObj m)) \<Rightarrow> change_client (r, i) (put_fields i m) st
      | (OneMapper r i n, Some (JObj m)) \<Rightarrow> change_client (r, i) (change_mapper n m) st
      | (OneScope r i kind n, None) \<Rightarrow>
          if n \<in> set scopes then change_client (r, i) (\<lambda>c. Some (add_scope n kind c)) st else None
      | _ \<Rightarrow> None)"

definition accept_client ::
    "string list \<Rightarrow> kept_clients \<Rightarrow> http_method \<Rightarrow> string \<Rightarrow> json option \<Rightarrow> kept_clients option" where
  "accept_client scopes st m path body =
     (case m of POST \<Rightarrow> post_to st (endpoint_of path) body | PUT \<Rightarrow> put_to scopes st (endpoint_of path) body | _ \<Rightarrow> None)"

definition read_clients :: "string list \<Rightarrow> string list \<Rightarrow> kept_clients \<Rightarrow> string \<Rightarrow> json option" where
  "read_clients scopes roles st path =
     (case endpoint_of path of
        ClientSearch r \<Rightarrow> Some (objects (map (\<lambda>p. kc_fields (snd p))
          (filter (\<lambda>p. fst (fst p) = r \<and> path = clients_search r (snd (fst p))) st)))
      | RealmScopes r \<Rightarrow> Some (objects (map named_rep scopes))
      | MappersOf r i \<Rightarrow> map_option (\<lambda>c. objects (map snd (kc_mappers c))) (map_of st (r, i))
      | ScopesOf r i kind \<Rightarrow>
          map_option (\<lambda>c. objects (map (\<lambda>p. named_rep (fst p)) (filter (\<lambda>p. snd p = kind) (kc_scopes c)))) (map_of st (r, i))
      | ServiceAccount r i \<Rightarrow>
          (case map_of st (r, i) of None \<Rightarrow> None
           | Some c \<Rightarrow> if has_account (kc_fields c) then Some (JObj (named_rep i)) else None)
      | RoleOf r own n \<Rightarrow> if n \<in> set roles then Some (JObj (named_rep n)) else None
      | RolesGranted r i own \<Rightarrow>
          map_option (\<lambda>c. objects (map (\<lambda>p. named_rep (snd p)) (filter (\<lambda>p. fst p = own) (kc_roles c)))) (map_of st (r, i))
      | _ \<Rightarrow> None)"

definition client_server :: "string list \<Rightarrow> string list \<Rightarrow> kept_clients server" where
  "client_server scopes roles =
     \<lparr>sv_start = [], sv_read = read_clients scopes roles, sv_accept = accept_client scopes\<rparr>"

lemma client_server_simps [simp]:
  "sv_start (client_server scopes roles) = []" "sv_read (client_server scopes roles) = read_clients scopes roles"
  "sv_accept (client_server scopes roles) = accept_client scopes"
  by (simp_all add: client_server_def)

text \<open>What holds of the clients that are kept.\<close>

definition client_ok :: "string \<Rightarrow> kept_client \<Rightarrow> bool" where
  "client_ok i c \<longleftrightarrow> wf_rep (kc_fields c) \<and> id_of (kc_fields c) = i \<and> string_value (kc_fields c) ''clientId'' = i \<and>
     list_all (\<lambda>(n, m). wf_rep m \<and> id_of m = n \<and> string_value m ''name'' = n) (kc_mappers c) \<and>
     distinct (keys_of (kc_mappers c)) \<and> distinct (keys_of (kc_scopes c))"

definition clients_ok :: "kept_clients \<Rightarrow> bool" where
  "clients_ok st \<longleftrightarrow> distinct (keys_of st) \<and> list_all (\<lambda>((r, i), c). client_ok i c) st"

lemma all_updated: "list_all P xs \<Longrightarrow> P (k, v) \<Longrightarrow> list_all P (AList.update k v xs)"
  by (induction xs) auto

lemma change_client_Some:
  "change_client key f st = Some st' \<longleftrightarrow> (\<exists>c c'. map_of st key = Some c \<and> f c = Some c' \<and> st' = AList.update key c' st)"
  by (auto simp: change_client_def split: option.splits)

lemma clients_changed:
  assumes "change_client (r, i) f st = Some st'" and "clients_of st (r, i) = Some b"
  shows "\<exists>c c'. b = to_held i c \<and> f c = Some c' \<and> map_of st (r, i) = Some c \<and> clients_of st' = (clients_of st)((r, i) \<mapsto> to_held i c')"
  using assms by (auto simp: change_client_Some clients_of_def map_of_update fun_eq_iff)

lemma client_okD: "clients_ok st \<Longrightarrow> map_of st (r, i) = Some c \<Longrightarrow> client_ok i c"
  by (auto simp: clients_ok_def list_all_iff dest!: map_of_SomeD)

lemma clients_ok_updated: "clients_ok st \<Longrightarrow> client_ok i c \<Longrightarrow> clients_ok (AList.update (r, i) c st)"
  by (simp add: clients_ok_def distinct_update all_updated)

lemma clients_ok_changed:
  assumes "change_client (r, i) f st = Some st'" and "clients_ok st"
    and "\<And>c c'. client_ok i c \<Longrightarrow> f c = Some c' \<Longrightarrow> client_ok i c'"
  shows "clients_ok st'"
proof -
  obtain c c' where c: "map_of st (r, i) = Some c" "f c = Some c'" "st' = AList.update (r, i) c' st"
    using assms(1) by (auto simp: change_client_Some)
  have "client_ok i c'" using assms(3) client_okD [OF assms(2) c(1)] c(2) by blast
  then show ?thesis using assms(2) c(3) by (simp add: clients_ok_updated)
qed

lemma client_ok_kept:
  "put_fields i m c = Some c' \<Longrightarrow> client_ok i c \<Longrightarrow> client_ok i c'"
  "add_mapper m c = Some c' \<Longrightarrow> client_ok i c \<Longrightarrow> client_ok i c'"
  "change_mapper n m c = Some c' \<Longrightarrow> client_ok i c \<Longrightarrow> client_ok i c'"
  "client_ok i c \<Longrightarrow> client_ok i (add_scope n kind c)"
  "add_roles own ms c = Some c' \<Longrightarrow> client_ok i c \<Longrightarrow> client_ok i c'"
  by (auto simp: client_ok_def put_fields_def add_mapper_def change_mapper_def add_scope_def add_roles_def Let_def
      distinct_update wf_rep_update id_of_def string_value_def map_of_update intro!: all_updated split: if_splits)

lemma accept_client_ok:
  assumes "accept_client scopes st m path body = Some st'" and "clients_ok st"
  shows "clients_ok st'"
proof -
  have new: "client_ok (string_value m ''clientId'') (new_client m)" if "wf_rep m" for m
    using that by (simp add: client_ok_def new_client_def wf_rep_update id_of_def string_value_def map_of_update)
  show ?thesis
    using assms
    by (auto simp: accept_client_def post_to_def put_to_def Let_def
        split: http_method.splits endpoint.splits option.splits json.splits sum.splits if_splits
        elim!: clients_ok_changed intro: client_ok_kept intro!: clients_ok_updated new)
qed

lemma kept_clients_ok: "clients_ok (state_after (client_server scopes roles) t)"
  by (rule state_invariant) (auto simp: clients_ok_def [of "[]"] intro: accept_client_ok)

lemmas client_written = served_written [of "client_server scopes roles" for scopes roles, simplified]
lemmas client_shown = served_shown [of "client_server scopes roles" for scopes roles, simplified]

lemma named_rep_values [simp]:
  "string_value (named_rep n) ''name'' = n" "id_of (named_rep n) = n" "string_value (named_rep n) ''id'' = n"
  by (simp_all add: named_rep_def string_value_def id_of_def)

text \<open>The writes, as updates of the clients.\<close>

lemma kept_refl: "wf_rep m \<Longrightarrow> kept_fields (settings m) (settings m)"
  by (intro holds_kept_fields holds_settings holds_refl)

lemma holds_new_key: "wf_rep m \<Longrightarrow> map_of m k = None \<Longrightarrow> holds m (set_key k v m)"
proof -
  assume m: "wf_rep m" "map_of m k = None"
  have "\<exists>w. map_of (set_key k v m) x = Some w \<and> holds_value y w" if xy: "(x, y) \<in> set m" for x y
  proof -
    obtain w where "map_of m x = Some w" "holds_value y w" using holds_refl [OF m(1)] xy by (auto simp: holds_iff)
    moreover have "x \<noteq> k" using m(2) xy by (auto simp: map_of_eq_None_iff image_iff)
    ultimately show ?thesis by (simp add: map_of_update)
  qed
  then show ?thesis by (simp add: holds_iff)
qed

lemma posted_client:
  assumes "accept_client scopes st POST (realm_path realm ''/clients'') (Some (JObj m)) = Some st'"
  shows "\<exists>i c. clients_of st (realm, i) = None \<and> clients_of st' = (clients_of st)((realm, i) \<mapsto> c) \<and>
    kept_fields (settings m) (hc_fields c)"
proof -
  let ?i = "string_value m ''clientId''"
  have m: "wf_rep m" "map_of m ''id'' = None" "map_of st (realm, ?i) = None" "st' = AList.update (realm, ?i) (new_client m) st"
    using assms by (auto simp: accept_client_def post_to_def Let_def split: if_splits)
  have "holds m (set_key ''id'' (JStr ?i) m)" by (rule holds_new_key [OF m(1,2)])
  then have "kept_fields (settings m) (hc_fields (to_held ?i (new_client m)))"
    by (simp add: to_held_def new_client_def holds_kept_fields holds_settings)
  moreover have "clients_of st' = (clients_of st)((realm, ?i) \<mapsto> to_held ?i (new_client m))"
    by (rule ext) (simp add: m(4) clients_of_def map_of_update)
  ultimately show ?thesis
    using m(3) by (intro exI [of _ ?i] exI [of _ "to_held ?i (new_client m)"]) (simp add: clients_of_def)
qed

lemma put_client_fields:
  assumes "accept_client scopes st PUT (client_path realm i []) (Some (JObj m)) = Some st'"
    and "clients_of st (realm, i) = Some b"
  shows "\<exists>c'. clients_of st' = (clients_of st)((realm, i) \<mapsto> c') \<and> client_put m b c'"
proof -
  have "change_client (realm, i) (put_fields i m) st = Some st'" using assms(1) by (simp add: accept_client_def put_to_def)
  from clients_changed [OF this assms(2)] obtain c c' where c: "b = to_held i c" "put_fields i m c = Some c'"
    "clients_of st' = (clients_of st)((realm, i) \<mapsto> to_held i c')" by blast
  then have "client_put m b (to_held i c')"
    by (auto simp: put_fields_def client_put_def to_held_def has_account_def kept_refl split: if_splits)
  with c(3) show ?thesis by blast
qed

lemma posted_mapper:
  assumes "accept_client scopes st POST (mappers_path realm i) (Some (JObj m)) = Some st'"
    and "clients_of st (realm, i) = Some b"
  shows "\<exists>new. clients_of st' = (clients_of st)((realm, i) \<mapsto> b\<lparr>hc_mappers := (hc_mappers b)(string_value m ''name'' \<mapsto> new)\<rparr>) \<and>
    holds m new"
proof -
  let ?n = "string_value m ''name''"
  have "change_client (realm, i) (add_mapper m) st = Some st'" using assms(1) by (simp add: accept_client_def post_to_def)
  from clients_changed [OF this assms(2)] obtain c c' where c: "b = to_held i c" "add_mapper m c = Some c'"
    "clients_of st' = (clients_of st)((realm, i) \<mapsto> to_held i c')" by blast
  then have m: "wf_rep m" "map_of m ''id'' = None"
    and c': "c' = c\<lparr>kc_mappers := AList.update ?n (set_key ''id'' (JStr ?n) m) (kc_mappers c)\<rparr>"
    by (simp_all add: add_mapper_def Let_def split: if_splits)
  have "to_held i c' = b\<lparr>hc_mappers := (hc_mappers b)(?n \<mapsto> set_key ''id'' (JStr ?n) m)\<rparr>"
    by (simp add: c c' to_held_def update_conv')
  moreover have "holds m (set_key ''id'' (JStr ?n) m)" by (rule holds_new_key [OF m(1,2)])
  ultimately show ?thesis using c(3) by metis
qed

lemma put_mapper_fields:
  assumes "accept_client scopes st PUT (mappers_path realm i @ ''/'' @ path_escape n) (Some (JObj m)) = Some st'"
    and "clients_of st (realm, i) = Some b"
  shows "\<exists>new. clients_of st' = (clients_of st)((realm, i) \<mapsto> b\<lparr>hc_mappers := (hc_mappers b)(string_value m ''name'' \<mapsto> new)\<rparr>) \<and>
    holds m new"
proof -
  have "change_client (realm, i) (change_mapper n m) st = Some st'"
    using assms(1) by (simp add: accept_client_def put_to_def endpoints(8) [simplified])
  from clients_changed [OF this assms(2)] obtain c c' where c: "b = to_held i c" "change_mapper n m c = Some c'"
    "clients_of st' = (clients_of st)((realm, i) \<mapsto> to_held i c')" by blast
  then have m: "wf_rep m" "string_value m ''name'' = n" and c': "c' = c\<lparr>kc_mappers := AList.update n m (kc_mappers c)\<rparr>"
    by (simp_all add: change_mapper_def split: if_splits)
  have "to_held i c' = b\<lparr>hc_mappers := (hc_mappers b)(n \<mapsto> m)\<rparr>"
    by (simp add: c c' to_held_def update_conv')
  then show ?thesis using c(3) m holds_refl [OF m(1)] by metis
qed

lemma put_one_scope:
  assumes "accept_client scopes st PUT (scopes_path realm i kind @ ''/'' @ path_escape n) None = Some st'"
    and "kind \<in> scope_kinds" and "clients_of st (realm, i) = Some b"
  shows "\<exists>k. clients_of st' = (clients_of st)((realm, i) \<mapsto> b\<lparr>hc_scopes := (hc_scopes b)(n \<mapsto> k)\<rparr>) \<and>
    (hc_scopes b n \<in> {None, Some kind} \<longrightarrow> k = kind)"
proof -
  have "change_client (realm, i) (\<lambda>c. Some (add_scope n kind c)) st = Some st'"
    using assms(1,2) by (auto simp: accept_client_def put_to_def endpoints(11) [simplified] split: if_splits)
  from clients_changed [OF this assms(3)] obtain c where c: "b = to_held i c"
    "clients_of st' = (clients_of st)((realm, i) \<mapsto> to_held i (add_scope n kind c))" by blast
  show ?thesis
  proof (cases "map_of (kc_scopes c) n")
    case None
    then have "to_held i (add_scope n kind c) = b\<lparr>hc_scopes := (hc_scopes b)(n \<mapsto> kind)\<rparr>"
      by (simp add: c to_held_def add_scope_def update_conv')
    with c(2) show ?thesis by metis
  next
    case (Some k)
    then have "to_held i (add_scope n kind c) = b\<lparr>hc_scopes := (hc_scopes b)(n \<mapsto> k)\<rparr>" "hc_scopes b n = Some k"
      by (simp_all add: c to_held_def add_scope_def fun_upd_idem)
    with c(2) show ?thesis by (intro exI [of _ k]) simp
  qed
qed

lemma posted_roles:
  assumes "accept_client scopes st POST (client_roles_path realm i own) (Some (JArr (map JObj ms))) = Some st'"
    and "clients_of st (realm, i) = Some b"
  shows "clients_of st' = (clients_of st)((realm, i) \<mapsto> b\<lparr>hc_roles := hc_roles b \<union> {own} \<times> names_of ms\<rparr>)"
proof -
  have "change_client (realm, i) (add_roles own ms) st = Some st'"
    using assms(1) by (simp add: accept_client_def post_to_def into_objects)
  from clients_changed [OF this assms(2)] obtain c c' where c: "b = to_held i c" "add_roles own ms c = Some c'"
    "clients_of st' = (clients_of st)((realm, i) \<mapsto> to_held i c')" by blast
  then have "to_held i c' = b\<lparr>hc_roles := hc_roles b \<union> {own} \<times> names_of ms\<rparr>"
    by (auto simp: add_roles_def to_held_def split: if_splits)
  with c(3) show ?thesis by simp
qed

text \<open>The reads, as views of the clients.\<close>

lemma found_clients:
  assumes "read_clients scopes roles st (clients_search realm cid) = Some j" and "clients_ok st"
  shows "\<exists>ms. j = objects ms \<and> (\<forall>m \<in> set ms. shows_client realm (clients_of st) m)"
proof -
  let ?found = "filter (\<lambda>p. fst (fst p) = realm \<and> clients_search realm cid = clients_search realm (snd (fst p))) st"
  have j: "j = objects (map (\<lambda>p. kc_fields (snd p)) ?found)" using assms(1) by (simp add: read_clients_def)
  have "shows_client realm (clients_of st) (kc_fields c)" if "((realm, i), c) \<in> set st" for i c
  proof -
    have c: "map_of st (realm, i) = Some c" using that assms(2) by (simp add: clients_ok_def)
    from client_okD [OF assms(2) this] have "wf_rep (kc_fields c)" "id_of (kc_fields c) = i" by (simp_all add: client_ok_def)
    with c show ?thesis by (simp add: shows_client_def clients_of_def to_held_def)
  qed
  then show ?thesis unfolding j by (intro exI [of _ "map (\<lambda>p. kc_fields (snd p)) ?found"]) auto
qed

lemma listed_mappers:
  assumes "read_clients scopes roles st (mappers_path realm i) = Some j" and "clients_of st (realm, i) = Some b" and "clients_ok st"
  shows "\<exists>ms. j = objects ms \<and> (\<forall>m \<in> set ms. wf_rep m \<and> hc_mappers b (string_value m ''name'') = Some m) \<and>
    dom (hc_mappers b) \<subseteq> names_of ms"
proof -
  obtain c where c: "map_of st (realm, i) = Some c" "b = to_held i c" "j = objects (map snd (kc_mappers c))"
    using assms(1,2) by (auto simp: read_clients_def clients_of_def)
  from client_okD [OF assms(3) c(1)] have maps: "distinct (keys_of (kc_mappers c))"
    and each: "\<And>n m. (n, m) \<in> set (kc_mappers c) \<Longrightarrow> wf_rep m \<and> string_value m ''name'' = n"
    by (auto simp: client_ok_def list_all_iff)
  have "n \<in> names_of (map snd (kc_mappers c))" if nm: "map_of (kc_mappers c) n = Some m" for n m
    using map_of_SomeD [OF nm] each by force
  moreover have "wf_rep m \<and> map_of (kc_mappers c) (string_value m ''name'') = Some m" if "m \<in> snd ` set (kc_mappers c)" for m
    using that each maps by fastforce
  ultimately show ?thesis
    unfolding c by (intro exI [of _ "map snd (kc_mappers c)"]) (auto simp: to_held_def)
qed

lemma listed_scopes:
  assumes "read_clients scopes roles st (scopes_path realm i kind) = Some j" and "kind \<in> scope_kinds"
    and "clients_of st (realm, i) = Some b" and "clients_ok st"
  shows "\<exists>ms. j = objects ms \<and> names_of ms = {n. hc_scopes b n = Some kind}"
proof -
  let ?ms = "\<lambda>c. map (\<lambda>p. named_rep (fst p)) (filter (\<lambda>p. snd p = kind) (kc_scopes c))"
  obtain c where c: "map_of st (realm, i) = Some c" "b = to_held i c" "j = objects (?ms c)"
    using assms(1,3) endpoints(10) [OF assms(2)] by (auto simp: read_clients_def clients_of_def)
  from client_okD [OF assms(4) c(1)] have "distinct (keys_of (kc_scopes c))" by (simp add: client_ok_def)
  then have "names_of (?ms c) = {n. map_of (kc_scopes c) n = Some kind}" by (force simp: image_iff dest: map_of_SomeD)
  then show ?thesis unfolding c by (intro exI [of _ "?ms c"]) (simp add: to_held_def)
qed

lemma read_one_account:
  assumes "read_clients scopes roles st (client_path realm i ''/service-account-user'') = Some j"
    and "clients_of st (realm, i) = Some b"
  shows "\<exists>m. j = JObj m \<and> hc_account b = Some (id_of m)"
  using assms by (auto simp: read_clients_def clients_of_def to_held_def split: option.splits if_splits)

lemma listed_roles:
  assumes "read_clients scopes roles st (client_roles_path realm i own) = Some j" and "clients_of st (realm, i) = Some b"
  shows "\<exists>ms. j = objects ms \<and> names_of ms = {n. (own, n) \<in> hc_roles b}"
proof -
  let ?ms = "\<lambda>c. map (\<lambda>p. named_rep (snd p)) (filter (\<lambda>p. fst p = own) (kc_roles c))"
  obtain c where c: "map_of st (realm, i) = Some c" "b = to_held i c" "j = objects (?ms c)"
    using assms by (auto simp: read_clients_def clients_of_def)
  have "names_of (?ms c) = {n. (own, n) \<in> set (kc_roles c)}" by (force simp: image_iff)
  then show ?thesis unfolding c by (intro exI [of _ "?ms c"]) (simp add: to_held_def)
qed

lemma account_of_client: "clients_of st (realm, i) = Some b \<Longrightarrow> hc_account b = Some j \<Longrightarrow> j = i"
  by (auto simp: clients_of_def to_held_def split: if_splits)

interpretation client_memory: client_store "served_env (client_server scopes roles) cluster"
    "\<lambda>t. clients_of (state_after (client_server scopes roles) t)" "\<lambda>realm j. j" for scopes roles cluster
proof unfold_locales
  let ?env = "served_env (client_server scopes roles) cluster" and ?st = "state_after (client_server scopes roles)"
  show "clients_of (?st (t @ [c])) = clients_of (?st t)" if "quiet c" for c t
    using that by (simp add: state_quiet)
  show "\<exists>ms. lists_objects ?env raw ms \<and> (\<forall>m \<in> set ms. shows_client realm (clients_of (?st t)) m)"
    if "replied ?env t base GET (clients_search realm cid) None raw" for t base realm cid raw
    using client_shown [OF that] found_clients [OF _ kept_clients_ok] shown_lists(1) by metis
  show "i = j" if "client_named (clients_of (?st t)) realm cid i" "client_named (clients_of (?st t)) realm cid j"
    for t realm cid i j
    using that client_okD [OF kept_clients_ok]
    by (fastforce simp: client_named_def clients_of_def to_held_def client_ok_def)
  show "\<exists>i c. clients_of (?st t) (realm, i) = None \<and>
      clients_of (?st (t @ [AdminCall base POST (realm_path realm ''/clients'') (Some (JObj m))]))
        = (clients_of (?st t))((realm, i) \<mapsto> c) \<and> kept_fields (settings m) (hc_fields c)"
    if "replied ?env t base POST (realm_path realm ''/clients'') (Some (JObj m)) raw" for t base realm m raw
    by (rule posted_client [OF client_written [OF that]]) simp
  show "\<exists>c'. clients_of (?st (t @ [AdminCall base PUT (client_path realm i []) (Some (JObj m))]))
      = (clients_of (?st t))((realm, i) \<mapsto> c') \<and> client_put m c c'"
    if "replied ?env t base PUT (client_path realm i []) (Some (JObj m)) raw" "clients_of (?st t) (realm, i) = Some c"
    for t base realm i m raw c
    by (rule put_client_fields [OF client_written [OF that(1)] that(2)]) simp
  show "\<exists>ms. lists_objects ?env raw ms \<and> (\<forall>m \<in> set ms. wf_rep m \<and> hc_mappers c (string_value m ''name'') = Some m) \<and>
      dom (hc_mappers c) \<subseteq> names_of ms"
    if "replied ?env t base GET (mappers_path realm i) None raw" "clients_of (?st t) (realm, i) = Some c"
    for t base realm i raw c
    using client_shown [OF that(1)] listed_mappers [OF _ that(2) kept_clients_ok] shown_lists(1) by metis
  show "\<exists>new. clients_of (?st (t @ [AdminCall base POST (mappers_path realm i) (Some (JObj m))]))
      = (clients_of (?st t))((realm, i) \<mapsto> c\<lparr>hc_mappers := (hc_mappers c)(n \<mapsto> new)\<rparr>) \<and> holds m new"
    if "replied ?env t base POST (mappers_path realm i) (Some (JObj m)) raw" "clients_of (?st t) (realm, i) = Some c"
      "string_value m ''name'' = n" for t base realm i m raw c n
    using posted_mapper [OF client_written [OF that(1)] that(2)] that(3) by simp
  show "\<exists>new. clients_of (?st (t @ [AdminCall base PUT (mappers_path realm i @ ''/'' @ path_escape (id_of x)) (Some (JObj m))]))
      = (clients_of (?st t))((realm, i) \<mapsto> c\<lparr>hc_mappers := (hc_mappers c)(n \<mapsto> new)\<rparr>) \<and> holds m new"
    if "replied ?env t base PUT (mappers_path realm i @ ''/'' @ path_escape (id_of x)) (Some (JObj m)) raw"
      "clients_of (?st t) (realm, i) = Some c" "string_value m ''name'' = n" for t base realm i x m raw c n
    using put_mapper_fields [OF client_written [OF that(1)] that(2)] that(3) by simp
  show "\<exists>ms. lists_objects ?env raw ms \<and> names_of ms = {n. hc_scopes c n = Some kind}"
    if "replied ?env t base GET (scopes_path realm i kind) None raw" "kind \<in> scope_kinds"
      "clients_of (?st t) (realm, i) = Some c" for t base realm i kind raw c
    using client_shown [OF that(1)] listed_scopes [OF _ that(2,3) kept_clients_ok] shown_lists(1) by metis
  show "\<exists>ms. lists_objects ?env raw ms \<and> (\<forall>m \<in> set ms. id_of m = string_value m ''name'')"
    if "replied ?env t base GET (realm_path realm ''/client-scopes'') None raw" for t base realm raw
  proof -
    have "raw = json_text (objects (map named_rep scopes))"
      using client_shown [OF that] by (auto simp: read_clients_def)
    then show ?thesis using shown_lists(1) by (intro exI [of _ "map named_rep scopes"]) simp
  qed
  show "\<exists>k. clients_of (?st (t @ [AdminCall base PUT (scopes_path realm i kind @ ''/'' @ path_escape j) None]))
      = (clients_of (?st t))((realm, i) \<mapsto> c\<lparr>hc_scopes := (hc_scopes c)(n \<mapsto> k)\<rparr>) \<and>
      (hc_scopes c n \<in> {None, Some kind} \<longrightarrow> k = kind)"
    if "replied ?env t base PUT (scopes_path realm i kind @ ''/'' @ path_escape j) None raw" "kind \<in> scope_kinds"
      "clients_of (?st t) (realm, i) = Some c" "j = n" for t base realm i kind j raw c n
    using put_one_scope [OF client_written [OF that(1)] that(2,3)] that(4) by simp
  show "\<exists>m. shows_one ?env raw m \<and> hc_account c = Some (id_of m)"
    if "replied ?env t base GET (client_path realm i ''/service-account-user'') None raw" "clients_of (?st t) (realm, i) = Some c"
    for t base realm i raw c
    using client_shown [OF that(1)] read_one_account [OF _ that(2)] shown_lists(2) by metis
  show "\<exists>ms. lists_objects ?env raw ms \<and> names_of ms = {n. (own, n) \<in> hc_roles c}"
    if "replied ?env t base GET (client_roles_path realm j own) None raw" "clients_of (?st t) (realm, i) = Some c"
      "hc_account c = Some j" for t base realm j own raw i c
    using client_shown [OF that(1)] listed_roles [of _ _ _ realm i own] that(2) account_of_client [OF that(2,3)] shown_lists(1)
    by metis
  show "\<exists>m. shows_one ?env raw m \<and> string_value m ''name'' = n"
    if "replied ?env t base GET (client_path realm own (''/roles/'' @ path_escape n)) None raw" for t base realm own n raw
  proof -
    have "raw = json_text (JObj (named_rep n))"
      using client_shown [OF that] by (auto simp: read_clients_def endpoints(6) [simplified] split: if_splits)
    then show ?thesis using shown_lists(2) by (intro exI [of _ "named_rep n"]) simp
  qed
  show "clients_of (?st (t @ [AdminCall base POST (client_roles_path realm j own) (Some (JArr (map JObj ms)))]))
      = (clients_of (?st t))((realm, i) \<mapsto> c\<lparr>hc_roles := hc_roles c \<union> {own} \<times> names_of ms\<rparr>)"
    if "replied ?env t base POST (client_roles_path realm j own) (Some (JArr (map JObj ms))) raw"
      "clients_of (?st t) (realm, i) = Some c" "hc_account c = Some j" for t base realm j own ms raw i c
    using posted_roles [OF client_written [OF that(1) [unfolded account_of_client [OF that(2,3)]]] that(2)]
      account_of_client [OF that(2,3)] by simp
qed

section \<open>A synchronisation of a client in memory\<close>

text \<open>A new client with a service account that has a role of the client itself, a mapper and a scope.\<close>

definition groups_mapper :: protocol_mapper where
  "groups_mapper = \<lparr>pm_name = ''groups'', pm_protocol = [], pm_protocol_mapper = ''oidc-group-membership-mapper'',
     pm_config = [(''claim.name'', ''groups'')]\<rparr>"

definition web_spec :: keycloak_client_spec where
  "web_spec = zero_client_spec\<lparr>cs_client_id := ''web'', cs_allow_client_credentials_grant := True,
     cs_service_account := Some \<lparr>sa_client_roles = Some [(''web'', [''admin''])]\<rparr>,
     cs_protocol_mappers := Some [groups_mapper], cs_default_client_scopes := Some [''email'']\<rparr>"

abbreviation web_server :: "kept_clients server" where
  "web_server \<equiv> client_server [''email''] [''admin'']"

abbreviation web_rep :: representation where
  "web_rep \<equiv> desired_client_representation web_spec []"

definition web_fields :: representation where
  "web_fields = set_key ''id'' (JStr ''web'') web_rep"

definition web_client :: "(string \<times> representation) list \<Rightarrow> (string \<times> string) list \<Rightarrow> (string \<times> string) list \<Rightarrow> kept_clients" where
  "web_client mappers scopes roles =
     [((''master'', ''web''), \<lparr>kc_fields = web_fields, kc_mappers = mappers, kc_scopes = scopes, kc_roles = roles\<rparr>)]"

lemma web_facts [simp]:
  "client_realm web_spec = ''master''" "cs_client_id web_spec = ''web''" "cs_allow_client_credentials_grant web_spec"
  "declared_client_roles web_spec = Some [(''web'', [''admin''])]" "cs_protocol_mappers web_spec = Some [groups_mapper]"
  "cs_default_client_scopes web_spec = Some [''email'']" "cs_optional_client_scopes web_spec = None"
  "cs_client_secret_ref web_spec = None"
  by (simp_all add: web_spec_def zero_client_spec_def client_realm_def declared_client_roles_def)

lemma web_ok: "client_spec_ok web_spec"
  by (simp add: client_spec_ok_def declared_list_def groups_mapper_def) (simp add: web_spec_def zero_client_spec_def)

lemma web_rep_facts [simp]:
  "wf_rep web_rep" "map_of web_rep ''id'' = None" "string_value web_rep ''clientId'' = ''web''"
  "string_value web_fields ''clientId'' = ''web''" "string_value web_fields ''id'' = ''web''" "has_account web_fields"
proof -
  show "wf_rep web_rep" by (rule wf_desired_client) (use web_ok in \<open>simp add: client_spec_ok_def\<close>)
  show "map_of web_rep ''id'' = None"
    by (simp add: desired_client_representation_def Let_def map_of_update map_of_set_other)
  show "string_value web_rep ''clientId'' = ''web''" "string_value web_fields ''clientId'' = ''web''"
    "string_value web_fields ''id'' = ''web''" "has_account web_fields"
    by (simp_all add: string_value_def web_fields_def has_account_def map_of_update desired_client_lookup)
qed

abbreviation groups_rep :: representation where
  "groups_rep \<equiv> desired_mapper_representation groups_mapper"

lemma groups_facts [simp]:
  "wf_rep groups_rep" "map_of groups_rep ''id'' = None" "string_value groups_rep ''name'' = ''groups''" "pm_name groups_mapper = ''groups''"
  by (simp_all add: desired_mapper_representation_def groups_mapper_def string_value_def string_map_def)

lemma web_reads:
  "read_clients scopes roles [] (clients_search ''master'' ''web'') = Some (objects [])"
  "read_clients scopes roles (web_client ms ss rs) (clients_search ''master'' ''web'') = Some (objects [web_fields])"
  "read_clients scopes roles (web_client ms ss rs) (client_path ''master'' ''web'' ''/service-account-user'') = Some (JObj (named_rep ''web''))"
  "read_clients scopes roles (web_client ms ss []) (client_roles_path ''master'' ''web'' ''web'') = Some (objects [])"
  "read_clients scopes [''admin''] st (client_path ''master'' ''web'' (''/roles/'' @ path_escape ''admin'')) = Some (JObj (named_rep ''admin''))"
  "read_clients scopes roles (web_client [] ss rs) (mappers_path ''master'' ''web'') = Some (objects [])"
  "read_clients scopes roles (web_client ms [] rs) (scopes_path ''master'' ''web'' default_scope_kind) = Some (objects [])"
  "read_clients [''email''] roles st (realm_path ''master'' ''/client-scopes'') = Some (objects [named_rep ''email''])"
  by (simp_all only: read_clients_def endpoints insert_iff simp_thms)
    (simp_all add: web_client_def objects_def)

lemma web_writes:
  "accept_client scopes [] POST (realm_path ''master'' ''/clients'') (Some (JObj web_rep)) = Some (web_client [] [] [])"
  "accept_client scopes (web_client [] [] []) POST (client_roles_path ''master'' ''web'' ''web'')
     (Some (JArr (map JObj [[(''id'', JStr ''admin''), (''name'', JStr ''admin'')]]))) = Some (web_client [] [] [(''web'', ''admin'')])"
  "accept_client scopes (web_client [] [] rs) POST (mappers_path ''master'' ''web'') (Some (JObj groups_rep))
     = Some (web_client [(''groups'', set_key ''id'' (JStr ''groups'') groups_rep)] [] rs)"
  "accept_client [''email''] (web_client ms [] rs) PUT (scopes_path ''master'' ''web'' default_scope_kind @ ''/'' @ path_escape ''email'') None
     = Some (web_client ms [(''email'', default_scope_kind)] rs)"
  by (simp_all only: accept_client_def post_to_def put_to_def endpoints insert_iff simp_thms)
    (simp_all add: web_client_def new_client_def web_fields_def [symmetric] change_client_def add_roles_def add_mapper_def add_scope_def
      into_objects into_representation_def string_value_def [of _ "''name''"] desired_mapper_name Let_def)

lemma web_search:
  assumes "state_in web_server s = st" and "read_clients [''email''] [''admin''] st (clients_search ''master'' ''web'') = Some (objects ms)"
  shows "\<exists>s'. run_state (get_client (served_env web_server cluster) a ''master'' ''web'') s =
      (Inr (find (\<lambda>c. string_value c ''clientId'' = ''web'') ms), s') \<and> state_in web_server s' = st"
  using served_many [of web_server s st "clients_search ''master'' ''web''" ms cluster a] assms
  by (auto simp: get_client_def clients_search_def)

lemma web_roles:
  assumes start: "state_in web_server s = web_client [] [] []"
  shows "\<exists>s'. run_state (reconcile_service_account_roles (served_env web_server cluster) a ''master'' ''web'' web_spec) s
      = (Inr True, s') \<and> state_in web_server s' = web_client [] [] [(''web'', ''admin'')]"
proof -
  let ?env = "served_env web_server cluster" and ?c = "web_client [] [] []"
  let ?role = "[(''id'', JStr ''admin''), (''name'', JStr ''admin'')]"
  obtain s1 where s1: "run_state (get_service_account_user ?env a ''master'' ''web'') s = (Inr (Some (named_rep ''web'')), s1)"
    "state_in web_server s1 = ?c"
    using served_one [OF start, simplified, OF web_reads(3), of cluster a] unfolding get_service_account_user_def by auto
  obtain s2 where s2: "run_state (get_client ?env a ''master'' ''web'') s1 = (Inr (Some web_fields), s2)" "state_in web_server s2 = ?c"
    using web_search [OF s1(2) web_reads(2), of cluster a] by auto
  obtain s3 where s3: "run_state (get_many ?env a (client_roles_path ''master'' ''web'' ''web'')) s2 = (Inr [], s3)"
    "state_in web_server s3 = ?c"
    using served_many [OF s2(2), simplified, OF web_reads(4), of cluster a] by blast
  obtain s4 where s4: "run_state (get_client_role ?env a ''master'' ''web'' ''admin'') s3 = (Inr (Some (named_rep ''admin'')), s4)"
    "state_in web_server s4 = ?c"
    using served_one [OF s3(2), unfolded client_server_simps, OF web_reads(5), of cluster a] unfolding get_client_role_def by blast
  obtain s5 where s5: "run_state (do_send ?env a POST (client_roles_path ''master'' ''web'' ''web'') (Some (JArr (map JObj [?role])))) s4
      = (Inr (), s5)" "state_in web_server s5 = web_client [] [] [(''web'', ''admin'')]"
    using served_sends [OF s4(2), unfolded client_server_simps, OF web_writes(2), of cluster a] by blast
  have "run_state (reconcile_service_account_roles ?env a ''master'' ''web'' web_spec) s = (Inr True, s5)"
    using s1(1) s2(1) s3(1) s4(1) s5(1)
    by (simp add: reconcile_service_account_roles_def grant_client_roles_def list_user_client_roles_def keyed_by_def
        missing_client_role_def add_user_client_roles_def Let_def)
  with s5(2) show ?thesis by blast
qed

lemma web_synchronised:
  assumes start: "state_in web_server s = []"
  shows "\<exists>res s'. run_state (reconcile_client (served_env web_server cluster) a web_spec []) s = (Inr res, s') \<and> clr_uuid res = ''web''"
proof -
  let ?env = "served_env web_server cluster" and ?m = "[(''groups'', set_key ''id'' (JStr ''groups'') groups_rep)]"
    and ?r = "[(''web'', ''admin'')]"
  obtain s1 where s1: "run_state (get_client ?env a ''master'' ''web'') s = (Inr None, s1)" "state_in web_server s1 = []"
    using web_search [OF start web_reads(1), of cluster a] by auto
  obtain s2 where s2: "run_state (do_send ?env a POST (realm_path ''master'' ''/clients'') (Some (JObj web_rep))) s1 = (Inr (), s2)"
    "state_in web_server s2 = web_client [] [] []"
    using served_sends [OF s1(2), unfolded client_server_simps, OF web_writes(1), of cluster a] by blast
  obtain s3 where s3: "run_state (get_client ?env a ''master'' ''web'') s2 = (Inr (Some web_fields), s3)"
    "state_in web_server s3 = web_client [] [] []" using web_search [OF s2(2) web_reads(2), of cluster a] by auto
  obtain s4 where s4: "run_state (reconcile_service_account_roles ?env a ''master'' ''web'' web_spec) s3 = (Inr True, s4)"
    "state_in web_server s4 = web_client [] [] ?r" using web_roles [OF s3(2)] by blast
  obtain s5 where s5: "run_state (get_many ?env a (mappers_path ''master'' ''web'')) s4 = (Inr [], s5)"
    "state_in web_server s5 = web_client [] [] ?r"
    using served_many [OF s4(2), unfolded client_server_simps, OF web_reads(6), of cluster a] by blast
  obtain s6 where s6: "run_state (do_send ?env a POST (mappers_path ''master'' ''web'') (Some (JObj groups_rep))) s5 = (Inr (), s6)"
    "state_in web_server s6 = web_client ?m [] ?r"
    using served_sends [OF s5(2), unfolded client_server_simps, OF web_writes(3), of cluster a] by blast
  obtain s7 where s7: "run_state (get_many ?env a (scopes_path ''master'' ''web'' default_scope_kind)) s6 = (Inr [], s7)"
    "state_in web_server s7 = web_client ?m [] ?r"
    using served_many [OF s6(2), unfolded client_server_simps, OF web_reads(7), of cluster a] by blast
  obtain s8 where s8: "run_state (get_many ?env a (realm_path ''master'' ''/client-scopes'')) s7 = (Inr [named_rep ''email''], s8)"
    "state_in web_server s8 = web_client ?m [] ?r"
    using served_many [OF s7(2), unfolded client_server_simps, OF web_reads(8), of cluster a] by blast
  obtain s9 where s9: "run_state (do_send ?env a PUT (scopes_path ''master'' ''web'' default_scope_kind @ ''/'' @ path_escape ''email'') None) s8
      = (Inr (), s9)"
    using served_sends [OF s8(2), unfolded client_server_simps, OF web_writes(4), of cluster a] by blast
  have place: "run_state (place_client ?env a web_spec [] None) s1
      = (Inr \<lparr>clr_uuid = ''web'', clr_created = True, clr_updated = False\<rparr>, s3)"
    using s2(1) s3(1) by (simp add: place_client_def create_client_def identifier_of_def Let_def)
  have mappers: "run_state (reconcile_protocol_mappers ?env a ''master'' ''web'' (Some [groups_mapper])) s4 = (Inr True, s6)"
    using s5(1) s6(1)
    by (simp add: reconcile_protocol_mappers_def list_protocol_mappers_def keyed_by_def place_mapper_def create_protocol_mapper_def Let_def)
  have scopes: "run_state (reconcile_client_scopes ?env a ''master'' ''web'' default_scope_kind (Some [''email''])) s6 = (Inr True, s9)"
    using s7(1) s8(1) s9
    by (simp add: reconcile_client_scopes_def list_client_scopes_def list_realm_client_scopes_def keyed_by_def assign_scope_def
        add_client_scope_def)
  have "run_state (reconcile_client_scopes ?env a ''master'' ''web'' optional_scope_kind None) s9 = (Inr False, s9)"
    by (simp add: reconcile_client_scopes_def)
  with s1(1) place s4(1) mappers scopes show ?thesis by (simp add: reconcile_client_def Let_def)
qed

lemma no_clients: "clients_of [] = Map.empty"
  by (rule ext) (simp add: clients_of_def)

theorem reconcile_client_refines_witness:
  "\<exists>res s'. run_state (reconcile_client (served_env web_server team_cluster) 0 web_spec []) one_api = (Inr res, s') \<and>
     client_declared web_spec [] Map.empty res (clients_of (state_after web_server (st_trace s')))"
proof -
  have start: "state_after web_server (st_trace one_api) = []" by (simp add: one_api_def initial_state_def)
  obtain res s' where run: "run_state (reconcile_client (served_env web_server team_cluster) 0 web_spec []) one_api = (Inr res, s')"
    using web_synchronised [of one_api team_cluster 0] start by (auto simp: state_in_def)
  from reconcile_client_refines [OF client_memory.client_store_axioms web_ok run] run
  show ?thesis unfolding start no_clients by blast
qed

text \<open>The pass over the resource of that client, from the first state of the program.\<close>

definition team_client :: k8s_object where
  "team_client = with_finalizer keycloak_client_finalizer
     (new_object keycloak_client_gvk ''team'' ''web'' (ClientContent web_spec new_client_status))"

fun client_cluster :: "gvk \<Rightarrow> string \<Rightarrow> string \<Rightarrow> go_err + k8s_object" where
  "client_cluster k ns n =
     (if k = keycloak_client_gvk then Inr team_client
      else if k = secret_gvk \<and> n = admin_secret_name then Inr team_secret
      else Inl (K8sErr NotFound ''not found''))"

abbreviation client_world :: env where
  "client_world \<equiv> served_env web_server client_cluster"

definition client_reconciler :: api_reconciler where
  "client_reconciler = (sample_api_reconciler [])\<lparr>ar_env := client_world\<rparr>"

lemma client_world_facts [simp]:
  "ar_env client_reconciler = client_world"
  "has_finalizer keycloak_client_finalizer team_client" "\<not> is_deleting team_client"
  "client_spec_of team_client = web_spec" "meta_namespace (ob_meta team_client) = ''team''"
  by (simp_all add: client_reconciler_def team_client_def with_finalizer_def
      set_finalizers_def has_finalizer_def is_deleting_def new_meta_def client_spec_of_def)

lemma client_secret_readable: "has_admin_secret client_world ns"
  by (auto simp: has_admin_secret_def team_secret_def secret_value_def secret_data_def admin_secret_username_key_def
      admin_secret_password_key_def admin_secret_name_def internal_admin_secret_name_def secret_gvk_def
      keycloak_client_gvk_def)

lemma client_published:
  "\<exists>r s' published spec st. run_state (reconcile_client_resource client_reconciler ''team'' ''web'') initial_state = (r, s') \<and>
     K8sUpdateStatus published \<in> set (new_calls initial_state s') \<and>
     ob_content published = ClientContent spec st \<and> cst_status st = ServiceReady"
proof -
  let ?s = "record_call (K8sGet keycloak_client_gvk ''team'' ''web'') initial_state"
  have found: "env_get client_world (st_trace initial_state) keycloak_client_gvk ''team'' ''web'' = Inr team_client" by simp
  obtain a u before where a: "run_state (resource_admin_api client_reconciler ''team'') ?s = (Inr a, u)"
    and fresh: "state_in web_server u = []" and before: "st_trace u = st_trace ?s @ before"
    using served_resolved [OF client_world_facts(1) client_secret_readable] by (metis client_server_simps(1))
  obtain res v where v: "run_state (reconcile_client client_world a web_spec []) u = (Inr res, v)"
    using web_synchronised [OF fresh, of client_cluster a] by blast
  obtain later where later: "st_trace v = st_trace u @ later" using emitted [OF client_writes v] ..
  define status where "status = with_client_status \<lparr>cst_status = ServiceReady,
      cst_message = client_ready_message web_spec, cst_client_uuid = clr_uuid res,
      cst_observed_generation = meta_generation (ob_meta team_client)\<rparr>"
  have "takes_status client_world keycloak_client_gvk ''team'' ''web''" by (simp add: takes_status_def)
  then obtain current s' where s': "run_state (write_status client_world keycloak_client_gvk ''team'' ''web'' status) v = ((), s')"
    "st_trace s' = st_trace v @ [K8sGet keycloak_client_gvk ''team'' ''web'', K8sUpdateStatus (status current)]"
    by (rule status_written)
  have "\<exists>r. run_state (reconcile_client_resource client_reconciler ''team'' ''web'') initial_state = (r, s')"
    using a v s'(1) found
    by (simp add: reconcile_client_resource_def run_fetched with_admin_api_def ensure_finalizer_def client_secret_def
        reconcile_live_client_def failing_step_def ready_pass_def set_client_status_def run_state_bind Let_def status_def)
  moreover have "K8sUpdateStatus (status current) \<in> set (new_calls initial_state s')"
    using before later s'(2) by (simp add: new_calls_def)
  moreover have "\<exists>spec st. ob_content (status current) = ClientContent spec st \<and> cst_status st = ServiceReady"
    by (simp add: status_def with_client_status_def)
  ultimately show ?thesis by blast
qed

theorem ready_client_is_held_witness:
  "\<exists>s' published spec st ob secret res.
     K8sUpdateStatus published \<in> set (new_calls initial_state s') \<and> ob_content published = ClientContent spec st \<and>
     cst_status st = ServiceReady \<and> worked_on client_world keycloak_client_finalizer team_client ob \<and>
     cst_observed_generation st = meta_generation (ob_meta ob) \<and>
     secret_read client_world (st_trace initial_state) (st_trace s') (meta_namespace (ob_meta ob)) (client_spec_of ob) secret \<and>
     client_declared (client_spec_of ob) secret Map.empty res (clients_of (state_after web_server (st_trace s')))"
proof -
  have start: "clients_of (state_after web_server (st_trace initial_state)) = Map.empty"
    by (simp add: initial_state_def no_clients)
  have store: "client_store (ar_env client_reconciler) (\<lambda>t. clients_of (state_after web_server t)) (\<lambda>realm j. j)"
    using client_memory.client_store_axioms by simp
  have found: "env_get (ar_env client_reconciler) (st_trace initial_state) keycloak_client_gvk ''team'' ''web'' = Inr team_client"
    by simp
  have ok: "client_spec_ok (client_spec_of ob)"
    if "worked_on (ar_env client_reconciler) keycloak_client_finalizer team_client ob" for ob
    using that web_ok by (simp add: worked_on_def)
  obtain r s' published spec st where run: "run_state (reconcile_client_resource client_reconciler ''team'' ''web'') initial_state = (r, s')"
    and ready: "K8sUpdateStatus published \<in> set (new_calls initial_state s')"
      "ob_content published = ClientContent spec st" "cst_status st = ServiceReady"
    using client_published by blast
  from ready_client_is_held [OF store found ok run ready] ready show ?thesis
    unfolding start client_world_facts(1) by metis
qed

end
