(* ===== verification/Spec2Isabelle.thy ===== *)
theory Spec2Isabelle
  imports Json_Value Admission_Webhook Component_Lifecycle Elastic_Stack Admin_Provider Program_Start Platform_Liveness Cluster_Authority Cluster_Permissions Resource_Deletion Realm_Store User_Store Client_Store
begin

text \<open>
  A verification of the NetEye operator, a Kubernetes operator in Go (\<^verbatim>\<open>src/src\<close>, below without
  that prefix). The operator watches NetEye resources, of which one owns the shared platform, and
  the Keycloak resources (users, clients, realms, authentication flows). It declares the
  platform in the cluster, waits until it is ready, drives the Keycloak Admin REST API, and
  publishes what it found in the status of the resources.

  \<^bold>\<open>How the program is modelled.\<close>
  \<^item> A value of the program is a HOL value: a struct is a record, an enumeration a datatype with
    a constructor for any other text, a Go map an association list, an untyped JSON value
    (\<^verbatim>\<open>map[string]any\<close>) the datatype of \<^verbatim>\<open>Json_Value\<close>. Strings are lists of bytes.
  \<^item> An error is a value: a fallible function returns a sum with an error of the datatype of
    \<^verbatim>\<open>Operator_Prelude\<close> on the left, and every early return of the code is a branch.
  \<^item> An effect is a call: an operation is a value of the state monad over the operator's memory
    (\<^verbatim>\<open>Effects\<close>), which holds the Admin API clients and the providers as objects with identity, and
    the list of calls made so far. What the API server, Keycloak, the clock, the random source
    and JSON decoding answer is a parameter, a record of functions of the calls made so far;
    nothing is assumed about them but where a theorem says so. So a theorem without hypotheses
    on that record holds for a server that answers anything at any time, errors included.
  \<^item> Code outside \<^verbatim>\<open>src\<close> is a parameter: \<^verbatim>\<open>net/url\<close>, \<^verbatim>\<open>net.ParseIP\<close>, the name validators of
    apimachinery, \<^verbatim>\<open>time.ParseDuration\<close>, the JSON decoder, the iteration order of Go maps.

  \<^bold>\<open>The theories\<close>, each on the ones before it.
  \<^item> \<^verbatim>\<open>Operator_Prelude\<close>: named collections, the string functions of Go, association lists, errors.
    \<^verbatim>\<open>Json_Value\<close>: JSON values, \<^verbatim>\<open>reflect.DeepEqual\<close>, merging a representation, with the locale of a
    merge that settles. \<^verbatim>\<open>Crd_Types\<close>: the types of \<^verbatim>\<open>api/v1alpha1\<close>. \<^verbatim>\<open>Keycloak_Options\<close>:
    \<^verbatim>\<open>internal/keycloakconfig\<close>.
  \<^item> \<^verbatim>\<open>Admission_Webhook\<close> (\<^verbatim>\<open>api/v1alpha1/neteye_webhook.go\<close>): exactly which NetEye resources are
    admitted. \<^verbatim>\<open>Component_Lifecycle\<close> (\<^verbatim>\<open>controllers/component_reconciliation.go\<close>): the graph of
    components, its topological order, and the runner, which works in any state.
  \<^item> \<^verbatim>\<open>Effects\<close>: calls, memory, combinators, and the calculi used below: which calls a step can
    make (\<open>emits\<close>), which results it can return (\<open>returns\<close>, \<open>delivers\<close>), which facts about the
    memory it keeps (\<open>keeps\<close>). \<^verbatim>\<open>Trace_Logic\<close> adds Hoare triples over the calls made so far and the
    locale of a readiness test.
  \<^item> \<^verbatim>\<open>Resource_Apply\<close>, \<^verbatim>\<open>Cluster_Resources\<close> (\<^verbatim>\<open>internal/resources\<close>): ownership, \<^verbatim>\<open>Apply\<close> with its
    conflict retry, the typed helpers, certificates, gateways, routes, policies. \<^verbatim>\<open>Apply\<close> writes
    only what it should, converges, and, against any API server whose answers come from a store and
    which may refuse, implements the update of that store: drift of what is declared is repaired.
  \<^item> \<^verbatim>\<open>Elastic_Stack\<close> (\<^verbatim>\<open>internal/elasticstack\<close>): the collector and the EDOT gateway, their
    endpoints, policies, prerequisites and readiness.
  \<^item> \<^verbatim>\<open>Password_Rules\<close>, \<^verbatim>\<open>Admin_Api\<close>, \<^verbatim>\<open>Realm_Sync\<close>, \<^verbatim>\<open>User_Sync\<close>, \<^verbatim>\<open>Client_Sync\<close>, \<^verbatim>\<open>Flow_Sync\<close>,
    \<^verbatim>\<open>Admin_Provider\<close> (\<^verbatim>\<open>internal/keycloak\<close>): password policies and generation with 64-bit
    wrap-around, the Admin API client and its token, the reconciliation of the four kinds of
    entities, and who the operator authenticates as in which namespace.
  \<^item> \<^verbatim>\<open>Keycloak_Component\<close> (\<^verbatim>\<open>internal/keycloak/component.go\<close> and the declared resources): the operator
    extension, the Keycloak instance, its policies and route, the declared realm, accounts,
    client and flows, and the retirement of the bootstrap account.
  \<^item> \<^verbatim>\<open>NetEye_Controller\<close> (\<^verbatim>\<open>controllers/neteye_controller.go\<close>): the pass over a NetEye.
    \<^verbatim>\<open>NetEye_Status\<close>: the status it publishes. \<^verbatim>\<open>NetEye_Pass\<close>: what a Ready NetEye was seen to be.
    \<^verbatim>\<open>Platform_Liveness\<close>: a platform that is up is published Ready. \<^verbatim>\<open>Call_Kinds\<close>: a table of
    the rights over Kubernetes kinds that the calls of all components and controllers stay within.
    \<^verbatim>\<open>Cluster_Permissions\<close>: the table against the deployed permissions
    (\<^verbatim>\<open>config/manifests/patches/deployment.yaml\<close>). \<^verbatim>\<open>Cluster_Authority\<close>: over all passes
    of all controllers the platform is written for one NetEye only.
  \<^item> \<^verbatim>\<open>Keycloak_Controllers\<close> (the other files of \<^verbatim>\<open>controllers\<close>): finalizers, deletion, credentials and
    status of the four Keycloak controllers. \<^verbatim>\<open>Resource_Deletion\<close>: what a finalizer outlives.
    \<^verbatim>\<open>Keycloak_Store\<close>, \<^verbatim>\<open>Realm_Store\<close>, \<^verbatim>\<open>User_Store\<close>, \<^verbatim>\<open>Client_Store\<close>: what Keycloak holds after the
    synchronisation of a realm, an account or a client; \<^verbatim>\<open>Memory_Server\<close>: Keycloaks in memory. \<^verbatim>\<open>Truthful_Status\<close>: what a published Ready says of it.
    \<^verbatim>\<open>User_Passwords\<close>: what becomes of a generated password. \<^verbatim>\<open>Main_Config\<close>,
    \<^verbatim>\<open>Program_Start\<close> (\<^verbatim>\<open>main.go\<close>): the configuration, the reconcilers built from it, and the calls
    on the manager up to its start.

  \<^bold>\<open>How components meet.\<close> The lifecycle runner calls component operations through the locale
  \<open>component_operation\<close>, interpreted on the three components in \<^verbatim>\<open>NetEye_Controller\<close>; the readiness
  tests of certificate, instance, realm and user are interpretations of \<open>readiness_test\<close>; the six
  declared resources of \<open>declared_once\<close>; the lists that the synchronisation only adds to of
  \<open>declared_entries\<close>; the entities a finalizer guards of \<open>deletable_entity\<close>.
  What the telemetry components call they call through the helpers of \<open>resource_writer\<close>, what a
  pass calls through the steps of \<open>pass_calls\<close>; \<open>kinded_server\<close>, \<open>typed_server\<close> and \<open>lease_server\<close> state
  what the API server promises about kinds and about the authority lease. \<open>kept_view\<close> is a view of
  what a remote store holds, \<open>realm_store\<close>, \<open>user_store\<close> and \<open>client_store\<close> add what Keycloak promises about realms,
  accounts and clients and \<open>serving_store\<close> that it answers; Keycloaks in memory are their instances.

  \<^bold>\<open>What is shown.\<close> Safety over all answers of the outside world: a namespace is only served with
  its own credential; a NetEye is Ready only after its authority and platform were read as
  ready in the same pass; nothing is written without the authority, and never for two NetEyes; stored passwords were
  accepted by Keycloak; finalizers outlive what they guard and orphaned entities stay; the last
  usable credential is never disabled; foreign objects are not touched. Functional
  correctness of the graph, the passwords, the endpoints, the merges and the bindings. Liveness:
  every pass comes back, a platform that is up becomes Ready, and so does a realm with a Keycloak
  that serves it. Refinement: synchronising a realm, an account or a client is an update of what Keycloak holds, which
  keeps what the resource does not declare at every depth, and a Ready that is published says so. Some lemmas show
  behaviour the code does not want (a lost password, a bootstrap step that cannot succeed, a
  deletion the deployed permissions refuse).

  \<^bold>\<open>Bounds and fuel.\<close> \<^verbatim>\<open>RetryOnConflict\<close> retries as often as the parameter \<open>env_retries\<close> says; the
  theorems hold for every bound. The start loop of the Keycloak component ends with its
  context, so it is a function of the list of timer events that arrive. Everything else
  recurses over its data.

  \<^bold>\<open>Not modelled.\<close> Generated deep copies (\<^verbatim>\<open>zz_generated.deepcopy.go\<close>): a HOL value is its own copy.
  The registration of types (\<^verbatim>\<open>groupversion_info.go\<close>) and the parsing of the flags: they only
  call the library. Log lines. Mutexes: the
  operations of a provider run one after the other, which is what its lock enforces. The passes of
  the five controllers, which the process interleaves, are runs of their own.
  The panic of \<^verbatim>\<open>make\<close> for a password length no machine can hold.
\<close>

end
